(* ===== verification/Lmdb_Prelude.thy ===== *)
theory Lmdb_Prelude
  imports Main "HOL-Library.Word" "HOL-Library.Multiset" "HOL-Library.Monad_Syntax"
begin

section \<open>Prelude: machine types, checked arrays, shared lemmas\<close>

text \<open>
  The types, the array primitives and the generic lemmas that the component theories share.

  A C array is a list together with \<^emph>\<open>checked\<close> accesses: \<open>aget\<close> and \<open>aput\<close> return
  \<^const>\<open>None\<close> for an index outside of the allocated cells. A function of the model that
  returns \<^const>\<open>None\<close> is a run of the C code that has undefined behaviour (an access out of
  bounds, a failed assertion) or does not end, so a lemma that a function returns
  \<^const>\<open>Some\<close> shows that the C code is memory safe and terminates on those inputs.
\<close>

unbundle bit_operations_syntax

subsection \<open>Named collections\<close>

named_theorems array_simps \<open>simplification of checked array accesses\<close>
named_theorems flag_simps \<open>bit masks on flag words\<close>
named_theorems mem_simps \<open>reads of the byte memory after writes\<close>

subsection \<open>Machine types\<close>

type_synonym byte = "8 word"
type_synonym u16 = "16 word"
type_synonym u32 = "32 word"
type_synonym u64 = "64 word"

type_synonym bytes = "byte list"

subsection \<open>Checked arrays\<close>

definition aget :: "'a list \<Rightarrow> nat \<Rightarrow> 'a option" where
  "aget xs i = (if i < length xs then Some (xs ! i) else None)"

definition aput :: "'a list \<Rightarrow> nat \<Rightarrow> 'a \<Rightarrow> 'a list option" where
  "aput xs i v = (if i < length xs then Some (xs[i := v]) else None)"

lemma aget_in [simp, array_simps]: "i < length xs \<Longrightarrow> aget xs i = Some (xs ! i)"
  by (simp add: aget_def)

lemma aput_in [simp, array_simps]: "i < length xs \<Longrightarrow> aput xs i v = Some (xs[i := v])"
  by (simp add: aput_def)

lemma aget_eq_Some [array_simps]: "aget xs i = Some v \<longleftrightarrow> i < length xs \<and> xs ! i = v"
  by (auto simp: aget_def)

lemma aput_eq_Some [array_simps]: "aput xs i v = Some ys \<longleftrightarrow> i < length xs \<and> ys = xs[i := v]"
  by (auto simp: aput_def)

lemma aget_eq_None [array_simps]: "aget xs i = None \<longleftrightarrow> length xs \<le> i"
  by (auto simp: aget_def)

lemma aput_eq_None [array_simps]: "aput xs i v = None \<longleftrightarrow> length xs \<le> i"
  by (auto simp: aput_def)

subsection \<open>Words as natural numbers\<close>

lemma unat_add_le: 
  assumes "unat (c::'a::len word) + k \<le> unat (a::'a word)" 
  shows "unat (c + of_nat k) = unat c + k"
proof -
  have "unat c + k < 2 ^ LENGTH('a)" using assms unsigned_less by (rule le_less_trans)
  then show ?thesis by (simp add: unat_word_ariths unat_of_nat take_bit_eq_mod mod_simps)
qed

lemma unat_Suc_le: "unat (c::'a::len word) < unat (a::'a word) \<Longrightarrow> unat (c + 1) = Suc (unat c)"
  using unat_add_le[of c 1 a] by simp

text \<open>A number of 32 bits that an \<open>int\<close> holds.\<close>

lemma sint_small: "unat (w :: u32) < 2 ^ 31 \<Longrightarrow> sint w = int (unat w)"
proof -
  assume "unat w < 2 ^ 31"
  then have "int (unat w) < int (2 ^ 31)" by (simp only: of_nat_less_iff)
  then have "signed_take_bit 31 (uint w) = uint w" by (intro signed_take_bit_int_eq_self order_trans[OF _ uint_ge_0]) auto
  then show ?thesis by (simp add: sint_uint)
qed

lemma unat_ucast_32_64 [simp]: "unat (ucast (n::u32) :: u64) = unat n"
  by (simp add: unsigned_ucast_eq take_bit_nat_eq_self_iff unsigned_less[THEN less_le_trans])

lemma unat_and_not_mask: "unat ((x::'a::len word) AND NOT (mask k)) = unat x - unat x mod 2 ^ k"
proof -
  have "x AND NOT (mask k) = x - take_bit k x"
  proof -
    have "x AND NOT (mask k) = push_bit k (drop_bit k x)"
      by (rule bit_word_eqI) (auto simp: bit_simps)
    then show ?thesis by (metis add_diff_cancel_right' bits_ident)
  qed
  moreover have "unat (take_bit k x) = unat x mod 2 ^ k"
    by (subst unsigned_take_bit_eq) (simp add: take_bit_eq_mod)
  moreover from this have "take_bit k x \<le> x" by (simp add: word_le_nat_alt)
  ultimately show ?thesis by (simp add: unat_sub)
qed

end
