(* ===== verification/Midl.thy ===== *)
theory Midl
  imports Lmdb_Prelude
begin

section \<open>ID lists (midl.c)\<close>

text \<open>
  The sorted ID lists of \<^verbatim>\<open>midl.c\<close>: \<open>MDB_IDL\<close> (descending page or transaction numbers,
  cell 0 holds the count, cell -1 the allocated length) and \<open>MDB_ID2L\<close> (ascending pairs of a
  page number and an address). Every operation of the file is a definition with checked array
  accesses; the sort is in the theory \<open>Midl_Sort\<close>.

  The allocator is the C library's: a request either fails or returns cells whose new part is
  uninitialised. Both are parameters of the definitions that allocate: \<open>ok\<close> says for which
  sizes in bytes a request succeeds, \<open>g\<close> gives the contents of the uninitialised cells.
\<close>

subsection \<open>Data\<close>

type_synonym MDB_ID = u64

definition MDB_IDL_UM_MAX :: nat where
  "MDB_IDL_UM_MAX = 2 ^ (16 + 1) - 1"

definition ID_MAX :: MDB_ID where
  "ID_MAX = - 1"

record MDB_IDL =
  alloclen :: MDB_ID
  cells :: "MDB_ID list"

definition ENOMEM :: int where
  "ENOMEM = 12"

definition realloc_cells :: "(nat \<Rightarrow> bool) \<Rightarrow> (nat \<Rightarrow> MDB_ID) \<Rightarrow> MDB_ID list \<Rightarrow> nat \<Rightarrow> MDB_ID list option" where
  "realloc_cells ok g old n =
     (if ok (8 * (n + 1)) then Some (take n old @ map g [length old..<n]) else None)"

subsection \<open>Binary search\<close>

text \<open>
  The loop of \<open>mdb_midl_search\<close>, \<open>mdb_mid2l_search\<close> and \<open>mdb_pid_insert\<close>: the three functions
  repeat it with their own comparison, which is the parameter \<open>probe\<close>. The result says whether
  the loop left through the \<open>return cursor\<close> of its last branch.
\<close>

definition CMP :: "MDB_ID \<Rightarrow> MDB_ID \<Rightarrow> int" where
  "CMP x y = (if x < y then - 1 else if x > y then 1 else 0)"

function bsearch :: "(nat \<Rightarrow> int option) \<Rightarrow> nat \<Rightarrow> nat \<Rightarrow> int \<Rightarrow> nat \<Rightarrow> (bool \<times> nat) option" where
  "bsearch probe base cursor val n =
     (if 0 < n then
        let pivot = n div 2; cursor = base + pivot + 1 in
        case probe cursor of
          None \<Rightarrow> None
        | Some val \<Rightarrow>
            if val < 0 then bsearch probe base cursor val pivot
            else if val > 0 then bsearch probe cursor cursor val (n - (pivot + 1))
            else Some (True, cursor)
      else Some (False, if val > 0 then cursor + 1 else cursor))"
  by pat_completeness auto
termination
  by (relation "measure (\<lambda>(probe, base, cursor, val, n). n)") auto

declare bsearch.simps [simp del]

definition mdb_midl_search :: "MDB_ID list \<Rightarrow> MDB_ID \<Rightarrow> nat option" where
  "mdb_midl_search ids idv = do {
     c \<leftarrow> aget ids 0;
     (found, cursor) \<leftarrow> bsearch (\<lambda>i. map_option (\<lambda>x. CMP x idv) (aget ids i)) 0 1 0 (unat c mod 2 ^ 32);
     Some (cursor mod 2 ^ 32)
   }"

subsection \<open>Allocation\<close>

definition mdb_midl_alloc :: "(nat \<Rightarrow> bool) \<Rightarrow> (nat \<Rightarrow> MDB_ID) \<Rightarrow> nat \<Rightarrow> MDB_IDL option" where
  "mdb_midl_alloc ok g num =
     map_option (\<lambda>ids. \<lparr>alloclen = of_nat num, cells = ids[0 := 0]\<rparr>)
       (realloc_cells ok g [] (num + 1))"

definition mdb_midl_shrink :: "(nat \<Rightarrow> bool) \<Rightarrow> (nat \<Rightarrow> MDB_ID) \<Rightarrow> MDB_IDL \<Rightarrow> MDB_IDL" where
  "mdb_midl_shrink ok g idp =
     (if unat (alloclen idp) > MDB_IDL_UM_MAX then
        case realloc_cells ok g (cells idp) MDB_IDL_UM_MAX of
          None \<Rightarrow> idp
        | Some ids \<Rightarrow> \<lparr>alloclen = of_nat MDB_IDL_UM_MAX, cells = ids\<rparr>
      else idp)"

text \<open>
  The argument of \<open>mdb_midl_grow\<close> is an \<open>int\<close>, to which its callers convert a count of 32 or 64 bits; it is extended
  with its sign when it is added to the recorded length, and the size in bytes is computed in 64 bits.
\<close>

definition mdb_midl_grow :: "(nat \<Rightarrow> bool) \<Rightarrow> (nat \<Rightarrow> MDB_ID) \<Rightarrow> MDB_IDL \<Rightarrow> int \<Rightarrow> int \<times> MDB_IDL" where
  "mdb_midl_grow ok g idp num =
     (case realloc_cells ok g (cells idp) (unat ((alloclen idp + of_int num + 2) * 8) div 8 - 1) of
        None \<Rightarrow> (ENOMEM, idp)
      | Some idn \<Rightarrow> (0, \<lparr>alloclen = alloclen idp + of_int num, cells = idn\<rparr>))"

text \<open>The guarded call of \<open>mdb_midl_grow\<close> at the head of the three append functions.\<close>

definition midl_grow_if :: "bool \<Rightarrow> (nat \<Rightarrow> bool) \<Rightarrow> (nat \<Rightarrow> MDB_ID) \<Rightarrow> MDB_IDL \<Rightarrow> int \<Rightarrow> int \<times> MDB_IDL" where
  "midl_grow_if too_big ok g idp num = (if too_big then mdb_midl_grow ok g idp num else (0, idp))"

definition mdb_midl_need :: "(nat \<Rightarrow> bool) \<Rightarrow> (nat \<Rightarrow> MDB_ID) \<Rightarrow> MDB_IDL \<Rightarrow> u32 \<Rightarrow> (int \<times> MDB_IDL) option" where
  "mdb_midl_need ok g idp num = do {
     c \<leftarrow> aget (cells idp) 0;
     let num = num + ucast c;
     if unat num > unat (alloclen idp) then
       (let num = (num + num div 4 + (256 + 2)) AND (- 256) in
        case realloc_cells ok g (cells idp) (unat num - 1) of
          None \<Rightarrow> Some (ENOMEM, idp)
        | Some ids \<Rightarrow> Some (0, \<lparr>alloclen = ucast (num - 2), cells = ids\<rparr>))
     else Some (0, idp)
   }"

subsection \<open>Appending\<close>

definition mdb_midl_xappend :: "MDB_ID list \<Rightarrow> MDB_ID \<Rightarrow> MDB_ID list option" where
  "mdb_midl_xappend xidl idv = do {
     c \<leftarrow> aget xidl 0;
     let xlen = c + 1;
     xidl \<leftarrow> aput xidl 0 xlen;
     aput xidl (unat xlen) idv
   }"

definition mdb_midl_append :: "(nat \<Rightarrow> bool) \<Rightarrow> (nat \<Rightarrow> MDB_ID) \<Rightarrow> MDB_IDL \<Rightarrow> MDB_ID \<Rightarrow> (int \<times> MDB_IDL) option" where
  "mdb_midl_append ok g idp idv = do {
     c \<leftarrow> aget (cells idp) 0;
     let (rc, idp) = midl_grow_if (c \<ge> alloclen idp) ok g idp (int MDB_IDL_UM_MAX);
     if rc \<noteq> 0 then Some (ENOMEM, idp)
     else do {
       ids \<leftarrow> aput (cells idp) 0 (c + 1);
       ids \<leftarrow> aput ids (unat (c + 1)) idv;
       Some (0, idp\<lparr>cells := ids\<rparr>)
     }
   }"

fun copy_cells :: "MDB_ID list \<Rightarrow> nat \<Rightarrow> MDB_ID list \<Rightarrow> MDB_ID list option" where
  "copy_cells dst i [] = Some dst"
| "copy_cells dst i (x # xs) = do { dst \<leftarrow> aput dst i x; copy_cells dst (i + 1) xs }"

definition mdb_midl_append_list :: "(nat \<Rightarrow> bool) \<Rightarrow> (nat \<Rightarrow> MDB_ID) \<Rightarrow> MDB_IDL \<Rightarrow> MDB_ID list \<Rightarrow> (int \<times> MDB_IDL) option" where
  "mdb_midl_append_list ok g idp app = do {
     c \<leftarrow> aget (cells idp) 0;
     a \<leftarrow> aget app 0;
     let (rc, idp) = midl_grow_if (c + a \<ge> alloclen idp) ok g idp (sint (ucast a :: u32));
     if rc \<noteq> 0 then Some (ENOMEM, idp)
     else if length app \<le> unat a then None
     else do {
       ids \<leftarrow> copy_cells (cells idp) (unat c + 1) (take (unat a) (tl app));
       ids \<leftarrow> aput ids 0 (c + a);
       Some (0, idp\<lparr>cells := ids\<rparr>)
     }
   }"

fun append_range_loop :: "MDB_ID list \<Rightarrow> nat \<Rightarrow> nat \<Rightarrow> MDB_ID \<Rightarrow> MDB_ID list option" where
  "append_range_loop ids len 0 idv = Some ids"
| "append_range_loop ids len (Suc n) idv = do {
     ids \<leftarrow> aput ids (len + Suc n) idv;
     append_range_loop ids len n (idv + 1)
   }"

definition mdb_midl_append_range :: "(nat \<Rightarrow> bool) \<Rightarrow> (nat \<Rightarrow> MDB_ID) \<Rightarrow> MDB_IDL \<Rightarrow> MDB_ID \<Rightarrow> u32 \<Rightarrow> (int \<times> MDB_IDL) option" where
  "mdb_midl_append_range ok g idp idv n = do {
     len \<leftarrow> aget (cells idp) 0;
     let (rc, idp) = midl_grow_if (len + ucast n > alloclen idp) ok g idp (sint (n OR of_nat MDB_IDL_UM_MAX));
     if rc \<noteq> 0 then Some (ENOMEM, idp)
     else do {
       ids \<leftarrow> aput (cells idp) 0 (len + ucast n);
       ids \<leftarrow> append_range_loop ids (unat len) (unat n) idv;
       Some (0, idp\<lparr>cells := ids\<rparr>)
     }
   }"

subsection \<open>Merging\<close>

text \<open>
  \<open>mdb_midl_xmerge\<close> merges from the tail. \<open>xmerge_shift\<close> is the inner loop that moves the
  smaller IDs of the destination up; cell 0 holds the largest ID as a delimiter meanwhile, so
  the scan ends there. The inner loop decrements \<open>j\<close> before it reads, hence the check that \<open>j\<close>
  is not 0.
\<close>

fun xmerge_shift :: "MDB_ID list \<Rightarrow> MDB_ID \<Rightarrow> MDB_ID \<Rightarrow> nat \<Rightarrow> nat \<Rightarrow> (MDB_ID list \<times> MDB_ID \<times> nat \<times> nat) option" where
  "xmerge_shift idl old_id merge_id j k =
     (if old_id < merge_id then
        (if j = 0 then None
         else do {
           idl \<leftarrow> aput idl k old_id;
           old_id \<leftarrow> aget idl (j - 1);
           xmerge_shift idl old_id merge_id (j - 1) (k - 1)
         })
      else Some (idl, old_id, j, k))"

declare xmerge_shift.simps [simp del]

fun xmerge_loop :: "MDB_ID list \<Rightarrow> MDB_ID list \<Rightarrow> MDB_ID \<Rightarrow> nat \<Rightarrow> nat \<Rightarrow> nat \<Rightarrow> MDB_ID list option" where
  "xmerge_loop idl merge old_id 0 j k = Some idl"
| "xmerge_loop idl merge old_id (Suc i) j k = do {
     merge_id \<leftarrow> aget merge (Suc i);
     (idl, old_id, j, k) \<leftarrow> xmerge_shift idl old_id merge_id j k;
     idl \<leftarrow> aput idl k merge_id;
     xmerge_loop idl merge old_id i j (k - 1)
   }"

definition mdb_midl_xmerge :: "MDB_ID list \<Rightarrow> MDB_ID list \<Rightarrow> MDB_ID list option" where
  "mdb_midl_xmerge idl merge = do {
     i \<leftarrow> aget merge 0;
     j \<leftarrow> aget idl 0;
     let total = i + j;
     idl \<leftarrow> aput idl 0 ID_MAX;
     old_id \<leftarrow> aget idl (unat j);
     idl \<leftarrow> xmerge_loop idl merge old_id (unat i) (unat j) (unat total);
     aput idl 0 total
   }"

subsection \<open>ID/pointer lists\<close>

record MDB_ID2 =
  mid :: MDB_ID
  mptr :: nat

definition mdb_mid2l_search :: "MDB_ID2 list \<Rightarrow> MDB_ID \<Rightarrow> nat option" where
  "mdb_mid2l_search ids idv = do {
     c \<leftarrow> aget ids 0;
     (found, cursor) \<leftarrow> bsearch (\<lambda>i. map_option (\<lambda>x. CMP idv (mid x)) (aget ids i)) 0 1 0 (unat (mid c) mod 2 ^ 32);
     Some (cursor mod 2 ^ 32)
   }"

fun shift_up :: "'a list \<Rightarrow> nat \<Rightarrow> nat \<Rightarrow> 'a list option" where
  "shift_up ids x 0 = Some ids"
| "shift_up ids x (Suc i) =
     (if Suc i > x then do {
        v \<leftarrow> aget ids i;
        ids \<leftarrow> aput ids (Suc i) v;
        shift_up ids x i
      } else Some ids)"

definition mdb_mid2l_insert :: "MDB_ID2 list \<Rightarrow> MDB_ID2 \<Rightarrow> (int \<times> MDB_ID2 list) option" where
  "mdb_mid2l_insert ids idv = do {
     x \<leftarrow> mdb_mid2l_search ids (mid idv);
     c \<leftarrow> aget ids 0;
     if x < 1 then Some (- 2, ids)
     else do {
       dup \<leftarrow> (if x \<le> unat (mid c) then map_option (\<lambda>e. mid e = mid idv) (aget ids x) else Some False);
       if dup then Some (- 1, ids)
       else if unat (mid c) \<ge> MDB_IDL_UM_MAX then Some (- 2, ids)
       else do {
         ids \<leftarrow> aput ids 0 (c\<lparr>mid := mid c + 1\<rparr>);
         ids \<leftarrow> shift_up ids x (unat (mid c + 1) mod 2 ^ 32);
         ids \<leftarrow> aput ids x idv;
         Some (0, ids)
       }
     }
   }"

definition mdb_mid2l_append :: "MDB_ID2 list \<Rightarrow> MDB_ID2 \<Rightarrow> (int \<times> MDB_ID2 list) option" where
  "mdb_mid2l_append ids idv = do {
     c \<leftarrow> aget ids 0;
     if unat (mid c) \<ge> MDB_IDL_UM_MAX then Some (- 2, ids)
     else do {
       ids \<leftarrow> aput ids 0 (c\<lparr>mid := mid c + 1\<rparr>);
       ids \<leftarrow> aput ids (unat (mid c + 1)) idv;
       Some (0, ids)
     }
   }"

subsection \<open>Lists held in an array\<close>

text \<open>\<open>content n arr\<close> is the list in the cells 1 to n of an array whose cell 0 is its header.\<close>

definition content :: "nat \<Rightarrow> 'a list \<Rightarrow> 'a list" where
  "content n arr = take n (tl arr)"

lemma content_nth [simp]: "i < n \<Longrightarrow> n < length arr \<Longrightarrow> content n arr ! i = arr ! Suc i"
  by (cases arr) (auto simp: content_def)

lemma length_content [simp]: "n < length arr \<Longrightarrow> length (content n arr) = n"
  by (simp add: content_def)

lemma set_content: "n < length arr \<Longrightarrow> set (content n arr) = {arr ! i | i. 1 \<le> i \<and> i \<le> n}"
  by (auto simp: in_set_conv_nth set_conv_nth) (metis Suc_diff_1 Suc_le_eq content_nth length_content less_Suc_eq_le not_less_eq)

definition search_outcome :: "(nat \<Rightarrow> int) \<Rightarrow> nat \<Rightarrow> bool \<times> nat \<Rightarrow> bool" where
  "search_outcome pr len r \<longleftrightarrow> 1 \<le> snd r \<and> snd r \<le> len + 1 \<and>
     (if fst r then snd r \<le> len \<and> pr (snd r) = 0
      else (\<forall>i. 1 \<le> i \<and> i < snd r \<longrightarrow> pr i > 0) \<and> (\<forall>i. snd r \<le> i \<and> i \<le> len \<longrightarrow> pr i < 0))"

locale sorted_array =
  fixes probe :: "'a \<Rightarrow> 'k \<Rightarrow> int"
    and before :: "'a \<Rightarrow> 'a \<Rightarrow> bool"
  assumes pos_down: "before x y \<Longrightarrow> probe y k > 0 \<Longrightarrow> probe x k > 0"
    and neg_up: "before x y \<Longrightarrow> probe x k < 0 \<Longrightarrow> probe y k < 0"
begin

lemma cells_ordered:
  assumes "sorted_wrt before (content n arr)" and "n < length arr" and "1 \<le> i" and "i < j" and "j \<le> n"
  shows "before (arr ! i) (arr ! j)"
proof -
  have "before (content n arr ! (i - 1)) (content n arr ! (j - 1))"
    using assms by (intro sorted_wrt_nth_less[OF assms(1)]) auto
  then show ?thesis using assms by simp
qed

lemma bsearch_window:
  assumes srt: "sorted_wrt before (content len arr)" and len: "len < length arr"
    and "base + n \<le> len"
    and "\<And>i. 1 \<le> i \<Longrightarrow> i \<le> base \<Longrightarrow> probe (arr ! i) k > 0"
    and "\<And>i. base + n < i \<Longrightarrow> i \<le> len \<Longrightarrow> probe (arr ! i) k < 0"
    and "val > 0 \<Longrightarrow> cursor = base" and "val < 0 \<Longrightarrow> cursor = base + n + 1"
    and "val = 0 \<Longrightarrow> base = 0 \<and> cursor = 1"
  shows "\<exists>r. bsearch (\<lambda>i. map_option (\<lambda>x. probe x k) (aget arr i)) base cursor val n = Some r \<and>
           search_outcome (\<lambda>i. probe (arr ! i) k) len r"
  using assms(3-8)
proof (induction n arbitrary: base cursor val rule: less_induct)
  case (less n)
  let ?P = "\<lambda>i. map_option (\<lambda>x. probe x k) (aget arr i)"
  show ?case
  proof (cases "n = 0")
    case True
    with less.prems show ?thesis
      by (subst bsearch.simps) (force simp: search_outcome_def not_less linorder_not_le)
  next
    case False
    define p where "p = n div 2"
    define c where "c = base + p + 1"
    have pn: "p < n" using False by (simp add: p_def)
    have c: "1 \<le> c" "c \<le> len" "base < c" "c \<le> base + n"
      using less.prems(1) pn by (auto simp: c_def)
    have P: "aget arr (Suc (base + n div 2)) = Some (arr ! Suc (base + n div 2))"
      using c len by (simp add: p_def c_def)
    have step: "bsearch ?P base cursor val n =
      (if probe (arr ! c) k < 0 then bsearch ?P base c (probe (arr ! c) k) p
       else if probe (arr ! c) k > 0 then bsearch ?P c c (probe (arr ! c) k) (n - (p + 1))
       else Some (True, c))"
      using False by (subst bsearch.simps) (simp add: Let_def P p_def c_def)
    consider "probe (arr ! c) k < 0" | "probe (arr ! c) k > 0" | "probe (arr ! c) k = 0"
      by linarith
    then show ?thesis
    proof cases
      case 1
      have "probe (arr ! i) k < 0" if "base + p < i" "i \<le> len" for i
      proof (cases "i = c")
        case False
        then have "before (arr ! c) (arr ! i)"
          using that c by (intro cells_ordered[OF srt len]) (auto simp: c_def)
        then show ?thesis using neg_up 1 by blast
      qed (use 1 in simp)
      then have "\<exists>r. bsearch ?P base c (probe (arr ! c) k) p = Some r \<and> search_outcome (\<lambda>i. probe (arr ! i) k) len r"
        using 1 less.prems pn c by (intro less.IH) (auto simp: c_def)
      with 1 show ?thesis by (simp add: step)
    next
      case 2
      have "probe (arr ! i) k > 0" if "1 \<le> i" "i \<le> c" for i
      proof (cases "i = c")
        case False
        then have "before (arr ! i) (arr ! c)"
          using that c by (intro cells_ordered[OF srt len]) auto
        then show ?thesis using pos_down 2 by blast
      qed (use 2 in simp)
      then have "\<exists>r. bsearch ?P c c (probe (arr ! c) k) (n - (p + 1)) = Some r \<and> search_outcome (\<lambda>i. probe (arr ! i) k) len r"
        using 2 less.prems pn c by (intro less.IH) (auto simp: c_def)
      with 2 show ?thesis by (simp add: step)
    next
      case 3
      then show ?thesis unfolding step using c by (simp add: search_outcome_def)
    qed
  qed
qed

lemma bsearch_found_or_position:
  assumes "sorted_wrt before (content len arr)" and "len < length arr"
  obtains f c where "bsearch (\<lambda>i. map_option (\<lambda>x. probe x k) (aget arr i)) 0 1 0 len = Some (f, c)"
    and "1 \<le> c" and "c \<le> len + 1"
    and "f \<Longrightarrow> c \<le> len \<and> probe (arr ! c) k = 0"
    and "\<not> f \<Longrightarrow> (\<forall>i. 1 \<le> i \<and> i < c \<longrightarrow> probe (arr ! i) k > 0) \<and> (\<forall>i. c \<le> i \<and> i \<le> len \<longrightarrow> probe (arr ! i) k < 0)"
proof -
  have "\<exists>r. bsearch (\<lambda>i. map_option (\<lambda>x. probe x k) (aget arr i)) 0 1 0 len = Some r \<and>
          search_outcome (\<lambda>i. probe (arr ! i) k) len r"
    by (rule bsearch_window[OF assms]) auto
  with that show thesis by (auto simp: search_outcome_def split: if_splits)
qed

end

lemma CMP_simps [simp]:
  "CMP x y < 0 \<longleftrightarrow> x < y" "CMP x y > 0 \<longleftrightarrow> x > y" "CMP x y = 0 \<longleftrightarrow> x = y"
  by (auto simp: CMP_def)

interpretation midl: sorted_array "\<lambda>x k. CMP x k" "(\<ge>)"
  by unfold_locales auto

interpretation mid2l: sorted_array "\<lambda>x k. CMP k (mid x)" "\<lambda>x y. mid x < mid y"
  by unfold_locales auto

definition idl_count :: "MDB_ID list \<Rightarrow> nat" where
  "idl_count ids = unat (ids ! 0)"

definition idl_list :: "MDB_ID list \<Rightarrow> MDB_ID list" where
  "idl_list ids = content (idl_count ids) ids"

lemma mdb_midl_search_spec:
  assumes "idl_count ids < length ids" and "idl_count ids < 2 ^ 32 - 1"
    and "sorted_wrt (\<ge>) (idl_list ids)"
  shows "\<exists>x. mdb_midl_search ids v = Some x \<and> 1 \<le> x \<and> x \<le> idl_count ids + 1 \<and>
           (v \<in> set (idl_list ids) \<longrightarrow> x \<le> idl_count ids \<and> ids ! x = v) \<and>
           (v \<notin> set (idl_list ids) \<longrightarrow>
              (\<forall>i. 1 \<le> i \<and> i < x \<longrightarrow> ids ! i > v) \<and> (\<forall>i. x \<le> i \<and> i \<le> idl_count ids \<longrightarrow> ids ! i < v))"
proof -
  let ?n = "idl_count ids"
  from assms obtain f c where b: "bsearch (\<lambda>i. map_option (\<lambda>x. CMP x v) (aget ids i)) 0 1 0 ?n = Some (f, c)"
    and c: "1 \<le> c" "c \<le> ?n + 1"
    and f: "f \<Longrightarrow> c \<le> ?n \<and> ids ! c = v"
    and nf: "\<not> f \<Longrightarrow> (\<forall>i. 1 \<le> i \<and> i < c \<longrightarrow> ids ! i > v) \<and> (\<forall>i. c \<le> i \<and> i \<le> ?n \<longrightarrow> ids ! i < v)"
    using midl.bsearch_found_or_position[where arr = ids and len = ?n and k = v]
    by (simp add: idl_list_def) blast
  have "mdb_midl_search ids v = Some c"
    using assms b c unfolding mdb_midl_search_def idl_count_def by (cases ids) auto
  moreover have "f \<longleftrightarrow> v \<in> set (idl_list ids)"
    using assms f nf c by (auto simp: idl_list_def set_content) (metis dual_order.irrefl linorder_not_le)
  ultimately show ?thesis using c f nf by auto
qed

subsection \<open>Growing and appending\<close>

lemma content_alt: "n < length arr \<Longrightarrow> content n arr = map (\<lambda>i. arr ! Suc i) [0..<n]"
  by (rule nth_equalityI) auto

lemma content_cong:
  assumes "n < length arr" and "n < length arr'" and "\<And>i. 1 \<le> i \<Longrightarrow> i \<le> n \<Longrightarrow> arr ! i = arr' ! i"
  shows "content n arr = content n arr'"
  using assms by (simp add: content_alt)

lemma content_snoc:
  assumes "Suc n < length arr"
  shows "content (Suc n) (arr[0 := c, Suc n := v]) = content n arr @ [v]"
  using assms by (intro nth_equalityI) (auto simp: nth_append less_Suc_eq nth_list_update)

lemma realloc_cells_Some:
  assumes "realloc_cells ok g old n = Some new"
  shows "length new = n" and "i < n \<Longrightarrow> i < length old \<Longrightarrow> new ! i = old ! i"
  using assms by (auto simp: realloc_cells_def nth_append split: if_splits)

definition midl_wf :: "MDB_IDL \<Rightarrow> bool" where
  "midl_wf idp \<longleftrightarrow> length (cells idp) = unat (alloclen idp) + 1 \<and> idl_count (cells idp) \<le> unat (alloclen idp)"

lemma grow_words:
  assumes "unat (a :: u64) + num + 2 < 2 ^ 61"
  shows "unat ((a + of_int (int num) + 2) * 8) div 8 - 1 = unat a + num + 1" and "unat (a + of_int (int num)) = unat a + num"
proof -
  have u: "unat (a + of_nat num) = unat a + num"
    using assms by (simp add: unat_word_ariths unat_of_nat take_bit_eq_mod)
  have "unat (a + of_nat num + 2) = unat a + num + 2" using assms u by (simp add: unat_word_ariths(1)[of "a + of_nat num"])
  then have "unat ((a + of_nat num + 2) * 8) = (unat a + num + 2) * 8" using assms unfolding unat_word_ariths(2)[of "a + of_nat num + 2"] by (simp del: distrib_right_numeral)
  then show "unat ((a + of_int (int num) + 2) * 8) div 8 - 1 = unat a + num + 1" by simp
  show "unat (a + of_int (int num)) = unat a + num" using u by simp
qed

lemma mdb_midl_grow_spec:
  assumes wf: "midl_wf idp" and room: "unat (alloclen idp) + num + 2 < 2 ^ 61"
    and "mdb_midl_grow ok g idp (int num) = (rc, idp')"
  shows "midl_wf idp'" and "idl_list (cells idp') = idl_list (cells idp)" 
    and "cells idp' ! 0 = cells idp ! 0"
    and "rc = 0 \<Longrightarrow> unat (alloclen idp') = unat (alloclen idp) + num"
    and "rc \<noteq> 0 \<Longrightarrow> rc = ENOMEM \<and> idp' = idp"
proof -
  note words = grow_words[OF room]
  have ne: "cells idp \<noteq> []" using wf by (auto simp: midl_wf_def)
  consider "rc = ENOMEM" "idp' = idp"
    | new where "rc = 0" "realloc_cells ok g (cells idp) (unat (alloclen idp) + num + 1) = Some new"
        "idp' = \<lparr>alloclen = alloclen idp + of_int (int num), cells = new\<rparr>"
    using assms(3) unfolding mdb_midl_grow_def words(1) by (auto split: option.splits)
  then have "midl_wf idp' \<and> idl_list (cells idp') = idl_list (cells idp) \<and> cells idp' ! 0 = cells idp ! 0 \<and>
    (rc = 0 \<longrightarrow> unat (alloclen idp') = unat (alloclen idp) + num) \<and> (rc \<noteq> 0 \<longrightarrow> rc = ENOMEM \<and> idp' = idp)"
  proof cases
    case 1
    then show ?thesis using wf by (simp add: ENOMEM_def)
  next
    case 2
    note new = realloc_cells_Some[OF 2(2)]
    have hd: "new ! 0 = cells idp ! 0" using new(2)[of 0] ne by simp
    have "content (idl_count (cells idp)) new = content (idl_count (cells idp)) (cells idp)"
      using wf new by (intro content_cong) (auto simp: midl_wf_def)
    with 2 wf new hd words(2) show ?thesis
      by (auto simp: midl_wf_def idl_list_def idl_count_def)
  qed
  then show "midl_wf idp'" and "idl_list (cells idp') = idl_list (cells idp)" 
    and "cells idp' ! 0 = cells idp ! 0"
    and "rc = 0 \<Longrightarrow> unat (alloclen idp') = unat (alloclen idp) + num"
    and "rc \<noteq> 0 \<Longrightarrow> rc = ENOMEM \<and> idp' = idp" by blast+
qed

lemma midl_grow_if_spec:
  assumes wf: "midl_wf idp" and room: "unat (alloclen idp) + num + 2 < 2 ^ 61"
    and fit: "\<not> too_big \<longrightarrow> idl_count (cells idp) + k \<le> unat (alloclen idp)" and k: "k \<le> num"
    and "midl_grow_if too_big ok g idp (int num) = (rc, idp')"
  shows "midl_wf idp'" and "idl_list (cells idp') = idl_list (cells idp)" 
    and "cells idp' ! 0 = cells idp ! 0"
    and "rc = 0 \<Longrightarrow> idl_count (cells idp') + k \<le> unat (alloclen idp')"
    and "rc \<noteq> 0 \<Longrightarrow> rc = ENOMEM \<and> idp' = idp"
proof -
  note gr = mdb_midl_grow_spec[OF wf room, of ok g rc idp']
  consider "too_big" "mdb_midl_grow ok g idp (int num) = (rc, idp')" | "\<not> too_big" "rc = 0" "idp' = idp"
    using assms(5) by (auto simp: midl_grow_if_def split: if_splits)
  then have "midl_wf idp' \<and> idl_list (cells idp') = idl_list (cells idp) \<and> cells idp' ! 0 = cells idp ! 0
    \<and> (rc = 0 \<longrightarrow> idl_count (cells idp') + k \<le> unat (alloclen idp')) \<and> (rc \<noteq> 0 \<longrightarrow> rc = ENOMEM \<and> idp' = idp)"
  proof cases
    case 1
    show ?thesis using gr[OF 1(2)] wf k by (auto simp: midl_wf_def idl_count_def)
  next
    case 2
    then show ?thesis using wf fit by simp
  qed
  then show "midl_wf idp'" and "idl_list (cells idp') = idl_list (cells idp)" and "cells idp' ! 0 = cells idp ! 0"
    and "rc = 0 \<Longrightarrow> idl_count (cells idp') + k \<le> unat (alloclen idp')"
    and "rc \<noteq> 0 \<Longrightarrow> rc = ENOMEM \<and> idp' = idp"
    by blast+
qed

lemma cells_append:
  assumes "midl_wf idp" and "idl_count (cells idp) < unat (alloclen idp)"
  shows "\<exists>ids. do { ids \<leftarrow> aput (cells idp) 0 (cells idp ! 0 + 1); aput ids (unat (cells idp ! 0 + 1)) v } = Some ids \<and>
     midl_wf (idp\<lparr>cells := ids\<rparr>) \<and> idl_list ids = idl_list (cells idp) @ [v]"
proof -
  let ?n = "idl_count (cells idp)"
  have u: "unat (cells idp ! 0 + 1) = Suc ?n"
    using assms(2) unat_Suc_le by (simp add: idl_count_def)
  have "content (Suc ?n) ((cells idp)[0 := cells idp ! 0 + 1, Suc ?n := v]) = content ?n (cells idp) @ [v]"
    using assms by (intro content_snoc) (auto simp: midl_wf_def)
  moreover have "0 < length (cells idp)" using assms by (simp add: midl_wf_def)
  moreover have "idl_count ((cells idp)[0 := cells idp ! 0 + 1, Suc ?n := v]) = Suc ?n"
    using u calculation by (simp add: idl_count_def)
  ultimately show ?thesis
    using assms u by (auto simp: midl_wf_def idl_list_def)
qed

lemma mdb_midl_append_spec:
  assumes wf: "midl_wf idp" and room: "unat (alloclen idp) + MDB_IDL_UM_MAX + 2 < 2 ^ 61"
  shows "\<exists>rc idp'. mdb_midl_append ok g idp v = Some (rc, idp') \<and> midl_wf idp' \<and>
     (rc = 0 \<longrightarrow> idl_list (cells idp') = idl_list (cells idp) @ [v]) \<and>
     (rc \<noteq> 0 \<longrightarrow> rc = ENOMEM \<and> idp' = idp)"
proof -
  have ne: "0 < length (cells idp)" using wf by (simp add: midl_wf_def)
  obtain rc idp1 where r: "midl_grow_if (cells idp ! 0 \<ge> alloclen idp) ok g idp (int MDB_IDL_UM_MAX) = (rc, idp1)" by fastforce
  have fit: "\<not> cells idp ! 0 \<ge> alloclen idp \<longrightarrow> idl_count (cells idp) + 1 \<le> unat (alloclen idp)"
    by (simp add: idl_count_def word_less_nat_alt not_le)
  have k: "1 \<le> MDB_IDL_UM_MAX" by (simp add: MDB_IDL_UM_MAX_def)
  note g = midl_grow_if_spec[OF wf room fit k r]
  show ?thesis
  proof (cases "rc = 0")
    case True
    then have "idl_count (cells idp1) < unat (alloclen idp1)" using g by simp
    then obtain ids where ids: "do { ids \<leftarrow> aput (cells idp1) 0 (cells idp1 ! 0 + 1); aput ids (unat (cells idp1 ! 0 + 1)) v } = Some ids"
      "midl_wf (idp1\<lparr>cells := ids\<rparr>)" "idl_list ids = idl_list (cells idp1) @ [v]"
      using cells_append[of idp1 v] g(1) by blast
    then have "mdb_midl_append ok g idp v = Some (0, idp1\<lparr>cells := ids\<rparr>)"
      using ne r g(3) True unfolding mdb_midl_append_def by (auto simp: Option.bind_eq_Some_conv)
    then show ?thesis using ids g by simp
  next
    case False
    then have "mdb_midl_append ok g idp v = Some (ENOMEM, idp1)"
      using ne r unfolding mdb_midl_append_def by simp
    then show ?thesis using False g by simp
  qed
qed

lemma copy_cells_spec:
  "i + length xs \<le> length dst \<Longrightarrow>
   copy_cells dst i xs = Some (take i dst @ xs @ drop (i + length xs) dst)"
proof (induction xs arbitrary: dst i)
  case (Cons x xs)
  then show ?case
    by (simp add: take_Suc_conv_app_nth take_update_cancel drop_update_cancel)
qed simp

lemma content_insert:
  assumes "n + length xs < length arr"
  shows "content (n + length xs) ((take (Suc n) arr @ xs @ drop (Suc n + length xs) arr)[0 := c]) = content n arr @ xs"
  using assms by (cases arr) (auto simp: content_def)

lemma mdb_midl_append_list_spec:
  assumes wf: "midl_wf idp" and app: "idl_count app < length app"
    and room: "unat (alloclen idp) + idl_count app + 2 < 2 ^ 61" and small: "idl_count app < 2 ^ 31"
  shows "\<exists>rc idp'. mdb_midl_append_list ok g idp app = Some (rc, idp') \<and> midl_wf idp' \<and>
     (rc = 0 \<longrightarrow> idl_list (cells idp') = idl_list (cells idp) @ idl_list app) \<and>
     (rc \<noteq> 0 \<longrightarrow> rc = ENOMEM \<and> idp' = idp)"
proof -
  have ne: "0 < length (cells idp)" "0 < length app" using wf app by (auto simp: midl_wf_def)
  let ?c = "cells idp ! 0" and ?a = "app ! 0"
  have "unat ?c + unat ?a \<le> unat (alloclen idp) + unat ?a" using wf by (simp add: midl_wf_def idl_count_def)
  then have u: "unat (?c + ?a) = unat ?c + unat ?a"
    using room by (simp add: unat_word_ariths idl_count_def)
  have "unat (ucast ?a :: u32) = unat ?a" using small by (simp add: unsigned_ucast_eq idl_count_def take_bit_nat_eq_self)
  then have num: "sint (ucast ?a :: u32) = int (unat ?a)" using sint_small[of "ucast ?a"] small by (simp add: idl_count_def)
  obtain rc idp1 where r: "midl_grow_if (?c + ?a \<ge> alloclen idp) ok g idp (int (unat ?a)) = (rc, idp1)" by fastforce
  have fit: "\<not> ?c + ?a \<ge> alloclen idp \<longrightarrow> idl_count (cells idp) + unat ?a \<le> unat (alloclen idp)"
    using u by (simp add: idl_count_def word_less_nat_alt not_le)
  note g = midl_grow_if_spec[OF wf room[unfolded idl_count_def] fit order.refl r]
  show ?thesis
  proof (cases "rc = 0")
    case True
    let ?xs = "idl_list app" and ?n = "idl_count (cells idp1)"
    have xs: "length ?xs = unat ?a" "?xs = take (unat ?a) (tl app)"
      using app by (simp_all add: idl_list_def idl_count_def content_def)
    have len: "?n + length ?xs < length (cells idp1)"
      using g(1) g(4)[OF True] xs by (simp add: midl_wf_def)
    have n: "unat ?c = ?n" using g(3) by (simp add: idl_count_def)
    define ids where "ids = take (Suc ?n) (cells idp1) @ ?xs @ drop (Suc ?n + length ?xs) (cells idp1)"
    have cc: "copy_cells (cells idp1) (Suc ?n) ?xs = Some ids"
      using len by (simp add: copy_cells_spec ids_def)
    have ids_len: "length ids = length (cells idp1)" and pos: "0 < length ids" using len by (auto simp: ids_def)
    have cont: "content (?n + length ?xs) (ids[0 := ?c + ?a]) = content ?n (cells idp1) @ ?xs"
      unfolding ids_def by (rule content_insert[OF len])
    have cnt: "idl_count (ids[0 := ?c + ?a]) = ?n + length ?xs"
      using u n xs len ids_len by (subst idl_count_def, subst nth_list_update_eq) auto
    have "mdb_midl_append_list ok g idp app = Some (0, idp1\<lparr>cells := ids[0 := ?c + ?a]\<rparr>)"
      using ne r True app cc n xs pos num unfolding mdb_midl_append_list_def
      by (simp add: idl_count_def)
    moreover have "midl_wf (idp1\<lparr>cells := ids[0 := ?c + ?a]\<rparr>)"
      using g(1) g(4)[OF True] cnt ids_len xs by (simp add: midl_wf_def)
    moreover have "idl_list (ids[0 := ?c + ?a]) = idl_list (cells idp) @ ?xs"
      using cont cnt g(2) by (simp add: idl_list_def)
    ultimately show ?thesis by simp
  next
    case False
    then have "mdb_midl_append_list ok g idp app = Some (ENOMEM, idp1)"
      using ne r num unfolding mdb_midl_append_list_def by simp
    then show ?thesis using False g by simp
  qed
qed

text \<open>The IDs that \<open>mdb_midl_append_range\<close> writes: from the highest to the lowest.\<close>

fun id_range_desc :: "MDB_ID \<Rightarrow> nat \<Rightarrow> MDB_ID list" where
  "id_range_desc v 0 = []"
| "id_range_desc v (Suc n) = id_range_desc (v + 1) n @ [v]"

lemma length_id_range_desc [simp]: "length (id_range_desc v n) = n"
  by (induction n arbitrary: v) auto

lemma id_range_desc_nth: "i < n \<Longrightarrow> id_range_desc v n ! i = v + of_nat (n - 1 - i)"
  by (induction n arbitrary: v) (auto simp: nth_append less_Suc_eq)

lemma append_range_loop_spec:
  "len + n < length ids \<Longrightarrow>
   append_range_loop ids len n v = Some (take (Suc len) ids @ id_range_desc v n @ drop (Suc len + n) ids)"
proof (induction n arbitrary: ids v)
  case (Suc n)
  let ?ids = "ids[len + Suc n := v]"
  have "drop (Suc len + n) ?ids = v # drop (Suc len + Suc n) ids"
    using Suc.prems by (simp add: upd_conv_take_nth_drop)
  moreover have "take (Suc len) ?ids = take (Suc len) ids" by simp
  ultimately show ?case using Suc by simp
qed simp

lemma or_um_max_small:
  assumes "unat (n :: u32) < 2 ^ 31"
  shows "unat (n OR of_nat MDB_IDL_UM_MAX) < 2 ^ 31"
proof -
  have "take_bit 31 (unat n) = unat n" using assms by (simp add: take_bit_nat_eq_self)
  moreover have "take_bit 31 (unat (of_nat MDB_IDL_UM_MAX :: u32)) = unat (of_nat MDB_IDL_UM_MAX :: u32)" by (simp add: MDB_IDL_UM_MAX_def take_bit_eq_mod)
  ultimately have "unat (n OR of_nat MDB_IDL_UM_MAX) = take_bit 31 (unat (n OR of_nat MDB_IDL_UM_MAX))" by (simp add: unsigned_or_eq)
  then show ?thesis by (metis take_bit_nat_less_exp)
qed

lemma mdb_midl_append_range_spec:
  assumes wf: "midl_wf idp" and small: "unat n < 2 ^ 31"
    and room: "unat (alloclen idp) + unat (n OR of_nat MDB_IDL_UM_MAX) + 2 < 2 ^ 61"
  shows "\<exists>rc idp'. mdb_midl_append_range ok g idp v n = Some (rc, idp') \<and> midl_wf idp' \<and>
     (rc = 0 \<longrightarrow> idl_list (cells idp') = idl_list (cells idp) @ id_range_desc v (unat n)) \<and>
     (rc \<noteq> 0 \<longrightarrow> rc = ENOMEM \<and> idp' = idp)"
proof -
  have ne: "0 < length (cells idp)" using wf by (auto simp: midl_wf_def)
  let ?c = "cells idp ! 0" and ?N = "unat (n OR of_nat MDB_IDL_UM_MAX)"
  have nN: "unat n \<le> ?N" by (simp add: word_le_nat_alt[symmetric] le_word_or2)
  have num: "sint (n OR of_nat MDB_IDL_UM_MAX) = int ?N" by (rule sint_small[OF or_um_max_small[OF small]])
  have "unat ?c + unat n \<le> unat (alloclen idp) + ?N" using wf nN by (simp add: midl_wf_def idl_count_def)
  then have u: "unat (?c + ucast n) = unat ?c + unat n"
    using room by (simp add: unat_word_ariths)
  obtain rc idp1 where r: "midl_grow_if (?c + ucast n > alloclen idp) ok g idp (int ?N) = (rc, idp1)" by fastforce
  have fit: "\<not> ?c + ucast n > alloclen idp \<longrightarrow> idl_count (cells idp) + unat n \<le> unat (alloclen idp)"
    using u by (simp add: idl_count_def word_less_nat_alt not_less)
  note g = midl_grow_if_spec[OF wf room fit nN r]
  show ?thesis
  proof (cases "rc = 0")
    case True
    let ?xs = "id_range_desc v (unat n)" and ?n = "idl_count (cells idp1)"
    have len: "?n + unat n < length (cells idp1)"
      using g(1) g(4)[OF True] by (simp add: midl_wf_def)
    have n: "unat ?c = ?n" and pos: "0 < length (cells idp1)" using g(3) len by (auto simp: idl_count_def)
    let ?ids = "(take (Suc ?n) (cells idp1) @ ?xs @ drop (Suc ?n + unat n) (cells idp1))[0 := ?c + ucast n]"
    have app: "append_range_loop ((cells idp1)[0 := ?c + ucast n]) ?n (unat n) v = Some ?ids"
      using len by (subst append_range_loop_spec) (auto simp: take_update_swap list_update_append drop_update_cancel)
    have ids_len: "length ?ids = length (cells idp1)" using len by simp
    have cont: "content (?n + unat n) ?ids = content ?n (cells idp1) @ ?xs"
      using content_insert[of ?n ?xs "cells idp1"] len by simp
    have cnt: "idl_count ?ids = ?n + unat n"
      using u n len by (simp add: idl_count_def nth_append)
    have "mdb_midl_append_range ok g idp v n = Some (0, idp1\<lparr>cells := ?ids\<rparr>)"
      using ne r True app n pos num unfolding mdb_midl_append_range_def by simp
    moreover have "midl_wf (idp1\<lparr>cells := ?ids\<rparr>)"
      using g(1) g(4)[OF True] cnt ids_len by (simp add: midl_wf_def)
    moreover have "idl_list ?ids = idl_list (cells idp) @ ?xs"
      using cont cnt g(2) by (simp add: idl_list_def)
    ultimately show ?thesis by simp
  next
    case False
    then have "mdb_midl_append_range ok g idp v n = Some (ENOMEM, idp1)"
      using ne r num unfolding mdb_midl_append_range_def by simp
    then show ?thesis using False g by simp
  qed
qed

lemma mdb_midl_need_spec:
  assumes wf: "midl_wf idp" and room: "idl_count (cells idp) + unat num \<le> 3000000000"
  shows "\<exists>rc idp'. mdb_midl_need ok g idp num = Some (rc, idp') \<and> midl_wf idp' \<and>
     idl_list (cells idp') = idl_list (cells idp) \<and>
     (rc = 0 \<longrightarrow> idl_count (cells idp') + unat num \<le> unat (alloclen idp')) \<and>
     (rc \<noteq> 0 \<longrightarrow> rc = ENOMEM \<and> idp' = idp)"
proof -
  let ?c = "idl_count (cells idp)"
  define n1 :: u32 where "n1 = num + ucast (cells idp ! 0)"
  define n2 :: u32 where "n2 = (n1 + n1 div 4 + (256 + 2)) AND (- 256)"
  have ne: "0 < length (cells idp)" using wf by (simp add: midl_wf_def)
  have n1: "unat n1 = ?c + unat num"
    using room by (simp add: n1_def unat_word_ariths unsigned_ucast_eq idl_count_def take_bit_eq_mod)
  have "unat (n1 + n1 div 4 + (256 + 2)) = unat n1 + unat n1 div 4 + 258"
    using n1 room by (simp add: unat_word_ariths unat_div)
  moreover have "(- 256 :: u32) = NOT (mask 8)" by (simp add: mask_eq_exp_minus_1 not_eq_complement)
  ultimately have n2: "unat n2 = (unat n1 + unat n1 div 4 + 258) - (unat n1 + unat n1 div 4 + 258) mod 256"
    by (simp only: n2_def unat_and_not_mask) simp
  have "unat n1 + unat n1 div 4 + 2 < unat n2"
    unfolding n2 using mod_less_divisor[of 256 "unat n1 + unat n1 div 4 + 258"] by linarith
  then have big: "unat n1 + 2 < unat n2" by linarith
  have m2: "unat (ucast (n2 - 2) :: u64) = unat n2 - 2"
  proof -
    have "unat (n2 - 2) = unat n2 - 2" using big by (simp add: unat_sub word_le_nat_alt)
    then show ?thesis by simp
  qed
  show ?thesis
  proof (cases "unat n1 > unat (alloclen idp)")
    case False
    then have "mdb_midl_need ok g idp num = Some (0, idp)"
      using ne by (simp add: mdb_midl_need_def Let_def n1_def)
    then show ?thesis using wf False n1 by simp
  next
    case True
    show ?thesis
    proof (cases "realloc_cells ok g (cells idp) (unat n2 - 1)")
      case None
      then have "mdb_midl_need ok g idp num = Some (ENOMEM, idp)"
        using ne True by (simp add: mdb_midl_need_def Let_def n1_def n2_def)
      then show ?thesis using wf by (simp add: ENOMEM_def)
    next
      case (Some ids)
      note new = realloc_cells_Some[OF Some]
      have need: "mdb_midl_need ok g idp num = Some (0, \<lparr>alloclen = ucast (n2 - 2), cells = ids\<rparr>)"
        using ne True Some by (simp add: mdb_midl_need_def Let_def n1_def n2_def)
      have hd: "idl_count ids = ?c" using new(2)[of 0] ne big by (simp add: idl_count_def)
      have "content ?c ids = content ?c (cells idp)"
        using wf new big True n1 by (intro content_cong) (auto simp: midl_wf_def)
      then have "idl_list ids = idl_list (cells idp)" using hd by (simp add: idl_list_def)
      moreover have "midl_wf \<lparr>alloclen = ucast (n2 - 2), cells = ids\<rparr>"
        using hd new(1) big n1 m2 by (auto simp: midl_wf_def)
      moreover have "?c + unat num \<le> unat (ucast (n2 - 2) :: u64)" using big n1 m2 by simp
      ultimately show ?thesis using need hd by simp
    qed
  qed
qed

lemma mdb_midl_alloc_spec:
  assumes "num < 2 ^ 64" and "mdb_midl_alloc ok g num = Some idp"
  shows "midl_wf idp" and "idl_list (cells idp) = []" and "unat (alloclen idp) = num"
  using assms by (auto simp: mdb_midl_alloc_def realloc_cells_def midl_wf_def idl_count_def idl_list_def content_def
      unat_of_nat take_bit_eq_mod split: if_splits)

text \<open>
  \<open>mdb_midl_shrink\<close> keeps one cell less than the others allocate for the same length: its request
  is for \<open>MDB_IDL_UM_MAX + 1\<close> words, while \<open>mdb_midl_alloc\<close> asks for \<open>num + 2\<close>. So a list that is
  filled up to the length it then records is written past its allocation.
\<close>

lemma mdb_midl_shrink_loses_a_cell:
  assumes "midl_wf idp" and "unat (alloclen idp) > MDB_IDL_UM_MAX" and "ok (8 * (MDB_IDL_UM_MAX + 1))"
  shows "length (cells (mdb_midl_shrink ok g idp)) = unat (alloclen (mdb_midl_shrink ok g idp))"
    and "\<not> midl_wf (mdb_midl_shrink ok g idp)"
  using assms by (auto simp: mdb_midl_shrink_def realloc_cells_def midl_wf_def MDB_IDL_UM_MAX_def)

lemma append_after_shrink_overflows:
  assumes "unat (alloclen idp) = length (cells idp)" and "idl_count (cells idp) + 1 = unat (alloclen idp)"
  shows "mdb_midl_append ok g idp v = None"
proof -
  have "0 < length (cells idp)" and lt: "unat (cells idp ! 0) < unat (alloclen idp)"
    using assms by (auto simp: idl_count_def)
  moreover from lt have "\<not> alloclen idp \<le> cells idp ! 0" by (simp add: word_le_nat_alt)
  moreover have "unat (cells idp ! 0 + 1) = length (cells idp)"
    using unat_Suc_le[OF lt] assms by (simp add: idl_count_def)
  ultimately show ?thesis
    by (simp add: mdb_midl_append_def midl_grow_if_def aput_def)
qed

lemma content_Suc:
  "Suc n < length arr \<Longrightarrow> content (Suc n) arr = content n arr @ [arr ! Suc n]"
  by (simp add: content_alt)

lemma sorted_content_last:
  assumes "sorted_wrt (\<ge>) (content n arr)" and "n < length arr" and "x \<in> set (content n arr)"
  shows "(arr ! n :: MDB_ID) \<le> x"
proof (cases n)
  case 0 then show ?thesis using assms by (simp add: content_def)
next
  case (Suc m) then show ?thesis using assms content_Suc[of m arr] by (auto simp: sorted_wrt_append)
qed

lemma xmerge_unroll:
  assumes "aget merge (Suc i) = Some m"
  shows "xmerge_loop idl merge old (Suc i) j k =
    (if old < m then
       (if j = 0 then None
        else do { idl \<leftarrow> aput idl k old; old \<leftarrow> aget idl (j - 1); xmerge_loop idl merge old (Suc i) (j - 1) (k - 1) })
     else do { idl \<leftarrow> aput idl k m; xmerge_loop idl merge old i j (k - 1) })"
  using assms by (simp add: xmerge_shift.simps[of idl old m j k] bind_assoc split: Option.bind_split)

declare xmerge_loop.simps(2) [simp del]

definition merged :: "MDB_ID list \<Rightarrow> nat \<Rightarrow> MDB_ID list \<Rightarrow> nat \<Rightarrow> MDB_ID list \<Rightarrow> bool" where
  "merged idl j merge i idl' \<longleftrightarrow> length idl' = length idl \<and>
     (\<forall>p. i + j < p \<longrightarrow> p < length idl \<longrightarrow> idl' ! p = idl ! p) \<and>
     mset (content (i + j) idl') = mset (content j idl) + mset (content i merge) \<and>
     sorted_wrt (\<ge>) (content (i + j) idl')"

lemma merged_step:
  assumes m: "merged (idl[Suc k := v]) j merge i idl'" and k: "k = i + j" and len: "Suc k < length idl"
    and le: "\<And>x. x \<in> set (content j idl) \<union> set (content i merge) \<Longrightarrow> v \<le> x"
  shows "length idl' = length idl" and "\<And>p. Suc k < p \<Longrightarrow> p < length idl \<Longrightarrow> idl' ! p = idl ! p"
    and "mset (content (Suc k) idl') = mset (content j idl) + mset (content i merge) + {#v#}"
    and "sorted_wrt (\<ge>) (content (Suc k) idl')"
proof -
  show l: "length idl' = length idl" using m by (simp add: merged_def)
  show "\<And>p. Suc k < p \<Longrightarrow> p < length idl \<Longrightarrow> idl' ! p = idl ! p" using m k by (simp add: merged_def)
  have v: "idl' ! Suc k = v" using m k len by (simp add: merged_def)
  have split: "content (Suc k) idl' = content k idl' @ [v]" using content_Suc[of k idl'] len l v by simp
  have same: "content j (idl[Suc k := v]) = content j idl" using k len by (intro content_cong) auto
  have ms: "mset (content k idl') = mset (content j idl) + mset (content i merge)"
    and srt: "sorted_wrt (\<ge>) (content k idl')" using m k same by (auto simp: merged_def)
  show "mset (content (Suc k) idl') = mset (content j idl) + mset (content i merge) + {#v#}"
    using split ms by simp
  have "set (content k idl') = set (content j idl) \<union> set (content i merge)"
    using arg_cong[OF ms, of set_mset] by simp
  then show "sorted_wrt (\<ge>) (content (Suc k) idl')" using split srt le by (simp add: sorted_wrt_append)
qed

lemma xmerge_loop_spec:
  assumes "idl ! 0 = ID_MAX" and "i + j < length idl" and "i < length merge"
    and "sorted_wrt (\<ge>) (content j idl)" and "sorted_wrt (\<ge>) (content i merge)"
  shows "\<exists>idl'. xmerge_loop idl merge (idl ! j) i j (i + j) = Some idl' \<and> idl' ! 0 = ID_MAX \<and> merged idl j merge i idl'"
  using assms
proof (induction "i + j" arbitrary: i j idl)
  case 0
  then show ?case by (simp add: merged_def content_def)
next
  case (Suc k)
  show ?case
  proof (cases i)
    case 0
    with Suc.prems show ?thesis by (simp add: merged_def) (simp add: content_def)
  next
    case (Suc i')
    let ?m = "merge ! i" and ?o = "idl ! j"
    have get: "aget merge (Suc i') = Some ?m" using Suc Suc.prems by simp
    have ci: "content i merge = content i' merge @ [?m]" using Suc Suc.prems content_Suc by simp
    have mle: "?m \<le> x" if "x \<in> set (content i' merge)" for x
      using Suc.prems(5) that by (auto simp: ci sorted_wrt_append)
    show ?thesis
    proof (cases "?o < ?m")
      case True
      have "j \<noteq> 0"
      proof
        assume "j = 0"
        with True Suc.prems(1) have "ID_MAX < ?m" by simp
        then show False by (simp add: ID_MAX_def not_less[symmetric])
      qed
      then obtain j' where j: "j = Suc j'" by (cases j) auto
      have cj: "content j idl = content j' idl @ [?o]" using j Suc.prems content_Suc[of j' idl] by simp
      have ole: "?o \<le> x" if "x \<in> set (content j' idl)" for x
        using Suc.prems(4) that by (auto simp: cj sorted_wrt_append)
      let ?idl = "idl[i + j := ?o]"
      have keep: "content j' ?idl = content j' idl" using j Suc.prems by (intro content_cong) auto
      have "\<exists>idl'. xmerge_loop ?idl merge (?idl ! j') i j' (i + j') = Some idl' \<and> idl' ! 0 = ID_MAX \<and> merged ?idl j' merge i idl'"
        using Suc.hyps(2) Suc.prems j keep cj by (intro Suc.hyps(1)) (auto simp: sorted_wrt_append)
      then obtain idl' where r: "xmerge_loop ?idl merge (?idl ! j') i j' (i + j') = Some idl'" "idl' ! 0 = ID_MAX"
        and mg: "merged (idl[Suc (i + j') := ?o]) j' merge i idl'" using j by auto
      have le: "?o \<le> x" if "x \<in> set (content j' idl) \<union> set (content i merge)" for x
        using that ole mle True by (auto simp: ci intro: order_trans less_imp_le)
      have "xmerge_loop idl merge ?o i j (i + j) = Some idl'"
        using r(1) True j Suc.prems(2) by (simp add: Suc xmerge_unroll[OF get])
      then show ?thesis
        using merged_step[OF mg refl _ le] r(2) j Suc.prems(2) cj by (auto simp: merged_def)
    next
      case False
      let ?idl = "idl[i + j := ?m]"
      have keep: "content j ?idl = content j idl" using Suc Suc.prems by (intro content_cong) auto
      have "\<exists>idl'. xmerge_loop ?idl merge (?idl ! j) i' j (i' + j) = Some idl' \<and> idl' ! 0 = ID_MAX \<and> merged ?idl j merge i' idl'"
        using Suc.hyps(2) Suc.prems Suc keep ci by (intro Suc.hyps(1)) (auto simp: sorted_wrt_append)
      then obtain idl' where r: "xmerge_loop ?idl merge (?idl ! j) i' j (i' + j) = Some idl'" "idl' ! 0 = ID_MAX"
        and mg: "merged (idl[Suc (i' + j) := ?m]) j merge i' idl'" using Suc by auto
      have le: "?m \<le> x" if "x \<in> set (content j idl) \<union> set (content i' merge)" for x
        using that mle False sorted_content_last[OF Suc.prems(4)] Suc.prems(2) by (fastforce simp: not_less)
      have "xmerge_loop idl merge ?o i j (i + j) = Some idl'"
        using r(1) False Suc.prems(2) by (simp add: Suc xmerge_unroll[OF get])
      then show ?thesis
        using merged_step[OF mg refl _ le] r(2) Suc Suc.prems(2) ci by (auto simp: merged_def)
    qed
  qed
qed

lemma mdb_midl_xmerge_spec:
  assumes "idl_count idl < length idl" and "idl_count merge < length merge"
    and len: "idl_count idl + idl_count merge < length idl" "idl_count idl + idl_count merge < 2 ^ 64"
    and srt: "sorted_wrt (\<ge>) (idl_list idl)" "sorted_wrt (\<ge>) (idl_list merge)"
  shows "\<exists>idl'. mdb_midl_xmerge idl merge = Some idl' \<and> length idl' = length idl \<and>
     idl_count idl' = idl_count idl + idl_count merge \<and>
     mset (idl_list idl') = mset (idl_list idl) + mset (idl_list merge) \<and> sorted_wrt (\<ge>) (idl_list idl')"
proof -
  let ?j = "idl_count idl" and ?i = "idl_count merge" and ?a = "idl[0 := ID_MAX]"
  have ne: "0 < length idl" "0 < length merge" using assms by auto
  have keep: "content ?j ?a = idl_list idl" unfolding idl_list_def using assms by (intro content_cong) auto
  have tot: "unat (merge ! 0 + idl ! 0) = ?i + ?j"
    using unat_add_lem[of "merge ! 0" "idl ! 0"] len(2) by (simp add: idl_count_def)
  have "?a ! 0 = ID_MAX" and "?i + ?j < length ?a" using ne len by simp_all
  then obtain idl' where r: "xmerge_loop ?a merge (?a ! ?j) ?i ?j (?i + ?j) = Some idl'" and mg: "merged ?a ?j merge ?i idl'"
    using xmerge_loop_spec[of ?a ?i ?j merge] assms(2) srt keep unfolding idl_list_def by metis
  have l: "length idl' = length idl" using mg by (simp add: merged_def)
  let ?r = "idl'[0 := merge ! 0 + idl ! 0]"
  have run: "mdb_midl_xmerge idl merge = Some ?r"
    using ne r tot l assms(1) by (simp add: mdb_midl_xmerge_def idl_count_def)
  have cnt: "idl_count ?r = ?i + ?j" using ne l tot by (simp add: idl_count_def)
  have "content (?i + ?j) ?r = content (?i + ?j) idl'" using l len by (intro content_cong) auto
  then have list: "idl_list ?r = content (?i + ?j) idl'" using cnt by (simp only: idl_list_def)
  show ?thesis
  proof (intro exI conjI)
    show "mset (idl_list ?r) = mset (idl_list idl) + mset (idl_list merge)"
      using mg unfolding list merged_def keep by (simp add: idl_list_def)
    show "sorted_wrt (\<ge>) (idl_list ?r)" using mg unfolding list merged_def by blast
  qed (use run cnt l in simp_all)
qed

lemma mdb_midl_xappend_spec:
  assumes "idl_count ids + 1 < length ids" and "idl_count ids + 1 < 2 ^ 64"
  shows "\<exists>ids'. mdb_midl_xappend ids v = Some ids' \<and> length ids' = length ids \<and> idl_list ids' = idl_list ids @ [v]"
proof -
  have ne: "0 < length ids" using assms by auto
  have u: "unat (ids ! 0 + 1) = Suc (idl_count ids)"
    using assms by (simp add: idl_count_def unat_word_ariths)
  let ?r = "ids[0 := ids ! 0 + 1, Suc (idl_count ids) := v]"
  have "mdb_midl_xappend ids v = Some ?r"
    using assms ne u by (simp add: mdb_midl_xappend_def)
  moreover have "idl_count ?r = Suc (idl_count ids)" using ne u by (simp add: idl_count_def)
  moreover have "content (Suc (idl_count ids)) ?r = content (idl_count ids) ids @ [v]"
    using assms by (subst content_Suc) (auto intro!: content_cong)
  ultimately show ?thesis by (simp add: idl_list_def)
qed

subsection \<open>ID/pointer list operations\<close>

definition id2l_count :: "MDB_ID2 list \<Rightarrow> nat" where
  "id2l_count ids = unat (mid (ids ! 0))"

definition id2l_list :: "MDB_ID2 list \<Rightarrow> MDB_ID2 list" where
  "id2l_list ids = content (id2l_count ids) ids"

definition id2l_sorted :: "MDB_ID2 list \<Rightarrow> bool" where
  "id2l_sorted ids \<longleftrightarrow> id2l_count ids < length ids \<and> sorted_wrt (\<lambda>x y. mid x < mid y) (id2l_list ids)"

lemma mdb_mid2l_search_spec:
  assumes s: "id2l_sorted ids" and lt: "id2l_count ids < 2 ^ 32 - 1"
  shows "\<exists>x. mdb_mid2l_search ids v = Some x \<and> 1 \<le> x \<and> x \<le> id2l_count ids + 1 \<and>
           (v \<in> mid ` set (id2l_list ids) \<longrightarrow> x \<le> id2l_count ids \<and> mid (ids ! x) = v) \<and>
           (v \<notin> mid ` set (id2l_list ids) \<longrightarrow>
              (\<forall>i. 1 \<le> i \<and> i < x \<longrightarrow> mid (ids ! i) < v) \<and> (\<forall>i. x \<le> i \<and> i \<le> id2l_count ids \<longrightarrow> mid (ids ! i) > v))"
proof -
  let ?n = "id2l_count ids"
  have srt: "sorted_wrt (\<lambda>x y. mid x < mid y) (content ?n ids)" and n: "?n < length ids"
    using s by (simp_all add: id2l_sorted_def id2l_list_def)
  obtain f c where b: "bsearch (\<lambda>i. map_option (\<lambda>x. CMP v (mid x)) (aget ids i)) 0 1 0 ?n = Some (f, c)"
    and c: "1 \<le> c" "c \<le> ?n + 1"
    and f: "f \<Longrightarrow> c \<le> ?n \<and> mid (ids ! c) = v"
    and nf: "\<not> f \<Longrightarrow> (\<forall>i. 1 \<le> i \<and> i < c \<longrightarrow> mid (ids ! i) < v) \<and> (\<forall>i. c \<le> i \<and> i \<le> ?n \<longrightarrow> mid (ids ! i) > v)"
    by (rule mid2l.bsearch_found_or_position[OF srt n, where k = v]) (rule that, auto)
  have "mdb_mid2l_search ids v = Some c"
    using n lt b c unfolding mdb_mid2l_search_def id2l_count_def by (cases ids) auto
  moreover have "f \<longleftrightarrow> v \<in> mid ` set (id2l_list ids)"
  proof
    assume f thus "v \<in> mid ` set (id2l_list ids)" using f c n by (auto simp: id2l_list_def set_content)
  next
    assume "v \<in> mid ` set (id2l_list ids)"
    then obtain i where i: "1 \<le> i" "i \<le> ?n" "mid (ids ! i) = v" using n by (auto simp: id2l_list_def set_content)
    show f
    proof (rule ccontr)
      assume "\<not> f"
      then show False using nf i by (cases "i < c") (force simp: not_less)+
    qed
  qed
  ultimately show ?thesis using c f nf by auto
qed

lemma shift_up_spec:
  assumes "n < length ids" and "1 \<le> x" and "x \<le> Suc n"
  shows "\<exists>ids'. shift_up ids x n = Some ids' \<and> length ids' = length ids \<and>
     (\<forall>p < length ids. ids' ! p = (if x < p \<and> p \<le> n then ids ! (p - 1) else ids ! p))"
  using assms
proof (induction n arbitrary: ids)
  case (Suc n)
  show ?case
  proof (cases "Suc n > x")
    case True
    then have "\<exists>ids'. shift_up (ids[Suc n := ids ! n]) x n = Some ids' \<and> length ids' = length (ids[Suc n := ids ! n]) \<and>
       (\<forall>p < length (ids[Suc n := ids ! n]). ids' ! p =
          (if x < p \<and> p \<le> n then ids[Suc n := ids ! n] ! (p - 1) else ids[Suc n := ids ! n] ! p))"
      using Suc.prems by (intro Suc.IH) auto
    then show ?thesis using True Suc.prems by (auto simp: nth_list_update le_Suc_eq)
  qed (use Suc.prems in auto)
qed simp

lemma content_shift:
  assumes "length ids' = length ids" and "n + 1 < length ids" and "1 \<le> x" and "x \<le> n + 1"
    and "\<forall>p < length ids. 1 \<le> p \<longrightarrow> ids' ! p = (if x < p \<and> p \<le> n + 1 then ids ! (p - 1) else if p = x then v else ids ! p)"
  shows "content (n + 1) ids' = take (x - 1) (content n ids) @ v # drop (x - 1) (content n ids)"
  using assms by (intro nth_equalityI) (auto simp: nth_append nth_Cons' min_def)

lemma sorted_insert_at:
  assumes "sorted_wrt P xs" and "\<And>i. i < k \<Longrightarrow> i < length xs \<Longrightarrow> P (xs ! i) v" and "\<And>i. k \<le> i \<Longrightarrow> i < length xs \<Longrightarrow> P v (xs ! i)"
  shows "sorted_wrt P (take k xs @ v # drop k xs)"
proof -
  have "sorted_wrt P (take k xs)" "sorted_wrt P (drop k xs)"
    using assms(1) by (simp_all add: sorted_wrt_take sorted_wrt_drop)
  moreover have "P x v" if x: "x \<in> set (take k xs)" for x using x assms(2) by (auto simp: in_set_conv_nth)
  moreover have "P v y" if y: "y \<in> set (drop k xs)" for y using y assms(3) by (auto simp: in_set_conv_nth)
  moreover have "P x y" if x: "x \<in> set (take k xs)" and y: "y \<in> set (drop k xs)" for x y
    using assms(1) x y sorted_wrt_append[of P "take k xs" "drop k xs"] by simp
  ultimately show ?thesis by (auto simp: sorted_wrt_append)
qed

lemma mdb_mid2l_insert_spec:
  assumes s: "id2l_sorted ids" and len: "length ids = MDB_IDL_UM_MAX + 1" and v: "mid v \<notin> mid ` set (id2l_list ids)"
    and room: "id2l_count ids < MDB_IDL_UM_MAX"
  shows "\<exists>ids'. mdb_mid2l_insert ids v = Some (0, ids') \<and> id2l_sorted ids' \<and> length ids' = length ids \<and>
    id2l_count ids' = id2l_count ids + 1 \<and> set (id2l_list ids') = insert v (set (id2l_list ids))"
proof -
  let ?n = "id2l_count ids"
  have big: "?n < 131071" using room by (simp add: MDB_IDL_UM_MAX_def)
  have ne: "0 < length ids" and nl: "?n + 1 < length ids" using len room by auto
  obtain x where x: "mdb_mid2l_search ids (mid v) = Some x" "1 \<le> x" "x \<le> ?n + 1"
    "\<forall>i. 1 \<le> i \<and> i < x \<longrightarrow> mid (ids ! i) < mid v" "\<forall>i. x \<le> i \<and> i \<le> ?n \<longrightarrow> mid (ids ! i) > mid v"
    using mdb_mid2l_search_spec[OF s, of "mid v"] v big by auto
  have u: "unat (mid (ids ! 0) + 1) = ?n + 1"
    using big unat_add_lem[of "mid (ids ! 0)" 1] by (simp add: id2l_count_def)
  define a where "a = ids[0 := (ids ! 0)\<lparr>mid := mid (ids ! 0) + 1\<rparr>]"
  obtain b where b: "shift_up a x (?n + 1) = Some b" "length b = length ids"
    "\<forall>p < length ids. b ! p = (if x < p \<and> p \<le> ?n + 1 then a ! (p - 1) else a ! p)"
    using shift_up_spec[of "?n + 1" a x] nl x by (auto simp: a_def)
  have dup: "(if x \<le> ?n then map_option (\<lambda>e. mid e = mid v) (aget ids x) else Some False) = Some False"
    using x nl by auto
  let ?r = "b[x := v]" and ?xs = "content ?n ids"
  have run: "mdb_mid2l_insert ids v = Some (0, ?r)"
    using x(1,2,3) nl room b(1,2) u big ne
    by (simp add: mdb_mid2l_insert_def a_def[symmetric] dup id2l_count_def[symmetric] del: shift_up.simps One_nat_def)
  have cnt: "id2l_count ?r = ?n + 1"
    using b ne x u by (simp add: id2l_count_def a_def)
  have "content (?n + 1) ?r = take (x - 1) ?xs @ v # drop (x - 1) ?xs"
    using b nl x by (intro content_shift) (auto simp: a_def nth_list_update)
  then have list: "id2l_list ?r = take (x - 1) ?xs @ v # drop (x - 1) ?xs" by (simp only: id2l_list_def cnt)
  have srt: "sorted_wrt (\<lambda>x y. mid x < mid y) (id2l_list ?r)"
    unfolding list using s x(4,5) nl by (intro sorted_insert_at) (simp_all add: id2l_sorted_def id2l_list_def)
  show ?thesis
  proof (intro exI conjI)
    show "id2l_sorted ?r" unfolding id2l_sorted_def cnt using srt nl b(2) by simp
    have "set (take (x - 1) ?xs) \<union> set (drop (x - 1) ?xs) = set ?xs"
      by (metis append_take_drop_id set_append)
    then show "set (id2l_list ?r) = insert v (set (id2l_list ids))"
      unfolding list id2l_list_def[of ids] by (metis Un_insert_right list.set(2) set_append)
  qed (use run cnt b(2) in simp_all)
qed

lemma mdb_mid2l_insert_error:
  assumes s: "id2l_sorted ids" and "id2l_count ids < 2 ^ 32 - 1"
  shows "mid v \<in> mid ` set (id2l_list ids) \<Longrightarrow> mdb_mid2l_insert ids v = Some (- 1, ids)"
    and "mid v \<notin> mid ` set (id2l_list ids) \<Longrightarrow> id2l_count ids \<ge> MDB_IDL_UM_MAX \<Longrightarrow> mdb_mid2l_insert ids v = Some (- 2, ids)"
proof -
  have ne: "0 < length ids" and l: "id2l_count ids < length ids" using s by (auto simp: id2l_sorted_def)
  note sp = mdb_mid2l_search_spec[OF assms, of "mid v"]
  {
    assume "mid v \<in> mid ` set (id2l_list ids)"
    then obtain x where "mdb_mid2l_search ids (mid v) = Some x" "1 \<le> x" "x \<le> id2l_count ids" "mid (ids ! x) = mid v"
      using sp by auto
    then show "mdb_mid2l_insert ids v = Some (- 1, ids)" using ne l by (simp add: mdb_mid2l_insert_def id2l_count_def)
  }
  {
    assume "mid v \<notin> mid ` set (id2l_list ids)" and full: "id2l_count ids \<ge> MDB_IDL_UM_MAX"
    then obtain x where x: "mdb_mid2l_search ids (mid v) = Some x" "1 \<le> x"
      and "\<forall>i. x \<le> i \<and> i \<le> id2l_count ids \<longrightarrow> mid (ids ! i) > mid v"
      using sp by auto
    then have dup: "(if x \<le> id2l_count ids then map_option (\<lambda>e. mid e = mid v) (aget ids x) else Some False) = Some False"
      using l by auto
    show "mdb_mid2l_insert ids v = Some (- 2, ids)"
      using ne full x by (simp add: mdb_mid2l_insert_def dup id2l_count_def[symmetric])
  }
qed

lemma mdb_mid2l_append_spec:
  assumes len: "length ids = MDB_IDL_UM_MAX + 1" and room: "id2l_count ids < MDB_IDL_UM_MAX"
  shows "\<exists>ids'. mdb_mid2l_append ids v = Some (0, ids') \<and> length ids' = length ids \<and>
    id2l_list ids' = id2l_list ids @ [v]"
proof -
  let ?n = "id2l_count ids"
  have big: "?n < 131071" using room by (simp add: MDB_IDL_UM_MAX_def)
  have ne: "0 < length ids" and nl: "?n + 1 < length ids" using len room by auto
  have u: "unat (mid (ids ! 0) + 1) = Suc ?n"
    using big unat_add_lem[of "mid (ids ! 0)" 1] by (simp add: id2l_count_def)
  let ?r = "ids[0 := (ids ! 0)\<lparr>mid := mid (ids ! 0) + 1\<rparr>, Suc ?n := v]"
  have "mdb_mid2l_append ids v = Some (0, ?r)"
    using ne nl room u by (simp add: mdb_mid2l_append_def id2l_count_def[symmetric])
  moreover have "id2l_count ?r = Suc ?n" using ne u by (simp add: id2l_count_def)
  moreover have "content (Suc ?n) ?r = content ?n ids @ [v]"
    using nl by (subst content_Suc) (auto intro!: content_cong)
  ultimately show ?thesis by (simp add: id2l_list_def)
qed

subsection \<open>Properties\<close>

text \<open>
  C28 \<open>mdb_midl_search\<close> on a descending list ends, reads only cells of the list and returns the position
  of the ID when the list holds it, otherwise the position before which every ID is larger and
  from which on every ID is smaller.
\<close>

theorem midl_search_position:
  assumes "idl_count ids < length ids" and "idl_count ids < 2 ^ 32 - 1"
    and "sorted_wrt (\<ge>) (idl_list ids)"
  shows "\<exists>x. mdb_midl_search ids v = Some x \<and> 1 \<le> x \<and> x \<le> idl_count ids + 1 \<and>
           (v \<in> set (idl_list ids) \<longrightarrow> x \<le> idl_count ids \<and> ids ! x = v) \<and>
           (v \<notin> set (idl_list ids) \<longrightarrow>
              (\<forall>i. 1 \<le> i \<and> i < x \<longrightarrow> ids ! i > v) \<and> (\<forall>i. x \<le> i \<and> i \<le> idl_count ids \<longrightarrow> ids ! i < v))"
  using assms by (rule mdb_midl_search_spec)

theorem midl_search_position_witness:
  "\<exists>x. mdb_midl_search [3, 9, 5, 2] 4 = Some x \<and> 1 \<le> x \<and> x \<le> 4 \<and>
     (\<forall>i. 1 \<le> i \<and> i < x \<longrightarrow> [3, 9, 5, 2] ! i > (4::MDB_ID)) \<and> (\<forall>i. x \<le> i \<and> i \<le> 3 \<longrightarrow> [3, 9, 5, 2] ! i < (4::MDB_ID))"
  using midl_search_position [of "[3, 9, 5, 2]" 4] by (simp add: idl_count_def idl_list_def content_def)

text \<open>
  C30 \<open>mdb_midl_append_range\<close> of \<open>n\<close> IDs, \<open>n\<close> at most what an \<open>int\<close> holds, on a well-formed list either reports ENOMEM and
  leaves the list as it was, or appends the n IDs from \<open>idv\<close> on in descending order, growing the list when it is full;
  the allocation invariant holds afterwards. The size of the grown list in bytes must fit 64 bits.
\<close>

theorem midl_append_range_appends:
  assumes "midl_wf idp" and "unat n < 2 ^ 31" and "unat (alloclen idp) + unat (n OR of_nat MDB_IDL_UM_MAX) + 2 < 2 ^ 61"
  shows "\<exists>rc idp'. mdb_midl_append_range ok g idp v n = Some (rc, idp') \<and> midl_wf idp' \<and>
     (rc = 0 \<longrightarrow> idl_list (cells idp') = idl_list (cells idp) @ id_range_desc v (unat n)) \<and>
     (rc \<noteq> 0 \<longrightarrow> rc = ENOMEM \<and> idp' = idp)"
  using assms by (rule mdb_midl_append_range_spec)

theorem midl_append_range_appends_witness:
  "\<exists>rc idp'. mdb_midl_append_range (\<lambda>_. True) (\<lambda>_. 0) \<lparr>alloclen = 2, cells = [1, 7, 0]\<rparr> 20 3 = Some (rc, idp') \<and> midl_wf idp' \<and>
     (rc = 0 \<longrightarrow> idl_list (cells idp') = 7 # id_range_desc 20 (unat (3::u32))) \<and> (rc \<noteq> 0 \<longrightarrow> rc = ENOMEM \<and> idp' = \<lparr>alloclen = 2, cells = [1, 7, 0]\<rparr>)"
  using midl_append_range_appends [of "\<lparr>alloclen = 2, cells = [1, 7, 0]\<rparr>" 3 "\<lambda>_. True" "\<lambda>_. 0" 20]
  by (simp add: midl_wf_def idl_count_def idl_list_def content_def MDB_IDL_UM_MAX_def)

text \<open>
  C21 \<open>mdb_midl_xmerge\<close> of two descending lists, the first with room for both, accesses no cell outside
  the two arrays and leaves in the first the descending merge: the same IDs with the same
  multiplicities.
\<close>

theorem midl_xmerge_merges:
  assumes "idl_count idl < length idl" and "idl_count merge < length merge"
    and "idl_count idl + idl_count merge < length idl" and "idl_count idl + idl_count merge < 2 ^ 64"
    and "sorted_wrt (\<ge>) (idl_list idl)" and "sorted_wrt (\<ge>) (idl_list merge)"
  shows "\<exists>idl'. mdb_midl_xmerge idl merge = Some idl' \<and> length idl' = length idl \<and>
     idl_count idl' = idl_count idl + idl_count merge \<and>
     mset (idl_list idl') = mset (idl_list idl) + mset (idl_list merge) \<and> sorted_wrt (\<ge>) (idl_list idl')"
  using assms by (rule mdb_midl_xmerge_spec)

theorem midl_xmerge_merges_witness:
  "\<exists>idl'. mdb_midl_xmerge [2, 9, 4, 0, 0] [2, 7, 1] = Some idl' \<and> length idl' = length [2, 9, 4, 0, 0::MDB_ID] \<and> idl_count idl' = 4 \<and>
     mset (idl_list idl') = mset [9, 4] + mset [7, 1] \<and> sorted_wrt (\<ge>) (idl_list idl')"
  using midl_xmerge_merges [of "[2, 9, 4, 0, 0]" "[2, 7, 1]"]
  by (simp add: idl_count_def idl_list_def content_def)

text \<open>
  C29 \<open>mdb_mid2l_insert\<close> of an absent ID into a sorted ID2 list that is not full keeps the list strictly
  ascending and adds exactly that entry.
\<close>

theorem mid2l_insert_sorted:
  assumes "id2l_sorted ids" and "length ids = MDB_IDL_UM_MAX + 1" and "mid v \<notin> mid ` set (id2l_list ids)"
    and "id2l_count ids < MDB_IDL_UM_MAX"
  shows "\<exists>ids'. mdb_mid2l_insert ids v = Some (0, ids') \<and> id2l_sorted ids' \<and> length ids' = length ids \<and>
    id2l_count ids' = id2l_count ids + 1 \<and> set (id2l_list ids') = insert v (set (id2l_list ids))"
  using assms by (rule mdb_mid2l_insert_spec)

theorem mid2l_insert_sorted_witness:
  "\<exists>ids'. mdb_mid2l_insert (\<lparr>mid = 1, mptr = 0\<rparr> # replicate MDB_IDL_UM_MAX \<lparr>mid = 5, mptr = 8\<rparr>) \<lparr>mid = 3, mptr = 4\<rparr> = Some (0, ids') \<and>
     id2l_sorted ids' \<and> length ids' = MDB_IDL_UM_MAX + 1 \<and> id2l_count ids' = 1 + 1 \<and> set (id2l_list ids') = {\<lparr>mid = 3, mptr = 4\<rparr>, \<lparr>mid = 5, mptr = 8\<rparr>}"
  using mid2l_insert_sorted [of "\<lparr>mid = 1, mptr = 0\<rparr> # replicate MDB_IDL_UM_MAX \<lparr>mid = 5, mptr = 8\<rparr>" "\<lparr>mid = 3, mptr = 4\<rparr>"]
  by (simp add: id2l_sorted_def id2l_count_def id2l_list_def content_def take_replicate MDB_IDL_UM_MAX_def)

text \<open>
  C24 \<open>mdb_midl_shrink\<close> breaks the allocation invariant: when it shrinks a list, the allocation holds
  one cell less than the length it records, so that appending to a list of \<open>MDB_IDL_UM_MAX - 1\<close> IDs
  afterwards writes past the allocation without growing it.
\<close>

theorem midl_shrink_then_append_overflows:
  assumes "midl_wf idp" and "unat (alloclen idp) > MDB_IDL_UM_MAX" and "ok (8 * (MDB_IDL_UM_MAX + 1))"
    and "idl_count (cells idp) + 1 = MDB_IDL_UM_MAX"
  shows "mdb_midl_append ok g (mdb_midl_shrink ok g idp) v = None"
  using assms mdb_midl_shrink_loses_a_cell(1)[of idp ok g]
  by (intro append_after_shrink_overflows) (auto simp: mdb_midl_shrink_def realloc_cells_def midl_wf_def idl_count_def MDB_IDL_UM_MAX_def nth_append)

theorem midl_shrink_then_append_overflows_witness:
  "mdb_midl_append (\<lambda>_. True) (\<lambda>_. 0) (mdb_midl_shrink (\<lambda>_. True) (\<lambda>_. 0)
     \<lparr>alloclen = 131072, cells = 131070 # replicate 131072 0\<rparr>) 4 = None"
  using midl_shrink_then_append_overflows [of "\<lparr>alloclen = 131072, cells = 131070 # replicate 131072 0\<rparr>" "\<lambda>_. True" "\<lambda>_. 0" 4]
  by (simp add: midl_wf_def idl_count_def MDB_IDL_UM_MAX_def)

end
