(* ===== verification/Midl_Sort.thy ===== *)
theory Midl_Sort
  imports Midl
begin

section \<open>Sorting an ID list (midl.c)\<close>

text \<open>
  \<open>mdb_midl_sort\<close>: quicksort with median of three and an explicit stack of pending segments,
  insertion sort for segments of at most eight cells. \<open>istack\<close> has 64 cells and the code
  stores two of them per segment from index 1 on; the model keeps the stack as a list of pairs and
  fails when the code would write past the array. The main loop is a \<open>partial_function\<close>: its
  value is None when an access is out of bounds, when the stack overflows or when the loop does not end.
\<close>

subsection \<open>Definitions\<close>

definition SMALL :: nat where
  "SMALL = 8"

definition midl_swap :: "MDB_ID list \<Rightarrow> nat \<Rightarrow> nat \<Rightarrow> MDB_ID list option" where
  "midl_swap ids i j = do {
     x \<leftarrow> aget ids i;
     y \<leftarrow> aget ids j;
     ids \<leftarrow> aput ids i y;
     aput ids j x
   }"

definition midl_swap_lt :: "MDB_ID list \<Rightarrow> nat \<Rightarrow> nat \<Rightarrow> MDB_ID list option" where
  "midl_swap_lt ids i j = do {
     x \<leftarrow> aget ids i;
     y \<leftarrow> aget ids j;
     if x < y then midl_swap ids i j else Some ids
   }"

fun isort_shift :: "MDB_ID list \<Rightarrow> nat \<Rightarrow> MDB_ID \<Rightarrow> (MDB_ID list \<times> nat) option" where
  "isort_shift ids 0 a = Some (ids, 0)"
| "isort_shift ids (Suc i) a = do {
     v \<leftarrow> aget ids (Suc i);
     if v \<ge> a then Some (ids, Suc i)
     else do { ids \<leftarrow> aput ids (Suc i + 1) v; isort_shift ids i a }
   }"

function isort_loop :: "MDB_ID list \<Rightarrow> nat \<Rightarrow> nat \<Rightarrow> MDB_ID list option" where
  "isort_loop ids j ir =
     (if j \<le> ir then do {
        a \<leftarrow> aget ids j;
        (ids, i) \<leftarrow> isort_shift ids (j - 1) a;
        ids \<leftarrow> aput ids (i + 1) a;
        isort_loop ids (j + 1) ir
      } else Some ids)"
  by auto
termination by (relation "measure (\<lambda>(ids, j, ir). ir + 1 - j)") auto

declare isort_loop.simps [simp del]

function scan_up :: "MDB_ID list \<Rightarrow> nat \<Rightarrow> MDB_ID \<Rightarrow> nat option" where
  "scan_up ids i a = do {
     v \<leftarrow> aget ids (i + 1);
     if v > a then scan_up ids (i + 1) a else Some (i + 1)
   }"
  by auto
termination by (relation "measure (\<lambda>(ids, i, a). length ids - i)") (auto simp: aget_eq_Some)

declare scan_up.simps [simp del]

fun scan_down :: "MDB_ID list \<Rightarrow> nat \<Rightarrow> MDB_ID \<Rightarrow> nat option" where
  "scan_down ids 0 a = None"
| "scan_down ids (Suc j) a = do {
     v \<leftarrow> aget ids j;
     if v < a then scan_down ids j a else Some j
   }"

lemma scan_up_advances: "scan_up ids i a = Some i' \<Longrightarrow> i < i' \<and> i' < length ids"
  by (induction ids i a rule: scan_up.induct)
    (subst (asm) scan_up.simps, fastforce simp: bind_eq_Some_conv aget_eq_Some split: if_splits)

lemma length_midl_swap: "midl_swap ids i j = Some ids' \<Longrightarrow> length ids' = length ids"
  by (auto simp: midl_swap_def bind_eq_Some_conv aput_eq_Some)

function part_loop :: "MDB_ID list \<Rightarrow> nat \<Rightarrow> nat \<Rightarrow> MDB_ID \<Rightarrow> (MDB_ID list \<times> nat \<times> nat) option" where
  "part_loop ids i j a = do {
     i \<leftarrow> scan_up ids i a;
     j \<leftarrow> scan_down ids j a;
     if j < i then Some (ids, i, j)
     else do { ids \<leftarrow> midl_swap ids i j; part_loop ids i j a }
   }"
  by auto
termination
  by (relation "measure (\<lambda>(ids, i, j, a). length ids - i)")
    (auto simp: length_midl_swap dest!: scan_up_advances)

declare part_loop.simps [simp del]

text \<open>The indices are of type \<open>int\<close>: the sum of \<open>l\<close> and \<open>ir\<close> may overflow, which is undefined.\<close>

definition midl_partition :: "MDB_ID list \<Rightarrow> nat \<Rightarrow> nat \<Rightarrow> (MDB_ID list \<times> nat \<times> nat) option" where
  "midl_partition ids l ir = do {
     k \<leftarrow> (if l + ir < 2 ^ 31 then Some ((l + ir) div 2) else None);
     ids \<leftarrow> midl_swap ids k (l + 1);
     ids \<leftarrow> midl_swap_lt ids l ir;
     ids \<leftarrow> midl_swap_lt ids (l + 1) ir;
     ids \<leftarrow> midl_swap_lt ids l (l + 1);
     a \<leftarrow> aget ids (l + 1);
     (ids, i, j) \<leftarrow> part_loop ids (l + 1) ir a;
     v \<leftarrow> aget ids j;
     ids \<leftarrow> aput ids (l + 1) v;
     ids \<leftarrow> aput ids j a;
     Some (ids, i, j)
   }"

partial_function (option) sort_loop :: "MDB_ID list \<Rightarrow> (nat \<times> nat) list \<Rightarrow> nat \<Rightarrow> nat \<Rightarrow> MDB_ID list option" where
  "sort_loop ids istack l ir =
     (if ir < l + SMALL then do {
        ids \<leftarrow> isort_loop ids (l + 1) ir;
        (case istack of
           [] \<Rightarrow> Some ids
         | seg # rest \<Rightarrow> sort_loop ids rest (fst seg) (snd seg))
      } else do {
        (ids, i, j) \<leftarrow> midl_partition ids l ir;
        if 64 \<le> 2 * (length istack + 1) then None
        else if ir - i + 1 \<ge> j - l then sort_loop ids ((i, ir) # istack) l (j - 1)
        else sort_loop ids ((l, j - 1) # istack) i ir
      })"

definition mdb_midl_sort :: "MDB_ID list \<Rightarrow> MDB_ID list option" where
  "mdb_midl_sort ids = do {
     c \<leftarrow> aget ids 0;
     sort_loop ids [] 1 (nat (sint (ucast c :: 32 word)))
   }"

subsection \<open>Rearranging a segment\<close>

text \<open>\<open>within l ir ids ids'\<close>: \<open>ids'\<close> rearranges the cells l to ir of \<open>ids\<close>.\<close>

definition within :: "nat \<Rightarrow> nat \<Rightarrow> 'a list \<Rightarrow> 'a list \<Rightarrow> bool" where
  "within l ir ids ids' \<longleftrightarrow> length ids' = length ids \<and> mset ids' = mset ids \<and>
     (\<forall>p. p < l \<or> ir < p \<longrightarrow> ids' ! p = ids ! p) \<and>
     (\<forall>p\<in>{l..ir}. \<exists>q\<in>{l..ir}. ids' ! p = ids ! q)"

lemma within_refl [simp]: "within l ir ids ids"
  by (auto simp: within_def)

lemma within_trans: "within l ir xs ys \<Longrightarrow> within l ir ys zs \<Longrightarrow> within l ir xs zs"
  unfolding within_def by (simp add: Ball_def Bex_def) metis

lemma within_mono: "within l ir xs ys \<Longrightarrow> l' \<le> l \<Longrightarrow> ir \<le> ir' \<Longrightarrow> within l' ir' xs ys"
proof -
  assume w: "within l ir xs ys" and le: "l' \<le> l" "ir \<le> ir'"
  have "\<exists>q\<in>{l'..ir'}. ys ! p = xs ! q" if p: "p \<in> {l'..ir'}" for p
  proof (cases "p \<in> {l..ir}")
    case True
    with w obtain q where "q \<in> {l..ir}" "ys ! p = xs ! q" unfolding within_def by blast
    then show ?thesis using le by (intro bexI[of _ q]) auto
  next
    case False
    then show ?thesis using w p by (intro bexI[of _ p]) (auto simp: within_def)
  qed
  then show ?thesis using w le unfolding within_def by simp
qed

lemma within_swap:
  assumes "i \<in> {l..ir}" "j \<in> {l..ir}" "ir < length ids"
  shows "within l ir ids (ids[i := ids ! j, j := ids ! i])"
proof -
  have "mset (ids[i := ids ! j, j := ids ! i]) = mset ids" using assms by (intro mset_swap) auto
  moreover have "\<exists>q\<in>{l..ir}. ids[i := ids ! j, j := ids ! i] ! p = ids ! q" if "p \<in> {l..ir}" for p
    using assms that by (intro bexI[of _ "if p = j then i else if p = i then j else p"]) (auto simp: nth_list_update)
  ultimately show ?thesis using assms by (auto simp: within_def nth_list_update)
qed

lemma within_length: "within l ir ids ids' \<Longrightarrow> length ids' = length ids"
  by (simp add: within_def)

lemma within_ge:
  assumes "within l ir ids ids'" and "\<And>q. l \<le> q \<Longrightarrow> q \<le> ir \<Longrightarrow> P (ids ! q)" and "l \<le> p" "p \<le> ir"
  shows "P (ids' ! p)"
proof -
  have "p \<in> {l..ir}" using assms(3,4) by simp
  then obtain q where "q \<in> {l..ir}" "ids' ! p = ids ! q" using assms(1) unfolding within_def by blast
  then show ?thesis using assms(2) by simp
qed

lemma within_outside: "within l ir ids ids' \<Longrightarrow> p < l \<or> ir < p \<Longrightarrow> ids' ! p = ids ! p"
  by (auto simp: within_def)

lemma midl_swap_spec:
  assumes "i \<in> {l..ir}" "j \<in> {l..ir}" "ir < length ids"
  shows "midl_swap ids i j = Some (ids[i := ids ! j, j := ids ! i])"
    and "within l ir ids (ids[i := ids ! j, j := ids ! i])"
  using assms within_swap[OF assms] by (auto simp: midl_swap_def)

lemma midl_swap_lt_spec:
  assumes "i \<in> {l..ir}" "j \<in> {l..ir}" "ir < length ids"
  shows "\<exists>ids'. midl_swap_lt ids i j = Some ids' \<and> within l ir ids ids' \<and>
     ids' = (if ids ! i < ids ! j then ids[i := ids ! j, j := ids ! i] else ids)"
  using assms within_swap[OF assms] by (auto simp: midl_swap_lt_def midl_swap_def)

definition desc_on :: "nat \<Rightarrow> nat \<Rightarrow> MDB_ID list \<Rightarrow> bool" where
  "desc_on l ir ids \<longleftrightarrow> (\<forall>p q. l \<le> p \<and> p < q \<and> q \<le> ir \<longrightarrow> ids ! p \<ge> ids ! q)"

subsection \<open>Insertion sort\<close>

text \<open>
  While \<open>isort_shift\<close> runs, cell \<open>Suc i\<close> is the hole into which \<open>a\<close> goes if the scan stops
  now. \<open>hole_inv\<close> is stated of the array with \<open>a\<close> already there.
\<close>

definition hole_inv :: "nat \<Rightarrow> nat \<Rightarrow> nat \<Rightarrow> MDB_ID list \<Rightarrow> bool" where
  "hole_inv l j h v \<longleftrightarrow> l \<le> h \<and> h \<le> j \<and>
     (\<forall>p q. l \<le> p \<and> p < q \<and> q \<le> j \<and> q \<noteq> h \<longrightarrow> v ! p \<ge> v ! q)"

lemma hole_invD: "hole_inv l j h v \<Longrightarrow> l \<le> p \<Longrightarrow> p < q \<Longrightarrow> q \<le> j \<Longrightarrow> q \<noteq> h \<Longrightarrow> v ! p \<ge> v ! q"
  by (simp add: hole_inv_def)

lemma isort_shift_spec:
  assumes "hole_inv l j (Suc i) (ids[Suc i := a])" and "j < length ids" and "1 \<le> l"
    and "l = 1 \<or> ids ! (l - 1) \<ge> a"
  shows "\<exists>ids' i'. isort_shift ids i a = Some (ids', i') \<and> length ids' = length ids \<and> Suc i' \<le> j \<and>
     within l j (ids[Suc i := a]) (ids'[Suc i' := a]) \<and> desc_on l j (ids'[Suc i' := a])"
  using assms
proof (induction i arbitrary: ids)
  case 0
  then have "l = 1" by (auto simp: hole_inv_def)
  with 0 show ?case by (auto simp: hole_inv_def desc_on_def)
next
  case (Suc i)
  let ?v = "ids[Suc (Suc i) := a]"
  have i: "Suc (Suc i) \<le> j" "l \<le> Suc (Suc i)" using Suc.prems(1) by (auto simp: hole_inv_def)
  show ?case
  proof (cases "ids ! Suc i \<ge> a")
    case True
    have "?v ! p \<ge> ?v ! q" if pq: "l \<le> p" "p < q" "q \<le> j" for p q
    proof (cases "q = Suc (Suc i)")
      case q: True
      show ?thesis
      proof (cases "p = Suc i")
        case False
        then have "?v ! p \<ge> ?v ! Suc i" using pq i q by (intro hole_invD[OF Suc.prems(1)]) auto
        then show ?thesis using True q pq i Suc.prems(2) by (auto intro: order_trans)
      qed (use True q i Suc.prems(2) in simp)
    qed (use Suc.prems(1) pq in \<open>auto simp: hole_inv_def\<close>)
    then have "desc_on l j ?v" by (simp add: desc_on_def)
    then show ?thesis using True i Suc.prems(2) by simp
  next
    case False
    then have lt: "ids ! Suc i < a" by simp
    have li: "l \<le> Suc i"
    proof (rule ccontr)
      assume "\<not> l \<le> Suc i"
      then have "l = Suc (Suc i)" using i by simp
      then show False using Suc.prems(4) lt by auto
    qed
    let ?ids = "ids[Suc (Suc i) := ids ! Suc i]" and ?w = "ids[Suc (Suc i) := ids ! Suc i, Suc i := a]"
    have w: "?w = ?v[Suc i := ?v ! Suc (Suc i), Suc (Suc i) := ?v ! Suc i]"
      using i Suc.prems(2) by (simp add: list_update_swap)
    have step: "within l j ?v ?w"
      unfolding w using i li Suc.prems(2) by (intro within_swap) auto
    have "hole_inv l j (Suc i) ?w"
      unfolding hole_inv_def
    proof (intro conjI allI impI)
      fix p q assume pq: "l \<le> p \<and> p < q \<and> q \<le> j \<and> q \<noteq> Suc i"
      have old: "?v ! p' \<ge> ?v ! q'" if "l \<le> p'" "p' < q'" "q' \<le> j" "q' \<noteq> Suc (Suc i)" for p' q'
        using Suc.prems(1) that by (auto simp: hole_inv_def)
      consider "q = Suc (Suc i)" "p = Suc i" | "q = Suc (Suc i)" "p < Suc i"
        | "q > Suc (Suc i)" | "q < Suc i" using pq by linarith
      then show "?w ! p \<ge> ?w ! q"
      proof cases
        case 1 then show ?thesis using lt i Suc.prems(2) by simp
      next
        case 2 then show ?thesis using old[of p "Suc i"] i pq Suc.prems(2) by simp
      next
        case 3
        have "?v ! Suc i \<ge> ?v ! q" using old[of "Suc i" q] li 3 pq by simp
        moreover have "?v ! p \<ge> ?v ! q" if "p \<noteq> Suc (Suc i)" using old[of p q] 3 pq that by simp
        moreover have "?v ! Suc i \<le> a" using lt by simp
        ultimately show ?thesis using 3 i pq Suc.prems(2) by (auto simp: nth_list_update intro: order_trans)
      next
        case 4 then show ?thesis using old[of p q] pq i Suc.prems(2) by simp
      qed
    qed (use li i in auto)
    then have "\<exists>ids' i'. isort_shift ?ids i a = Some (ids', i') \<and> length ids' = length ?ids \<and> Suc i' \<le> j \<and>
       within l j (?ids[Suc i := a]) (ids'[Suc i' := a]) \<and> desc_on l j (ids'[Suc i' := a])"
      using Suc.prems li i by (intro Suc.IH) (auto simp: nth_list_update)
    then obtain ids' i' where r: "isort_shift ?ids i a = Some (ids', i')" "length ids' = length ids" "Suc i' \<le> j"
      "within l j ?w (ids'[Suc i' := a])" "desc_on l j (ids'[Suc i' := a])" by auto
    have "isort_shift ids (Suc i) a = Some (ids', i')"
      using False r(1) i Suc.prems(2) by simp
    then show ?thesis using r step within_trans by blast
  qed
qed

lemma isort_loop_spec:
  assumes "desc_on l (j - 1) ids" and "l < j" and "ir < length ids" and "1 \<le> l"
    and "l = 1 \<or> (\<forall>q. l \<le> q \<and> q \<le> ir \<longrightarrow> ids ! (l - 1) \<ge> ids ! q)"
  shows "\<exists>ids'. isort_loop ids j ir = Some ids' \<and> within l ir ids ids' \<and> desc_on l ir ids'"
  using assms
proof (induction "ir + 1 - j" arbitrary: j ids)
  case 0
  then have "desc_on l ir ids" by (auto simp: desc_on_def)
  then show ?case using 0 by (subst isort_loop.simps) simp
next
  case (Suc k)
  have j: "j \<le> ir" "Suc (j - 1) = j" using Suc.hyps(2) Suc.prems(2) by auto
  have "hole_inv l j (Suc (j - 1)) (ids[Suc (j - 1) := ids ! j])"
    using Suc.prems(1,2) j by (auto simp: hole_inv_def desc_on_def)
  then have "\<exists>ids' i'. isort_shift ids (j - 1) (ids ! j) = Some (ids', i') \<and> length ids' = length ids \<and> Suc i' \<le> j \<and>
     within l j (ids[Suc (j - 1) := ids ! j]) (ids'[Suc i' := ids ! j]) \<and> desc_on l j (ids'[Suc i' := ids ! j])"
    using Suc.prems j by (intro isort_shift_spec) auto
  then obtain ids' i' where r: "isort_shift ids (j - 1) (ids ! j) = Some (ids', i')" "length ids' = length ids" "Suc i' \<le> j"
    "within l j ids (ids'[Suc i' := ids ! j])" "desc_on l j (ids'[Suc i' := ids ! j])" using j by auto
  let ?x = "ids'[Suc i' := ids ! j]"
  have w: "within l ir ids ?x" using within_mono[OF r(4)] j by simp
  have "l = 1 \<or> (\<forall>q. l \<le> q \<and> q \<le> ir \<longrightarrow> ?x ! (l - 1) \<ge> ?x ! q)"
  proof (cases "l = 1")
    case False
    then have "?x ! (l - 1) = ids ! (l - 1)" using within_outside[OF w, of "l - 1"] Suc.prems(4) by simp
    moreover have "ids ! (l - 1) \<ge> ?x ! q" if "l \<le> q" "q \<le> ir" for q
      by (rule within_ge[OF w, where P = "\<lambda>v. ids ! (l - 1) \<ge> v"]) (use Suc.prems(5) False that in auto)
    ultimately show ?thesis by simp
  qed simp
  then have "\<exists>ids'. isort_loop ?x (j + 1) ir = Some ids' \<and> within l ir ?x ids' \<and> desc_on l ir ids'"
    using Suc.hyps(2) Suc.prems r by (intro Suc.hyps(1)) auto
  then obtain y where y: "isort_loop ?x (j + 1) ir = Some y" "within l ir ?x y" "desc_on l ir y" by blast
  have "isort_loop ids j ir = Some y"
    using j r(1,2,3) y(1) Suc.prems(3) by (subst isort_loop.simps) simp
  then show ?case using y w within_trans by blast
qed

subsection \<open>Partition\<close>

lemma scan_up_spec:
  assumes "i < m" and "m < length ids" and "ids ! m \<le> a"
  shows "\<exists>i'. scan_up ids i a = Some i' \<and> i < i' \<and> i' \<le> m \<and> ids ! i' \<le> a \<and> (\<forall>p. i < p \<and> p < i' \<longrightarrow> ids ! p > a)"
  using assms
proof (induction "m - i" arbitrary: i)
  case (Suc k)
  show ?case
  proof (cases "ids ! (i + 1) > a")
    case True
    then have "i + 1 < m" using Suc.prems by (cases "i + 1 = m") auto
    then have "\<exists>i'. scan_up ids (i + 1) a = Some i' \<and> i + 1 < i' \<and> i' \<le> m \<and> ids ! i' \<le> a \<and> (\<forall>p. i + 1 < p \<and> p < i' \<longrightarrow> ids ! p > a)"
      using Suc.hyps(2) Suc.prems by (intro Suc.hyps(1)) auto
    then obtain i' where i': "scan_up ids (i + 1) a = Some i'" "i + 1 < i'" "i' \<le> m" "ids ! i' \<le> a"
      "\<forall>p. i + 1 < p \<and> p < i' \<longrightarrow> ids ! p > a" by blast
    have "scan_up ids i a = Some i'"
      using i'(1) True Suc.prems by (subst scan_up.simps) simp
    moreover have "ids ! p > a" if "i < p" "p < i'" for p
      using i'(5) True that by (cases "p = i + 1") auto
    ultimately show ?thesis using i' by auto
  next
    case False
    then have "scan_up ids i a = Some (i + 1)" using Suc.prems by (subst scan_up.simps) simp
    then show ?thesis using False Suc.prems by auto
  qed
qed simp

lemma scan_down_spec:
  assumes "m < j" and "j \<le> length ids" and "ids ! m \<ge> a"
  shows "\<exists>j'. scan_down ids j a = Some j' \<and> j' < j \<and> m \<le> j' \<and> ids ! j' \<ge> a \<and> (\<forall>p. j' < p \<and> p < j \<longrightarrow> ids ! p < a)"
  using assms
proof (induction j)
  case (Suc j)
  show ?case
  proof (cases "ids ! j < a")
    case True
    then have "m \<noteq> j" using Suc.prems by auto
    then have "m < j" using Suc.prems by auto
    then obtain j' where j': "scan_down ids j a = Some j'" "j' < j" "m \<le> j'" "ids ! j' \<ge> a"
      "\<forall>p. j' < p \<and> p < j \<longrightarrow> ids ! p < a" using Suc by auto
    then have "ids ! p < a" if "j' < p" "p < Suc j" for p using True that by (cases "p = j") auto
    then show ?thesis using j' True Suc.prems by auto
  qed (use Suc.prems in auto)
qed simp

definition parted :: "nat \<Rightarrow> nat \<Rightarrow> MDB_ID \<Rightarrow> nat \<Rightarrow> nat \<Rightarrow> MDB_ID list \<Rightarrow> bool" where
  "parted l ir a i j ids \<longleftrightarrow> (\<forall>p. l \<le> p \<and> p \<le> i \<longrightarrow> ids ! p \<ge> a) \<and> (\<forall>p. j \<le> p \<and> p \<le> ir \<longrightarrow> ids ! p \<le> a)"

lemma part_loop_spec:
  assumes "ir < length ids" and "l < i" and "i < ir" and "l + 1 < j" and "j \<le> ir" and "parted l ir a i j ids"
    and "ids ! (l + 1) = a"
  shows "\<exists>ids' i' j'. part_loop ids i j a = Some (ids', i', j') \<and> within l ir ids ids' \<and> ids' ! (l + 1) = a \<and>
     j' < i' \<and> i < i' \<and> i' \<le> ir \<and> l + 1 \<le> j' \<and> j' < j \<and> parted l ir a (i' - 1) (j' + 1) ids'"
  using assms
proof (induction "ir - i" arbitrary: i j ids rule: less_induct)
  case less
  obtain i' where i': "scan_up ids i a = Some i'" "i < i'" "i' \<le> ir" "ids ! i' \<le> a" "\<forall>p. i < p \<and> p < i' \<longrightarrow> ids ! p > a"
    using scan_up_spec[of i ir ids a] less.prems by (auto simp: parted_def)
  obtain j' where j': "scan_down ids j a = Some j'" "j' < j" "l + 1 \<le> j'" "ids ! j' \<ge> a" "\<forall>p. j' < p \<and> p < j \<longrightarrow> ids ! p < a"
    using scan_down_spec[of "l + 1" j ids a] less.prems by auto
  have lo: "ids ! p \<ge> a" if "l \<le> p" "p < i'" for p
    using less.prems(6) i'(5) that by (cases "p \<le> i") (auto simp: parted_def not_le intro: less_imp_le)
  have hi: "ids ! p \<le> a" if "j' < p" "p \<le> ir" for p
    using less.prems(6) j'(5) that by (cases "j \<le> p") (auto simp: parted_def not_le intro: less_imp_le)
  show ?case
  proof (cases "j' < i'")
    case True
    have "part_loop ids i j a = Some (ids, i', j')"
      using i'(1) j'(1) True by (subst part_loop.simps) simp
    moreover have "parted l ir a (i' - 1) (j' + 1) ids" using lo hi i'(2) by (auto simp: parted_def)
    ultimately show ?thesis using i' j' True less.prems by simp
  next
    case False
    let ?x = "ids[i' := ids ! j', j' := ids ! i']"
    have in_seg: "i' \<in> {l..ir}" "j' \<in> {l..ir}" using i' j' less.prems by auto
    note sw = midl_swap_spec[OF in_seg less.prems(1)]
    have "parted l ir a i' j' ?x"
      using lo hi i'(3,4) j'(2,3,4) False less.prems(1,5) by (auto simp: parted_def nth_list_update)
    then have "\<exists>ids' i'' j''. part_loop ?x i' j' a = Some (ids', i'', j'') \<and> within l ir ?x ids' \<and> ids' ! (l + 1) = a \<and>
       j'' < i'' \<and> i' < i'' \<and> i'' \<le> ir \<and> l + 1 \<le> j'' \<and> j'' < j' \<and> parted l ir a (i'' - 1) (j'' + 1) ids'"
      using False i'(2,3) j'(2,3) less.prems by (intro less.hyps) auto
    then obtain ids' i'' j'' where r: "part_loop ?x i' j' a = Some (ids', i'', j'')" "within l ir ?x ids'" "ids' ! (l + 1) = a"
       "j'' < i''" "i' < i''" "i'' \<le> ir" "l + 1 \<le> j''" "j'' < j'" "parted l ir a (i'' - 1) (j'' + 1) ids'" by blast
    have "part_loop ids i j a = Some (ids', i'', j'')"
      using i'(1) j'(1) False sw(1) r(1) by (subst part_loop.simps) simp
    then show ?thesis using r i'(2) j'(2) within_trans[OF sw(2) r(2)] by auto
  qed
qed

lemma midl_partition_spec:
  assumes "l + SMALL \<le> ir" and "ir < length ids" and "l + ir < 2 ^ 31"
  shows "\<exists>ids' i j. midl_partition ids l ir = Some (ids', i, j) \<and> within l ir ids ids' \<and>
     l < j \<and> j < i \<and> i \<le> ir \<and> parted l ir (ids' ! j) (i - 1) (j + 1) ids'"
proof -
  have l: "l + 8 \<le> ir" using assms by (simp add: SMALL_def)
  then have seg: "(l + ir) div 2 \<in> {l..ir}" "l \<in> {l..ir}" "l + 1 \<in> {l..ir}" "ir \<in> {l..ir}" by auto
  let ?x0 = "ids[(l + ir) div 2 := ids ! (l + 1), l + 1 := ids ! ((l + ir) div 2)]"
  note s0 = midl_swap_spec[OF seg(1,3) assms(2)]
  have len0: "ir < length ?x0" using assms by simp
  obtain x1 where s1: "midl_swap_lt ?x0 l ir = Some x1" "within l ir ?x0 x1"
    and x1: "x1 = (if ?x0 ! l < ?x0 ! ir then ?x0[l := ?x0 ! ir, ir := ?x0 ! l] else ?x0)"
    using midl_swap_lt_spec[OF seg(2,4) len0] by blast
  have len1: "ir < length x1" using within_length[OF s1(2)] len0 by simp
  obtain x2 where s2: "midl_swap_lt x1 (l + 1) ir = Some x2" "within l ir x1 x2"
    and x2: "x2 = (if x1 ! (l + 1) < x1 ! ir then x1[l + 1 := x1 ! ir, ir := x1 ! (l + 1)] else x1)"
    using midl_swap_lt_spec[OF seg(3,4) len1] by blast
  have len2: "ir < length x2" using within_length[OF s2(2)] len1 by simp
  obtain x3 where s3: "midl_swap_lt x2 l (l + 1) = Some x3" "within l ir x2 x3"
    and x3: "x3 = (if x2 ! l < x2 ! (l + 1) then x2[l := x2 ! (l + 1), l + 1 := x2 ! l] else x2)"
    using midl_swap_lt_spec[OF seg(2,3) len2] by blast
  have len3: "ir < length x3" using within_length[OF s3(2)] len2 by simp
  have a1: "x1 ! l \<ge> x1 ! ir" using l len0 unfolding x1 by (auto simp: nth_list_update)
  have a2: "x2 ! l \<ge> x2 ! ir" "x2 ! (l + 1) \<ge> x2 ! ir" using a1 l len1 unfolding x2 by (auto simp: nth_list_update)
  have a3: "x3 ! l \<ge> x3 ! (l + 1)" "x3 ! (l + 1) \<ge> x3 ! ir" using a2 l len2 unfolding x3 by (auto simp: nth_list_update)
  have "parted l ir (x3 ! (l + 1)) (l + 1) ir x3"
    using a3 by (auto simp: parted_def le_Suc_eq dest: antisym)
  then obtain y i j where y: "part_loop x3 (l + 1) ir (x3 ! (l + 1)) = Some (y, i, j)" "within l ir x3 y" "y ! (l + 1) = x3 ! (l + 1)"
      "j < i" "i \<le> ir" "l + 1 \<le> j" "j < ir" and pt: "parted l ir (x3 ! (l + 1)) (i - 1) (j + 1) y"
    using part_loop_spec[of ir x3 l "l + 1" ir "x3 ! (l + 1)"] len3 l by auto
  let ?z = "y[l + 1 := y ! j, j := y ! (l + 1)]"
  have leny: "ir < length y" using within_length[OF y(2)] len3 by simp
  have wz: "within l ir y ?z" using y leny by (intro within_swap) auto
  have "midl_partition ids l ir = Some (?z, i, j)"
    using s0(1) s1(1) s2(1) s3(1) y(1) len3 leny l y(3-7) assms(3) by (simp add: midl_partition_def)
  moreover have "within l ir ids ?z"
    using s0(2) s1(2) s2(2) s3(2) y(2) wz within_trans by blast
  moreover have "parted l ir (?z ! j) (i - 1) (j + 1) ?z"
    using pt y(3-7) leny by (auto simp: parted_def nth_list_update)
  ultimately show ?thesis using y by auto
qed

subsection \<open>The main loop\<close>

text \<open>
  The pending segments are disjoint and lie in 1 to n, and two cells are in order already unless one
  segment holds both. \<open>depth_ok\<close> is the reason \<open>istack\<close> never overflows: the code goes
  on with the smaller half, so d segments below, a segment has at most n / 2^d cells.
\<close>

definition seg_disjoint :: "nat \<times> nat \<Rightarrow> nat \<times> nat \<Rightarrow> bool" where
  "seg_disjoint s t \<longleftrightarrow> (\<forall>p. \<not> (fst s \<le> p \<and> p \<le> snd s \<and> fst t \<le> p \<and> p \<le> snd t))"

definition seg_inv :: "nat \<Rightarrow> MDB_ID list \<Rightarrow> (nat \<times> nat) list \<Rightarrow> bool" where
  "seg_inv n ids segs \<longleftrightarrow> (\<forall>s\<in>set segs. 1 \<le> fst s \<and> snd s \<le> n) \<and> sorted_wrt seg_disjoint segs \<and>
     (\<forall>p q. 1 \<le> p \<and> p < q \<and> q \<le> n \<longrightarrow> ids ! p \<ge> ids ! q \<or> (\<exists>s\<in>set segs. fst s \<le> p \<and> q \<le> snd s))"

fun depth_ok :: "nat \<Rightarrow> (nat \<times> nat) list \<Rightarrow> bool" where
  "depth_ok n [] = True"
| "depth_ok n (s # segs) = ((snd s + 1 - fst s) * 2 ^ length segs \<le> n \<and> depth_ok n segs)"

lemma seg_invD:
  assumes "seg_inv n ids segs" and "1 \<le> p" "p < q" "q \<le> n"
  shows "ids ! p \<ge> ids ! q \<or> (\<exists>s\<in>set segs. fst s \<le> p \<and> q \<le> snd s)"
  using assms unfolding seg_inv_def by blast

lemma seg_inv_apart:
  assumes "seg_inv n ids ((l, ir) # segs)" and "s \<in> set segs" and "l \<le> p" "p \<le> ir"
  shows "\<not> (fst s \<le> p \<and> p \<le> snd s)"
  using assms by (auto simp: seg_inv_def seg_disjoint_def)

lemma seg_inv_frame:
  assumes inv: "seg_inv n ids ((l, ir) # segs)" and w: "within l ir ids ids'"
    and pq: "1 \<le> p" "p < q" "q \<le> n" and out: "\<not> (l \<le> p \<and> q \<le> ir)"
  shows "ids' ! p \<ge> ids' ! q \<or> (\<exists>s\<in>set segs. fst s \<le> p \<and> q \<le> snd s)"
proof -
  have bounds: "1 \<le> l" "ir \<le> n" using inv by (auto simp: seg_inv_def)
  have old: "ids ! p' \<ge> ids ! q' \<or> (\<exists>s\<in>set segs. fst s \<le> p' \<and> q' \<le> snd s)"
    if "1 \<le> p'" "p' < q'" "q' \<le> n" "\<not> (l \<le> p' \<and> q' \<le> ir)" for p' q'
    using seg_invD[OF inv that(1-3)] that(4) by auto
  consider "p < l \<or> ir < p" "q < l \<or> ir < q" | "l \<le> p" "p \<le> ir" "ir < q" | "p < l" "l \<le> q" "q \<le> ir"
    using pq out by linarith
  then show ?thesis
  proof cases
    case 1
    then show ?thesis using old[OF pq out] within_outside[OF w] by simp
  next
    case 2
    have "ids ! p' \<ge> ids ! q" if "l \<le> p'" "p' \<le> ir" for p'
      using old[of p' q] seg_inv_apart[OF inv _ that] 2 that bounds pq by fastforce
    then have "ids' ! p \<ge> ids ! q" by (rule within_ge[OF w]) (use 2 in auto)
    then show ?thesis using within_outside[OF w, of q] 2 by simp
  next
    case 3
    have "ids ! p \<ge> ids ! q'" if "l \<le> q'" "q' \<le> ir" for q'
      using old[of p q'] seg_inv_apart[OF inv _ that] 3 that bounds pq by fastforce
    then have "ids ! p \<ge> ids' ! q" by (rule within_ge[OF w]) (use 3 in auto)
    then show ?thesis using within_outside[OF w, of p] 3 by simp
  qed
qed

lemma seg_inv_sorted:
  assumes inv: "seg_inv n ids ((l, ir) # segs)" and w: "within l ir ids ids'" and d: "desc_on l ir ids'"
  shows "seg_inv n ids' segs"
proof -
  have "ids' ! p \<ge> ids' ! q \<or> (\<exists>s\<in>set segs. fst s \<le> p \<and> q \<le> snd s)" if pq: "1 \<le> p" "p < q" "q \<le> n" for p q
  proof (cases "l \<le> p \<and> q \<le> ir")
    case True
    then show ?thesis using d pq by (simp add: desc_on_def)
  next
    case False
    then show ?thesis by (rule seg_inv_frame[OF inv w pq])
  qed
  then show ?thesis using inv by (simp add: seg_inv_def)
qed

lemma seg_inv_split:
  assumes inv: "seg_inv n ids ((l, ir) # segs)" and w: "within l ir ids ids'"
    and ji: "l < j" "j < i" "i \<le> ir" and pt: "parted l ir (ids' ! j) (i - 1) (j + 1) ids'"
  shows "seg_inv n ids' ((l, j - 1) # (i, ir) # segs)" and "seg_inv n ids' ((i, ir) # (l, j - 1) # segs)"
proof -
  have "ids' ! p \<ge> ids' ! q \<or> (\<exists>s\<in>set ((l, j - 1) # (i, ir) # segs). fst s \<le> p \<and> q \<le> snd s)"
    if pq: "1 \<le> p" "p < q" "q \<le> n" for p q
  proof (cases "l \<le> p \<and> q \<le> ir")
    case True
    have ge: "ids' ! j \<le> ids' ! x" if "l \<le> x" "x < i" for x using pt that by (simp add: parted_def)
    have le: "ids' ! x \<le> ids' ! j" if "j < x" "x \<le> ir" for x using pt that by (simp add: parted_def)
    consider "q < j" | "i \<le> p" | "p < i" "j \<le> q" by linarith
    then show ?thesis
    proof cases
      case 3
      then have "ids' ! j \<le> ids' ! p" using ge True by simp
      moreover have "ids' ! q \<le> ids' ! j" using le 3 True by (cases "q = j") auto
      ultimately show ?thesis by (auto intro: order_trans)
    qed (use True in auto)
  next
    case False
    then show ?thesis using seg_inv_frame[OF inv w pq] by auto
  qed
  then show 1: "seg_inv n ids' ((l, j - 1) # (i, ir) # segs)"
    using inv ji by (auto simp: seg_inv_def seg_disjoint_def)
  then show "seg_inv n ids' ((i, ir) # (l, j - 1) # segs)"
    unfolding seg_inv_def seg_disjoint_def by simp meson
qed

lemma depth_halves:
  assumes "depth_ok n ((l, ir) # segs)" and "l < j" "j < i" "i \<le> ir"
  shows "j - l \<le> ir - i + 1 \<Longrightarrow> depth_ok n ((l, j - 1) # (i, ir) # segs)"
    and "ir - i + 1 < j - l \<Longrightarrow> depth_ok n ((i, ir) # (l, j - 1) # segs)"
proof -
  have n: "(ir + 1 - l) * 2 ^ length segs \<le> n" and d: "depth_ok n segs" using assms(1) by auto
  have le: "x * 2 ^ length segs \<le> n" if "x \<le> ir + 1 - l" for x
    using n mult_le_mono1[OF that] le_trans by blast
  have sub: "(ir + 1 - i) * 2 ^ length segs \<le> n" "(j - l) * 2 ^ length segs \<le> n" using assms by (auto intro!: le)
  have half: "x * 2 ^ Suc (length segs) \<le> n" if "2 * x \<le> ir + 1 - l" for x
    using le[OF that] by (simp add: ac_simps)
  show "depth_ok n ((l, j - 1) # (i, ir) # segs)" if "j - l \<le> ir - i + 1"
    using that sub d half[of "j - l"] assms(2-4) by simp
  show "depth_ok n ((i, ir) # (l, j - 1) # segs)" if "ir - i + 1 < j - l"
    using that sub d half[of "ir + 1 - i"] assms(2-4) by simp
qed

lemma stack_bound:
  assumes "depth_ok n ((l, ir) # segs)" and "l + SMALL \<le> ir" and "n < 2 ^ 31"
  shows "2 * (length segs + 1) < 64"
proof (rule ccontr)
  assume "\<not> ?thesis"
  then have "31 \<le> length segs" by simp
  then have "(2::nat) ^ 31 \<le> 2 ^ length segs" by (rule power_increasing) simp
  moreover have "2 ^ length segs \<le> (ir + 1 - l) * 2 ^ length segs" using assms(2) by (simp add: SMALL_def)
  moreover have "(ir + 1 - l) * 2 ^ length segs \<le> n" using assms(1) by simp
  ultimately show False using assms(3) by linarith
qed

definition seg_weight :: "(nat \<times> nat) list \<Rightarrow> nat" where
  "seg_weight segs = sum_list (map (\<lambda>s. 2 * (snd s + 1 - fst s) + 1) segs)"

lemma sort_loop_spec:
  assumes "seg_inv n ids ((l, ir) # segs)" and "depth_ok n ((l, ir) # segs)" and "n < length ids" and "n \<le> 2 ^ 30"
  shows "\<exists>ids'. sort_loop ids segs l ir = Some ids' \<and> within 1 n ids ids' \<and> desc_on 1 n ids'"
  using assms
proof (induction "seg_weight ((l, ir) # segs)" arbitrary: ids l ir segs rule: less_induct)
  case less
  have seg: "1 \<le> l" "ir \<le> n" using less.prems(1) by (auto simp: seg_inv_def)
  show ?case
  proof (cases "ir < l + SMALL")
    case True
    have above: "l = 1 \<or> (\<forall>q. l \<le> q \<and> q \<le> ir \<longrightarrow> ids ! (l - 1) \<ge> ids ! q)"
    proof (cases "l = 1")
      case False
      then have "ids ! (l - 1) \<ge> ids ! q" if "l \<le> q" "q \<le> ir" for q
        using seg_invD[OF less.prems(1), of "l - 1" q] seg_inv_apart[OF less.prems(1) _ that] that seg by fastforce
      then show ?thesis by simp
    qed simp
    have "\<exists>x. isort_loop ids (l + 1) ir = Some x \<and> within l ir ids x \<and> desc_on l ir x"
      using above seg less.prems(3) by (intro isort_loop_spec) (auto simp: desc_on_def)
    then obtain x where x: "isort_loop ids (l + 1) ir = Some x" "within l ir ids x" "desc_on l ir x" by blast
    have w: "within 1 n ids x" using within_mono[OF x(2)] seg by simp
    have inv: "seg_inv n x segs" by (rule seg_inv_sorted[OF less.prems(1) x(2,3)])
    show ?thesis
    proof (cases segs)
      case Nil
      then have "sort_loop ids segs l ir = Some x" using True x(1) by (subst sort_loop.simps) simp
      moreover have "desc_on 1 n x" using inv Nil by (simp add: seg_inv_def desc_on_def)
      ultimately show ?thesis using w by simp
    next
      case (Cons s rest)
      have "\<exists>y. sort_loop x rest (fst s) (snd s) = Some y \<and> within 1 n x y \<and> desc_on 1 n y"
        using less.prems inv within_length[OF w] Cons by (intro less.hyps) (auto simp: seg_weight_def)
      moreover have "sort_loop ids segs l ir = sort_loop x rest (fst s) (snd s)"
        using True x(1) Cons by (subst sort_loop.simps) simp
      ultimately show ?thesis using within_trans[OF w] by auto
    qed
  next
    case False
    then have big: "l + SMALL \<le> ir" by simp
    have "ir < length ids" "l + ir < 2 ^ 31" using seg less.prems(3,4) big by (simp_all add: SMALL_def)
    with midl_partition_spec[OF big]
    obtain x i j where x: "midl_partition ids l ir = Some (x, i, j)" and wx: "within l ir ids x"
      and ji: "l < j" "j < i" "i \<le> ir" and pt: "parted l ir (x ! j) (i - 1) (j + 1) x"
      by blast
    have w: "within 1 n ids x" using within_mono[OF wx] seg by simp
    note inv = seg_inv_split[OF less.prems(1) wx ji pt] and dep = depth_halves[OF less.prems(2) ji]
    have room: "\<not> 64 \<le> 2 * (length segs + 1)" using stack_bound[OF less.prems(2) big] less.prems(4) by simp
    have len: "n < length x" using within_length[OF w] less.prems(3) by simp
    have weight: "seg_weight ((l, j - 1) # (i, ir) # segs) < seg_weight ((l, ir) # segs)"
      "seg_weight ((i, ir) # (l, j - 1) # segs) < seg_weight ((l, ir) # segs)"
      using ji by (auto simp: seg_weight_def)
    show ?thesis
    proof (cases "ir - i + 1 \<ge> j - l")
      case True
      have "sort_loop ids segs l ir = sort_loop x ((i, ir) # segs) l (j - 1)"
        using False x room True by (subst sort_loop.simps) simp
      then show ?thesis
        using less.hyps[OF weight(1) inv(1) dep(1)[OF True] len less.prems(4)] within_trans[OF w] by auto
    next
      case swapped: False
      have "sort_loop ids segs l ir = sort_loop x ((l, j - 1) # segs) i ir"
        using False x room swapped by (subst sort_loop.simps) simp
      then show ?thesis
        using less.hyps[OF weight(2) inv(2) dep(2) len less.prems(4)] swapped within_trans[OF w] by auto
    qed
  qed
qed

lemma desc_on_content:
  assumes "desc_on 1 n ids" and "n < length ids"
  shows "sorted_wrt (\<ge>) (content n ids)"
  using assms by (simp add: sorted_wrt_iff_nth_less desc_on_def)

lemma within_mset_content:
  assumes "within 1 n ids ids'" and "n < length ids"
  shows "mset (content n ids') = mset (content n ids)"
proof -
  have len: "length ids' = length ids" and ms: "mset ids' = mset ids" using assms by (auto simp: within_def)
  have split: "xs = [xs ! 0] @ content n xs @ drop (n + 1) xs" if "length xs = length ids" for xs :: "'a list"
    using that assms(2) by (cases xs) (auto simp: content_def)
  have "drop (n + 1) ids' = drop (n + 1) ids"
    using len within_outside[OF assms(1)] by (intro nth_equalityI) auto
  moreover have "ids' ! 0 = ids ! 0" using within_outside[OF assms(1)] by simp
  moreover have "mset ([ids' ! 0] @ content n ids' @ drop (n + 1) ids') = mset ([ids ! 0] @ content n ids @ drop (n + 1) ids)"
    using split[of ids'] split[of ids] len ms by metis
  ultimately show ?thesis by simp
qed

lemma mdb_midl_sort_spec:
  assumes "idl_count ids < length ids" and n: "idl_count ids \<le> 2 ^ 30"
  shows "\<exists>ids'. mdb_midl_sort ids = Some ids' \<and> length ids' = length ids \<and> idl_count ids' = idl_count ids \<and>
     mset (idl_list ids') = mset (idl_list ids) \<and> sorted_wrt (\<ge>) (idl_list ids')"
proof -
  let ?n = "idl_count ids"
  have "unat (ucast (ids ! 0) :: 32 word) = ?n"
    using n by (simp add: unsigned_ucast_eq idl_count_def take_bit_nat_eq_self)
  then have ir: "nat (sint (ucast (ids ! 0) :: 32 word)) = ?n" using n sint_small[of "ucast (ids ! 0)"] by simp
  have "seg_inv ?n ids [(1, ?n)]" "depth_ok ?n [(1, ?n)]" by (auto simp: seg_inv_def)
  then obtain x where x: "sort_loop ids [] 1 ?n = Some x" "within 1 ?n ids x" "desc_on 1 ?n x"
    using sort_loop_spec[of ?n ids 1 ?n "[]"] assms by blast
  have len: "length x = length ids" using within_length[OF x(2)] .
  have cnt: "idl_count x = ?n" using within_outside[OF x(2), of 0] by (simp add: idl_count_def)
  have "mdb_midl_sort ids = Some x"
    using x(1) ir assms(1) by (cases ids) (simp_all add: mdb_midl_sort_def)
  moreover have "mset (idl_list x) = mset (idl_list ids)"
    using within_mset_content[OF x(2) assms(1)] cnt by (simp add: idl_list_def)
  moreover have "sorted_wrt (\<ge>) (idl_list x)"
    using desc_on_content[OF x(3)] len cnt assms(1) by (simp add: idl_list_def)
  ultimately show ?thesis using len cnt by blast
qed

subsection \<open>Properties\<close>

text \<open>
  C14 \<open>mdb_midl_sort\<close> of a list of at most \<open>2 ^ 30\<close> IDs, so that no sum of two indices overflows an \<open>int\<close>, ends, accesses
  no cell outside the list and \<open>istack\<close>, and leaves the IDs of the list, with their multiplicities, in descending order.
\<close>

theorem midl_sort_sorts:
  assumes "idl_count ids < length ids" and "idl_count ids \<le> 2 ^ 30"
  shows "\<exists>ids'. mdb_midl_sort ids = Some ids' \<and> length ids' = length ids \<and> idl_count ids' = idl_count ids \<and>
     mset (idl_list ids') = mset (idl_list ids) \<and> sorted_wrt (\<ge>) (idl_list ids')"
  using assms by (rule mdb_midl_sort_spec)

theorem midl_sort_sorts_witness:
  "\<exists>ids'. mdb_midl_sort [12, 3, 9, 1, 4, 4, 8, 2, 11, 7, 5, 0, 6] = Some ids' \<and> length ids' = length [12, 3, 9, 1, 4, 4, 8, 2, 11, 7, 5, 0, 6::MDB_ID] \<and>
     idl_count ids' = 12 \<and> mset (idl_list ids') = mset [3, 9, 1, 4, 4, 8, 2, 11, 7, 5, 0, 6] \<and> sorted_wrt (\<ge>) (idl_list ids')"
  using midl_sort_sorts [of "[12, 3, 9, 1, 4, 4, 8, 2, 11, 7, 5, 0, 6]"]
  by (simp add: idl_count_def idl_list_def content_def)

end
