(* ===== verification/Compare.thy ===== *)
theory Compare
  imports Lmdb_Prelude "HOL-Library.List_Lexorder"
begin

section \<open>Key comparison (mdb.c)\<close>

text \<open>
  The comparison functions of \<^verbatim>\<open>mdb.c\<close> on the contents of two \<open>MDB_val\<close>s. A value is the list of
  its bytes; reading past its end is None. The machine is little endian. \<open>memcmp\<close> is only specified
  up to the sign of its result in C; the model returns the difference of the first two bytes that
  differ, and only the sign is used below.

  \<open>cmp_func\<close> names the functions a database can use. The code compares the function pointers, and
  the application may install its own comparison, which is a parameter of the constructor \<open>Cmp_user\<close>.
\<close>

subsection \<open>Definitions\<close>

fun le_nat :: "bytes \<Rightarrow> nat" where
  "le_nat [] = 0"
| "le_nat (b # bs) = unat b + 256 * le_nat bs"

definition rd_le :: "bytes \<Rightarrow> nat \<Rightarrow> nat \<Rightarrow> nat option" where
  "rd_le a off n = (if off + n \<le> length a then Some (le_nat (take n (drop off a))) else None)"

fun memcmp :: "bytes \<Rightarrow> bytes \<Rightarrow> nat \<Rightarrow> int option" where
  "memcmp a b 0 = Some 0"
| "memcmp (x # a) (y # b) (Suc n) = (if x \<noteq> y then Some (uint x - uint y) else memcmp a b n)"
| "memcmp a b (Suc n) = None"

definition cmp3 :: "nat \<Rightarrow> nat \<Rightarrow> int" where
  "cmp3 x y = (if x < y then - 1 else of_bool (x > y))"

definition mdb_cmp_long :: "bytes \<Rightarrow> bytes \<Rightarrow> int option" where
  "mdb_cmp_long a b = do {
     x \<leftarrow> rd_le a 0 8;
     y \<leftarrow> rd_le b 0 8;
     Some (cmp3 x y)
   }"

definition mdb_cmp_int :: "bytes \<Rightarrow> bytes \<Rightarrow> int option" where
  "mdb_cmp_int a b = do {
     x \<leftarrow> rd_le a 0 4;
     y \<leftarrow> rd_le b 0 4;
     Some (cmp3 x y)
   }"

function cint_loop :: "bytes \<Rightarrow> bytes \<Rightarrow> nat \<Rightarrow> int option" where
  "cint_loop a b u =
     (if u < 2 then None
      else do {
        x \<leftarrow> rd_le a (u - 2) 2;
        y \<leftarrow> rd_le b (u - 2) 2;
        if x = y \<and> u - 2 > 0 then cint_loop a b (u - 2) else Some (int x - int y)
      })"
  by auto
termination by (relation "measure (\<lambda>(a, b, u). u)") auto

declare cint_loop.simps [simp del]

definition mdb_cmp_cint :: "bytes \<Rightarrow> bytes \<Rightarrow> int option" where
  "mdb_cmp_cint a b = cint_loop a b (length a)"

definition mdb_cmp_memn :: "bytes \<Rightarrow> bytes \<Rightarrow> int option" where
  "mdb_cmp_memn a b = do {
     let len_diff = int (length a) - int (length b);
     let (len, len_diff) = (if len_diff > 0 then (length b, 1) else (length a, len_diff));
     diff \<leftarrow> memcmp a b (len mod 2 ^ 32);
     Some (if diff \<noteq> 0 then diff else if len_diff < 0 then - 1 else len_diff)
   }"

fun memnr_loop :: "bytes \<Rightarrow> bytes \<Rightarrow> nat \<Rightarrow> nat \<Rightarrow> nat \<Rightarrow> int option" where
  "memnr_loop a b p1_lim 0 p2 = Some 0"
| "memnr_loop a b p1_lim (Suc p1) p2 =
     (if Suc p1 > p1_lim then do {
        x \<leftarrow> aget a p1;
        y \<leftarrow> (if p2 = 0 then None else aget b (p2 - 1));
        if x \<noteq> y then Some (uint x - uint y) else memnr_loop a b p1_lim p1 (p2 - 1)
      } else Some 0)"

definition mdb_cmp_memnr :: "bytes \<Rightarrow> bytes \<Rightarrow> int option" where
  "mdb_cmp_memnr a b = do {
     let len_diff = int (length a) - int (length b);
     let (p1_lim, len_diff) = (if len_diff > 0 then (nat len_diff, 1) else (0, len_diff));
     diff \<leftarrow> memnr_loop a b p1_lim (length a) (length b);
     Some (if diff \<noteq> 0 then diff else if len_diff < 0 then - 1 else len_diff)
   }"

datatype cmp_func = Cmp_memn | Cmp_memnr | Cmp_int | Cmp_cint | Cmp_long | Cmp_user "bytes \<Rightarrow> bytes \<Rightarrow> int"

fun call_cmp :: "cmp_func \<Rightarrow> bytes \<Rightarrow> bytes \<Rightarrow> int option" where
  "call_cmp Cmp_memn a b = mdb_cmp_memn a b"
| "call_cmp Cmp_memnr a b = mdb_cmp_memnr a b"
| "call_cmp Cmp_int a b = mdb_cmp_int a b"
| "call_cmp Cmp_cint a b = mdb_cmp_cint a b"
| "call_cmp Cmp_long a b = mdb_cmp_long a b"
| "call_cmp (Cmp_user f) a b = Some (f a b)"

fun is_cmp_cint :: "cmp_func \<Rightarrow> bool" where
  "is_cmp_cint Cmp_cint = True"
| "is_cmp_cint _ = False"

subsection \<open>The contract of a comparison\<close>

text \<open>
  What the search in a page relies on: on the keys a database may hold the comparison is defined
  and its sign is that of a strict order.
\<close>

locale comparison =
  fixes cmp :: "bytes \<Rightarrow> bytes \<Rightarrow> int option"
    and valid :: "bytes \<Rightarrow> bool"
    and less_key :: "bytes \<Rightarrow> bytes \<Rightarrow> bool"
  assumes defined: "valid a \<Longrightarrow> valid b \<Longrightarrow> \<exists>v. cmp a b = Some v \<and> (v < 0 \<longleftrightarrow> less_key a b) \<and> (v > 0 \<longleftrightarrow> less_key b a)"
    and trans: "valid a \<Longrightarrow> valid b \<Longrightarrow> valid c \<Longrightarrow> less_key a b \<Longrightarrow> less_key b c \<Longrightarrow> less_key a c"
    and cmp_zero: "valid a \<Longrightarrow> valid b \<Longrightarrow> cmp a b = Some 0 \<Longrightarrow> a = b"
begin

lemma irrefl: "valid a \<Longrightarrow> \<not> less_key a a"
  using defined[of a a] by fastforce

lemma asym: "valid a \<Longrightarrow> valid b \<Longrightarrow> less_key a b \<Longrightarrow> \<not> less_key b a"
  using defined[of a b] by fastforce

lemma linear: "valid a \<Longrightarrow> valid b \<Longrightarrow> less_key a b \<or> a = b \<or> less_key b a"
  using defined[of a b] cmp_zero[of a b] by (metis linorder_neqE_linordered_idom)

end

subsection \<open>Lexical comparison\<close>

lemma mdb_cmp_memn_Nil [simp]:
  "mdb_cmp_memn [] [] = Some 0" "mdb_cmp_memn [] (y # b) = Some (- 1)" "mdb_cmp_memn (x # a) [] = Some 1"
  by (simp_all add: mdb_cmp_memn_def)

lemma mdb_cmp_memn_Cons:
  assumes "length (x # a) < 2 ^ 32" and "length (y # b) < 2 ^ 32"
  shows "mdb_cmp_memn (x # a) (y # b) = (if x \<noteq> y then Some (uint x - uint y) else mdb_cmp_memn a b)"
proof -
  have "uint x - uint y \<noteq> 0" if "x \<noteq> y" using that by (simp add: word_uint_eq_iff)
  then show ?thesis using assms by (simp add: mdb_cmp_memn_def Let_def)
qed

lemma mdb_cmp_memn_lex:
  assumes "length a < 2 ^ 32" and "length b < 2 ^ 32"
  shows "\<exists>v. mdb_cmp_memn a b = Some v \<and> (v < 0 \<longleftrightarrow> a < b) \<and> (v > 0 \<longleftrightarrow> b < a) \<and> (v = 0 \<longleftrightarrow> a = b)"
  using assms
proof (induction a arbitrary: b)
  case Nil
  then show ?case by (cases b) auto
next
  case (Cons x a)
  show ?case
  proof (cases b)
    case (Cons y b')
    have "\<exists>v. mdb_cmp_memn a b' = Some v \<and> (v < 0 \<longleftrightarrow> a < b') \<and> (v > 0 \<longleftrightarrow> b' < a) \<and> (v = 0 \<longleftrightarrow> a = b')"
      using Cons Cons.prems by (intro Cons.IH) auto
    moreover have "mdb_cmp_memn (x # a) b = (if x \<noteq> y then Some (uint x - uint y) else mdb_cmp_memn a b')"
      using Cons Cons.prems mdb_cmp_memn_Cons by simp
    moreover have "x \<noteq> y \<Longrightarrow> uint x \<noteq> uint y" by (simp flip: word_uint_eq_iff)
    ultimately show ?thesis
      using Cons by (cases "x = y") (auto simp: word_less_def)
  qed simp
qed

interpretation memn: comparison mdb_cmp_memn "\<lambda>a. length a < 2 ^ 32" "(<)"
proof
  fix a b :: bytes assume "length a < 2 ^ 32" "length b < 2 ^ 32"
  then obtain v where "mdb_cmp_memn a b = Some v" "v < 0 \<longleftrightarrow> a < b" "v > 0 \<longleftrightarrow> b < a" "v = 0 \<longleftrightarrow> a = b"
    using mdb_cmp_memn_lex by blast
  then show "\<exists>v. mdb_cmp_memn a b = Some v \<and> (v < 0 \<longleftrightarrow> a < b) \<and> (v > 0 \<longleftrightarrow> b < a)"
    and "mdb_cmp_memn a b = Some 0 \<Longrightarrow> a = b" by auto
qed auto

subsection \<open>Reverse comparison\<close>

lemma memnr_loop_rev:
  assumes "p1 \<le> length a" and "p2 \<le> length b" and "lim \<le> p1" and "p1 - lim \<le> p2"
  shows "memnr_loop a b lim p1 p2 = memcmp (rev (take p1 a)) (rev (take p2 b)) (p1 - lim)"
  using assms
proof (induction p1 arbitrary: p2)
  case (Suc p1)
  show ?case
  proof (cases "lim \<le> p1")
    case True
    with Suc.prems obtain q where q: "p2 = Suc q" by (cases p2) auto
    have "take (Suc p1) a = take p1 a @ [a ! p1]" "take (Suc q) b = take q b @ [b ! q]"
      using Suc.prems q by (simp_all add: take_Suc_conv_app_nth)
    moreover have "memnr_loop a b lim p1 q = memcmp (rev (take p1 a)) (rev (take q b)) (p1 - lim)"
      using Suc.prems True q by (intro Suc.IH) auto
    ultimately show ?thesis using Suc.prems True q by (simp add: Suc_diff_le)
  next
    case False
    then show ?thesis using Suc.prems by simp
  qed
qed simp

lemma mdb_cmp_memnr_rev:
  assumes "length a < 2 ^ 32" and "length b < 2 ^ 32"
  shows "mdb_cmp_memnr a b = mdb_cmp_memn (rev a) (rev b)"
  using assms by (cases "length a > length b")
    (simp_all add: mdb_cmp_memnr_def mdb_cmp_memn_def Let_def memnr_loop_rev nat_diff_distrib)

interpretation memnr: comparison mdb_cmp_memnr "\<lambda>a. length a < 2 ^ 32" "\<lambda>a b. rev a < rev b"
proof
  fix a b :: bytes assume "length a < 2 ^ 32" "length b < 2 ^ 32"
  then obtain v where "mdb_cmp_memnr a b = Some v" "v < 0 \<longleftrightarrow> rev a < rev b" "v > 0 \<longleftrightarrow> rev b < rev a" "v = 0 \<longleftrightarrow> rev a = rev b"
    using mdb_cmp_memn_lex[of "rev a" "rev b"] mdb_cmp_memnr_rev[of a b] by auto
  then show "\<exists>v. mdb_cmp_memnr a b = Some v \<and> (v < 0 \<longleftrightarrow> rev a < rev b) \<and> (v > 0 \<longleftrightarrow> rev b < rev a)"
    and "mdb_cmp_memnr a b = Some 0 \<Longrightarrow> a = b" by auto
qed auto

subsection \<open>Integer comparison\<close>

lemma le_nat_append: "le_nat (xs @ ys) = le_nat xs + 256 ^ length xs * le_nat ys"
  by (induction xs) (simp_all add: algebra_simps)

lemma le_nat_bound: "le_nat xs < 256 ^ length xs"
proof (induction xs)
  case (Cons x xs)
  have "unat x < 256" using unsigned_less[of x] by simp
  then show ?case using Cons by simp
qed simp

lemma byte_digits: "x < 256 \<Longrightarrow> y < 256 \<Longrightarrow> x + 256 * p = y + 256 * q \<Longrightarrow> x = y \<and> p = (q::nat)"
  using mod_mult_self2[of x 256 p] mod_mult_self2[of y 256 q] by simp

lemma le_nat_inj: "length xs = length ys \<Longrightarrow> le_nat xs = le_nat ys \<Longrightarrow> xs = ys"
proof (induction xs ys rule: list_induct2)
  case (Cons x xs y ys)
  have "unat x < 256" "unat y < 256" using unsigned_less[of x] unsigned_less[of y] by simp_all
  from byte_digits[OF this, of "le_nat xs" "le_nat ys"] Cons.prems have "unat x = unat y" "le_nat xs = le_nat ys" by simp_all
  then show ?case using Cons.IH by (simp add: word_unat_eq_iff)
qed simp

lemma cmp3_simps [simp]: "cmp3 x y < 0 \<longleftrightarrow> x < y" "cmp3 x y > 0 \<longleftrightarrow> y < x" "cmp3 x y = 0 \<longleftrightarrow> x = y"
  by (auto simp: cmp3_def)

lemma cmp3_eq_sgn: "(v < 0 \<longleftrightarrow> x < y) \<Longrightarrow> (v > 0 \<longleftrightarrow> y < x) \<Longrightarrow> cmp3 x y = sgn (v::int)"
  by (auto simp: cmp3_def sgn_if)

lemma le_nat_high:
  assumes "x < (m::nat)" and "y < m" and "p < q"
  shows "x + m * p < y + m * q"
proof -
  have "x + m * p < m * (p + 1)" using assms(1) by simp
  also have "\<dots> \<le> m * q" using assms(3) by (intro mult_le_mono2) simp
  finally show ?thesis by simp
qed

lemma cint_loop_spec:
  assumes "even u" and "2 \<le> u" and "u \<le> length a" and "u \<le> length b"
  shows "\<exists>v. cint_loop a b u = Some v \<and> (v < 0 \<longleftrightarrow> le_nat (take u a) < le_nat (take u b)) \<and>
     (v > 0 \<longleftrightarrow> le_nat (take u b) < le_nat (take u a))"
  using assms
proof (induction u rule: less_induct)
  case (less u)
  define m where "m = u - 2"
  have u: "u = m + 2" using less.prems by (simp add: m_def)
  let ?x = "le_nat (take 2 (drop m a))" and ?y = "le_nat (take 2 (drop m b))"
  let ?M = "256 ^ m :: nat"
  have split: "le_nat (take u c) = le_nat (take m c) + ?M * le_nat (take 2 (drop m c))" if "u \<le> length c" for c
  proof -
    have "take u c = take m c @ take 2 (drop m c)" by (simp only: u take_add)
    then show ?thesis using le_nat_append[of "take m c" "take 2 (drop m c)"] that by (simp add: u min_def)
  qed
  have bound: "le_nat (take m c) < ?M" if "u \<le> length c" for c
    using le_nat_bound[of "take m c"] that by (simp add: u min_def)
  have unfold: "cint_loop a b u = (if ?x = ?y \<and> m > 0 then cint_loop a b m else Some (int ?x - int ?y))"
    using less.prems by (subst cint_loop.simps) (simp add: u rd_le_def)
  show ?case
  proof (cases "?x = ?y")
    case True
    show ?thesis
    proof (cases "m = 0")
      case False
      have "\<exists>v. cint_loop a b m = Some v \<and> (v < 0 \<longleftrightarrow> le_nat (take m a) < le_nat (take m b)) \<and>
         (v > 0 \<longleftrightarrow> le_nat (take m b) < le_nat (take m a))"
        using less.prems False by (intro less.IH) (auto simp: u)
      then show ?thesis using True False unfold split[OF less.prems(3)] split[OF less.prems(4)] by simp
    qed (use True unfold split[OF less.prems(3)] split[OF less.prems(4)] in simp)
  next
    case False
    note sp = split[OF less.prems(3)] split[OF less.prems(4)] and bd = bound[OF less.prems(3)] bound[OF less.prems(4)]
    have run: "cint_loop a b u = Some (int ?x - int ?y)" using unfold False by simp
    show ?thesis
    proof (cases "?x < ?y")
      case True
      then show ?thesis using le_nat_high[OF bd True] run unfolding sp by simp
    next
      case gt: False
      then have "?y < ?x" using False by simp
      then show ?thesis using le_nat_high[OF bd(2,1)] run unfolding sp by fastforce
    qed
  qed
qed

lemma mdb_cmp_cint_num:
  assumes "even (length a)" and "2 \<le> length a" and "length b = length a"
  shows "\<exists>v. mdb_cmp_cint a b = Some v \<and> (v < 0 \<longleftrightarrow> le_nat a < le_nat b) \<and> (v > 0 \<longleftrightarrow> le_nat b < le_nat a)"
  using cint_loop_spec[of "length a" a b] assms by (simp add: mdb_cmp_cint_def)

lemma cmp_int_long_num:
  "length a = 4 \<Longrightarrow> length b = 4 \<Longrightarrow> mdb_cmp_int a b = Some (cmp3 (le_nat a) (le_nat b))"
  "length a = 8 \<Longrightarrow> length b = 8 \<Longrightarrow> mdb_cmp_long a b = Some (cmp3 (le_nat a) (le_nat b))"
  by (simp_all add: mdb_cmp_int_def mdb_cmp_long_def rd_le_def)

interpretation cmp_int: comparison mdb_cmp_int "\<lambda>a. length a = 4" "\<lambda>a b. le_nat a < le_nat b"
proof
  fix a b :: bytes assume l: "length a = 4" "length b = 4"
  then show "\<exists>v. mdb_cmp_int a b = Some v \<and> (v < 0 \<longleftrightarrow> le_nat a < le_nat b) \<and> (v > 0 \<longleftrightarrow> le_nat b < le_nat a)"
    by (simp add: cmp_int_long_num)
  show "a = b" if "mdb_cmp_int a b = Some 0" using that l le_nat_inj[of a b] by (simp add: cmp_int_long_num)
qed auto

interpretation cmp_long: comparison mdb_cmp_long "\<lambda>a. length a = 8" "\<lambda>a b. le_nat a < le_nat b"
proof
  fix a b :: bytes assume l: "length a = 8" "length b = 8"
  then show "\<exists>v. mdb_cmp_long a b = Some v \<and> (v < 0 \<longleftrightarrow> le_nat a < le_nat b) \<and> (v > 0 \<longleftrightarrow> le_nat b < le_nat a)"
    by (simp add: cmp_int_long_num)
  show "a = b" if "mdb_cmp_long a b = Some 0" using that l le_nat_inj[of a b] by (simp add: cmp_int_long_num)
qed auto

lemma comparison_cint:
  assumes "even n" and "2 \<le> n"
  shows "comparison mdb_cmp_cint (\<lambda>a. length a = n) (\<lambda>a b. le_nat a < le_nat b)"
proof
  fix a b :: bytes assume "length a = n" "length b = n"
  then obtain v where v: "mdb_cmp_cint a b = Some v" "v < 0 \<longleftrightarrow> le_nat a < le_nat b" "v > 0 \<longleftrightarrow> le_nat b < le_nat a"
    using mdb_cmp_cint_num[of a b] assms by auto
  then show "\<exists>v. mdb_cmp_cint a b = Some v \<and> (v < 0 \<longleftrightarrow> le_nat a < le_nat b) \<and> (v > 0 \<longleftrightarrow> le_nat b < le_nat a)" by blast
  assume "mdb_cmp_cint a b = Some 0"
  with v have "le_nat a = le_nat b" by auto
  with \<open>length a = n\<close> \<open>length b = n\<close> show "a = b" by (intro le_nat_inj) simp_all
qed auto

interpretation cint4: comparison mdb_cmp_cint "\<lambda>a. length a = 4" "\<lambda>a b. le_nat a < le_nat b"
  by (rule comparison_cint) simp_all

interpretation cint8: comparison mdb_cmp_cint "\<lambda>a. length a = 8" "\<lambda>a b. le_nat a < le_nat b"
  by (rule comparison_cint) simp_all

subsection \<open>Properties\<close>

text \<open>
  C32 The default comparison \<open>mdb_cmp_memn\<close> is the lexicographic order of byte strings, shorter
  prefixes first: it reads only bytes of the two values and its sign decides the order.
\<close>

theorem cmp_memn_lexicographic:
  assumes "length a < 2 ^ 32" and "length b < 2 ^ 32"
  shows "\<exists>v. mdb_cmp_memn a b = Some v \<and> (v < 0 \<longleftrightarrow> a < b) \<and> (v > 0 \<longleftrightarrow> b < a) \<and> (v = 0 \<longleftrightarrow> a = b)"
  using assms by (rule mdb_cmp_memn_lex)

theorem cmp_memn_lexicographic_witness:
  "\<exists>v. mdb_cmp_memn [1, 2] [1, 2, 0] = Some v \<and> (v < 0 \<longleftrightarrow> [1, 2] < [1, 2, 0::byte]) \<and>
     (v > 0 \<longleftrightarrow> [1, 2, 0] < [1, 2::byte]) \<and> (v = 0 \<longleftrightarrow> [1, 2] = [1, 2, 0::byte])"
  by (rule cmp_memn_lexicographic) simp_all

text \<open>
  C33 The reverse comparison \<open>mdb_cmp_memnr\<close> of two values equals the lexical comparison of the
  values written backwards.
\<close>

theorem cmp_memnr_is_memn_of_reversed:
  assumes "length a < 2 ^ 32" and "length b < 2 ^ 32"
  shows "mdb_cmp_memnr a b = mdb_cmp_memn (rev a) (rev b)"
  using assms by (rule mdb_cmp_memnr_rev)

theorem cmp_memnr_is_memn_of_reversed_witness:
  "mdb_cmp_memnr [7, 1] [9, 2, 1] = mdb_cmp_memn (rev [7, 1]) (rev [9, 2, 1])"
  by (rule cmp_memnr_is_memn_of_reversed) simp_all

text \<open>
  C34 \<open>mdb_cmp_cint\<close>, which compares 16-bit units from the high end, agrees in sign with the
  comparison of aligned integers, \<open>mdb_cmp_int\<close> on four bytes and \<open>mdb_cmp_long\<close> on eight. So the
  replacement of the former by the latter for branch pages in \<open>mdb_node_search\<close> is sound.
\<close>

theorem cmp_cint_agrees_with_int_and_long:
  assumes "length b = length a"
  shows "(length a = 4 \<longrightarrow> (\<exists>v. mdb_cmp_cint a b = Some v \<and> mdb_cmp_int a b = Some (sgn v))) \<and>
    (length a = 8 \<longrightarrow> (\<exists>v. mdb_cmp_cint a b = Some v \<and> mdb_cmp_long a b = Some (sgn v)))"
proof (intro conjI impI)
  assume l: "length a = 4"
  then obtain v where v: "mdb_cmp_cint a b = Some v" "cmp3 (le_nat a) (le_nat b) = sgn v"
    using cmp3_eq_sgn mdb_cmp_cint_num[of a b] assms by auto
  then show "\<exists>v. mdb_cmp_cint a b = Some v \<and> mdb_cmp_int a b = Some (sgn v)"
    using l assms by (simp add: cmp_int_long_num)
next
  assume l: "length a = 8"
  then obtain v where v: "mdb_cmp_cint a b = Some v" "cmp3 (le_nat a) (le_nat b) = sgn v"
    using cmp3_eq_sgn mdb_cmp_cint_num[of a b] assms by auto
  then show "\<exists>v. mdb_cmp_cint a b = Some v \<and> mdb_cmp_long a b = Some (sgn v)"
    using l assms by (simp add: cmp_int_long_num)
qed

theorem cmp_cint_agrees_with_int_and_long_witness:
  "\<exists>v. mdb_cmp_cint [1, 0, 0, 2] [9, 9, 0, 2] = Some v \<and> mdb_cmp_int [1, 0, 0, 2] [9, 9, 0, 2] = Some (sgn v)"
  using cmp_cint_agrees_with_int_and_long [of "[9, 9, 0, 2]" "[1, 0, 0, 2]"] by simp

end
