(* ===== verification/Memory.thy ===== *)
theory Memory
  imports Compare
begin

section \<open>Byte memory\<close>

text \<open>
  Pages, nodes and the records stored in them are bytes of one address space, so that a sub-page
  inside a node, a node inside a page and a page inside the map are addresses as in the code. The
  memory is a total function from addresses to bytes; integers are little endian. A pointer to a C
  object that is only read through (a local variable, a structure of the environment) is \<open>Obj\<close> with the
  bytes of that object.
\<close>

subsection \<open>Definitions\<close>

type_synonym addr = nat
type_synonym mem = "addr \<Rightarrow> byte"

definition mem_read :: "mem \<Rightarrow> addr \<Rightarrow> nat \<Rightarrow> bytes" where
  "mem_read m a n = map m [a..<a + n]"

definition mem_write :: "mem \<Rightarrow> addr \<Rightarrow> bytes \<Rightarrow> mem" where
  "mem_write m a bs = (\<lambda>x. if a \<le> x \<and> x < a + length bs then bs ! (x - a) else m x)"

definition memmove :: "mem \<Rightarrow> addr \<Rightarrow> addr \<Rightarrow> nat \<Rightarrow> mem" where
  "memmove m d s n = mem_write m d (mem_read m s n)"

fun to_le :: "nat \<Rightarrow> nat \<Rightarrow> bytes" where
  "to_le 0 v = []"
| "to_le (Suc n) v = of_nat v # to_le n (v div 256)"

definition rd16 :: "mem \<Rightarrow> addr \<Rightarrow> u16" where
  "rd16 m a = of_nat (le_nat (mem_read m a 2))"

definition rd32 :: "mem \<Rightarrow> addr \<Rightarrow> u32" where
  "rd32 m a = of_nat (le_nat (mem_read m a 4))"

definition rd64 :: "mem \<Rightarrow> addr \<Rightarrow> u64" where
  "rd64 m a = of_nat (le_nat (mem_read m a 8))"

definition wr16 :: "mem \<Rightarrow> addr \<Rightarrow> u16 \<Rightarrow> mem" where
  "wr16 m a v = mem_write m a (to_le 2 (unat v))"

definition wr32 :: "mem \<Rightarrow> addr \<Rightarrow> u32 \<Rightarrow> mem" where
  "wr32 m a v = mem_write m a (to_le 4 (unat v))"

definition wr64 :: "mem \<Rightarrow> addr \<Rightarrow> u64 \<Rightarrow> mem" where
  "wr64 m a v = mem_write m a (to_le 8 (unat v))"

definition F_ISSET :: "'a::len word \<Rightarrow> 'a word \<Rightarrow> bool" where
  "F_ISSET w f \<longleftrightarrow> w AND f = f"

definition EVEN :: "nat \<Rightarrow> nat" where
  "EVEN n = (n + 1) div 2 * 2"

datatype ptr = Mem addr | Obj bytes

record MDB_val =
  mv_size :: nat
  mv_data :: ptr

fun ptr_read :: "mem \<Rightarrow> ptr \<Rightarrow> nat \<Rightarrow> bytes" where
  "ptr_read m (Mem a) n = mem_read m a n"
| "ptr_read m (Obj bs) n = take n bs"

definition val_bytes :: "mem \<Rightarrow> MDB_val \<Rightarrow> bytes" where
  "val_bytes m v = ptr_read m (mv_data v) (mv_size v)"

subsection \<open>Reads after writes\<close>

lemma length_mem_read [simp]: "length (mem_read m a n) = n"
  by (simp add: mem_read_def)

lemma mem_read_nth [simp]: "i < n \<Longrightarrow> mem_read m a n ! i = m (a + i)"
  by (simp add: mem_read_def)

lemma mem_read_0 [simp]: "mem_read m a 0 = []"
  by (simp add: mem_read_def)

lemma mem_read_cong: "(\<And>i. i < n \<Longrightarrow> m' (a' + i) = m (a + i)) \<Longrightarrow> mem_read m' a' n = mem_read m a n"
  by (intro nth_equalityI) auto

lemma mem_write_in [mem_simps]: "a \<le> x \<Longrightarrow> x < a + length bs \<Longrightarrow> mem_write m a bs x = bs ! (x - a)"
  by (simp add: mem_write_def)

lemma mem_write_out [mem_simps]: "x < a \<or> a + length bs \<le> x \<Longrightarrow> mem_write m a bs x = m x"
  by (auto simp: mem_write_def)

lemma mem_write_Nil [simp]: "mem_write m a [] = m"
  by (rule ext) (auto simp: mem_write_def)

lemma mem_read_write_same [simp]: "n = length bs \<Longrightarrow> mem_read (mem_write m a bs) a n = bs"
  by (intro nth_equalityI) (auto simp: mem_simps)

lemma mem_read_write_disj [mem_simps]:
  "b + n \<le> a \<or> a + length bs \<le> b \<Longrightarrow> mem_read (mem_write m a bs) b n = mem_read m b n"
  by (intro mem_read_cong) (auto simp: mem_write_def)

lemma mem_read_append: "mem_read m a (n + k) = mem_read m a n @ mem_read m (a + n) k"
  by (intro nth_equalityI) (auto simp: nth_append)

lemma length_to_le [simp]: "length (to_le n v) = n"
  by (induction n arbitrary: v) simp_all

lemma le_nat_to_le: "le_nat (to_le n v) = v mod 256 ^ n"
proof (induction n arbitrary: v)
  case (Suc n)
  have "unat (of_nat v :: byte) = v mod 256" by (simp add: unat_of_nat take_bit_eq_mod)
  then show ?case using Suc by (simp add: mod_mult2_eq[of v 256 "256 ^ n"] add.commute)
qed simp

lemma rd_wr_same [simp]: "rd16 (wr16 m a v) a = v" "rd32 (wr32 m a w) a = w" "rd64 (wr64 m a x) a = x"
  using unsigned_less[of v, where 'a = nat] unsigned_less[of w, where 'a = nat] unsigned_less[of x, where 'a = nat]
  by (simp_all add: rd16_def wr16_def rd32_def wr32_def rd64_def wr64_def le_nat_to_le mod_less del: unsigned_less)

lemma rd16_cong: "(\<And>i. i < 2 \<Longrightarrow> m' (a' + i) = m (a + i)) \<Longrightarrow> rd16 m' a' = rd16 m a"
  unfolding rd16_def by (simp add: mem_read_cong[of 2 m' a' m a])

lemma rd32_cong: "(\<And>i. i < 4 \<Longrightarrow> m' (a' + i) = m (a + i)) \<Longrightarrow> rd32 m' a' = rd32 m a"
  unfolding rd32_def by (simp add: mem_read_cong[of 4 m' a' m a])

lemma rd64_cong: "(\<And>i. i < 8 \<Longrightarrow> m' (a' + i) = m (a + i)) \<Longrightarrow> rd64 m' a' = rd64 m a"
  unfolding rd64_def by (simp add: mem_read_cong[of 8 m' a' m a])

lemma rd_write_disj [mem_simps]:
  "b + 2 \<le> a \<or> a + length bs \<le> b \<Longrightarrow> rd16 (mem_write m a bs) b = rd16 m b"
  "b + 4 \<le> a \<or> a + length bs \<le> b \<Longrightarrow> rd32 (mem_write m a bs) b = rd32 m b"
  "b + 8 \<le> a \<or> a + length bs \<le> b \<Longrightarrow> rd64 (mem_write m a bs) b = rd64 m b"
  by (simp_all add: rd16_def rd32_def rd64_def mem_read_write_disj)

lemma rd_wr_disj [mem_simps]:
  "b + 2 \<le> a \<or> a + 2 \<le> b \<Longrightarrow> rd16 (wr16 m a v) b = rd16 m b"
  "b + 2 \<le> a \<or> a + 4 \<le> b \<Longrightarrow> rd16 (wr32 m a v32) b = rd16 m b"
  "b + 2 \<le> a \<or> a + 8 \<le> b \<Longrightarrow> rd16 (wr64 m a v64) b = rd16 m b"
  "b + 4 \<le> a \<or> a + 2 \<le> b \<Longrightarrow> rd32 (wr16 m a v) b = rd32 m b"
  "b + 8 \<le> a \<or> a + 2 \<le> b \<Longrightarrow> rd64 (wr16 m a v) b = rd64 m b"
  "b + 8 \<le> a \<or> a + 4 \<le> b \<Longrightarrow> rd64 (wr32 m a v32) b = rd64 m b"
  "b + 8 \<le> a \<or> a + 8 \<le> b \<Longrightarrow> rd64 (wr64 m a v64) b = rd64 m b"
  by (simp_all add: wr16_def wr32_def wr64_def rd_write_disj)

lemma wr_out [mem_simps]:
  "x < a \<or> a + 2 \<le> x \<Longrightarrow> wr16 m a v x = m x"
  "x < a \<or> a + 4 \<le> x \<Longrightarrow> wr32 m a v32 x = m x"
  "x < a \<or> a + 8 \<le> x \<Longrightarrow> wr64 m a v64 x = m x"
  by (simp_all add: wr16_def wr32_def wr64_def mem_write_out)

lemma mem_read_wr_disj [mem_simps]:
  "b + n \<le> a \<or> a + 2 \<le> b \<Longrightarrow> mem_read (wr16 m a v) b n = mem_read m b n"
  "b + n \<le> a \<or> a + 4 \<le> b \<Longrightarrow> mem_read (wr32 m a v32) b n = mem_read m b n"
  "b + n \<le> a \<or> a + 8 \<le> b \<Longrightarrow> mem_read (wr64 m a v64) b n = mem_read m b n"
  by (simp_all add: wr16_def wr32_def wr64_def mem_read_write_disj)

lemma memmove_in [mem_simps]: "d \<le> x \<Longrightarrow> x < d + n \<Longrightarrow> memmove m d s n x = m (s + (x - d))"
  by (simp add: memmove_def mem_write_in)

lemma memmove_out [mem_simps]: "x < d \<or> d + n \<le> x \<Longrightarrow> memmove m d s n x = m x"
  by (simp add: memmove_def mem_write_out)

lemma memmove_0 [simp]: "memmove m d s 0 = m"
  by (simp add: memmove_def)

lemma EVEN_bounds: "n \<le> EVEN n" "EVEN n \<le> n + 1" "even (EVEN n)"
  by (auto simp: EVEN_def)

end
