(* ===== verification/Lmdb_Const.thy ===== *)
theory Lmdb_Const
  imports Lmdb_Prelude
begin

section \<open>Constants (lmdb.h, mdb.c)\<close>

text \<open>
  The flag masks, return codes and sizes of \<^verbatim>\<open>lmdb.h\<close> and \<^verbatim>\<open>mdb.c\<close>, as abbreviations, so that masks evaluate on
  the words they are applied to. The sizes are those of a 64-bit little-endian machine with
  \<open>MDB_DEVEL\<close> 0.
\<close>

subsection \<open>Environment, database and write flags\<close>

abbreviation (input) MDB_FIXEDMAP :: "'a::len word" where "MDB_FIXEDMAP \<equiv> 0x01"
abbreviation (input) MDB_NOSUBDIR :: "'a::len word" where "MDB_NOSUBDIR \<equiv> 0x4000"
abbreviation (input) MDB_NOSYNC :: "'a::len word" where "MDB_NOSYNC \<equiv> 0x10000"
abbreviation (input) MDB_RDONLY :: "'a::len word" where "MDB_RDONLY \<equiv> 0x20000"
abbreviation (input) MDB_NOMETASYNC :: "'a::len word" where "MDB_NOMETASYNC \<equiv> 0x40000"
abbreviation (input) MDB_WRITEMAP :: "'a::len word" where "MDB_WRITEMAP \<equiv> 0x80000"
abbreviation (input) MDB_MAPASYNC :: "'a::len word" where "MDB_MAPASYNC \<equiv> 0x100000"
abbreviation (input) MDB_NOTLS :: "'a::len word" where "MDB_NOTLS \<equiv> 0x200000"
abbreviation (input) MDB_NOLOCK :: "'a::len word" where "MDB_NOLOCK \<equiv> 0x400000"
abbreviation (input) MDB_NORDAHEAD :: "'a::len word" where "MDB_NORDAHEAD \<equiv> 0x800000"
abbreviation (input) MDB_NOMEMINIT :: "'a::len word" where "MDB_NOMEMINIT \<equiv> 0x1000000"

abbreviation (input) MDB_REVERSEKEY :: "'a::len word" where "MDB_REVERSEKEY \<equiv> 0x02"
abbreviation (input) MDB_DUPSORT :: "'a::len word" where "MDB_DUPSORT \<equiv> 0x04"
abbreviation (input) MDB_INTEGERKEY :: "'a::len word" where "MDB_INTEGERKEY \<equiv> 0x08"
abbreviation (input) MDB_DUPFIXED :: "'a::len word" where "MDB_DUPFIXED \<equiv> 0x10"
abbreviation (input) MDB_INTEGERDUP :: "'a::len word" where "MDB_INTEGERDUP \<equiv> 0x20"
abbreviation (input) MDB_REVERSEDUP :: "'a::len word" where "MDB_REVERSEDUP \<equiv> 0x40"
abbreviation (input) MDB_CREATE :: "'a::len word" where "MDB_CREATE \<equiv> 0x40000"
abbreviation (input) MDB_VALID :: "'a::len word" where "MDB_VALID \<equiv> 0x8000"
abbreviation (input) PERSISTENT_FLAGS :: "'a::len word" where "PERSISTENT_FLAGS \<equiv> 0x7fff"
abbreviation (input) VALID_FLAGS :: "'a::len word" where "VALID_FLAGS \<equiv> 0x4007e"

abbreviation (input) MDB_NOOVERWRITE :: "'a::len word" where "MDB_NOOVERWRITE \<equiv> 0x10"
abbreviation (input) MDB_NODUPDATA :: "'a::len word" where "MDB_NODUPDATA \<equiv> 0x20"
abbreviation (input) MDB_CURRENT :: "'a::len word" where "MDB_CURRENT \<equiv> 0x40"
abbreviation (input) MDB_RESERVE :: "'a::len word" where "MDB_RESERVE \<equiv> 0x10000"
abbreviation (input) MDB_APPEND :: "'a::len word" where "MDB_APPEND \<equiv> 0x20000"
abbreviation (input) MDB_APPENDDUP :: "'a::len word" where "MDB_APPENDDUP \<equiv> 0x40000"
abbreviation (input) MDB_MULTIPLE :: "'a::len word" where "MDB_MULTIPLE \<equiv> 0x80000"

subsection \<open>Return codes\<close>

abbreviation (input) MDB_SUCCESS :: int where "MDB_SUCCESS \<equiv> 0"
abbreviation (input) MDB_KEYEXIST :: int where "MDB_KEYEXIST \<equiv> - 30799"
abbreviation (input) MDB_NOTFOUND :: int where "MDB_NOTFOUND \<equiv> - 30798"
abbreviation (input) MDB_PAGE_NOTFOUND :: int where "MDB_PAGE_NOTFOUND \<equiv> - 30797"
abbreviation (input) MDB_CORRUPTED :: int where "MDB_CORRUPTED \<equiv> - 30796"
abbreviation (input) MDB_PANIC :: int where "MDB_PANIC \<equiv> - 30795"
abbreviation (input) MDB_VERSION_MISMATCH :: int where "MDB_VERSION_MISMATCH \<equiv> - 30794"
abbreviation (input) MDB_INVALID :: int where "MDB_INVALID \<equiv> - 30793"
abbreviation (input) MDB_MAP_FULL :: int where "MDB_MAP_FULL \<equiv> - 30792"
abbreviation (input) MDB_DBS_FULL :: int where "MDB_DBS_FULL \<equiv> - 30791"
abbreviation (input) MDB_READERS_FULL :: int where "MDB_READERS_FULL \<equiv> - 30790"
abbreviation (input) MDB_TXN_FULL :: int where "MDB_TXN_FULL \<equiv> - 30788"
abbreviation (input) MDB_CURSOR_FULL :: int where "MDB_CURSOR_FULL \<equiv> - 30787"
abbreviation (input) MDB_PAGE_FULL :: int where "MDB_PAGE_FULL \<equiv> - 30786"
abbreviation (input) MDB_MAP_RESIZED :: int where "MDB_MAP_RESIZED \<equiv> - 30785"
abbreviation (input) MDB_INCOMPATIBLE :: int where "MDB_INCOMPATIBLE \<equiv> - 30784"
abbreviation (input) MDB_BAD_RSLOT :: int where "MDB_BAD_RSLOT \<equiv> - 30783"
abbreviation (input) MDB_BAD_TXN :: int where "MDB_BAD_TXN \<equiv> - 30782"
abbreviation (input) MDB_BAD_VALSIZE :: int where "MDB_BAD_VALSIZE \<equiv> - 30781"
abbreviation (input) MDB_BAD_DBI :: int where "MDB_BAD_DBI \<equiv> - 30780"

abbreviation (input) EACCES :: int where "EACCES \<equiv> 13"
abbreviation (input) ENOENT :: int where "ENOENT \<equiv> 2"
abbreviation (input) ENOSPC :: int where "ENOSPC \<equiv> 28"
abbreviation (input) EBUSY :: int where "EBUSY \<equiv> 16"
abbreviation (input) EINVAL :: int where "EINVAL \<equiv> 22"
abbreviation (input) EIO :: int where "EIO \<equiv> 5"

subsection \<open>Pages and nodes\<close>

abbreviation (input) P_BRANCH :: "'a::len word" where "P_BRANCH \<equiv> 0x01"
abbreviation (input) P_LEAF :: "'a::len word" where "P_LEAF \<equiv> 0x02"
abbreviation (input) P_OVERFLOW :: "'a::len word" where "P_OVERFLOW \<equiv> 0x04"
abbreviation (input) P_META :: "'a::len word" where "P_META \<equiv> 0x08"
abbreviation (input) P_DIRTY :: "'a::len word" where "P_DIRTY \<equiv> 0x10"
abbreviation (input) P_LEAF2 :: "'a::len word" where "P_LEAF2 \<equiv> 0x20"
abbreviation (input) P_SUBP :: "'a::len word" where "P_SUBP \<equiv> 0x40"
abbreviation (input) P_LOOSE :: "'a::len word" where "P_LOOSE \<equiv> 0x4000"
abbreviation (input) P_KEEP :: "'a::len word" where "P_KEEP \<equiv> 0x8000"

abbreviation (input) F_BIGDATA :: "'a::len word" where "F_BIGDATA \<equiv> 0x01"
abbreviation (input) F_SUBDATA :: "'a::len word" where "F_SUBDATA \<equiv> 0x02"
abbreviation (input) F_DUPDATA :: "'a::len word" where "F_DUPDATA \<equiv> 0x04"
abbreviation (input) NODE_ADD_FLAGS :: "'a::len word" where "NODE_ADD_FLAGS \<equiv> 0x30006"

abbreviation (input) PAGEHDRSZ :: nat where "PAGEHDRSZ \<equiv> 16"
abbreviation (input) NODESIZE :: nat where "NODESIZE \<equiv> 8"
abbreviation (input) MDB_MAXKEYSIZE :: nat where "MDB_MAXKEYSIZE \<equiv> 511"
abbreviation (input) MDB_MINKEYS :: nat where "MDB_MINKEYS \<equiv> 2"
abbreviation (input) CURSOR_STACK :: nat where "CURSOR_STACK \<equiv> 32"
abbreviation (input) MAX_PAGESIZE :: nat where "MAX_PAGESIZE \<equiv> 0x8000"
abbreviation (input) P_INVALID :: u64 where "P_INVALID \<equiv> - 1"

abbreviation (input) FREE_DBI :: nat where "FREE_DBI \<equiv> 0"
abbreviation (input) MAIN_DBI :: nat where "MAIN_DBI \<equiv> 1"
abbreviation (input) CORE_DBS :: nat where "CORE_DBS \<equiv> 2"
abbreviation (input) NUM_METAS :: nat where "NUM_METAS \<equiv> 2"

subsection \<open>Transactions, cursors and the environment\<close>

abbreviation (input) DB_DIRTY :: "'a::len word" where "DB_DIRTY \<equiv> 0x01"
abbreviation (input) DB_STALE :: "'a::len word" where "DB_STALE \<equiv> 0x02"
abbreviation (input) DB_NEW :: "'a::len word" where "DB_NEW \<equiv> 0x04"
abbreviation (input) DB_VALID :: "'a::len word" where "DB_VALID \<equiv> 0x08"
abbreviation (input) DB_USRVALID :: "'a::len word" where "DB_USRVALID \<equiv> 0x10"

abbreviation (input) MDB_TXN_BEGIN_FLAGS :: "'a::len word" where "MDB_TXN_BEGIN_FLAGS \<equiv> MDB_RDONLY"
abbreviation (input) MDB_TXN_RDONLY :: "'a::len word" where "MDB_TXN_RDONLY \<equiv> MDB_RDONLY"
abbreviation (input) MDB_TXN_WRITEMAP :: "'a::len word" where "MDB_TXN_WRITEMAP \<equiv> MDB_WRITEMAP"
abbreviation (input) MDB_TXN_FINISHED :: "'a::len word" where "MDB_TXN_FINISHED \<equiv> 0x01"
abbreviation (input) MDB_TXN_ERROR :: "'a::len word" where "MDB_TXN_ERROR \<equiv> 0x02"
abbreviation (input) MDB_TXN_DIRTY :: "'a::len word" where "MDB_TXN_DIRTY \<equiv> 0x04"
abbreviation (input) MDB_TXN_SPILLS :: "'a::len word" where "MDB_TXN_SPILLS \<equiv> 0x08"
abbreviation (input) MDB_TXN_HAS_CHILD :: "'a::len word" where "MDB_TXN_HAS_CHILD \<equiv> 0x10"
abbreviation (input) MDB_TXN_BLOCKED :: "'a::len word" where "MDB_TXN_BLOCKED \<equiv> 0x13"

abbreviation (input) C_INITIALIZED :: "'a::len word" where "C_INITIALIZED \<equiv> 0x01"
abbreviation (input) C_EOF :: "'a::len word" where "C_EOF \<equiv> 0x02"
abbreviation (input) C_SUB :: "'a::len word" where "C_SUB \<equiv> 0x04"
abbreviation (input) C_DEL :: "'a::len word" where "C_DEL \<equiv> 0x08"
abbreviation (input) C_UNTRACK :: "'a::len word" where "C_UNTRACK \<equiv> 0x40"

abbreviation (input) MDB_FATAL_ERROR :: "'a::len word" where "MDB_FATAL_ERROR \<equiv> 0x80000000"
abbreviation (input) MDB_ENV_ACTIVE :: "'a::len word" where "MDB_ENV_ACTIVE \<equiv> 0x20000000"
abbreviation (input) MDB_ENV_TXKEY :: "'a::len word" where "MDB_ENV_TXKEY \<equiv> 0x10000000"
abbreviation (input) MDB_FSYNCONLY :: "'a::len word" where "MDB_FSYNCONLY \<equiv> 0x08000000"

abbreviation (input) MDB_END_COMMITTED :: "'a::len word" where "MDB_END_COMMITTED \<equiv> 0"
abbreviation (input) MDB_END_EMPTY_COMMIT :: "'a::len word" where "MDB_END_EMPTY_COMMIT \<equiv> 1"
abbreviation (input) MDB_END_ABORT :: "'a::len word" where "MDB_END_ABORT \<equiv> 2"
abbreviation (input) MDB_END_RESET :: "'a::len word" where "MDB_END_RESET \<equiv> 3"
abbreviation (input) MDB_END_RESET_TMP :: "'a::len word" where "MDB_END_RESET_TMP \<equiv> 4"
abbreviation (input) MDB_END_FAIL_BEGIN :: "'a::len word" where "MDB_END_FAIL_BEGIN \<equiv> 5"
abbreviation (input) MDB_END_FAIL_BEGINCHILD :: "'a::len word" where "MDB_END_FAIL_BEGINCHILD \<equiv> 6"
abbreviation (input) MDB_END_UPDATE :: "'a::len word" where "MDB_END_UPDATE \<equiv> 0x10"
abbreviation (input) MDB_END_FREE :: "'a::len word" where "MDB_END_FREE \<equiv> 0x20"
abbreviation (input) MDB_END_SLOT :: "'a::len word" where "MDB_END_SLOT \<equiv> MDB_NOTLS"

abbreviation (input) MDB_PS_MODIFY :: "'a::len word" where "MDB_PS_MODIFY \<equiv> 1"
abbreviation (input) MDB_PS_ROOTONLY :: "'a::len word" where "MDB_PS_ROOTONLY \<equiv> 2"
abbreviation (input) MDB_PS_FIRST :: "'a::len word" where "MDB_PS_FIRST \<equiv> 4"
abbreviation (input) MDB_PS_LAST :: "'a::len word" where "MDB_PS_LAST \<equiv> 8"
abbreviation (input) MDB_SPLIT_REPLACE :: "'a::len word" where "MDB_SPLIT_REPLACE \<equiv> MDB_APPENDDUP"

abbreviation (input) MDB_MAGIC :: u32 where "MDB_MAGIC \<equiv> 0xBEEFC0DE"
abbreviation (input) MDB_DATA_VERSION :: u32 where "MDB_DATA_VERSION \<equiv> 1"
abbreviation (input) FILL_THRESHOLD :: int where "FILL_THRESHOLD \<equiv> 250"
abbreviation (input) MAXDATASIZE :: nat where "MAXDATASIZE \<equiv> 0xffffffff"

end
