(* ===== verification/Page.thy ===== *)
theory Page
  imports Memory Lmdb_Const
begin

section \<open>Pages and nodes (mdb.c)\<close>

text \<open>
  The page and node layout of \<^verbatim>\<open>mdb.c\<close> over the byte memory, and the functions that work inside one
  page: adding and deleting a node (the part of \<open>mdb_node_add\<close> after the overflow page is allocated),
  shrinking a sub-page, replacing the key of a branch node, copying a page, and the search for a key.
  Offsets are 16-bit words as in the code.
\<close>

subsection \<open>Page header\<close>

definition mp_pgno :: "mem \<Rightarrow> addr \<Rightarrow> u64" where
  "mp_pgno m mp = rd64 m mp"

definition mp_pad :: "mem \<Rightarrow> addr \<Rightarrow> u16" where
  "mp_pad m mp = rd16 m (mp + 8)"

definition mp_flags :: "mem \<Rightarrow> addr \<Rightarrow> u16" where
  "mp_flags m mp = rd16 m (mp + 10)"

definition mp_lower :: "mem \<Rightarrow> addr \<Rightarrow> u16" where
  "mp_lower m mp = rd16 m (mp + 12)"

definition mp_upper :: "mem \<Rightarrow> addr \<Rightarrow> u16" where
  "mp_upper m mp = rd16 m (mp + 14)"

definition mp_pages :: "mem \<Rightarrow> addr \<Rightarrow> u32" where
  "mp_pages m mp = rd32 m (mp + 12)"

definition mp_ptrs :: "mem \<Rightarrow> addr \<Rightarrow> nat \<Rightarrow> u16" where
  "mp_ptrs m mp i = rd16 m (mp + PAGEHDRSZ + 2 * i)"

definition set_pgno :: "mem \<Rightarrow> addr \<Rightarrow> u64 \<Rightarrow> mem" where
  "set_pgno m mp v = wr64 m mp v"

definition set_pad :: "mem \<Rightarrow> addr \<Rightarrow> u16 \<Rightarrow> mem" where
  "set_pad m mp v = wr16 m (mp + 8) v"

definition set_flags :: "mem \<Rightarrow> addr \<Rightarrow> u16 \<Rightarrow> mem" where
  "set_flags m mp v = wr16 m (mp + 10) v"

definition set_lower :: "mem \<Rightarrow> addr \<Rightarrow> u16 \<Rightarrow> mem" where
  "set_lower m mp v = wr16 m (mp + 12) v"

definition set_upper :: "mem \<Rightarrow> addr \<Rightarrow> u16 \<Rightarrow> mem" where
  "set_upper m mp v = wr16 m (mp + 14) v"

definition set_pages :: "mem \<Rightarrow> addr \<Rightarrow> u32 \<Rightarrow> mem" where
  "set_pages m mp v = wr32 m (mp + 12) v"

definition set_ptr :: "mem \<Rightarrow> addr \<Rightarrow> nat \<Rightarrow> u16 \<Rightarrow> mem" where
  "set_ptr m mp i v = wr16 m (mp + PAGEHDRSZ + 2 * i) v"

definition METADATA :: "addr \<Rightarrow> addr" where
  "METADATA p = p + PAGEHDRSZ"

definition NUMKEYS :: "mem \<Rightarrow> addr \<Rightarrow> nat" where
  "NUMKEYS m mp = unat (drop_bit 1 (ucast (mp_lower m mp) - 16 :: u32))"

definition SIZELEFT :: "mem \<Rightarrow> addr \<Rightarrow> u16" where
  "SIZELEFT m mp = mp_upper m mp - mp_lower m mp"

definition PAGEFILL :: "nat \<Rightarrow> mem \<Rightarrow> addr \<Rightarrow> int" where
  "PAGEFILL psize m mp =
     1000 * (int psize - int PAGEHDRSZ - int (unat (SIZELEFT m mp))) div (int psize - int PAGEHDRSZ)"

definition IS_LEAF :: "mem \<Rightarrow> addr \<Rightarrow> bool" where
  "IS_LEAF m mp = F_ISSET (mp_flags m mp) P_LEAF"

definition IS_LEAF2 :: "mem \<Rightarrow> addr \<Rightarrow> bool" where
  "IS_LEAF2 m mp = F_ISSET (mp_flags m mp) P_LEAF2"

definition IS_BRANCH :: "mem \<Rightarrow> addr \<Rightarrow> bool" where
  "IS_BRANCH m mp = F_ISSET (mp_flags m mp) P_BRANCH"

definition IS_OVERFLOW :: "mem \<Rightarrow> addr \<Rightarrow> bool" where
  "IS_OVERFLOW m mp = F_ISSET (mp_flags m mp) P_OVERFLOW"

definition IS_SUBP :: "mem \<Rightarrow> addr \<Rightarrow> bool" where
  "IS_SUBP m mp = F_ISSET (mp_flags m mp) P_SUBP"

definition OVPAGES :: "nat \<Rightarrow> nat \<Rightarrow> nat" where
  "OVPAGES sz psize = (PAGEHDRSZ - 1 + sz) div psize + 1"

subsection \<open>Nodes\<close>

definition mn_lo :: "mem \<Rightarrow> addr \<Rightarrow> u16" where
  "mn_lo m node = rd16 m node"

definition mn_hi :: "mem \<Rightarrow> addr \<Rightarrow> u16" where
  "mn_hi m node = rd16 m (node + 2)"

definition mn_flags :: "mem \<Rightarrow> addr \<Rightarrow> u16" where
  "mn_flags m node = rd16 m (node + 4)"

definition mn_ksize :: "mem \<Rightarrow> addr \<Rightarrow> u16" where
  "mn_ksize m node = rd16 m (node + 6)"

definition set_mn_flags :: "mem \<Rightarrow> addr \<Rightarrow> u16 \<Rightarrow> mem" where
  "set_mn_flags m node v = wr16 m (node + 4) v"

definition set_mn_ksize :: "mem \<Rightarrow> addr \<Rightarrow> u16 \<Rightarrow> mem" where
  "set_mn_ksize m node v = wr16 m (node + 6) v"

definition NODEPTR :: "mem \<Rightarrow> addr \<Rightarrow> nat \<Rightarrow> addr" where
  "NODEPTR m mp i = mp + unat (mp_ptrs m mp i)"

definition NODEKSZ :: "mem \<Rightarrow> addr \<Rightarrow> nat" where
  "NODEKSZ m node = unat (mn_ksize m node)"

definition NODEKEY :: "addr \<Rightarrow> addr" where
  "NODEKEY node = node + NODESIZE"

definition NODEDATA :: "mem \<Rightarrow> addr \<Rightarrow> addr" where
  "NODEDATA m node = node + NODESIZE + NODEKSZ m node"

definition NODEPGNO :: "mem \<Rightarrow> addr \<Rightarrow> u64" where
  "NODEPGNO m node =
     ucast (mn_lo m node) OR push_bit 16 (ucast (mn_hi m node)) OR push_bit 32 (ucast (mn_flags m node))"

definition SETPGNO :: "mem \<Rightarrow> addr \<Rightarrow> u64 \<Rightarrow> mem" where
  "SETPGNO m node pgno =
     wr16 (wr16 (wr16 m node (ucast (pgno AND 0xffff))) (node + 2) (ucast (drop_bit 16 pgno)))
       (node + 4) (ucast (drop_bit 32 pgno))"

definition NODEDSZ :: "mem \<Rightarrow> addr \<Rightarrow> nat" where
  "NODEDSZ m node = unat (ucast (mn_lo m node) OR push_bit 16 (ucast (mn_hi m node)) :: u32)"

definition SETDSZ :: "mem \<Rightarrow> addr \<Rightarrow> nat \<Rightarrow> mem" where
  "SETDSZ m node sz =
     wr16 (wr16 m node (ucast ((of_nat sz :: u64) AND 0xffff))) (node + 2) (ucast (drop_bit 16 (of_nat sz :: u64)))"

definition LEAF2KEY :: "addr \<Rightarrow> nat \<Rightarrow> nat \<Rightarrow> addr" where
  "LEAF2KEY mp i ks = mp + PAGEHDRSZ + i * ks"

definition MDB_GET_KEY2 :: "mem \<Rightarrow> addr \<Rightarrow> MDB_val" where
  "MDB_GET_KEY2 m node = \<lparr>mv_size = NODEKSZ m node, mv_data = Mem (NODEKEY node)\<rparr>"

definition INDXSIZE :: "MDB_val option \<Rightarrow> nat" where
  "INDXSIZE k = NODESIZE + (case k of None \<Rightarrow> 0 | Some k \<Rightarrow> mv_size k)"

definition LEAFSIZE :: "MDB_val \<Rightarrow> MDB_val \<Rightarrow> nat" where
  "LEAFSIZE k d = NODESIZE + mv_size k + mv_size d"

subsection \<open>Node sizes\<close>

definition mdb_leaf_size :: "nat \<Rightarrow> MDB_val \<Rightarrow> MDB_val \<Rightarrow> nat" where
  "mdb_leaf_size me_nodemax key data =
     (let sz = LEAFSIZE key data;
          sz = (if sz > me_nodemax then sz - mv_size data + 8 else sz)
      in EVEN (sz + 2))"

definition mdb_branch_size :: "MDB_val option \<Rightarrow> nat" where
  "mdb_branch_size key = INDXSIZE key + 2"

subsection \<open>Adding a node\<close>

definition node_add_leaf2 :: "mem \<Rightarrow> addr \<Rightarrow> nat \<Rightarrow> MDB_val \<Rightarrow> nat \<Rightarrow> mem" where
  "node_add_leaf2 m mp indx key ksize =
     (let ptr = LEAF2KEY mp indx ksize;
          dif = int (NUMKEYS m mp) - int indx;
          m = (if dif > 0 then memmove m (ptr + ksize) ptr (nat dif * ksize) else m);
          m = mem_write m ptr (ptr_read m (mv_data key) ksize);
          m = set_lower m mp (mp_lower m mp + 2)
      in set_upper m mp (mp_upper m mp - (of_nat ksize - 2)))"

fun ptrs_up :: "mem \<Rightarrow> addr \<Rightarrow> nat \<Rightarrow> nat \<Rightarrow> mem" where
  "ptrs_up m mp indx 0 = m"
| "ptrs_up m mp indx (Suc i) =
     (if Suc i > indx then ptrs_up (set_ptr m mp (Suc i) (mp_ptrs m mp i)) mp indx i else m)"

text \<open>
  \<open>node_add_update\<close> is \<open>mdb_node_add\<close> from the label \<open>update\<close> on: \<open>ofp\<close> is the overflow page the code has
  allocated for the data, if any. It returns the memory and the new \<open>mv_data\<close> of \<open>data\<close>, which
  changes under \<open>MDB_RESERVE\<close>.
\<close>

definition node_add_data :: "mem \<Rightarrow> addr \<Rightarrow> MDB_val \<Rightarrow> u32 \<Rightarrow> addr option \<Rightarrow> mem \<times> ptr" where
  "node_add_data m node data flags ofp =
     (case ofp of
        None \<Rightarrow>
          (if F_ISSET flags F_BIGDATA then
             (mem_write m (NODEDATA m node) (ptr_read m (mv_data data) 8), mv_data data)
           else if F_ISSET flags MDB_RESERVE then (m, Mem (NODEDATA m node))
           else (mem_write m (NODEDATA m node) (val_bytes m data), mv_data data))
      | Some ofp \<Rightarrow>
          (let m = mem_write m (NODEDATA m node) (mem_read m ofp 8) in
           if F_ISSET flags MDB_RESERVE then (m, Mem (METADATA ofp))
           else (mem_write m (METADATA ofp) (val_bytes m data), mv_data data)))"

definition node_add_update ::
  "mem \<Rightarrow> addr \<Rightarrow> nat \<Rightarrow> MDB_val option \<Rightarrow> MDB_val option \<Rightarrow> u64 \<Rightarrow> u32 \<Rightarrow> nat \<Rightarrow> addr option \<Rightarrow> (mem \<times> ptr option) option" where
  "node_add_update m mp indx key data pgno flags node_size ofp = do {
     let m = ptrs_up m mp indx (NUMKEYS m mp);
     let ofs = mp_upper m mp - of_nat node_size;
     if unat ofs < unat (mp_lower m mp) + 2 then None
     else do {
       let m = set_ptr m mp indx ofs;
       let m = set_upper m mp ofs;
       let m = set_lower m mp (mp_lower m mp + 2);
       let node = NODEPTR m mp indx;
       let m = set_mn_ksize m node (case key of None \<Rightarrow> 0 | Some k \<Rightarrow> of_nat (mv_size k));
       let m = set_mn_flags m node (ucast flags);
       m \<leftarrow> (if IS_LEAF m mp then map_option (\<lambda>d. SETDSZ m node (mv_size d)) data else Some (SETPGNO m node pgno));
       let m = (case key of None \<Rightarrow> m | Some k \<Rightarrow> mem_write m (NODEKEY node) (val_bytes m k));
       if IS_LEAF m mp then do {
         d \<leftarrow> data;
         let (m, p) = node_add_data m node d flags ofp;
         Some (m, Some p)
       } else Some (m, None)
     }
   }"

subsection \<open>Deleting a node\<close>

definition node_del_leaf2 :: "mem \<Rightarrow> addr \<Rightarrow> nat \<Rightarrow> nat \<Rightarrow> mem" where
  "node_del_leaf2 m mp indx ksize =
     (let x = NUMKEYS m mp - 1 - indx;
          base = LEAF2KEY mp indx ksize;
          m = memmove m base (base + ksize) (x * ksize);
          m = set_lower m mp (mp_lower m mp - 2)
      in set_upper m mp (mp_upper m mp + (of_nat ksize - 2)))"

fun ptrs_del :: "mem \<Rightarrow> addr \<Rightarrow> nat \<Rightarrow> u16 \<Rightarrow> nat \<Rightarrow> nat \<Rightarrow> nat \<Rightarrow> nat \<Rightarrow> mem" where
  "ptrs_del m mp indx ptr sz 0 i j = m"
| "ptrs_del m mp indx ptr sz (Suc k) i j =
     (if i \<noteq> indx then
        (let m = set_ptr m mp j (mp_ptrs m mp i);
             m = (if mp_ptrs m mp i < ptr then set_ptr m mp j (mp_ptrs m mp j + of_nat sz) else m)
         in ptrs_del m mp indx ptr sz k (i + 1) (j + 1))
      else ptrs_del m mp indx ptr sz k (i + 1) j)"

definition node_sz :: "mem \<Rightarrow> addr \<Rightarrow> addr \<Rightarrow> nat" where
  "node_sz m mp node =
     (let sz = NODESIZE + NODEKSZ m node in
      if IS_LEAF m mp then
        (if F_ISSET (mn_flags m node) F_BIGDATA then sz + 8 else sz + NODEDSZ m node)
      else sz)"

definition page_node_del :: "mem \<Rightarrow> addr \<Rightarrow> nat \<Rightarrow> nat \<Rightarrow> mem option" where
  "page_node_del m mp indx ksize =
     (if \<not> indx < NUMKEYS m mp then None
      else if IS_LEAF2 m mp then Some (node_del_leaf2 m mp indx ksize)
      else
        (let numkeys = NUMKEYS m mp;
             node = NODEPTR m mp indx;
             sz = EVEN (node_sz m mp node);
             ptr = mp_ptrs m mp indx;
             m = ptrs_del m mp indx ptr sz numkeys 0 0;
             base = mp + unat (mp_upper m mp);
             m = memmove m (base + sz) base (unat (ptr - mp_upper m mp));
             m = set_lower m mp (mp_lower m mp - 2)
         in Some (set_upper m mp (mp_upper m mp + of_nat sz))))"

subsection \<open>Shrinking a sub-page\<close>

fun shrink_ptrs :: "mem \<Rightarrow> addr \<Rightarrow> addr \<Rightarrow> u16 \<Rightarrow> nat \<Rightarrow> mem" where
  "shrink_ptrs m xp sp delta 0 = m"
| "shrink_ptrs m xp sp delta (Suc i) =
     shrink_ptrs (set_ptr m xp i (mp_ptrs m sp i - delta)) xp sp delta i"

fun raise_ptrs :: "mem \<Rightarrow> addr \<Rightarrow> u16 \<Rightarrow> u16 \<Rightarrow> nat \<Rightarrow> mem" where
  "raise_ptrs m mp ptr delta 0 = m"
| "raise_ptrs m mp ptr delta (Suc i) =
     raise_ptrs (if mp_ptrs m mp i \<le> ptr then set_ptr m mp i (mp_ptrs m mp i + delta) else m) mp ptr delta i"

definition mdb_node_shrink :: "mem \<Rightarrow> addr \<Rightarrow> nat \<Rightarrow> mem" where
  "mdb_node_shrink m mp indx =
     (let node = NODEPTR m mp indx;
          sp = NODEDATA m node;
          delta = SIZELEFT m sp;
          nsize = (of_nat (NODEDSZ m node) :: u16) - delta
      in if IS_LEAF2 m sp \<and> odd (unat nsize) then m
         else
           (let m = (if IS_LEAF2 m sp then m else shrink_ptrs m (sp + unat delta) sp delta (NUMKEYS m sp));
                len = (if IS_LEAF2 m sp then unat nsize else PAGEHDRSZ);
                m = set_upper m sp (mp_lower m sp);
                m = mem_write m sp (mem_read m mp 8);
                m = SETDSZ m node (unat nsize);
                base = mp + unat (mp_upper m mp);
                m = memmove m (base + unat delta) base (sp + len - base);
                ptr = mp_ptrs m mp indx;
                m = raise_ptrs m mp ptr delta (NUMKEYS m mp)
            in set_upper m mp (mp_upper m mp + delta)))"

subsection \<open>Replacing the key of a branch node\<close>

fun lower_ptrs :: "mem \<Rightarrow> addr \<Rightarrow> u16 \<Rightarrow> u16 \<Rightarrow> nat \<Rightarrow> nat \<Rightarrow> mem" where
  "lower_ptrs m mp ptr delta 0 i = m"
| "lower_ptrs m mp ptr delta (Suc k) i =
     lower_ptrs (if mp_ptrs m mp i \<le> ptr then set_ptr m mp i (mp_ptrs m mp i - delta) else m) mp ptr delta k (i + 1)"

text \<open>
  The shift of \<open>mdb_update_key\<close>: the bytes from \<open>mp_upper\<close> to the end of the header of the node move down
  by \<open>delta\<close> (up, when it is negative), and so do the pointers to them.
\<close>

definition shift_nodes :: "mem \<Rightarrow> addr \<Rightarrow> u16 \<Rightarrow> int \<Rightarrow> mem" where
  "shift_nodes m mp ptr delta =
     (let m = lower_ptrs m mp ptr (of_int delta) (NUMKEYS m mp) 0;
          base = mp + unat (mp_upper m mp);
          len = unat ptr - unat (mp_upper m mp) + NODESIZE;
          m = memmove m (nat (int base - delta)) base len
      in set_upper m mp (mp_upper m mp - of_int delta))"

text \<open>
  The part of \<open>mdb_update_key\<close> that works inside the page: None when there is no room and the code deletes
  the node and splits the page instead.
\<close>

definition page_update_key :: "mem \<Rightarrow> addr \<Rightarrow> nat \<Rightarrow> MDB_val \<Rightarrow> mem option" where
  "page_update_key m mp indx key =
     (let node = NODEPTR m mp indx;
          ptr = mp_ptrs m mp indx;
          ksize = EVEN (mv_size key);
          oksize = EVEN (NODEKSZ m node);
          delta = int ksize - int oksize
      in if delta > 0 \<and> int (unat (SIZELEFT m mp)) < delta then None
         else
           (let m = (if delta \<noteq> 0 then shift_nodes m mp ptr delta else m);
                node = NODEPTR m mp indx;
                m = set_mn_ksize m node (of_nat (mv_size key))
            in Some (mem_write m (NODEKEY node) (val_bytes m key))))"

subsection \<open>Copying a page\<close>

definition mdb_page_copy :: "mem \<Rightarrow> addr \<Rightarrow> addr \<Rightarrow> nat \<Rightarrow> mem" where
  "mdb_page_copy m dst src psize =
     (let upper = mp_upper m src;
          lower = mp_lower m src;
          unused = (upper - lower) AND (- 8)
      in if unused \<noteq> 0 \<and> \<not> IS_LEAF2 m src then
           (let upper = unat (upper AND (- 8));
                m = memmove m dst src (unat ((ucast lower + 7 :: u32) AND (- 8)))
            in memmove m (dst + upper) (src + upper) (psize - upper))
         else memmove m dst src (psize - unat unused))"

subsection \<open>Field round trips\<close>

lemma NODEPGNO_SETPGNO:
  assumes "pgno < 2 ^ 48"
  shows "NODEPGNO (SETPGNO m node pgno) node = pgno"
proof -
  have "unat pgno < 2 ^ 48" using assms by (simp add: word_less_nat_alt)
  then have "unat (drop_bit 48 pgno) = 0"
    by (simp add: drop_bit_eq_div unat_div)
  then have "drop_bit 48 pgno = 0" by (simp add: unsigned_eq_0_iff)
  then have high: "\<not> bit pgno n" if "48 \<le> n" for n
  proof -
    have "bit (drop_bit 48 pgno) (n - 48) = bit pgno n" using that by (simp add: bit_drop_bit_eq)
    then show ?thesis using \<open>drop_bit 48 pgno = 0\<close> by simp
  qed
  have fields: "mn_lo (SETPGNO m node pgno) node = ucast (pgno AND 0xffff)"
    "mn_hi (SETPGNO m node pgno) node = ucast (drop_bit 16 pgno)"
    "mn_flags (SETPGNO m node pgno) node = ucast (drop_bit 32 pgno)"
    by (simp_all add: SETPGNO_def mn_lo_def mn_hi_def mn_flags_def mem_simps)
  have mask: "(0xffff :: u64) = mask 16" by (simp add: mask_eq_exp_minus_1)
  show ?thesis
    unfolding NODEPGNO_def fields mask
  proof (rule bit_word_eqI)
    fix n assume "n < LENGTH(64)"
    consider "n < 16" | "16 \<le> n" "n < 32" | "32 \<le> n" "n < 48" | "48 \<le> n" by linarith
    then show "bit (ucast (ucast (pgno AND mask 16) :: u16) OR push_bit 16 (ucast (ucast (drop_bit 16 pgno) :: u16)) OR
        push_bit 32 (ucast (ucast (drop_bit 32 pgno) :: u16)) :: u64) n = bit pgno n"
      using \<open>n < LENGTH(64)\<close> by cases (auto simp: bit_simps high)
  qed
qed

lemma NODEDSZ_SETDSZ:
  assumes "sz < 2 ^ 32"
  shows "NODEDSZ (SETDSZ m node sz) node = sz"
proof -
  have fields: "mn_lo (SETDSZ m node sz) node = ucast ((of_nat sz :: u64) AND 0xffff)"
    "mn_hi (SETDSZ m node sz) node = ucast (drop_bit 16 (of_nat sz :: u64))"
    by (simp_all add: SETDSZ_def mn_lo_def mn_hi_def mem_simps)
  have mask: "(0xffff :: u64) = mask 16" by (simp add: mask_eq_exp_minus_1)
  have "(ucast (ucast ((of_nat sz :: u64) AND 0xffff) :: u16) OR push_bit 16 (ucast (ucast (drop_bit 16 (of_nat sz :: u64)) :: u16)) :: u32) = of_nat sz"
    unfolding mask
  proof (rule bit_word_eqI)
    fix n assume "n < LENGTH(32)"
    then consider "n < 16" | "16 \<le> n" "n < 32" by fastforce
    then show "bit (ucast (ucast ((of_nat sz :: u64) AND mask 16) :: u16) OR push_bit 16 (ucast (ucast (drop_bit 16 (of_nat sz :: u64)) :: u16)) :: u32) n
        = bit (of_nat sz :: u32) n"
      by cases (auto simp: bit_simps)
  qed
  then show ?thesis unfolding NODEDSZ_def fields using assms by (simp add: unat_of_nat take_bit_nat_eq_self)
qed

subsection \<open>Well-formed pages and their nodes\<close>

text \<open>
  \<open>mnode\<close> is what a node stores; \<open>page_nodes\<close> reads the nodes of a page in the order of its pointer
  array. A page is well formed when the pointer array ends at \<open>mp_lower\<close>, the nodes lie between
  \<open>mp_upper\<close> and the end of the page and no two of them overlap.
\<close>

record mnode =
  n_lo :: u16
  n_hi :: u16
  n_flags :: u16
  n_key :: bytes
  n_data :: bytes

definition data_len :: "bool \<Rightarrow> mem \<Rightarrow> addr \<Rightarrow> nat" where
  "data_len leaf m a = (if leaf then (if F_ISSET (mn_flags m a) F_BIGDATA then 8 else NODEDSZ m a) else 0)"

definition raw_sz :: "bool \<Rightarrow> mem \<Rightarrow> addr \<Rightarrow> nat" where
  "raw_sz leaf m a = NODESIZE + NODEKSZ m a + data_len leaf m a"

definition node_at :: "bool \<Rightarrow> mem \<Rightarrow> addr \<Rightarrow> mnode" where
  "node_at leaf m a = \<lparr>n_lo = mn_lo m a, n_hi = mn_hi m a, n_flags = mn_flags m a,
     n_key = mem_read m (NODEKEY a) (NODEKSZ m a), n_data = mem_read m (NODEDATA m a) (data_len leaf m a)\<rparr>"

definition page_nodes :: "mem \<Rightarrow> addr \<Rightarrow> mnode list" where
  "page_nodes m mp = map (\<lambda>i. node_at (IS_LEAF m mp) m (NODEPTR m mp i)) [0..<NUMKEYS m mp]"

definition nptr :: "mem \<Rightarrow> addr \<Rightarrow> nat \<Rightarrow> nat" where
  "nptr m mp i = unat (mp_ptrs m mp i)"

definition nlen :: "mem \<Rightarrow> addr \<Rightarrow> nat \<Rightarrow> nat" where
  "nlen m mp i = EVEN (raw_sz (IS_LEAF m mp) m (NODEPTR m mp i))"

definition page_wf :: "nat \<Rightarrow> mem \<Rightarrow> addr \<Rightarrow> bool" where
  "page_wf psz m mp \<longleftrightarrow>
     unat (mp_lower m mp) = PAGEHDRSZ + 2 * NUMKEYS m mp \<and>
     unat (mp_lower m mp) \<le> unat (mp_upper m mp) \<and> unat (mp_upper m mp) \<le> psz \<and> psz \<le> MAX_PAGESIZE \<and>
     (\<forall>i < NUMKEYS m mp. unat (mp_upper m mp) \<le> nptr m mp i \<and> nptr m mp i + nlen m mp i \<le> psz) \<and>
     (\<forall>i < NUMKEYS m mp. \<forall>j < NUMKEYS m mp. i \<noteq> j \<longrightarrow>
        nptr m mp i + nlen m mp i \<le> nptr m mp j \<or> nptr m mp j + nlen m mp j \<le> nptr m mp i)"

definition same_outside :: "addr \<Rightarrow> addr \<Rightarrow> mem \<Rightarrow> mem \<Rightarrow> bool" where
  "same_outside a b m m' \<longleftrightarrow> (\<forall>x. x < a \<or> b \<le> x \<longrightarrow> m' x = m x)"

lemma same_outside_refl [simp]: "same_outside a b m m"
  by (simp add: same_outside_def)

lemma same_outside_trans: "same_outside a b m m' \<Longrightarrow> same_outside a b m' m'' \<Longrightarrow> same_outside a b m m''"
  by (simp add: same_outside_def)

lemma same_outside_mono: "same_outside a b m m' \<Longrightarrow> a' \<le> a \<Longrightarrow> b \<le> b' \<Longrightarrow> same_outside a' b' m m'"
  by (auto simp: same_outside_def)

lemma same_outsideD: "same_outside a b m m' \<Longrightarrow> x < a \<or> b \<le> x \<Longrightarrow> m' x = m x"
  by (auto simp: same_outside_def)

lemma same_outside_write:
  "a \<le> d \<Longrightarrow> d + length bs \<le> b \<Longrightarrow> same_outside a b m m' \<Longrightarrow> same_outside a b m (mem_write m' d bs)"
  by (auto simp: same_outside_def mem_write_def)

lemma same_outside_wr16: "a \<le> d \<Longrightarrow> d + 2 \<le> b \<Longrightarrow> same_outside a b m m' \<Longrightarrow> same_outside a b m (wr16 m' d v)"
  by (simp add: wr16_def same_outside_write)

lemma same_outside_memmove:
  "a \<le> d \<Longrightarrow> d + n \<le> b \<Longrightarrow> same_outside a b m m' \<Longrightarrow> same_outside a b m (memmove m' d s n)"
  by (simp add: memmove_def same_outside_write)

lemmas header_defs = mp_pgno_def mp_pad_def mp_flags_def mp_lower_def mp_upper_def mp_ptrs_def
  set_flags_def set_lower_def set_upper_def set_ptr_def set_pgno_def set_pad_def

lemmas node_field_defs = mn_lo_def mn_hi_def mn_flags_def mn_ksize_def NODEKSZ_def NODEDSZ_def NODEKEY_def NODEDATA_def

lemma NUMKEYS_eq:
  assumes "16 \<le> unat (mp_lower m mp)"
  shows "NUMKEYS m mp = (unat (mp_lower m mp) - 16) div 2"
proof -
  have u: "unat (ucast (mp_lower m mp) :: u32) = unat (mp_lower m mp)"
    by (simp add: unsigned_ucast_eq take_bit_nat_eq_self_iff unsigned_less[THEN less_le_trans])
  then have "unat (ucast (mp_lower m mp) - 16 :: u32) = unat (mp_lower m mp) - 16"
    using assms by (simp add: unat_sub word_le_nat_alt)
  then show ?thesis by (simp add: NUMKEYS_def drop_bit_eq_div unat_div)
qed

lemma NUMKEYS_lower: "unat (mp_lower m mp) = 16 + 2 * n \<Longrightarrow> NUMKEYS m mp = n"
  by (simp add: NUMKEYS_eq)

lemma node_sz_raw: "node_sz m mp a = raw_sz (IS_LEAF m mp) m a"
  by (simp add: node_sz_def raw_sz_def data_len_def)

lemma raw_sz_ge: "8 \<le> raw_sz leaf m a"
  by (simp add: raw_sz_def)

lemma nlen_pos: "8 \<le> nlen m mp i"
  using raw_sz_ge[of "IS_LEAF m mp" m "NODEPTR m mp i"] EVEN_bounds(1)[of "raw_sz (IS_LEAF m mp) m (NODEPTR m mp i)"]
  by (simp add: nlen_def)

lemma NODEPTR_nptr: "NODEPTR m mp i = mp + nptr m mp i"
  by (simp add: NODEPTR_def nptr_def)

text \<open>A node moves with its bytes.\<close>

lemma node_move_cong:
  assumes eq: "\<And>k. k < raw_sz leaf m a \<Longrightarrow> m' (a' + k) = m (a + k)"
  shows "node_at leaf m' a' = node_at leaf m a" and "raw_sz leaf m' a' = raw_sz leaf m a"
proof -
  have hdr: "rd16 m' (a' + d) = rd16 m (a + d)" if "d + 2 \<le> 8" for d
    using that raw_sz_ge[of leaf m a] eq[of "d + i" for i] by (intro rd16_cong) (auto simp: add.assoc)
  have lo: "mn_lo m' a' = mn_lo m a" using hdr[of 0] by (simp add: mn_lo_def)
  have hi: "mn_hi m' a' = mn_hi m a" using hdr[of 2] by (simp add: mn_hi_def)
  have fl: "mn_flags m' a' = mn_flags m a" using hdr[of 4] by (simp add: mn_flags_def)
  have ks: "NODEKSZ m' a' = NODEKSZ m a" using hdr[of 6] by (simp add: NODEKSZ_def mn_ksize_def)
  have dl: "data_len leaf m' a' = data_len leaf m a" using lo hi fl by (simp add: data_len_def NODEDSZ_def)
  show "raw_sz leaf m' a' = raw_sz leaf m a" by (simp add: raw_sz_def ks dl)
  have "mem_read m' (NODEKEY a') (NODEKSZ m a) = mem_read m (NODEKEY a) (NODEKSZ m a)"
    using eq[of "8 + i" for i] by (intro mem_read_cong) (auto simp: NODEKEY_def raw_sz_def add.assoc)
  moreover have "mem_read m' (NODEDATA m' a') (data_len leaf m a) = mem_read m (NODEDATA m a) (data_len leaf m a)"
    using eq[of "8 + NODEKSZ m a + i" for i] by (intro mem_read_cong) (auto simp: NODEDATA_def ks raw_sz_def add.assoc)
  ultimately show "node_at leaf m' a' = node_at leaf m a"
    by (simp add: node_at_def lo hi fl ks dl)
qed

subsection \<open>The pointer array\<close>

lemma mp_ptrs_set_ptr [simp]: "mp_ptrs (set_ptr m mp i v) mp j = (if i = j then v else mp_ptrs m mp j)"
  by (auto simp: mp_ptrs_def set_ptr_def mem_simps nat_neq_iff)

lemma set_ptr_out: "x < mp + 16 + 2 * i \<or> mp + 16 + 2 * i + 2 \<le> x \<Longrightarrow> set_ptr m mp i v x = m x"
  by (simp add: set_ptr_def wr_out)

lemma ptrs_up_spec:
  "mp_ptrs (ptrs_up m mp indx n) mp j = (if indx < j \<and> j \<le> n then mp_ptrs m mp (j - 1) else mp_ptrs m mp j)"
  "same_outside (mp + 16) (mp + 16 + 2 * Suc n) m (ptrs_up m mp indx n)"
proof (induction m mp indx n arbitrary: j rule: ptrs_up.induct)
  case (2 m mp indx i)
  {
    case 1
    show ?case using 2(1)[of j] by (auto simp: le_Suc_eq)
  next
    case 2
    show ?case
    proof (cases "Suc i > indx")
      case True
      let ?m = "set_ptr m mp (Suc i) (mp_ptrs m mp i)"
      have "same_outside (mp + 16) (mp + 16 + 2 * Suc (Suc i)) ?m (ptrs_up ?m mp indx i)"
        using \<open>indx < Suc i \<Longrightarrow> same_outside (mp + 16) (mp + 16 + 2 * Suc i) ?m (ptrs_up ?m mp indx i)\<close> True
        by (auto intro: same_outside_mono)
      moreover have "same_outside (mp + 16) (mp + 16 + 2 * Suc (Suc i)) m ?m"
        unfolding set_ptr_def by (rule same_outside_wr16) simp_all
      ultimately show ?thesis using True same_outside_trans by simp
    qed simp
  }
qed auto

definition del_src :: "nat \<Rightarrow> nat \<Rightarrow> nat" where
  "del_src indx j = (if j < indx then j else Suc j)"

definition del_ptr :: "u16 \<Rightarrow> nat \<Rightarrow> u16 \<Rightarrow> u16" where
  "del_ptr ptr sz v = (if v < ptr then v + of_nat sz else v)"

lemma ptrs_del_spec:
  assumes "if i \<le> indx then j = i else Suc j = i"
  shows "(\<forall>q. mp_ptrs (ptrs_del m mp indx ptr sz k i j) mp q =
            (if j \<le> q \<and> del_src indx q < i + k then del_ptr ptr sz (mp_ptrs m mp (del_src indx q)) else mp_ptrs m mp q))
     \<and> same_outside (mp + 16) (mp + 16 + 2 * (i + k)) m (ptrs_del m mp indx ptr sz k i j)"
  using assms
proof (induction k arbitrary: m i j)
  case 0
  then show ?case by (auto simp: del_src_def split: if_splits)
next
  case (Suc k)
  show ?case
  proof (cases "i = indx")
    case True
    then have "if Suc i \<le> indx then j = Suc i else Suc j = Suc i" using Suc.prems by simp
    from Suc.IH[OF this, of m] True show ?thesis by simp
  next
    case False
    define m1 where "m1 = set_ptr m mp j (mp_ptrs m mp i)"
    define m2 where "m2 = (if mp_ptrs m1 mp i < ptr then set_ptr m1 mp j (mp_ptrs m1 mp j + of_nat sz) else m1)"
    have ji: "j \<le> i" "j < i \<Longrightarrow> indx < i" "del_src indx j = i"
      using Suc.prems False by (auto simp: del_src_def split: if_splits)
    have m2: "mp_ptrs m2 mp q = (if q = j then del_ptr ptr sz (mp_ptrs m mp i) else mp_ptrs m mp q)" for q
      by (auto simp: m2_def m1_def del_ptr_def)
    have step: "ptrs_del m mp indx ptr sz (Suc k) i j = ptrs_del m2 mp indx ptr sz k (Suc i) (Suc j)"
      using False by (simp add: m1_def m2_def Let_def)
    have "if Suc i \<le> indx then Suc j = Suc i else Suc (Suc j) = Suc i" using Suc.prems False by (simp split: if_splits)
    note IH = Suc.IH[OF this, of m2]
    have "same_outside (mp + 16) (mp + 16 + 2 * (i + Suc k)) m m2"
      using ji(1) unfolding m2_def m1_def set_ptr_def by (auto intro!: same_outside_wr16)
    moreover have "mp_ptrs (ptrs_del m2 mp indx ptr sz k (Suc i) (Suc j)) mp q =
        (if j \<le> q \<and> del_src indx q < i + Suc k then del_ptr ptr sz (mp_ptrs m mp (del_src indx q)) else mp_ptrs m mp q)" for q
    proof (cases "q = j")
      case True
      then show ?thesis using IH ji(3) by (simp add: m2)
    next
      case neq: False
      have "del_src indx q \<noteq> j" if "Suc j \<le> q" using that by (auto simp: del_src_def)
      then show ?thesis using IH neq by (auto simp: m2 Suc_le_eq order_le_less)
    qed
    ultimately show ?thesis unfolding step using IH same_outside_trans by auto
  qed
qed

end
