(* ===== verification/Lmdb_State.thy ===== *)
theory Lmdb_State
  imports Midl_Sort Page
begin

section \<open>The state of an environment (mdb.c)\<close>

text \<open>
  The structures of \<^verbatim>\<open>mdb.c\<close> as records and the world they live in: the byte memory (the map of the data
  file and the pages on the heap), the environment, the transactions and the cursors by their
  identity. A structure that the C code allocates on the stack or on the heap is an entry of a
  store; a pointer to it is its index. Arrays indexed by a database handle are functions.

  \<open>mc_db\<close>, \<open>mc_dbx\<close> and \<open>mc_dbflag\<close> of a cursor point either into the transaction (and the environment) or, for
  the cursor of an \<open>MDB_xcursor\<close> and its copies, to the fields next to that cursor; \<open>mc_dbsrc\<close> is the index of that
  cursor, and \<open>get_db\<close>, \<open>get_dbx\<close> and \<open>get_dbflag\<close> follow the pointers. The linked list of the cursors of a database is the list \<open>mt_cursors\<close>. The pointer
  \<open>mt_dbiseqs\<close> is to the array of the environment in a reader (\<open>mt_env_seqs\<close>) and to the array of \<open>me_txn0\<close> in a
  writer and its nested transactions. \<open>mnt_pghead\<close> and \<open>mnt_pglast\<close> are the \<open>mnt_pgstate\<close> of an \<open>MDB_ntxn\<close>.
\<close>

subsection \<open>Structures\<close>

record MDB_db =
  md_pad :: u32
  md_flags :: u16
  md_depth :: u16
  md_branch_pages :: u64
  md_leaf_pages :: u64
  md_overflow_pages :: u64
  md_entries :: u64
  md_root :: u64

record MDB_meta =
  mm_magic :: u32
  mm_version :: u32
  mm_address :: u64
  mm_mapsize :: u64
  mm_free :: MDB_db
  mm_main :: MDB_db
  mm_last_pg :: u64
  mm_txnid :: u64

record MDB_dbx =
  md_name :: bytes
  md_cmp :: "cmp_func option"
  md_dcmp :: "cmp_func option"

record MDB_reader =
  mr_txnid :: u64
  mr_pid :: nat
  mr_tid :: nat

record MDB_txninfo =
  mti_txnid :: u64
  mti_numreaders :: nat
  mti_readers :: "MDB_reader list"

record MDB_txn =
  mt_parent :: "nat option"
  mt_child :: "nat option"
  mt_next_pgno :: u64
  mt_txnid :: u64
  mt_free_pgs :: MDB_IDL
  mt_loose_pgs :: addr
  mt_loose_count :: nat
  mt_spill_pgs :: "MDB_IDL option"
  mt_dirty_list :: "MDB_ID2 list"
  mt_reader :: "nat option"
  mt_dbs :: "nat \<Rightarrow> MDB_db"
  mt_env_seqs :: bool
  mt_cursors :: "(nat \<Rightarrow> nat list) option"
  mt_dbflags :: "nat \<Rightarrow> byte"
  mt_numdbs :: nat
  mt_flags :: u32
  mt_dirty_room :: nat
  mnt_pghead :: "MDB_IDL option"
  mnt_pglast :: u64

record MDB_cursor =
  mc_backup :: "nat option"
  mc_xcursor :: "nat option"
  mc_txn :: nat
  mc_dbi :: nat
  mc_dbsrc :: "nat option"
  mx_db :: MDB_db
  mx_dbx :: MDB_dbx
  mx_dbflag :: byte
  mc_snum :: nat
  mc_top :: nat
  mc_flags :: u32
  mc_pg :: "nat \<Rightarrow> addr"
  mc_ki :: "nat \<Rightarrow> nat"

record MDB_env =
  me_flags :: u32
  me_psize :: nat
  me_os_psize :: nat
  me_maxreaders :: nat
  me_close_readers :: nat
  me_numdbs :: nat
  me_maxdbs :: nat
  me_pid :: nat
  me_map :: addr
  me_txns :: "MDB_txninfo option"
  me_pbuf :: addr
  me_txn :: "nat option"
  me_txn0 :: nat
  me_mapsize :: nat
  me_maxpg :: u64
  me_dbxs :: "nat \<Rightarrow> MDB_dbx"
  me_dbflags :: "nat \<Rightarrow> u16"
  me_dbiseqs :: "nat \<Rightarrow> nat"
  me_txn0_seqs :: "nat \<Rightarrow> nat"
  me_pgoldest :: u64
  me_pglast :: u64
  me_pghead :: "MDB_IDL option"
  me_dpages :: addr
  me_free_pgs :: MDB_IDL
  me_dirty_list :: "MDB_ID2 list"
  me_maxfree_1pg :: nat
  me_nodemax :: nat
  me_live_reader :: bool

text \<open>
  \<open>w_ok\<close> and \<open>w_gid\<close> are the allocator as in the theory \<open>Midl\<close>; \<open>w_brk\<close> is the address of the next block of
  the heap; \<open>w_ntxn\<close> and \<open>w_ncur\<close> are the next unused indices of the stores. \<open>w_nio\<close> counts the writes and
  flushes of the data file; \<open>w_write\<close> gives for each write how many of its bytes reach the file and the
  error code of the call (0 if it returns the number of bytes), \<open>w_sync\<close> the outcome of each flush. \<open>w_tid\<close>
  is the running thread, \<open>w_tls\<close> the reader slot in each thread's local storage and \<open>w_tlsrc\<close> the outcome of
  storing one, \<open>w_wlock\<close> the writer mutex, \<open>w_lockrc\<close> the outcome of locking a mutex, \<open>w_pidset\<close> that of taking
  the process's lock and \<open>w_alive\<close> tells which processes hold theirs.
\<close>

record world =
  w_mem :: mem
  w_env :: MDB_env
  w_txns :: "nat \<Rightarrow> MDB_txn"
  w_cursors :: "nat \<Rightarrow> MDB_cursor"
  w_ntxn :: nat
  w_ncur :: nat
  w_brk :: addr
  w_ok :: "nat \<Rightarrow> bool"
  w_gid :: "nat \<Rightarrow> MDB_ID"
  w_nio :: nat
  w_write :: "nat \<Rightarrow> nat \<times> int"
  w_sync :: "nat \<Rightarrow> int"
  w_tid :: nat
  w_tls :: "nat \<Rightarrow> nat option"
  w_tlsrc :: int
  w_wlock :: bool
  w_lockrc :: int
  w_pidset :: int
  w_alive :: "nat \<Rightarrow> bool"

subsection \<open>Access to the stores\<close>

definition txn :: "world \<Rightarrow> nat \<Rightarrow> MDB_txn" where
  "txn w t = w_txns w t"

definition cur :: "world \<Rightarrow> nat \<Rightarrow> MDB_cursor" where
  "cur w c = w_cursors w c"

definition upd_mem :: "(mem \<Rightarrow> mem) \<Rightarrow> world \<Rightarrow> world" where
  "upd_mem f w = w\<lparr>w_mem := f (w_mem w)\<rparr>"

definition upd_env :: "(MDB_env \<Rightarrow> MDB_env) \<Rightarrow> world \<Rightarrow> world" where
  "upd_env f w = w\<lparr>w_env := f (w_env w)\<rparr>"

definition upd_txn :: "nat \<Rightarrow> (MDB_txn \<Rightarrow> MDB_txn) \<Rightarrow> world \<Rightarrow> world" where
  "upd_txn t f w = w\<lparr>w_txns := (w_txns w)(t := f (w_txns w t))\<rparr>"

definition upd_cur :: "nat \<Rightarrow> (MDB_cursor \<Rightarrow> MDB_cursor) \<Rightarrow> world \<Rightarrow> world" where
  "upd_cur c f w = w\<lparr>w_cursors := (w_cursors w)(c := f (w_cursors w c))\<rparr>"

definition new_cur :: "world \<Rightarrow> nat \<times> world" where
  "new_cur w = (w_ncur w, w\<lparr>w_ncur := w_ncur w + 1\<rparr>)"

lemma store_simps [simp]:
  "txn (upd_mem g w) t = txn w t" "cur (upd_mem g w) c = cur w c" "w_mem (upd_mem g w) = g (w_mem w)" "w_env (upd_mem g w) = w_env w"
  "txn (upd_env e w) t = txn w t" "cur (upd_env e w) c = cur w c" "w_mem (upd_env e w) = w_mem w" "w_env (upd_env e w) = e (w_env w)"
  "txn (upd_txn s f w) t = (if s = t then f (txn w t) else txn w t)" "cur (upd_txn s f w) c = cur w c"
  "w_mem (upd_txn s f w) = w_mem w" "w_env (upd_txn s f w) = w_env w"
  "txn (upd_cur d h w) t = txn w t" "cur (upd_cur d h w) c = (if d = c then h (cur w c) else cur w c)"
  "w_mem (upd_cur d h w) = w_mem w" "w_env (upd_cur d h w) = w_env w"
  "w_ncur (upd_mem g w) = w_ncur w" "w_ncur (upd_env e w) = w_ncur w" "w_ncur (upd_txn s f w) = w_ncur w" "w_ncur (upd_cur d h w) = w_ncur w"
  by (auto simp: txn_def cur_def upd_mem_def upd_env_def upd_txn_def upd_cur_def)

subsection \<open>Pointers of a cursor\<close>

definition get_db :: "world \<Rightarrow> nat \<Rightarrow> MDB_db" where
  "get_db w c =
     (case mc_dbsrc (cur w c) of
        Some x \<Rightarrow> mx_db (cur w x)
      | None \<Rightarrow> mt_dbs (txn w (mc_txn (cur w c))) (mc_dbi (cur w c)))"

definition upd_db :: "nat \<Rightarrow> (MDB_db \<Rightarrow> MDB_db) \<Rightarrow> world \<Rightarrow> world" where
  "upd_db c f w =
     (case mc_dbsrc (cur w c) of
        Some x \<Rightarrow> upd_cur x (\<lambda>mc. mc\<lparr>mx_db := f (mx_db mc)\<rparr>) w
      | None \<Rightarrow> upd_txn (mc_txn (cur w c))
             (\<lambda>t. t\<lparr>mt_dbs := (mt_dbs t)(mc_dbi (cur w c) := f (mt_dbs t (mc_dbi (cur w c))))\<rparr>) w)"

definition get_dbx :: "world \<Rightarrow> nat \<Rightarrow> MDB_dbx" where
  "get_dbx w c = (case mc_dbsrc (cur w c) of Some x \<Rightarrow> mx_dbx (cur w x) | None \<Rightarrow> me_dbxs (w_env w) (mc_dbi (cur w c)))"

definition get_dbflag :: "world \<Rightarrow> nat \<Rightarrow> byte" where
  "get_dbflag w c =
     (case mc_dbsrc (cur w c) of
        Some x \<Rightarrow> mx_dbflag (cur w x)
      | None \<Rightarrow> mt_dbflags (txn w (mc_txn (cur w c))) (mc_dbi (cur w c)))"

definition upd_dbflag :: "nat \<Rightarrow> (byte \<Rightarrow> byte) \<Rightarrow> world \<Rightarrow> world" where
  "upd_dbflag c f w =
     (case mc_dbsrc (cur w c) of
        Some x \<Rightarrow> upd_cur x (\<lambda>mc. mc\<lparr>mx_dbflag := f (mx_dbflag mc)\<rparr>) w
      | None \<Rightarrow> upd_txn (mc_txn (cur w c))
             (\<lambda>t. t\<lparr>mt_dbflags := (mt_dbflags t)(mc_dbi (cur w c) := f (mt_dbflags t (mc_dbi (cur w c))))\<rparr>) w)"

definition cur_pg :: "world \<Rightarrow> nat \<Rightarrow> addr" where
  "cur_pg w c = mc_pg (cur w c) (mc_top (cur w c))"

definition cur_ki :: "world \<Rightarrow> nat \<Rightarrow> nat" where
  "cur_ki w c = mc_ki (cur w c) (mc_top (cur w c))"

definition set_ki :: "nat \<Rightarrow> nat \<Rightarrow> world \<Rightarrow> world" where
  "set_ki c i w = upd_cur c (\<lambda>mc. mc\<lparr>mc_ki := (mc_ki mc)(mc_top mc := i mod 65536)\<rparr>) w"

definition set_pg :: "nat \<Rightarrow> addr \<Rightarrow> world \<Rightarrow> world" where
  "set_pg c mp w = upd_cur c (\<lambda>mc. mc\<lparr>mc_pg := (mc_pg mc)(mc_top mc := mp)\<rparr>) w"

definition cur_or :: "nat \<Rightarrow> u32 \<Rightarrow> world \<Rightarrow> world" where
  "cur_or c f w = upd_cur c (\<lambda>mc. mc\<lparr>mc_flags := mc_flags mc OR f\<rparr>) w"

definition cur_clear :: "nat \<Rightarrow> u32 \<Rightarrow> world \<Rightarrow> world" where
  "cur_clear c f w = upd_cur c (\<lambda>mc. mc\<lparr>mc_flags := mc_flags mc AND NOT f\<rparr>) w"

definition txn_or :: "nat \<Rightarrow> u32 \<Rightarrow> world \<Rightarrow> world" where
  "txn_or t f w = upd_txn t (\<lambda>x. x\<lparr>mt_flags := mt_flags x OR f\<rparr>) w"

definition txn_clear :: "nat \<Rightarrow> u32 \<Rightarrow> world \<Rightarrow> world" where
  "txn_clear t f w = upd_txn t (\<lambda>x. x\<lparr>mt_flags := mt_flags x AND NOT f\<rparr>) w"

text \<open>The value the C code stores for \<open>NUMKEYS(mp) - 1\<close> in an unsigned integer.\<close>

definition NUMKEYS_pred :: "mem \<Rightarrow> addr \<Rightarrow> nat" where
  "NUMKEYS_pred m mp = (if NUMKEYS m mp = 0 then 2 ^ 32 - 1 else NUMKEYS m mp - 1)"

subsection \<open>Database records in memory\<close>

text \<open>An \<open>MDB_db\<close> is stored in a node or in a meta page as its 48 bytes.\<close>

definition db_bytes :: "MDB_db \<Rightarrow> bytes" where
  "db_bytes db = to_le 4 (unat (md_pad db)) @ to_le 2 (unat (md_flags db)) @ to_le 2 (unat (md_depth db)) @
     to_le 8 (unat (md_branch_pages db)) @ to_le 8 (unat (md_leaf_pages db)) @ to_le 8 (unat (md_overflow_pages db)) @
     to_le 8 (unat (md_entries db)) @ to_le 8 (unat (md_root db))"

definition read_db :: "mem \<Rightarrow> addr \<Rightarrow> MDB_db" where
  "read_db m a = \<lparr>md_pad = rd32 m a, md_flags = rd16 m (a + 4), md_depth = rd16 m (a + 6),
     md_branch_pages = rd64 m (a + 8), md_leaf_pages = rd64 m (a + 16), md_overflow_pages = rd64 m (a + 24),
     md_entries = rd64 m (a + 32), md_root = rd64 m (a + 40)\<rparr>"

end
