(* ===== verification/Search.thy ===== *)
theory Search
  imports Lmdb_State
begin

section \<open>Searching pages and trees (mdb.c)\<close>

text \<open>
  Binary search in a page, the page stack of a cursor, looking pages up by number and walking from
  the root of a tree to a leaf. Functions return None where the C code faults or an assertion fails,
  and otherwise the return code and the new world.

  \<open>mdb_page_search\<close> takes the function \<open>touch\<close> that makes the page on top of the stack writable as an
  argument: it is \<open>mdb_page_touch\<close> for the writers, and it is not called for the readers, which never
  pass \<open>MDB_PS_MODIFY\<close>.
\<close>

subsection \<open>Searching a page\<close>

function search_loop :: "(nat \<Rightarrow> int option) \<Rightarrow> nat \<Rightarrow> int \<Rightarrow> nat \<Rightarrow> int \<Rightarrow> (nat \<times> int) option" where
  "search_loop cmpi low high i rc =
     (if int low \<le> high then do {
        let i = nat ((int low + high) div 2);
        rc \<leftarrow> cmpi i;
        if rc = 0 then Some (i, rc)
        else if rc > 0 then search_loop cmpi (i + 1) high i rc
        else search_loop cmpi low (int i - 1) i rc
      } else Some (i, rc))"
  by pat_completeness auto

termination
  by (relation "measure (\<lambda>(_, low, high, _, _). nat (high + 1 - int low))") auto

declare search_loop.simps [simp del]

definition node_key :: "mem \<Rightarrow> addr \<Rightarrow> nat \<Rightarrow> nat \<Rightarrow> bytes" where
  "node_key m mp ksize i =
     (if IS_LEAF2 m mp then mem_read m (LEAF2KEY mp i ksize) ksize
      else mem_read m (NODEKEY (NODEPTR m mp i)) (NODEKSZ m (NODEPTR m mp i)))"

definition search_cmp :: "mem \<Rightarrow> addr \<Rightarrow> cmp_func \<Rightarrow> cmp_func" where
  "search_cmp m mp cmp =
     (if is_cmp_cint cmp \<and> IS_BRANCH m mp then
        (if NODEKSZ m (NODEPTR m mp 1) = 8 then Cmp_long else Cmp_int)
      else cmp)"

definition page_search_key :: "mem \<Rightarrow> addr \<Rightarrow> cmp_func \<Rightarrow> nat \<Rightarrow> bytes \<Rightarrow> (addr option \<times> bool \<times> nat) option" where
  "page_search_key m mp cmp ksize key = do {
     let nkeys = NUMKEYS m mp;
     let low = (if IS_LEAF m mp then 0 else 1);
     let high = int nkeys - 1;
     let cmp = search_cmp m mp cmp;
     (i, rc) \<leftarrow> search_loop (\<lambda>i. call_cmp cmp key (node_key m mp ksize i)) low high 0 0;
     let node = (if IS_LEAF2 m mp then Some (NODEPTR m mp 0)
                 else if int low \<le> high then Some (NODEPTR m mp i) else None);
     let (i, node) = (if rc > 0 then (i + 1, if IS_LEAF2 m mp then node else Some (NODEPTR m mp (i + 1))) else (i, node));
     let exact = (rc = 0 \<and> nkeys > 0);
     Some (if i \<ge> nkeys then None else node, exact, i)
   }"

definition mdb_node_search :: "world \<Rightarrow> nat \<Rightarrow> MDB_val \<Rightarrow> (addr option \<times> bool \<times> world) option" where
  "mdb_node_search w mc key = do {
     cmp \<leftarrow> md_cmp (get_dbx w mc);
     (node, exact, i) \<leftarrow> page_search_key (w_mem w) (cur_pg w mc) cmp (unat (md_pad (get_db w mc))) (val_bytes (w_mem w) key);
     Some (node, exact, set_ki mc i w)
   }"

subsection \<open>The page stack of a cursor\<close>

definition mdb_cursor_pop :: "nat \<Rightarrow> world \<Rightarrow> world" where
  "mdb_cursor_pop mc w =
     (if mc_snum (cur w mc) > 0 then
        (let w = upd_cur mc (\<lambda>c. c\<lparr>mc_snum := mc_snum c - 1\<rparr>) w in
         if mc_snum (cur w mc) > 0 then upd_cur mc (\<lambda>c. c\<lparr>mc_top := mc_top c - 1\<rparr>) w
         else cur_clear mc C_INITIALIZED w)
      else w)"

definition mdb_cursor_push :: "world \<Rightarrow> nat \<Rightarrow> addr \<Rightarrow> int \<times> world" where
  "mdb_cursor_push w mc mp =
     (if mc_snum (cur w mc) \<ge> CURSOR_STACK then (MDB_CURSOR_FULL, txn_or (mc_txn (cur w mc)) MDB_TXN_ERROR w)
      else (let w = upd_cur mc (\<lambda>c. c\<lparr>mc_top := mc_snum c, mc_snum := mc_snum c + 1\<rparr>) w
            in (MDB_SUCCESS, set_ki mc 0 (set_pg mc mp w))))"

subsection \<open>Pages by number\<close>

definition map_page :: "world \<Rightarrow> u64 \<Rightarrow> addr" where
  "map_page w pgno = me_map (w_env w) + me_psize (w_env w) * unat pgno"

text \<open>
  The two tests the code repeats, \<open>x <= ids[0] && ids[x] == id\<close> after a search in an ID list and in an ID2
  list: the position if the ID is in the list.
\<close>

definition midl_find :: "MDB_ID list \<Rightarrow> MDB_ID \<Rightarrow> nat option option" where
  "midl_find ids pn = do {
     x \<leftarrow> mdb_midl_search ids pn;
     n \<leftarrow> aget ids 0;
     if x \<le> unat n then do { v \<leftarrow> aget ids x; Some (if v = pn then Some x else None) } else Some None
   }"

definition mid2l_find :: "MDB_ID2 list \<Rightarrow> MDB_ID \<Rightarrow> (nat \<times> nat) option option" where
  "mid2l_find dl pgno = do {
     d0 \<leftarrow> aget dl 0;
     if mid d0 \<noteq> 0 then do {
       x \<leftarrow> mdb_mid2l_search dl pgno;
       if x \<le> unat (mid d0) then do {
         d \<leftarrow> aget dl x;
         Some (if mid d = pgno then Some (x, mptr d) else None)
       } else Some None
     } else Some None
   }"

text \<open>One transaction of the chain: the page if it was spilled by it, or its copy if it is dirty.\<close>

definition txn_page :: "world \<Rightarrow> nat \<Rightarrow> u64 \<Rightarrow> addr option option" where
  "txn_page w t pgno = do {
     spilled \<leftarrow> (case mt_spill_pgs (txn w t) of None \<Rightarrow> Some None | Some sl \<Rightarrow> midl_find (cells sl) (push_bit 1 pgno));
     if spilled \<noteq> None then Some (Some (map_page w pgno))
     else map_option (map_option snd) (mid2l_find (mt_dirty_list (txn w t)) pgno)
   }"

partial_function (option) page_get_loop :: "world \<Rightarrow> nat \<Rightarrow> u64 \<Rightarrow> nat \<Rightarrow> (addr \<times> nat) option option" where
  [code]: "page_get_loop w t pgno level = do {
     r \<leftarrow> txn_page w t pgno;
     case r of
       Some p \<Rightarrow> Some (Some (p, level))
     | None \<Rightarrow>
         (case mt_parent (txn w t) of
            None \<Rightarrow> Some None
          | Some t2 \<Rightarrow> page_get_loop w t2 pgno (level + 1))
   }"

definition mdb_page_get :: "world \<Rightarrow> nat \<Rightarrow> u64 \<Rightarrow> (int \<times> addr \<times> nat \<times> world) option" where
  "mdb_page_get w t pgno = do {
     r \<leftarrow> (if mt_flags (txn w t) AND (MDB_TXN_RDONLY OR MDB_TXN_WRITEMAP) = 0 then page_get_loop w t pgno 1 else Some None);
     case r of
       Some (p, level) \<Rightarrow> Some (MDB_SUCCESS, p, level, w)
     | None \<Rightarrow>
         (if pgno < mt_next_pgno (txn w t) then Some (MDB_SUCCESS, map_page w pgno, 0, w)
          else Some (MDB_PAGE_NOTFOUND, 0, 0, txn_or t MDB_TXN_ERROR w))
   }"

subsection \<open>The data of a node\<close>

definition mdb_node_read :: "world \<Rightarrow> nat \<Rightarrow> addr \<Rightarrow> MDB_val \<Rightarrow> (int \<times> MDB_val \<times> world) option" where
  "mdb_node_read w t leaf data =
     (let m = w_mem w in
      if \<not> F_ISSET (mn_flags m leaf) F_BIGDATA then
        Some (MDB_SUCCESS, \<lparr>mv_size = NODEDSZ m leaf, mv_data = Mem (NODEDATA m leaf)\<rparr>, w)
      else do {
        let data = data\<lparr>mv_size := NODEDSZ m leaf\<rparr>;
        (rc, omp, _, w) \<leftarrow> mdb_page_get w t (rd64 m (NODEDATA m leaf));
        if rc \<noteq> 0 then Some (rc, data, w)
        else Some (MDB_SUCCESS, data\<lparr>mv_data := Mem (METADATA omp)\<rparr>, w)
      })"

subsection \<open>From the root to a leaf\<close>

type_synonym touch_fn = "world \<Rightarrow> nat \<Rightarrow> (int \<times> world) option"

definition branch_index :: "world \<Rightarrow> nat \<Rightarrow> addr \<Rightarrow> MDB_val option \<Rightarrow> u32 \<Rightarrow> (nat \<times> world) option" where
  "branch_index w mc mp key flags =
     (if flags AND (MDB_PS_FIRST OR MDB_PS_LAST) \<noteq> 0 then
        Some (if flags AND MDB_PS_LAST \<noteq> 0 then NUMKEYS_pred (w_mem w) mp else 0, w)
      else do {
        k \<leftarrow> key;
        (node, exact, w) \<leftarrow> mdb_node_search w mc k;
        case node of
          None \<Rightarrow> Some (NUMKEYS_pred (w_mem w) mp, w)
        | Some _ \<Rightarrow>
            (let i = cur_ki w mc in
             if exact then Some (i, w)
             else if i > 0 then Some (i - 1, w) else None)
      })"

partial_function (option) page_search_root_gen ::
  "touch_fn \<Rightarrow> world \<Rightarrow> nat \<Rightarrow> addr \<Rightarrow> MDB_val option \<Rightarrow> u32 \<Rightarrow> (int \<times> world) option" where
  [code]: "page_search_root_gen touch w mc mp key flags =
     (if IS_BRANCH (w_mem w) mp then
        (if \<not> NUMKEYS (w_mem w) mp > 1 then None
         else do {
           (i, w) \<leftarrow> branch_index w mc mp key flags;
           if \<not> i < NUMKEYS (w_mem w) mp then None
           else do {
             let node = NODEPTR (w_mem w) mp i;
             (rc, mp, _, w) \<leftarrow> mdb_page_get w (mc_txn (cur w mc)) (NODEPGNO (w_mem w) node);
             if rc \<noteq> 0 then Some (rc, w)
             else do {
               let w = set_ki mc i w;
               let (rc, w) = mdb_cursor_push w mc mp;
               if rc \<noteq> 0 then Some (rc, w)
               else if flags AND MDB_PS_MODIFY \<noteq> 0 then do {
                 (rc, w) \<leftarrow> touch w mc;
                 if rc \<noteq> 0 then Some (rc, w)
                 else page_search_root_gen touch w mc (cur_pg w mc) key flags
               } else page_search_root_gen touch w mc mp key flags
             }
           }
         })
      else if \<not> IS_LEAF (w_mem w) mp then Some (MDB_CORRUPTED, txn_or (mc_txn (cur w mc)) MDB_TXN_ERROR w)
      else Some (MDB_SUCCESS, cur_clear mc C_EOF (cur_or mc C_INITIALIZED w)))"

definition mdb_page_search_lowest :: "touch_fn \<Rightarrow> world \<Rightarrow> nat \<Rightarrow> (int \<times> world) option" where
  "mdb_page_search_lowest touch w mc = do {
     let node = NODEPTR (w_mem w) (cur_pg w mc) 0;
     (rc, mp, _, w) \<leftarrow> mdb_page_get w (mc_txn (cur w mc)) (NODEPGNO (w_mem w) node);
     if rc \<noteq> 0 then Some (rc, w)
     else do {
       let w = set_ki mc 0 w;
       let (rc, w) = mdb_cursor_push w mc mp;
       if rc \<noteq> 0 then Some (rc, w)
       else page_search_root_gen touch w mc (cur_pg w mc) None MDB_PS_FIRST
     }
   }"

subsection \<open>Setting up cursors\<close>

definition TXN_DBI_EXIST :: "world \<Rightarrow> nat \<Rightarrow> nat \<Rightarrow> byte \<Rightarrow> bool" where
  "TXN_DBI_EXIST w t dbi validity \<longleftrightarrow>
     dbi < mt_numdbs (txn w t) \<and> mt_dbflags (txn w t) dbi AND validity \<noteq> 0"

definition txn_dbiseq :: "world \<Rightarrow> nat \<Rightarrow> nat \<Rightarrow> nat" where
  "txn_dbiseq w t dbi = (if mt_env_seqs (txn w t) then me_dbiseqs (w_env w) dbi else me_txn0_seqs (w_env w) dbi)"

definition TXN_DBI_CHANGED :: "world \<Rightarrow> nat \<Rightarrow> nat \<Rightarrow> bool" where
  "TXN_DBI_CHANGED w t dbi \<longleftrightarrow> txn_dbiseq w t dbi \<noteq> me_dbiseqs (w_env w) dbi"

definition mdb_xcursor_init0 :: "nat \<Rightarrow> nat \<Rightarrow> world \<Rightarrow> world" where
  "mdb_xcursor_init0 mc mx w =
     upd_cur mx (\<lambda>x. x\<lparr>mc_xcursor := None, mc_txn := mc_txn (cur w mc), mc_dbsrc := Some mx, mc_dbi := mc_dbi (cur w mc),
       mc_snum := 0, mc_top := 0, mc_flags := C_SUB,
       mx_dbx := \<lparr>md_name = [], md_cmp = md_dcmp (get_dbx w mc), md_dcmp = None\<rparr>\<rparr>) w"

text \<open>\<open>mdb_cursor_init\<close> up to the search of a stale root, which is in \<open>mdb_cursor_init\<close> below.\<close>

definition cursor_init_fields :: "nat \<Rightarrow> nat \<Rightarrow> nat \<Rightarrow> nat option \<Rightarrow> world \<Rightarrow> world option" where
  "cursor_init_fields mc t dbi mx w =
     (let w = upd_cur mc (\<lambda>c. c\<lparr>mc_backup := None, mc_dbi := dbi, mc_txn := t, mc_dbsrc := None, mc_snum := 0,
                mc_top := 0, mc_pg := (mc_pg c)(0 := 0), mc_ki := (mc_ki c)(0 := 0), mc_flags := 0\<rparr>) w
      in if md_flags (mt_dbs (txn w t) dbi) AND MDB_DUPSORT \<noteq> 0 then
           (case mx of
              None \<Rightarrow> None
            | Some x \<Rightarrow> Some (mdb_xcursor_init0 mc x (upd_cur mc (\<lambda>c. c\<lparr>mc_xcursor := Some x\<rparr>) w)))
         else Some (upd_cur mc (\<lambda>c. c\<lparr>mc_xcursor := None\<rparr>) w))"

definition ptr_addr :: "ptr \<Rightarrow> addr option" where
  "ptr_addr p = (case p of Mem a \<Rightarrow> Some a | Obj _ \<Rightarrow> None)"

text \<open>The record of a named database, read from the main database by the cursor \<open>mc2\<close> (already searched).\<close>

definition stale_read :: "world \<Rightarrow> nat \<Rightarrow> nat \<Rightarrow> (int \<times> world) option" where
  "stale_read w mc mc2 = do {
     let name = md_name (get_dbx w mc);
     (leaf, exact, w) \<leftarrow> mdb_node_search w mc2 \<lparr>mv_size = length name, mv_data = Obj name\<rparr>;
     if \<not> exact then Some (MDB_NOTFOUND, w)
     else do {
       leaf \<leftarrow> leaf;
       if mn_flags (w_mem w) leaf AND (F_DUPDATA OR F_SUBDATA) \<noteq> F_SUBDATA then Some (MDB_INCOMPATIBLE, w)
       else do {
         (rc, data, w) \<leftarrow> mdb_node_read w (mc_txn (cur w mc)) leaf \<lparr>mv_size = 0, mv_data = Mem 0\<rparr>;
         if rc \<noteq> 0 then Some (rc, w)
         else do {
           a \<leftarrow> ptr_addr (mv_data data);
           let flags = rd16 (w_mem w) (a + 4);
           if md_flags (get_db w mc) AND PERSISTENT_FLAGS \<noteq> flags then Some (MDB_INCOMPATIBLE, w)
           else Some (0, upd_dbflag mc (\<lambda>f. f AND NOT DB_STALE) (upd_db mc (\<lambda>_. read_db (w_mem w) a) w))
         }
       }
     }
   }"

definition page_search_from :: "touch_fn \<Rightarrow> world \<Rightarrow> nat \<Rightarrow> MDB_val option \<Rightarrow> u32 \<Rightarrow> (int \<times> world) option" where
  "page_search_from touch w mc key flags =
     (let root = md_root (get_db w mc) in
      if root = P_INVALID then Some (MDB_NOTFOUND, w)
      else if \<not> root > 1 then None
      else do {
        (rc, w) \<leftarrow> (if mc_pg (cur w mc) 0 = 0 \<or> mp_pgno (w_mem w) (mc_pg (cur w mc) 0) \<noteq> root then do {
            (rc, p, _, w) \<leftarrow> mdb_page_get w (mc_txn (cur w mc)) root;
            Some (rc, if rc = 0 then upd_cur mc (\<lambda>c. c\<lparr>mc_pg := (mc_pg c)(0 := p)\<rparr>) w else w)
          } else Some (0, w));
        if rc \<noteq> 0 then Some (rc, w)
        else do {
          let w = upd_cur mc (\<lambda>c. c\<lparr>mc_snum := 1, mc_top := 0\<rparr>) w;
          (rc, w) \<leftarrow> (if flags AND MDB_PS_MODIFY \<noteq> 0 then touch w mc else Some (0, w));
          if rc \<noteq> 0 then Some (rc, w)
          else if flags AND MDB_PS_ROOTONLY \<noteq> 0 then Some (MDB_SUCCESS, w)
          else page_search_root_gen touch w mc (cur_pg w mc) key flags
        }
      })"

partial_function (option) page_search_gen ::
  "touch_fn \<Rightarrow> world \<Rightarrow> nat \<Rightarrow> MDB_val option \<Rightarrow> u32 \<Rightarrow> (int \<times> world) option" where
  [code]: "page_search_gen touch w mc key flags =
     (if mt_flags (txn w (mc_txn (cur w mc))) AND MDB_TXN_BLOCKED \<noteq> 0 then Some (MDB_BAD_TXN, w)
      else if get_dbflag w mc AND DB_STALE \<noteq> 0 then
        (if TXN_DBI_CHANGED w (mc_txn (cur w mc)) (mc_dbi (cur w mc)) then Some (MDB_BAD_DBI, w)
         else do {
           let name = md_name (get_dbx w mc);
           let (mc2, w) = new_cur w;
           w \<leftarrow> cursor_init_fields mc2 (mc_txn (cur w mc)) MAIN_DBI None w;
           w \<leftarrow> (if get_dbflag w mc2 AND DB_STALE \<noteq> 0 then
                   do { (_, w) \<leftarrow> page_search_gen touch w mc2 None MDB_PS_ROOTONLY; Some w }
                 else Some w);
           (rc, w) \<leftarrow> page_search_gen touch w mc2 (Some \<lparr>mv_size = length name, mv_data = Obj name\<rparr>) 0;
           if rc \<noteq> 0 then Some (rc, w)
           else do {
             (rc, w) \<leftarrow> stale_read w mc mc2;
             if rc \<noteq> 0 then Some (rc, w) else page_search_from touch w mc key flags
           }
         })
      else page_search_from touch w mc key flags)"

definition cursor_init_gen :: "touch_fn \<Rightarrow> nat \<Rightarrow> nat \<Rightarrow> nat \<Rightarrow> nat option \<Rightarrow> world \<Rightarrow> world option" where
  "cursor_init_gen touch mc t dbi mx w = do {
     w \<leftarrow> cursor_init_fields mc t dbi mx w;
     if get_dbflag w mc AND DB_STALE \<noteq> 0 then do {
       (_, w) \<leftarrow> page_search_gen touch w mc None MDB_PS_ROOTONLY;
       Some w
     } else Some w
   }"

text \<open>The readers: no page is touched, since they never ask for it.\<close>

definition no_touch :: touch_fn where
  "no_touch w mc = None"

definition mdb_cursor_init :: "nat \<Rightarrow> nat \<Rightarrow> nat \<Rightarrow> nat option \<Rightarrow> world \<Rightarrow> world option" where
  "mdb_cursor_init = cursor_init_gen no_touch"

end
