(* ===== verification/Cursor.thy ===== *)
theory Cursor
  imports Search
begin

section \<open>Cursors (mdb.c)\<close>

text \<open>
  The readers: setting up cursors and the sub-cursors for sorted duplicates, moving to a sibling page,
  to the next, previous, first and last item, positioning on a key, \<open>mdb_get\<close> and \<open>mdb_cursor_get\<close>. A NULL
  pointer for a key or a data item is None; the functions return the updated key and data next to the
  return code. A call for a sub-cursor is the same function on the index of the sub-cursor.
\<close>

datatype MDB_cursor_op = MDB_FIRST | MDB_FIRST_DUP | MDB_GET_BOTH | MDB_GET_BOTH_RANGE | MDB_GET_CURRENT
  | MDB_GET_MULTIPLE | MDB_LAST | MDB_LAST_DUP | MDB_NEXT | MDB_NEXT_DUP | MDB_NEXT_MULTIPLE | MDB_NEXT_NODUP
  | MDB_PREV | MDB_PREV_DUP | MDB_PREV_NODUP | MDB_SET | MDB_SET_KEY | MDB_SET_RANGE

type_synonym kv_result = "(int \<times> MDB_val option \<times> MDB_val option \<times> world) option"

definition MDB_GET_KEY :: "mem \<Rightarrow> addr \<Rightarrow> MDB_val option \<Rightarrow> MDB_val option" where
  "MDB_GET_KEY m node keyptr = (case keyptr of None \<Rightarrow> None | Some _ \<Rightarrow> Some (MDB_GET_KEY2 m node))"

definition leaf2_val :: "addr \<Rightarrow> nat \<Rightarrow> nat \<Rightarrow> MDB_val" where
  "leaf2_val mp i ks = \<lparr>mv_size = ks, mv_data = Mem (LEAF2KEY mp i ks)\<rparr>"

text \<open>The key of the item of a \<open>P_LEAF2\<close> page under the cursor; a NULL key faults.\<close>

definition put_leaf2_key :: "world \<Rightarrow> nat \<Rightarrow> MDB_val option \<Rightarrow> MDB_val option \<Rightarrow> kv_result" where
  "put_leaf2_key w mc key data =
     (case key of
        None \<Rightarrow> None
      | Some _ \<Rightarrow> Some (MDB_SUCCESS, Some (leaf2_val (cur_pg w mc) (cur_ki w mc) (unat (md_pad (get_db w mc)))), data, w))"

subsection \<open>Sub-cursors\<close>

definition init1_db :: "world \<Rightarrow> nat \<Rightarrow> addr \<Rightarrow> MDB_db" where
  "init1_db w mc fp =
     (let db = \<lparr>md_pad = 0, md_flags = 0, md_depth = 1, md_branch_pages = 0, md_leaf_pages = 1, md_overflow_pages = 0,
                md_entries = of_nat (NUMKEYS (w_mem w) fp), md_root = mp_pgno (w_mem w) fp\<rparr>
      in if md_flags (get_db w mc) AND MDB_DUPFIXED \<noteq> 0 then
           db\<lparr>md_pad := ucast (mp_pad (w_mem w) fp),
              md_flags := (if md_flags (get_db w mc) AND MDB_INTEGERDUP \<noteq> 0 then MDB_DUPFIXED OR MDB_INTEGERKEY else MDB_DUPFIXED)\<rparr>
         else db)"

definition is_cmp_int :: "cmp_func option \<Rightarrow> bool" where
  "is_cmp_int c = (case c of Some Cmp_int \<Rightarrow> True | _ \<Rightarrow> False)"

definition mdb_xcursor_init1 :: "world \<Rightarrow> nat \<Rightarrow> addr \<Rightarrow> world option" where
  "mdb_xcursor_init1 w mc node = do {
     mx \<leftarrow> mc_xcursor (cur w mc);
     let w = (if mn_flags (w_mem w) node AND F_SUBDATA \<noteq> 0 then
                upd_cur mx (\<lambda>x. x\<lparr>mx_db := read_db (w_mem w) (NODEDATA (w_mem w) node), mc_pg := (mc_pg x)(0 := 0),
                  mc_snum := 0, mc_top := 0, mc_flags := C_SUB\<rparr>) w
              else
                (let fp = NODEDATA (w_mem w) node in
                 upd_cur mx (\<lambda>x. x\<lparr>mx_db := init1_db w mc fp, mc_snum := 1, mc_top := 0,
                   mc_flags := C_INITIALIZED OR C_SUB, mc_pg := (mc_pg x)(0 := fp), mc_ki := (mc_ki x)(0 := 0)\<rparr>) w));
     Some (upd_cur mx (\<lambda>x. x\<lparr>mx_dbflag := DB_VALID OR DB_USRVALID OR DB_DIRTY,
       mx_dbx := (if is_cmp_int (md_cmp (mx_dbx x)) \<and> md_pad (mx_db x) = 8 then (mx_dbx x)\<lparr>md_cmp := Some Cmp_long\<rparr>
                  else mx_dbx x)\<rparr>) w)
   }"

definition mdb_xcursor_init2 :: "world \<Rightarrow> nat \<Rightarrow> nat \<Rightarrow> bool \<Rightarrow> world option" where
  "mdb_xcursor_init2 w mc src_mx new_dupdata = do {
     mx \<leftarrow> mc_xcursor (cur w mc);
     let s = cur w src_mx;
     if new_dupdata then
       Some (upd_cur mx (\<lambda>x. x\<lparr>mc_snum := 1, mc_top := 0, mc_flags := mc_flags x OR C_INITIALIZED,
         mc_ki := (mc_ki x)(0 := 0), mx_dbflag := DB_VALID OR DB_USRVALID OR DB_DIRTY,
         mx_dbx := (mx_dbx x)\<lparr>md_cmp := md_cmp (mx_dbx s)\<rparr>, mx_db := mx_db s, mc_pg := (mc_pg x)(0 := mc_pg s 0)\<rparr>) w)
     else if mc_flags (cur w mx) AND C_INITIALIZED = 0 then Some w
     else Some (upd_cur mx (\<lambda>x. x\<lparr>mx_db := mx_db s, mc_pg := (mc_pg x)(0 := mc_pg s 0)\<rparr>) w)
   }"

text \<open>\<open>mx_cursor.mc_flags &= ~(C_INITIALIZED|C_EOF)\<close>, guarded by \<open>mc_xcursor\<close>, as the readers do it.\<close>

definition reset_xcursor :: "nat \<Rightarrow> world \<Rightarrow> world" where
  "reset_xcursor mc w =
     (case mc_xcursor (cur w mc) of None \<Rightarrow> w | Some mx \<Rightarrow> cur_clear mx (C_INITIALIZED OR C_EOF) w)"

subsection \<open>Moving between pages\<close>

partial_function (option) mdb_cursor_sibling :: "world \<Rightarrow> nat \<Rightarrow> bool \<Rightarrow> (int \<times> world) option" where
  [code]: "mdb_cursor_sibling w mc move_right =
     (if mc_snum (cur w mc) < 2 then Some (MDB_NOTFOUND, w)
      else do {
        let w = mdb_cursor_pop mc w;
        (rc, w) \<leftarrow>
          (if (if move_right then cur_ki w mc + 1 \<ge> NUMKEYS (w_mem w) (cur_pg w mc) else cur_ki w mc = 0) then do {
             (rc, w) \<leftarrow> mdb_cursor_sibling w mc move_right;
             Some (rc, if rc \<noteq> MDB_SUCCESS then upd_cur mc (\<lambda>c. c\<lparr>mc_top := mc_top c + 1, mc_snum := mc_snum c + 1\<rparr>) w else w)
           } else Some (MDB_SUCCESS, set_ki mc (if move_right then cur_ki w mc + 1 else cur_ki w mc - 1) w));
        if rc \<noteq> MDB_SUCCESS then Some (rc, w)
        else if \<not> IS_BRANCH (w_mem w) (cur_pg w mc) then None
        else do {
          let indx = NODEPTR (w_mem w) (cur_pg w mc) (cur_ki w mc);
          (rc, mp, _, w) \<leftarrow> mdb_page_get w (mc_txn (cur w mc)) (NODEPGNO (w_mem w) indx);
          if rc \<noteq> 0 then Some (rc, cur_clear mc (C_INITIALIZED OR C_EOF) w)
          else do {
            let (_, w) = mdb_cursor_push w mc mp;
            Some (MDB_SUCCESS, if \<not> move_right then set_ki mc (NUMKEYS_pred (w_mem w) mp) w else w)
          }
        }
      })"

subsection \<open>First and last item\<close>

partial_function (option) mdb_cursor_first :: "world \<Rightarrow> nat \<Rightarrow> MDB_val option \<Rightarrow> MDB_val option \<Rightarrow> kv_result" where
  [code]: "mdb_cursor_first w mc key data = do {
     let w = reset_xcursor mc w;
     (rc, w) \<leftarrow> (if mc_flags (cur w mc) AND C_INITIALIZED = 0 \<or> mc_top (cur w mc) \<noteq> 0
                 then page_search_gen no_touch w mc None MDB_PS_FIRST else Some (MDB_SUCCESS, w));
     if rc \<noteq> MDB_SUCCESS then Some (rc, key, data, w)
     else if \<not> IS_LEAF (w_mem w) (cur_pg w mc) then None
     else do {
       let leaf = NODEPTR (w_mem w) (cur_pg w mc) 0;
       let w = set_ki mc 0 (cur_clear mc C_EOF (cur_or mc C_INITIALIZED w));
       if IS_LEAF2 (w_mem w) (cur_pg w mc) then put_leaf2_key w mc key data
       else do {
         (rc, data, w) \<leftarrow>
           (case data of
              None \<Rightarrow> Some (MDB_SUCCESS, data, w)
            | Some d \<Rightarrow>
                if F_ISSET (mn_flags (w_mem w) leaf) F_DUPDATA then do {
                  w \<leftarrow> mdb_xcursor_init1 w mc leaf;
                  mx \<leftarrow> mc_xcursor (cur w mc);
                  (rc, data, _, w) \<leftarrow> mdb_cursor_first w mx data None;
                  Some (rc, data, w)
                } else do {
                  (rc, d, w) \<leftarrow> mdb_node_read w (mc_txn (cur w mc)) leaf d;
                  Some (rc, Some d, w)
                });
         if rc \<noteq> 0 then Some (rc, key, data, w)
         else Some (MDB_SUCCESS, MDB_GET_KEY (w_mem w) leaf key, data, w)
       }
     }
   }"

partial_function (option) mdb_cursor_last :: "world \<Rightarrow> nat \<Rightarrow> MDB_val option \<Rightarrow> MDB_val option \<Rightarrow> kv_result" where
  [code]: "mdb_cursor_last w mc key data = do {
     let w = reset_xcursor mc w;
     (rc, w) \<leftarrow> (if mc_flags (cur w mc) AND C_EOF = 0 then do {
         (rc, w) \<leftarrow> (if mc_flags (cur w mc) AND C_INITIALIZED = 0 \<or> mc_top (cur w mc) \<noteq> 0
                     then page_search_gen no_touch w mc None MDB_PS_LAST else Some (MDB_SUCCESS, w));
         if rc = MDB_SUCCESS \<and> \<not> IS_LEAF (w_mem w) (cur_pg w mc) then None else Some (rc, w)
       } else Some (MDB_SUCCESS, w));
     if rc \<noteq> MDB_SUCCESS then Some (rc, key, data, w)
     else do {
       let w = cur_or mc (C_INITIALIZED OR C_EOF) (set_ki mc (NUMKEYS_pred (w_mem w) (cur_pg w mc)) w);
       let leaf = NODEPTR (w_mem w) (cur_pg w mc) (cur_ki w mc);
       if IS_LEAF2 (w_mem w) (cur_pg w mc) then put_leaf2_key w mc key data
       else do {
         (rc, data, w) \<leftarrow>
           (case data of
              None \<Rightarrow> Some (MDB_SUCCESS, data, w)
            | Some d \<Rightarrow>
                if F_ISSET (mn_flags (w_mem w) leaf) F_DUPDATA then do {
                  w \<leftarrow> mdb_xcursor_init1 w mc leaf;
                  mx \<leftarrow> mc_xcursor (cur w mc);
                  (rc, data, _, w) \<leftarrow> mdb_cursor_last w mx data None;
                  Some (rc, data, w)
                } else do {
                  (rc, d, w) \<leftarrow> mdb_node_read w (mc_txn (cur w mc)) leaf d;
                  Some (rc, Some d, w)
                });
         if rc \<noteq> 0 then Some (rc, key, data, w)
         else Some (MDB_SUCCESS, MDB_GET_KEY (w_mem w) leaf key, data, w)
       }
     }
   }"

subsection \<open>Next and previous item\<close>

text \<open>
  The end of \<open>mdb_cursor_next\<close> and \<open>mdb_cursor_prev\<close>, from the index of the new item on: \<open>xfirst\<close> is \<open>mdb_cursor_first\<close>
  or \<open>mdb_cursor_last\<close> for the sub-cursor.
\<close>

definition cursor_fetch ::
  "(world \<Rightarrow> nat \<Rightarrow> MDB_val option \<Rightarrow> MDB_val option \<Rightarrow> kv_result) \<Rightarrow> world \<Rightarrow> nat \<Rightarrow> MDB_val option \<Rightarrow> MDB_val option \<Rightarrow> kv_result" where
  "cursor_fetch xfirst w mc key data =
     (let mp = cur_pg w mc in
      if IS_LEAF2 (w_mem w) mp then put_leaf2_key w mc key data
      else if \<not> IS_LEAF (w_mem w) mp then None
      else do {
        let leaf = NODEPTR (w_mem w) mp (cur_ki w mc);
        let dup = F_ISSET (mn_flags (w_mem w) leaf) F_DUPDATA;
        w \<leftarrow> (if dup then mdb_xcursor_init1 w mc leaf else Some w);
        (rc, data, w) \<leftarrow>
          (case data of
             None \<Rightarrow> Some (MDB_SUCCESS, data, w)
           | Some d \<Rightarrow> do {
               (rc, d, w) \<leftarrow> mdb_node_read w (mc_txn (cur w mc)) leaf d;
               if rc \<noteq> MDB_SUCCESS then Some (rc, Some d, w)
               else if dup then do {
                 mx \<leftarrow> mc_xcursor (cur w mc);
                 (rc, data, _, w) \<leftarrow> xfirst w mx (Some d) None;
                 Some (rc, data, w)
               } else Some (MDB_SUCCESS, Some d, w)
             });
        if rc \<noteq> MDB_SUCCESS then Some (rc, key, data, w)
        else Some (MDB_SUCCESS, MDB_GET_KEY (w_mem w) leaf key, data, w)
      })"

text \<open>Moving the index of \<open>mdb_cursor_next\<close> and \<open>mdb_cursor_prev\<close> after the duplicates of the item are done.\<close>

definition next_index :: "world \<Rightarrow> nat \<Rightarrow> (int \<times> world) option" where
  "next_index w mc =
     (if mc_flags (cur w mc) AND C_DEL \<noteq> 0 then Some (MDB_SUCCESS, w)
      else if cur_ki w mc + 1 \<ge> NUMKEYS (w_mem w) (cur_pg w mc) then do {
        (rc, w) \<leftarrow> mdb_cursor_sibling w mc True;
        Some (rc, if rc \<noteq> MDB_SUCCESS then cur_or mc C_EOF w else w)
      } else Some (MDB_SUCCESS, set_ki mc (cur_ki w mc + 1) w))"

definition prev_index :: "world \<Rightarrow> nat \<Rightarrow> (int \<times> world) option" where
  "prev_index w mc =
     (if cur_ki w mc = 0 then do {
        (rc, w) \<leftarrow> mdb_cursor_sibling w mc False;
        Some (rc, if rc = MDB_SUCCESS then set_ki mc (NUMKEYS_pred (w_mem w) (cur_pg w mc)) w else w)
      } else Some (MDB_SUCCESS, set_ki mc (cur_ki w mc - 1) w))"

partial_function (option) mdb_cursor_next ::
  "world \<Rightarrow> nat \<Rightarrow> MDB_val option \<Rightarrow> MDB_val option \<Rightarrow> MDB_cursor_op \<Rightarrow> kv_result" where
  [code]: "mdb_cursor_next w mc key data op =
     (if mc_flags (cur w mc) AND C_EOF \<noteq> 0 then Some (MDB_NOTFOUND, key, data, w)
      else if mc_flags (cur w mc) AND C_INITIALIZED = 0 then None
      else do {
        let leaf = NODEPTR (w_mem w) (cur_pg w mc) (cur_ki w mc);
        (ret, rc, data, w) \<leftarrow>
          (if md_flags (get_db w mc) AND MDB_DUPSORT \<noteq> 0 then
             (if F_ISSET (mn_flags (w_mem w) leaf) F_DUPDATA then
                (if op = MDB_NEXT \<or> op = MDB_NEXT_DUP then do {
                   mx \<leftarrow> mc_xcursor (cur w mc);
                   (rc, data, _, w) \<leftarrow> mdb_cursor_next w mx data None MDB_NEXT;
                   Some (op \<noteq> MDB_NEXT \<or> rc \<noteq> MDB_NOTFOUND, rc, data, w)
                 } else Some (False, MDB_SUCCESS, data, w))
              else do {
                mx \<leftarrow> mc_xcursor (cur w mc);
                Some (op = MDB_NEXT_DUP, MDB_NOTFOUND, data, cur_clear mx (C_INITIALIZED OR C_EOF) w)
              })
           else Some (False, MDB_SUCCESS, data, w));
        if ret then Some (rc, if rc = MDB_SUCCESS then MDB_GET_KEY (w_mem w) leaf key else key, data, w)
        else do {
          (rc, w) \<leftarrow> next_index w mc;
          if rc \<noteq> MDB_SUCCESS then Some (rc, key, data, w)
          else cursor_fetch mdb_cursor_first w mc key data
        }
      })"

partial_function (option) mdb_cursor_prev ::
  "world \<Rightarrow> nat \<Rightarrow> MDB_val option \<Rightarrow> MDB_val option \<Rightarrow> MDB_cursor_op \<Rightarrow> kv_result" where
  [code]: "mdb_cursor_prev w mc key data op =
     (if mc_flags (cur w mc) AND C_INITIALIZED = 0 then None
      else do {
        let leaf = NODEPTR (w_mem w) (cur_pg w mc) (cur_ki w mc);
        (ret, rc, data, w) \<leftarrow>
          (if md_flags (get_db w mc) AND MDB_DUPSORT \<noteq> 0 then
             (if F_ISSET (mn_flags (w_mem w) leaf) F_DUPDATA then
                (if op = MDB_PREV \<or> op = MDB_PREV_DUP then do {
                   mx \<leftarrow> mc_xcursor (cur w mc);
                   (rc, data, _, w) \<leftarrow> mdb_cursor_prev w mx data None MDB_PREV;
                   Some (op \<noteq> MDB_PREV \<or> rc \<noteq> MDB_NOTFOUND, rc, data, if rc = MDB_SUCCESS then cur_clear mc C_EOF w else w)
                 } else Some (False, MDB_SUCCESS, data, w))
              else do {
                mx \<leftarrow> mc_xcursor (cur w mc);
                Some (op = MDB_PREV_DUP, MDB_NOTFOUND, data, cur_clear mx (C_INITIALIZED OR C_EOF) w)
              })
           else Some (False, MDB_SUCCESS, data, w));
        if ret then Some (rc, if rc = MDB_SUCCESS then MDB_GET_KEY (w_mem w) leaf key else key, data, w)
        else do {
          (rc, w) \<leftarrow> prev_index w mc;
          if rc \<noteq> MDB_SUCCESS then Some (rc, key, data, w)
          else cursor_fetch mdb_cursor_last (cur_clear mc C_EOF w) mc key data
        }
      })"

subsection \<open>Positioning on a key\<close>

text \<open>From the label \<open>set2\<close> to the label \<open>set1\<close>: search the page, and take the first item of the right sibling.
  The result is the return code or the node found.\<close>

definition cursor_set2 :: "world \<Rightarrow> nat \<Rightarrow> MDB_val \<Rightarrow> bool \<Rightarrow> ((int + addr) \<times> world) option" where
  "cursor_set2 w mc key exactp = do {
     (leaf, exact, w) \<leftarrow> mdb_node_search w mc key;
     if exactp \<and> \<not> exact then Some (Inl MDB_NOTFOUND, w)
     else (case leaf of
         Some leaf \<Rightarrow> Some (Inr leaf, w)
       | None \<Rightarrow> do {
           (rc, w) \<leftarrow> mdb_cursor_sibling w mc True;
           if rc \<noteq> MDB_SUCCESS then Some (Inl rc, cur_or mc C_EOF w)
           else if \<not> IS_LEAF (w_mem w) (cur_pg w mc) then None
           else Some (Inr (NODEPTR (w_mem w) (cur_pg w mc) 0), w)
         })
   }"

definition set_search :: "world \<Rightarrow> nat \<Rightarrow> MDB_val \<Rightarrow> bool \<Rightarrow> ((int + addr) \<times> world) option" where
  "set_search w mc key exactp = do {
     (rc, w) \<leftarrow> page_search_gen no_touch w mc (Some key) 0;
     if rc \<noteq> MDB_SUCCESS then Some (Inl rc, w)
     else if \<not> IS_LEAF (w_mem w) (cur_pg w mc) then None
     else cursor_set2 w mc key exactp
   }"

definition has_right_sibs :: "world \<Rightarrow> nat \<Rightarrow> bool" where
  "has_right_sibs w mc \<longleftrightarrow>
     list_ex (\<lambda>i. mc_ki (cur w mc) i < NUMKEYS_pred (w_mem w) (mc_pg (cur w mc) i)) [0..<mc_top (cur w mc)]"

text \<open>Comparing the key with the first, the last and the current item of the page the cursor is on.\<close>

definition cmp_item :: "world \<Rightarrow> nat \<Rightarrow> MDB_val \<Rightarrow> nat \<Rightarrow> int option" where
  "cmp_item w mc key i = do {
     cmp \<leftarrow> md_cmp (get_dbx w mc);
     call_cmp cmp (val_bytes (w_mem w) key) (node_key (w_mem w) (cur_pg w mc) (unat (md_pad (get_db w mc))) i)
   }"

definition cursor_set_find :: "world \<Rightarrow> nat \<Rightarrow> MDB_val \<Rightarrow> MDB_cursor_op \<Rightarrow> bool \<Rightarrow> ((int + addr) \<times> world) option" where
  "cursor_set_find w mc key op exactp =
     (if mc_flags (cur w mc) AND C_INITIALIZED \<noteq> 0 then do {
        let mp = cur_pg w mc;
        let nkeys = NUMKEYS (w_mem w) mp;
        if nkeys = 0 then Some (Inl MDB_NOTFOUND, set_ki mc 0 w)
        else do {
          rc \<leftarrow> cmp_item w mc key 0;
          if rc = 0 then Some (Inr (NODEPTR (w_mem w) mp 0), set_ki mc 0 w)
          else do {
            rc2 \<leftarrow> (if rc > 0 \<and> nkeys > 1 then cmp_item w mc key (nkeys - 1) else Some 1);
            if rc > 0 \<and> rc2 = 0 then Some (Inr (NODEPTR (w_mem w) mp (nkeys - 1)), set_ki mc (nkeys - 1) w)
            else if rc > 0 \<and> rc2 < 0 then do {
              rc3 \<leftarrow> (if cur_ki w mc < nkeys then cmp_item w mc key (cur_ki w mc) else Some 1);
              if rc3 = 0 then Some (Inr (NODEPTR (w_mem w) mp (cur_ki w mc)), w)
              else cursor_set2 w mc key exactp
            }
            else if rc > 0 \<and> \<not> has_right_sibs w mc then Some (Inl MDB_NOTFOUND, set_ki mc nkeys w)
            else if mc_top (cur w mc) = 0 then
              (let w = set_ki mc 0 w in
               if op = MDB_SET_RANGE \<and> \<not> exactp then Some (Inr (NODEPTR (w_mem w) mp 0), w)
               else Some (Inl MDB_NOTFOUND, w))
            else set_search w mc key exactp
          }
        }
      } else set_search (upd_cur mc (\<lambda>c. c\<lparr>mc_pg := (mc_pg c)(0 := 0)\<rparr>) w) mc key exactp)"

partial_function (option) mdb_cursor_set ::
  "world \<Rightarrow> nat \<Rightarrow> MDB_val option \<Rightarrow> MDB_val option \<Rightarrow> MDB_cursor_op \<Rightarrow> bool \<Rightarrow> kv_result" where
  [code]: "mdb_cursor_set w mc key data op exactp = do {
     k \<leftarrow> key;
     if mv_size k = 0 then Some (MDB_BAD_VALSIZE, key, data, w)
     else do {
       (r, w) \<leftarrow> cursor_set_find (reset_xcursor mc w) mc k op exactp;
       case r of
         Inl rc \<Rightarrow> Some (rc, key, data, w)
       | Inr leaf \<Rightarrow> do {
           let w = cur_clear mc C_EOF (cur_or mc C_INITIALIZED w);
           let mp = cur_pg w mc;
           if IS_LEAF2 (w_mem w) mp then
             (if op = MDB_SET_RANGE \<or> op = MDB_SET_KEY then put_leaf2_key w mc key data
              else Some (MDB_SUCCESS, key, data, w))
           else do {
             let dup = F_ISSET (mn_flags (w_mem w) leaf) F_DUPDATA;
             w \<leftarrow> (if dup then mdb_xcursor_init1 w mc leaf else Some w);
             (ret, rc, data, w) \<leftarrow>
               (case data of
                  None \<Rightarrow> Some (False, MDB_SUCCESS, data, w)
                | Some d \<Rightarrow>
                    if dup then do {
                      mx \<leftarrow> mc_xcursor (cur w mc);
                      if op = MDB_SET \<or> op = MDB_SET_KEY \<or> op = MDB_SET_RANGE then do {
                        (rc, data, _, w) \<leftarrow> mdb_cursor_first w mx data None;
                        Some (False, rc, data, w)
                      } else do {
                        (rc, data, _, w) \<leftarrow> mdb_cursor_set w mx data None MDB_SET_RANGE (op = MDB_GET_BOTH);
                        Some (rc \<noteq> MDB_SUCCESS, rc, data, w)
                      }
                    } else if op = MDB_GET_BOTH \<or> op = MDB_GET_BOTH_RANGE then do {
                      (rc, olddata, w) \<leftarrow> mdb_node_read w (mc_txn (cur w mc)) leaf \<lparr>mv_size = 0, mv_data = Mem 0\<rparr>;
                      if rc \<noteq> MDB_SUCCESS then Some (True, rc, data, w)
                      else do {
                        let dcmp = md_dcmp (get_dbx w mc);
                        dcmp \<leftarrow> (if is_cmp_int dcmp \<and> mv_size olddata = 8 then Some Cmp_long else dcmp);
                        rc \<leftarrow> call_cmp dcmp (val_bytes (w_mem w) d) (val_bytes (w_mem w) olddata);
                        if rc = 0 then Some (False, rc, data, w)
                        else if op = MDB_GET_BOTH \<or> rc > 0 then Some (True, MDB_NOTFOUND, data, w)
                        else Some (False, 0, Some olddata, w)
                      }
                    } else do {
                      (rc, d, w) \<leftarrow> mdb_node_read (reset_xcursor mc w) (mc_txn (cur w mc)) leaf d;
                      Some (rc \<noteq> MDB_SUCCESS, rc, Some d, w)
                    });
             if ret then Some (rc, key, data, w)
             else Some (rc, if op = MDB_SET_RANGE \<or> op = MDB_SET_KEY then MDB_GET_KEY (w_mem w) leaf key else key, data, w)
           }
         }
     }
   }"

definition mdb_get :: "world \<Rightarrow> nat \<Rightarrow> nat \<Rightarrow> MDB_val option \<Rightarrow> MDB_val option \<Rightarrow> kv_result" where
  "mdb_get w t dbi key data =
     (if key = None \<or> data = None \<or> \<not> TXN_DBI_EXIST w t dbi DB_USRVALID then Some (EINVAL, key, data, w)
      else if mt_flags (txn w t) AND MDB_TXN_BLOCKED \<noteq> 0 then Some (MDB_BAD_TXN, key, data, w)
      else do {
        let (mc, w) = new_cur w;
        let (mx, w) = new_cur w;
        w \<leftarrow> mdb_cursor_init mc t dbi (Some mx) w;
        mdb_cursor_set w mc key data MDB_SET True
      })"

subsection \<open>The cursor interface\<close>

text \<open>The label \<open>fetchm\<close>: all the items of the page of duplicates.\<close>

definition fetchm :: "world \<Rightarrow> nat \<Rightarrow> MDB_val option \<Rightarrow> kv_result" where
  "fetchm w mc key = do {
     mx \<leftarrow> mc_xcursor (cur w mc);
     let mp = cur_pg w mx;
     let data = \<lparr>mv_size = NUMKEYS (w_mem w) mp * unat (md_pad (get_db w mx)), mv_data = Mem (METADATA mp)\<rparr>;
     Some (MDB_SUCCESS, key, Some data, set_ki mx (NUMKEYS_pred (w_mem w) mp) w)
   }"

text \<open>The label \<open>mmove\<close>: the first or last duplicate.\<close>

definition mmove ::
  "(world \<Rightarrow> nat \<Rightarrow> MDB_val option \<Rightarrow> MDB_val option \<Rightarrow> kv_result) \<Rightarrow> world \<Rightarrow> nat \<Rightarrow> MDB_val option \<Rightarrow> MDB_val option \<Rightarrow> kv_result" where
  "mmove mfunc w mc key data =
     (case data of
        None \<Rightarrow> Some (EINVAL, key, data, w)
      | Some d \<Rightarrow>
          if mc_flags (cur w mc) AND C_INITIALIZED = 0 then Some (EINVAL, key, data, w)
          else (case mc_xcursor (cur w mc) of
              None \<Rightarrow> Some (MDB_INCOMPATIBLE, key, data, w)
            | Some mx \<Rightarrow>
                let leaf = NODEPTR (w_mem w) (cur_pg w mc) (cur_ki w mc) in
                if \<not> F_ISSET (mn_flags (w_mem w) leaf) F_DUPDATA then do {
                  (rc, d, w) \<leftarrow> mdb_node_read w (mc_txn (cur w mc)) leaf d;
                  Some (rc, MDB_GET_KEY (w_mem w) leaf key, Some d, w)
                }
                else if mc_flags (cur w mx) AND C_INITIALIZED = 0 then Some (EINVAL, key, data, w)
                else do {
                  (rc, data, _, w) \<leftarrow> mfunc w mx data None;
                  Some (rc, key, data, w)
                }))"

text \<open>The switch of \<open>mdb_cursor_get\<close> without \<open>MDB_GET_CURRENT\<close>.\<close>

definition cursor_get_op :: "world \<Rightarrow> nat \<Rightarrow> MDB_val option \<Rightarrow> MDB_val option \<Rightarrow> MDB_cursor_op \<Rightarrow> kv_result" where
  "cursor_get_op w mc key data op =
     (if op = MDB_GET_BOTH \<or> op = MDB_GET_BOTH_RANGE \<or> op = MDB_SET \<or> op = MDB_SET_KEY \<or> op = MDB_SET_RANGE then
        (if (op = MDB_GET_BOTH \<or> op = MDB_GET_BOTH_RANGE) \<and> data = None then Some (EINVAL, key, data, w)
         else if (op = MDB_GET_BOTH \<or> op = MDB_GET_BOTH_RANGE) \<and> mc_xcursor (cur w mc) = None then Some (MDB_INCOMPATIBLE, key, data, w)
         else if key = None then Some (EINVAL, key, data, w)
         else mdb_cursor_set w mc key data op (op \<noteq> MDB_SET_RANGE))
      else if op = MDB_GET_MULTIPLE then
        (if data = None \<or> mc_flags (cur w mc) AND C_INITIALIZED = 0 then Some (EINVAL, key, data, w)
         else if md_flags (get_db w mc) AND MDB_DUPFIXED = 0 then Some (MDB_INCOMPATIBLE, key, data, w)
         else do {
           mx \<leftarrow> mc_xcursor (cur w mc);
           if mc_flags (cur w mx) AND C_INITIALIZED = 0 \<or> mc_flags (cur w mx) AND C_EOF \<noteq> 0 then Some (MDB_SUCCESS, key, data, w)
           else fetchm w mc key
         })
      else if op = MDB_NEXT_MULTIPLE then
        (if data = None then Some (EINVAL, key, data, w)
         else if md_flags (get_db w mc) AND MDB_DUPFIXED = 0 then Some (MDB_INCOMPATIBLE, key, data, w)
         else do {
           (rc, key, data, w) \<leftarrow> (if mc_flags (cur w mc) AND C_INITIALIZED = 0 then mdb_cursor_first w mc key data
                                else mdb_cursor_next w mc key data MDB_NEXT_DUP);
           if rc \<noteq> MDB_SUCCESS then Some (rc, key, data, w)
           else do {
             mx \<leftarrow> mc_xcursor (cur w mc);
             if mc_flags (cur w mx) AND C_INITIALIZED \<noteq> 0 then fetchm w mc key
             else Some (MDB_NOTFOUND, key, data, w)
           }
         })
      else if op = MDB_NEXT \<or> op = MDB_NEXT_DUP \<or> op = MDB_NEXT_NODUP then
        (if mc_flags (cur w mc) AND C_INITIALIZED = 0 then mdb_cursor_first w mc key data
         else mdb_cursor_next w mc key data op)
      else if op = MDB_PREV \<or> op = MDB_PREV_DUP \<or> op = MDB_PREV_NODUP then
        (if mc_flags (cur w mc) AND C_INITIALIZED = 0 then do {
           (rc, key, data, w) \<leftarrow> mdb_cursor_last w mc key data;
           if rc \<noteq> 0 then Some (rc, key, data, w)
           else do {
             let w = cur_or mc C_INITIALIZED w;
             mdb_cursor_prev (set_ki mc (cur_ki w mc + 1) w) mc key data op
           }
         } else mdb_cursor_prev w mc key data op)
      else if op = MDB_FIRST then mdb_cursor_first w mc key data
      else if op = MDB_FIRST_DUP then mmove mdb_cursor_first w mc key data
      else if op = MDB_LAST then mdb_cursor_last w mc key data
      else if op = MDB_LAST_DUP then mmove mdb_cursor_last w mc key data
      else Some (EINVAL, key, data, w))"

definition clear_del :: "nat \<Rightarrow> world \<Rightarrow> world" where
  "clear_del mc w =
     (if mc_flags (cur w mc) AND C_DEL \<noteq> 0 then upd_cur mc (\<lambda>c. c\<lparr>mc_flags := mc_flags c XOR C_DEL\<rparr>) w else w)"

partial_function (option) mdb_cursor_get ::
  "world \<Rightarrow> nat option \<Rightarrow> MDB_val option \<Rightarrow> MDB_val option \<Rightarrow> MDB_cursor_op \<Rightarrow> kv_result" where
  [code]: "mdb_cursor_get w mcp key data op =
     (case mcp of
        None \<Rightarrow> Some (EINVAL, key, data, w)
      | Some mc \<Rightarrow>
          if mt_flags (txn w (mc_txn (cur w mc))) AND MDB_TXN_BLOCKED \<noteq> 0 then Some (MDB_BAD_TXN, key, data, w)
          else do {
            (rc, key, data, w) \<leftarrow>
              (if op = MDB_GET_CURRENT then
                 (if mc_flags (cur w mc) AND C_INITIALIZED = 0 then Some (EINVAL, key, data, w)
                  else
                    (let mp = cur_pg w mc; nkeys = NUMKEYS (w_mem w) mp in
                     if nkeys = 0 \<or> cur_ki w mc \<ge> nkeys then Some (MDB_NOTFOUND, key, data, set_ki mc nkeys w)
                     else if IS_LEAF2 (w_mem w) mp then put_leaf2_key w mc key data
                     else
                       (let leaf = NODEPTR (w_mem w) mp (cur_ki w mc); key = MDB_GET_KEY (w_mem w) leaf key in
                        case data of
                          None \<Rightarrow> Some (MDB_SUCCESS, key, data, w)
                        | Some d \<Rightarrow>
                            if F_ISSET (mn_flags (w_mem w) leaf) F_DUPDATA then do {
                              mx \<leftarrow> mc_xcursor (cur w mc);
                              (rc, data, _, w) \<leftarrow> mdb_cursor_get w (Some mx) data None MDB_GET_CURRENT;
                              Some (rc, key, data, w)
                            } else do {
                              (rc, d, w) \<leftarrow> mdb_node_read w (mc_txn (cur w mc)) leaf d;
                              Some (rc, key, Some d, w)
                            })))
               else cursor_get_op w mc key data op);
            Some (rc, key, data, clear_del mc w)
          })"

text \<open>
  \<open>mdb_cursor_open\<close>: \<open>malloc\<close> of the cursor (with the sub-cursor behind it for \<open>MDB_DUPSORT\<close>) is asked of the
  allocator; its sizes are those of \<open>MDB_cursor\<close> and \<open>MDB_xcursor\<close>.
\<close>

definition sizeof_cursor :: nat where
  "sizeof_cursor = 392"

definition sizeof_xcursor :: nat where
  "sizeof_xcursor = 496"

definition mdb_cursor_open :: "world \<Rightarrow> nat \<Rightarrow> nat \<Rightarrow> (int \<times> nat \<times> world) option" where
  "mdb_cursor_open w t dbi =
     (if \<not> TXN_DBI_EXIST w t dbi DB_VALID then Some (EINVAL, 0, w)
      else if mt_flags (txn w t) AND MDB_TXN_BLOCKED \<noteq> 0 then Some (MDB_BAD_TXN, 0, w)
      else if dbi = FREE_DBI \<and> \<not> F_ISSET (mt_flags (txn w t)) MDB_TXN_RDONLY then Some (EINVAL, 0, w)
      else if \<not> w_ok w (sizeof_cursor + (if md_flags (mt_dbs (txn w t) dbi) AND MDB_DUPSORT \<noteq> 0 then sizeof_xcursor else 0))
      then Some (ENOMEM, 0, w)
      else do {
        let (mc, w) = new_cur w;
        let (mx, w) = new_cur w;
        w \<leftarrow> mdb_cursor_init mc t dbi (Some mx) w;
        Some (MDB_SUCCESS, mc,
          case mt_cursors (txn w t) of
            None \<Rightarrow> w
          | Some cs \<Rightarrow> cur_or mc C_UNTRACK (upd_txn t (\<lambda>x. x\<lparr>mt_cursors := Some (cs(dbi := mc # cs dbi))\<rparr>) w))
      })"

definition mdb_cursor_renew :: "world \<Rightarrow> nat \<Rightarrow> nat option \<Rightarrow> (int \<times> world) option" where
  "mdb_cursor_renew w t mcp =
     (case mcp of
        None \<Rightarrow> Some (EINVAL, w)
      | Some mc \<Rightarrow>
          if \<not> TXN_DBI_EXIST w t (mc_dbi (cur w mc)) DB_VALID then Some (EINVAL, w)
          else if mc_flags (cur w mc) AND C_UNTRACK \<noteq> 0 \<or> mt_cursors (txn w t) \<noteq> None then Some (EINVAL, w)
          else if mt_flags (txn w t) AND MDB_TXN_BLOCKED \<noteq> 0 then Some (MDB_BAD_TXN, w)
          else do {
            w \<leftarrow> mdb_cursor_init mc t (mc_dbi (cur w mc)) (mc_xcursor (cur w mc)) w;
            Some (MDB_SUCCESS, w)
          })"

definition mdb_cursor_count :: "world \<Rightarrow> nat option \<Rightarrow> int \<times> u64 option" where
  "mdb_cursor_count w mcp =
     (case mcp of
        None \<Rightarrow> (EINVAL, None)
      | Some mc \<Rightarrow>
          (case mc_xcursor (cur w mc) of
             None \<Rightarrow> (MDB_INCOMPATIBLE, None)
           | Some mx \<Rightarrow>
               if mt_flags (txn w (mc_txn (cur w mc))) AND MDB_TXN_BLOCKED \<noteq> 0 then (MDB_BAD_TXN, None)
               else if mc_flags (cur w mc) AND C_INITIALIZED = 0 then (EINVAL, None)
               else if mc_snum (cur w mc) = 0 \<or> mc_flags (cur w mc) AND C_EOF \<noteq> 0 then (MDB_NOTFOUND, None)
               else if \<not> F_ISSET (mn_flags (w_mem w) (NODEPTR (w_mem w) (cur_pg w mc) (cur_ki w mc))) F_DUPDATA then (MDB_SUCCESS, Some 1)
               else if mc_flags (cur w mx) AND C_INITIALIZED = 0 then (EINVAL, None)
               else (MDB_SUCCESS, Some (md_entries (mx_db (cur w mx))))))"

definition mdb_cursor_close :: "nat option \<Rightarrow> world \<Rightarrow> world" where
  "mdb_cursor_close mcp w =
     (case mcp of
        None \<Rightarrow> w
      | Some mc \<Rightarrow>
          if mc_backup (cur w mc) \<noteq> None then w
          else if mc_flags (cur w mc) AND C_UNTRACK \<noteq> 0 then
            (case mt_cursors (txn w (mc_txn (cur w mc))) of
               None \<Rightarrow> w
             | Some cs \<Rightarrow> upd_txn (mc_txn (cur w mc))
                 (\<lambda>x. x\<lparr>mt_cursors := Some (cs(mc_dbi (cur w mc) := remove1 mc (cs (mc_dbi (cur w mc)))))\<rparr>) w)
          else w)"

definition mdb_cursor_txn :: "world \<Rightarrow> nat option \<Rightarrow> nat option" where
  "mdb_cursor_txn w mcp = map_option (\<lambda>mc. mc_txn (cur w mc)) mcp"

definition mdb_cursor_dbi :: "world \<Rightarrow> nat \<Rightarrow> nat" where
  "mdb_cursor_dbi w mc = mc_dbi (cur w mc)"

end
