(* ===== verification/Alloc.thy ===== *)
theory Alloc
  imports Cursor
begin

section \<open>Allocating, touching and flushing pages (mdb.c)\<close>

text \<open>
  Pages in memory and page numbers: the list of free page buffers, loose pages, the dirty list, taking
  page numbers from the free database or from the end of the file, copy on write, overflow pages,
  writing dirty pages and spilling them.
\<close>

subsection \<open>Page buffers\<close>

text \<open>\<open>malloc\<close> gives the next block of the heap or, if the allocator refuses the request, NULL.\<close>

definition heap_alloc :: "world \<Rightarrow> nat \<Rightarrow> addr \<times> world" where
  "heap_alloc w sz = (if w_ok w sz then (w_brk w, w\<lparr>w_brk := w_brk w + sz\<rparr>) else (0, w))"

definition mp_next :: "mem \<Rightarrow> addr \<Rightarrow> addr" where
  "mp_next m mp = unat (rd64 m mp)"

definition set_next :: "mem \<Rightarrow> addr \<Rightarrow> addr \<Rightarrow> mem" where
  "set_next m mp p = wr64 m mp (of_nat p)"

definition NEXT_LOOSE_PAGE :: "mem \<Rightarrow> addr \<Rightarrow> addr" where
  "NEXT_LOOSE_PAGE m mp = unat (rd64 m (mp + 48))"

definition set_next_loose :: "mem \<Rightarrow> addr \<Rightarrow> addr \<Rightarrow> mem" where
  "set_next_loose m mp p = wr64 m (mp + 48) (of_nat p)"

definition mdb_page_malloc :: "world \<Rightarrow> nat \<Rightarrow> nat \<Rightarrow> addr \<times> world" where
  "mdb_page_malloc w t num =
     (let env = w_env w; ret = me_dpages env in
      if num = 1 \<and> ret \<noteq> 0 then (ret, upd_env (\<lambda>e. e\<lparr>me_dpages := mp_next (w_mem w) ret\<rparr>) w)
      else
        (let sz = me_psize env * num;
             (psize, off) = (if num = 1 then (me_psize env - PAGEHDRSZ, PAGEHDRSZ) else (me_psize env, sz - me_psize env));
             (ret, w) = heap_alloc w sz
         in if ret = 0 then (0, txn_or t MDB_TXN_ERROR w)
            else if me_flags env AND MDB_NOMEMINIT = 0 then
              (ret, upd_mem (\<lambda>m. set_pad (mem_write m (ret + off) (replicate psize 0)) ret 0) w)
            else (ret, w)))"

definition mdb_page_free :: "addr \<Rightarrow> world \<Rightarrow> world" where
  "mdb_page_free mp w =
     upd_env (\<lambda>e. e\<lparr>me_dpages := mp\<rparr>) (upd_mem (\<lambda>m. set_next m mp (me_dpages (w_env w))) w)"

definition mdb_dpage_free :: "addr \<Rightarrow> world \<Rightarrow> world" where
  "mdb_dpage_free dp w =
     (if \<not> IS_OVERFLOW (w_mem w) dp \<or> mp_pages (w_mem w) dp = 1 then mdb_page_free dp w else w)"

fun dlist_free_loop :: "world \<Rightarrow> nat \<Rightarrow> nat \<Rightarrow> nat \<Rightarrow> world option" where
  "dlist_free_loop w t i 0 = Some w"
| "dlist_free_loop w t i (Suc k) = do {
     d \<leftarrow> aget (mt_dirty_list (txn w t)) i;
     dlist_free_loop (mdb_dpage_free (mptr d) w) t (i + 1) k
   }"

definition set_dirty :: "nat \<Rightarrow> MDB_ID2 list \<Rightarrow> world \<Rightarrow> world" where
  "set_dirty t dl w = upd_txn t (\<lambda>x. x\<lparr>mt_dirty_list := dl\<rparr>) w"

definition mdb_dlist_free :: "world \<Rightarrow> nat \<Rightarrow> world option" where
  "mdb_dlist_free w t = do {
     d0 \<leftarrow> aget (mt_dirty_list (txn w t)) 0;
     w \<leftarrow> dlist_free_loop w t 1 (unat (mid d0));
     dl \<leftarrow> aput (mt_dirty_list (txn w t)) 0 (d0\<lparr>mid := 0\<rparr>);
     Some (set_dirty t dl w)
   }"

subsection \<open>The free list of a transaction\<close>

definition set_free_pgs :: "nat \<Rightarrow> MDB_IDL \<Rightarrow> world \<Rightarrow> world" where
  "set_free_pgs t l w = upd_txn t (\<lambda>x. x\<lparr>mt_free_pgs := l\<rparr>) w"

definition free_pgs_append :: "world \<Rightarrow> nat \<Rightarrow> u64 \<Rightarrow> (int \<times> world) option" where
  "free_pgs_append w t pgno = do {
     (rc, l) \<leftarrow> mdb_midl_append (w_ok w) (w_gid w) (mt_free_pgs (txn w t)) pgno;
     Some (rc, set_free_pgs t l w)
   }"

definition free_pgs_append_range :: "world \<Rightarrow> nat \<Rightarrow> u64 \<Rightarrow> nat \<Rightarrow> (int \<times> world) option" where
  "free_pgs_append_range w t pgno n = do {
     (rc, l) \<leftarrow> mdb_midl_append_range (w_ok w) (w_gid w) (mt_free_pgs (txn w t)) pgno (of_nat n);
     Some (rc, set_free_pgs t l w)
   }"

definition mdb_page_loose :: "world \<Rightarrow> nat \<Rightarrow> addr \<Rightarrow> (int \<times> world) option" where
  "mdb_page_loose w mc mp = do {
     let t = mc_txn (cur w mc);
     let pgno = mp_pgno (w_mem w) mp;
     (bad, loose) \<leftarrow>
       (if mp_flags (w_mem w) mp AND P_DIRTY \<noteq> 0 \<and> mc_dbi (cur w mc) \<noteq> FREE_DBI then
          (if mt_parent (txn w t) \<noteq> None then do {
             r \<leftarrow> mid2l_find (mt_dirty_list (txn w t)) pgno;
             Some (case r of None \<Rightarrow> (False, False) | Some (x, p) \<Rightarrow> if mp \<noteq> p then (True, False) else (False, True))
           } else Some (False, True))
        else Some (False, False));
     if bad then Some (MDB_CORRUPTED, txn_or t MDB_TXN_ERROR (cur_clear mc (C_INITIALIZED OR C_EOF) w))
     else if loose then
       Some (MDB_SUCCESS,
         upd_mem (\<lambda>m. set_flags m mp (mp_flags m mp OR P_LOOSE))
          (upd_txn t (\<lambda>x. x\<lparr>mt_loose_pgs := mp, mt_loose_count := mt_loose_count x + 1\<rparr>)
            (upd_mem (\<lambda>m. set_next_loose m mp (mt_loose_pgs (txn w t))) w)))
     else free_pgs_append w t pgno
   }"

subsection \<open>The dirty list\<close>

definition mdb_page_dirty :: "world \<Rightarrow> nat \<Rightarrow> addr \<Rightarrow> world option" where
  "mdb_page_dirty w t mp = do {
     let ent = \<lparr>mid = mp_pgno (w_mem w) mp, mptr = mp\<rparr>;
     let dl = mt_dirty_list (txn w t);
     (rc, dl) \<leftarrow> (if mt_flags (txn w t) AND MDB_TXN_WRITEMAP \<noteq> 0 then mdb_mid2l_append dl ent else mdb_mid2l_insert dl ent);
     if rc \<noteq> 0 then None
     else Some (upd_txn t (\<lambda>x. x\<lparr>mt_dirty_list := dl, mt_dirty_room := mt_dirty_room x - 1\<rparr>) w)
   }"

subsection \<open>The oldest reader\<close>

text \<open>The readers \<open>r[i - 1]\<close>, ..., \<open>r[0]\<close>.\<close>

fun oldest_loop :: "MDB_reader list \<Rightarrow> nat \<Rightarrow> u64 \<Rightarrow> u64 option" where
  "oldest_loop r 0 oldest = Some oldest"
| "oldest_loop r (Suc i) oldest = do {
     x \<leftarrow> aget r i;
     oldest_loop r i (if mr_pid x \<noteq> 0 \<and> oldest > mr_txnid x then mr_txnid x else oldest)
   }"

definition mdb_find_oldest :: "world \<Rightarrow> nat \<Rightarrow> u64 option" where
  "mdb_find_oldest w t =
     (let oldest = mt_txnid (txn w t) - 1 in
      case me_txns (w_env w) of
        None \<Rightarrow> Some oldest
      | Some ti \<Rightarrow> oldest_loop (mti_readers ti) (mti_numreaders ti) oldest)"

subsection \<open>Allocating page numbers\<close>

text \<open>
  The search for \<open>num\<close> consecutive numbers in the descending list \<open>mop\<close>, from its tail: the loop
  \<open>do { pgno = mop[i]; if (mop[i-n2] == pgno+n2) goto search_done; } while (--i > n2);\<close>
\<close>

fun seek_run :: "MDB_ID list \<Rightarrow> nat \<Rightarrow> nat \<Rightarrow> nat option option" where
  "seek_run mop n2 0 = None"
| "seek_run mop n2 (Suc i) = do {
     pgno \<leftarrow> aget mop (Suc i);
     q \<leftarrow> aget mop (Suc i - n2);
     if q = pgno + of_nat n2 then Some (Some (Suc i))
     else if i > n2 then seek_run mop n2 i
     else Some None
   }"

text \<open>Moving the stragglers down: \<open>for (j = i-num; j < mop_len; ) mop[++j] = mop[++i];\<close>\<close>

function stragglers :: "MDB_ID list \<Rightarrow> nat \<Rightarrow> nat \<Rightarrow> nat \<Rightarrow> MDB_ID list option" where
  "stragglers mop j i mop_len =
     (if j < mop_len then do {
        v \<leftarrow> aget mop (i + 1);
        mop \<leftarrow> aput mop (j + 1) v;
        stragglers mop (j + 1) (i + 1) mop_len
      } else Some mop)"
  by pat_completeness auto
termination
  by (relation "measure (\<lambda>(mop, j, i, n). n - j)") auto

declare stragglers.simps [simp del]

text \<open>The record of the free database at \<open>a\<close>: an ID list in the map.\<close>

definition read_idl :: "mem \<Rightarrow> addr \<Rightarrow> MDB_ID list" where
  "read_idl m a = map (\<lambda>j. rd64 m (a + 8 * j)) [0..<unat (rd64 m a) + 1]"

record alloc_state =
  as_retry :: int
  as_last :: u64
  as_oldest :: u64
  as_found_old :: bool

datatype alloc_outcome = Found nat | New_pages | Failed int | Returned int

definition pghead_cells :: "world \<Rightarrow> MDB_ID list" where
  "pghead_cells w = (case me_pghead (w_env w) of None \<Rightarrow> [0] | Some l \<Rightarrow> cells l)"

text \<open>\<open>if (oldest <= last) { if (!found_old) ...; if (oldest <= last) break; }\<close>: the flag says to leave the loop.\<close>

definition too_recent :: "world \<Rightarrow> nat \<Rightarrow> alloc_state \<Rightarrow> (bool \<times> alloc_state \<times> world) option" where
  "too_recent w t s =
     (if as_oldest s \<le> as_last s then
        (if \<not> as_found_old s then do {
           oldest \<leftarrow> mdb_find_oldest w t;
           Some (oldest \<le> as_last s, s\<lparr>as_oldest := oldest, as_found_old := True\<rparr>, upd_env (\<lambda>e. e\<lparr>me_pgoldest := oldest\<rparr>) w)
         } else Some (True, s, w))
      else Some (False, s, w))"

text \<open>Merging a record of the free database into \<open>me_pghead\<close>; \<open>mop_len\<close> is \<open>mop[0]\<close> afterwards.\<close>

definition merge_record :: "world \<Rightarrow> u64 \<Rightarrow> MDB_ID list \<Rightarrow> (int \<times> world) option" where
  "merge_record w lst idl = do {
     n \<leftarrow> aget idl 0;
     (rc, w) \<leftarrow>
       (case me_pghead (w_env w) of
          None \<Rightarrow>
            (case mdb_midl_alloc (w_ok w) (w_gid w) (unat n mod 2 ^ 32) of
               None \<Rightarrow> Some (ENOMEM, w)
             | Some mop \<Rightarrow> Some (0, upd_env (\<lambda>e. e\<lparr>me_pghead := Some mop\<rparr>) w))
        | Some mop \<Rightarrow> do {
            (rc, mop) \<leftarrow> mdb_midl_need (w_ok w) (w_gid w) mop (ucast n);
            Some (rc, upd_env (\<lambda>e. e\<lparr>me_pghead := Some mop\<rparr>) w)
          });
     if rc \<noteq> 0 then Some (rc, w)
     else do {
       let w = upd_env (\<lambda>e. e\<lparr>me_pglast := lst\<rparr>) w;
       mop \<leftarrow> me_pghead (w_env w);
       ids \<leftarrow> mdb_midl_xmerge (cells mop) idl;
       Some (0, upd_env (\<lambda>e. e\<lparr>me_pghead := Some (mop\<lparr>cells := ids\<rparr>)\<rparr>) w)
     }
   }"

text \<open>One turn of the loop after the search of a run: fetch the next record of the free database.\<close>

definition fetch_record :: "world \<Rightarrow> nat \<Rightarrow> nat \<Rightarrow> MDB_cursor_op \<Rightarrow> alloc_state \<Rightarrow> (alloc_outcome option \<times> alloc_state \<times> world) option" where
  "fetch_record w t m2 op s = do {
     let s = s\<lparr>as_last := as_last s + 1\<rparr>;
     (stop, s, w) \<leftarrow> too_recent w t s;
     if stop then Some (Some New_pages, s, w)
     else do {
       (rc, key, _, w) \<leftarrow> mdb_cursor_get w (Some m2) (Some \<lparr>mv_size = 8, mv_data = Obj (to_le 8 (unat (as_last s)))\<rparr>) None op;
       if rc \<noteq> 0 then Some (Some (if rc = MDB_NOTFOUND then New_pages else Failed rc), s, w)
       else do {
         k \<leftarrow> key;
         a \<leftarrow> ptr_addr (mv_data k);
         let s = s\<lparr>as_last := rd64 (w_mem w) a\<rparr>;
         (stop, s, w) \<leftarrow> too_recent w t s;
         if stop then Some (Some New_pages, s, w)
         else do {
           let leaf = NODEPTR (w_mem w) (cur_pg w m2) (cur_ki w m2);
           (rc, data, w) \<leftarrow> mdb_node_read w t leaf \<lparr>mv_size = 0, mv_data = Mem 0\<rparr>;
           if rc \<noteq> MDB_SUCCESS then Some (Some (Returned rc), s, w)
           else do {
             a \<leftarrow> ptr_addr (mv_data data);
             (rc, w) \<leftarrow> merge_record w (as_last s) (read_idl (w_mem w) a);
             Some (if rc \<noteq> 0 then Some (Failed rc) else None, s, w)
           }
         }
       }
     }
   }"

partial_function (option) alloc_loop ::
  "world \<Rightarrow> nat \<Rightarrow> nat \<Rightarrow> nat \<Rightarrow> MDB_cursor_op \<Rightarrow> alloc_state \<Rightarrow> (alloc_outcome \<times> world) option" where
  [code]: "alloc_loop w t m2 n2 op s = do {
     let mop = pghead_cells w;
     len \<leftarrow> aget mop 0;
     run \<leftarrow> (if unat len > n2 then seek_run mop n2 (unat len) else Some None);
     case run of
       Some i \<Rightarrow> Some (Found i, w)
     | None \<Rightarrow> do {
         let s = (if unat len > n2 then s\<lparr>as_retry := as_retry s - 1\<rparr> else s);
         if as_retry s < 0 then Some (New_pages, w)
         else do {
           (op, s, w) \<leftarrow>
             (if op = MDB_FIRST then do {
                let s = s\<lparr>as_last := me_pglast (w_env w), as_oldest := me_pgoldest (w_env w)\<rparr>;
                w \<leftarrow> mdb_cursor_init m2 t FREE_DBI None w;
                Some (if as_last s \<noteq> 0 then MDB_SET_RANGE else op, s, w)
              } else Some (op, s, w));
           (r, s, w) \<leftarrow> fetch_record w t m2 op s;
           case r of
             Some out \<Rightarrow> Some (out, w)
           | None \<Rightarrow> alloc_loop w t m2 n2 MDB_NEXT s
         }
       }
   }"

text \<open>From the label \<open>search_done\<close> on; \<open>i\<close> is 0 for new pages.\<close>

definition alloc_done :: "world \<Rightarrow> nat \<Rightarrow> nat \<Rightarrow> nat \<Rightarrow> u64 \<Rightarrow> (int \<times> addr \<times> world) option" where
  "alloc_done w t num i pgno = do {
     let (np, w) = (if me_flags (w_env w) AND MDB_WRITEMAP \<noteq> 0 then (map_page w pgno, w) else mdb_page_malloc w t num);
     if me_flags (w_env w) AND MDB_WRITEMAP = 0 \<and> np = 0 then Some (ENOMEM, 0, txn_or t MDB_TXN_ERROR w)
     else do {
       w \<leftarrow> (if i \<noteq> 0 then do {
               mop \<leftarrow> me_pghead (w_env w);
               len \<leftarrow> aget (cells mop) 0;
               ids \<leftarrow> aput (cells mop) 0 (len - of_nat num);
               ids \<leftarrow> stragglers ids (i - num) i (unat len - num);
               Some (upd_env (\<lambda>e. e\<lparr>me_pghead := Some (mop\<lparr>cells := ids\<rparr>)\<rparr>) w)
             } else Some (upd_txn t (\<lambda>x. x\<lparr>mt_next_pgno := pgno + of_nat num\<rparr>) w));
       let w = upd_mem (\<lambda>m. set_pgno m np pgno) w;
       w \<leftarrow> mdb_page_dirty w t np;
       Some (MDB_SUCCESS, np, w)
     }
   }"

definition mdb_page_alloc :: "world \<Rightarrow> nat \<Rightarrow> nat \<Rightarrow> (int \<times> addr \<times> world) option" where
  "mdb_page_alloc w mc num =
     (let t = mc_txn (cur w mc); np = mt_loose_pgs (txn w t) in
      if num = 1 \<and> np \<noteq> 0 then
        Some (MDB_SUCCESS, np,
          upd_txn t (\<lambda>x. x\<lparr>mt_loose_pgs := NEXT_LOOSE_PAGE (w_mem w) np, mt_loose_count := mt_loose_count x - 1\<rparr>) w)
      else if mt_dirty_room (txn w t) = 0 then Some (MDB_TXN_FULL, 0, txn_or t MDB_TXN_ERROR w)
      else do {
        let (m2, w) = new_cur w;
        (out, w) \<leftarrow> alloc_loop w t m2 (num - 1) MDB_FIRST \<lparr>as_retry = int num * 60, as_last = 0, as_oldest = 0, as_found_old = False\<rparr>;
        case out of
          Found i \<Rightarrow> do {
            pgno \<leftarrow> aget (pghead_cells w) i;
            alloc_done w t num i pgno
          }
        | New_pages \<Rightarrow>
            (let pgno = mt_next_pgno (txn w t) in
             if pgno + of_nat num \<ge> me_maxpg (w_env w) then Some (MDB_MAP_FULL, 0, txn_or t MDB_TXN_ERROR w)
             else alloc_done w t num 0 pgno)
        | Failed rc \<Rightarrow> Some (rc, 0, txn_or t MDB_TXN_ERROR w)
        | Returned rc \<Rightarrow> Some (rc, 0, w)
      })"

definition mdb_page_new :: "world \<Rightarrow> nat \<Rightarrow> u16 \<Rightarrow> nat \<Rightarrow> (int \<times> addr \<times> world) option" where
  "mdb_page_new w mc flags num = do {
     (rc, np, w) \<leftarrow> mdb_page_alloc w mc num;
     if rc \<noteq> 0 then Some (rc, 0, w)
     else do {
       let w = upd_mem (\<lambda>m. set_upper (set_lower (set_flags m np (flags OR P_DIRTY)) np 16) np (of_nat (me_psize (w_env w)))) w;
       let w = (if IS_BRANCH (w_mem w) np then upd_db mc (\<lambda>d. d\<lparr>md_branch_pages := md_branch_pages d + 1\<rparr>) w
                else if IS_LEAF (w_mem w) np then upd_db mc (\<lambda>d. d\<lparr>md_leaf_pages := md_leaf_pages d + 1\<rparr>) w
                else if IS_OVERFLOW (w_mem w) np then
                  upd_mem (\<lambda>m. set_pages m np (of_nat num)) (upd_db mc (\<lambda>d. d\<lparr>md_overflow_pages := md_overflow_pages d + of_nat num\<rparr>) w)
                else w);
       Some (0, np, w)
     }
   }"

subsection \<open>Spilled pages\<close>

text \<open>The transaction of the chain that spilled the page, with the position in its list.\<close>

partial_function (option) find_spilled :: "world \<Rightarrow> nat \<Rightarrow> MDB_ID \<Rightarrow> (nat \<times> nat) option option" where
  [code]: "find_spilled w t pn = do {
     r \<leftarrow> (case mt_spill_pgs (txn w t) of None \<Rightarrow> Some None | Some sl \<Rightarrow> midl_find (cells sl) pn);
     case r of
       Some x \<Rightarrow> Some (Some (t, x))
     | None \<Rightarrow> (case mt_parent (txn w t) of None \<Rightarrow> Some None | Some t2 \<Rightarrow> find_spilled w t2 pn)
   }"

text \<open>A page that is no longer spilled: the last one is truncated, any other is marked by its low bit.\<close>

definition unspill_slot :: "world \<Rightarrow> nat \<Rightarrow> nat \<Rightarrow> world option" where
  "unspill_slot w t x = do {
     sl \<leftarrow> mt_spill_pgs (txn w t);
     n \<leftarrow> aget (cells sl) 0;
     ids \<leftarrow> (if x = unat n then aput (cells sl) 0 (n - 1)
             else do { v \<leftarrow> aget (cells sl) x; aput (cells sl) x (v OR 1) });
     Some (upd_txn t (\<lambda>y. y\<lparr>mt_spill_pgs := Some (sl\<lparr>cells := ids\<rparr>)\<rparr>) w)
   }"

text \<open>The result is the return code and the writable page, 0 if the page was not spilled.\<close>

definition mdb_page_unspill :: "world \<Rightarrow> nat \<Rightarrow> addr \<Rightarrow> (int \<times> addr \<times> world) option" where
  "mdb_page_unspill w t mp = do {
     r \<leftarrow> find_spilled w t (push_bit 1 (mp_pgno (w_mem w) mp));
     case r of
       None \<Rightarrow> Some (MDB_SUCCESS, 0, w)
     | Some (tx2, x) \<Rightarrow>
         (if mt_dirty_room (txn w t) = 0 then Some (MDB_TXN_FULL, 0, w)
          else do {
            let num = (if IS_OVERFLOW (w_mem w) mp then unat (mp_pages (w_mem w) mp) else 1);
            let (np, w) =
              (if me_flags (w_env w) AND MDB_WRITEMAP \<noteq> 0 then (mp, w)
               else (let (np, w) = mdb_page_malloc w t num in
                     (np, if np = 0 then w
                          else if num > 1 then upd_mem (\<lambda>m. memmove m np mp (num * me_psize (w_env w))) w
                          else upd_mem (\<lambda>m. mdb_page_copy m np mp (me_psize (w_env w))) w)));
            if np = 0 then Some (ENOMEM, 0, w)
            else do {
              w \<leftarrow> (if tx2 = t then unspill_slot w t x else Some w);
              w \<leftarrow> mdb_page_dirty w t np;
              Some (MDB_SUCCESS, np, upd_mem (\<lambda>m. set_flags m np (mp_flags m np OR P_DIRTY)) w)
            }
          })
   }"

subsection \<open>Copy on write\<close>

definition set_pg_at :: "nat \<Rightarrow> nat \<Rightarrow> addr \<Rightarrow> world \<Rightarrow> world" where
  "set_pg_at c i p w = upd_cur c (\<lambda>x. x\<lparr>mc_pg := (mc_pg x)(i := p)\<rparr>) w"

text \<open>Adjusting the cursors of the database of \<open>mc\<close> that point to \<open>mp\<close>.\<close>

fun touch_sub_cursors :: "world \<Rightarrow> nat \<Rightarrow> addr \<Rightarrow> addr \<Rightarrow> nat list \<Rightarrow> world option" where
  "touch_sub_cursors w mc mp np [] = Some w"
| "touch_sub_cursors w mc mp np (m2 # ms) = do {
     m3 \<leftarrow> mc_xcursor (cur w m2);
     let w = (if mc_snum (cur w m3) < mc_snum (cur w mc) then w
              else if mc_pg (cur w m3) (mc_top (cur w mc)) = mp then set_pg_at m3 (mc_top (cur w mc)) np w else w);
     touch_sub_cursors w mc mp np ms
   }"

text \<open>\<open>mx_cursor.mc_pg[0] = NODEDATA(leaf)\<close> for a cursor whose item is a sub-page.\<close>

definition fix_subpage :: "world \<Rightarrow> nat \<Rightarrow> addr \<Rightarrow> world option" where
  "fix_subpage w m2 leaf = do {
     mx \<leftarrow> mc_xcursor (cur w m2);
     if mc_flags (cur w mx) AND C_INITIALIZED \<noteq> 0 \<and>
        mn_flags (w_mem w) leaf AND (F_DUPDATA OR F_SUBDATA) = F_DUPDATA
     then Some (set_pg_at mx 0 (NODEDATA (w_mem w) leaf) w)
     else Some w
   }"

fun touch_cursors :: "world \<Rightarrow> nat \<Rightarrow> addr \<Rightarrow> addr \<Rightarrow> nat list \<Rightarrow> world option" where
  "touch_cursors w mc mp np [] = Some w"
| "touch_cursors w mc mp np (m2 # ms) = do {
     let top = mc_top (cur w mc);
     w \<leftarrow> (if mc_snum (cur w m2) < mc_snum (cur w mc) then Some w
           else if m2 = mc then Some w
           else if mc_pg (cur w m2) top = mp then
             (let w = set_pg_at m2 top np w in
              if md_flags (get_db w mc) AND MDB_DUPSORT \<noteq> 0 \<and> IS_LEAF (w_mem w) np
              then fix_subpage w m2 (NODEPTR (w_mem w) np (mc_ki (cur w m2) top))
              else Some w)
           else Some w);
     touch_cursors w mc mp np ms
   }"

definition touch_done :: "world \<Rightarrow> nat \<Rightarrow> addr \<Rightarrow> addr \<Rightarrow> (int \<times> world) option" where
  "touch_done w mc mp np = do {
     let w = set_pg mc np w;
     cs \<leftarrow> mt_cursors (txn w (mc_txn (cur w mc)));
     w \<leftarrow> (if mc_flags (cur w mc) AND C_SUB \<noteq> 0 then touch_sub_cursors w mc mp np (cs (mc_dbi (cur w mc)))
           else touch_cursors w mc mp np (cs (mc_dbi (cur w mc))));
     Some (0, w)
   }"

definition touch_copy :: "world \<Rightarrow> nat \<Rightarrow> addr \<Rightarrow> addr \<Rightarrow> u64 \<Rightarrow> (int \<times> world) option" where
  "touch_copy w mc mp np pgno =
     (let w = upd_mem (\<lambda>m. mdb_page_copy m np mp (me_psize (w_env w))) w;
          w = upd_mem (\<lambda>m. set_pgno m np pgno) w;
          w = upd_mem (\<lambda>m. set_flags m np (mp_flags m np OR P_DIRTY)) w
      in touch_done w mc mp np)"

text \<open>A clean page that was not spilled: a new page number, the old one is freed.\<close>

definition touch_clean :: "world \<Rightarrow> nat \<Rightarrow> addr \<Rightarrow> (int \<times> world) option" where
  "touch_clean w mc mp = do {
     let t = mc_txn (cur w mc);
     (rc, l) \<leftarrow> mdb_midl_need (w_ok w) (w_gid w) (mt_free_pgs (txn w t)) 1;
     let w = set_free_pgs t l w;
     if rc \<noteq> 0 then Some (rc, txn_or t MDB_TXN_ERROR w)
     else do {
       (rc, np, w) \<leftarrow> mdb_page_alloc w mc 1;
       if rc \<noteq> 0 then Some (rc, txn_or t MDB_TXN_ERROR w)
       else do {
         let pgno = mp_pgno (w_mem w) np;
         if mp_pgno (w_mem w) mp = pgno then None
         else do {
           let l = mt_free_pgs (txn w t);
           ids \<leftarrow> mdb_midl_xappend (cells l) (mp_pgno (w_mem w) mp);
           let w = set_free_pgs t (l\<lparr>cells := ids\<rparr>) w;
           let top = mc_top (cur w mc);
           let w = (if top \<noteq> 0 then
                      (let parent = mc_pg (cur w mc) (top - 1);
                           node = NODEPTR (w_mem w) parent (mc_ki (cur w mc) (top - 1))
                       in upd_mem (\<lambda>m. SETPGNO m node pgno) w)
                    else upd_db mc (\<lambda>d. d\<lparr>md_root := pgno\<rparr>) w);
           touch_copy w mc mp np pgno
         }
       }
     }
   }"

text \<open>A page dirtied by a parent of the transaction: copied under the same number.\<close>

definition touch_nested :: "world \<Rightarrow> nat \<Rightarrow> addr \<Rightarrow> (int \<times> world) option" where
  "touch_nested w mc mp = do {
     let t = mc_txn (cur w mc);
     let dl = mt_dirty_list (txn w t);
     let pgno = mp_pgno (w_mem w) mp;
     r \<leftarrow> mid2l_find dl pgno;
     case r of
       Some (x, p) \<Rightarrow>
         (if mp \<noteq> p then Some (MDB_CORRUPTED, txn_or t MDB_TXN_ERROR (cur_clear mc (C_INITIALIZED OR C_EOF) w))
          else Some (0, w))
     | None \<Rightarrow> do {
         d0 \<leftarrow> aget dl 0;
         if \<not> unat (mid d0) < MDB_IDL_UM_MAX then None
         else do {
           let (np, w) = mdb_page_malloc w t 1;
           if np = 0 then Some (ENOMEM, w)
           else do {
             (rc, dl) \<leftarrow> mdb_mid2l_insert dl \<lparr>mid = pgno, mptr = np\<rparr>;
             if rc \<noteq> 0 then None
             else touch_copy (set_dirty t dl w) mc mp np pgno
           }
         }
       }
   }"

definition mdb_page_touch :: "world \<Rightarrow> nat \<Rightarrow> (int \<times> world) option" where
  "mdb_page_touch w mc =
     (let mp = cur_pg w mc; t = mc_txn (cur w mc) in
      if \<not> F_ISSET (mp_flags (w_mem w) mp) P_DIRTY then do {
        (rc, np, w) \<leftarrow> (if mt_flags (txn w t) AND MDB_TXN_SPILLS \<noteq> 0 then mdb_page_unspill w t mp else Some (0, 0, w));
        if rc \<noteq> 0 then Some (rc, txn_or t MDB_TXN_ERROR w)
        else if np \<noteq> 0 then touch_done w mc mp np
        else touch_clean w mc mp
      }
      else if mt_parent (txn w t) \<noteq> None \<and> \<not> IS_SUBP (w_mem w) mp then touch_nested w mc mp
      else Some (0, w))"

definition mdb_page_search :: "world \<Rightarrow> nat \<Rightarrow> MDB_val option \<Rightarrow> u32 \<Rightarrow> (int \<times> world) option" where
  "mdb_page_search = page_search_gen mdb_page_touch"

definition mdb_page_search_root :: "world \<Rightarrow> nat \<Rightarrow> MDB_val option \<Rightarrow> u32 \<Rightarrow> (int \<times> world) option" where
  "mdb_page_search_root w mc key flags = page_search_root_gen mdb_page_touch w mc (cur_pg w mc) key flags"

subsection \<open>Freeing overflow pages\<close>

text \<open>
  Removing \<open>mp\<close> from the dirty list: the entries above it move down by one. None if it is not in the list
  (the assertion \<open>x > 1\<close>); \<open>x\<close> is the position of \<open>ix\<close>.
\<close>

fun dirty_remove :: "MDB_ID2 list \<Rightarrow> addr \<Rightarrow> nat \<Rightarrow> MDB_ID2 \<Rightarrow> MDB_ID2 list option" where
  "dirty_remove dl mp 0 ix = None"
| "dirty_remove dl mp (Suc x) ix =
     (if mptr ix = mp then Some dl
      else if Suc x > 1 then do {
        iy \<leftarrow> aget dl x;
        dl \<leftarrow> aput dl x ix;
        dirty_remove dl mp x iy
      } else None)"

text \<open>\<open>for (i = mop[0]; i && mop[i] < pg; i--) mop[j--] = mop[i];\<close>\<close>

fun open_gap :: "MDB_ID list \<Rightarrow> u64 \<Rightarrow> nat \<Rightarrow> nat \<Rightarrow> (MDB_ID list \<times> nat \<times> nat) option" where
  "open_gap mop pg j 0 = Some (mop, j, 0)"
| "open_gap mop pg j (Suc i) = do {
     v \<leftarrow> aget mop (Suc i);
     if v < pg then do {
       mop \<leftarrow> aput mop j v;
       open_gap mop pg (j - 1) i
     } else Some (mop, j, Suc i)
   }"

text \<open>\<open>while (j>i) mop[j--] = pg++;\<close>\<close>

fun fill_gap :: "MDB_ID list \<Rightarrow> u64 \<Rightarrow> nat \<Rightarrow> nat \<Rightarrow> MDB_ID list option" where
  "fill_gap mop pg i 0 = Some mop"
| "fill_gap mop pg i (Suc j) =
     (if Suc j > i then do {
        mop \<leftarrow> aput mop (Suc j) pg;
        fill_gap mop (pg + 1) i j
      } else Some mop)"

definition pghead_insert :: "MDB_ID list \<Rightarrow> u64 \<Rightarrow> nat \<Rightarrow> MDB_ID list option" where
  "pghead_insert mop pg ovpages = do {
     n \<leftarrow> aget mop 0;
     (mop, j, i) \<leftarrow> open_gap mop pg (unat n + ovpages) (unat n);
     mop \<leftarrow> fill_gap mop pg i j;
     aput mop 0 (n + of_nat ovpages)
   }"

definition ovpage_undirty :: "world \<Rightarrow> nat \<Rightarrow> addr \<Rightarrow> world option" where
  "ovpage_undirty w t mp = do {
     let dl = mt_dirty_list (txn w t);
     d0 \<leftarrow> aget dl 0;
     dl \<leftarrow> aput dl 0 (d0\<lparr>mid := mid d0 - 1\<rparr>);
     ix \<leftarrow> aget dl (unat (mid d0));
     dl \<leftarrow> dirty_remove dl mp (unat (mid d0)) ix;
     let w = upd_txn t (\<lambda>x. x\<lparr>mt_dirty_list := dl, mt_dirty_room := mt_dirty_room x + 1\<rparr>) w;
     Some (if me_flags (w_env w) AND MDB_WRITEMAP = 0 then mdb_dpage_free mp w else w)
   }"

definition mdb_ovpage_free :: "world \<Rightarrow> nat \<Rightarrow> addr \<Rightarrow> (int \<times> world) option" where
  "mdb_ovpage_free w mc mp = do {
     let t = mc_txn (cur w mc);
     let pg = mp_pgno (w_mem w) mp;
     let ovpages = unat (mp_pages (w_mem w) mp);
     let dirty = (mp_flags (w_mem w) mp AND P_DIRTY \<noteq> 0);
     let top = (mt_parent (txn w t) = None);
     slot \<leftarrow> (case (me_pghead (w_env w), mt_spill_pgs (txn w t)) of
         (Some _, Some sl) \<Rightarrow> if top \<and> \<not> dirty then midl_find (cells sl) (push_bit 1 pg) else Some None
       | _ \<Rightarrow> Some None);
     (rc, w) \<leftarrow>
       (case me_pghead (w_env w) of
          Some mop \<Rightarrow>
            if top \<and> (dirty \<or> slot \<noteq> None) then do {
              (rc, mop) \<leftarrow> mdb_midl_need (w_ok w) (w_gid w) mop (of_nat ovpages);
              let w = upd_env (\<lambda>e. e\<lparr>me_pghead := Some mop\<rparr>) w;
              if rc \<noteq> 0 then Some (rc, w)
              else do {
                w \<leftarrow> (case slot of Some x \<Rightarrow> unspill_slot w t x | None \<Rightarrow> ovpage_undirty w t mp);
                ids \<leftarrow> pghead_insert (cells mop) pg ovpages;
                Some (0, upd_env (\<lambda>e. e\<lparr>me_pghead := Some (mop\<lparr>cells := ids\<rparr>)\<rparr>) w)
              }
            } else free_pgs_append_range w t pg ovpages
        | None \<Rightarrow> free_pgs_append_range w t pg ovpages);
     if rc \<noteq> 0 then Some (rc, w)
     else Some (0, upd_db mc (\<lambda>d. d\<lparr>md_overflow_pages := md_overflow_pages d - of_nat ovpages\<rparr>) w)
   }"

subsection \<open>Writing dirty pages\<close>

text \<open>
  A write to the data file, which is what the map shows: the bytes that reach the file, and the error
  code or the number of bytes the system call returns, after any retry for EINTR.
\<close>

definition pwrite :: "world \<Rightarrow> nat \<Rightarrow> bytes \<Rightarrow> (int + nat) \<times> world" where
  "pwrite w pos bs =
     (let (n, err) = w_write w (w_nio w);
          w = upd_mem (\<lambda>m. mem_write m (me_map (w_env w) + pos) (take n bs)) (w\<lparr>w_nio := w_nio w + 1\<rparr>)
      in (if err \<noteq> 0 then Inl err else Inr (min n (length bs)), w))"

text \<open>\<open>pwritev\<close> of the buffers \<open>iov\<close>, with the return codes of \<open>mdb_page_flush\<close>.\<close>

definition file_write :: "world \<Rightarrow> nat \<Rightarrow> (addr \<times> nat) list \<Rightarrow> nat \<Rightarrow> int \<times> world" where
  "file_write w wpos iov wsize =
     (let (r, w) = pwrite w wpos (concat (map (\<lambda>(a, len). mem_read (w_mem w) a len) iov))
      in case r of Inl rc \<Rightarrow> (rc, w) | Inr n \<Rightarrow> (if n \<noteq> wsize then EIO else 0, w))"

abbreviation (input) MDB_COMMIT_PAGES :: nat where "MDB_COMMIT_PAGES \<equiv> 64"
abbreviation (input) MAX_WRITE :: nat where "MAX_WRITE \<equiv> 0x80000000"

definition upd_flags :: "(u16 \<Rightarrow> u16) \<Rightarrow> addr \<Rightarrow> world \<Rightarrow> world" where
  "upd_flags f dp w = upd_mem (\<lambda>m. set_flags m dp (f (mp_flags m dp))) w"

text \<open>With \<open>MDB_WRITEMAP\<close>: only the flags are cleared. The result has the count \<open>j\<close> of the pages kept.\<close>

fun flush_map_loop :: "world \<Rightarrow> nat \<Rightarrow> nat \<Rightarrow> nat \<Rightarrow> nat \<Rightarrow> (nat \<times> world) option" where
  "flush_map_loop w t i j 0 = Some (j, w)"
| "flush_map_loop w t i j (Suc k) = do {
     d \<leftarrow> aget (mt_dirty_list (txn w t)) (i + 1);
     let dp = mptr d;
     if mp_flags (w_mem w) dp AND (P_LOOSE OR P_KEEP) \<noteq> 0 then do {
       let w = upd_flags (\<lambda>f. f AND NOT P_KEEP) dp w;
       dl \<leftarrow> aput (mt_dirty_list (txn w t)) (j + 1) d;
       flush_map_loop (set_dirty t dl w) t (i + 1) (j + 1) k
     } else flush_map_loop (upd_flags (\<lambda>f. f AND NOT P_DIRTY) dp w) t (i + 1) j k
   }"

record flush_state =
  fs_pos :: nat
  fs_size :: nat
  fs_dp :: addr
  fs_wpos :: nat
  fs_wsize :: nat
  fs_next_pos :: nat
  fs_iov :: "(addr \<times> nat) list"

text \<open>
  The loop that writes runs of pages. \<open>flush_page\<close> is its first half for one page of the list; the flag says
  that the page is skipped.
\<close>

definition flush_page :: "world \<Rightarrow> nat \<Rightarrow> nat \<Rightarrow> flush_state \<Rightarrow> (bool \<times> flush_state \<times> world) option" where
  "flush_page w t i s = do {
     d \<leftarrow> aget (mt_dirty_list (txn w t)) i;
     let dp = mptr d;
     if mp_flags (w_mem w) dp AND (P_LOOSE OR P_KEEP) \<noteq> 0 then do {
       let w = upd_flags (\<lambda>f. f AND NOT P_KEEP) dp w;
       dl \<leftarrow> aput (mt_dirty_list (txn w t)) i (d\<lparr>mid := 0\<rparr>);
       Some (True, s\<lparr>fs_dp := dp\<rparr>, set_dirty t dl w)
     } else do {
       let w = upd_flags (\<lambda>f. f AND NOT P_DIRTY) dp w;
       let psize = me_psize (w_env w);
       let size = (if IS_OVERFLOW (w_mem w) dp then psize * unat (mp_pages (w_mem w) dp) else psize);
       Some (False, s\<lparr>fs_dp := dp, fs_pos := unat (mid d) * psize, fs_size := size\<rparr>, w)
     }
   }"

definition flush_pending :: "flush_state \<Rightarrow> bool" where
  "flush_pending s \<longleftrightarrow>
     fs_pos s \<noteq> fs_next_pos s \<or> length (fs_iov s) = MDB_COMMIT_PAGES \<or> fs_wsize s + fs_size s > MAX_WRITE"

definition flush_add :: "flush_state \<Rightarrow> flush_state" where
  "flush_add s = s\<lparr>fs_next_pos := fs_pos s + fs_size s, fs_iov := fs_iov s @ [(fs_dp s, fs_size s)],
                   fs_wsize := fs_wsize s + fs_size s\<rparr>"

partial_function (option) flush_loop :: "world \<Rightarrow> nat \<Rightarrow> nat \<Rightarrow> nat \<Rightarrow> flush_state \<Rightarrow> (int \<times> world) option" where
  [code]: "flush_loop w t i pagecount s = do {
     let i = i + 1;
     (skip, s, w) \<leftarrow> (if i \<le> pagecount then flush_page w t i s else Some (False, s, w));
     if skip then flush_loop w t i pagecount s
     else if flush_pending s then do {
            let (rc, w) = (if fs_iov s \<noteq> [] then file_write w (fs_wpos s) (fs_iov s) (fs_wsize s) else (0, w));
            if rc \<noteq> 0 then Some (rc, w)
            else if i > pagecount then Some (0, w)
            else flush_loop w t i pagecount (flush_add (s\<lparr>fs_iov := [], fs_wpos := fs_pos s, fs_wsize := 0\<rparr>))
          } else flush_loop w t i pagecount (flush_add s)
   }"

text \<open>After the writes: kept pages move to the front of the list, the others are released.\<close>

fun flush_free_loop :: "world \<Rightarrow> nat \<Rightarrow> nat \<Rightarrow> nat \<Rightarrow> nat \<Rightarrow> (nat \<times> world) option" where
  "flush_free_loop w t i j 0 = Some (j, w)"
| "flush_free_loop w t i j (Suc k) = do {
     d \<leftarrow> aget (mt_dirty_list (txn w t)) (i + 1);
     if mid d = 0 then do {
       dl \<leftarrow> aput (mt_dirty_list (txn w t)) (j + 1) (d\<lparr>mid := mp_pgno (w_mem w) (mptr d)\<rparr>);
       flush_free_loop (set_dirty t dl w) t (i + 1) (j + 1) k
     } else flush_free_loop (mdb_dpage_free (mptr d) w) t (i + 1) j k
   }"

definition mdb_page_flush :: "world \<Rightarrow> nat \<Rightarrow> nat \<Rightarrow> (int \<times> world) option" where
  "mdb_page_flush w t keep = do {
     d0 \<leftarrow> aget (mt_dirty_list (txn w t)) 0;
     let pagecount = unat (mid d0);
     (rc, j, w) \<leftarrow>
       (if me_flags (w_env w) AND MDB_WRITEMAP \<noteq> 0 then do {
          (j, w) \<leftarrow> flush_map_loop w t keep keep (pagecount - keep);
          Some (0, j, w)
        } else do {
          (rc, w) \<leftarrow> flush_loop w t keep pagecount
             \<lparr>fs_pos = 0, fs_size = 0, fs_dp = 0, fs_wpos = 0, fs_wsize = 0, fs_next_pos = 1, fs_iov = []\<rparr>;
          if rc \<noteq> 0 then Some (rc, 0, w)
          else do {
            (j, w) \<leftarrow> flush_free_loop w t keep keep (pagecount - keep);
            Some (0, j, w)
          }
        });
     if rc \<noteq> 0 then Some (rc, w)
     else do {
       let i = max keep pagecount;
       d0 \<leftarrow> aget (mt_dirty_list (txn w t)) 0;
       dl \<leftarrow> aput (mt_dirty_list (txn w t)) 0 (d0\<lparr>mid := of_nat j\<rparr>);
       Some (MDB_SUCCESS, upd_txn t (\<lambda>x. x\<lparr>mt_dirty_room := mt_dirty_room x + (i - j), mt_dirty_list := dl\<rparr>) w)
     }
   }"

subsection \<open>Spilling dirty pages\<close>

abbreviation (input) keep_mask :: u16 where "keep_mask \<equiv> P_SUBP OR P_DIRTY OR P_LOOSE OR P_KEEP"

definition toggle_keep :: "u16 \<Rightarrow> addr \<Rightarrow> world \<Rightarrow> world" where
  "toggle_keep pflags mp w =
     (if mp_flags (w_mem w) mp AND keep_mask = pflags then upd_flags (\<lambda>f. f XOR P_KEEP) mp w else w)"

text \<open>The pages of a cursor and then, if it is at a sub-database, those of its sub-cursor.\<close>

partial_function (option) xkeep_cursor :: "world \<Rightarrow> nat \<Rightarrow> u16 \<Rightarrow> world option" where
  [code]: "xkeep_cursor w m3 pflags = do {
     let n = mc_snum (cur w m3);
     let w = fold (\<lambda>j. toggle_keep pflags (mc_pg (cur w m3) j)) [0..<n] w;
     case mc_xcursor (cur w m3) of
       None \<Rightarrow> Some w
     | Some mx \<Rightarrow>
         (if mc_flags (cur w mx) AND C_INITIALIZED = 0 \<or> n = 0 then Some w
          else
            (let mp = mc_pg (cur w m3) (n - 1) in
             if mp_flags (w_mem w) mp AND P_LEAF = 0 then Some w
             else if mn_flags (w_mem w) (NODEPTR (w_mem w) mp (mc_ki (cur w m3) (n - 1))) AND F_SUBDATA = 0 then Some w
             else xkeep_cursor w mx pflags))
   }"

fun xkeep_cursors :: "world \<Rightarrow> u16 \<Rightarrow> nat list \<Rightarrow> world option" where
  "xkeep_cursors w pflags [] = Some w"
| "xkeep_cursors w pflags (mc # ms) = do {
     w \<leftarrow> (if mc_flags (cur w mc) AND C_INITIALIZED = 0 then Some w else xkeep_cursor w mc pflags);
     xkeep_cursors w pflags ms
   }"

text \<open>\<open>mc\<close> and the cursors behind it in the list of its database.\<close>

definition cursor_chain :: "world \<Rightarrow> nat \<Rightarrow> nat list" where
  "cursor_chain w mc =
     (case mt_cursors (txn w (mc_txn (cur w mc))) of
        None \<Rightarrow> [mc]
      | Some cs \<Rightarrow> mc # tl (dropWhile (\<lambda>c. c \<noteq> mc) (cs (mc_dbi (cur w mc)))))"

fun xkeep_roots :: "world \<Rightarrow> nat \<Rightarrow> u16 \<Rightarrow> nat \<Rightarrow> nat \<Rightarrow> (int \<times> world) option" where
  "xkeep_roots w t pflags i 0 = Some (MDB_SUCCESS, w)"
| "xkeep_roots w t pflags i (Suc k) =
     (if mt_dbflags (txn w t) i AND DB_DIRTY = 0 \<or> md_root (mt_dbs (txn w t) i) = P_INVALID then xkeep_roots w t pflags (i + 1) k
      else do {
        (rc, dp, level, w) \<leftarrow> mdb_page_get w t (md_root (mt_dbs (txn w t) i));
        if rc \<noteq> MDB_SUCCESS then Some (rc, w)
        else xkeep_roots (if level \<le> 1 then toggle_keep pflags dp w else w) t pflags (i + 1) k
      })"

definition mdb_pages_xkeep :: "world \<Rightarrow> nat \<Rightarrow> u16 \<Rightarrow> bool \<Rightarrow> (int \<times> world) option" where
  "mdb_pages_xkeep w mc pflags all = do {
     let t = mc_txn (cur w mc);
     cs \<leftarrow> mt_cursors (txn w t);
     let n = mt_numdbs (txn w t);
     let start = (if mc_flags (cur w mc) AND C_UNTRACK \<noteq> 0 then [] else cursor_chain w mc);
     w \<leftarrow> xkeep_cursors w pflags (start @ concat (map cs (rev [0..<n])));
     if all then xkeep_roots w t pflags 0 n else Some (MDB_SUCCESS, w)
   }"

text \<open>\<open>for (i=1; i<=num; i++) if (!(sl[i] & 1)) sl[++j] = sl[i];\<close>\<close>

fun purge_slots :: "MDB_ID list \<Rightarrow> nat \<Rightarrow> nat \<Rightarrow> nat \<Rightarrow> (nat \<times> MDB_ID list) option" where
  "purge_slots sl i j 0 = Some (j, sl)"
| "purge_slots sl i j (Suc k) = do {
     v \<leftarrow> aget sl i;
     if v AND 1 = 0 then do {
       sl \<leftarrow> aput sl (j + 1) v;
       purge_slots sl (i + 1) (j + 1) k
     } else purge_slots sl (i + 1) j k
   }"

text \<open>The choice of the pages to spill, from the tail; the results are the return code and the index reached.\<close>

fun spill_loop :: "world \<Rightarrow> nat \<Rightarrow> nat \<Rightarrow> nat \<Rightarrow> (int \<times> nat \<times> world) option" where
  "spill_loop w t 0 need = Some (0, 0, w)"
| "spill_loop w t (Suc i) need =
     (if need = 0 then Some (0, Suc i, w)
      else do {
        d \<leftarrow> aget (mt_dirty_list (txn w t)) (Suc i);
        let pn = push_bit 1 (mid d);
        let dp = mptr d;
        if mp_flags (w_mem w) dp AND (P_LOOSE OR P_KEEP) \<noteq> 0 then spill_loop w t i need
        else do {
          r \<leftarrow> (case mt_parent (txn w t) of None \<Rightarrow> Some None | Some t2 \<Rightarrow> find_spilled w t2 pn);
          if r \<noteq> None then spill_loop (upd_flags (\<lambda>f. f OR P_KEEP) dp w) t i need
          else do {
            sl \<leftarrow> mt_spill_pgs (txn w t);
            (rc, sl) \<leftarrow> mdb_midl_append (w_ok w) (w_gid w) sl pn;
            let w = upd_txn t (\<lambda>x. x\<lparr>mt_spill_pgs := Some sl\<rparr>) w;
            if rc \<noteq> 0 then Some (rc, Suc i, w) else spill_loop w t i (need - 1)
          }
        }
      })"

definition spill_pages :: "world \<Rightarrow> nat \<Rightarrow> nat \<Rightarrow> (int \<times> world) option" where
  "spill_pages w m0 need = do {
     let t = mc_txn (cur w m0);
     (rc, w) \<leftarrow> mdb_pages_xkeep w m0 P_DIRTY True;
     if rc \<noteq> MDB_SUCCESS then Some (rc, w)
     else do {
       let need = max need (MDB_IDL_UM_MAX div 8);
       d0 \<leftarrow> aget (mt_dirty_list (txn w t)) 0;
       (rc, i, w) \<leftarrow> spill_loop w t (unat (mid d0)) need;
       if rc \<noteq> 0 then Some (rc, w)
       else do {
         sl \<leftarrow> mt_spill_pgs (txn w t);
         ids \<leftarrow> mdb_midl_sort (cells sl);
         let w = upd_txn t (\<lambda>x. x\<lparr>mt_spill_pgs := Some (sl\<lparr>cells := ids\<rparr>)\<rparr>) w;
         (rc, w) \<leftarrow> mdb_page_flush w t i;
         if rc \<noteq> MDB_SUCCESS then Some (rc, w)
         else mdb_pages_xkeep w m0 (P_DIRTY OR P_KEEP) (i \<noteq> 0)
       }
     }
   }"

text \<open>Preparing the spill list: a new one, or the old one without its deleted slots.\<close>

definition spill_list :: "world \<Rightarrow> nat \<Rightarrow> (int \<times> world) option" where
  "spill_list w t =
     (case mt_spill_pgs (txn w t) of
        None \<Rightarrow>
          (case mdb_midl_alloc (w_ok w) (w_gid w) MDB_IDL_UM_MAX of
             None \<Rightarrow> Some (ENOMEM, w)
           | Some sl \<Rightarrow> Some (0, upd_txn t (\<lambda>x. x\<lparr>mt_spill_pgs := Some sl\<rparr>) w))
      | Some sl \<Rightarrow> do {
          n \<leftarrow> aget (cells sl) 0;
          (j, ids) \<leftarrow> purge_slots (cells sl) 1 0 (unat n);
          ids \<leftarrow> aput ids 0 (of_nat j);
          Some (0, upd_txn t (\<lambda>x. x\<lparr>mt_spill_pgs := Some (sl\<lparr>cells := ids\<rparr>)\<rparr>) w)
        })"

definition spill_estimate :: "world \<Rightarrow> nat \<Rightarrow> (MDB_val \<times> MDB_val) option \<Rightarrow> nat" where
  "spill_estimate w m0 kd =
     (let psize = me_psize (w_env w);
          i = unat (md_depth (get_db w m0));
          i = (if mc_dbi (cur w m0) \<ge> CORE_DBS then i + unat (md_depth (mt_dbs (txn w (mc_txn (cur w m0))) MAIN_DBI)) else i);
          i = (case kd of None \<Rightarrow> i | Some (key, data) \<Rightarrow> i + (LEAFSIZE key data + psize) div psize)
      in i + i)"

definition mdb_page_spill :: "world \<Rightarrow> nat \<Rightarrow> (MDB_val \<times> MDB_val) option \<Rightarrow> (int \<times> world) option" where
  "mdb_page_spill w m0 kd =
     (let t = mc_txn (cur w m0); need = spill_estimate w m0 kd in
      if mc_flags (cur w m0) AND C_SUB \<noteq> 0 then Some (MDB_SUCCESS, w)
      else if mt_dirty_room (txn w t) > need then Some (MDB_SUCCESS, w)
      else do {
        (rc, w) \<leftarrow> spill_list w t;
        if rc \<noteq> 0 then Some (rc, w)
        else do {
          (rc, w) \<leftarrow> spill_pages w m0 need;
          Some (rc, txn_or t (if rc \<noteq> 0 then MDB_TXN_ERROR else MDB_TXN_SPILLS) w)
        }
      })"

end
