(* ===== verification/Meta.thy ===== *)
theory Meta
  imports Alloc
begin

section \<open>Meta pages (mdb.c)\<close>

text \<open>
  The two meta pages of the data file: their layout, reading them before the file is mapped, creating
  them, choosing the newer one and writing the one of a committing transaction.
\<close>

subsection \<open>Layout\<close>

text \<open>
  The code has no encoder: it writes and reads the memory of a structure \<open>MDB_meta\<close>. \<open>meta_head\<close>, \<open>meta_tail\<close> and \<open>meta_bytes\<close>
  are that memory, the fields in the order of the declaration, little endian and without padding, and \<open>read_meta\<close> is
  the structure seen at an address.
\<close>

abbreviation (input) sizeof_meta :: nat where "sizeof_meta \<equiv> 136"

definition read_meta :: "mem \<Rightarrow> addr \<Rightarrow> MDB_meta" where
  "read_meta m a = \<lparr>mm_magic = rd32 m a, mm_version = rd32 m (a + 4), mm_address = rd64 m (a + 8),
     mm_mapsize = rd64 m (a + 16), mm_free = read_db m (a + 24), mm_main = read_db m (a + 72),
     mm_last_pg = rd64 m (a + 120), mm_txnid = rd64 m (a + 128)\<rparr>"

definition meta_head :: "MDB_meta \<Rightarrow> bytes" where
  "meta_head meta = to_le 4 (unat (mm_magic meta)) @ to_le 4 (unat (mm_version meta)) @ to_le 8 (unat (mm_address meta))"

text \<open>The part of the structure from \<open>mm_mapsize\<close> on, which a commit writes.\<close>

definition meta_tail :: "MDB_meta \<Rightarrow> bytes" where
  "meta_tail meta = to_le 8 (unat (mm_mapsize meta)) @ db_bytes (mm_free meta) @ db_bytes (mm_main meta) @
     to_le 8 (unat (mm_last_pg meta)) @ to_le 8 (unat (mm_txnid meta))"

definition meta_bytes :: "MDB_meta \<Rightarrow> bytes" where
  "meta_bytes meta = meta_head meta @ meta_tail meta"

definition me_metas :: "world \<Rightarrow> nat \<Rightarrow> addr" where
  "me_metas w i = METADATA (me_map (w_env w) + i * me_psize (w_env w))"

definition get_meta :: "world \<Rightarrow> nat \<Rightarrow> MDB_meta" where
  "get_meta w i = read_meta (w_mem w) (me_metas w i)"

definition mdb_env_pick_meta :: "world \<Rightarrow> nat" where
  "mdb_env_pick_meta w = (if mm_txnid (get_meta w 0) < mm_txnid (get_meta w 1) then 1 else 0)"

subsection \<open>Reading the header\<close>

text \<open>
  \<open>pread\<close> is the outcome of reading \<open>Size\<close> bytes at an offset: an error code or the bytes read. The page
  size \<open>mm_psize\<close> is \<open>md_pad\<close> of the free database.
\<close>

abbreviation (input) header_size :: nat where "header_size \<equiv> PAGEHDRSZ + sizeof_meta"

fun read_header_loop :: "(nat \<Rightarrow> int + bytes) \<Rightarrow> nat \<Rightarrow> nat \<Rightarrow> MDB_meta \<Rightarrow> int \<times> MDB_meta" where
  "read_header_loop pread 0 off meta = (0, meta)"
| "read_header_loop pread (Suc k) off meta =
     (case pread off of
        Inl rc \<Rightarrow> (rc, meta)
      | Inr bs \<Rightarrow>
          if length bs \<noteq> header_size then (if bs = [] \<and> off = 0 then ENOENT else MDB_INVALID, meta)
          else
            (let p = mem_write (\<lambda>_. 0) 0 bs; m = read_meta p (METADATA 0) in
             if \<not> F_ISSET (mp_flags p 0) P_META then (MDB_INVALID, meta)
             else if mm_magic m \<noteq> MDB_MAGIC then (MDB_INVALID, meta)
             else if mm_version m \<noteq> MDB_DATA_VERSION then (MDB_VERSION_MISMATCH, meta)
             else
               (let meta = (if off = 0 \<or> mm_txnid m > mm_txnid meta then m else meta)
                in read_header_loop pread k (off + unat (md_pad (mm_free meta))) meta)))"

definition mdb_env_read_header :: "(nat \<Rightarrow> int + bytes) \<Rightarrow> MDB_meta \<Rightarrow> int \<times> MDB_meta" where
  "mdb_env_read_header pread meta = read_header_loop pread NUM_METAS 0 meta"

subsection \<open>A new file\<close>

definition zero_db :: MDB_db where
  "zero_db = \<lparr>md_pad = 0, md_flags = 0, md_depth = 0, md_branch_pages = 0, md_leaf_pages = 0, md_overflow_pages = 0,
     md_entries = 0, md_root = 0\<rparr>"

definition zero_meta :: MDB_meta where
  "zero_meta = \<lparr>mm_magic = 0, mm_version = 0, mm_address = 0, mm_mapsize = 0, mm_free = zero_db, mm_main = zero_db,
     mm_last_pg = 0, mm_txnid = 0\<rparr>"

definition mdb_env_init_meta0 :: "world \<Rightarrow> MDB_meta \<Rightarrow> MDB_meta" where
  "mdb_env_init_meta0 w meta =
     meta\<lparr>mm_magic := MDB_MAGIC, mm_version := MDB_DATA_VERSION, mm_mapsize := of_nat (me_mapsize (w_env w)),
       mm_last_pg := of_nat (NUM_METAS - 1),
       mm_free := (mm_free meta)\<lparr>md_pad := of_nat (me_psize (w_env w)),
         md_flags := ucast (me_flags (w_env w) AND 0xffff) OR MDB_INTEGERKEY, md_root := P_INVALID\<rparr>,
       mm_main := (mm_main meta)\<lparr>md_root := P_INVALID\<rparr>\<rparr>"

definition meta_page :: "nat \<Rightarrow> u64 \<Rightarrow> MDB_meta \<Rightarrow> bytes" where
  "meta_page psize pgno meta =
     (let bs = to_le 8 (unat pgno) @ to_le 2 0 @ to_le 2 (unat (P_META :: u16)) @ to_le 4 0 @ meta_bytes meta
      in bs @ replicate (psize - length bs) 0)"

definition mdb_env_init_meta :: "world \<Rightarrow> MDB_meta \<Rightarrow> int \<times> world" where
  "mdb_env_init_meta w meta =
     (let psize = me_psize (w_env w) in
      if \<not> w_ok w (NUM_METAS * psize) then (ENOMEM, w)
      else
        (let (r, w) = pwrite w 0 (meta_page psize 0 meta @ meta_page psize 1 meta)
         in case r of
              Inl rc \<Rightarrow> (rc, w)
            | Inr len \<Rightarrow> (if len = psize * NUM_METAS then MDB_SUCCESS else ENOSPC, w)))"

subsection \<open>Committing\<close>

text \<open>Flushing the file: \<open>msync\<close> of the map or \<open>fdatasync\<close> of the file.\<close>

definition file_sync :: "world \<Rightarrow> int \<times> world" where
  "file_sync w = (w_sync w (w_nio w), w\<lparr>w_nio := w_nio w + 1\<rparr>)"

definition mdb_env_sync :: "world \<Rightarrow> bool \<Rightarrow> int \<times> world" where
  "mdb_env_sync w force =
     (if me_flags (w_env w) AND MDB_RDONLY \<noteq> 0 then (EACCES, w)
      else if force \<or> \<not> F_ISSET (me_flags (w_env w)) MDB_NOSYNC then file_sync w
      else (0, w))"

definition set_mti_txnid :: "u64 \<Rightarrow> world \<Rightarrow> world" where
  "set_mti_txnid i w = upd_env (\<lambda>e. e\<lparr>me_txns := map_option (\<lambda>ti. ti\<lparr>mti_txnid := i\<rparr>) (me_txns e)\<rparr>) w"

definition commit_meta :: "world \<Rightarrow> nat \<Rightarrow> MDB_meta" where
  "commit_meta w t =
     (let toggle = unat (mt_txnid (txn w t) AND 1);
          mapsize = max (mm_mapsize (get_meta w (1 - toggle))) (of_nat (me_mapsize (w_env w)))
      in (get_meta w toggle)\<lparr>mm_mapsize := mapsize, mm_free := mt_dbs (txn w t) FREE_DBI, mm_main := mt_dbs (txn w t) MAIN_DBI,
           mm_last_pg := mt_next_pgno (txn w t) - 1, mm_txnid := mt_txnid (txn w t)\<rparr>)"

definition set_fatal :: "world \<Rightarrow> world" where
  "set_fatal w = upd_env (\<lambda>e. e\<lparr>me_flags := me_flags e OR MDB_FATAL_ERROR\<rparr>) w"

text \<open>The \<open>pwrite\<close> of the new record from \<open>mm_mapsize\<close> on, and the one that puts the old values back after it failed.\<close>

definition meta_pwrite :: "world \<Rightarrow> nat \<Rightarrow> MDB_meta \<Rightarrow> (int + nat) \<times> world" where
  "meta_pwrite w t meta = pwrite w (me_metas w (unat (mt_txnid (txn w t) AND 1)) + 16 - me_map (w_env w)) (meta_tail meta)"

definition mdb_env_write_meta :: "world \<Rightarrow> nat \<Rightarrow> int \<times> world" where
  "mdb_env_write_meta w t =
     (let toggle = unat (mt_txnid (txn w t) AND 1);
          flags = me_flags (w_env w);
          mp = me_metas w toggle;
          old = get_meta w toggle;
          meta = commit_meta w t;
          done = (\<lambda>w. (MDB_SUCCESS, set_mti_txnid (mt_txnid (txn w t)) w))
      in if flags AND MDB_WRITEMAP \<noteq> 0 then
           (let w = upd_mem (\<lambda>m. mem_write m (mp + 16) (meta_tail meta)) w
            in if flags AND (MDB_NOMETASYNC OR MDB_NOSYNC) = 0 then
                 (let (rc, w) = file_sync w in if rc \<noteq> 0 then (rc, set_fatal w) else done w)
               else done w)
         else
           (let (r, w) = meta_pwrite w t meta
            in if r \<noteq> Inr (length (meta_tail meta)) then
                 (let rc = (case r of Inl rc \<Rightarrow> rc | Inr _ \<Rightarrow> EIO);
                      (_, w) = meta_pwrite w t (meta\<lparr>mm_last_pg := mm_last_pg old, mm_txnid := mm_txnid old\<rparr>)
                  in (rc, set_fatal w))
               else done w))"

end
