(* ===== verification/Txn.thy ===== *)
theory Txn
  imports Meta
begin

section \<open>Transactions and the reader table (mdb.c)\<close>

text \<open>
  Beginning, renewing, resetting and aborting transactions, the slots of the reader table, the shadows
  of the cursors of a parent transaction, and the check for readers of dead processes. Committing is in
  the theory \<open>Commit\<close>.
\<close>

definition zero_txn :: MDB_txn where
  "zero_txn = \<lparr>mt_parent = None, mt_child = None, mt_next_pgno = 0, mt_txnid = 0, mt_free_pgs = \<lparr>alloclen = 0, cells = []\<rparr>,
     mt_loose_pgs = 0, mt_loose_count = 0, mt_spill_pgs = None, mt_dirty_list = [], mt_reader = None, mt_dbs = (\<lambda>_. zero_db),
     mt_env_seqs = True, mt_cursors = None, mt_dbflags = (\<lambda>_. 0), mt_numdbs = 0, mt_flags = 0, mt_dirty_room = 0,
     mnt_pghead = None, mnt_pglast = 0\<rparr>"

definition new_txn :: "world \<Rightarrow> nat \<times> world" where
  "new_txn w = (w_ntxn w, w\<lparr>w_ntxn := w_ntxn w + 1\<rparr>)"

subsection \<open>Shadow cursors\<close>

text \<open>
  A backup is a pair of consecutive indices: the copy of the cursor and, behind it, the copy of its
  sub-cursor (\<open>bk + 1\<close>). The cursors of database \<open>i\<close> move to the list of \<open>dst\<close> one by one.
\<close>

fun shadow_list :: "world \<Rightarrow> nat \<Rightarrow> nat \<Rightarrow> nat \<Rightarrow> nat list \<Rightarrow> (int \<times> world) option" where
  "shadow_list w dst i sz [] = Some (MDB_SUCCESS, w)"
| "shadow_list w dst i sz (mc # ms) =
     (if \<not> w_ok w sz then Some (ENOMEM, w)
      else do {
        let (bk, w) = new_cur w;
        let (_, w) = new_cur w;
        let w = upd_cur bk (\<lambda>_. cur w mc) w;
        let w = upd_cur mc (\<lambda>c. c\<lparr>mc_backup := Some bk, mc_txn := dst\<rparr>) w;
        let w = (case mc_xcursor (cur w mc) of
            None \<Rightarrow> w
          | Some mx \<Rightarrow> upd_cur mx (\<lambda>c. c\<lparr>mc_txn := dst\<rparr>) (upd_cur (bk + 1) (\<lambda>_. cur w mx) w));
        cs \<leftarrow> mt_cursors (txn w dst);
        let w = upd_txn dst (\<lambda>x. x\<lparr>mt_cursors := Some (cs(i := mc # cs i))\<rparr>) w;
        shadow_list w dst i sz ms
      })"

fun shadow_loop :: "world \<Rightarrow> nat \<Rightarrow> nat \<Rightarrow> nat \<Rightarrow> (int \<times> world) option" where
  "shadow_loop w src dst 0 = Some (MDB_SUCCESS, w)"
| "shadow_loop w src dst (Suc i) = do {
     cs \<leftarrow> mt_cursors (txn w src);
     (rc, w) \<leftarrow> (case cs i of
         [] \<Rightarrow> Some (MDB_SUCCESS, w)
       | mc # ms \<Rightarrow>
           shadow_list w dst i (sizeof_cursor + (if mc_xcursor (cur w mc) \<noteq> None then sizeof_xcursor else 0)) (mc # ms));
     if rc \<noteq> 0 then Some (rc, w) else shadow_loop w src dst i
   }"

definition mdb_cursor_shadow :: "world \<Rightarrow> nat \<Rightarrow> nat \<Rightarrow> (int \<times> world) option" where
  "mdb_cursor_shadow w src dst = shadow_loop w src dst (mt_numdbs (txn w src))"

definition close_cursor :: "bool \<Rightarrow> nat \<Rightarrow> world \<Rightarrow> world" where
  "close_cursor merge mc w =
     (case mc_backup (cur w mc) of
        None \<Rightarrow> w
      | Some bk \<Rightarrow>
          if merge then
            (let b = cur w bk;
                 w = upd_cur mc (\<lambda>c. c\<lparr>mc_backup := mc_backup b, mc_txn := mc_txn b\<rparr>) w
             in case mc_xcursor (cur w mc) of None \<Rightarrow> w | Some mx \<Rightarrow> upd_cur mx (\<lambda>c. c\<lparr>mc_txn := mc_txn b\<rparr>) w)
          else
            (let w = upd_cur mc (\<lambda>_. cur w bk) w
             in case mc_xcursor (cur w mc) of None \<Rightarrow> w | Some mx \<Rightarrow> upd_cur mx (\<lambda>_. cur w (bk + 1)) w))"

definition mdb_cursors_close :: "world \<Rightarrow> nat \<Rightarrow> bool \<Rightarrow> world option" where
  "mdb_cursors_close w t merge = do {
     cs \<leftarrow> mt_cursors (txn w t);
     let n = mt_numdbs (txn w t);
     let w = fold (close_cursor merge) (concat (map cs (rev [0..<n]))) w;
     Some (upd_txn t (\<lambda>x. x\<lparr>mt_cursors := Some (\<lambda>i. if i < n then [] else cs i)\<rparr>) w)
   }"

subsection \<open>Ending a transaction\<close>

fun dbis_update_loop :: "world \<Rightarrow> nat \<Rightarrow> bool \<Rightarrow> nat \<Rightarrow> world" where
  "dbis_update_loop w t keep 0 = w"
| "dbis_update_loop w t keep (Suc i) =
     (if i < CORE_DBS then w
      else
        (let w = (if mt_dbflags (txn w t) i AND DB_NEW \<noteq> 0 then
               (if keep then upd_env (\<lambda>e. e\<lparr>me_dbflags := (me_dbflags e)(i := md_flags (mt_dbs (txn w t) i) OR MDB_VALID)\<rparr>) w
                else if md_name (me_dbxs (w_env w) i) \<noteq> [] then
                  upd_env (\<lambda>e. e\<lparr>me_dbxs := (me_dbxs e)(i := (me_dbxs e i)\<lparr>md_name := []\<rparr>),
                    me_dbflags := (me_dbflags e)(i := 0), me_dbiseqs := (me_dbiseqs e)(i := me_dbiseqs e i + 1)\<rparr>) w
                else w)
             else w)
         in dbis_update_loop w t keep i))"

definition mdb_dbis_update :: "world \<Rightarrow> nat \<Rightarrow> bool \<Rightarrow> world" where
  "mdb_dbis_update w t keep =
     (let n = mt_numdbs (txn w t); w = dbis_update_loop w t keep n
      in if keep \<and> me_numdbs (w_env w) < n then upd_env (\<lambda>e. e\<lparr>me_numdbs := n\<rparr>) w else w)"

text \<open>Updating a slot of the reader table; a slot past the table faults.\<close>

definition upd_reader :: "nat \<Rightarrow> (MDB_reader \<Rightarrow> MDB_reader) \<Rightarrow> world \<Rightarrow> world option" where
  "upd_reader i f w = do {
     ti \<leftarrow> me_txns (w_env w);
     r \<leftarrow> aget (mti_readers ti) i;
     rs \<leftarrow> aput (mti_readers ti) i (f r);
     Some (upd_env (\<lambda>e. e\<lparr>me_txns := Some (ti\<lparr>mti_readers := rs\<rparr>)\<rparr>) w)
   }"

definition end_reader :: "world \<Rightarrow> nat \<Rightarrow> u32 \<Rightarrow> world option" where
  "end_reader w t mode = do {
     w \<leftarrow> (case mt_reader (txn w t) of
         None \<Rightarrow> Some w
       | Some r \<Rightarrow> do {
           w \<leftarrow> upd_reader r (\<lambda>x. x\<lparr>mr_txnid := - 1\<rparr>) w;
           if me_flags (w_env w) AND MDB_NOTLS = 0 then Some (upd_txn t (\<lambda>x. x\<lparr>mt_reader := None\<rparr>) w)
           else if mode AND MDB_END_SLOT \<noteq> 0 then do {
             w \<leftarrow> upd_reader r (\<lambda>x. x\<lparr>mr_pid := 0\<rparr>) w;
             Some (upd_txn t (\<lambda>x. x\<lparr>mt_reader := None\<rparr>) w)
           } else Some w
         });
     Some (upd_txn t (\<lambda>x. x\<lparr>mt_numdbs := 0, mt_flags := mt_flags x OR MDB_TXN_FINISHED\<rparr>) w)
   }"

definition end_writer :: "world \<Rightarrow> nat \<Rightarrow> u32 \<Rightarrow> world option" where
  "end_writer w t mode = do {
     w \<leftarrow> (if mode AND MDB_END_UPDATE = 0 then mdb_cursors_close w t False else Some w);
     w \<leftarrow> (if me_flags (w_env w) AND MDB_WRITEMAP = 0 then mdb_dlist_free w t else Some w);
     let w = upd_txn t (\<lambda>x. x\<lparr>mt_numdbs := 0, mt_flags := MDB_TXN_FINISHED\<rparr>) w;
     case mt_parent (txn w t) of
       None \<Rightarrow> do {
         let l = mdb_midl_shrink (w_ok w) (w_gid w) (mt_free_pgs (txn w t));
         let w = upd_env (\<lambda>e. e\<lparr>me_free_pgs := l, me_pghead := None, me_pglast := 0, me_txn := None\<rparr>) (set_free_pgs t l w);
         Some (if me_txns (w_env w) \<noteq> None then w\<lparr>w_wlock := False\<rparr> else w)
       }
     | Some p \<Rightarrow>
         Some (upd_env (\<lambda>e. e\<lparr>me_pghead := mnt_pghead (txn w t), me_pglast := mnt_pglast (txn w t)\<rparr>)
           (upd_txn p (\<lambda>x. x\<lparr>mt_child := None, mt_flags := mt_flags x AND NOT MDB_TXN_HAS_CHILD\<rparr>) w))
   }"

definition mdb_txn_end :: "world \<Rightarrow> nat \<Rightarrow> u32 \<Rightarrow> world option" where
  "mdb_txn_end w t mode =
     (let w = mdb_dbis_update w t (mode AND MDB_END_UPDATE \<noteq> 0) in
      if F_ISSET (mt_flags (txn w t)) MDB_TXN_RDONLY then end_reader w t mode
      else if \<not> F_ISSET (mt_flags (txn w t)) MDB_TXN_FINISHED then end_writer w t mode
      else Some w)"

definition mdb_txn_reset :: "world \<Rightarrow> nat option \<Rightarrow> world option" where
  "mdb_txn_reset w tp =
     (case tp of
        None \<Rightarrow> Some w
      | Some t \<Rightarrow> if mt_flags (txn w t) AND MDB_TXN_RDONLY = 0 then Some w else mdb_txn_end w t MDB_END_RESET)"

partial_function (option) mdb_txn_abort :: "world \<Rightarrow> nat option \<Rightarrow> world option" where
  [code]: "mdb_txn_abort w tp =
     (case tp of
        None \<Rightarrow> Some w
      | Some t \<Rightarrow> do {
          w \<leftarrow> (case mt_child (txn w t) of None \<Rightarrow> Some w | Some c \<Rightarrow> mdb_txn_abort w (Some c));
          mdb_txn_end w t (MDB_END_ABORT OR MDB_END_SLOT OR MDB_END_FREE)
        })"

subsection \<open>Beginning a transaction\<close>

text \<open>The first free slot among the readers in use, \<open>nr\<close> if there is none.\<close>

fun free_slot :: "MDB_reader list \<Rightarrow> nat \<Rightarrow> nat \<Rightarrow> nat option" where
  "free_slot rs i 0 = Some i"
| "free_slot rs i (Suc k) = do {
     r \<leftarrow> aget rs i;
     if mr_pid r = 0 then Some i else free_slot rs (i + 1) k
   }"

text \<open>Resetting the slot, publishing it in \<open>mti_numreaders\<close>, and claiming it, in this order.\<close>

definition reset_slot :: "world \<Rightarrow> nat \<Rightarrow> nat \<Rightarrow> world option" where
  "reset_slot w i nr = do {
     w \<leftarrow> upd_reader i (\<lambda>r. r\<lparr>mr_pid := 0, mr_txnid := - 1, mr_tid := w_tid w\<rparr>) w;
     let nr = (if i = nr then nr + 1 else nr);
     let w = upd_env (\<lambda>e. e\<lparr>me_txns := map_option (\<lambda>ti. ti\<lparr>mti_numreaders := nr\<rparr>) (me_txns e), me_close_readers := nr\<rparr>) w;
     upd_reader i (\<lambda>r. r\<lparr>mr_pid := me_pid (w_env w)\<rparr>) w
   }"

text \<open>Storing the slot in the thread's local storage, unless the transaction keeps it.\<close>

definition store_slot :: "world \<Rightarrow> nat \<Rightarrow> (int \<times> nat \<times> world) option" where
  "store_slot w i =
     (if me_flags (w_env w) AND MDB_NOTLS \<noteq> 0 then Some (0, i, w)
      else if w_tlsrc w \<noteq> 0 then do {
        w \<leftarrow> upd_reader i (\<lambda>r. r\<lparr>mr_pid := 0\<rparr>) w;
        Some (w_tlsrc w, 0, w)
      }
      else Some (0, i, w\<lparr>w_tls := (w_tls w)(w_tid w := Some i)\<rparr>))"

definition take_slot :: "world \<Rightarrow> (int \<times> nat \<times> world) option" where
  "take_slot w = do {
     ti \<leftarrow> me_txns (w_env w);
     i \<leftarrow> free_slot (mti_readers ti) 0 (mti_numreaders ti);
     if i = me_maxreaders (w_env w) then Some (MDB_READERS_FULL, 0, w)
     else do {
       w \<leftarrow> reset_slot w i (mti_numreaders ti);
       store_slot w i
     }
   }"

definition claim_slot :: "world \<Rightarrow> (int \<times> nat \<times> world) option" where
  "claim_slot w =
     (if \<not> me_live_reader (w_env w) \<and> w_pidset w \<noteq> 0 then Some (w_pidset w, 0, w)
      else
        (let w = upd_env (\<lambda>e. e\<lparr>me_live_reader := True\<rparr>) w in
         if w_lockrc w \<noteq> 0 then Some (w_lockrc w, 0, w)
         else take_slot w))"

text \<open>The slot of a reader: the one it has, or a new one. The flag says that the slot is new and owned by the transaction.\<close>

definition kept_slot :: "world \<Rightarrow> nat \<Rightarrow> nat option" where
  "kept_slot w t = (if me_flags (w_env w) AND MDB_NOTLS \<noteq> 0 then mt_reader (txn w t) else w_tls w (w_tid w))"

definition reader_slot :: "world \<Rightarrow> nat \<Rightarrow> MDB_txninfo \<Rightarrow> (int \<times> bool \<times> nat \<times> world) option" where
  "reader_slot w t ti =
     (case kept_slot w t of
        Some r \<Rightarrow> do {
          x \<leftarrow> aget (mti_readers ti) r;
          Some (if mr_pid x \<noteq> me_pid (w_env w) \<or> mr_txnid x \<noteq> - 1 then MDB_BAD_RSLOT else 0, False, r, w)
        }
      | None \<Rightarrow> do {
          (rc, r, w') \<leftarrow> claim_slot w;
          Some (rc, me_flags (w_env w) AND MDB_NOTLS \<noteq> 0, r, w')
        })"

text \<open>
  \<open>do r->mr_txnid = ti->mti_txnid; while (r->mr_txnid != ti->mti_txnid);\<close>: the load of the newest transaction, its
  store in the slot, and the check that it is still the newest one, which a commit of the writer in between may
  have changed. The theory \<open>Mvcc_Spec\<close> interleaves the three with the writer.
\<close>

definition load_txnid :: "world \<Rightarrow> u64 option" where
  "load_txnid w = map_option mti_txnid (me_txns (w_env w))"

definition store_snapshot :: "nat \<Rightarrow> u64 \<Rightarrow> world \<Rightarrow> world option" where
  "store_snapshot r v w = upd_reader r (\<lambda>x. x\<lparr>mr_txnid := v\<rparr>) w"

definition snapshot_current :: "nat \<Rightarrow> world \<Rightarrow> bool option" where
  "snapshot_current r w = do {
     ti \<leftarrow> me_txns (w_env w);
     x \<leftarrow> aget (mti_readers ti) r;
     Some (mr_txnid x = mti_txnid ti)
   }"

partial_function (option) snapshot_loop :: "nat \<Rightarrow> world \<Rightarrow> world option" where
  [code]: "snapshot_loop r w = do {
     v \<leftarrow> load_txnid w;
     w \<leftarrow> store_snapshot r v w;
     ok \<leftarrow> snapshot_current r w;
     if ok then Some w else snapshot_loop r w
   }"

text \<open>The transaction takes the snapshot of its slot; the result is the number of the meta page.\<close>

definition adopt_snapshot :: "nat \<Rightarrow> nat \<Rightarrow> world \<Rightarrow> (nat \<times> world) option" where
  "adopt_snapshot t r w = do {
     ti \<leftarrow> me_txns (w_env w);
     x \<leftarrow> aget (mti_readers ti) r;
     Some (unat (mr_txnid x AND 1), upd_txn t (\<lambda>y. y\<lparr>mt_txnid := mr_txnid x, mt_reader := Some r\<rparr>) w)
   }"

text \<open>A reader: its snapshot and meta page.\<close>

definition renew_reader :: "world \<Rightarrow> nat \<Rightarrow> (int \<times> bool \<times> nat \<times> world) option" where
  "renew_reader w t =
     (case me_txns (w_env w) of
        None \<Rightarrow>
          (let i = mdb_env_pick_meta w in
           Some (0, False, i, upd_txn t (\<lambda>x. x\<lparr>mt_txnid := mm_txnid (get_meta w i), mt_reader := None\<rparr>) w))
      | Some ti \<Rightarrow> do {
          (rc, new, r, w) \<leftarrow> reader_slot w t ti;
          if rc \<noteq> 0 then Some (rc, False, 0, w)
          else do {
            w \<leftarrow> snapshot_loop r w;
            (i, w) \<leftarrow> adopt_snapshot t r w;
            Some (0, new, i, w)
          }
        })"

text \<open>A writer: it takes the writer mutex (a call that waits for ever is None) and resets the lists.\<close>

definition renew_writer :: "world \<Rightarrow> nat \<Rightarrow> (int \<times> nat \<times> world) option" where
  "renew_writer w t = do {
     (rc, i, txid, w) \<leftarrow>
       (case me_txns (w_env w) of
          Some ti \<Rightarrow>
            if w_lockrc w \<noteq> 0 then Some (w_lockrc w, 0, 0, w)
            else if w_wlock w then None
            else Some (0, unat (mti_txnid ti AND 1), mti_txnid ti, w\<lparr>w_wlock := True\<rparr>)
        | None \<Rightarrow> (let i = mdb_env_pick_meta w in Some (0, i, mm_txnid (get_meta w i), w)));
     if rc \<noteq> 0 then Some (rc, 0, w)
     else do {
       d0 \<leftarrow> aget (me_dirty_list (w_env w)) 0;
       dl \<leftarrow> aput (me_dirty_list (w_env w)) 0 (d0\<lparr>mid := 0\<rparr>);
       fl \<leftarrow> aput (cells (me_free_pgs (w_env w))) 0 0;
       let w = upd_txn t (\<lambda>x. x\<lparr>mt_txnid := txid + 1, mt_child := None, mt_loose_pgs := 0, mt_loose_count := 0,
            mt_dirty_room := MDB_IDL_UM_MAX, mt_dirty_list := dl, mt_free_pgs := (me_free_pgs (w_env w))\<lparr>cells := fl\<rparr>,
            mt_spill_pgs := None\<rparr>) w;
       Some (0, i, upd_env (\<lambda>e. e\<lparr>me_txn := Some t, me_txn0_seqs := me_dbiseqs e\<rparr>) w)
     }
   }"

text \<open>Copying the databases of the meta page and the flags of the environment's handles.\<close>

definition renew_dbs :: "world \<Rightarrow> nat \<Rightarrow> nat \<Rightarrow> u32 \<Rightarrow> world" where
  "renew_dbs w t i flags =
     (let meta = get_meta w i; env = w_env w; n = me_numdbs env in
      upd_txn t (\<lambda>x. x\<lparr>mt_next_pgno := mm_last_pg meta + 1, mt_flags := flags, mt_numdbs := n,
        mt_dbs := (\<lambda>d. if d = FREE_DBI then mm_free meta else if d = MAIN_DBI then mm_main meta
                      else if d < n then (mt_dbs x d)\<lparr>md_flags := me_dbflags env d AND PERSISTENT_FLAGS\<rparr> else mt_dbs x d),
        mt_dbflags := (\<lambda>d. if d = FREE_DBI then DB_VALID else if d = MAIN_DBI then DB_VALID OR DB_USRVALID
                      else if d < n then (if me_dbflags env d AND MDB_VALID \<noteq> 0 then DB_VALID OR DB_USRVALID OR DB_STALE else 0)
                      else mt_dbflags x d)\<rparr>) w)"

definition mdb_txn_renew0 :: "world \<Rightarrow> nat \<Rightarrow> (int \<times> world) option" where
  "mdb_txn_renew0 w t = do {
     let flags = mt_flags (txn w t) AND MDB_TXN_RDONLY;
     (rc, new_notls, i, w) \<leftarrow>
       (if flags \<noteq> 0 then renew_reader w t
        else do { (rc, i, w) \<leftarrow> renew_writer w t; Some (rc, False, i, w) });
     if rc \<noteq> 0 then Some (rc, w)
     else do {
       let w = renew_dbs w t i flags;
       let rc = (if me_flags (w_env w) AND MDB_FATAL_ERROR \<noteq> 0 then MDB_PANIC
                 else if me_maxpg (w_env w) < mt_next_pgno (txn w t) then MDB_MAP_RESIZED else MDB_SUCCESS);
       if rc = MDB_SUCCESS then Some (rc, w)
       else do {
         w \<leftarrow> mdb_txn_end w t ((if new_notls then MDB_END_SLOT else 0) OR MDB_END_FAIL_BEGIN);
         Some (rc, w)
       }
     }
   }"

definition mdb_txn_renew :: "world \<Rightarrow> nat option \<Rightarrow> (int \<times> world) option" where
  "mdb_txn_renew w tp =
     (case tp of
        None \<Rightarrow> Some (EINVAL, w)
      | Some t \<Rightarrow>
          if \<not> F_ISSET (mt_flags (txn w t)) (MDB_TXN_RDONLY OR MDB_TXN_FINISHED) then Some (EINVAL, w)
          else mdb_txn_renew0 w t)"

abbreviation (input) sizeof_txn :: nat where "sizeof_txn \<equiv> 136"
abbreviation (input) sizeof_ntxn :: nat where "sizeof_ntxn \<equiv> 152"
abbreviation (input) sizeof_db :: nat where "sizeof_db \<equiv> 48"

text \<open>The nested transaction \<open>t\<close> (zeroed) of \<open>parent\<close>.\<close>

definition begin_child :: "world \<Rightarrow> nat \<Rightarrow> nat \<Rightarrow> (int \<times> world) option" where
  "begin_child w parent t =
     (case (if w_ok w (16 * (MDB_IDL_UM_MAX + 1)) then mdb_midl_alloc (w_ok w) (w_gid w) MDB_IDL_UM_MAX else None) of
        None \<Rightarrow> Some (ENOMEM, w)
      | Some fl \<Rightarrow> do {
          let p = txn w parent;
          let w = upd_txn t (\<lambda>x. x\<lparr>mt_cursors := Some (\<lambda>_. []), mt_env_seqs := mt_env_seqs p,
             mt_dirty_list := replicate (MDB_IDL_UM_MAX + 1) \<lparr>mid = 0, mptr = 0\<rparr>, mt_free_pgs := fl, mt_txnid := mt_txnid p,
             mt_dirty_room := mt_dirty_room p, mt_spill_pgs := None, mt_next_pgno := mt_next_pgno p, mt_parent := Some parent,
             mt_numdbs := mt_numdbs p,
             mt_dbs := (\<lambda>d. if d < mt_numdbs p then mt_dbs p d else mt_dbs x d),
             mt_dbflags := (\<lambda>d. if d < mt_numdbs p then mt_dbflags p d AND NOT DB_NEW else mt_dbflags x d),
             mnt_pghead := me_pghead (w_env w), mnt_pglast := me_pglast (w_env w)\<rparr>) w;
          let w = upd_txn parent (\<lambda>x. x\<lparr>mt_flags := mt_flags x OR MDB_TXN_HAS_CHILD, mt_child := Some t\<rparr>) w;
          (rc, w) \<leftarrow>
            (case me_pghead (w_env w) of
               None \<Rightarrow> Some (0, w)
             | Some mop \<Rightarrow> do {
                 n \<leftarrow> aget (cells mop) 0;
                 case mdb_midl_alloc (w_ok w) (w_gid w) (unat n mod 2 ^ 32) of
                   None \<Rightarrow> Some (ENOMEM, upd_env (\<lambda>e. e\<lparr>me_pghead := None\<rparr>) w)
                 | Some l \<Rightarrow> Some (0, upd_env (\<lambda>e. e\<lparr>me_pghead := Some (l\<lparr>cells := take (unat n + 1) (cells mop) @ drop (unat n + 1) (cells l)\<rparr>)\<rparr>) w)
               });
          (rc, w) \<leftarrow> (if rc = 0 then mdb_cursor_shadow w parent t else Some (rc, w));
          if rc \<noteq> 0 then do {
            w \<leftarrow> mdb_txn_end w t MDB_END_FAIL_BEGINCHILD;
            Some (rc, w)
          } else Some (0, w)
        })"

definition mdb_txn_begin :: "world \<Rightarrow> nat option \<Rightarrow> u32 \<Rightarrow> (int \<times> nat \<times> world) option" where
  "mdb_txn_begin w parent flags =
     (let env = w_env w;
          flags = (flags AND MDB_TXN_BEGIN_FLAGS) OR (me_flags env AND MDB_WRITEMAP);
          finish = (\<lambda>rc t w. if rc \<noteq> 0 then Some (rc, 0, w) else Some (0, t, upd_txn t (\<lambda>x. x\<lparr>mt_flags := mt_flags x OR flags\<rparr>) w))
      in if me_flags env AND MDB_RDONLY AND NOT flags \<noteq> 0 then Some (EACCES, 0, w)
         else (case parent of
             Some p \<Rightarrow>
               (let flags = flags OR mt_flags (txn w p) in
                if flags AND (MDB_RDONLY OR MDB_WRITEMAP OR MDB_TXN_BLOCKED) \<noteq> 0 then
                  Some (if mt_flags (txn w p) AND MDB_TXN_RDONLY \<noteq> 0 then EINVAL else MDB_BAD_TXN, 0, w)
                else if \<not> w_ok w (me_maxdbs env * (sizeof_db + 8 + 1) + sizeof_ntxn) then Some (ENOMEM, 0, w)
                else do {
                  let (t, w) = new_txn w;
                  let w = upd_txn t (\<lambda>_. zero_txn\<lparr>mt_flags := flags\<rparr>) w;
                  (rc, w) \<leftarrow> begin_child w p t;
                  if rc \<noteq> 0 then Some (rc, 0, w) else Some (0, t, upd_txn t (\<lambda>x. x\<lparr>mt_flags := mt_flags x OR flags\<rparr>) w)
                })
           | None \<Rightarrow>
               if flags AND MDB_RDONLY \<noteq> 0 then
                 (if \<not> w_ok w (me_maxdbs env * (sizeof_db + 1) + sizeof_txn) then Some (ENOMEM, 0, w)
                  else do {
                    let (t, w) = new_txn w;
                    let w = upd_txn t (\<lambda>_. zero_txn\<lparr>mt_flags := flags, mt_env_seqs := True\<rparr>) w;
                    (rc, w) \<leftarrow> mdb_txn_renew0 w t;
                    finish rc t w
                  })
               else do {
                 (rc, w) \<leftarrow> mdb_txn_renew0 w (me_txn0 env);
                 finish rc (me_txn0 env) w
               }))"

definition mdb_txn_id :: "world \<Rightarrow> nat option \<Rightarrow> u64" where
  "mdb_txn_id w tp = (case tp of None \<Rightarrow> 0 | Some t \<Rightarrow> mt_txnid (txn w t))"

end
