(* ===== verification/Btree.thy ===== *)
theory Btree
  imports Txn
begin

section \<open>Changing the tree (mdb.c)\<close>

text \<open>
  Adding and deleting nodes through a cursor, splitting pages, updating separators, moving nodes between
  siblings, merging and rebalancing, with the adjustment of the other cursors on the same pages.
\<close>

subsection \<open>Other cursors\<close>

text \<open>
  The loop \<open>for (m2 = mt_cursors[dbi]; m2; m2 = m2->mc_next)\<close> with \<open>m3\<close> the sub-cursor of \<open>m2\<close> if \<open>mc\<close> is a
  sub-cursor, and \<open>m2\<close> itself otherwise.
\<close>

fun each_cursor :: "(nat \<Rightarrow> nat \<Rightarrow> world \<Rightarrow> world option) \<Rightarrow> bool \<Rightarrow> nat list \<Rightarrow> world \<Rightarrow> world option" where
  "each_cursor f sub [] w = Some w"
| "each_cursor f sub (m2 # ms) w = do {
     m3 \<leftarrow> (if sub then mc_xcursor (cur w m2) else Some m2);
     w \<leftarrow> f m2 m3 w;
     each_cursor f sub ms w
   }"

definition for_cursors :: "nat \<Rightarrow> (nat \<Rightarrow> nat \<Rightarrow> world \<Rightarrow> world option) \<Rightarrow> world \<Rightarrow> world option" where
  "for_cursors mc f w = do {
     cs \<leftarrow> mt_cursors (txn w (mc_txn (cur w mc)));
     each_cursor f (mc_flags (cur w mc) AND C_SUB \<noteq> 0) (cs (mc_dbi (cur w mc))) w
   }"

definition set_ki_at :: "nat \<Rightarrow> nat \<Rightarrow> nat \<Rightarrow> world \<Rightarrow> world" where
  "set_ki_at c i k w = upd_cur c (\<lambda>x. x\<lparr>mc_ki := (mc_ki x)(i := k mod 65536)\<rparr>) w"

definition inc_ki :: "nat \<Rightarrow> nat \<Rightarrow> world \<Rightarrow> world" where
  "inc_ki c i w = set_ki_at c i (mc_ki (cur w c) i + 1) w"

definition dec_ki :: "nat \<Rightarrow> nat \<Rightarrow> world \<Rightarrow> world" where
  "dec_ki c i w = set_ki_at c i (mc_ki (cur w c) i + 65535) w"

text \<open>
  \<open>mc_pg[0]\<close> of the sub-cursor of \<open>m3\<close> follows the sub-page in the item of \<open>m3\<close> at level \<open>i\<close>, if the sub-cursor is
  in use.
\<close>

definition fix_xcursor :: "nat \<Rightarrow> nat \<Rightarrow> world \<Rightarrow> world" where
  "fix_xcursor m3 i w =
     (case mc_xcursor (cur w m3) of
        None \<Rightarrow> w
      | Some mx \<Rightarrow>
          if mc_flags (cur w mx) AND C_INITIALIZED \<noteq> 0 then
            (let node = NODEPTR (w_mem w) (mc_pg (cur w m3) i) (mc_ki (cur w m3) i) in
             if mn_flags (w_mem w) node AND (F_DUPDATA OR F_SUBDATA) = F_DUPDATA
             then set_pg_at mx 0 (NODEDATA (w_mem w) node) w else w)
          else w)"

definition mdb_cursor_copy :: "nat \<Rightarrow> nat \<Rightarrow> world \<Rightarrow> world" where
  "mdb_cursor_copy csrc cdst w =
     (let s = cur w csrc in
      upd_cur cdst (\<lambda>d. d\<lparr>mc_txn := mc_txn s, mc_dbi := mc_dbi s, mc_dbsrc := mc_dbsrc s, mc_snum := mc_snum s, mc_top := mc_top s,
        mc_flags := mc_flags s,
        mc_pg := (\<lambda>i. if i < mc_snum s then mc_pg s i else mc_pg d i),
        mc_ki := (\<lambda>i. if i < mc_snum s then mc_ki s i else mc_ki d i)\<rparr>) w)"

text \<open>A local cursor \<open>mn\<close> with \<open>mc_xcursor\<close> NULL, copied from \<open>mc\<close>.\<close>

definition local_copy :: "nat \<Rightarrow> world \<Rightarrow> nat \<times> world" where
  "local_copy mc w =
     (let (mn, w) = new_cur w in (mn, mdb_cursor_copy mc mn (upd_cur mn (\<lambda>c. c\<lparr>mc_xcursor := None\<rparr>) w)))"

text \<open>\<open>WITH_CURSOR_TRACKING\<close>: before and after the action.\<close>

definition track_cursor :: "nat \<Rightarrow> world \<Rightarrow> world option" where
  "track_cursor mn w = do {
     let t = mc_txn (cur w mn);
     let dbi = mc_dbi (cur w mn);
     let (tracked, w) =
       (if mc_flags (cur w mn) AND C_SUB \<noteq> 0 then
          (let (dummy, w) = new_cur w in (dummy, upd_cur dummy (\<lambda>c. c\<lparr>mc_flags := C_INITIALIZED, mc_xcursor := Some mn\<rparr>) w))
        else (mn, w));
     cs \<leftarrow> mt_cursors (txn w t);
     Some (upd_txn t (\<lambda>x. x\<lparr>mt_cursors := Some (cs(dbi := tracked # cs dbi))\<rparr>) w)
   }"

definition untrack_cursor :: "nat \<Rightarrow> nat \<Rightarrow> world \<Rightarrow> world option" where
  "untrack_cursor t dbi w = do {
     cs \<leftarrow> mt_cursors (txn w t);
     Some (upd_txn t (\<lambda>x. x\<lparr>mt_cursors := Some (cs(dbi := tl (cs dbi)))\<rparr>) w)
   }"

subsection \<open>Nodes\<close>

definition node_add_finish ::
  "world \<Rightarrow> addr \<Rightarrow> nat \<Rightarrow> MDB_val option \<Rightarrow> MDB_val option \<Rightarrow> u64 \<Rightarrow> u32 \<Rightarrow> nat \<Rightarrow> addr option \<Rightarrow> (int \<times> MDB_val option \<times> world) option" where
  "node_add_finish w mp indx key data pgno flags node_size ofp = do {
     (m, p) \<leftarrow> node_add_update (w_mem w) mp indx key data pgno flags node_size ofp;
     let data = (case (data, p) of (Some d, Some q) \<Rightarrow> Some (d\<lparr>mv_data := q\<rparr>) | _ \<Rightarrow> data);
     Some (MDB_SUCCESS, data, upd_mem (\<lambda>_. m) w)
   }"

definition mdb_node_add ::
  "world \<Rightarrow> nat \<Rightarrow> nat \<Rightarrow> MDB_val option \<Rightarrow> MDB_val option \<Rightarrow> u64 \<Rightarrow> u32 \<Rightarrow> (int \<times> MDB_val option \<times> world) option" where
  "mdb_node_add w mc indx key data pgno flags =
     (let m = w_mem w; mp = cur_pg w mc; env = w_env w;
          room = int (unat (SIZELEFT m mp)) - 2;
          full = Some (MDB_PAGE_FULL, data, txn_or (mc_txn (cur w mc)) MDB_TXN_ERROR w);
          node_size = NODESIZE + (case key of None \<Rightarrow> 0 | Some k \<Rightarrow> mv_size k);
          add = (\<lambda>n. if int (EVEN n) > room then full else node_add_finish w mp indx key data pgno flags (EVEN n) None)
      in if mp_upper m mp < mp_lower m mp then None
         else if IS_LEAF2 m mp then do {
           k \<leftarrow> key;
           Some (MDB_SUCCESS, data, upd_mem (\<lambda>m. node_add_leaf2 m mp indx k (unat (md_pad (get_db w mc)))) w)
         }
         else if IS_LEAF m mp then
           (case (key, data) of
              (Some k, Some d) \<Rightarrow>
                if F_ISSET flags F_BIGDATA then add (node_size + 8)
                else if node_size + mv_size d > me_nodemax env then
                  (if int (EVEN (node_size + 8)) > room then full
                   else do {
                     (rc, ofp, w) \<leftarrow> mdb_page_new w mc P_OVERFLOW (OVPAGES (mv_size d) (me_psize env));
                     if rc \<noteq> 0 then Some (rc, data, w)
                     else node_add_finish w mp indx key data pgno (flags OR F_BIGDATA) (EVEN (node_size + 8)) (Some ofp)
                   })
                else add (node_size + mv_size d)
            | _ \<Rightarrow> None)
         else add node_size)"

definition mdb_node_del :: "world \<Rightarrow> nat \<Rightarrow> nat \<Rightarrow> world option" where
  "mdb_node_del w mc ksize = do {
     m \<leftarrow> page_node_del (w_mem w) (cur_pg w mc) (cur_ki w mc) ksize;
     Some (upd_mem (\<lambda>_. m) w)
   }"

text \<open>The key of the node at index \<open>i\<close> of a page, as the C code reads it into an \<open>MDB_val\<close>.\<close>

definition item_key :: "world \<Rightarrow> nat \<Rightarrow> addr \<Rightarrow> nat \<Rightarrow> MDB_val" where
  "item_key w mc mp i =
     (if IS_LEAF2 (w_mem w) mp then leaf2_val mp i (unat (md_pad (get_db w mc)))
      else MDB_GET_KEY2 (w_mem w) (NODEPTR (w_mem w) mp i))"

definition node_val :: "world \<Rightarrow> addr \<Rightarrow> MDB_val" where
  "node_val w node = \<lparr>mv_size = NODEDSZ (w_mem w) node, mv_data = Mem (NODEDATA (w_mem w) node)\<rparr>"

subsection \<open>Splitting a page\<close>

text \<open>The root is split: a new root with the old one as its first child. The results are \<open>ptop\<close> and \<open>new_root\<close>.\<close>

definition split_root :: "world \<Rightarrow> nat \<Rightarrow> addr \<Rightarrow> (int \<times> nat \<times> nat \<times> world) option" where
  "split_root w mc mp =
     (if mc_top (cur w mc) < 1 then do {
        (rc, pp, w) \<leftarrow> mdb_page_new w mc P_BRANCH 1;
        if rc \<noteq> 0 then Some (rc, 0, 0, w)
        else do {
          let n = mc_snum (cur w mc);
          let w = upd_cur mc (\<lambda>c. c\<lparr>mc_pg := (\<lambda>i. if i = 0 then pp else if i \<le> n then mc_pg c (i - 1) else mc_pg c i),
                                   mc_ki := (\<lambda>i. if i = 0 then 0 else if i \<le> n then mc_ki c (i - 1) else mc_ki c i)\<rparr>) w;
          let new_root = unat (md_depth (get_db w mc));
          let w = upd_db mc (\<lambda>d. d\<lparr>md_root := mp_pgno (w_mem w) pp, md_depth := md_depth d + 1\<rparr>) w;
          (rc, _, w) \<leftarrow> mdb_node_add w mc 0 None None (mp_pgno (w_mem w) mp) 0;
          if rc \<noteq> MDB_SUCCESS then
            Some (rc, 0, new_root,
              upd_db mc (\<lambda>d. d\<lparr>md_root := mp_pgno (w_mem w) mp, md_depth := md_depth d - 1\<rparr>)
               (upd_cur mc (\<lambda>c. c\<lparr>mc_pg := (mc_pg c)(0 := mc_pg c 1), mc_ki := (mc_ki c)(0 := mc_ki c 1)\<rparr>) w))
          else Some (0, 0, new_root, upd_cur mc (\<lambda>c. c\<lparr>mc_snum := mc_snum c + 1, mc_top := mc_top c + 1\<rparr>) w)
        }
      } else Some (0, mc_top (cur w mc) - 1, 0, w))"

text \<open>A \<open>P_LEAF2\<close> page: half of the keys move to \<open>rp\<close> and the new key is put in its place. The result has the separator.\<close>

definition split_leaf2 :: "world \<Rightarrow> nat \<Rightarrow> addr \<Rightarrow> addr \<Rightarrow> MDB_val \<Rightarrow> nat \<Rightarrow> nat \<Rightarrow> nat \<Rightarrow> MDB_val \<times> world" where
  "split_leaf2 w mc mp rp newkey newindx nkeys split_indx =
     (let ki = cur_ki w mc;
          ksize = unat (md_pad (get_db w mc));
          split = LEAF2KEY mp split_indx ksize;
          rsize = (nkeys - split_indx) * ksize;
          lsize = (nkeys - split_indx) * 2;
          diff = of_nat rsize - of_nat lsize;
          w = upd_mem (\<lambda>m. set_lower m mp (mp_lower m mp - of_nat lsize)) w;
          w = upd_mem (\<lambda>m. set_lower m rp (mp_lower m rp + of_nat lsize)) w;
          w = upd_mem (\<lambda>m. set_upper m mp (mp_upper m mp + diff)) w;
          w = upd_mem (\<lambda>m. set_upper m rp (mp_upper m rp - diff)) w
      in if ki < split_indx then
           (let ins = LEAF2KEY mp ki ksize;
                w = upd_mem (\<lambda>m. memmove m (METADATA rp) split rsize) w;
                w = upd_mem (\<lambda>m. memmove m (ins + ksize) ins ((split_indx - ki) * ksize)) w;
                w = upd_mem (\<lambda>m. mem_write m ins (ptr_read m (mv_data newkey) ksize)) w;
                w = upd_mem (\<lambda>m. set_lower m mp (mp_lower m mp + 2)) w;
                w = upd_mem (\<lambda>m. set_upper m mp (mp_upper m mp - (of_nat ksize - 2))) w
            in (\<lparr>mv_size = ksize, mv_data = Mem (METADATA rp)\<rparr>, w))
         else
           (let x = ki - split_indx;
                ins = LEAF2KEY rp x ksize;
                w = upd_mem (\<lambda>m. memmove m (METADATA rp) split (x * ksize)) w;
                w = upd_mem (\<lambda>m. mem_write m ins (ptr_read m (mv_data newkey) ksize)) w;
                w = upd_mem (\<lambda>m. memmove m (ins + ksize) (split + x * ksize) (rsize - x * ksize)) w;
                w = upd_mem (\<lambda>m. set_lower m rp (mp_lower m rp + 2)) w;
                w = upd_mem (\<lambda>m. set_upper m rp (mp_upper m rp - (of_nat ksize - 2))) w
            in (\<lparr>mv_size = ksize, mv_data = if newindx = split_indx then mv_data newkey else Mem split\<rparr>, set_ki mc x w)))"

text \<open>The pointers of the page with a hole for the new node, in the temporary copy.\<close>

fun split_ptrs :: "mem \<Rightarrow> addr \<Rightarrow> addr \<Rightarrow> nat \<Rightarrow> nat \<Rightarrow> nat \<Rightarrow> nat \<Rightarrow> mem" where
  "split_ptrs m copy mp newindx i j 0 = m"
| "split_ptrs m copy mp newindx i j (Suc k) =
     (let (m, j) = (if i = newindx then (set_ptr m copy j 0, j + 1) else (m, j))
      in split_ptrs (set_ptr m copy j (mp_ptrs m mp i)) copy mp newindx (i + 1) (j + 1) k)"

text \<open>
  The search of the split point: the indices are visited in the order of the list, and the size so far
  is \<open>psize\<close>. The node of an index is found through the pointers of the copy.
\<close>

fun split_scan :: "(nat \<Rightarrow> nat \<Rightarrow> nat) \<Rightarrow> nat \<Rightarrow> nat \<Rightarrow> nat list \<Rightarrow> nat option" where
  "split_scan add pmax psize [] = None"
| "split_scan add pmax psize (i # is) =
     (let psize = add psize i in
      if psize > pmax \<or> is = [] then Some i else split_scan add pmax psize is)"

definition split_add :: "mem \<Rightarrow> addr \<Rightarrow> addr \<Rightarrow> nat \<Rightarrow> nat \<Rightarrow> nat \<Rightarrow> nat \<Rightarrow> nat" where
  "split_add m mp copy newindx nsize psize i =
     (if i = newindx then psize + nsize
      else (let node = mp + unat (mp_ptrs m copy i) in EVEN (psize + node_sz m mp node + 2)))"

definition split_point :: "mem \<Rightarrow> addr \<Rightarrow> addr \<Rightarrow> nat \<Rightarrow> nat \<Rightarrow> nat \<Rightarrow> nat \<Rightarrow> nat" where
  "split_point m mp copy newindx nsize nkeys pmax =
     (let split_indx = (nkeys + 1) div 2 in
      if nkeys < 20 \<or> nsize > pmax div 16 \<or> newindx \<ge> nkeys then
        (if newindx \<le> split_indx \<or> newindx \<ge> nkeys then
           (let k = (if newindx \<ge> nkeys then nkeys else split_indx + 1 + (if IS_LEAF m mp then 1 else 0)) in
            case split_scan (split_add m mp copy newindx nsize) pmax 0 [0..<k] of None \<Rightarrow> split_indx | Some i \<Rightarrow> i)
         else
           (case split_scan (split_add m mp copy newindx nsize) pmax 0 (rev [split_indx..<nkeys + 1]) of
              None \<Rightarrow> split_indx | Some i \<Rightarrow> i + 1))
      else split_indx)"

text \<open>The temporary copy, the split point and the separator for any other page.\<close>

definition split_nodes ::
  "world \<Rightarrow> nat \<Rightarrow> addr \<Rightarrow> MDB_val \<Rightarrow> MDB_val option \<Rightarrow> nat \<Rightarrow> nat \<Rightarrow> (int \<times> addr \<times> nat \<times> MDB_val \<times> world) option" where
  "split_nodes w mc mp newkey newdata newindx nkeys = do {
     let env = w_env w;
     nsize \<leftarrow> (if IS_LEAF (w_mem w) mp then map_option (mdb_leaf_size (me_nodemax env) newkey) newdata
               else Some (mdb_branch_size (Some newkey)));
     let nsize = EVEN nsize;
     let (copy, w) = mdb_page_malloc w (mc_txn (cur w mc)) 1;
     if copy = 0 then Some (ENOMEM, 0, 0, newkey, w)
     else do {
       let w = upd_mem (\<lambda>m. set_pgno m copy (mp_pgno m mp)) w;
       let w = upd_mem (\<lambda>m. set_flags m copy (mp_flags m mp)) w;
       let w = upd_mem (\<lambda>m. set_upper (set_lower m copy 16) copy (of_nat (me_psize env))) w;
       let w = upd_mem (\<lambda>m. split_ptrs m copy mp newindx 0 0 nkeys) w;
       let split_indx = split_point (w_mem w) mp copy newindx nsize nkeys (me_psize env - PAGEHDRSZ);
       let sepkey = (if split_indx = newindx then newkey
                     else MDB_GET_KEY2 (w_mem w) (mp + unat (mp_ptrs (w_mem w) copy split_indx)));
       Some (0, copy, split_indx, sepkey, w)
     }
   }"

text \<open>
  The loop that adds the nodes to \<open>rp\<close> and to the copy, in the order of the list: each entry has the index of
  the node, its new index and the page it goes to.
\<close>

fun split_move ::
  "world \<Rightarrow> nat \<Rightarrow> addr \<Rightarrow> addr \<Rightarrow> nat \<Rightarrow> MDB_val \<Rightarrow> MDB_val option \<Rightarrow> u64 \<Rightarrow> u32 \<Rightarrow> (nat \<times> nat \<times> addr) list \<Rightarrow> (int \<times> MDB_val option \<times> world) option" where
  "split_move w mc mp copy newindx newkey newdata newpgno nflags [] = Some (0, newdata, w)"
| "split_move w mc mp copy newindx newkey newdata newpgno nflags ((i, j, dst) # rest) = do {
     let w = set_pg mc dst w;
     let leaf = IS_LEAF (w_mem w) mp;
     let node = mp + unat (mp_ptrs (w_mem w) copy i);
     let new = (i = newindx);
     let w = (if new then set_ki mc j w else w);
     let rkey = (if new then newkey else MDB_GET_KEY2 (w_mem w) node);
     let rkey = (if \<not> leaf \<and> j = 0 then rkey\<lparr>mv_size := 0\<rparr> else rkey);
     let rdata = (if \<not> leaf then None else if new then newdata else Some (node_val w node));
     let pgno = (if leaf then 0 else if new then newpgno else NODEPGNO (w_mem w) node);
     let flags = (if new then nflags else ucast (mn_flags (w_mem w) node));
     (rc, rdata, w) \<leftarrow> mdb_node_add w mc j (Some rkey) rdata pgno flags;
     let newdata = (if new \<and> leaf then rdata else newdata);
     if rc \<noteq> 0 then Some (rc, newdata, w)
     else split_move w mc mp copy newindx newkey newdata newpgno nflags rest
   }"

definition move_list :: "nat \<Rightarrow> nat \<Rightarrow> addr \<Rightarrow> addr \<Rightarrow> (nat \<times> nat \<times> addr) list" where
  "move_list split_indx nkeys rp copy =
     map (\<lambda>i. (i, i - split_indx, rp)) [split_indx..<nkeys + 1] @ map (\<lambda>i. (i, i, copy)) [0..<split_indx]"

fun copy_ptrs :: "mem \<Rightarrow> addr \<Rightarrow> addr \<Rightarrow> nat \<Rightarrow> nat \<Rightarrow> mem" where
  "copy_ptrs m dst src i 0 = m"
| "copy_ptrs m dst src i (Suc k) = copy_ptrs (set_ptr m dst i (mp_ptrs m src i)) dst src (i + 1) k"

text \<open>Copying the left half back into the page.\<close>

definition split_copy_back :: "nat \<Rightarrow> addr \<Rightarrow> addr \<Rightarrow> mem \<Rightarrow> mem" where
  "split_copy_back psize mp copy m =
     (let n = NUMKEYS m copy;
          m = copy_ptrs m mp copy 0 n;
          m = set_lower m mp (mp_lower m copy);
          m = set_upper m mp (mp_upper m copy)
      in memmove m (NODEPTR m mp (n - 1)) (NODEPTR m copy (n - 1)) (psize - unat (mp_upper m copy)))"

text \<open>
  The cursor moves to the right page: its index in the parent grows by one, and if the parent was split
  and the index is past its end, the path of \<open>mn\<close> is taken.
\<close>

definition move_right :: "nat \<Rightarrow> nat \<Rightarrow> addr \<Rightarrow> nat \<Rightarrow> world \<Rightarrow> world" where
  "move_right mc mn rp ptop w =
     (let w = inc_ki mc ptop (set_pg mc rp w); n = cur w mn in
      if mc_pg n ptop \<noteq> mc_pg (cur w mc) ptop \<and> mc_ki (cur w mc) ptop \<ge> NUMKEYS (w_mem w) (mc_pg (cur w mc) ptop) then
        upd_cur mc (\<lambda>c. c\<lparr>mc_pg := (\<lambda>i. if i \<le> ptop then mc_pg n i else mc_pg c i),
                         mc_ki := (\<lambda>i. if i \<le> ptop then mc_ki n i else mc_ki c i)\<rparr>) w
      else w)"

text \<open>Adjusting one of the other cursors.\<close>

definition split_fix ::
  "nat \<Rightarrow> nat \<Rightarrow> addr \<Rightarrow> addr \<Rightarrow> nat \<Rightarrow> nat \<Rightarrow> bool \<Rightarrow> nat \<Rightarrow> nat \<Rightarrow> u32 \<Rightarrow> nat \<Rightarrow> nat \<Rightarrow> world \<Rightarrow> world option" where
  "split_fix mc mn mp rp ptop new_root did_split newindx nkeys nflags m2 m3 w =
     (if m3 = mc \<or> mc_flags (cur w m2) AND mc_flags (cur w m3) AND C_INITIALIZED = 0 \<or>
         (new_root \<noteq> 0 \<and> mc_pg (cur w m3) 0 \<noteq> mp) then Some w
      else
        (let w = (if new_root \<noteq> 0 then
               upd_cur m3 (\<lambda>c. c\<lparr>
                 mc_ki := (\<lambda>i. if i = 0 then (if mc_ki c 0 \<ge> nkeys then 1 else 0) else if i \<le> new_root + 1 then mc_ki c (i - 1) else mc_ki c i),
                 mc_pg := (\<lambda>i. if i = 0 then mc_pg (cur w mc) 0 else if i \<le> new_root + 1 then mc_pg c (i - 1) else mc_pg c i),
                 mc_snum := mc_snum c + 1, mc_top := mc_top c + 1\<rparr>) w
             else w);
             top = mc_top (cur w mc);
             w = (if mc_top (cur w m3) \<ge> top \<and> mc_pg (cur w m3) top = mp then
                 (let w = (if mc_ki (cur w m3) top \<ge> newindx \<and> nflags AND MDB_SPLIT_REPLACE = 0 then inc_ki m3 top w else w) in
                  if mc_ki (cur w m3) top \<ge> nkeys then
                    (let n = cur w mn in
                     upd_cur m3 (\<lambda>c. c\<lparr>
                       mc_pg := (\<lambda>i. if i = top then rp else if i < top then mc_pg n i else mc_pg c i),
                       mc_ki := (\<lambda>i. if i = top then mc_ki c i - nkeys else if i < top then mc_ki n i else mc_ki c i)\<rparr>) w)
                  else w)
               else if \<not> did_split \<and> mc_top (cur w m3) \<ge> ptop \<and> mc_pg (cur w m3) ptop = mc_pg (cur w mc) ptop \<and>
                       mc_ki (cur w m3) ptop \<ge> mc_ki (cur w mc) ptop then inc_ki m3 ptop w
               else w)
         in Some (if IS_LEAF (w_mem w) mp then fix_xcursor m3 top w else w)))"

text \<open>The end of \<open>mdb_page_split\<close> for all but appended nodes: the data moves and the cursor is set.\<close>

definition split_place ::
  "world \<Rightarrow> nat \<Rightarrow> nat \<Rightarrow> addr \<Rightarrow> addr \<Rightarrow> addr \<Rightarrow> nat \<Rightarrow> nat \<Rightarrow> nat \<Rightarrow> nat \<Rightarrow> MDB_val \<Rightarrow> MDB_val option \<Rightarrow> u64 \<Rightarrow> u32 \<Rightarrow>
     (int \<times> MDB_val option \<times> world) option" where
  "split_place w mc mn mp rp copy ptop newindx nkeys split_indx newkey newdata newpgno nflags =
     (if nflags AND MDB_APPEND \<noteq> 0 then do {
        let w = set_ki mc 0 (set_pg mc rp w);
        (rc, newdata, w) \<leftarrow> mdb_node_add w mc 0 (Some newkey) newdata newpgno nflags;
        if rc \<noteq> 0 then Some (rc, newdata, w)
        else Some (0, newdata, upd_cur mc (\<lambda>c. c\<lparr>mc_ki := (\<lambda>i. if i < mc_top c then mc_ki (cur w mn) i else mc_ki c i)\<rparr>) w)
      }
      else if \<not> IS_LEAF2 (w_mem w) mp then do {
        (rc, newdata, w) \<leftarrow> split_move w mc mp copy newindx newkey newdata newpgno nflags (move_list split_indx nkeys rp copy);
        if rc \<noteq> 0 then Some (rc, newdata, w)
        else do {
          let w = upd_mem (split_copy_back (me_psize (w_env w)) mp copy) w;
          let w = (if newindx < split_indx then set_pg mc mp w else move_right mc mn rp ptop w);
          let node = NODEPTR (w_mem w) (cur_pg w mc) (cur_ki w mc);
          let newdata = (if nflags AND MDB_RESERVE \<noteq> 0 \<and> mn_flags (w_mem w) node AND F_BIGDATA = 0
                         then map_option (\<lambda>d. d\<lparr>mv_data := Mem (NODEDATA (w_mem w) node)\<rparr>) newdata else newdata);
          Some (0, newdata, w)
        }
      }
      else Some (0, newdata, if newindx \<ge> split_indx then move_right mc mn rp ptop w else w))"

definition split_done :: "nat \<Rightarrow> addr \<Rightarrow> int \<Rightarrow> world \<Rightarrow> world" where
  "split_done mc copy rc w =
     (let w = (if copy \<noteq> 0 then mdb_page_free copy w else w)
      in if rc \<noteq> 0 then txn_or (mc_txn (cur w mc)) MDB_TXN_ERROR w else w)"

text \<open>After the parent was split: the left page may have another parent too.\<close>

definition split_reparent :: "nat \<Rightarrow> nat \<Rightarrow> nat \<Rightarrow> world \<Rightarrow> world option" where
  "split_reparent mc mn ptop w =
     (let n = cur w mn in
      if mc_pg n ptop \<noteq> mc_pg (cur w mc) ptop \<and> mc_ki (cur w mc) ptop \<ge> NUMKEYS (w_mem w) (mc_pg (cur w mc) ptop) then
        (let w = upd_cur mc (\<lambda>c. c\<lparr>
               mc_pg := (\<lambda>i. if i \<le> ptop then mc_pg n i else mc_pg c i),
               mc_ki := (\<lambda>i. if i < ptop then mc_ki n i else if i = ptop then mc_ki n ptop - 1 else mc_ki c i)\<rparr>) w
         in if mc_ki n ptop \<noteq> 0 then Some w
            else map_option snd (mdb_cursor_sibling w mc False))
      else Some w)"

partial_function (option) mdb_page_split ::
  "world \<Rightarrow> nat \<Rightarrow> MDB_val \<Rightarrow> MDB_val option \<Rightarrow> u64 \<Rightarrow> u32 \<Rightarrow> (int \<times> MDB_val option \<times> world) option" where
  [code]: "mdb_page_split w mc newkey newdata newpgno nflags = do {
     let mp = cur_pg w mc;
     let newindx = cur_ki w mc;
     let nkeys = NUMKEYS (w_mem w) mp;
     (rc, rp, w) \<leftarrow> mdb_page_new w mc (mp_flags (w_mem w) mp) 1;
     if rc \<noteq> 0 then Some (rc, newdata, w)
     else do {
       let w = upd_mem (\<lambda>m. set_pad m rp (mp_pad m mp)) w;
       (rc, ptop, new_root, w) \<leftarrow> split_root w mc mp;
       if rc \<noteq> 0 then Some (rc, newdata, split_done mc 0 rc w)
       else do {
         let (mn, w) = local_copy mc w;
         let w = set_ki_at mn ptop (mc_ki (cur w mc) ptop + 1) (set_pg mn rp w);
         (rc, copy, split_indx, sepkey, w) \<leftarrow>
           (if nflags AND MDB_APPEND \<noteq> 0 then Some (0, 0, newindx, newkey, set_ki mn 0 w)
            else if IS_LEAF2 (w_mem w) rp then
              (let (sepkey, w) = split_leaf2 w mc mp rp newkey newindx nkeys ((nkeys + 1) div 2)
               in Some (0, 0, (nkeys + 1) div 2, sepkey, w))
            else split_nodes w mc mp newkey newdata newindx nkeys);
         if rc \<noteq> 0 then Some (rc, newdata, split_done mc copy rc w)
         else do {
           (rc, did_split, ptop, w) \<leftarrow>
             (if unat (SIZELEFT (w_mem w) (mc_pg (cur w mn) ptop)) < mdb_branch_size (Some sepkey) then do {
                let snum = mc_snum (cur w mc);
                let w = upd_cur mn (\<lambda>c. c\<lparr>mc_snum := mc_snum c - 1, mc_top := mc_top c - 1\<rparr>) w;
                w \<leftarrow> track_cursor mn w;
                (rc, _, w) \<leftarrow> mdb_page_split w mn sepkey None (mp_pgno (w_mem w) rp) 0;
                w \<leftarrow> untrack_cursor (mc_txn (cur w mn)) (mc_dbi (cur w mn)) w;
                if rc \<noteq> 0 then Some (rc, True, ptop, w)
                else do {
                  let ptop = (if mc_snum (cur w mc) > snum then ptop + 1 else ptop);
                  w \<leftarrow> split_reparent mc mn ptop w;
                  Some (0, True, ptop, w)
                }
              } else do {
                let w = upd_cur mn (\<lambda>c. c\<lparr>mc_top := mc_top c - 1\<rparr>) w;
                (rc, _, w) \<leftarrow> mdb_node_add w mn (mc_ki (cur w mn) ptop) (Some sepkey) None (mp_pgno (w_mem w) rp) 0;
                Some (rc, False, ptop, upd_cur mn (\<lambda>c. c\<lparr>mc_top := mc_top c + 1\<rparr>) w)
              });
           if rc \<noteq> 0 then Some (rc, newdata, split_done mc copy rc w)
           else do {
             (rc, newdata, w) \<leftarrow> split_place w mc mn mp rp copy ptop newindx nkeys split_indx newkey newdata newpgno nflags;
             if rc \<noteq> 0 then Some (rc, newdata, split_done mc copy rc w)
             else do {
               w \<leftarrow> for_cursors mc (split_fix mc mn mp rp ptop new_root did_split newindx (NUMKEYS (w_mem w) mp) nflags) w;
               Some (0, newdata, split_done mc copy 0 w)
             }
           }
         }
       }
     }
   }"

subsection \<open>Updating a separator\<close>

definition mdb_update_key :: "world \<Rightarrow> nat \<Rightarrow> MDB_val \<Rightarrow> (int \<times> world) option" where
  "mdb_update_key w mc key =
     (let mp = cur_pg w mc; indx = cur_ki w mc in
      case page_update_key (w_mem w) mp indx key of
        Some m \<Rightarrow> Some (MDB_SUCCESS, upd_mem (\<lambda>_. m) w)
      | None \<Rightarrow> do {
          let pgno = NODEPGNO (w_mem w) (NODEPTR (w_mem w) mp indx);
          w \<leftarrow> mdb_node_del w mc 0;
          (rc, _, w) \<leftarrow> mdb_page_split w mc key None pgno MDB_SPLIT_REPLACE;
          Some (rc, w)
        })"

subsection \<open>Moving a node to a sibling\<close>

text \<open>The lowest key below the page on top of the cursor.\<close>

definition lowest_key :: "world \<Rightarrow> nat \<Rightarrow> (int \<times> MDB_val \<times> world) option" where
  "lowest_key w mc = do {
     (rc, w) \<leftarrow> mdb_page_search_lowest no_touch w mc;
     Some (rc, item_key w mc (cur_pg w mc) 0, w)
   }"

definition set_depth :: "nat \<Rightarrow> nat \<Rightarrow> world \<Rightarrow> world" where
  "set_depth c snum w = upd_cur c (\<lambda>x. x\<lparr>mc_snum := snum, mc_top := snum - 1\<rparr>) w"

text \<open>The key, data, page number and flags of the node to move.\<close>

definition move_source :: "world \<Rightarrow> nat \<Rightarrow> (int \<times> MDB_val \<times> MDB_val \<times> u64 \<times> u16 \<times> world) option" where
  "move_source w csrc =
     (let mp = cur_pg w csrc; m = w_mem w in
      if IS_LEAF2 m mp then
        Some (0, leaf2_val mp (cur_ki w csrc) (unat (md_pad (get_db w csrc))), \<lparr>mv_size = 0, mv_data = Mem 0\<rparr>, 0, 0, w)
      else
        (let srcnode = NODEPTR m mp (cur_ki w csrc) in
         if odd srcnode then None
         else do {
           (rc, key, w) \<leftarrow>
             (if cur_ki w csrc = 0 \<and> IS_BRANCH m mp then do {
                let snum = mc_snum (cur w csrc);
                (rc, key, w) \<leftarrow> lowest_key w csrc;
                Some (rc, key, if rc = 0 then set_depth csrc snum w else w)
              } else Some (0, MDB_GET_KEY2 m srcnode, w));
           Some (rc, key, node_val w srcnode, NODEPGNO m srcnode, mn_flags m srcnode, w)
         }))"

text \<open>The first key of a branch page is empty: it is filled in before a node is put in front of it.\<close>

definition move_fill_key :: "world \<Rightarrow> nat \<Rightarrow> nat \<Rightarrow> (int \<times> world) option" where
  "move_fill_key w cdst mn =
     (if IS_BRANCH (w_mem w) (cur_pg w cdst) \<and> cur_ki w cdst = 0 then do {
        let snum = mc_snum (cur w cdst);
        let w = mdb_cursor_copy cdst mn w;
        (rc, bkey, w) \<leftarrow> lowest_key w mn;
        if rc \<noteq> 0 then Some (rc, w)
        else mdb_update_key (set_ki_at mn (snum - 1) 0 (set_depth mn snum w)) mn bkey
      } else Some (0, w))"

definition move_fix_left :: "nat \<Rightarrow> nat \<Rightarrow> nat \<Rightarrow> nat \<Rightarrow> world \<Rightarrow> world option" where
  "move_fix_left csrc cdst m2 m3 w =
     (let top = mc_top (cur w csrc); mps = cur_pg w csrc; mpd = mc_pg (cur w cdst) top in
      if mc_flags (cur w m3) AND C_INITIALIZED = 0 \<or> mc_top (cur w m3) < top then Some w
      else
        (let w = (if m3 \<noteq> cdst \<and> mc_pg (cur w m3) top = mpd \<and> mc_ki (cur w m3) top \<ge> mc_ki (cur w cdst) top then inc_ki m3 top w else w);
             w = (if m3 \<noteq> csrc \<and> mc_pg (cur w m3) top = mps \<and> mc_ki (cur w m3) top = mc_ki (cur w csrc) top then
                    inc_ki m3 (top - 1) (set_ki_at m3 top (cur_ki w cdst) (set_pg_at m3 top (cur_pg w cdst) w))
                  else w)
         in Some (if IS_LEAF (w_mem w) mps then fix_xcursor m3 top w else w)))"

definition move_fix_right :: "nat \<Rightarrow> nat \<Rightarrow> nat \<Rightarrow> nat \<Rightarrow> world \<Rightarrow> world option" where
  "move_fix_right csrc cdst m2 m3 w =
     (let top = mc_top (cur w csrc); mps = cur_pg w csrc in
      if m3 = csrc \<or> mc_flags (cur w m3) AND C_INITIALIZED = 0 \<or> mc_top (cur w m3) < top then Some w
      else if mc_pg (cur w m3) top = mps then
        (let w = (if mc_ki (cur w m3) top = 0 then
                    dec_ki m3 (top - 1) (set_ki_at m3 top (cur_ki w cdst) (set_pg_at m3 top (cur_pg w cdst) w))
                  else dec_ki m3 top w)
         in Some (if IS_LEAF (w_mem w) mps then fix_xcursor m3 top w else w))
      else Some w)"

text \<open>
  The separators above \<open>c\<close> after its first node has changed: the key in the parent becomes the first key of
  the page, and the first key of a branch page becomes empty. \<open>key_mc\<close> is the cursor whose page decides whether
  the keys have a fixed size, \<open>ksize\<close> that size.
\<close>

definition move_separator :: "world \<Rightarrow> nat \<Rightarrow> nat \<Rightarrow> nat \<Rightarrow> nat \<Rightarrow> (int \<times> world) option" where
  "move_separator w c key_mc mn ksize =
     (if cur_ki w c = 0 then do {
        (rc, w) \<leftarrow>
          (if mc_ki (cur w c) (mc_top (cur w c) - 1) \<noteq> 0 then do {
             let key = (if IS_LEAF2 (w_mem w) (cur_pg w key_mc) then leaf2_val (cur_pg w c) 0 ksize
                        else MDB_GET_KEY2 (w_mem w) (NODEPTR (w_mem w) (cur_pg w c) 0));
             let w = upd_cur mn (\<lambda>x. x\<lparr>mc_snum := mc_snum x - 1, mc_top := mc_top x - 1\<rparr>) (mdb_cursor_copy c mn w);
             w \<leftarrow> track_cursor mn w;
             (rc, w) \<leftarrow> mdb_update_key w mn key;
             w \<leftarrow> untrack_cursor (mc_txn (cur w mn)) (mc_dbi (cur w mn)) w;
             Some (rc, w)
           } else Some (0, w));
        if rc \<noteq> 0 then Some (rc, w)
        else if IS_BRANCH (w_mem w) (cur_pg w c) then do {
          let ix = cur_ki w c;
          (rc, w) \<leftarrow> mdb_update_key (set_ki c 0 w) c \<lparr>mv_size = 0, mv_data = Mem 0\<rparr>;
          let w = set_ki c ix w;
          if rc \<noteq> MDB_SUCCESS then None else Some (0, w)
        } else Some (0, w)
      } else Some (0, w))"

definition mdb_node_move :: "world \<Rightarrow> nat \<Rightarrow> nat \<Rightarrow> bool \<Rightarrow> (int \<times> world) option" where
  "mdb_node_move w csrc cdst fromleft = do {
     (rc, w) \<leftarrow> mdb_page_touch w csrc;
     (rc, w) \<leftarrow> (if rc = 0 then mdb_page_touch w cdst else Some (rc, w));
     if rc \<noteq> 0 then Some (rc, w)
     else do {
       (rc, key, data, srcpg, flags, w) \<leftarrow> move_source w csrc;
       if rc \<noteq> 0 then Some (rc, w)
       else do {
         let (mn, w) = new_cur w;
         let w = upd_cur mn (\<lambda>c. c\<lparr>mc_xcursor := None\<rparr>) w;
         (rc, w) \<leftarrow> move_fill_key w cdst mn;
         if rc \<noteq> 0 then Some (rc, w)
         else do {
           (rc, _, w) \<leftarrow> mdb_node_add w cdst (cur_ki w cdst) (Some key) (Some data) srcpg (ucast flags);
           if rc \<noteq> MDB_SUCCESS then Some (rc, w)
           else do {
             w \<leftarrow> mdb_node_del w csrc (mv_size key);
             w \<leftarrow> for_cursors csrc (if fromleft then move_fix_left csrc cdst else move_fix_right csrc cdst) w;
             (rc, w) \<leftarrow> move_separator w csrc csrc mn (mv_size key);
             if rc \<noteq> 0 then Some (rc, w)
             else move_separator w cdst csrc mn (mv_size key)
           }
         }
       }
     }
   }"

subsection \<open>Merging pages and rebalancing\<close>

text \<open>The nodes \<open>i\<close>, ... of \<open>psrc\<close> are appended to the page of \<open>cdst\<close> from index \<open>j\<close> on; \<open>k\<close> nodes are left.\<close>

fun merge_nodes :: "world \<Rightarrow> nat \<Rightarrow> nat \<Rightarrow> addr \<Rightarrow> nat \<Rightarrow> nat \<Rightarrow> nat \<Rightarrow> (int \<times> world) option" where
  "merge_nodes w csrc cdst psrc i j 0 = Some (MDB_SUCCESS, w)"
| "merge_nodes w csrc cdst psrc i j (Suc k) = do {
     let m = w_mem w;
     (rc, key, w) \<leftarrow>
       (if \<not> IS_LEAF2 m psrc \<and> i = 0 \<and> IS_BRANCH m psrc then
          (let (mn, w) = local_copy csrc w in lowest_key w mn)
        else Some (0, item_key w csrc psrc i, w));
     if rc \<noteq> 0 then Some (rc, w)
     else do {
       let srcnode = NODEPTR m psrc i;
       (rc, _, w) \<leftarrow> (if IS_LEAF2 m psrc then mdb_node_add w cdst j (Some key) None 0 0
                      else mdb_node_add w cdst j (Some key) (Some (node_val w srcnode)) (NODEPGNO m srcnode) (ucast (mn_flags m srcnode)));
       if rc \<noteq> MDB_SUCCESS then Some (rc, w)
       else merge_nodes w csrc cdst psrc (i + 1) (j + 1) k
     }
   }"

definition merge_fix :: "nat \<Rightarrow> nat \<Rightarrow> addr \<Rightarrow> addr \<Rightarrow> nat \<Rightarrow> nat \<Rightarrow> nat \<Rightarrow> world \<Rightarrow> world option" where
  "merge_fix csrc cdst psrc pdst nkeys m2 m3 w =
     (let top = mc_top (cur w csrc) in
      if m3 = csrc \<or> mc_snum (cur w m3) < mc_snum (cur w csrc) then Some w
      else
        (let w = (if mc_pg (cur w m3) top = psrc then
               set_ki_at m3 (top - 1) (mc_ki (cur w cdst) (top - 1)) (set_ki_at m3 top (mc_ki (cur w m3) top + nkeys) (set_pg_at m3 top pdst w))
             else if mc_pg (cur w m3) (top - 1) = mc_pg (cur w csrc) (top - 1) \<and> mc_ki (cur w m3) (top - 1) > mc_ki (cur w csrc) (top - 1)
             then dec_ki m3 (top - 1) w
             else w)
         in Some (if IS_LEAF (w_mem w) psrc then fix_xcursor m3 top w else w)))"

text \<open>Unlinking the page of \<open>csrc\<close> from its parent.\<close>

definition merge_unlink :: "world \<Rightarrow> nat \<Rightarrow> (int \<times> world) option" where
  "merge_unlink w csrc = do {
     let w = upd_cur csrc (\<lambda>c. c\<lparr>mc_top := mc_top c - 1\<rparr>) w;
     w \<leftarrow> mdb_node_del w csrc 0;
     (rc, w) \<leftarrow> (if cur_ki w csrc = 0 then mdb_update_key w csrc \<lparr>mv_size = 0, mv_data = Mem 0\<rparr> else Some (0, w));
     Some (rc, upd_cur csrc (\<lambda>c. c\<lparr>mc_top := mc_top c + 1\<rparr>) w)
   }"

text \<open>\<open>mdb_page_merge\<close> without its last block, which rebalances the parent and is part of \<open>mdb_rebalance\<close> below.\<close>

definition page_merge_nodes :: "world \<Rightarrow> nat \<Rightarrow> nat \<Rightarrow> (int \<times> world) option" where
  "page_merge_nodes w csrc cdst =
     (if \<not> (mc_snum (cur w csrc) > 1 \<and> mc_snum (cur w cdst) > 1) then None
      else do {
        let psrc = cur_pg w csrc;
        (rc, w) \<leftarrow> mdb_page_touch w cdst;
        if rc \<noteq> 0 then Some (rc, w)
        else do {
          let pdst = cur_pg w cdst;
          let nkeys = NUMKEYS (w_mem w) pdst;
          (rc, w) \<leftarrow> merge_nodes w csrc cdst psrc 0 nkeys (NUMKEYS (w_mem w) psrc);
          if rc \<noteq> 0 then Some (rc, w)
          else do {
            (rc, w) \<leftarrow> merge_unlink w csrc;
            if rc \<noteq> 0 then Some (rc, w)
            else do {
              let psrc = cur_pg w csrc;
              (rc, w) \<leftarrow> mdb_page_loose w csrc psrc;
              if rc \<noteq> 0 then Some (rc, w)
              else do {
                let w = (if IS_LEAF (w_mem w) psrc then upd_db csrc (\<lambda>d. d\<lparr>md_leaf_pages := md_leaf_pages d - 1\<rparr>) w
                         else upd_db csrc (\<lambda>d. d\<lparr>md_branch_pages := md_branch_pages d - 1\<rparr>) w);
                w \<leftarrow> for_cursors csrc (merge_fix csrc cdst psrc pdst nkeys) w;
                Some (MDB_SUCCESS, w)
              }
            }
          }
        }
      })"

definition root_gone_fix :: "nat \<Rightarrow> addr \<Rightarrow> nat \<Rightarrow> nat \<Rightarrow> world \<Rightarrow> world option" where
  "root_gone_fix mc mp m2 m3 w =
     Some (if mc_flags (cur w m3) AND C_INITIALIZED = 0 \<or> mc_snum (cur w m3) < mc_snum (cur w mc) then w
           else if mc_pg (cur w m3) 0 = mp then
             cur_clear m3 C_INITIALIZED (upd_cur m3 (\<lambda>c. c\<lparr>mc_snum := 0, mc_top := 0\<rparr>) w)
           else w)"

definition collapse_fix :: "nat \<Rightarrow> addr \<Rightarrow> nat \<Rightarrow> nat \<Rightarrow> world \<Rightarrow> world option" where
  "collapse_fix mc mp m2 m3 w =
     Some (if m3 = mc \<or> mc_flags (cur w m3) AND C_INITIALIZED = 0 then w
           else if mc_pg (cur w m3) 0 = mp then
             (let n = unat (md_depth (get_db w mc)) in
              upd_cur m3 (\<lambda>c. c\<lparr>mc_pg := (\<lambda>i. if i < n then mc_pg c (i + 1) else mc_pg c i),
                               mc_ki := (\<lambda>i. if i < n then mc_ki c (i + 1) else mc_ki c i),
                               mc_snum := mc_snum c - 1, mc_top := mc_top c - 1\<rparr>) w)
           else w)"

text \<open>The root page of a tree: an empty tree, or a root with one child, which becomes the root.\<close>

definition rebalance_root :: "world \<Rightarrow> nat \<Rightarrow> (int \<times> world) option" where
  "rebalance_root w mc =
     (let mp = mc_pg (cur w mc) 0; t = mc_txn (cur w mc) in
      if IS_SUBP (w_mem w) mp then Some (MDB_SUCCESS, w)
      else if NUMKEYS (w_mem w) mp = 0 then do {
        let w = upd_db mc (\<lambda>d. d\<lparr>md_root := P_INVALID, md_depth := 0, md_leaf_pages := 0\<rparr>) w;
        (rc, w) \<leftarrow> free_pgs_append w t (mp_pgno (w_mem w) mp);
        if rc \<noteq> 0 then Some (rc, w)
        else do {
          let w = cur_clear mc C_INITIALIZED (upd_cur mc (\<lambda>c. c\<lparr>mc_snum := 0, mc_top := 0\<rparr>) w);
          w \<leftarrow> for_cursors mc (root_gone_fix mc mp) w;
          Some (MDB_SUCCESS, w)
        }
      }
      else if IS_BRANCH (w_mem w) mp \<and> NUMKEYS (w_mem w) mp = 1 then do {
        (rc, w) \<leftarrow> free_pgs_append w t (mp_pgno (w_mem w) mp);
        if rc \<noteq> 0 then Some (rc, w)
        else do {
          let root = NODEPGNO (w_mem w) (NODEPTR (w_mem w) mp 0);
          let w = upd_db mc (\<lambda>d. d\<lparr>md_root := root\<rparr>) w;
          (rc, p, _, w) \<leftarrow> mdb_page_get w t root;
          if rc \<noteq> 0 then Some (rc, w)
          else do {
            let w = upd_db mc (\<lambda>d. d\<lparr>md_depth := md_depth d - 1, md_branch_pages := md_branch_pages d - 1\<rparr>) w;
            let n = unat (md_depth (get_db w mc));
            let w = upd_cur mc (\<lambda>c. c\<lparr>mc_pg := (\<lambda>i. if i = 0 then p else if i < n then mc_pg c (i + 1) else mc_pg c i),
                                     mc_ki := (\<lambda>i. if i = 0 then mc_ki c 1 else if i < n then mc_ki c (i + 1) else mc_ki c i)\<rparr>) w;
            w \<leftarrow> for_cursors mc (collapse_fix mc mp) w;
            Some (MDB_SUCCESS, w)
          }
        }
      }
      else Some (MDB_SUCCESS, w))"

text \<open>The neighbour of the page of \<open>mc\<close>: \<open>mn\<close> is set to it, and \<open>mc\<close> to the place the nodes go to.\<close>

definition find_neighbor :: "world \<Rightarrow> nat \<Rightarrow> nat \<Rightarrow> (int \<times> bool \<times> world) option" where
  "find_neighbor w mc mn = do {
     let ptop = mc_top (cur w mc) - 1;
     let fromleft = (mc_ki (cur w mc) ptop \<noteq> 0);
     let w = (if fromleft then dec_ki mn ptop w else inc_ki mn ptop w);
     let node = NODEPTR (w_mem w) (mc_pg (cur w mc) ptop) (mc_ki (cur w mn) ptop);
     (rc, p, _, w) \<leftarrow> mdb_page_get w (mc_txn (cur w mc)) (NODEPGNO (w_mem w) node);
     if rc \<noteq> 0 then Some (rc, fromleft, w)
     else do {
       let w = set_pg mn p w;
       Some (0, fromleft,
         if fromleft then set_ki mc 0 (set_ki mn (NUMKEYS_pred (w_mem w) p) w)
         else set_ki mc (NUMKEYS (w_mem w) (cur_pg w mc)) (set_ki mn 0 w))
     }
   }"

definition page_fill :: "world \<Rightarrow> addr \<Rightarrow> int" where
  "page_fill w mp = PAGEFILL (me_psize (w_env w)) (w_mem w) mp"

partial_function (option) mdb_rebalance :: "world \<Rightarrow> nat \<Rightarrow> (int \<times> world) option" where
  [code]: "mdb_rebalance w mc = do {
     let branch = IS_BRANCH (w_mem w) (cur_pg w mc);
     let minkeys = (if branch then 2 else 1);
     let thresh = (if branch then 1 else FILL_THRESHOLD);
     if page_fill w (cur_pg w mc) \<ge> thresh \<and> NUMKEYS (w_mem w) (cur_pg w mc) \<ge> minkeys then Some (MDB_SUCCESS, w)
     else if mc_snum (cur w mc) < 2 then rebalance_root w mc
     else if \<not> NUMKEYS (w_mem w) (mc_pg (cur w mc) (mc_top (cur w mc) - 1)) > 1 then None
     else do {
       let (mn, w) = local_copy mc w;
       let oldki = cur_ki w mc;
       (rc, fromleft, w) \<leftarrow> find_neighbor w mc mn;
       if rc \<noteq> 0 then Some (rc, w)
       else if page_fill w (cur_pg w mn) \<ge> thresh \<and> NUMKEYS (w_mem w) (cur_pg w mn) > minkeys then do {
         (rc, w) \<leftarrow> mdb_node_move w mn mc fromleft;
         Some (rc, set_ki mc (if fromleft then oldki + 1 else oldki) w)
       }
       else do {
         let csrc = (if fromleft then mc else mn);
         let cdst = (if fromleft then mn else mc);
         let oldki = (if fromleft then oldki + NUMKEYS (w_mem w) (cur_pg w mn) else oldki);
         w \<leftarrow> (if fromleft then track_cursor mn (set_ki mn (cur_ki w mn + mc_ki (cur w mc) (mc_top (cur w mn)) + 1) w) else Some w);
         (rc, w) \<leftarrow> page_merge_nodes w csrc cdst;
         (rc, w) \<leftarrow>
           (if rc \<noteq> 0 then Some (rc, w)
            else do {
              let snum = mc_snum (cur w cdst);
              let depth = md_depth (get_db w cdst);
              (rc, w) \<leftarrow> mdb_rebalance (mdb_cursor_pop cdst w) cdst;
              let snum = nat (int snum + (int (unat (md_depth (get_db w cdst))) - int (unat depth)));
              Some (rc, set_depth cdst snum w)
            });
         w \<leftarrow> (if fromleft then map_option (mdb_cursor_copy mn mc) (untrack_cursor (mc_txn (cur w mn)) (mc_dbi (cur w mn)) w)
               else Some w);
         Some (rc, set_ki mc oldki (cur_clear mc C_EOF w))
       }
     }
   }"

subsection \<open>Completing a delete\<close>

definition del_fix :: "nat \<Rightarrow> addr \<Rightarrow> nat \<Rightarrow> nat \<Rightarrow> nat \<Rightarrow> world \<Rightarrow> world option" where
  "del_fix mc mp ki m2 m3 w =
     (let top = mc_top (cur w mc) in
      if mc_flags (cur w m2) AND mc_flags (cur w m3) AND C_INITIALIZED = 0 \<or> m3 = mc \<or> mc_snum (cur w m3) < mc_snum (cur w mc) then Some w
      else if mc_pg (cur w m3) top = mp then do {
        w \<leftarrow> (if mc_ki (cur w m3) top = ki then
                (let w = cur_or m3 C_DEL w in
                 if md_flags (get_db w mc) AND MDB_DUPSORT \<noteq> 0
                 then map_option (\<lambda>mx. cur_clear mx C_INITIALIZED w) (mc_xcursor (cur w m3))
                 else Some w)
              else if mc_ki (cur w m3) top > ki then Some (dec_ki m3 top w)
              else Some w);
        Some (fix_xcursor m3 top w)
      }
      else Some w)"

text \<open>The second loop stops at the first error other than \<open>MDB_NOTFOUND\<close>; the code is kept next to the world.\<close>

fun del_siblings :: "nat \<Rightarrow> addr \<Rightarrow> nat \<Rightarrow> bool \<Rightarrow> nat list \<Rightarrow> world \<Rightarrow> (int \<times> world) option" where
  "del_siblings mc mp nkeys sub [] w = Some (MDB_SUCCESS, w)"
| "del_siblings mc mp nkeys sub (m2 # ms) w = do {
     m3 \<leftarrow> (if sub then mc_xcursor (cur w m2) else Some m2);
     let top = mc_top (cur w mc);
     (rc, w) \<leftarrow>
       (if mc_flags (cur w m2) AND mc_flags (cur w m3) AND C_INITIALIZED = 0 \<or> mc_snum (cur w m3) < mc_snum (cur w mc) then Some (MDB_SUCCESS, w)
        else if mc_pg (cur w m3) top = mp \<and> mc_ki (cur w m3) top \<ge> nkeys then do {
          (rc, w) \<leftarrow> mdb_cursor_sibling w m3 True;
          Some (if rc = MDB_NOTFOUND then (MDB_SUCCESS, cur_or m3 C_EOF w) else (rc, w))
        }
        else Some (MDB_SUCCESS, w));
     if rc \<noteq> 0 then Some (rc, w) else del_siblings mc mp nkeys sub ms w
   }"

definition mdb_cursor_del0 :: "world \<Rightarrow> nat \<Rightarrow> (int \<times> world) option" where
  "mdb_cursor_del0 w mc = do {
     let ki = cur_ki w mc;
     let mp = cur_pg w mc;
     w \<leftarrow> mdb_node_del w mc (unat (md_pad (get_db w mc)));
     let w = upd_db mc (\<lambda>d. d\<lparr>md_entries := md_entries d - 1\<rparr>) w;
     w \<leftarrow> for_cursors mc (del_fix mc mp ki) w;
     (rc, w) \<leftarrow> mdb_rebalance w mc;
     if rc = MDB_SUCCESS \<and> mc_snum (cur w mc) = 0 then Some (rc, w)
     else do {
       (rc, w) \<leftarrow>
         (if rc = MDB_SUCCESS then do {
            let mp = cur_pg w mc;
            cs \<leftarrow> mt_cursors (txn w (mc_txn (cur w mc)));
            (rc, w) \<leftarrow> del_siblings mc mp (NUMKEYS (w_mem w) mp) (mc_flags (cur w mc) AND C_SUB \<noteq> 0) (cs (mc_dbi (cur w mc))) w;
            Some (rc, cur_or mc C_DEL w)
          } else Some (rc, w));
       Some (rc, if rc \<noteq> 0 then txn_or (mc_txn (cur w mc)) MDB_TXN_ERROR w else w)
     }
   }"

end
