(* ===== verification/Put.thy ===== *)
theory Put
  imports Btree
begin

section \<open>Storing items (mdb.c)\<close>

text \<open>
  \<open>mdb_cursor_put\<close> and \<open>mdb_put\<close>. The locals of \<open>mdb_cursor_put\<close> that live across its labels are the record
  \<open>put_state\<close>; each stretch of code between labels is one definition, and \<open>put_next\<close> says where it goes. For
  \<open>MDB_MULTIPLE\<close> the second element of \<open>data\<close> is its size field, the count of items.
\<close>

abbreviation (input) MDB_NOSPILL :: "'a::len word" where "MDB_NOSPILL \<equiv> 0x8000"
abbreviation (input) MDB_NO_ROOT :: int where "MDB_NO_ROOT \<equiv> - 30770"

subsection \<open>Making the path writable\<close>

text \<open>\<open>do rc = mdb_page_touch(mc); while (!rc && ++(mc->mc_top) < mc->mc_snum);\<close> with \<open>k\<close> levels left.\<close>

fun touch_path :: "world \<Rightarrow> nat \<Rightarrow> nat \<Rightarrow> (int \<times> world) option" where
  "touch_path w mc 0 = Some (0, w)"
| "touch_path w mc (Suc k) = do {
     (rc, w) \<leftarrow> mdb_page_touch w mc;
     if rc \<noteq> 0 then Some (rc, w)
     else touch_path (upd_cur mc (\<lambda>c. c\<lparr>mc_top := mc_top c + 1\<rparr>) w) mc k
   }"

definition mdb_cursor_touch :: "world \<Rightarrow> nat \<Rightarrow> (int \<times> world) option" where
  "mdb_cursor_touch w mc = do {
     (rc, w) \<leftarrow>
       (if mc_dbi (cur w mc) \<ge> CORE_DBS \<and> get_dbflag w mc AND DB_DIRTY = 0 then
          (if TXN_DBI_CHANGED w (mc_txn (cur w mc)) (mc_dbi (cur w mc)) then Some (MDB_BAD_DBI, w)
           else do {
             let name = md_name (get_dbx w mc);
             let (mc2, w) = new_cur w;
             let (mcx, w) = new_cur w;
             w \<leftarrow> cursor_init_gen mdb_page_touch mc2 (mc_txn (cur w mc)) MAIN_DBI (Some mcx) w;
             (rc, w) \<leftarrow> mdb_page_search w mc2 (Some \<lparr>mv_size = length name, mv_data = Obj name\<rparr>) MDB_PS_MODIFY;
             Some (rc, if rc = 0 then upd_dbflag mc (\<lambda>f. f OR DB_DIRTY) w else w)
           })
        else Some (0, w));
     if rc \<noteq> 0 then Some (rc, w)
     else do {
       let w = upd_cur mc (\<lambda>c. c\<lparr>mc_top := 0\<rparr>) w;
       let n = mc_snum (cur w mc);
       if n = 0 then Some (MDB_SUCCESS, w)
       else do {
         (rc, w) \<leftarrow> touch_path w mc n;
         Some (rc, upd_cur mc (\<lambda>c. c\<lparr>mc_top := mc_snum c - 1\<rparr>) w)
       }
     }
   }"

subsection \<open>Finding the place\<close>

record put_state =
  ps_flags :: u32
  ps_insert_key :: bool
  ps_do_sub :: bool
  ps_sub_root :: addr
  ps_dkey :: MDB_val
  ps_dcount :: nat
  ps_mcount :: nat

datatype put_next = Put_return int | Put_node bool MDB_val | Put_sub

text \<open>\<open>Put_node b rdata\<close> goes to \<open>new_sub\<close> with \<open>rdata\<close>, which is the caller's \<open>data\<close> if \<open>b\<close>.\<close>

definition no_val :: MDB_val where
  "no_val = \<lparr>mv_size = 0, mv_data = Obj []\<rparr>"

text \<open>Positioning the cursor: the flag says that the call returns with the code.\<close>

definition put_position :: "world \<Rightarrow> nat \<Rightarrow> MDB_val \<Rightarrow> MDB_val \<Rightarrow> u32 \<Rightarrow> (bool \<times> int \<times> MDB_val \<times> world) option" where
  "put_position w mc key data flags =
     (if flags = MDB_CURRENT then
        Some (if mc_flags (cur w mc) AND C_INITIALIZED = 0 then (True, EINVAL, data, w) else (False, MDB_SUCCESS, data, w))
      else if md_root (get_db w mc) = P_INVALID then
        Some (False, MDB_NO_ROOT, data, cur_clear mc C_INITIALIZED (upd_cur mc (\<lambda>c. c\<lparr>mc_snum := 0, mc_top := 0\<rparr>) w))
      else do {
        (rc, d2, w) \<leftarrow>
          (if flags AND MDB_APPEND \<noteq> 0 then do {
             (rc, k2, d2, w) \<leftarrow> mdb_cursor_last w mc (Some no_val) (Some no_val);
             if rc \<noteq> 0 then Some (rc, d2, w)
             else do {
               k \<leftarrow> k2;
               cmp \<leftarrow> md_cmp (get_dbx w mc);
               r \<leftarrow> call_cmp cmp (val_bytes (w_mem w) key) (val_bytes (w_mem w) k);
               Some (if r > 0 then (MDB_NOTFOUND, d2, set_ki mc (cur_ki w mc + 1) w) else (MDB_KEYEXIST, d2, w))
             }
           } else do {
             (rc, _, d2, w) \<leftarrow> mdb_cursor_set w mc (Some key) (Some no_val) MDB_SET True;
             Some (rc, d2, w)
           });
        if flags AND MDB_NOOVERWRITE \<noteq> 0 \<and> rc = 0 then Some (True, MDB_KEYEXIST, (case d2 of None \<Rightarrow> data | Some d \<Rightarrow> d), w)
        else Some (rc \<noteq> 0 \<and> rc \<noteq> MDB_NOTFOUND, rc, data, w)
      })"

text \<open>A new tree: its root leaf.\<close>

definition put_new_root :: "world \<Rightarrow> nat \<Rightarrow> (int \<times> world) option" where
  "put_new_root w mc = do {
     (rc, np, w) \<leftarrow> mdb_page_new w mc P_LEAF 1;
     if rc \<noteq> 0 then Some (rc, w)
     else do {
       let (_, w) = mdb_cursor_push w mc np;
       let w = upd_db mc (\<lambda>d. d\<lparr>md_root := mp_pgno (w_mem w) np, md_depth := md_depth d + 1\<rparr>) w;
       let w = upd_dbflag mc (\<lambda>f. f OR DB_DIRTY) w;
       let w = (if md_flags (get_db w mc) AND (MDB_DUPSORT OR MDB_DUPFIXED) = MDB_DUPFIXED
                then upd_flags (\<lambda>f. f OR P_LEAF2) np w else w);
       Some (0, cur_or mc C_INITIALIZED w)
     }
   }"

subsection \<open>Sub-pages and sub-databases\<close>

text \<open>Copying a sub-page \<open>fp\<close> of \<open>oldsize\<close> bytes into the larger page \<open>mp\<close>.\<close>

fun grow_ptrs :: "mem \<Rightarrow> addr \<Rightarrow> addr \<Rightarrow> u16 \<Rightarrow> nat \<Rightarrow> nat \<Rightarrow> mem" where
  "grow_ptrs m mp fp offset i 0 = m"
| "grow_ptrs m mp fp offset i (Suc k) = grow_ptrs (set_ptr m mp i (mp_ptrs m fp i + offset)) mp fp offset (i + 1) k"

definition copy_subpage :: "addr \<Rightarrow> addr \<Rightarrow> u16 \<Rightarrow> nat \<Rightarrow> nat \<Rightarrow> mem \<Rightarrow> mem" where
  "copy_subpage mp fp fp_flags offset oldsize m =
     (let m = set_flags m mp (fp_flags OR P_DIRTY);
          m = set_pad m mp (mp_pad m fp);
          m = set_lower m mp (mp_lower m fp);
          m = set_upper m mp (mp_upper m fp + of_nat offset)
      in if fp_flags AND P_LEAF2 \<noteq> 0 then memmove m (METADATA mp) (METADATA fp) (NUMKEYS m fp * unat (mp_pad m fp))
         else
           (let m = memmove m (mp + unat (mp_upper m mp)) (fp + unat (mp_upper m fp)) (oldsize - unat (mp_upper m fp))
            in grow_ptrs m mp fp (of_nat offset) 0 (NUMKEYS m fp)))"

text \<open>From \<open>rdata = &xdata\<close> to \<open>goto new_sub\<close>.\<close>

definition put_convert :: "world \<Rightarrow> nat \<Rightarrow> MDB_val \<Rightarrow> put_state \<Rightarrow> (put_next \<times> put_state \<times> world) option" where
  "put_convert w mc xdata s = do {
     w \<leftarrow> (if \<not> ps_insert_key s then mdb_node_del w mc 0 else Some w);
     Some (Put_node False xdata, s\<lparr>ps_flags := ps_flags s OR F_DUPDATA, ps_do_sub := True\<rparr>, w)
   }"

definition prep_subDB :: "world \<Rightarrow> nat \<Rightarrow> addr \<Rightarrow> u16 \<Rightarrow> nat \<Rightarrow> put_state \<Rightarrow> (put_next \<times> put_state \<times> world) option" where
  "prep_subDB w mc fp fp_flags oldsize s = do {
     let dbf = md_flags (get_db w mc);
     let fixed = (dbf AND MDB_DUPFIXED \<noteq> 0);
     let fp_flags = (if fixed then fp_flags OR P_LEAF2 else fp_flags);
     let dummy = \<lparr>md_pad = (if fixed then ucast (mp_pad (w_mem w) fp) else 0),
                  md_flags = (if fixed then (if dbf AND MDB_INTEGERDUP \<noteq> 0 then MDB_DUPFIXED OR MDB_INTEGERKEY else MDB_DUPFIXED) else 0),
                  md_depth = 1, md_branch_pages = 0, md_leaf_pages = 1, md_overflow_pages = 0,
                  md_entries = of_nat (NUMKEYS (w_mem w) fp), md_root = 0\<rparr>;
     (rc, mp, w) \<leftarrow> mdb_page_alloc w mc 1;
     if rc \<noteq> 0 then Some (Put_return rc, s, w)
     else do {
       let dummy = dummy\<lparr>md_root := mp_pgno (w_mem w) mp\<rparr>;
       let w = upd_mem (copy_subpage mp fp fp_flags (me_psize (w_env w) - oldsize) oldsize) w;
       put_convert w mc \<lparr>mv_size = 48, mv_data = Obj (db_bytes dummy)\<rparr>
         (s\<lparr>ps_flags := ps_flags s OR F_DUPDATA OR F_SUBDATA, ps_sub_root := mp\<rparr>)
     }
   }"

definition data_cmp :: "world \<Rightarrow> nat \<Rightarrow> nat \<Rightarrow> bytes \<Rightarrow> bytes \<Rightarrow> int option" where
  "data_cmp w mc oldsize a b = do {
     let dcmp = md_dcmp (get_dbx w mc);
     dcmp \<leftarrow> (if is_cmp_int dcmp \<and> oldsize = 8 then Some Cmp_long else dcmp);
     call_cmp dcmp a b
   }"

text \<open>The single item of a key is converted: its data goes to the page buffer, with the header of a sub-page in front.\<close>

definition fake_subpage :: "world \<Rightarrow> nat \<Rightarrow> addr \<Rightarrow> nat \<Rightarrow> nat \<Rightarrow> nat \<times> world" where
  "fake_subpage w mc olddata oldsize dsize =
     (let fp = me_pbuf (w_env w);
          fixed = (md_flags (get_db w mc) AND MDB_DUPFIXED \<noteq> 0);
          w = upd_mem (\<lambda>m. memmove m (fp + 24) olddata oldsize) w;
          w = upd_mem (\<lambda>m. set_lower (set_flags m fp (P_LEAF OR P_DIRTY OR P_SUBP)) fp 16) w;
          xsize = PAGEHDRSZ + oldsize + dsize;
          (xsize, w) = (if fixed then (xsize + 2 * dsize, upd_mem (\<lambda>m. set_pad (set_flags m fp (mp_flags m fp OR P_LEAF2)) fp (of_nat dsize)) w)
                        else (xsize + 2 * (2 + NODESIZE) + oldsize mod 2 + dsize mod 2, w))
      in (xsize, upd_mem (\<lambda>m. set_upper m fp (of_nat xsize)) w))"

text \<open>
  The sub-page \<open>fp\<close>, or the header faking one, gets room for the new item: as a larger sub-page in the page
  buffer, or as a sub-database if it does not fit in the node.
\<close>

definition put_fit :: "world \<Rightarrow> nat \<Rightarrow> addr \<Rightarrow> addr \<Rightarrow> nat \<Rightarrow> nat \<Rightarrow> nat \<Rightarrow> put_state \<Rightarrow> (put_next \<times> put_state \<times> world) option" where
  "put_fit w mc leaf fp offset oldsize xsize s =
     (let fp_flags = mp_flags (w_mem w) fp; mp = me_pbuf (w_env w) in
      if NODESIZE + NODEKSZ (w_mem w) leaf + xsize > me_nodemax (w_env w) then
        prep_subDB w mc fp (fp_flags AND NOT P_SUBP) oldsize s
      else
        (let w = (if mp \<noteq> fp then upd_mem (copy_subpage mp fp fp_flags offset oldsize) w else w)
         in put_convert w mc \<lparr>mv_size = xsize, mv_data = Mem mp\<rparr> s))"

subsection \<open>Replacing an item\<close>

fun parent_level :: "(nat \<Rightarrow> nat) \<Rightarrow> nat \<Rightarrow> nat" where
  "parent_level ki 0 = 0"
| "parent_level ki (Suc n) = (if ki (Suc n) = 0 then parent_level ki n else Suc n)"

text \<open>The label \<open>fix_parent\<close>: the separator above an overwritten first key.\<close>

definition put_fix_parent :: "world \<Rightarrow> nat \<Rightarrow> MDB_val \<Rightarrow> (int \<times> world) option" where
  "put_fix_parent w mc key =
     (let top = mc_top (cur w mc) in
      if top \<noteq> 0 \<and> cur_ki w mc = 0 then do {
        let l = parent_level (mc_ki (cur w mc)) (top - 1);
        let w = upd_cur mc (\<lambda>c. c\<lparr>mc_top := l\<rparr>) w;
        (rc, w) \<leftarrow> (if cur_ki w mc \<noteq> 0 then mdb_update_key w mc key else Some (MDB_SUCCESS, w));
        Some (rc, upd_cur mc (\<lambda>c. c\<lparr>mc_top := mc_top c + (top - l)\<rparr>) w)
      } else Some (MDB_SUCCESS, w))"

text \<open>An overflow page that is writable only in a parent transaction is copied.\<close>

definition ov_copy :: "world \<Rightarrow> nat \<Rightarrow> addr \<Rightarrow> u64 \<Rightarrow> nat \<Rightarrow> nat \<Rightarrow> bool \<Rightarrow> (int \<times> addr \<times> world) option" where
  "ov_copy w t omp pg ovpages dsize reserve = do {
     let (np, w) = mdb_page_malloc w t ovpages;
     if np = 0 then Some (ENOMEM, 0, w)
     else do {
       (rc, dl) \<leftarrow> mdb_mid2l_insert (mt_dirty_list (txn w t)) \<lparr>mid = pg, mptr = np\<rparr>;
       if rc \<noteq> 0 then None
       else do {
         let sz = me_psize (w_env w) * ovpages;
         let off = (PAGEHDRSZ + dsize) div 8 * 8;
         let w = set_dirty t dl w;
         let w = (if reserve then upd_mem (\<lambda>m. memmove m np omp sz) w
                  else upd_mem (\<lambda>m. memmove (memmove m (np + off) (omp + off) (sz - off)) np omp PAGEHDRSZ) w);
         Some (0, np, w)
       }
     }
   }"

text \<open>Overwriting data on overflow pages: None in the code says that the node is deleted and added again.\<close>

definition put_overflow :: "world \<Rightarrow> nat \<Rightarrow> addr \<Rightarrow> MDB_val \<Rightarrow> u32 \<Rightarrow> (int option \<times> MDB_val \<times> world) option" where
  "put_overflow w mc leaf data flags = do {
     let t = mc_txn (cur w mc);
     let pg = rd64 (w_mem w) (NODEDATA (w_mem w) leaf);
     let dpages = OVPAGES (mv_size data) (me_psize (w_env w));
     (rc, omp, level, w) \<leftarrow> mdb_page_get w t pg;
     if rc \<noteq> 0 then Some (Some rc, data, w)
     else do {
       let ovpages = unat (mp_pages (w_mem w) omp);
       (rc, omp, level, w) \<leftarrow>
         (if ovpages \<ge> dpages \<and> mp_flags (w_mem w) omp AND P_DIRTY = 0 \<and> (level \<noteq> 0 \<or> me_flags (w_env w) AND MDB_WRITEMAP \<noteq> 0) then do {
            (rc, np, w) \<leftarrow> mdb_page_unspill w t omp;
            Some (rc, if np \<noteq> 0 then np else omp, 0, w)
          } else Some (0, omp, level, w));
       if rc \<noteq> 0 then Some (Some rc, data, w)
       else if ovpages \<ge> dpages \<and> mp_flags (w_mem w) omp AND P_DIRTY \<noteq> 0 then do {
         (rc, omp, w) \<leftarrow> (if level > 1 then ov_copy w t omp pg ovpages (mv_size data) (flags AND MDB_RESERVE \<noteq> 0) else Some (0, omp, w));
         if rc \<noteq> 0 then Some (Some rc, data, w)
         else do {
           let w = upd_mem (\<lambda>m. SETDSZ m leaf (mv_size data)) w;
           if F_ISSET flags MDB_RESERVE then Some (Some MDB_SUCCESS, data\<lparr>mv_data := Mem (METADATA omp)\<rparr>, w)
           else Some (Some MDB_SUCCESS, data, upd_mem (\<lambda>m. mem_write m (METADATA omp) (val_bytes m data)) w)
         }
       }
       else do {
         (rc, w) \<leftarrow> mdb_ovpage_free w mc omp;
         Some (if rc \<noteq> MDB_SUCCESS then Some rc else None, data, w)
       }
     }
   }"

text \<open>The label \<open>current\<close>.\<close>

definition put_current :: "world \<Rightarrow> nat \<Rightarrow> MDB_val \<Rightarrow> MDB_val \<Rightarrow> addr \<Rightarrow> put_state \<Rightarrow> (put_next \<times> put_state \<times> MDB_val \<times> world) option" where
  "put_current w mc key data leaf s =
     (let m = w_mem w; flags = ps_flags s in
      if (ucast (mn_flags m leaf) XOR flags) AND F_SUBDATA \<noteq> 0 then Some (Put_return MDB_INCOMPATIBLE, s, data, w)
      else if F_ISSET (mn_flags m leaf) F_BIGDATA then do {
        (r, data, w) \<leftarrow> put_overflow w mc leaf data flags;
        case r of
          Some rc \<Rightarrow> Some (Put_return rc, s, data, w)
        | None \<Rightarrow> do { w \<leftarrow> mdb_node_del w mc 0; Some (Put_node True data, s, data, w) }
      }
      else if mv_size data = NODEDSZ m leaf then
        (if F_ISSET flags MDB_RESERVE then Some (Put_return MDB_SUCCESS, s, data\<lparr>mv_data := Mem (NODEDATA m leaf)\<rparr>, w)
         else if mc_flags (cur w mc) AND C_SUB = 0 then
           Some (Put_return MDB_SUCCESS, s, data, upd_mem (\<lambda>m. mem_write m (NODEDATA m leaf) (val_bytes m data)) w)
         else do {
           let w = upd_mem (\<lambda>m. mem_write m (NODEKEY leaf) (val_bytes m key)) w;
           (rc, w) \<leftarrow> put_fix_parent w mc key;
           Some (Put_return rc, s, data, w)
         })
      else do {
        w \<leftarrow> mdb_node_del w mc 0;
        Some (Put_node True data, s, data, w)
      })"

text \<open>The label \<open>more\<close>: the key exists.\<close>

definition put_dup :: "world \<Rightarrow> nat \<Rightarrow> MDB_val \<Rightarrow> MDB_val \<Rightarrow> addr \<Rightarrow> put_state \<Rightarrow> (put_next \<times> put_state \<times> MDB_val \<times> world) option" where
  "put_dup w mc key data leaf s =
     (let m = w_mem w; flags = ps_flags s; oldsize = NODEDSZ m leaf; olddata = NODEDATA m leaf; pbuf = me_pbuf (w_env w);
          w = upd_mem (\<lambda>m. set_pgno m pbuf (mp_pgno m (cur_pg w mc))) w
      in if \<not> F_ISSET (mn_flags m leaf) F_DUPDATA then
           (if flags = MDB_CURRENT then put_current w mc key data leaf s
            else do {
              r \<leftarrow> data_cmp w mc oldsize (val_bytes (w_mem w) data) (mem_read (w_mem w) olddata oldsize);
              if r = 0 then
                (if flags AND MDB_NODUPDATA \<noteq> 0 then Some (Put_return MDB_KEYEXIST, s, data, w)
                 else put_current w mc key data leaf s)
              else do {
                let (xsize, w) = fake_subpage w mc olddata oldsize (mv_size data);
                let s = s\<lparr>ps_dkey := \<lparr>mv_size = oldsize, mv_data = Mem (pbuf + 24)\<rparr>\<rparr>;
                (n, s, w) \<leftarrow> put_fit w mc leaf pbuf 0 xsize xsize s;
                Some (n, s, data, w)
              }
            })
         else if mn_flags m leaf AND F_SUBDATA \<noteq> 0 then
           Some (Put_sub, s\<lparr>ps_flags := flags OR F_DUPDATA OR F_SUBDATA\<rparr>, data, w)
         else
           (let fp = olddata;
                fixed = (md_flags (get_db w mc) AND MDB_DUPFIXED \<noteq> 0);
                pad = unat (mp_pad (w_mem w) fp)
            in if flags = MDB_CURRENT \<or> (fixed \<and> \<not> unat (SIZELEFT (w_mem w) fp) < pad) then do {
                 mx \<leftarrow> mc_xcursor (cur w mc);
                 let w = upd_flags (\<lambda>f. f OR P_DIRTY) fp w;
                 let w = upd_mem (\<lambda>m. set_pgno m fp (mp_pgno m pbuf)) w;
                 Some (Put_sub, s\<lparr>ps_flags := flags OR F_DUPDATA\<rparr>, data, set_pg_at mx 0 fp w)
               }
               else do {
                 let offset = (if fixed then 4 * pad else EVEN (NODESIZE + 2 + mv_size data));
                 (n, s, w) \<leftarrow> put_fit w mc leaf fp offset oldsize (oldsize + offset) s;
                 Some (n, s, data, w)
               }))"

definition put_existing :: "world \<Rightarrow> nat \<Rightarrow> MDB_val \<Rightarrow> MDB_val \<Rightarrow> put_state \<Rightarrow> (put_next \<times> put_state \<times> MDB_val \<times> world) option" where
  "put_existing w mc key data s =
     (let leaf = NODEPTR (w_mem w) (cur_pg w mc) (cur_ki w mc) in
      if F_ISSET (md_flags (get_db w mc)) MDB_DUPSORT then put_dup w mc key data leaf s
      else put_current w mc key data leaf s)"

text \<open>After the cursor pages are writable, for a new key and for one that exists.\<close>

definition put_insert :: "world \<Rightarrow> nat \<Rightarrow> MDB_val \<Rightarrow> MDB_val \<Rightarrow> put_state \<Rightarrow> (put_next \<times> put_state \<times> MDB_val \<times> world) option" where
  "put_insert w mc key data s =
     (if md_flags (get_db w mc) AND MDB_DUPSORT \<noteq> 0 \<and> LEAFSIZE key data > me_nodemax (w_env w) then do {
        let fp = me_pbuf (w_env w);
        let w = upd_mem (\<lambda>m. set_upper (set_lower (set_pad m fp (of_nat (mv_size data))) fp 16) fp 16) w;
        (n, s, w) \<leftarrow> prep_subDB w mc fp (P_LEAF OR P_DIRTY) PAGEHDRSZ s;
        Some (n, s, data, w)
      } else Some (Put_node True data, s, data, w))"

definition put_replace :: "world \<Rightarrow> nat \<Rightarrow> MDB_val \<Rightarrow> MDB_val \<Rightarrow> put_state \<Rightarrow> (put_next \<times> put_state \<times> MDB_val \<times> world) option" where
  "put_replace w mc key data s =
     (if IS_LEAF2 (w_mem w) (cur_pg w mc) then
        (let ksize = unat (md_pad (get_db w mc)) in
         if mv_size key \<noteq> ksize then Some (Put_return MDB_BAD_VALSIZE, s, data, w)
         else do {
           let w = upd_mem (\<lambda>m. mem_write m (LEAF2KEY (cur_pg w mc) (cur_ki w mc) ksize) (ptr_read m (mv_data key) ksize)) w;
           (rc, w) \<leftarrow> put_fix_parent w mc key;
           Some (Put_return rc, s, data, w)
         })
      else put_existing w mc key data s)"

text \<open>From the start of \<open>mdb_cursor_put\<close> to the first of the labels.\<close>

definition put_begin :: "world \<Rightarrow> nat \<Rightarrow> MDB_val \<Rightarrow> MDB_val \<Rightarrow> nat \<Rightarrow> u32 \<Rightarrow> (put_next \<times> put_state \<times> MDB_val \<times> world) option" where
  "put_begin w mc key data dcount flags =
     (let dbf = md_flags (get_db w mc); tf = mt_flags (txn w (mc_txn (cur w mc)));
          nospill = (flags AND MDB_NOSPILL \<noteq> 0);
          s = \<lparr>ps_flags = flags AND NOT MDB_NOSPILL, ps_insert_key = False, ps_do_sub = False, ps_sub_root = 0, ps_dkey = no_val,
               ps_dcount = (if flags AND MDB_MULTIPLE \<noteq> 0 then dcount else 0), ps_mcount = 0\<rparr>;
          ret = (\<lambda>rc data w. Some (Put_return rc, s, data, w));
          flags = flags AND NOT MDB_NOSPILL
      in if flags AND MDB_MULTIPLE \<noteq> 0 \<and> \<not> F_ISSET dbf MDB_DUPFIXED then ret MDB_INCOMPATIBLE data w
         else if tf AND (MDB_TXN_RDONLY OR MDB_TXN_BLOCKED) \<noteq> 0 then
           ret (if tf AND MDB_TXN_RDONLY \<noteq> 0 then EACCES else MDB_BAD_TXN) data w
         else if mv_size key = 0 \<or> mv_size key > MDB_MAXKEYSIZE then ret MDB_BAD_VALSIZE data w
         else if mv_size data > (if dbf AND MDB_DUPSORT \<noteq> 0 then MDB_MAXKEYSIZE else MAXDATASIZE) then ret MDB_BAD_VALSIZE data w
         else do {
           (stop, rc, data, w) \<leftarrow> put_position w mc key data flags;
           if stop then ret rc data w
           else do {
             let w = clear_del mc w;
             let rdata = (if flags AND MDB_MULTIPLE \<noteq> 0 then data\<lparr>mv_size := mv_size data * dcount\<rparr> else data);
             (rc2, w) \<leftarrow> (if nospill then Some (0, w) else mdb_page_spill w mc (Some (key, rdata)));
             if rc2 \<noteq> 0 then ret rc2 data w
             else do {
               (rc2, w) \<leftarrow> (if rc = MDB_NO_ROOT then put_new_root w mc else mdb_cursor_touch w mc);
               if rc2 \<noteq> 0 then ret rc2 data w
               else if rc \<noteq> 0 then put_insert w mc key data (s\<lparr>ps_insert_key := True\<rparr>)
               else put_replace w mc key data s
             }
           }
         })"

subsection \<open>Adding the node\<close>

definition put_fix :: "nat \<Rightarrow> addr \<Rightarrow> bool \<Rightarrow> nat \<Rightarrow> nat \<Rightarrow> world \<Rightarrow> world option" where
  "put_fix mc mp insert_key m2 m3 w =
     (let i = mc_top (cur w mc) in
      if m3 = mc \<or> mc_snum (cur w m3) < mc_snum (cur w mc) \<or> mc_pg (cur w m3) i \<noteq> mp then Some w
      else Some (fix_xcursor m3 i (if mc_ki (cur w m3) i \<ge> mc_ki (cur w mc) i \<and> insert_key then inc_ki m3 i w else w)))"

text \<open>The label \<open>new_sub\<close>.\<close>

definition put_node :: "world \<Rightarrow> nat \<Rightarrow> MDB_val \<Rightarrow> MDB_val \<Rightarrow> put_state \<Rightarrow> (int \<times> MDB_val \<times> world) option" where
  "put_node w mc key rdata s = do {
     let flags = ps_flags s;
     let nflags = flags AND NODE_ADD_FLAGS;
     let mp = cur_pg w mc;
     let nsize = (if IS_LEAF2 (w_mem w) mp then mv_size key else mdb_leaf_size (me_nodemax (w_env w)) key rdata);
     (rc, d, w) \<leftarrow>
       (if unat (SIZELEFT (w_mem w) mp) < nsize then
          (let nflags = (if flags AND (F_DUPDATA OR F_SUBDATA) = F_DUPDATA then nflags AND NOT MDB_APPEND else nflags);
               nflags = (if \<not> ps_insert_key s then nflags OR MDB_SPLIT_REPLACE else nflags)
           in mdb_page_split w mc key (Some rdata) P_INVALID nflags)
        else do {
          (rc, d, w) \<leftarrow> mdb_node_add w mc (cur_ki w mc) (Some key) (Some rdata) 0 nflags;
          w \<leftarrow> (if rc = 0 then for_cursors mc (put_fix mc mp (ps_insert_key s)) w else Some w);
          Some (rc, d, w)
        });
     Some (rc, case d of None \<Rightarrow> rdata | Some d \<Rightarrow> d, w)
   }"

text \<open>The other cursors on the page after the item became a sub-page or sub-database.\<close>

definition put_sub_fix :: "nat \<Rightarrow> nat \<Rightarrow> bool \<Rightarrow> bool \<Rightarrow> nat \<Rightarrow> world \<Rightarrow> world option" where
  "put_sub_fix mc mx new_dupdata insert_key m2 w =
     (let i = mc_top (cur w mc); mp = mc_pg (cur w mc) i in
      if m2 = mc \<or> mc_snum (cur w m2) < mc_snum (cur w mc) \<or> mc_flags (cur w m2) AND C_INITIALIZED = 0 then Some w
      else if mc_pg (cur w m2) i = mp then
        (if mc_ki (cur w m2) i = mc_ki (cur w mc) i then mdb_xcursor_init2 w m2 mx new_dupdata
         else if \<not> insert_key \<and> mc_ki (cur w m2) i < NUMKEYS (w_mem w) mp then
           (let n2 = NODEPTR (w_mem w) mp (mc_ki (cur w m2) i) in
            if mn_flags (w_mem w) n2 AND (F_SUBDATA OR F_DUPDATA) = F_DUPDATA
            then map_option (\<lambda>x. set_pg_at x 0 (NODEDATA (w_mem w) n2) w) (mc_xcursor (cur w m2))
            else Some w)
         else Some w)
      else Some w)"

fun put_sub_fixes :: "nat \<Rightarrow> nat \<Rightarrow> bool \<Rightarrow> bool \<Rightarrow> nat list \<Rightarrow> world \<Rightarrow> world option" where
  "put_sub_fixes mc mx new_dupdata insert_key [] w = Some w"
| "put_sub_fixes mc mx new_dupdata insert_key (m2 # ms) w = do {
     w \<leftarrow> put_sub_fix mc mx new_dupdata insert_key m2 w;
     put_sub_fixes mc mx new_dupdata insert_key ms w
   }"

text \<open>The label \<open>put_sub\<close> up to the first recursive call: the result has the flags for the sub-cursor.\<close>

definition put_sub_start :: "world \<Rightarrow> nat \<Rightarrow> put_state \<Rightarrow> (nat \<times> u32 \<times> addr \<times> world) option" where
  "put_sub_start w mc s = do {
     let leaf = NODEPTR (w_mem w) (cur_pg w mc) (cur_ki w mc);
     (xflags, w) \<leftarrow>
       (if ps_flags s AND MDB_CURRENT \<noteq> 0 then Some (MDB_CURRENT OR MDB_NOSPILL, w)
        else do {
          w \<leftarrow> mdb_xcursor_init1 w mc leaf;
          Some (if ps_flags s AND MDB_NODUPDATA \<noteq> 0 then MDB_NOOVERWRITE OR MDB_NOSPILL else MDB_NOSPILL, w)
        });
     mx \<leftarrow> mc_xcursor (cur w mc);
     Some (mx, xflags, leaf, if ps_sub_root s \<noteq> 0 then set_pg_at mx 0 (ps_sub_root s) w else w)
   }"

definition ptr_add :: "ptr \<Rightarrow> nat \<Rightarrow> ptr" where
  "ptr_add p n = (case p of Mem a \<Rightarrow> Mem (a + n) | Obj bs \<Rightarrow> Obj (drop n bs))"

definition bad_sub :: "nat \<Rightarrow> int \<Rightarrow> MDB_val \<Rightarrow> nat \<Rightarrow> world \<Rightarrow> (int \<times> MDB_val \<times> nat \<times> world) option" where
  "bad_sub mc rc data mcount w =
     Some (if rc = MDB_KEYEXIST then MDB_CORRUPTED else rc, data, mcount, txn_or (mc_txn (cur w mc)) MDB_TXN_ERROR w)"

datatype put_entry = Put_start nat u32 | Put_more put_state

text \<open>
  The whole of \<open>mdb_cursor_put\<close>, entered at its start or, for the next of multiple items, at the label \<open>more\<close>.
  The results are the return code, \<open>data\<close>, the count of the items stored and the world.
\<close>

partial_function (option) cursor_put_from ::
  "world \<Rightarrow> nat \<Rightarrow> MDB_val \<Rightarrow> MDB_val \<Rightarrow> put_entry \<Rightarrow> (int \<times> MDB_val \<times> nat \<times> world) option" where
  [code]: "cursor_put_from w mc key data entry = do {
     (n, s, data, w) \<leftarrow> (case entry of
         Put_start dcount flags \<Rightarrow> put_begin w mc key data dcount flags
       | Put_more s \<Rightarrow> put_existing w mc key data s);
     case n of
       Put_return rc \<Rightarrow> Some (rc, data, ps_mcount s, w)
     | _ \<Rightarrow> do {
         (rc, data, w) \<leftarrow> (case n of
             Put_node own rdata \<Rightarrow> do {
               (rc, d, w) \<leftarrow> put_node w mc key rdata s;
               Some (rc, if own then d else data, w)
             }
           | _ \<Rightarrow> Some (MDB_SUCCESS, data, w));
         if rc \<noteq> MDB_SUCCESS then Some (rc, data, ps_mcount s, txn_or (mc_txn (cur w mc)) MDB_TXN_ERROR w)
         else do {
           (bad, rc, insert_data, s, w) \<leftarrow>
             (if ps_do_sub s \<or> n = Put_sub then do {
                (mx, xflags, leaf, w) \<leftarrow> put_sub_start w mc s;
                (rc, _, _, w) \<leftarrow> (if mv_size (ps_dkey s) \<noteq> 0 then cursor_put_from w mx (ps_dkey s) no_val (Put_start 0 xflags)
                               else Some (0, no_val, 0, w));
                if rc \<noteq> 0 then Some (True, rc, False, s, w)
                else do {
                  cs \<leftarrow> mt_cursors (txn w (mc_txn (cur w mc)));
                  w \<leftarrow> (if mn_flags (w_mem w) leaf AND F_SUBDATA = 0 \<or> ps_sub_root s \<noteq> 0 then
                          put_sub_fixes mc mx (mv_size (ps_dkey s) \<noteq> 0) (ps_insert_key s) (cs (mc_dbi (cur w mc))) w
                        else Some w);
                  let s = s\<lparr>ps_dkey := no_val\<rparr>;
                  let ecount = md_entries (mx_db (cur w mx));
                  let xflags = (if ps_flags s AND MDB_APPENDDUP \<noteq> 0 then xflags OR MDB_APPEND else xflags);
                  (rc, _, _, w) \<leftarrow> cursor_put_from w mx data no_val (Put_start 0 xflags);
                  let w = (if ps_flags s AND F_SUBDATA \<noteq> 0 then upd_mem (\<lambda>m. mem_write m (NODEDATA m leaf) (db_bytes (mx_db (cur w mx)))) w else w);
                  Some (False, rc, md_entries (mx_db (cur w mx)) \<noteq> ecount, s, w)
                }
              } else Some (False, MDB_SUCCESS, ps_insert_key s, s, w));
           if bad then bad_sub mc rc data (ps_mcount s) w
           else do {
             let w = (if insert_data then upd_db mc (\<lambda>d. d\<lparr>md_entries := md_entries d + 1\<rparr>) w else w);
             if ps_insert_key s \<and> rc \<noteq> 0 then bad_sub mc rc data (ps_mcount s) w
             else do {
               let w = (if ps_insert_key s then cur_or mc C_INITIALIZED w else w);
               if ps_flags s AND MDB_MULTIPLE \<noteq> 0 \<and> rc = 0 then
                 (let s = s\<lparr>ps_mcount := ps_mcount s + 1\<rparr> in
                  if ps_mcount s < ps_dcount s then
                    cursor_put_from w mc key (data\<lparr>mv_data := ptr_add (mv_data data) (mv_size data)\<rparr>) (Put_more (s\<lparr>ps_insert_key := False\<rparr>))
                  else Some (rc, data, ps_mcount s, w))
               else Some (rc, data, ps_mcount s, w)
             }
           }
         }
       }
   }"

definition mdb_cursor_put ::
  "world \<Rightarrow> nat option \<Rightarrow> MDB_val option \<Rightarrow> MDB_val \<Rightarrow> nat \<Rightarrow> u32 \<Rightarrow> (int \<times> MDB_val \<times> nat \<times> world) option" where
  "mdb_cursor_put w mcp key data dcount flags =
     (case (mcp, key) of
        (Some mc, Some k) \<Rightarrow> cursor_put_from w mc k data (Put_start dcount flags)
      | _ \<Rightarrow> Some (EINVAL, data, dcount, w))"

text \<open>The cursor \<open>mc\<close> of \<open>mdb_put\<close> and of \<open>mdb_del0\<close> is put in front of the list of the database for the call.\<close>

definition link_cursor :: "nat \<Rightarrow> nat \<Rightarrow> nat \<Rightarrow> world \<Rightarrow> world option" where
  "link_cursor t dbi mc w = do {
     cs \<leftarrow> mt_cursors (txn w t);
     Some (upd_txn t (\<lambda>x. x\<lparr>mt_cursors := Some (cs(dbi := mc # cs dbi))\<rparr>) w)
   }"

definition mdb_put :: "world \<Rightarrow> nat \<Rightarrow> nat \<Rightarrow> MDB_val option \<Rightarrow> MDB_val option \<Rightarrow> u32 \<Rightarrow> (int \<times> MDB_val option \<times> world) option" where
  "mdb_put w t dbi key data flags =
     (let tf = mt_flags (txn w t) in
      case (key, data) of
        (Some k, Some d) \<Rightarrow>
          if \<not> TXN_DBI_EXIST w t dbi DB_USRVALID then Some (EINVAL, data, w)
          else if flags AND NOT (MDB_NOOVERWRITE OR MDB_NODUPDATA OR MDB_RESERVE OR MDB_APPEND OR MDB_APPENDDUP) \<noteq> 0 then Some (EINVAL, data, w)
          else if tf AND (MDB_TXN_RDONLY OR MDB_TXN_BLOCKED) \<noteq> 0 then
            Some (if tf AND MDB_TXN_RDONLY \<noteq> 0 then EACCES else MDB_BAD_TXN, data, w)
          else do {
            let (mc, w) = new_cur w;
            let (mx, w) = new_cur w;
            w \<leftarrow> cursor_init_gen mdb_page_touch mc t dbi (Some mx) w;
            w \<leftarrow> link_cursor t dbi mc w;
            (rc, d, _, w) \<leftarrow> mdb_cursor_put w (Some mc) key d 0 flags;
            w \<leftarrow> untrack_cursor t dbi w;
            Some (rc, Some d, w)
          }
      | _ \<Rightarrow> Some (EINVAL, data, w))"

end
