(* ===== verification/Dbi.thy ===== *)
theory Dbi
  imports Put
begin

section \<open>Deleting items and database handles (mdb.c)\<close>

text \<open>
  Freeing the pages of a tree, deleting an item through a cursor and by key, opening, closing and
  dropping databases, their comparison functions and statistics.
\<close>

subsection \<open>Freeing a tree\<close>

text \<open>The nodes of a leaf: overflow pages are freed, and with \<open>subs\<close> the sub-databases by \<open>drop_sub\<close>.\<close>

fun drop_leaf :: "(world \<Rightarrow> nat \<Rightarrow> (int \<times> world) option) \<Rightarrow> world \<Rightarrow> nat \<Rightarrow> addr \<Rightarrow> bool \<Rightarrow> nat \<Rightarrow> nat \<Rightarrow> (int \<times> world) option" where
  "drop_leaf drop_sub w mc mp subs i 0 = Some (0, w)"
| "drop_leaf drop_sub w mc mp subs i (Suc k) = do {
     let ni = NODEPTR (w_mem w) mp i;
     let t = mc_txn (cur w mc);
     (rc, w) \<leftarrow>
       (if mn_flags (w_mem w) ni AND F_BIGDATA \<noteq> 0 then do {
          let pg = rd64 (w_mem w) (NODEDATA (w_mem w) ni);
          (rc, omp, _, w) \<leftarrow> mdb_page_get w t pg;
          if rc \<noteq> 0 then Some (rc, w)
          else if \<not> IS_OVERFLOW (w_mem w) omp then None
          else free_pgs_append_range w t pg (unat (mp_pages (w_mem w) omp))
        }
        else if subs \<and> mn_flags (w_mem w) ni AND F_SUBDATA \<noteq> 0 then do {
          w \<leftarrow> mdb_xcursor_init1 w mc ni;
          mx \<leftarrow> mc_xcursor (cur w mc);
          drop_sub w mx
        }
        else Some (0, w));
     if rc \<noteq> 0 then Some (rc, w) else drop_leaf drop_sub w mc mp subs (i + 1) k
   }"

text \<open>The children of a branch page.\<close>

fun drop_branch :: "mem \<Rightarrow> addr \<Rightarrow> nat \<Rightarrow> nat \<Rightarrow> MDB_ID list \<Rightarrow> MDB_ID list option" where
  "drop_branch m mp i 0 ids = Some ids"
| "drop_branch m mp i (Suc k) ids = do {
     ids \<leftarrow> mdb_midl_xappend ids (NODEPGNO m (NODEPTR m mp i));
     drop_branch m mp (i + 1) k ids
   }"

definition drop_page :: "(world \<Rightarrow> nat \<Rightarrow> (int \<times> world) option) \<Rightarrow> world \<Rightarrow> nat \<Rightarrow> bool \<Rightarrow> (int \<times> world) option" where
  "drop_page drop_sub w mc subs =
     (let mp = cur_pg w mc; n = NUMKEYS (w_mem w) mp; t = mc_txn (cur w mc) in
      if IS_LEAF (w_mem w) mp then drop_leaf drop_sub w mc mp subs 0 n
      else do {
        (rc, l) \<leftarrow> mdb_midl_need (w_ok w) (w_gid w) (mt_free_pgs (txn w t)) (of_nat n);
        let w = set_free_pgs t l w;
        if rc \<noteq> 0 then Some (rc, w)
        else do {
          ids \<leftarrow> drop_branch (w_mem w) mp 0 n (cells l);
          Some (0, set_free_pgs t (l\<lparr>cells := ids\<rparr>) w)
        }
      })"

text \<open>The loop over the pages of a level; \<open>mx\<close> is the copy of the cursor at the start of the level.\<close>

partial_function (option) drop_loop ::
  "(world \<Rightarrow> nat \<Rightarrow> (int \<times> world) option) \<Rightarrow> world \<Rightarrow> nat \<Rightarrow> nat \<Rightarrow> bool \<Rightarrow> (int \<times> world) option" where
  [code]: "drop_loop drop_sub w mc mx subs =
     (if mc_snum (cur w mc) = 0 then Some (0, w)
      else do {
        let n = NUMKEYS (w_mem w) (cur_pg w mc);
        (rc, w) \<leftarrow> drop_page drop_sub w mc subs;
        if rc \<noteq> 0 then Some (rc, w)
        else if mc_top (cur w mc) = 0 then Some (0, w)
        else do {
          (rc, w) \<leftarrow> mdb_cursor_sibling (set_ki mc n w) mc True;
          if rc = 0 then drop_loop drop_sub w mc mx subs
          else if rc \<noteq> MDB_NOTFOUND then Some (rc, w)
          else
            (let w = mdb_cursor_pop mc w; x = cur w mx; n = mc_snum (cur w mc);
                 w = upd_cur mc (\<lambda>c. c\<lparr>mc_ki := (\<lambda>i. if i = 0 \<or> i < n then 0 else mc_ki c i),
                                      mc_pg := (\<lambda>i. if i \<noteq> 0 \<and> i < n then mc_pg x i else mc_pg c i)\<rparr>) w
             in drop_loop drop_sub w mc mx subs)
        }
      })"

definition drop_gen :: "(world \<Rightarrow> nat \<Rightarrow> (int \<times> world) option) \<Rightarrow> world \<Rightarrow> nat \<Rightarrow> bool \<Rightarrow> (int \<times> world) option" where
  "drop_gen drop_sub w mc subs = do {
     let t = mc_txn (cur w mc);
     (rc, w) \<leftarrow> mdb_page_search w mc None MDB_PS_FIRST;
     (rc, w) \<leftarrow>
       (if rc = MDB_SUCCESS then do {
          let w = (if mc_flags (cur w mc) AND C_SUB \<noteq> 0 then mdb_cursor_pop mc w else w);
          let (mx, w) = new_cur w;
          let w = mdb_cursor_copy mc mx w;
          (rc, w) \<leftarrow> drop_loop drop_sub w mc mx subs;
          (rc, w) \<leftarrow> (if rc = 0 then free_pgs_append w t (md_root (get_db w mc)) else Some (rc, w));
          Some (rc, if rc \<noteq> 0 then txn_or t MDB_TXN_ERROR w else w)
        }
        else Some (if rc = MDB_NOTFOUND then MDB_SUCCESS else rc, w));
     Some (rc, cur_clear mc C_INITIALIZED w)
   }"

text \<open>Sub-databases have no sub-databases: the recursive call is with \<open>subs\<close> 0.\<close>

definition mdb_drop0 :: "world \<Rightarrow> nat \<Rightarrow> bool \<Rightarrow> (int \<times> world) option" where
  "mdb_drop0 w mc subs = drop_gen (\<lambda>w mx. drop_gen (\<lambda>_ _. None) w mx False) w mc subs"

subsection \<open>Deleting an item\<close>

definition del_sub_fix :: "nat \<Rightarrow> addr \<Rightarrow> addr \<Rightarrow> nat \<Rightarrow> world \<Rightarrow> world option" where
  "del_sub_fix mc mp leaf m2 w =
     (let top = mc_top (cur w mc) in
      if m2 = mc \<or> mc_snum (cur w m2) < mc_snum (cur w mc) \<or> mc_flags (cur w m2) AND C_INITIALIZED = 0 then Some w
      else if mc_pg (cur w m2) top = mp then
        (let n2 = NODEPTR (w_mem w) mp (mc_ki (cur w m2) top) in
         if mc_ki (cur w m2) top = mc_ki (cur w mc) top
         then map_option (\<lambda>x. set_pg_at x 0 (NODEDATA (w_mem w) leaf) w) (mc_xcursor (cur w m2))
         else if mn_flags (w_mem w) n2 AND F_SUBDATA = 0
         then map_option (\<lambda>x. set_pg_at x 0 (NODEDATA (w_mem w) n2) w) (mc_xcursor (cur w m2))
         else Some w)
      else Some w)"

fun del_sub_fixes :: "nat \<Rightarrow> addr \<Rightarrow> addr \<Rightarrow> nat list \<Rightarrow> world \<Rightarrow> world option" where
  "del_sub_fixes mc mp leaf [] w = Some w"
| "del_sub_fixes mc mp leaf (m2 # ms) w = do {
     w \<leftarrow> del_sub_fix mc mp leaf m2 w;
     del_sub_fixes mc mp leaf ms w
   }"

text \<open>After one duplicate was deleted and others are left: the sub-database record is saved, or the sub-page shrinks.\<close>

definition del_keep_sub :: "world \<Rightarrow> nat \<Rightarrow> nat \<Rightarrow> addr \<Rightarrow> addr \<Rightarrow> (int \<times> world) option" where
  "del_keep_sub w mc mx mp leaf = do {
     w \<leftarrow> (if mn_flags (w_mem w) leaf AND F_SUBDATA \<noteq> 0 then
             Some (upd_mem (\<lambda>m. mem_write m (NODEDATA m leaf) (db_bytes (mx_db (cur w mx)))) w)
           else do {
             let w = upd_mem (\<lambda>m. mdb_node_shrink m mp (cur_ki w mc)) w;
             let leaf = NODEPTR (w_mem w) mp (cur_ki w mc);
             let w = set_pg_at mx 0 (NODEDATA (w_mem w) leaf) w;
             cs \<leftarrow> mt_cursors (txn w (mc_txn (cur w mc)));
             del_sub_fixes mc mp leaf (cs (mc_dbi (cur w mc))) w
           });
     Some (MDB_SUCCESS, upd_db mc (\<lambda>d. d\<lparr>md_entries := md_entries d - 1\<rparr>) w)
   }"

text \<open>From the free of overflow pages to the end; \<open>fail\<close> marks the transaction.\<close>

definition del_fail :: "nat \<Rightarrow> int \<Rightarrow> world \<Rightarrow> (int \<times> world) option" where
  "del_fail mc rc w = Some (rc, txn_or (mc_txn (cur w mc)) MDB_TXN_ERROR w)"

definition del_node :: "world \<Rightarrow> nat \<Rightarrow> addr \<Rightarrow> (int \<times> world) option" where
  "del_node w mc leaf =
     (if F_ISSET (mn_flags (w_mem w) leaf) F_BIGDATA then do {
        (rc, omp, _, w) \<leftarrow> mdb_page_get w (mc_txn (cur w mc)) (rd64 (w_mem w) (NODEDATA (w_mem w) leaf));
        (rc, w) \<leftarrow> (if rc = 0 then mdb_ovpage_free w mc omp else Some (rc, w));
        if rc \<noteq> 0 then del_fail mc rc w else mdb_cursor_del0 w mc
      } else mdb_cursor_del0 w mc)"

partial_function (option) mdb_cursor_del :: "world \<Rightarrow> nat \<Rightarrow> u32 \<Rightarrow> (int \<times> world) option" where
  [code]: "mdb_cursor_del w mc flags =
     (let tf = mt_flags (txn w (mc_txn (cur w mc))) in
      if tf AND (MDB_TXN_RDONLY OR MDB_TXN_BLOCKED) \<noteq> 0 then Some (if tf AND MDB_TXN_RDONLY \<noteq> 0 then EACCES else MDB_BAD_TXN, w)
      else if mc_flags (cur w mc) AND C_INITIALIZED = 0 then Some (EINVAL, w)
      else if cur_ki w mc \<ge> NUMKEYS (w_mem w) (cur_pg w mc) then Some (MDB_NOTFOUND, w)
      else do {
        (rc, w) \<leftarrow> (if flags AND MDB_NOSPILL = 0 then mdb_page_spill w mc None else Some (0, w));
        if rc \<noteq> 0 then Some (rc, w)
        else do {
          (rc, w) \<leftarrow> mdb_cursor_touch w mc;
          if rc \<noteq> 0 then Some (rc, w)
          else do {
            let mp = cur_pg w mc;
            if IS_LEAF2 (w_mem w) mp then mdb_cursor_del0 w mc
            else do {
              let leaf = NODEPTR (w_mem w) mp (cur_ki w mc);
              if F_ISSET (mn_flags (w_mem w) leaf) F_DUPDATA then do {
                mx \<leftarrow> mc_xcursor (cur w mc);
                if flags AND MDB_NODUPDATA \<noteq> 0 then do {
                  let n = md_entries (mx_db (cur w mx));
                  let w = cur_clear mx C_INITIALIZED (upd_db mc (\<lambda>d. d\<lparr>md_entries := md_entries d - (n - 1)\<rparr>) w);
                  (rc, w) \<leftarrow> (if mn_flags (w_mem w) leaf AND F_SUBDATA \<noteq> 0 then mdb_drop0 w mx False else Some (0, w));
                  if rc \<noteq> 0 then del_fail mc rc w else del_node w mc leaf
                }
                else do {
                  let w = (if \<not> F_ISSET (mn_flags (w_mem w) leaf) F_SUBDATA then set_pg_at mx 0 (NODEDATA (w_mem w) leaf) w else w);
                  (rc, w) \<leftarrow> mdb_cursor_del w mx MDB_NOSPILL;
                  if rc \<noteq> 0 then Some (rc, w)
                  else if md_entries (mx_db (cur w mx)) \<noteq> 0 then del_keep_sub w mc mx mp leaf
                  else do {
                    let w = cur_clear mx C_INITIALIZED w;
                    (rc, w) \<leftarrow> (if mn_flags (w_mem w) leaf AND F_SUBDATA \<noteq> 0 then mdb_drop0 w mx False else Some (0, w));
                    if rc \<noteq> 0 then del_fail mc rc w else del_node w mc leaf
                  }
                }
              }
              else if (ucast (mn_flags (w_mem w) leaf) XOR flags) AND F_SUBDATA \<noteq> 0 then del_fail mc MDB_INCOMPATIBLE w
              else del_node w mc leaf
            }
          }
        }
      })"

definition mdb_del0 :: "world \<Rightarrow> nat \<Rightarrow> nat \<Rightarrow> MDB_val \<Rightarrow> MDB_val option \<Rightarrow> u32 \<Rightarrow> (int \<times> world) option" where
  "mdb_del0 w t dbi key data flags = do {
     let (mc, w) = new_cur w;
     let (mx, w) = new_cur w;
     w \<leftarrow> cursor_init_gen mdb_page_touch mc t dbi (Some mx) w;
     let (op, flags) = (case data of Some _ \<Rightarrow> (MDB_GET_BOTH, flags) | None \<Rightarrow> (MDB_SET, flags OR MDB_NODUPDATA));
     (rc, _, _, w) \<leftarrow> mdb_cursor_set w mc (Some key) data op True;
     if rc \<noteq> 0 then Some (rc, w)
     else do {
       w \<leftarrow> link_cursor t dbi mc (cur_or mc C_UNTRACK w);
       (rc, w) \<leftarrow> mdb_cursor_del w mc flags;
       w \<leftarrow> untrack_cursor t dbi w;
       Some (rc, w)
     }
   }"

definition mdb_del :: "world \<Rightarrow> nat \<Rightarrow> nat \<Rightarrow> MDB_val option \<Rightarrow> MDB_val option \<Rightarrow> (int \<times> world) option" where
  "mdb_del w t dbi key data =
     (let tf = mt_flags (txn w t) in
      case key of
        None \<Rightarrow> Some (EINVAL, w)
      | Some k \<Rightarrow>
          if \<not> TXN_DBI_EXIST w t dbi DB_USRVALID then Some (EINVAL, w)
          else if tf AND (MDB_TXN_RDONLY OR MDB_TXN_BLOCKED) \<noteq> 0 then Some (if tf AND MDB_TXN_RDONLY \<noteq> 0 then EACCES else MDB_BAD_TXN, w)
          else mdb_del0 w t dbi k (if F_ISSET (md_flags (mt_dbs (txn w t) dbi)) MDB_DUPSORT then data else None) 0)"

subsection \<open>Database handles\<close>

definition mdb_default_cmp :: "nat \<Rightarrow> nat \<Rightarrow> world \<Rightarrow> world" where
  "mdb_default_cmp t dbi w =
     (let f = md_flags (mt_dbs (txn w t) dbi);
          cmp = (if f AND MDB_REVERSEKEY \<noteq> 0 then Cmp_memnr else if f AND MDB_INTEGERKEY \<noteq> 0 then Cmp_cint else Cmp_memn);
          dcmp = (if f AND MDB_DUPSORT = 0 then None
                  else Some (if f AND MDB_INTEGERDUP \<noteq> 0 then (if f AND MDB_DUPFIXED \<noteq> 0 then Cmp_int else Cmp_cint)
                             else if f AND MDB_REVERSEDUP \<noteq> 0 then Cmp_memnr else Cmp_memn))
      in upd_env (\<lambda>e. e\<lparr>me_dbxs := (me_dbxs e)(dbi := (me_dbxs e dbi)\<lparr>md_cmp := Some cmp, md_dcmp := dcmp\<rparr>)\<rparr>) w)"

text \<open>The handle of an open database with the name, or the first free slot (0 if there is none), of the handles \<open>i\<close>, ...\<close>

fun find_dbi :: "(nat \<Rightarrow> MDB_dbx) \<Rightarrow> bytes \<Rightarrow> nat \<Rightarrow> nat \<Rightarrow> nat \<Rightarrow> nat + nat" where
  "find_dbi dbxs name i unused 0 = Inr unused"
| "find_dbi dbxs name i unused (Suc k) =
     (if md_name (dbxs i) = [] then find_dbi dbxs name (i + 1) (if unused = 0 then i else unused) k
      else if md_name (dbxs i) = name then Inl i
      else find_dbi dbxs name (i + 1) unused k)"

definition open_main :: "nat \<Rightarrow> u32 \<Rightarrow> world \<Rightarrow> world" where
  "open_main t flags w =
     (let f2 = ucast (flags AND PERSISTENT_FLAGS) :: u16;
          old = md_flags (mt_dbs (txn w t) MAIN_DBI);
          w = (if flags AND PERSISTENT_FLAGS \<noteq> 0 \<and> old OR f2 \<noteq> old then
                 upd_txn t (\<lambda>x. x\<lparr>mt_dbs := (mt_dbs x)(MAIN_DBI := (mt_dbs x MAIN_DBI)\<lparr>md_flags := old OR f2\<rparr>),
                                 mt_flags := mt_flags x OR MDB_TXN_DIRTY\<rparr>) w
               else w)
      in mdb_default_cmp t MAIN_DBI w)"

text \<open>\<open>OK, got info, add to table\<close>: the new handle. In a reader the sequence numbers are those of the environment.\<close>

definition add_dbi :: "world \<Rightarrow> nat \<Rightarrow> bytes \<Rightarrow> byte \<Rightarrow> nat \<Rightarrow> MDB_db \<Rightarrow> nat \<times> world" where
  "add_dbi w t name dbflag unused db =
     (let slot = (if unused \<noteq> 0 then unused else mt_numdbs (txn w t));
          w = upd_env (\<lambda>e. e\<lparr>me_dbxs := (me_dbxs e)(slot := (me_dbxs e slot)\<lparr>md_name := name\<rparr>),
                            me_dbiseqs := (me_dbiseqs e)(slot := me_dbiseqs e slot + 1)\<rparr>) w;
          w = (if mt_env_seqs (txn w t) then w
               else upd_env (\<lambda>e. e\<lparr>me_txn0_seqs := (me_txn0_seqs e)(slot := me_dbiseqs e slot)\<rparr>) w);
          w = upd_txn t (\<lambda>x. x\<lparr>mt_dbflags := (mt_dbflags x)(slot := dbflag), mt_dbs := (mt_dbs x)(slot := db)\<rparr>) w;
          w = mdb_default_cmp t slot w
      in (slot, if unused = 0 then upd_txn t (\<lambda>x. x\<lparr>mt_numdbs := mt_numdbs x + 1\<rparr>) w else w))"

definition val_db :: "mem \<Rightarrow> MDB_val \<Rightarrow> MDB_db" where
  "val_db m v = (case mv_data v of Mem a \<Rightarrow> read_db m a | Obj bs \<Rightarrow> read_db (mem_write (\<lambda>_. 0) 0 bs) 0)"

definition open_named :: "world \<Rightarrow> nat \<Rightarrow> bytes \<Rightarrow> u32 \<Rightarrow> nat \<Rightarrow> (int \<times> nat \<times> world) option" where
  "open_named w t name flags unused = do {
     let key = \<lparr>mv_size = length name, mv_data = Obj name\<rparr>;
     let (mc, w) = new_cur w;
     w \<leftarrow> cursor_init_gen mdb_page_touch mc t MAIN_DBI None w;
     (rc, _, data, w) \<leftarrow> mdb_cursor_set w mc (Some key) (Some no_val) MDB_SET True;
     if rc = MDB_SUCCESS then do {
       data \<leftarrow> data;
       let node = NODEPTR (w_mem w) (cur_pg w mc) (cur_ki w mc);
       if mn_flags (w_mem w) node AND (F_DUPDATA OR F_SUBDATA) \<noteq> F_SUBDATA then Some (MDB_INCOMPATIBLE, 0, w)
       else do {
         let (slot, w) = add_dbi w t name (DB_NEW OR DB_VALID OR DB_USRVALID) unused (val_db (w_mem w) data);
         Some (MDB_SUCCESS, slot, w)
       }
     }
     else if rc = MDB_NOTFOUND \<and> flags AND MDB_CREATE \<noteq> 0 then do {
       let dummy = zero_db\<lparr>md_root := P_INVALID, md_flags := ucast (flags AND PERSISTENT_FLAGS)\<rparr>;
       (rc, data, _, w) \<leftarrow> mdb_cursor_put w (Some mc) (Some key) \<lparr>mv_size = 48, mv_data = Obj (db_bytes dummy)\<rparr> 0 F_SUBDATA;
       if rc \<noteq> MDB_SUCCESS then Some (rc, 0, w)
       else do {
         let (slot, w) = add_dbi w t name (DB_NEW OR DB_VALID OR DB_USRVALID OR DB_DIRTY) unused (val_db (w_mem w) data);
         Some (MDB_SUCCESS, slot, w)
       }
     }
     else Some (rc, 0, w)
   }"

definition mdb_dbi_open :: "world \<Rightarrow> nat \<Rightarrow> bytes option \<Rightarrow> u32 \<Rightarrow> (int \<times> nat \<times> world) option" where
  "mdb_dbi_open w t name flags =
     (if flags AND NOT VALID_FLAGS \<noteq> 0 then Some (EINVAL, 0, w)
      else if mt_flags (txn w t) AND MDB_TXN_BLOCKED \<noteq> 0 then Some (MDB_BAD_TXN, 0, w)
      else (case name of
          None \<Rightarrow> Some (MDB_SUCCESS, MAIN_DBI, open_main t flags w)
        | Some name \<Rightarrow>
            let w = (if md_cmp (me_dbxs (w_env w) MAIN_DBI) = None then mdb_default_cmp t MAIN_DBI w else w) in
            case find_dbi (me_dbxs (w_env w)) name CORE_DBS 0 (mt_numdbs (txn w t) - CORE_DBS) of
              Inl i \<Rightarrow> Some (MDB_SUCCESS, i, w)
            | Inr unused \<Rightarrow>
                if unused = 0 \<and> mt_numdbs (txn w t) \<ge> me_maxdbs (w_env w) then Some (MDB_DBS_FULL, 0, w)
                else if md_flags (mt_dbs (txn w t) MAIN_DBI) AND (MDB_DUPSORT OR MDB_INTEGERKEY) \<noteq> 0 then
                  Some (if flags AND MDB_CREATE \<noteq> 0 then MDB_INCOMPATIBLE else MDB_NOTFOUND, 0, w)
                else open_named w t name flags unused))"

definition mdb_dbi_close :: "nat \<Rightarrow> world \<Rightarrow> world" where
  "mdb_dbi_close dbi w =
     (if dbi < CORE_DBS \<or> dbi \<ge> me_maxdbs (w_env w) then w
      else if md_name (me_dbxs (w_env w) dbi) \<noteq> [] then
        upd_env (\<lambda>e. e\<lparr>me_dbxs := (me_dbxs e)(dbi := (me_dbxs e dbi)\<lparr>md_name := []\<rparr>),
          me_dbflags := (me_dbflags e)(dbi := 0), me_dbiseqs := (me_dbiseqs e)(dbi := me_dbiseqs e dbi + 1)\<rparr>) w
      else w)"

definition mdb_dbi_flags :: "world \<Rightarrow> nat \<Rightarrow> nat \<Rightarrow> int \<times> u16 option" where
  "mdb_dbi_flags w t dbi =
     (if \<not> TXN_DBI_EXIST w t dbi DB_USRVALID then (EINVAL, None)
      else (MDB_SUCCESS, Some (md_flags (mt_dbs (txn w t) dbi) AND PERSISTENT_FLAGS)))"

definition upd_txn_db :: "nat \<Rightarrow> nat \<Rightarrow> (MDB_db \<Rightarrow> MDB_db) \<Rightarrow> world \<Rightarrow> world" where
  "upd_txn_db t dbi f w = upd_txn t (\<lambda>x. x\<lparr>mt_dbs := (mt_dbs x)(dbi := f (mt_dbs x dbi))\<rparr>) w"

definition mdb_drop :: "world \<Rightarrow> nat \<Rightarrow> nat \<Rightarrow> nat \<Rightarrow> (int \<times> world) option" where
  "mdb_drop w t dbi del =
     (if del > 1 \<or> \<not> TXN_DBI_EXIST w t dbi DB_USRVALID then Some (EINVAL, w)
      else if F_ISSET (mt_flags (txn w t)) MDB_TXN_RDONLY then Some (EACCES, w)
      else if TXN_DBI_CHANGED w t dbi then Some (MDB_BAD_DBI, w)
      else do {
        (rc, mc, w) \<leftarrow> mdb_cursor_open w t dbi;
        if rc \<noteq> 0 then Some (rc, w)
        else do {
          (rc, w) \<leftarrow> mdb_drop0 w mc (md_flags (get_db w mc) AND MDB_DUPSORT \<noteq> 0);
          cs \<leftarrow> mt_cursors (txn w t);
          let w = fold (\<lambda>m2. cur_clear m2 (C_INITIALIZED OR C_EOF)) (cs dbi) w;
          (rc, w) \<leftarrow>
            (if rc \<noteq> 0 then Some (rc, w)
             else if del \<noteq> 0 \<and> dbi \<ge> CORE_DBS then do {
               let name = md_name (get_dbx w mc);
               (rc, w) \<leftarrow> mdb_del0 w t MAIN_DBI \<lparr>mv_size = length name, mv_data = Obj name\<rparr> None F_SUBDATA;
               Some (rc, if rc = 0 then mdb_dbi_close dbi (upd_txn t (\<lambda>x. x\<lparr>mt_dbflags := (mt_dbflags x)(dbi := DB_STALE)\<rparr>) w)
                         else txn_or t MDB_TXN_ERROR w)
             }
             else
               (let w = upd_txn t (\<lambda>x. x\<lparr>mt_dbflags := (mt_dbflags x)(dbi := mt_dbflags x dbi OR DB_DIRTY)\<rparr>) w;
                    w = upd_txn_db t dbi (\<lambda>d. d\<lparr>md_depth := 0, md_branch_pages := 0, md_leaf_pages := 0, md_overflow_pages := 0,
                          md_entries := 0, md_root := P_INVALID\<rparr>) w
                in Some (0, txn_or t MDB_TXN_DIRTY w)));
          Some (rc, mdb_cursor_close (Some mc) w)
        }
      })"

definition mdb_set_compare :: "world \<Rightarrow> nat \<Rightarrow> nat \<Rightarrow> cmp_func \<Rightarrow> int \<times> world" where
  "mdb_set_compare w t dbi cmp =
     (if \<not> TXN_DBI_EXIST w t dbi DB_USRVALID then (EINVAL, w)
      else (MDB_SUCCESS, upd_env (\<lambda>e. e\<lparr>me_dbxs := (me_dbxs e)(dbi := (me_dbxs e dbi)\<lparr>md_cmp := Some cmp\<rparr>)\<rparr>) w))"

definition mdb_set_dupsort :: "world \<Rightarrow> nat \<Rightarrow> nat \<Rightarrow> cmp_func \<Rightarrow> int \<times> world" where
  "mdb_set_dupsort w t dbi cmp =
     (if \<not> TXN_DBI_EXIST w t dbi DB_USRVALID then (EINVAL, w)
      else (MDB_SUCCESS, upd_env (\<lambda>e. e\<lparr>me_dbxs := (me_dbxs e)(dbi := (me_dbxs e dbi)\<lparr>md_dcmp := Some cmp\<rparr>)\<rparr>) w))"

subsection \<open>Statistics\<close>

record MDB_stat =
  ms_psize :: nat
  ms_depth :: u16
  ms_branch_pages :: u64
  ms_leaf_pages :: u64
  ms_overflow_pages :: u64
  ms_entries :: u64

definition mdb_stat0 :: "world \<Rightarrow> MDB_db \<Rightarrow> MDB_stat" where
  "mdb_stat0 w db = \<lparr>ms_psize = me_psize (w_env w), ms_depth = md_depth db, ms_branch_pages = md_branch_pages db,
     ms_leaf_pages = md_leaf_pages db, ms_overflow_pages = md_overflow_pages db, ms_entries = md_entries db\<rparr>"

definition mdb_env_stat :: "world \<Rightarrow> MDB_stat" where
  "mdb_env_stat w = mdb_stat0 w (mm_main (get_meta w (mdb_env_pick_meta w)))"

record MDB_envinfo =
  mei_mapaddr :: u64
  mei_last_pgno :: u64
  mei_last_txnid :: u64
  mei_mapsize :: nat
  mei_maxreaders :: nat
  mei_numreaders :: nat

definition mdb_env_info :: "world \<Rightarrow> MDB_envinfo" where
  "mdb_env_info w =
     (let meta = get_meta w (mdb_env_pick_meta w) in
      \<lparr>mei_mapaddr = mm_address meta, mei_last_pgno = mm_last_pg meta, mei_last_txnid = mm_txnid meta,
        mei_mapsize = me_mapsize (w_env w), mei_maxreaders = me_maxreaders (w_env w),
        mei_numreaders = (case me_txns (w_env w) of None \<Rightarrow> 0 | Some ti \<Rightarrow> mti_numreaders ti)\<rparr>)"

definition mdb_stat :: "world \<Rightarrow> nat \<Rightarrow> nat \<Rightarrow> (int \<times> MDB_stat option \<times> world) option" where
  "mdb_stat w t dbi =
     (if \<not> TXN_DBI_EXIST w t dbi DB_VALID then Some (EINVAL, None, w)
      else if mt_flags (txn w t) AND MDB_TXN_BLOCKED \<noteq> 0 then Some (MDB_BAD_TXN, None, w)
      else do {
        w \<leftarrow> (if mt_dbflags (txn w t) dbi AND DB_STALE \<noteq> 0 then do {
                let (mc, w) = new_cur w;
                let (mx, w) = new_cur w;
                mdb_cursor_init mc t dbi (Some mx) w
              } else Some w);
        Some (MDB_SUCCESS, Some (mdb_stat0 w (mt_dbs (txn w t) dbi)), w)
      })"

end
