(* ===== verification/Commit.thy ===== *)
theory Commit
  imports Dbi
begin

section \<open>Committing (mdb.c)\<close>

text \<open>
  Saving the free list, merging a nested transaction into its parent and committing a transaction to the
  data file.
\<close>

subsection \<open>Saving the free list\<close>

record save_state =
  sv_pglast :: u64
  sv_head_id :: u64
  sv_freecnt :: u64
  sv_head_room :: int
  sv_total_room :: int
  sv_mop_len :: int
  sv_more :: int

definition id_val :: "u64 \<Rightarrow> MDB_val" where
  "id_val v = \<lparr>mv_size = 8, mv_data = Obj (to_le 8 (unat v))\<rparr>"

definition val_id :: "mem \<Rightarrow> MDB_val \<Rightarrow> u64" where
  "val_id m v = of_nat (le_nat (ptr_read m (mv_data v) 8))"

definition idl_bytes :: "MDB_ID list \<Rightarrow> bytes" where
  "idl_bytes ids = concat (map (\<lambda>v. to_le 8 (unat v)) ids)"

text \<open>The page numbers of the loose pages, in the order of their list.\<close>

partial_function (option) loose_ids :: "mem \<Rightarrow> addr \<Rightarrow> MDB_ID list option" where
  [code]: "loose_ids m mp =
     (if mp = 0 then Some []
      else do { ids \<leftarrow> loose_ids m (NEXT_LOOSE_PAGE m mp); Some (mp_pgno m mp # ids) })"

fun xappend_all :: "MDB_ID list \<Rightarrow> MDB_ID list \<Rightarrow> MDB_ID list option" where
  "xappend_all ids [] = Some ids"
| "xappend_all ids (v # vs) = do { ids \<leftarrow> mdb_midl_xappend ids v; xappend_all ids vs }"

definition clear_loose :: "nat \<Rightarrow> world \<Rightarrow> world" where
  "clear_loose t w = upd_txn t (\<lambda>x. x\<lparr>mt_loose_pgs := 0, mt_loose_count := 0\<rparr>) w"

text \<open>Without \<open>me_pghead\<close> the loose pages go to the free list.\<close>

definition free_loose :: "world \<Rightarrow> nat \<Rightarrow> (int \<times> world) option" where
  "free_loose w t =
     (if me_pghead (w_env w) = None \<and> mt_loose_pgs (txn w t) \<noteq> 0 then do {
        (rc, l) \<leftarrow> mdb_midl_need (w_ok w) (w_gid w) (mt_free_pgs (txn w t)) (of_nat (mt_loose_count (txn w t)));
        let w = set_free_pgs t l w;
        if rc \<noteq> 0 then Some (rc, w)
        else do {
          vs \<leftarrow> loose_ids (w_mem w) (mt_loose_pgs (txn w t));
          ids \<leftarrow> xappend_all (cells l) vs;
          Some (0, clear_loose t (set_free_pgs t (l\<lparr>cells := ids\<rparr>) w))
        }
      } else Some (0, w))"

text \<open>\<open>while (pglast < env->me_pglast)\<close>: the records that were used are deleted.\<close>

partial_function (option) del_records :: "world \<Rightarrow> nat \<Rightarrow> save_state \<Rightarrow> (int \<times> save_state \<times> world) option" where
  [code]: "del_records w mc s =
     (if sv_pglast s < me_pglast (w_env w) then do {
        (rc, key, _, w) \<leftarrow> mdb_cursor_first w mc (Some no_val) None;
        if rc \<noteq> 0 then Some (rc, s, w)
        else do {
          k \<leftarrow> key;
          let v = val_id (w_mem w) k;
          let s = s\<lparr>sv_pglast := v, sv_head_id := v, sv_total_room := 0, sv_head_room := 0\<rparr>;
          if \<not> v \<le> me_pglast (w_env w) then None
          else do {
            (rc, w) \<leftarrow> mdb_cursor_del w mc 0;
            if rc \<noteq> 0 then Some (rc, s, w) else del_records w mc s
          }
        }
      } else Some (0, s, w))"

text \<open>The record of the pages freed by this transaction; writing it may free more pages.\<close>

partial_function (option) put_free_pgs :: "world \<Rightarrow> nat \<Rightarrow> nat \<Rightarrow> (int \<times> u64 \<times> MDB_val \<times> world) option" where
  [code]: "put_free_pgs w t mc = do {
     freecnt \<leftarrow> aget (cells (mt_free_pgs (txn w t))) 0;
     (rc, data, _, w) \<leftarrow> mdb_cursor_put w (Some mc) (Some (id_val (mt_txnid (txn w t))))
        \<lparr>mv_size = (unat freecnt + 1) * 8, mv_data = Obj []\<rparr> 0 MDB_RESERVE;
     if rc \<noteq> 0 then Some (rc, freecnt, data, w)
     else do {
       n \<leftarrow> aget (cells (mt_free_pgs (txn w t))) 0;
       if freecnt < n then put_free_pgs w t mc else Some (0, freecnt, data, w)
     }
   }"

definition save_free_pgs :: "world \<Rightarrow> nat \<Rightarrow> nat \<Rightarrow> save_state \<Rightarrow> (int \<times> save_state \<times> world) option" where
  "save_free_pgs w t mc s = do {
     (rc, w) \<leftarrow> (if sv_freecnt s = 0 then mdb_page_search w mc None (MDB_PS_LAST OR MDB_PS_MODIFY) else Some (0, w));
     if rc \<noteq> 0 \<and> rc \<noteq> MDB_NOTFOUND then Some (rc, s, w)
     else do {
       (rc, freecnt, data, w) \<leftarrow> put_free_pgs w t mc;
       let s = s\<lparr>sv_freecnt := freecnt\<rparr>;
       if rc \<noteq> 0 then Some (rc, s, w)
       else do {
         let l = mt_free_pgs (txn w t);
         ids \<leftarrow> mdb_midl_sort (cells l);
         let w = set_free_pgs t (l\<lparr>cells := ids\<rparr>) w;
         a \<leftarrow> ptr_addr (mv_data data);
         Some (0, s, upd_mem (\<lambda>m. mem_write m a (take (mv_size data) (idl_bytes ids))) w)
       }
     }
   }"

text \<open>The size of the next record reserved for \<open>me_pghead\<close>.\<close>

definition reserve_size :: "nat \<Rightarrow> save_state \<Rightarrow> save_state" where
  "reserve_size maxfree_1pg s =
     (let s = (if \<not> sv_total_room s \<ge> sv_mop_len s \<and> sv_head_room s \<ge> int maxfree_1pg \<and> sv_head_id s > 1
               then s\<lparr>sv_head_id := sv_head_id s - 1, sv_head_room := 0\<rparr> else s);
          total = sv_total_room s - sv_head_room s;
          room = sv_mop_len s - total;
          room = (if room > int maxfree_1pg \<and> sv_head_id s > 1 then
                    (let r = room div int (unat (sv_head_id s)) in r + (int maxfree_1pg - r mod (int maxfree_1pg + 1)))
                  else if room < 0 then 0 else room)
      in s\<lparr>sv_total_room := total, sv_head_room := room\<rparr>)"

definition reserve_record :: "world \<Rightarrow> nat \<Rightarrow> nat \<Rightarrow> save_state \<Rightarrow> (int \<times> save_state \<times> world) option" where
  "reserve_record w mc maxfree_1pg s = do {
     let s = reserve_size maxfree_1pg s;
     let clean_limit = (if me_flags (w_env w) AND (MDB_NOMEMINIT OR MDB_WRITEMAP) \<noteq> 0 then 2 ^ 63 - 1 else int maxfree_1pg);
     (rc, data, _, w) \<leftarrow> mdb_cursor_put w (Some mc) (Some (id_val (sv_head_id s)))
        \<lparr>mv_size = nat (sv_head_room s + 1) * 8, mv_data = Obj []\<rparr> 0 MDB_RESERVE;
     if rc \<noteq> 0 then Some (rc, s, w)
     else do {
       a \<leftarrow> ptr_addr (mv_data data);
       let n = (if sv_head_room s > clean_limit then nat (sv_head_room s) + 1 else 1);
       Some (0, s\<lparr>sv_total_room := sv_total_room s + sv_head_room s\<rparr>, upd_mem (\<lambda>m. mem_write m a (replicate (8 * n) 0)) w)
     }
   }"

partial_function (option) save_loop :: "world \<Rightarrow> nat \<Rightarrow> nat \<Rightarrow> save_state \<Rightarrow> (int \<times> save_state \<times> world) option" where
  [code]: "save_loop w t mc s = do {
     (rc, s, w) \<leftarrow> del_records w mc s;
     if rc \<noteq> 0 then Some (rc, s, w)
     else do {
       n \<leftarrow> aget (cells (mt_free_pgs (txn w t))) 0;
       if sv_freecnt s < n then do {
         (rc, s, w) \<leftarrow> save_free_pgs w t mc s;
         if rc \<noteq> 0 then Some (rc, s, w) else save_loop w t mc s
       }
       else do {
         len \<leftarrow> aget (pghead_cells w) 0;
         let s = s\<lparr>sv_mop_len := int (unat len) + int (mt_loose_count (txn w t))\<rparr>;
         let s' = (if sv_total_room s \<ge> sv_mop_len s \<and> sv_total_room s \<noteq> sv_mop_len s then s\<lparr>sv_more := sv_more s - 1\<rparr> else s);
         if sv_total_room s \<ge> sv_mop_len s \<and> (sv_total_room s = sv_mop_len s \<or> sv_more s' < 0) then Some (0, s', w)
         else do {
           (rc, s, w) \<leftarrow> reserve_record w mc (me_maxfree_1pg (w_env w)) s';
           if rc \<noteq> 0 then Some (rc, s, w) else save_loop w t mc s
         }
       }
     }
   }"

text \<open>
  The remaining loose pages join \<open>me_pghead\<close>: they are sorted in a temporary list at the end of the
  allocation of \<open>me_pghead\<close>.
\<close>

definition merge_loose :: "world \<Rightarrow> nat \<Rightarrow> save_state \<Rightarrow> (int \<times> save_state \<times> world) option" where
  "merge_loose w t s =
     (if mt_loose_pgs (txn w t) \<noteq> 0 then do {
        let count = mt_loose_count (txn w t);
        mop \<leftarrow> me_pghead (w_env w);
        (rc, mop) \<leftarrow> mdb_midl_need (w_ok w) (w_gid w) mop (of_nat (2 * count + 1));
        let w = upd_env (\<lambda>e. e\<lparr>me_pghead := Some mop\<rparr>) w;
        if rc \<noteq> 0 then Some (rc, s, w)
        else do {
          let base = unat (alloclen mop) - count;
          vs \<leftarrow> loose_ids (w_mem w) (mt_loose_pgs (txn w t));
          if length (cells mop) < base + length vs + 1 then None
          else do {
            loose \<leftarrow> mdb_midl_sort (of_nat (length vs) # vs);
            let ids = take base (cells mop) @ loose @ drop (base + length vs + 1) (cells mop);
            ids \<leftarrow> mdb_midl_xmerge ids loose;
            n \<leftarrow> aget ids 0;
            Some (0, s\<lparr>sv_mop_len := int (unat n)\<rparr>, clear_loose t (upd_env (\<lambda>e. e\<lparr>me_pghead := Some (mop\<lparr>cells := ids\<rparr>)\<rparr>) w))
          }
        }
      } else Some (0, s, w))"

definition set_pghead_cell :: "nat \<Rightarrow> MDB_ID \<Rightarrow> world \<Rightarrow> world option" where
  "set_pghead_cell p v w = do {
     mop \<leftarrow> me_pghead (w_env w);
     ids \<leftarrow> aput (cells mop) p v;
     Some (upd_env (\<lambda>e. e\<lparr>me_pghead := Some (mop\<lparr>cells := ids\<rparr>)\<rparr>) w)
   }"

text \<open>
  Filling in the reserved records from the tail of \<open>me_pghead\<close>: \<open>p\<close> is the position of the pointer \<open>mop\<close> in the list,
  whose cell holds the length of the record during the call.
\<close>

partial_function (option) fill_records ::
  "world \<Rightarrow> nat \<Rightarrow> int \<Rightarrow> MDB_val option \<Rightarrow> MDB_val option \<Rightarrow> nat \<Rightarrow> nat \<Rightarrow> (int \<times> world) option" where
  [code]: "fill_records w mc rc key data p mop_len =
     (if rc \<noteq> 0 then Some (rc, w)
      else do {
        k \<leftarrow> key;
        d \<leftarrow> data;
        let idv = val_id (w_mem w) k;
        if mv_size d div 8 < 1 \<or> \<not> idv \<le> me_pglast (w_env w) then None
        else do {
          let len = mv_size d div 8 - 1;
          let (len, size) = (if len > mop_len then (mop_len, (mop_len + 1) * 8) else (len, mv_size d));
          let p = p - len;
          save \<leftarrow> aget (pghead_cells w) p;
          w \<leftarrow> set_pghead_cell p (of_nat len) w;
          let bs = idl_bytes (take (len + 1) (drop p (pghead_cells w)));
          (rc, d, _, w) \<leftarrow> mdb_cursor_put w (Some mc) (Some (id_val idv)) \<lparr>mv_size = size, mv_data = Obj bs\<rparr> 0 MDB_CURRENT;
          w \<leftarrow> set_pghead_cell p save w;
          if rc \<noteq> 0 \<or> mop_len - len = 0 then Some (rc, w)
          else do {
            (rc, key, data, w) \<leftarrow> mdb_cursor_next w mc (Some (id_val idv)) (Some d) MDB_NEXT;
            fill_records w mc rc key data p (mop_len - len)
          }
        }
      })"

definition mdb_freelist_save :: "world \<Rightarrow> nat \<Rightarrow> (int \<times> world) option" where
  "mdb_freelist_save w t = do {
     let (mc, w) = new_cur w;
     w \<leftarrow> cursor_init_gen mdb_page_touch mc t FREE_DBI None w;
     (rc, w) \<leftarrow> (if me_pghead (w_env w) \<noteq> None then mdb_page_search w mc None (MDB_PS_FIRST OR MDB_PS_MODIFY) else Some (0, w));
     if rc \<noteq> 0 \<and> rc \<noteq> MDB_NOTFOUND then Some (rc, w)
     else do {
       (rc, w) \<leftarrow> free_loose w t;
       if rc \<noteq> 0 then Some (rc, w)
       else do {
         (rc, s, w) \<leftarrow> save_loop w t mc \<lparr>sv_pglast = 0, sv_head_id = 0, sv_freecnt = 0, sv_head_room = 0, sv_total_room = 0,
            sv_mop_len = 0, sv_more = 1\<rparr>;
         if rc \<noteq> 0 then Some (rc, w)
         else do {
           (rc, s, w) \<leftarrow> merge_loose w t s;
           if rc \<noteq> 0 then Some (rc, w)
           else if sv_mop_len s = 0 then Some (MDB_SUCCESS, w)
           else do {
             (rc, key, data, w) \<leftarrow> mdb_cursor_first w mc (Some no_val) (Some no_val);
             fill_records w mc rc key data (nat (sv_mop_len s)) (nat (sv_mop_len s))
           }
         }
       }
     }
   }"

subsection \<open>Committing a nested transaction\<close>

text \<open>Marking the dirty pages \<open>i\<close>, ... of the child as deleted in the spill list of the parent.\<close>

fun spill_down :: "MDB_ID list \<Rightarrow> MDB_ID \<Rightarrow> nat \<Rightarrow> nat option" where
  "spill_down ps pn x = do {
     v \<leftarrow> aget ps x;
     if pn > v then (case x of 0 \<Rightarrow> None | Suc x \<Rightarrow> spill_down ps pn x) else Some x
   }"

fun spill_mark :: "MDB_ID list \<Rightarrow> MDB_ID2 list \<Rightarrow> nat \<Rightarrow> nat \<Rightarrow> nat \<Rightarrow> nat \<Rightarrow> (MDB_ID list \<times> nat) option" where
  "spill_mark ps src i x y 0 = Some (ps, y)"
| "spill_mark ps src i x y (Suc k) = do {
     d \<leftarrow> aget src i;
     let pn = push_bit 1 (mid d);
     x \<leftarrow> spill_down ps pn x;
     v \<leftarrow> aget ps x;
     if pn = v then do {
       ps \<leftarrow> aput ps x 1;
       spill_mark ps src (i + 1) (x - 1) (x - 1) k
     } else spill_mark ps src (i + 1) x y k
   }"

definition unspill_parent :: "MDB_ID list \<Rightarrow> MDB_ID2 list \<Rightarrow> MDB_ID list option" where
  "unspill_parent ps src = do {
     n \<leftarrow> aget ps 0;
     d0 \<leftarrow> aget src 0;
     ps \<leftarrow> aput ps 0 (- 1);
     (ps, y) \<leftarrow> spill_mark ps src 1 (unat n) (unat n) (unat (mid d0));
     (y, ps) \<leftarrow> purge_slots ps (y + 1) y (unat n - y);
     aput ps 0 (of_nat y)
   }"

text \<open>\<open>while (y < dst[0].mid) { dst[y] = dst[y+1]; y++; }\<close>\<close>

fun shift_down :: "MDB_ID2 list \<Rightarrow> nat \<Rightarrow> nat \<Rightarrow> MDB_ID2 list option" where
  "shift_down dst y 0 = Some dst"
| "shift_down dst y (Suc k) = do {
     d \<leftarrow> aget dst (y + 1);
     dst \<leftarrow> aput dst y d;
     shift_down dst (y + 1) k
   }"

text \<open>Removing the pages spilled by the child from the dirty list of the parent.\<close>

fun undirty_spilled :: "MDB_ID2 list \<Rightarrow> MDB_ID list \<Rightarrow> nat \<Rightarrow> nat \<Rightarrow> MDB_ID2 list option" where
  "undirty_spilled dst sl i 0 = Some dst"
| "undirty_spilled dst sl i (Suc k) = do {
     pn \<leftarrow> aget sl i;
     if pn AND 1 \<noteq> 0 then undirty_spilled dst sl (i + 1) k
     else do {
       let pn = drop_bit 1 pn;
       y \<leftarrow> mdb_mid2l_search dst pn;
       d0 \<leftarrow> aget dst 0;
       hit \<leftarrow> (if y \<le> unat (mid d0) then map_option (\<lambda>d. mid d = pn) (aget dst y) else Some False);
       dst \<leftarrow> (if hit then do {
                 dst \<leftarrow> shift_down dst y (unat (mid d0) - y);
                 aput dst 0 (d0\<lparr>mid := mid d0 - 1\<rparr>)
               } else Some dst);
       undirty_spilled dst sl (i + 1) k
     }
   }"

text \<open>\<open>while (yp < dst[i].mid) i--;\<close>\<close>

fun dirty_down :: "MDB_ID2 list \<Rightarrow> u64 \<Rightarrow> nat \<Rightarrow> nat option" where
  "dirty_down dst yp i = do {
     d \<leftarrow> aget dst i;
     if yp < mid d then (case i of 0 \<Rightarrow> None | Suc i \<Rightarrow> dirty_down dst yp i) else Some i
   }"

text \<open>The number of distinct pages of the two lists, for a parent that has a parent.\<close>

fun merged_len :: "MDB_ID2 list \<Rightarrow> MDB_ID2 list \<Rightarrow> nat \<Rightarrow> nat \<Rightarrow> nat \<Rightarrow> nat option" where
  "merged_len dst src i len 0 = Some len"
| "merged_len dst src i len (Suc y) =
     (if i = 0 then Some len
      else do {
        s \<leftarrow> aget src (Suc y);
        i \<leftarrow> dirty_down dst (mid s) i;
        d \<leftarrow> aget dst i;
        if mid s = mid d then merged_len dst src (i - 1) (len - 1) y
        else merged_len dst src i len y
      })"

text \<open>\<open>while (yp < dst[x].mid) dst[i--] = dst[x--];\<close>\<close>

fun merge_shift :: "MDB_ID2 list \<Rightarrow> u64 \<Rightarrow> nat \<Rightarrow> nat \<Rightarrow> (MDB_ID2 list \<times> nat \<times> nat) option" where
  "merge_shift dst yp i x = do {
     d \<leftarrow> aget dst x;
     if yp < mid d then
       (case x of
          0 \<Rightarrow> None
        | Suc x \<Rightarrow> do { dst \<leftarrow> aput dst i d; merge_shift dst yp (i - 1) x })
     else Some (dst, i, x)
   }"

fun merge_dirty :: "MDB_ID2 list \<Rightarrow> MDB_ID2 list \<Rightarrow> nat \<Rightarrow> nat \<Rightarrow> nat \<Rightarrow> (MDB_ID2 list \<times> nat \<times> nat) option" where
  "merge_dirty dst src i x 0 = Some (dst, i, x)"
| "merge_dirty dst src i x (Suc y) = do {
     s \<leftarrow> aget src (Suc y);
     (dst, i, x) \<leftarrow> merge_shift dst (mid s) i x;
     d \<leftarrow> aget dst x;
     let x = (if mid s = mid d then x - 1 else x);
     dst \<leftarrow> aput dst i s;
     merge_dirty dst src (i - 1) x y
   }"

definition merge_dirty_lists :: "MDB_ID2 list \<Rightarrow> MDB_ID2 list \<Rightarrow> nat option \<Rightarrow> MDB_ID2 list option" where
  "merge_dirty_lists dst src fixed_len = do {
     d0 \<leftarrow> aget dst 0;
     s0 \<leftarrow> aget src 0;
     let x = unat (mid d0);
     dst \<leftarrow> aput dst 0 (d0\<lparr>mid := 0\<rparr>);
     len \<leftarrow> (case fixed_len of
         Some len \<Rightarrow> Some len
       | None \<Rightarrow> do {
           dx \<leftarrow> aget dst x;
           y \<leftarrow> mdb_mid2l_search src (mid dx + 1);
           merged_len dst src x (x + unat (mid s0)) (y - 1)
         });
     (dst, i, x) \<leftarrow> merge_dirty dst src len x (unat (mid s0));
     if i \<noteq> x then None else aput dst 0 (d0\<lparr>mid := of_nat len\<rparr>)
   }"

text \<open>Appending the loose pages of the child to those of the parent.\<close>

partial_function (option) last_loose :: "mem \<Rightarrow> addr \<Rightarrow> addr option" where
  [code]: "last_loose m mp = (let n = NEXT_LOOSE_PAGE m mp in if n = 0 then Some mp else last_loose m n)"

definition append_loose :: "world \<Rightarrow> nat \<Rightarrow> nat \<Rightarrow> world option" where
  "append_loose w parent t = do {
     let c = txn w t;
     w \<leftarrow> (if mt_loose_pgs (txn w parent) = 0 then Some (upd_txn parent (\<lambda>x. x\<lparr>mt_loose_pgs := mt_loose_pgs c\<rparr>) w)
           else do {
             p \<leftarrow> last_loose (w_mem w) (mt_loose_pgs (txn w parent));
             Some (upd_mem (\<lambda>m. set_next_loose m p (mt_loose_pgs c)) w)
           });
     Some (upd_txn parent (\<lambda>x. x\<lparr>mt_loose_count := mt_loose_count x + mt_loose_count c\<rparr>) w)
   }"

definition merge_spill :: "world \<Rightarrow> nat \<Rightarrow> nat \<Rightarrow> (int \<times> world) option" where
  "merge_spill w parent t =
     (case (mt_spill_pgs (txn w t), mt_spill_pgs (txn w parent)) of
        (None, _) \<Rightarrow> Some (0, w)
      | (Some sl, None) \<Rightarrow> Some (0, upd_txn parent (\<lambda>x. x\<lparr>mt_spill_pgs := Some sl\<rparr>) w)
      | (Some sl, Some ps) \<Rightarrow> do {
          (rc, ps) \<leftarrow> mdb_midl_append_list (w_ok w) (w_gid w) ps (cells sl);
          let w = (if rc \<noteq> 0 then txn_or parent MDB_TXN_ERROR w else w);
          ids \<leftarrow> mdb_midl_sort (cells ps);
          Some (rc, upd_txn parent (\<lambda>x. x\<lparr>mt_spill_pgs := Some (ps\<lparr>cells := ids\<rparr>)\<rparr>) w)
        })"

definition merge_dbs :: "nat \<Rightarrow> nat \<Rightarrow> world \<Rightarrow> world" where
  "merge_dbs parent t w =
     (let c = txn w t; n = mt_numdbs c in
      upd_txn parent (\<lambda>x. x\<lparr>mt_dbs := (\<lambda>d. if d < n then mt_dbs c d else mt_dbs x d), mt_numdbs := n,
        mt_dbflags := (\<lambda>d. if d < CORE_DBS then mt_dbflags c d
                          else if d < n then mt_dbflags c d OR (mt_dbflags x d AND DB_NEW) else mt_dbflags x d)\<rparr>) w)"

definition commit_child :: "world \<Rightarrow> nat \<Rightarrow> nat \<Rightarrow> (bool \<times> int \<times> world) option" where
  "commit_child w parent t = do {
     (rc, l) \<leftarrow> mdb_midl_append_list (w_ok w) (w_gid w) (mt_free_pgs (txn w parent)) (cells (mt_free_pgs (txn w t)));
     let w = set_free_pgs parent l w;
     if rc \<noteq> 0 then Some (True, rc, w)
     else do {
       let w = upd_txn parent (\<lambda>x. x\<lparr>mt_next_pgno := mt_next_pgno (txn w t), mt_flags := mt_flags (txn w t)\<rparr>) w;
       w \<leftarrow> mdb_cursors_close w t True;
       let w = merge_dbs parent t w;
       let src = mt_dirty_list (txn w t);
       w \<leftarrow> (case mt_spill_pgs (txn w parent) of
           None \<Rightarrow> Some w
         | Some ps \<Rightarrow> do {
             n \<leftarrow> aget (cells ps) 0;
             if n = 0 then Some w
             else do { ids \<leftarrow> unspill_parent (cells ps) src; Some (upd_txn parent (\<lambda>x. x\<lparr>mt_spill_pgs := Some (ps\<lparr>cells := ids\<rparr>)\<rparr>) w) }
           });
       dst \<leftarrow> (case mt_spill_pgs (txn w t) of
           None \<Rightarrow> Some (mt_dirty_list (txn w parent))
         | Some sl \<Rightarrow> do { n \<leftarrow> aget (cells sl) 0; undirty_spilled (mt_dirty_list (txn w parent)) (cells sl) 1 (unat n) });
       dst \<leftarrow> merge_dirty_lists dst src
          (if mt_parent (txn w parent) \<noteq> None then None else Some (MDB_IDL_UM_MAX - mt_dirty_room (txn w t)));
       let w = upd_txn parent (\<lambda>x. x\<lparr>mt_dirty_list := dst, mt_dirty_room := mt_dirty_room (txn w t)\<rparr>) w;
       (rc, w) \<leftarrow> merge_spill w parent t;
       w \<leftarrow> append_loose w parent t;
       Some (False, rc, upd_txn parent (\<lambda>x. x\<lparr>mt_child := None\<rparr>) w)
     }
   }"

declare spill_down.simps [simp del] dirty_down.simps [simp del] merge_shift.simps [simp del]

subsection \<open>Committing to the data file\<close>

text \<open>The records of the named databases \<open>i\<close>, ... that were changed are stored in the main database.\<close>

fun commit_dbs :: "world \<Rightarrow> nat \<Rightarrow> nat \<Rightarrow> nat \<Rightarrow> nat \<Rightarrow> (int \<times> world) option" where
  "commit_dbs w t mc i 0 = Some (0, w)"
| "commit_dbs w t mc i (Suc k) = do {
     (rc, w) \<leftarrow>
       (if mt_dbflags (txn w t) i AND DB_DIRTY \<noteq> 0 then
          (if TXN_DBI_CHANGED w t i then Some (MDB_BAD_DBI, w)
           else do {
             let name = md_name (me_dbxs (w_env w) i);
             (rc, _, _, w) \<leftarrow> mdb_cursor_put w (Some mc) (Some \<lparr>mv_size = length name, mv_data = Obj name\<rparr>)
                \<lparr>mv_size = 48, mv_data = Obj (db_bytes (mt_dbs (txn w t) i))\<rparr> 0 F_SUBDATA;
             Some (rc, w)
           })
        else Some (0, w));
     if rc \<noteq> 0 then Some (rc, w) else commit_dbs w t mc (i + 1) k
   }"

definition commit_write :: "world \<Rightarrow> nat \<Rightarrow> (int \<times> world) option" where
  "commit_write w t = do {
     (rc, w) \<leftarrow>
       (if mt_numdbs (txn w t) > CORE_DBS then do {
          let (mc, w) = new_cur w;
          w \<leftarrow> cursor_init_gen mdb_page_touch mc t MAIN_DBI None w;
          commit_dbs w t mc CORE_DBS (mt_numdbs (txn w t) - CORE_DBS)
        } else Some (0, w));
     if rc \<noteq> 0 then Some (rc, w)
     else do {
       (rc, w) \<leftarrow> mdb_freelist_save w t;
       if rc \<noteq> 0 then Some (rc, w)
       else do {
         let w = upd_env (\<lambda>e. e\<lparr>me_pghead := None\<rparr>) w;
         let w = set_free_pgs t (mdb_midl_shrink (w_ok w) (w_gid w) (mt_free_pgs (txn w t))) w;
         (rc, w) \<leftarrow> mdb_page_flush w t 0;
         if rc \<noteq> 0 then Some (rc, w)
         else
           (let (rc, w) = mdb_env_sync w False in
            if rc \<noteq> 0 then Some (rc, w) else Some (mdb_env_write_meta w t))
       }
     }
   }"

definition commit_abort :: "world \<Rightarrow> nat \<Rightarrow> int \<Rightarrow> (int \<times> world) option" where
  "commit_abort w t rc = do { w \<leftarrow> mdb_txn_abort w (Some t); Some (rc, w) }"

partial_function (option) mdb_txn_commit :: "world \<Rightarrow> nat option \<Rightarrow> (int \<times> world) option" where
  [code]: "mdb_txn_commit w tp =
     (case tp of
        None \<Rightarrow> Some (EINVAL, w)
      | Some t \<Rightarrow> do {
          let empty_mode = MDB_END_EMPTY_COMMIT OR MDB_END_UPDATE OR MDB_END_SLOT OR MDB_END_FREE;
          (rc, w) \<leftarrow> (case mt_child (txn w t) of None \<Rightarrow> Some (0, w) | Some c \<Rightarrow> mdb_txn_commit w (Some c));
          if rc \<noteq> 0 then commit_abort w t rc
          else if F_ISSET (mt_flags (txn w t)) MDB_TXN_RDONLY then do {
            w \<leftarrow> mdb_txn_end w t empty_mode;
            Some (MDB_SUCCESS, w)
          }
          else if mt_flags (txn w t) AND (MDB_TXN_FINISHED OR MDB_TXN_ERROR) \<noteq> 0 then
            commit_abort (case mt_parent (txn w t) of None \<Rightarrow> w | Some p \<Rightarrow> txn_or p MDB_TXN_ERROR w) t MDB_BAD_TXN
          else (case mt_parent (txn w t) of
              Some parent \<Rightarrow> do {
                (fail, rc, w) \<leftarrow> commit_child w parent t;
                if fail then commit_abort w t rc else Some (rc, w)
              }
            | None \<Rightarrow>
                if Some t \<noteq> me_txn (w_env w) then commit_abort w t EINVAL
                else do {
                  w \<leftarrow> mdb_cursors_close w t False;
                  d0 \<leftarrow> aget (mt_dirty_list (txn w t)) 0;
                  if mid d0 = 0 \<and> mt_flags (txn w t) AND (MDB_TXN_DIRTY OR MDB_TXN_SPILLS) = 0 then do {
                    w \<leftarrow> mdb_txn_end w t empty_mode;
                    Some (MDB_SUCCESS, w)
                  }
                  else do {
                    (rc, w) \<leftarrow> commit_write w t;
                    if rc \<noteq> 0 then commit_abort w t rc
                    else do {
                      w \<leftarrow> mdb_txn_end w t (MDB_END_COMMITTED OR MDB_END_UPDATE);
                      Some (MDB_SUCCESS, w)
                    }
                  }
                })
        })"

end
