(* ===== verification/Readers.thy ===== *)
theory Readers
  imports Commit
begin

section \<open>The reader table (mdb.c)\<close>

text \<open>
  Clearing the slots of dead processes: the sorted list of process IDs, \<open>mdb_reader_check\<close> and the repair of
  a mutex whose owner died. A process ID is an \<open>int\<close>; the list of IDs has its length in cell 0.
\<close>

subsection \<open>The list of process IDs\<close>

text \<open>
  The difference of two process IDs, of type \<open>int\<close>. It can overflow, which is undefined, only if one of them is
  negative and the other is not.
\<close>

definition pid_diff :: "int \<Rightarrow> int \<Rightarrow> int option" where
  "pid_diff a b = (if (a < 0) \<noteq> (b < 0) \<and> (a - b < - (2 ^ 31) \<or> 2 ^ 31 \<le> a - b) then None else Some (a - b))"

lemma pid_diff_nonneg [simp]: "0 \<le> a \<Longrightarrow> 0 \<le> b \<Longrightarrow> pid_diff a b = Some (a - b)"
  by (simp add: pid_diff_def)

text \<open>
  \<open>while (0 < n) { pivot = n >> 1; cursor = base + pivot + 1; val = pid - ids[cursor]; ... }\<close>: the result is
  \<open>None\<close> inside for a duplicate, and else the last \<open>cursor\<close> and \<open>val\<close>.
\<close>

function pid_search :: "int list \<Rightarrow> int \<Rightarrow> nat \<Rightarrow> nat \<Rightarrow> nat \<Rightarrow> int \<Rightarrow> (nat \<times> int) option option" where
  "pid_search ids pid base cursor n val =
     (if 0 < n then do {
        let pivot = n div 2;
        let cursor = base + pivot + 1;
        x \<leftarrow> aget ids cursor;
        val \<leftarrow> pid_diff pid x;
        if val < 0 then pid_search ids pid base cursor pivot val
        else if val > 0 then pid_search ids pid cursor cursor (n - (pivot + 1)) val
        else Some None
      } else Some (Some (cursor, val)))"
  by pat_completeness auto
termination
  by (relation "measure (\<lambda>(ids, pid, base, cursor, n, val). n)") auto

declare pid_search.simps [simp del]

text \<open>\<open>for (n = ids[0]; n > cursor; n--) ids[n] = ids[n-1];\<close>, with the last \<open>n\<close>.\<close>

fun pid_shift :: "int list \<Rightarrow> nat \<Rightarrow> nat \<Rightarrow> (nat \<times> int list) option" where
  "pid_shift ids cursor 0 = Some (0, ids)"
| "pid_shift ids cursor (Suc n) =
     (if Suc n > cursor then do {
        x \<leftarrow> aget ids n;
        ids \<leftarrow> aput ids (Suc n) x;
        pid_shift ids cursor n
      } else Some (Suc n, ids))"

definition mdb_pid_insert :: "int list \<Rightarrow> int \<Rightarrow> (int \<times> int list) option" where
  "mdb_pid_insert ids pid = do {
     n \<leftarrow> aget ids 0;
     r \<leftarrow> pid_search ids pid 0 1 (nat n) 0;
     case r of
       None \<Rightarrow> Some (- 1, ids)
     | Some (cursor, val) \<Rightarrow> do {
         let cursor = (if val > 0 then cursor + 1 else cursor);
         ids \<leftarrow> aput ids 0 (n + 1);
         (i, ids) \<leftarrow> pid_shift ids cursor (nat (n + 1));
         ids \<leftarrow> aput ids i pid;
         Some (0, ids)
       }
   }"

subsection \<open>Clearing stale slots\<close>

text \<open>\<open>for (; j<rdrs; j++) if (mr[j].mr_pid == pid) { mr[j].mr_pid = 0; count++; }\<close>, with \<open>k\<close> slots left.\<close>

fun clear_stale :: "world \<Rightarrow> nat \<Rightarrow> nat \<Rightarrow> nat \<Rightarrow> nat \<Rightarrow> (nat \<times> world) option" where
  "clear_stale w pid j 0 cnt = Some (cnt, w)"
| "clear_stale w pid j (Suc k) cnt = do {
     ti \<leftarrow> me_txns (w_env w);
     r \<leftarrow> aget (mti_readers ti) j;
     if mr_pid r = pid then do {
       w \<leftarrow> upd_reader j (\<lambda>x. x\<lparr>mr_pid := 0\<rparr>) w;
       clear_stale w pid (j + 1) k (cnt + 1)
     } else clear_stale w pid (j + 1) k cnt
   }"

text \<open>
  \<open>lock\<close> is the reader mutex to take, None when the caller holds it: its result is the return code after
  \<open>mdb_mutex_failed\<close>, whether that has already checked all the readers, and the world, in which another
  process may have taken a process ID. \<open>w_alive\<close> is \<open>mdb_reader_pid(env, Pidcheck, pid)\<close>.
\<close>

fun check_loop :: "(world \<Rightarrow> (int \<times> bool \<times> world) option) option \<Rightarrow> world \<Rightarrow> int list \<Rightarrow> nat \<Rightarrow> nat \<Rightarrow> nat \<Rightarrow> (int \<times> nat \<times> world) option" where
  "check_loop lock w pids i 0 cnt = Some (0, cnt, w)"
| "check_loop lock w pids i (Suc k) cnt = do {
     ti \<leftarrow> me_txns (w_env w);
     r \<leftarrow> aget (mti_readers ti) i;
     let pid = mr_pid r;
     if pid \<noteq> 0 \<and> pid \<noteq> me_pid (w_env w) then do {
       (rc, pids) \<leftarrow> mdb_pid_insert pids (int pid);
       if rc = 0 \<and> \<not> w_alive w pid then
         (case lock of
            None \<Rightarrow> do {
              (cnt, w) \<leftarrow> clear_stale w pid i (Suc k) cnt;
              check_loop lock w pids (i + 1) k cnt
            }
          | Some l \<Rightarrow> do {
              (rc, checked, w) \<leftarrow> l w;
              if rc \<noteq> 0 then Some (rc, cnt, w)
              else if checked then Some (0, cnt, w)
              else if w_alive w pid then check_loop lock w pids (i + 1) k cnt
              else do {
                (cnt, w) \<leftarrow> clear_stale w pid i (Suc k) cnt;
                check_loop lock w pids (i + 1) k cnt
              }
            })
       else check_loop lock w pids (i + 1) k cnt
     }
     else check_loop lock w pids (i + 1) k cnt
   }"

definition mdb_reader_check0 :: "(world \<Rightarrow> (int \<times> bool \<times> world) option) option \<Rightarrow> world \<Rightarrow> (int \<times> nat \<times> world) option" where
  "mdb_reader_check0 lock w = do {
     ti \<leftarrow> me_txns (w_env w);
     let rdrs = mti_numreaders ti;
     if \<not> w_ok w (4 * (rdrs + 1)) then Some (ENOMEM, 0, w)
     else check_loop lock w (0 # replicate rdrs 0) 0 rdrs 0
   }"

subsection \<open>Repairing a mutex\<close>

text \<open>
  \<open>rlocked\<close> says which mutex failed; \<open>lock\<close> is the reader mutex for the check of the readers when it is the
  writer's; \<open>consistent\<close> is the outcome of \<open>pthread_mutex_consistent\<close>.
\<close>

abbreviation (input) MDB_OWNERDEAD :: int where "MDB_OWNERDEAD \<equiv> 130"

definition mdb_mutex_failed :: "(world \<Rightarrow> (int \<times> bool \<times> world) option) \<Rightarrow> int \<Rightarrow> world \<Rightarrow> bool \<Rightarrow> int \<Rightarrow> (int \<times> world) option" where
  "mdb_mutex_failed lock consistent w rlocked rc =
     (if rc = MDB_OWNERDEAD then do {
        let w1 = (if rlocked then w else set_mti_txnid (mm_txnid (get_meta w (mdb_env_pick_meta w))) w);
        let hosed = (\<not> rlocked \<and> me_txn (w_env w) \<noteq> None);
        let w2 = (if hosed then upd_env (\<lambda>e. e\<lparr>me_flags := me_flags e OR MDB_FATAL_ERROR, me_txn := None\<rparr>) w1 else w1);
        (rc2, _, w3) \<leftarrow> mdb_reader_check0 (if rlocked then None else Some lock) w2;
        let rc2 = (if rc2 = 0 then consistent else rc2);
        if hosed then Some (MDB_PANIC, if rlocked then w3 else w3\<lparr>w_wlock := False\<rparr>)
        else if rc2 \<noteq> 0 then Some (rc2, if rlocked then w3 else w3\<lparr>w_wlock := False\<rparr>)
        else Some (0, w3)
      } else Some (rc, w))"

text \<open>Taking the reader mutex: \<open>rc\<close> is the result of \<open>LOCK_MUTEX0\<close>, and a failure is repaired if the owner died.\<close>

definition lock_rmutex :: "int \<Rightarrow> int \<Rightarrow> world \<Rightarrow> (int \<times> bool \<times> world) option" where
  "lock_rmutex rc consistent w =
     (if rc \<noteq> 0 then do {
        (rc, w) \<leftarrow> mdb_mutex_failed (\<lambda>w. Some (0, False, w)) consistent w True rc;
        Some (rc, True, w)
      } else Some (0, False, w))"

definition mdb_reader_check :: "int \<Rightarrow> int \<Rightarrow> world \<Rightarrow> (int \<times> nat \<times> world) option" where
  "mdb_reader_check rc consistent w =
     (if me_txns (w_env w) = None then Some (MDB_SUCCESS, 0, w)
      else mdb_reader_check0 (Some (lock_rmutex rc consistent)) w)"

text \<open>The destructor of a thread's slot.\<close>

definition mdb_env_reader_dest :: "world \<Rightarrow> nat \<Rightarrow> world option" where
  "mdb_env_reader_dest w r = upd_reader r (\<lambda>x. x\<lparr>mr_pid := 0\<rparr>) w"

text \<open>The loop of \<open>mdb_env_close0\<close>: \<open>for (i = env->me_close_readers; --i >= 0; )\<close>.\<close>

fun close_readers :: "world \<Rightarrow> nat \<Rightarrow> world option" where
  "close_readers w 0 = Some w"
| "close_readers w (Suc i) = do {
     ti \<leftarrow> me_txns (w_env w);
     r \<leftarrow> aget (mti_readers ti) i;
     w \<leftarrow> (if mr_pid r = me_pid (w_env w) then upd_reader i (\<lambda>x. x\<lparr>mr_pid := 0\<rparr>) w else Some w);
     close_readers w i
   }"

end
