(* ===== verification/Page_Ops.thy ===== *)
theory Page_Ops
  imports Page
begin

section \<open>Operations inside a page\<close>

text \<open>
  The functions of the theory \<open>Page\<close> implement operations on the list of nodes of a page: each lemma
  gives the new list, that the page is well formed again, and that no byte outside of the page
  changes.
\<close>

subsection \<open>Deleting a node\<close>

lemma page_wfD:
  assumes "page_wf psz m mp"
  shows "unat (mp_lower m mp) = 16 + 2 * NUMKEYS m mp" and "16 + 2 * NUMKEYS m mp \<le> unat (mp_upper m mp)"
    and "unat (mp_upper m mp) \<le> psz" and "psz \<le> 32768"
    and "\<And>i. i < NUMKEYS m mp \<Longrightarrow> unat (mp_upper m mp) \<le> nptr m mp i"
    and "\<And>i. i < NUMKEYS m mp \<Longrightarrow> nptr m mp i + nlen m mp i \<le> psz"
    and "\<And>i j. i < NUMKEYS m mp \<Longrightarrow> j < NUMKEYS m mp \<Longrightarrow> i \<noteq> j \<Longrightarrow>
        nptr m mp i + nlen m mp i \<le> nptr m mp j \<or> nptr m mp j + nlen m mp j \<le> nptr m mp i"
  using assms by (auto simp: page_wf_def)

lemma page_wfI:
  assumes "unat (mp_lower m mp) = 16 + 2 * n" and "16 + 2 * n \<le> unat (mp_upper m mp)"
    and "unat (mp_upper m mp) \<le> psz" and "psz \<le> 32768"
    and "\<And>i. i < n \<Longrightarrow> unat (mp_upper m mp) \<le> nptr m mp i"
    and "\<And>i. i < n \<Longrightarrow> nptr m mp i + nlen m mp i \<le> psz"
    and "\<And>i j. i < n \<Longrightarrow> j < n \<Longrightarrow> i \<noteq> j \<Longrightarrow>
        nptr m mp i + nlen m mp i \<le> nptr m mp j \<or> nptr m mp j + nlen m mp j \<le> nptr m mp i"
  shows "page_wf psz m mp"
  using assms NUMKEYS_lower[OF assms(1)] by (simp add: page_wf_def)

lemma unat16_add: "unat (v::u16) + k < 65536 \<Longrightarrow> unat (v + of_nat k) = unat v + k"
  by (simp add: unat_word_ariths unat_of_nat take_bit_eq_mod)

lemma unat16_sub: "k \<le> unat (v::u16) \<Longrightarrow> unat (v - of_nat k) = unat v - k"
proof -
  assume k: "k \<le> unat v"
  have "unat v < 65536" using unsigned_less[of v, where 'a = nat] by simp
  with k have "unat (of_nat k :: u16) = k" by (simp add: unat_of_nat take_bit_nat_eq_self)
  with k show ?thesis by (simp add: unat_sub word_le_nat_alt)
qed

text \<open>
  The page after \<open>mdb_node_del\<close>, byte by byte: the header with the new bounds, the pointers, and the bytes
  of the nodes below the deleted one moved up.
\<close>

lemma page_node_del_bytes:
  assumes wf: "page_wf psz m mp" and i: "indx < NUMKEYS m mp" and leaf2: "\<not> IS_LEAF2 m mp"
  defines "n \<equiv> NUMKEYS m mp" and "s \<equiv> nlen m mp indx" and "P \<equiv> nptr m mp indx" and "U \<equiv> unat (mp_upper m mp)"
  obtains m' where "page_node_del m mp indx ks = Some m'"
    and "same_outside mp (mp + psz) m m'"
    and "\<And>x. mp \<le> x \<Longrightarrow> x < mp + 12 \<Longrightarrow> m' x = m x"
    and "unat (mp_lower m' mp) = 16 + 2 * (n - 1)" and "unat (mp_upper m' mp) = U + s"
    and "\<And>j. j < n - 1 \<Longrightarrow> nptr m' mp j = (let q = nptr m mp (del_src indx j) in if q < P then q + s else q)"
    and "\<And>x. U + s \<le> x \<Longrightarrow> x < P + s \<Longrightarrow> m' (mp + x) = m (mp + (x - s))"
    and "\<And>x. P + s \<le> x \<Longrightarrow> x < psz \<Longrightarrow> m' (mp + x) = m (mp + x)"
proof -
  note w = page_wfD[OF wf]
  have P: "U \<le> P" "P + s \<le> psz" "16 + 2 * n \<le> U" "s \<ge> 8" "psz \<le> 32768"
    using w i nlen_pos[of m mp indx] by (auto simp: n_def s_def P_def U_def)
  define ptr where "ptr = mp_ptrs m mp indx"
  have pP: "unat ptr = P" by (simp add: ptr_def P_def nptr_def)
  define m1 where "m1 = ptrs_del m mp indx ptr s n 0 0"
  have m1: "mp_ptrs m1 mp q = (if del_src indx q < n then del_ptr ptr s (mp_ptrs m mp (del_src indx q)) else mp_ptrs m mp q)"
    and out1: "same_outside (mp + 16) (mp + 16 + 2 * n) m m1" for q
    using ptrs_del_spec[of 0 indx 0 m mp ptr s n] by (simp_all add: m1_def)
  have hdr1: "rd16 m1 (mp + d) = rd16 m (mp + d)" if "d + 2 \<le> 16" for d
    using that by (intro rd16_cong same_outsideD[OF out1]) auto
  define m2 where "m2 = memmove m1 (mp + U + s) (mp + U) (P - U)"
  define m3 where "m3 = set_lower m2 mp (mp_lower m2 mp - 2)"
  define m4 where "m4 = set_upper m3 mp (mp_upper m3 mp + of_nat s)"
  have up1: "mp_upper m1 mp = mp_upper m mp" using hdr1[of 14] by (simp add: mp_upper_def)
  have diff: "unat (ptr - mp_upper m mp) = P - U"
    using unat16_sub[of U ptr] P(1) pP by (simp add: U_def)
  have run: "page_node_del m mp indx ks = Some m4"
    using i leaf2 up1 diff
    by (simp add: page_node_del_def Let_def m4_def m3_def m2_def m1_def node_sz_raw s_def nlen_def n_def ptr_def U_def add.assoc)
  have out2: "same_outside (mp + 16) (mp + psz) m1 m2"
    using P unfolding m2_def by (intro same_outside_memmove) auto
  have hdr2: "rd16 m2 (mp + d) = rd16 m (mp + d)" if "d + 2 \<le> 16" for d
    using that hdr1[OF that] by (subst rd16_cong[of m2 "mp + d" m1 "mp + d"]) (auto intro!: same_outsideD[OF out2])
  have low: "mp_lower m4 mp = mp_lower m mp - 2" and upp: "mp_upper m4 mp = mp_upper m mp + of_nat s"
    using hdr2[of 12] hdr2[of 14]
    by (simp_all add: m4_def m3_def mp_lower_def mp_upper_def set_lower_def set_upper_def mem_simps)
  have out34: "same_outside (mp + 12) (mp + 16) m2 m4"
    unfolding m4_def m3_def set_lower_def set_upper_def by (intro same_outside_wr16) auto
  show thesis
  proof (rule that[OF run])
    have "same_outside mp (mp + psz) m m1" by (rule same_outside_mono[OF out1]) (use P in auto)
    moreover have "same_outside mp (mp + psz) m1 m2" by (rule same_outside_mono[OF out2]) auto
    moreover have "same_outside mp (mp + psz) m2 m4" by (rule same_outside_mono[OF out34]) (use P in auto)
    ultimately show "same_outside mp (mp + psz) m m4" by (blast intro: same_outside_trans)
  next
    fix x assume "mp \<le> x" "x < mp + 12"
    then show "m4 x = m x"
      using same_outsideD[OF out34, of x] same_outsideD[OF out2, of x] same_outsideD[OF out1, of x] by simp
  next
    have "1 \<le> n" using i by (simp add: n_def)
    then show "unat (mp_lower m4 mp) = 16 + 2 * (n - 1)"
      using unat16_sub[of 2 "mp_lower m mp"] w(1) by (simp add: low n_def)
    show "unat (mp_upper m4 mp) = U + s"
      using unat16_add[of "mp_upper m mp" s] P by (simp add: upp U_def)
  next
    fix j assume j: "j < n - 1"
    have src: "del_src indx j < n" using j by (auto simp: del_src_def)
    have "mp_ptrs m4 mp j = mp_ptrs m2 mp j"
      unfolding mp_ptrs_def by (intro rd16_cong same_outsideD[OF out34]) auto
    moreover have "mp_ptrs m2 mp j = mp_ptrs m1 mp j"
      unfolding mp_ptrs_def m2_def using j P(3) by (intro rd16_cong memmove_out) auto
    ultimately have "mp_ptrs m4 mp j = del_ptr ptr s (mp_ptrs m mp (del_src indx j))" using m1 src by simp
    moreover have "nptr m mp (del_src indx j) + s < 65536" if "nptr m mp (del_src indx j) < P" using that P by simp
    ultimately show "nptr m4 mp j = (let q = nptr m mp (del_src indx j) in if q < P then q + s else q)"
      using pP by (simp add: nptr_def del_ptr_def word_less_nat_alt unat16_add)
  next
    fix x assume x: "U + s \<le> x" "x < P + s"
    have "m4 (mp + x) = m2 (mp + x)" using x P by (intro same_outsideD[OF out34]) auto
    also have "\<dots> = m1 (mp + U + (mp + x - (mp + U + s)))" unfolding m2_def using x by (intro memmove_in) auto
    also have "\<dots> = m1 (mp + (x - s))" using x by (simp add: add.assoc)
    also have "\<dots> = m (mp + (x - s))" using x P by (intro same_outsideD[OF out1]) auto
    finally show "m4 (mp + x) = m (mp + (x - s))" .
  next
    fix x assume x: "P + s \<le> x" "x < psz"
    have "m4 (mp + x) = m2 (mp + x)" using x P by (intro same_outsideD[OF out34]) auto
    also have "\<dots> = m1 (mp + x)" unfolding m2_def using x P by (intro memmove_out) auto
    also have "\<dots> = m (mp + x)" using x P by (intro same_outsideD[OF out1]) auto
    finally show "m4 (mp + x) = m (mp + x)" .
  qed
qed

lemma IS_LEAF_cong: "(\<And>x. mp \<le> x \<Longrightarrow> x < mp + 12 \<Longrightarrow> m' x = m x) \<Longrightarrow> mp_flags m' mp = mp_flags m mp"
  unfolding mp_flags_def by (rule rd16_cong) auto

lemma node_kept:
  assumes "mp_flags m' mp' = mp_flags m mp"
    and "\<And>k. k < nlen m mp i \<Longrightarrow> m' (mp' + nptr m' mp' j + k) = m (mp + nptr m mp i + k)"
  shows "node_at (IS_LEAF m' mp') m' (NODEPTR m' mp' j) = node_at (IS_LEAF m mp) m (NODEPTR m mp i)"
    and "nlen m' mp' j = nlen m mp i"
proof -
  have leaf: "IS_LEAF m' mp' = IS_LEAF m mp" using assms(1) by (simp add: IS_LEAF_def)
  have "m' (NODEPTR m' mp' j + k) = m (NODEPTR m mp i + k)" if "k < raw_sz (IS_LEAF m mp) m (NODEPTR m mp i)" for k
    using assms(2)[of k] that EVEN_bounds(1)[of "raw_sz (IS_LEAF m mp) m (NODEPTR m mp i)"]
    by (simp add: NODEPTR_nptr nlen_def)
  note c = node_move_cong[of "IS_LEAF m mp" m "NODEPTR m mp i" m' "NODEPTR m' mp' j", OF this]
  show "node_at (IS_LEAF m' mp') m' (NODEPTR m' mp' j) = node_at (IS_LEAF m mp) m (NODEPTR m mp i)"
    and "nlen m' mp' j = nlen m mp i" using c by (simp_all add: leaf nlen_def)
qed

lemma nth_page_nodes: "i < NUMKEYS m mp \<Longrightarrow> page_nodes m mp ! i = node_at (IS_LEAF m mp) m (NODEPTR m mp i)"
  by (simp add: page_nodes_def)

lemma length_page_nodes [simp]: "length (page_nodes m mp) = NUMKEYS m mp"
  by (simp add: page_nodes_def)

lemma SIZELEFT_nat:
  "unat (mp_lower m mp) \<le> unat (mp_upper m mp) \<Longrightarrow> unat (SIZELEFT m mp) = unat (mp_upper m mp) - unat (mp_lower m mp)"
  by (simp add: SIZELEFT_def unat_sub word_le_nat_alt)

lemma page_node_del_spec:
  assumes wf: "page_wf psz m mp" and i: "indx < NUMKEYS m mp" and leaf2: "\<not> IS_LEAF2 m mp"
  shows "\<exists>m'. page_node_del m mp indx ks = Some m' \<and> page_wf psz m' mp \<and>
     page_nodes m' mp = take indx (page_nodes m mp) @ drop (Suc indx) (page_nodes m mp) \<and>
     mp_flags m' mp = mp_flags m mp \<and> mp_pgno m' mp = mp_pgno m mp \<and>
     unat (SIZELEFT m' mp) = unat (SIZELEFT m mp) + nlen m mp indx + 2 \<and>
     same_outside mp (mp + psz) m m'"
proof -
  note w = page_wfD[OF wf]
  let ?n = "NUMKEYS m mp" and ?s = "nlen m mp indx" and ?P = "nptr m mp indx" and ?U = "unat (mp_upper m mp)"
  obtain m' where run: "page_node_del m mp indx ks = Some m'" and out: "same_outside mp (mp + psz) m m'"
    and hdr: "\<And>x. mp \<le> x \<Longrightarrow> x < mp + 12 \<Longrightarrow> m' x = m x"
    and low: "unat (mp_lower m' mp) = 16 + 2 * (?n - 1)" and upp: "unat (mp_upper m' mp) = ?U + ?s"
    and ptr: "\<And>j. j < ?n - 1 \<Longrightarrow> nptr m' mp j = (let q = nptr m mp (del_src indx j) in if q < ?P then q + ?s else q)"
    and moved: "\<And>x. ?U + ?s \<le> x \<Longrightarrow> x < ?P + ?s \<Longrightarrow> m' (mp + x) = m (mp + (x - ?s))"
    and kept: "\<And>x. ?P + ?s \<le> x \<Longrightarrow> x < psz \<Longrightarrow> m' (mp + x) = m (mp + x)"
    by (rule page_node_del_bytes[OF wf i leaf2, of ks]) (rule that)
  have n': "NUMKEYS m' mp = ?n - 1" using NUMKEYS_lower[OF low] .
  have fl: "mp_flags m' mp = mp_flags m mp" by (rule IS_LEAF_cong[OF hdr])
  have pg: "mp_pgno m' mp = mp_pgno m mp" unfolding mp_pgno_def by (rule rd64_cong) (use hdr in auto)
  have src: "del_src indx j < ?n" "del_src indx j \<noteq> indx" if "j < ?n - 1" for j
    using that by (auto simp: del_src_def)
  have inj: "del_src indx j = del_src indx k \<longleftrightarrow> j = k" for j k by (auto simp: del_src_def)
  have below: "nptr m mp (del_src indx j) + nlen m mp (del_src indx j) \<le> ?P \<or> ?P + ?s \<le> nptr m mp (del_src indx j)"
    if "j < ?n - 1" for j using w(7)[OF src(1)[OF that] i src(2)[OF that]] by blast
  have bytes: "m' (mp + nptr m' mp j + k) = m (mp + nptr m mp (del_src indx j) + k)"
    if j: "j < ?n - 1" and k: "k < nlen m mp (del_src indx j)" for j k
  proof (cases "nptr m mp (del_src indx j) < ?P")
    case True
    then have le: "nptr m mp (del_src indx j) + nlen m mp (del_src indx j) \<le> ?P" using below[OF j] by linarith
    have "m' (mp + (nptr m mp (del_src indx j) + ?s + k)) = m (mp + (nptr m mp (del_src indx j) + ?s + k - ?s))"
      using w(5)[OF src(1)[OF j]] le k by (intro moved) auto
    then show ?thesis using True ptr[OF j] by (simp add: ac_simps)
  next
    case False
    then have "?P + ?s \<le> nptr m mp (del_src indx j)" using below[OF j] nlen_pos[of m mp "del_src indx j"] by linarith
    then have "m' (mp + (nptr m mp (del_src indx j) + k)) = m (mp + (nptr m mp (del_src indx j) + k))"
      using w(6)[OF src(1)[OF j]] k by (intro kept) auto
    then show ?thesis using False ptr[OF j] by (simp add: ac_simps)
  qed
  note keep = node_kept[OF fl bytes]
  have nodes: "page_nodes m' mp = take indx (page_nodes m mp) @ drop (Suc indx) (page_nodes m mp)"
  proof (rule nth_equalityI)
    show len: "length (page_nodes m' mp) = length (take indx (page_nodes m mp) @ drop (Suc indx) (page_nodes m mp))"
      using i n' by simp
    fix j assume "j < length (page_nodes m' mp)"
    then have j: "j < ?n - 1" using n' by simp
    then show "page_nodes m' mp ! j = (take indx (page_nodes m mp) @ drop (Suc indx) (page_nodes m mp)) ! j"
      using keep(1)[OF j] i n' by (auto simp: nth_append nth_page_nodes del_src_def)
  qed
  have wf': "page_wf psz m' mp"
  proof (rule page_wfI[OF low])
    show "16 + 2 * (?n - 1) \<le> unat (mp_upper m' mp)" "unat (mp_upper m' mp) \<le> psz" "psz \<le> 32768"
      using upp w(2,4) w(5,6)[OF i] by auto
  next
    fix j assume j: "j < ?n - 1"
    show "unat (mp_upper m' mp) \<le> nptr m' mp j"
      using ptr[OF j] below[OF j] nlen_pos[of m mp "del_src indx j"] w(5)[OF src(1)[OF j]] w(5)[OF i] by (auto simp: upp Let_def)
    show "nptr m' mp j + nlen m' mp j \<le> psz"
      using ptr[OF j] below[OF j] nlen_pos[of m mp indx] w(6)[OF src(1)[OF j]] w(6)[OF i] by (auto simp: keep(2)[OF j] Let_def)
  next
    fix j k assume jk: "j < ?n - 1" "k < ?n - 1" "j \<noteq> k"
    then have "del_src indx j \<noteq> del_src indx k" using inj by simp
    from w(7)[OF src(1)[OF jk(1)] src(1)[OF jk(2)] this] ptr[OF jk(1)] ptr[OF jk(2)] below[OF jk(1)] below[OF jk(2)]
      nlen_pos[of m mp "del_src indx j"] nlen_pos[of m mp "del_src indx k"]
    show "nptr m' mp j + nlen m' mp j \<le> nptr m' mp k \<or> nptr m' mp k + nlen m' mp k \<le> nptr m' mp j"
      by (auto simp: keep(2)[OF jk(1)] keep(2)[OF jk(2)] Let_def split: if_splits)
  qed
  have left: "unat (SIZELEFT m' mp) = unat (SIZELEFT m mp) + ?s + 2"
  proof -
    have "16 + 2 * (?n - 1) + 2 = 16 + 2 * ?n" using i by simp
    then show ?thesis
      using SIZELEFT_nat[of m mp] SIZELEFT_nat[of m' mp] w(1,2) low upp by linarith
  qed
  show ?thesis using run wf' nodes fl pg left out by blast
qed

subsection \<open>Adding a node\<close>

definition ins_src :: "nat \<Rightarrow> nat \<Rightarrow> nat" where
  "ins_src indx j = (if j < indx then j else j - 1)"

definition node_add_hdr :: "mem \<Rightarrow> addr \<Rightarrow> nat \<Rightarrow> nat \<Rightarrow> mem" where
  "node_add_hdr m mp indx node_size =
     (let m = ptrs_up m mp indx (NUMKEYS m mp);
          ofs = mp_upper m mp - of_nat node_size;
          m = set_ptr m mp indx ofs;
          m = set_upper m mp ofs
      in set_lower m mp (mp_lower m mp + 2))"

lemma node_add_hdr_bytes:
  assumes wf: "page_wf psz m mp" and i: "indx \<le> NUMKEYS m mp" and room: "s + 2 \<le> unat (SIZELEFT m mp)"
  defines "n \<equiv> NUMKEYS m mp" and "U \<equiv> unat (mp_upper m mp)" and "m' \<equiv> node_add_hdr m mp indx s"
  shows "same_outside (mp + 12) (mp + 16 + 2 * Suc n) m m'"
    and "mp_flags m' mp = mp_flags m mp" and "mp_pgno m' mp = mp_pgno m mp"
    and "unat (mp_lower m' mp) = 16 + 2 * Suc n" and "unat (mp_upper m' mp) = U - s"
    and "16 + 2 * Suc n \<le> U - s" and "s \<le> U"
    and "j < Suc n \<Longrightarrow> nptr m' mp j = (if j = indx then U - s else nptr m mp (ins_src indx j))"
    and "\<not> unat (mp_upper (ptrs_up m mp indx n) mp - of_nat s) < unat (mp_lower (ptrs_up m mp indx n) mp) + 2"
proof -
  note w = page_wfD[OF wf]
  have left: "unat (SIZELEFT m mp) = U - (16 + 2 * n)"
    using SIZELEFT_nat[of m mp] w(1,2) by (simp add: U_def n_def)
  then have U: "16 + 2 * Suc n \<le> U - s" "s \<le> U" "U \<le> psz" "psz \<le> 32768"
    using room w(2,3,4) by (auto simp: U_def n_def)
  then show "16 + 2 * Suc n \<le> U - s" "s \<le> U" by auto
  define m1 where "m1 = ptrs_up m mp indx n"
  define ofs where "ofs = mp_upper m1 mp - of_nat s"
  define m2 where "m2 = set_ptr m1 mp indx ofs"
  define m3 where "m3 = set_upper m2 mp ofs"
  have m': "m' = set_lower m3 mp (mp_lower m3 mp + 2)"
    by (simp add: m'_def node_add_hdr_def m3_def m2_def ofs_def m1_def n_def Let_def)
  have out1: "same_outside (mp + 16) (mp + 16 + 2 * Suc n) m m1" unfolding m1_def by (rule ptrs_up_spec(2))
  have out2: "same_outside (mp + 16) (mp + 16 + 2 * Suc n) m m2"
    unfolding m2_def set_ptr_def using i by (intro same_outside_wr16 out1) (auto simp: n_def)
  have "rd16 m1 (mp + 14) = rd16 m (mp + 14)" "rd16 m1 (mp + 12) = rd16 m (mp + 12)"
    by (intro rd16_cong same_outsideD[OF out1]; simp)+
  then have up1: "mp_upper m1 mp = mp_upper m mp" and lo1: "mp_lower m1 mp = mp_lower m mp"
    by (simp_all add: mp_upper_def mp_lower_def)
  have "rd16 m2 (mp + 12) = rd16 m (mp + 12)" "rd16 m2 (mp + 10) = rd16 m (mp + 10)" "rd64 m2 mp = rd64 m mp"
    by (intro rd16_cong rd64_cong same_outsideD[OF out2]; simp)+
  then have low: "mp_lower m' mp = mp_lower m mp + 2" and fl: "mp_flags m' mp = mp_flags m mp" and pg: "mp_pgno m' mp = mp_pgno m mp"
    and upp: "mp_upper m' mp = ofs"
    by (simp_all add: m' m3_def header_defs mem_simps)
  show "mp_flags m' mp = mp_flags m mp" "mp_pgno m' mp = mp_pgno m mp" by (rule fl, rule pg)
  have uofs: "unat ofs = U - s" using unat16_sub[of s "mp_upper m mp"] U(2) by (simp add: ofs_def up1 U_def)
  show "unat (mp_upper m' mp) = U - s" by (simp add: upp uofs)
  show "unat (mp_lower m' mp) = 16 + 2 * Suc n"
    using unat16_add[of "mp_lower m mp" 2] U w(1) by (simp add: low n_def)
  show "same_outside (mp + 12) (mp + 16 + 2 * Suc n) m m'"
    unfolding m' m3_def set_lower_def set_upper_def
    by (intro same_outside_wr16) (auto intro: same_outside_mono[OF out2])
  show "\<not> unat (mp_upper (ptrs_up m mp indx n) mp - of_nat s) < unat (mp_lower (ptrs_up m mp indx n) mp) + 2"
    unfolding m1_def[symmetric] ofs_def[symmetric] using uofs U(1) w(1) lo1 by (simp add: n_def)
  show "nptr m' mp j = (if j = indx then U - s else nptr m mp (ins_src indx j))" if j: "j < Suc n"
  proof -
    have "mp_ptrs m' mp j = mp_ptrs m2 mp j" by (simp add: m' m3_def header_defs mem_simps)
    also have "\<dots> = (if j = indx then ofs else mp_ptrs m mp (ins_src indx j))"
      using j by (auto simp: m2_def m1_def ptrs_up_spec(1) ins_src_def)
    finally show ?thesis using uofs by (simp add: nptr_def)
  qed
qed

text \<open>
  The rest of \<open>mdb_node_add\<close> writes only into the new node. So the page gets the new node at its index
  and keeps the others.
\<close>

lemma node_inserted:
  assumes wf: "page_wf psz m mp" and i: "indx \<le> NUMKEYS m mp" and room: "s + 2 \<le> unat (SIZELEFT m mp)"
    and same: "\<And>x. x < unat (mp_upper m mp) - s \<or> (unat (mp_upper m mp) \<le> x \<and> x < psz) \<Longrightarrow>
        m' (mp + x) = node_add_hdr m mp indx s (mp + x)"
    and new: "EVEN (raw_sz (IS_LEAF m mp) m' (mp + (unat (mp_upper m mp) - s))) = s"
  shows "page_wf psz m' mp"
    and "page_nodes m' mp = take indx (page_nodes m mp) @ node_at (IS_LEAF m mp) m' (mp + (unat (mp_upper m mp) - s)) # drop indx (page_nodes m mp)"
    and "mp_flags m' mp = mp_flags m mp" and "mp_pgno m' mp = mp_pgno m mp"
    and "unat (SIZELEFT m' mp) = unat (SIZELEFT m mp) - (s + 2)"
proof -
  note w = page_wfD[OF wf] and h = node_add_hdr_bytes[OF wf i room]
  let ?h = "node_add_hdr m mp indx s" and ?n = "NUMKEYS m mp" and ?U = "unat (mp_upper m mp)"
  have hd: "m' x = ?h x" if "mp \<le> x" "x < mp + (?U - s)" for x
  proof -
    have "m' (mp + (x - mp)) = ?h (mp + (x - mp))" using that by (intro same) auto
    then show ?thesis using that by simp
  qed
  have rd: "rd16 m' (mp + d) = rd16 ?h (mp + d)" if "d + 2 \<le> ?U - s" for d
    using that by (intro rd16_cong hd) auto
  have low: "unat (mp_lower m' mp) = 16 + 2 * Suc ?n" and upp: "unat (mp_upper m' mp) = ?U - s"
    and fl: "mp_flags m' mp = mp_flags m mp"
    using h(2,4,5,6) rd[of 12] rd[of 14] rd[of 10] by (simp_all add: mp_lower_def mp_upper_def mp_flags_def)
  show "mp_flags m' mp = mp_flags m mp" by (rule fl)
  have "rd64 m' mp = rd64 ?h mp" using h(6) by (intro rd64_cong hd) auto
  then show "mp_pgno m' mp = mp_pgno m mp" using h(3) by (simp add: mp_pgno_def)
  have leaf: "IS_LEAF m' mp = IS_LEAF m mp" by (simp add: IS_LEAF_def fl)
  have n': "NUMKEYS m' mp = Suc ?n" using NUMKEYS_lower[OF low] .
  have ptr: "nptr m' mp j = (if j = indx then ?U - s else nptr m mp (ins_src indx j))" if "j < Suc ?n" for j
  proof -
    have "16 + 2 * j + 2 \<le> ?U - s" using h(6) that by simp
    then have "rd16 m' (mp + (16 + 2 * j)) = rd16 ?h (mp + (16 + 2 * j))" by (rule rd)
    then have "nptr m' mp j = nptr ?h mp j" by (simp add: nptr_def mp_ptrs_def add.assoc)
    then show ?thesis using h(8)[OF that] by simp
  qed
  have src: "ins_src indx j < ?n" if "j < Suc ?n" "j \<noteq> indx" for j using that i by (auto simp: ins_src_def)
  have inj: "ins_src indx j = ins_src indx k \<longleftrightarrow> j = k" if "j \<noteq> indx" "k \<noteq> indx" for j k using that by (auto simp: ins_src_def)
  have bytes: "m' (mp + nptr m' mp j + k) = m (mp + nptr m mp (ins_src indx j) + k)"
    if j: "j < Suc ?n" "j \<noteq> indx" and k: "k < nlen m mp (ins_src indx j)" for j k
  proof -
    let ?x = "nptr m mp (ins_src indx j) + k"
    have x: "?U \<le> ?x" "?x < psz" using w(5,6)[OF src[OF j]] k by auto
    have "m' (mp + ?x) = ?h (mp + ?x)" using x by (intro same) auto
    also have "\<dots> = m (mp + ?x)" using x h(6) by (intro same_outsideD[OF h(1)]) auto
    finally show ?thesis using ptr[OF j(1)] j(2) by (simp add: ac_simps)
  qed
  note keep = node_kept[OF fl bytes]
  have newp: "nptr m' mp indx = ?U - s" using ptr[of indx] i by simp
  have newl: "nlen m' mp indx = s" using new by (simp add: nlen_def leaf NODEPTR_nptr newp)
  show "page_nodes m' mp = take indx (page_nodes m mp) @ node_at (IS_LEAF m mp) m' (mp + (?U - s)) # drop indx (page_nodes m mp)"
    (is "_ = ?rhs")
  proof (rule nth_equalityI)
    show "length (page_nodes m' mp) = length ?rhs" using i n' by simp
    fix j assume "j < length (page_nodes m' mp)"
    then have j: "j < Suc ?n" using n' by simp
    show "page_nodes m' mp ! j = ?rhs ! j"
    proof (cases "j = indx")
      case True
      then show ?thesis using i n' newp by (simp add: nth_append nth_page_nodes leaf NODEPTR_nptr)
    next
      case False
      have "page_nodes m' mp ! j = page_nodes m mp ! ins_src indx j"
        using keep(1)[OF j False] n' j src[OF j False] by (simp add: nth_page_nodes)
      then show ?thesis using False i j by (auto simp: nth_append nth_Cons' ins_src_def)
    qed
  qed
  show "page_wf psz m' mp"
  proof (rule page_wfI[OF low])
    show "16 + 2 * Suc ?n \<le> unat (mp_upper m' mp)" "unat (mp_upper m' mp) \<le> psz" "psz \<le> 32768"
      using upp h(6) w(3,4) by auto
  next
    fix j assume j: "j < Suc ?n"
    show "unat (mp_upper m' mp) \<le> nptr m' mp j"
      using ptr[OF j] upp w(5)[OF src[OF j]] by (cases "j = indx") auto
    show "nptr m' mp j + nlen m' mp j \<le> psz"
      using ptr[OF j] newl h(7) w(3) w(6)[OF src[OF j]] keep(2)[OF j] by (cases "j = indx") auto
  next
    fix j k assume jk: "j < Suc ?n" "k < Suc ?n" "j \<noteq> k"
    have lt: "nptr m' mp indx + nlen m' mp indx \<le> nptr m' mp q" if "q < Suc ?n" "q \<noteq> indx" for q
      using ptr[OF that(1)] that newp newl h(7) w(5)[OF src[OF that]] by simp
    show "nptr m' mp j + nlen m' mp j \<le> nptr m' mp k \<or> nptr m' mp k + nlen m' mp k \<le> nptr m' mp j"
    proof (cases "j = indx \<or> k = indx")
      case True
      then show ?thesis using lt jk by auto
    next
      case False
      then show ?thesis
        using w(7)[OF src[OF jk(1)] src[OF jk(2)]] inj[of j k] jk ptr[OF jk(1)] ptr[OF jk(2)] keep(2)[OF jk(1)] keep(2)[OF jk(2)] by simp
    qed
  qed
  show "unat (SIZELEFT m' mp) = unat (SIZELEFT m mp) - (s + 2)"
  proof -
    have "unat (SIZELEFT m mp) = ?U - (16 + 2 * ?n)" "unat (SIZELEFT m' mp) = ?U - s - (16 + 2 * Suc ?n)"
      using SIZELEFT_nat[of m mp] SIZELEFT_nat[of m' mp] w(1,2) low upp h(6) by simp_all
    then show ?thesis by simp
  qed
qed

definition val_apart :: "addr \<Rightarrow> addr \<Rightarrow> MDB_val \<Rightarrow> bool" where
  "val_apart a b v = (case mv_data v of Mem p \<Rightarrow> p + mv_size v \<le> a \<or> b \<le> p | Obj bs \<Rightarrow> length bs = mv_size v)"

lemma val_bytes_apart: "val_apart a b v \<Longrightarrow> same_outside a b m m' \<Longrightarrow> val_bytes m' v = val_bytes m v"
  by (cases "mv_data v") (auto simp: val_apart_def val_bytes_def intro!: mem_read_cong same_outsideD)

lemma length_val_bytes: "val_apart a b v \<Longrightarrow> length (val_bytes m v) = mv_size v"
  by (cases "mv_data v") (auto simp: val_apart_def val_bytes_def)

text \<open>What the code stores in the header of a node.\<close>

lemma same_outside_SETDSZ: "a \<le> node \<Longrightarrow> node + 4 \<le> b \<Longrightarrow> same_outside a b m m' \<Longrightarrow> same_outside a b m (SETDSZ m' node sz)"
  unfolding SETDSZ_def by (intro same_outside_wr16) auto

lemma same_outside_SETPGNO: "a \<le> node \<Longrightarrow> node + 6 \<le> b \<Longrightarrow> same_outside a b m m' \<Longrightarrow> same_outside a b m (SETPGNO m' node pg)"
  unfolding SETPGNO_def by (intro same_outside_wr16) auto

lemma set_mn_rd [simp]:
  "mn_ksize (set_mn_ksize m a v) a = v" "mn_flags (set_mn_flags m a v) a = v"
  "mn_ksize (set_mn_flags m a v) a = mn_ksize m a"
  "mn_ksize (SETDSZ m a sz) a = mn_ksize m a" "mn_flags (SETDSZ m a sz) a = mn_flags m a"
  "mn_ksize (SETPGNO m a pg) a = mn_ksize m a"
  by (simp_all add: mn_ksize_def mn_flags_def set_mn_ksize_def set_mn_flags_def SETDSZ_def SETPGNO_def mem_simps)

lemma node_hdr_write [simp]:
  assumes "a + 8 \<le> d"
  shows "mn_lo (mem_write m d bs) a = mn_lo m a" "mn_hi (mem_write m d bs) a = mn_hi m a"
    "mn_flags (mem_write m d bs) a = mn_flags m a" "mn_ksize (mem_write m d bs) a = mn_ksize m a"
    "NODEKSZ (mem_write m d bs) a = NODEKSZ m a" "NODEDSZ (mem_write m d bs) a = NODEDSZ m a"
  using assms by (simp_all add: node_field_defs mem_simps)

definition leaf_node :: "u16 \<Rightarrow> bytes \<Rightarrow> nat \<Rightarrow> bytes \<Rightarrow> mnode" where
  "leaf_node flags key dsz data = \<lparr>n_lo = ucast ((of_nat dsz :: u64) AND 0xffff), n_hi = ucast (drop_bit 16 (of_nat dsz :: u64)),
     n_flags = flags, n_key = key, n_data = data\<rparr>"

definition branch_node :: "u64 \<Rightarrow> bytes \<Rightarrow> mnode" where
  "branch_node pgno key = \<lparr>n_lo = ucast (pgno AND 0xffff), n_hi = ucast (drop_bit 16 pgno), n_flags = ucast (drop_bit 32 pgno),
     n_key = key, n_data = []\<rparr>"

lemma leaf_node_written:
  fixes h :: mem and node :: addr
  assumes k: "length kb < 65536" and d: "dsz < 2 ^ 32" and dl: "length db = (if F_ISSET fl F_BIGDATA then 8 else dsz)"
  defines "m0 \<equiv> SETDSZ (set_mn_flags (set_mn_ksize h node (of_nat (length kb))) node fl) node dsz"
  defines "m' \<equiv> mem_write (mem_write m0 (node + 8) kb) (node + 8 + length kb) db"
  shows "node_at True m' node = leaf_node fl kb dsz db" and "raw_sz True m' node = 8 + length kb + length db"
    and "same_outside node (node + 8) h m0" and "NODEKSZ m0 node = length kb"
proof -
  have f0: "mn_lo m0 node = ucast ((of_nat dsz :: u64) AND 0xffff)" "mn_hi m0 node = ucast (drop_bit 16 (of_nat dsz :: u64))"
    "mn_flags m0 node = fl" "NODEDSZ m0 node = dsz"
    using NODEDSZ_SETDSZ[OF d] by (simp_all add: m0_def, simp_all add: SETDSZ_def mn_lo_def mn_hi_def mem_simps)
  show k0: "NODEKSZ m0 node = length kb"
    using k by (simp add: m0_def NODEKSZ_def unat_of_nat take_bit_nat_eq_self)
  have f: "mn_lo m' node = mn_lo m0 node" "mn_hi m' node = mn_hi m0 node" "mn_flags m' node = fl" "NODEKSZ m' node = length kb"
    "NODEDSZ m' node = dsz"
    by (simp_all add: m'_def f0 k0)
  have dl': "data_len True m' node = length db" using dl by (simp add: data_len_def f)
  show "raw_sz True m' node = 8 + length kb + length db" by (simp add: raw_sz_def f dl')
  have "mem_read m' (node + 8) (length kb) = kb" by (simp add: m'_def mem_read_write_disj)
  moreover have "mem_read m' (node + 8 + length kb) (length db) = db" by (simp add: m'_def)
  ultimately show "node_at True m' node = leaf_node fl kb dsz db"
    by (simp add: node_at_def leaf_node_def f f0 dl' NODEKEY_def NODEDATA_def)
  show "same_outside node (node + 8) h m0"
    unfolding m0_def set_mn_ksize_def set_mn_flags_def
    by (intro same_outside_SETDSZ same_outside_wr16) auto
qed

lemma IS_LEAF_outside:
  "same_outside a b m m' \<Longrightarrow> mp + 12 \<le> a \<Longrightarrow> IS_LEAF m' mp = IS_LEAF m mp"
proof -
  assume out: "same_outside a b m m'" and "mp + 12 \<le> a"
  then have "mp_flags m' mp = mp_flags m mp" unfolding mp_flags_def by (intro rd16_cong same_outsideD[OF out]) auto
  then show ?thesis by (simp add: IS_LEAF_def)
qed

lemma F_ISSET_1: "F_ISSET w 1 \<longleftrightarrow> bit w 0"
  by (simp add: F_ISSET_def and_one_eq bit_0 odd_iff_mod_2_eq_one)

lemma F_ISSET_low: "F_ISSET (ucast (flags :: u32) :: u16) F_BIGDATA = F_ISSET flags F_BIGDATA"
  by (simp add: F_ISSET_1 bit_simps del: bit_0)

lemma node_add_update_unfold:
  assumes "\<not> unat (mp_upper (ptrs_up m mp indx (NUMKEYS m mp)) mp - of_nat s) < unat (mp_lower (ptrs_up m mp indx (NUMKEYS m mp)) mp) + 2"
    and "h = node_add_hdr m mp indx s" and "node = NODEPTR h mp indx"
    and "m2 = set_mn_flags (set_mn_ksize h node (case key of None \<Rightarrow> 0 | Some k \<Rightarrow> of_nat (mv_size k))) node (ucast flags)"
  shows "node_add_update m mp indx key data pgno flags s ofp = do {
       m3 \<leftarrow> (if IS_LEAF m2 mp then map_option (\<lambda>d. SETDSZ m2 node (mv_size d)) data else Some (SETPGNO m2 node pgno));
       let m4 = (case key of None \<Rightarrow> m3 | Some k \<Rightarrow> mem_write m3 (NODEKEY node) (val_bytes m3 k));
       if IS_LEAF m4 mp then do {
         d \<leftarrow> data;
         let (m, p) = node_add_data m4 node d flags ofp;
         Some (m, Some p)
       } else Some (m4, None)
     }"
  unfolding node_add_update_def assms(4) assms(3) assms(2) node_add_hdr_def Let_def by (simp only: assms(1) if_False)

lemma node_add_leaf_spec:
  assumes wf: "page_wf psz m mp" and leaf: "IS_LEAF m mp" and i: "indx \<le> NUMKEYS m mp"
    and key: "val_apart mp (mp + psz) k" and data: "val_apart mp (mp + psz) d" and dsz: "mv_size d < 2 ^ 32"
    and flags: "\<not> F_ISSET flags MDB_RESERVE" "\<not> F_ISSET flags F_BIGDATA"
    and s: "s = EVEN (8 + mv_size k + mv_size d)" and room: "s + 2 \<le> unat (SIZELEFT m mp)"
  shows "\<exists>m'. node_add_update m mp indx (Some k) (Some d) pgno flags s None = Some (m', Some (mv_data d)) \<and>
     page_wf psz m' mp \<and> same_outside mp (mp + psz) m m' \<and> mp_flags m' mp = mp_flags m mp \<and> mp_pgno m' mp = mp_pgno m mp \<and>
     page_nodes m' mp = take indx (page_nodes m mp) @
       leaf_node (ucast flags) (val_bytes m k) (mv_size d) (val_bytes m d) # drop indx (page_nodes m mp) \<and>
     unat (SIZELEFT m' mp) = unat (SIZELEFT m mp) - (s + 2)"
proof -
  note w = page_wfD[OF wf] and h = node_add_hdr_bytes[OF wf i room]
  let ?h = "node_add_hdr m mp indx s" and ?U = "unat (mp_upper m mp)" and ?kb = "val_bytes m k" and ?db = "val_bytes m d"
  define node where "node = mp + (?U - s)"
  have lk: "length ?kb = mv_size k" and ld: "length ?db = mv_size d" using key data length_val_bytes by blast+
  have sb: "8 + mv_size k + mv_size d \<le> s" using EVEN_bounds(1) s by simp
  have node: "NODEPTR ?h mp indx = node" using h(8)[of indx] i by (simp add: NODEPTR_nptr node_def)
  have end_node: "node + s = mp + ?U" "mp + 12 \<le> node" "mp + ?U \<le> mp + psz" using h(6,7) w(3) by (auto simp: node_def)
  have ksmall: "length ?kb < 65536" using lk sb h(7) w(3,4) by simp
  define m0 where "m0 = SETDSZ (set_mn_flags (set_mn_ksize ?h node (of_nat (mv_size k))) node (ucast flags)) node (mv_size d)"
  define m4 where "m4 = mem_write m0 (node + 8) ?kb"
  define m' where "m' = mem_write m4 (node + 8 + mv_size k) ?db"
  have dl: "length ?db = (if F_ISSET (ucast flags :: u16) F_BIGDATA then 8 else mv_size d)" using ld flags F_ISSET_low by simp
  note wr = leaf_node_written[OF ksmall dsz dl, where h = ?h and node = node, unfolded lk, folded m0_def, folded m4_def, folded m'_def]
  have out0: "same_outside node (node + s) ?h m0" using sb by (intro same_outside_mono[OF wr(3)]) auto
  have out4: "same_outside node (node + s) ?h m4" unfolding m4_def using sb lk by (intro same_outside_write out0) auto
  have out': "same_outside node (node + s) ?h m'" unfolding m'_def using sb lk ld by (intro same_outside_write out4) auto
  have hm: "same_outside mp (mp + psz) m ?h" using h(6) w(3) by (intro same_outside_mono[OF h(1)]) auto
  have mm: "same_outside mp (mp + psz) m x" if "same_outside node (node + s) ?h x" for x
    using end_node by (intro same_outside_trans[OF hm] same_outside_mono[OF that]) auto
  have lf: "IS_LEAF ?h mp" using h(2) leaf by (simp add: IS_LEAF_def)
  have lf0: "IS_LEAF x mp" if "same_outside node (node + s) ?h x" for x using IS_LEAF_outside[OF that end_node(2)] lf by simp
  let ?m2 = "set_mn_flags (set_mn_ksize ?h node (of_nat (mv_size k))) node (ucast flags)"
  have lf2: "IS_LEAF ?m2 mp"
    using sb unfolding set_mn_ksize_def set_mn_flags_def by (intro lf0 same_outside_wr16) auto
  have vk: "val_bytes m0 k = ?kb" and vd: "val_bytes m4 d = ?db"
    using val_bytes_apart[OF key mm[OF out0]] val_bytes_apart[OF data mm[OF out4]] by auto
  have "NODEDATA m4 node = node + 8 + mv_size k" using wr(4) by (simp add: NODEDATA_def m4_def)
  then have run: "node_add_update m mp indx (Some k) (Some d) pgno flags s None = Some (m', Some (mv_data d))"
    using lf2 lf0[OF out4] flags vk vd lk
    by (subst node_add_update_unfold[OF h(9) refl refl refl])
      (simp add: node node_add_data_def NODEKEY_def m0_def[symmetric] m4_def[symmetric] m'_def[symmetric] Let_def)
  have leaf_eq: "IS_LEAF m mp = True" using leaf by simp
  have hd: "m' (mp + x) = ?h (mp + x)" if "x < ?U - s \<or> (?U \<le> x \<and> x < psz)" for x
    using that end_node by (intro same_outsideD[OF out']) (auto simp: node_def)
  have "EVEN (raw_sz (IS_LEAF m mp) m' (mp + (?U - s))) = s" using wr(2) s lk ld by (simp add: leaf_eq node_def)
  note ins = node_inserted[OF wf i room hd this]
  show ?thesis
    using run ins wr(1) mm[OF out'] by (simp add: leaf_eq node_def)
qed

definition key_bytes :: "mem \<Rightarrow> MDB_val option \<Rightarrow> bytes" where
  "key_bytes m key = (case key of None \<Rightarrow> [] | Some k \<Rightarrow> val_bytes m k)"

lemma branch_node_written:
  fixes h :: mem and node :: addr and fl :: u16 and pgno :: u64
  assumes k: "length kb < 65536"
  defines "m0 \<equiv> SETPGNO (set_mn_flags (set_mn_ksize h node (of_nat (length kb))) node fl) node pgno"
  defines "m' \<equiv> mem_write m0 (node + 8) kb"
  shows "node_at False m' node = branch_node pgno kb" and "raw_sz False m' node = 8 + length kb"
    and "same_outside node (node + 8) h m0"
proof -
  have f0: "mn_lo m0 node = ucast (pgno AND 0xffff)" "mn_hi m0 node = ucast (drop_bit 16 pgno)"
    "mn_flags m0 node = ucast (drop_bit 32 pgno)"
    by (simp_all add: m0_def SETPGNO_def mn_lo_def mn_hi_def mn_flags_def mem_simps)
  have k0: "NODEKSZ m0 node = length kb"
    using k by (simp add: m0_def NODEKSZ_def unat_of_nat take_bit_nat_eq_self)
  show "raw_sz False m' node = 8 + length kb" by (simp add: raw_sz_def m'_def k0 data_len_def)
  show "node_at False m' node = branch_node pgno kb"
    by (simp add: node_at_def branch_node_def m'_def f0 k0 data_len_def NODEKEY_def)
  show "same_outside node (node + 8) h m0"
    unfolding m0_def set_mn_ksize_def set_mn_flags_def
    by (intro same_outside_SETPGNO same_outside_wr16) auto
qed

lemma node_add_branch_spec:
  assumes wf: "page_wf psz m mp" and leaf: "\<not> IS_LEAF m mp" and i: "indx \<le> NUMKEYS m mp"
    and key: "\<And>k. key = Some k \<Longrightarrow> val_apart mp (mp + psz) k"
    and s: "s = EVEN (INDXSIZE key)" and room: "s + 2 \<le> unat (SIZELEFT m mp)"
  shows "\<exists>m'. node_add_update m mp indx key data pgno flags s None = Some (m', None) \<and>
     page_wf psz m' mp \<and> same_outside mp (mp + psz) m m' \<and> mp_flags m' mp = mp_flags m mp \<and> mp_pgno m' mp = mp_pgno m mp \<and>
     page_nodes m' mp = take indx (page_nodes m mp) @ branch_node pgno (key_bytes m key) # drop indx (page_nodes m mp) \<and>
     unat (SIZELEFT m' mp) = unat (SIZELEFT m mp) - (s + 2)"
proof -
  note w = page_wfD[OF wf] and h = node_add_hdr_bytes[OF wf i room]
  let ?h = "node_add_hdr m mp indx s" and ?U = "unat (mp_upper m mp)" and ?kb = "key_bytes m key"
  let ?ks = "case key of None \<Rightarrow> 0 | Some k \<Rightarrow> mv_size k"
  define node where "node = mp + (?U - s)"
  have lk: "length ?kb = ?ks" using key length_val_bytes by (auto simp: key_bytes_def split: option.splits)
  have sb: "8 + ?ks \<le> s" "s = EVEN (8 + ?ks)" using EVEN_bounds(1)[of "8 + ?ks"] s by (simp_all add: INDXSIZE_def)
  have node: "NODEPTR ?h mp indx = node" using h(8)[of indx] i by (simp add: NODEPTR_nptr node_def)
  have end_node: "node + s = mp + ?U" "mp + 12 \<le> node" "mp + ?U \<le> mp + psz" using h(6,7) w(3) by (auto simp: node_def)
  have ksmall: "length ?kb < 65536" using lk sb h(7) w(3,4) by simp
  define m2 where "m2 = set_mn_flags (set_mn_ksize ?h node (of_nat ?ks)) node (ucast flags)"
  define m0 where "m0 = SETPGNO m2 node pgno"
  define m' where "m' = mem_write m0 (node + 8) ?kb"
  note wr = branch_node_written[OF ksmall, where h = ?h and node = node and fl = "ucast flags" and pgno = pgno, unfolded lk, folded m2_def, folded m0_def, folded m'_def]
  have out2: "same_outside node (node + s) ?h m2"
    unfolding m2_def set_mn_ksize_def set_mn_flags_def using sb by (intro same_outside_wr16) auto
  have out0: "same_outside node (node + s) ?h m0" using sb by (intro same_outside_mono[OF wr(3)]) auto
  have out': "same_outside node (node + s) ?h m'" unfolding m'_def using sb lk by (intro same_outside_write out0) auto
  have hm: "same_outside mp (mp + psz) m ?h" using h(6) w(3) by (intro same_outside_mono[OF h(1)]) auto
  have mm: "same_outside mp (mp + psz) m x" if "same_outside node (node + s) ?h x" for x
    using end_node by (intro same_outside_trans[OF hm] same_outside_mono[OF that]) auto
  have lf: "\<not> IS_LEAF ?h mp" using h(2) leaf by (simp add: IS_LEAF_def)
  have lf0: "\<not> IS_LEAF x mp" if "same_outside node (node + s) ?h x" for x using IS_LEAF_outside[OF that end_node(2)] lf by simp
  have ks: "(case key of None \<Rightarrow> 0 | Some k \<Rightarrow> of_nat (mv_size k)) = (of_nat ?ks :: u16)" by (simp split: option.splits)
  have m': "(case key of None \<Rightarrow> m0 | Some k \<Rightarrow> mem_write m0 (NODEKEY node) (val_bytes m0 k)) = m'"
    using val_bytes_apart[OF key mm[OF out0]] by (auto simp: m'_def key_bytes_def NODEKEY_def split: option.splits)
  have run: "node_add_update m mp indx key data pgno flags s None = Some (m', None)"
    using lf0[OF out2] lf0[OF out'] m'
    by (subst node_add_update_unfold[OF h(9) refl node[symmetric] m2_def[folded ks]])
      (simp add: m0_def[symmetric] Let_def)
  have hd: "m' (mp + x) = ?h (mp + x)" if "x < ?U - s \<or> (?U \<le> x \<and> x < psz)" for x
    using that end_node by (intro same_outsideD[OF out']) (auto simp: node_def)
  have "EVEN (raw_sz (IS_LEAF m mp) m' (mp + (?U - s))) = s" using wr(2) sb leaf by (simp add: node_def)
  note ins = node_inserted[OF wf i room hd this]
  show ?thesis using run ins wr(1) mm[OF out'] leaf by (simp add: node_def)
qed

subsection \<open>Copying a page\<close>

lemma u16_and_minus8: "unat ((v::u16) AND (- 8)) = unat v - unat v mod 8"
proof -
  have "(- 8 :: u16) = NOT (mask 3)" by (simp add: mask_eq_exp_minus_1 not_eq_complement)
  then show ?thesis using unat_and_not_mask[of v 3] by simp
qed

lemma u32_and_minus8: "unat ((v::u32) AND (- 8)) = unat v - unat v mod 8"
proof -
  have "(- 8 :: u32) = NOT (mask 3)" by (simp add: mask_eq_exp_minus_1 not_eq_complement)
  then show ?thesis using unat_and_not_mask[of v 3] by simp
qed

text \<open>A page is the same wherever its used bytes are.\<close>

lemma page_transfer:
  assumes wf: "page_wf psz m src"
    and eq: "\<And>x. x < 16 + 2 * NUMKEYS m src \<or> (unat (mp_upper m src) \<le> x \<and> x < psz) \<Longrightarrow> m' (dst + x) = m (src + x)"
  shows "page_wf psz m' dst" and "page_nodes m' dst = page_nodes m src" and "mp_flags m' dst = mp_flags m src"
    and "mp_pgno m' dst = mp_pgno m src" and "mp_lower m' dst = mp_lower m src" and "mp_upper m' dst = mp_upper m src"
proof -
  note w = page_wfD[OF wf]
  have rd: "rd16 m' (dst + d) = rd16 m (src + d)" if "d + 2 \<le> 16 + 2 * NUMKEYS m src" for d
    using that eq[of "d + i" for i] by (intro rd16_cong) (auto simp: add.assoc)
  show fl: "mp_flags m' dst = mp_flags m src" and lo: "mp_lower m' dst = mp_lower m src" and up: "mp_upper m' dst = mp_upper m src"
    using rd[of 10] rd[of 12] rd[of 14] by (simp_all add: mp_flags_def mp_lower_def mp_upper_def)
  have "rd64 m' (dst + 0) = rd64 m (src + 0)" using eq by (intro rd64_cong) auto
  then show "mp_pgno m' dst = mp_pgno m src" by (simp add: mp_pgno_def)
  have n: "NUMKEYS m' dst = NUMKEYS m src" by (simp add: NUMKEYS_def lo)
  have ptr: "nptr m' dst i = nptr m src i" if "i < NUMKEYS m src" for i
    using rd[of "16 + 2 * i"] that by (simp add: nptr_def mp_ptrs_def add.assoc)
  have bytes: "m' (dst + nptr m' dst i + k) = m (src + nptr m src i + k)" if "i < NUMKEYS m src" "k < nlen m src i" for i k
    using eq[of "nptr m src i + k"] w(5,6)[OF that(1)] that by (simp add: ptr add.assoc)
  note keep = node_kept[OF fl bytes]
  show "page_nodes m' dst = page_nodes m src"
    by (intro nth_equalityI) (simp_all add: n nth_page_nodes keep(1))
  show "page_wf psz m' dst"
    by (rule page_wfI[of m' dst "NUMKEYS m src"]) (use w in \<open>simp_all add: lo up ptr keep(2)\<close>)
qed

lemma mdb_page_copy_spec:
  assumes wf: "page_wf psz m src" and leaf2: "\<not> IS_LEAF2 m src" and apart: "dst + psz \<le> src \<or> src + psz \<le> dst"
  defines "m' \<equiv> mdb_page_copy m dst src psz"
  shows "page_wf psz m' dst" and "page_nodes m' dst = page_nodes m src" and "mp_flags m' dst = mp_flags m src"
    and "mp_pgno m' dst = mp_pgno m src" and "same_outside dst (dst + psz) m m'"
proof -
  note w = page_wfD[OF wf]
  let ?L = "16 + 2 * NUMKEYS m src" and ?U = "unat (mp_upper m src)"
  let ?unused = "(mp_upper m src - mp_lower m src) AND (- 8)"
  have unused: "unat ?unused = (?U - ?L) - (?U - ?L) mod 8"
    using u16_and_minus8[of "mp_upper m src - mp_lower m src"] unat_sub[of "mp_lower m src" "mp_upper m src"] w(1,2)
    by (simp add: word_le_nat_alt)
  have "(\<forall>x. x < ?L \<or> (?U \<le> x \<and> x < psz) \<longrightarrow> m' (dst + x) = m (src + x)) \<and> same_outside dst (dst + psz) m m'"
  proof (cases "?unused = 0")
    case True
    then have "m' = memmove m dst src psz" by (simp add: m'_def mdb_page_copy_def Let_def)
    then show ?thesis using w(2,3) by (auto simp: memmove_in intro: same_outside_memmove)
  next
    case False
    then have "unat ?unused \<noteq> 0" by (simp add: unsigned_eq_0_iff)
    then have gap: "?L + 8 \<le> ?U"
    proof -
      have "\<not> ?U - ?L < 8" using \<open>unat ?unused \<noteq> 0\<close> unused by auto
      then show ?thesis by simp
    qed
    define up where "up = unat (mp_upper m src AND (- 8))"
    define lo where "lo = unat ((ucast (mp_lower m src) + 7 :: u32) AND (- 8))"
    have up: "up \<le> ?U" "?U < up + 8" using u16_and_minus8[of "mp_upper m src"] mod_less_divisor[of 8 ?U] unfolding up_def by linarith+
    have "unat (ucast (mp_lower m src) + 7 :: u32) = ?L + 7"
      using w(1,2,3,4) by (simp add: unat_word_ariths unsigned_ucast_eq take_bit_nat_eq_self)
    then have "lo = ?L + 7 - (?L + 7) mod 8" using u32_and_minus8[of "ucast (mp_lower m src) + 7"] by (simp add: lo_def)
    then have lo: "?L \<le> lo" "lo \<le> ?L + 7" using mod_less_divisor[of 8 "?L + 7"] by linarith+
    have m': "m' = memmove (memmove m dst src lo) (dst + up) (src + up) (psz - up)"
      using False leaf2 by (simp add: m'_def mdb_page_copy_def Let_def up_def lo_def)
    have first: "memmove m dst src lo (src + x) = m (src + x)" if "x < psz" for x
      using apart that lo gap w(3) by (intro memmove_out) auto
    have "m' (dst + x) = m (src + x)" if x: "x < ?L \<or> (?U \<le> x \<and> x < psz)" for x
    proof (cases "up \<le> x")
      case True
      then show ?thesis using x first[of x] gap w(3) up by (auto simp: m' memmove_in add.assoc)
    next
      case False
      then have "x < lo" using x up lo gap by auto
      then show ?thesis using False by (simp add: m' memmove_out memmove_in)
    qed
    moreover have "same_outside dst (dst + psz) m m'"
      unfolding m' using lo gap up w(3) by (intro same_outside_memmove) auto
    ultimately show ?thesis by blast
  qed
  then have eq: "\<And>x. x < ?L \<or> (?U \<le> x \<and> x < psz) \<Longrightarrow> m' (dst + x) = m (src + x)"
    and out: "same_outside dst (dst + psz) m m'" by auto
  show "same_outside dst (dst + psz) m m'" by (rule out)
  note t = page_transfer[OF wf eq]
  show "page_wf psz m' dst" "page_nodes m' dst = page_nodes m src" "mp_flags m' dst = mp_flags m src" "mp_pgno m' dst = mp_pgno m src"
    by (simp_all add: t)
qed

subsection \<open>Replacing the key of a branch node\<close>

lemma lower_ptrs_spec:
  "mp_ptrs (lower_ptrs m mp ptr delta k i) mp j =
     (if i \<le> j \<and> j < i + k \<and> mp_ptrs m mp j \<le> ptr then mp_ptrs m mp j - delta else mp_ptrs m mp j)"
  "same_outside (mp + 16) (mp + 16 + 2 * (i + k)) m (lower_ptrs m mp ptr delta k i)"
proof (induction k arbitrary: m i j)
  case (Suc k)
  {
    case 1
    let ?m = "if mp_ptrs m mp i \<le> ptr then set_ptr m mp i (mp_ptrs m mp i - delta) else m"
    have mj: "mp_ptrs ?m mp j = (if j = i \<and> mp_ptrs m mp i \<le> ptr then mp_ptrs m mp i - delta else mp_ptrs m mp j)" by auto
    show ?case using Suc.IH(1)[of ?m "Suc i" j] unfolding lower_ptrs.simps mj by (cases "j = i") auto
  next
    case 2
    let ?m = "if mp_ptrs m mp i \<le> ptr then set_ptr m mp i (mp_ptrs m mp i - delta) else m"
    have "same_outside (mp + 16) (mp + 16 + 2 * (i + Suc k)) m ?m"
      unfolding set_ptr_def by (cases "mp_ptrs m mp i \<le> ptr") (simp_all add: same_outside_wr16)
    moreover have "same_outside (mp + 16) (mp + 16 + 2 * (i + Suc k)) ?m (lower_ptrs ?m mp ptr delta k (Suc i))"
      using Suc.IH(2)[where i = "Suc i" and m = ?m] by (simp only: add_Suc add_Suc_right)
    ultimately show ?case unfolding lower_ptrs.simps Suc_eq_plus1[symmetric] by (rule same_outside_trans)
  }
qed auto

lemma u16_sub_int:
  assumes "0 \<le> int (unat (v::u16)) - d" and "int (unat v) - d < 65536"
  shows "int (unat (v - of_int d)) = int (unat v) - d"
proof -
  have "uint (v - of_int d) = (uint v - d) mod 65536"
    by (simp add: uint_word_ariths uint_word_of_int mod_simps)
  then show ?thesis using assms by simp
qed

lemma even_int_EVEN: "int (EVEN n) = int n + int n mod 2"
  by (simp add: EVEN_def) presburger

lemma shift_nodes_bytes:
  assumes wf: "page_wf psz m mp" and i: "indx < NUMKEYS m mp" and d: "delta \<le> int (unat (SIZELEFT m mp))"
    and d2: "- delta \<le> int (nlen m mp indx) - 8"
  defines "n \<equiv> NUMKEYS m mp" and "U \<equiv> unat (mp_upper m mp)" and "P \<equiv> nptr m mp indx" and "m' \<equiv> shift_nodes m mp (mp_ptrs m mp indx) delta"
  shows "same_outside (mp + 14) (mp + psz) m m'"
    and "int (unat (mp_upper m' mp)) = int U - delta"
    and "16 + 2 * n \<le> unat (mp_upper m' mp)"
    and "j < n \<Longrightarrow> int (nptr m' mp j) = (if nptr m mp j \<le> P then int (nptr m mp j) - delta else int (nptr m mp j))"
    and "\<And>x. int U - delta \<le> int x \<Longrightarrow> int x < int P - delta + 8 \<Longrightarrow> m' (mp + x) = m (mp + nat (int x + delta))"
    and "\<And>x. P + nlen m mp indx \<le> x \<Longrightarrow> x < psz \<Longrightarrow> m' (mp + x) = m (mp + x)"
proof -
  note w = page_wfD[OF wf]
  have left: "unat (SIZELEFT m mp) = U - (16 + 2 * n)"
    using SIZELEFT_nat[of m mp] w(1,2) by (simp add: U_def n_def)
  have U: "16 + 2 * n \<le> U" "U \<le> P" "P + nlen m mp indx \<le> psz" "psz \<le> 32768"
    using w(2,4) w(5,6)[OF i] by (simp_all add: U_def n_def P_def)
  have d': "delta \<le> int U - int (16 + 2 * n)" using d left U(1) by simp
  define m1 where "m1 = lower_ptrs m mp (mp_ptrs m mp indx) (of_int delta) n 0"
  have out1: "same_outside (mp + 16) (mp + 16 + 2 * n) m m1"
    unfolding m1_def using lower_ptrs_spec(2)[of mp 0 n m] by simp
  have "rd16 m1 (mp + 14) = rd16 m (mp + 14)" by (intro rd16_cong same_outsideD[OF out1]) auto
  then have up1: "mp_upper m1 mp = mp_upper m mp" by (simp add: mp_upper_def)
  define dst where "dst = nat (int (mp + U) - delta)"
  have dst: "int dst = int mp + int U - delta" "mp + 16 + 2 * n \<le> dst" using d' by (auto simp: dst_def)
  define m2 where "m2 = memmove m1 dst (mp + U) (P - U + 8)"
  have m': "m' = set_upper m2 mp (mp_upper m2 mp - of_int delta)"
    unfolding m'_def shift_nodes_def Let_def n_def[symmetric] m1_def[symmetric] up1 U_def[symmetric] m2_def dst_def P_def nptr_def by simp
  have fits: "dst + (P - U + 8) \<le> mp + (P + nlen m mp indx)" using dst(1) d2 U(2) by linarith
  have out2: "same_outside (mp + 16 + 2 * n) (mp + (P + nlen m mp indx)) m1 m2"
    unfolding m2_def using dst(2) fits by (intro same_outside_memmove) auto
  have "rd16 m2 (mp + 14) = rd16 m1 (mp + 14)" by (intro rd16_cong same_outsideD[OF out2]) auto
  with up1 have up2: "mp_upper m2 mp = mp_upper m mp" unfolding mp_upper_def by (rule trans[rotated])
  have out3: "same_outside (mp + 14) (mp + 16) m2 m'" unfolding m' set_upper_def by (rule same_outside_wr16) auto
  have "same_outside (mp + 14) (mp + psz) m m1" "same_outside (mp + 14) (mp + psz) m1 m2" "same_outside (mp + 14) (mp + psz) m2 m'"
    by (rule same_outside_mono[OF out1] same_outside_mono[OF out2] same_outside_mono[OF out3]; use U in simp)+
  then show "same_outside (mp + 14) (mp + psz) m m'" by (blast intro: same_outside_trans)
  have "mp_upper m' mp = mp_upper m mp - of_int delta" by (simp add: m' set_upper_def mp_upper_def up2[unfolded mp_upper_def])
  moreover have "int (unat (mp_upper m mp - of_int delta)) = int U - delta"
    unfolding U_def by (rule u16_sub_int) (use d' d2 U in \<open>unfold U_def, linarith+\<close>)
  ultimately show upp: "int (unat (mp_upper m' mp)) = int U - delta" by simp
  show "16 + 2 * n \<le> unat (mp_upper m' mp)" using upp d' by linarith
  show "int (nptr m' mp j) = (if nptr m mp j \<le> P then int (nptr m mp j) - delta else int (nptr m mp j))" if j: "j < n"
  proof -
    have "mp_ptrs m' mp j = mp_ptrs m2 mp j" unfolding mp_ptrs_def by (intro rd16_cong same_outsideD[OF out3]) auto
    also have "\<dots> = mp_ptrs m1 mp j" unfolding mp_ptrs_def using j by (intro rd16_cong same_outsideD[OF out2]) auto
    also have "\<dots> = (if mp_ptrs m mp j \<le> mp_ptrs m mp indx then mp_ptrs m mp j - of_int delta else mp_ptrs m mp j)"
      using j by (simp add: m1_def lower_ptrs_spec(1))
    finally have e: "mp_ptrs m' mp j = (if nptr m mp j \<le> P then mp_ptrs m mp j - of_int delta else mp_ptrs m mp j)"
      by (simp add: nptr_def P_def word_le_nat_alt)
    have "U \<le> nptr m mp j" using w(5) j by (simp add: U_def n_def)
    then have "int (unat (mp_ptrs m mp j - of_int delta)) = int (nptr m mp j) - delta" if "nptr m mp j \<le> P"
      unfolding nptr_def by (intro u16_sub_int) (use that d' d2 U in \<open>unfold nptr_def, linarith+\<close>)
    then show ?thesis using e by (simp add: nptr_def)
  qed
  fix x
  show "m' (mp + x) = m (mp + nat (int x + delta))" if x: "int U - delta \<le> int x" "int x < int P - delta + 8"
  proof -
    have "m' (mp + x) = m2 (mp + x)" using x d' U by (intro same_outsideD[OF out3]) auto
    also have "\<dots> = m1 (mp + U + (mp + x - dst))" unfolding m2_def using x dst U by (intro memmove_in) linarith+
    also have "mp + U + (mp + x - dst) = mp + nat (int x + delta)" using x dst by linarith
    also have "m1 (mp + nat (int x + delta)) = m (mp + nat (int x + delta))"
      using x U by (intro same_outsideD[OF out1]) linarith
    finally show ?thesis .
  qed
  show "m' (mp + x) = m (mp + x)" if x: "P + nlen m mp indx \<le> x" "x < psz"
  proof -
    have "m' (mp + x) = m2 (mp + x)" using x U by (intro same_outsideD[OF out3]) auto
    also have "\<dots> = m1 (mp + x)" using x by (intro same_outsideD[OF out2]) auto
    also have "\<dots> = m (mp + x)" using x U by (intro same_outsideD[OF out1]) auto
    finally show ?thesis .
  qed
qed

lemma shift_nodes_or_same:
  assumes wf: "page_wf psz m mp" and i: "indx < NUMKEYS m mp" and d: "delta \<le> int (unat (SIZELEFT m mp))"
    and d2: "- delta \<le> int (nlen m mp indx) - 8"
  defines "n \<equiv> NUMKEYS m mp" and "U \<equiv> unat (mp_upper m mp)" and "P \<equiv> nptr m mp indx"
    and "m' \<equiv> if delta \<noteq> 0 then shift_nodes m mp (mp_ptrs m mp indx) delta else m"
  shows "same_outside (mp + 14) (mp + psz) m m'"
    and "int (unat (mp_upper m' mp)) = int U - delta"
    and "16 + 2 * n \<le> unat (mp_upper m' mp)"
    and "j < n \<Longrightarrow> int (nptr m' mp j) = (if nptr m mp j \<le> P then int (nptr m mp j) - delta else int (nptr m mp j))"
    and "\<And>x. int U - delta \<le> int x \<Longrightarrow> int x < int P - delta + 8 \<Longrightarrow> m' (mp + x) = m (mp + nat (int x + delta))"
    and "\<And>x. P + nlen m mp indx \<le> x \<Longrightarrow> x < psz \<Longrightarrow> m' (mp + x) = m (mp + x)"
  using shift_nodes_bytes[OF assms(1-4)] page_wfD(2)[OF wf]
  by (cases "delta = 0"; simp add: n_def U_def P_def m'_def)+

lemma EVEN_add_8: "EVEN (8 + n) = 8 + EVEN n"
  by (simp add: EVEN_def) presburger

lemma page_update_key_spec:
  assumes wf: "page_wf psz m mp" and leaf: "\<not> IS_LEAF m mp" and i: "indx < NUMKEYS m mp" and key: "val_apart mp (mp + psz) key"
    and room: "int (EVEN (mv_size key)) - int (EVEN (NODEKSZ m (NODEPTR m mp indx))) \<le> int (unat (SIZELEFT m mp))"
  shows "\<exists>m'. page_update_key m mp indx key = Some m' \<and> page_wf psz m' mp \<and>
     page_nodes m' mp = (page_nodes m mp)[indx := (page_nodes m mp ! indx)\<lparr>n_key := val_bytes m key\<rparr>] \<and>
     mp_flags m' mp = mp_flags m mp \<and> mp_pgno m' mp = mp_pgno m mp \<and> same_outside mp (mp + psz) m m'"
proof -
  note w = page_wfD[OF wf]
  let ?n = "NUMKEYS m mp" and ?U = "unat (mp_upper m mp)" and ?P = "nptr m mp indx" and ?kb = "val_bytes m key"
  let ?ks = "mv_size key" and ?N = "nlen m mp indx"
  define delta where "delta = int (EVEN ?ks) - int (EVEN (NODEKSZ m (NODEPTR m mp indx)))"
  have N: "?N = 8 + EVEN (NODEKSZ m (NODEPTR m mp indx))" using leaf by (simp add: nlen_def raw_sz_def data_len_def EVEN_add_8)
  have d: "delta \<le> int (unat (SIZELEFT m mp))" "- delta \<le> int ?N - 8" using room N by (simp_all add: delta_def)
  define m0 where "m0 = (if delta \<noteq> 0 then shift_nodes m mp (mp_ptrs m mp indx) delta else m)"
  note sh = shift_nodes_or_same[OF wf i d, folded m0_def]
  have P: "?U \<le> ?P" "?P + ?N \<le> psz" using w(5,6)[OF i] by auto
  define Q where "Q = nptr m0 mp indx"
  have Q: "int Q = int ?P - delta" using sh(4)[OF i] by (simp add: Q_def)
  have QN: "Q + 8 + EVEN ?ks = ?P + ?N" using Q N by (simp add: delta_def)
  have low: "16 + 2 * ?n \<le> Q" using sh(2,3) Q P by linarith
  define m1 where "m1 = set_mn_ksize m0 (mp + Q) (of_nat ?ks)"
  define m' where "m' = mem_write m1 (mp + Q + 8) ?kb"
  have lk: "length ?kb = ?ks" using length_val_bytes[OF key] .
  have ke: "?ks \<le> EVEN ?ks" by (rule EVEN_bounds)
  have outn1: "same_outside (mp + Q + 6) (mp + ?P + ?N) m0 m1"
    unfolding m1_def set_mn_ksize_def using QN by (intro same_outside_wr16) auto
  have outn: "same_outside (mp + Q + 6) (mp + ?P + ?N) m0 m'"
    unfolding m'_def using QN lk ke by (intro same_outside_write outn1) auto
  have lift: "same_outside mp (mp + psz) m0 x" if "same_outside (mp + Q + 6) (mp + ?P + ?N) m0 x" for x
    using P by (intro same_outside_mono[OF that]) auto
  have out0: "same_outside mp (mp + psz) m m0" by (rule same_outside_mono[OF sh(1)]) auto
  have out: "same_outside mp (mp + psz) m m'" using same_outside_trans[OF out0 lift[OF outn]] .
  have vb: "val_bytes m1 key = ?kb" using val_bytes_apart[OF key same_outside_trans[OF out0 lift[OF outn1]]] .
  have run: "page_update_key m mp indx key = Some m'"
    using d(1) vb unfolding page_update_key_def Let_def delta_def[symmetric] m0_def[symmetric]
    by (simp add: NODEPTR_nptr[of m0] Q_def[symmetric] NODEKEY_def m1_def[symmetric] m'_def[symmetric])
  have rd0: "rd16 m' (mp + k) = rd16 m0 (mp + k)" if "k + 2 \<le> 16 + 2 * ?n" for k
    using that low by (intro rd16_cong same_outsideD[OF outn]) auto
  have rdm: "rd16 m' (mp + k) = rd16 m (mp + k)" if "k + 2 \<le> 14" for k
    using that rd0[of k] by (subst rd0) (auto intro!: rd16_cong same_outsideD[OF sh(1)])
  have fl: "mp_flags m' mp = mp_flags m mp" and lo: "mp_lower m' mp = mp_lower m mp" and up: "mp_upper m' mp = mp_upper m0 mp"
    using rdm[of 10] rdm[of 12] rd0[of 14] by (simp_all add: mp_flags_def mp_lower_def mp_upper_def)
  have "rd64 m' mp = rd64 m0 mp" using low by (intro rd64_cong same_outsideD[OF outn]) auto
  moreover have "rd64 m0 mp = rd64 m mp" by (intro rd64_cong same_outsideD[OF sh(1)]) auto
  ultimately have pg: "mp_pgno m' mp = mp_pgno m mp" by (simp add: mp_pgno_def)
  have n': "NUMKEYS m' mp = ?n" by (simp add: NUMKEYS_def lo)
  have lf: "IS_LEAF m' mp = IS_LEAF m mp" by (simp add: IS_LEAF_def fl)
  have ptr: "int (nptr m' mp j) = (if nptr m mp j \<le> ?P then int (nptr m mp j) - delta else int (nptr m mp j))" if "j < ?n" for j
    using sh(4)[OF that] rd0[of "16 + 2 * j"] that by (simp add: nptr_def mp_ptrs_def add.assoc)
  have Qp: "nptr m' mp indx = Q" using ptr[OF i] Q by simp
  have apart: "nptr m mp j + nlen m mp j \<le> ?P \<or> ?P + ?N \<le> nptr m mp j" if "j < ?n" "j \<noteq> indx" for j
    using w(7)[OF that(1) i that(2)] .
  have bytes: "m' (mp + nptr m' mp j + k) = m (mp + nptr m mp j + k)" if j: "j < ?n" "j \<noteq> indx" and k: "k < nlen m mp j" for j k
  proof (cases "nptr m mp j \<le> ?P")
    case True
    then have le: "nptr m mp j + nlen m mp j \<le> ?P" using apart[OF j] nlen_pos[of m mp indx] by linarith
    let ?x = "nptr m' mp j + k"
    have x: "int ?x = int (nptr m mp j) - delta + int k" using ptr[OF j(1)] True by simp
    have "m' (mp + ?x) = m0 (mp + ?x)" using x le k Q by (intro same_outsideD[OF outn]) linarith
    also have "\<dots> = m (mp + nat (int ?x + delta))" using x w(5)[OF j(1)] le k by (intro sh(5)) linarith+
    also have "nat (int ?x + delta) = nptr m mp j + k" using x by simp
    finally show ?thesis by (simp add: add.assoc)
  next
    case False
    then have ge: "?P + ?N \<le> nptr m mp j" using apart[OF j] nlen_pos[of m mp j] by linarith
    let ?x = "nptr m mp j + k"
    have "m' (mp + ?x) = m0 (mp + ?x)" using ge by (intro same_outsideD[OF outn]) auto
    also have "\<dots> = m (mp + ?x)" using ge w(6)[OF j(1)] k by (intro sh(6)) auto
    finally show ?thesis using ptr[OF j(1)] False by (simp add: add.assoc)
  qed
  note keep = node_kept[OF fl bytes]
  have ksz: "NODEKSZ m' (mp + Q) = ?ks"
  proof -
    have "?ks < 65536" using ke QN P w(4) by simp
    then show ?thesis by (simp add: m'_def m1_def NODEKSZ_def unat_of_nat take_bit_nat_eq_self)
  qed
  have hdr: "rd16 m' (mp + Q + k) = rd16 m (mp + ?P + k)" if "k + 2 \<le> 6" for k
  proof (rule rd16_cong)
    fix i' :: nat assume "i' < 2"
    then have "m' (mp + (Q + k + i')) = m0 (mp + (Q + k + i'))" using that by (intro same_outsideD[OF outn]) auto
    also have "\<dots> = m (mp + nat (int (Q + k + i') + delta))" using Q P \<open>i' < 2\<close> that by (intro sh(5)) linarith+
    also have "nat (int (Q + k + i') + delta) = ?P + k + i'" using Q by simp
    finally show "m' (mp + Q + k + i') = m (mp + ?P + k + i')" by (simp add: add.assoc)
  qed
  have new: "node_at False m' (mp + Q) = (node_at False m (mp + ?P))\<lparr>n_key := ?kb\<rparr>"
    using hdr[of 0] hdr[of 2] hdr[of 4] ksz lk
    by (simp add: node_at_def data_len_def mn_lo_def mn_hi_def mn_flags_def NODEKEY_def m'_def)
  have newl: "nlen m' mp indx = 8 + EVEN ?ks"
    using leaf ksz by (simp add: nlen_def raw_sz_def data_len_def lf NODEPTR_nptr Qp EVEN_add_8)
  have nodes: "page_nodes m' mp = (page_nodes m mp)[indx := (page_nodes m mp ! indx)\<lparr>n_key := ?kb\<rparr>]"
  proof (rule nth_equalityI)
    fix j assume "j < length (page_nodes m' mp)"
    then have j: "j < ?n" using n' by simp
    show "page_nodes m' mp ! j = (page_nodes m mp)[indx := (page_nodes m mp ! indx)\<lparr>n_key := ?kb\<rparr>] ! j"
    proof (cases "j = indx")
      case True
      then show ?thesis using new i leaf n' by (simp add: nth_page_nodes lf NODEPTR_nptr Qp)
    next
      case False
      then show ?thesis using keep(1)[OF j False] j n' by (simp add: nth_page_nodes)
    qed
  qed (simp add: n')
  have place: "nlen m' mp j = nlen m mp j \<and>
      (nptr m mp j + nlen m mp j \<le> ?P \<and> int (nptr m' mp j) = int (nptr m mp j) - delta \<or>
       ?P + ?N \<le> nptr m mp j \<and> nptr m' mp j = nptr m mp j)" if j: "j < ?n" "j \<noteq> indx" for j
    using ptr[OF j(1)] apart[OF j] keep(2)[OF j] nlen_pos[of m mp indx] nlen_pos[of m mp j]
    by (cases "nptr m mp j \<le> ?P") auto
  have wf': "page_wf psz m' mp"
  proof (rule page_wfI[of m' mp ?n])
    show "unat (mp_lower m' mp) = 16 + 2 * ?n" "16 + 2 * ?n \<le> unat (mp_upper m' mp)" "psz \<le> 32768"
      using w(1,4) sh(3) by (simp_all add: lo up)
    show "unat (mp_upper m' mp) \<le> psz" using sh(2) P Q QN unfolding up by linarith
  next
    fix j assume j: "j < ?n"
    have "unat (mp_upper m' mp) \<le> nptr m' mp j \<and> nptr m' mp j + nlen m' mp j \<le> psz"
    proof (cases "j = indx")
      case True
      show ?thesis using sh(2) P Q QN Qp newl unfolding up True by (intro conjI) linarith+
    next
      case False
      then show ?thesis using place[OF j False] sh(2) w(5,6)[OF j] P Q QN unfolding up by (intro conjI) linarith+
    qed
    then show "unat (mp_upper m' mp) \<le> nptr m' mp j" "nptr m' mp j + nlen m' mp j \<le> psz" by auto
  next
    fix j k assume jk: "j < ?n" "k < ?n" "j \<noteq> k"
    show "nptr m' mp j + nlen m' mp j \<le> nptr m' mp k \<or> nptr m' mp k + nlen m' mp k \<le> nptr m' mp j"
    proof (cases "j = indx \<or> k = indx")
      case True
      then show ?thesis using place[OF jk(1)] place[OF jk(2)] jk(3) Qp Q newl QN by auto
    next
      case False
      then show ?thesis using w(7)[OF jk] place[OF jk(1)] place[OF jk(2)] Q QN nlen_pos[of m mp j] nlen_pos[of m mp k] by auto
    qed
  qed
  show ?thesis using run wf' nodes fl pg out by blast
qed

end
