(* ===== verification/Page_Search.thy ===== *)
theory Page_Search
  imports Page_Ops Search
begin

section \<open>The search in a page\<close>

text \<open>
  The binary search of \<open>mdb_node_search\<close> finds a key or the place where it belongs, for every comparison that
  satisfies the contract \<open>comparison\<close>. A search in a branch page of integer keys uses a faster comparison
  than the one of the database; \<open>key_order\<close> is what the search relies on for both.
\<close>

definition branch_cmp :: "cmp_func \<Rightarrow> nat \<Rightarrow> cmp_func" where
  "branch_cmp c n = (if is_cmp_cint c then (if n = 8 then Cmp_long else Cmp_int) else c)"

lemma search_cmp_branch: "search_cmp m mp c = (if IS_BRANCH m mp then branch_cmp c (NODEKSZ m (NODEPTR m mp 1)) else c)"
  by (simp add: search_cmp_def branch_cmp_def)

subsection \<open>The loop\<close>

context comparison
begin

lemma less_asym: "valid a \<Longrightarrow> valid b \<Longrightarrow> less_key a b \<Longrightarrow> \<not> less_key b a"
  using trans[of a b a] irrefl[of a] by blast

lemma total: "valid a \<Longrightarrow> valid b \<Longrightarrow> less_key a b \<or> a = b \<or> less_key b a"
  using defined[of a b] cmp_zero[of a b] by fastforce

lemma search_loop_finds:
  assumes "valid key" and ks: "\<And>i. lo \<le> i \<Longrightarrow> i < n \<Longrightarrow> valid (ks i) \<and> cmpi i = cmp key (ks i)"
    and ord: "\<And>i j. lo \<le> i \<Longrightarrow> i < j \<Longrightarrow> j < n \<Longrightarrow> less_key (ks i) (ks j)"
    and "lo \<le> low" "low \<le> n" "-1 \<le> high" "high < int n" "int low \<le> high + 1"
    and "\<And>j. lo \<le> j \<Longrightarrow> j < low \<Longrightarrow> less_key (ks j) key"
    and "\<And>j. high < int j \<Longrightarrow> lo \<le> j \<Longrightarrow> j < n \<Longrightarrow> less_key key (ks j)"
    and "int low > high \<Longrightarrow> rc \<noteq> 0 \<and> low = (if rc > 0 then i + 1 else i)"
  shows "\<exists>i' rc'. search_loop cmpi low high i rc = Some (i', rc') \<and>
    (rc' = 0 \<longrightarrow> lo \<le> i' \<and> i' < n \<and> ks i' = key) \<and>
    (rc' \<noteq> 0 \<longrightarrow> (let p = if rc' > 0 then i' + 1 else i' in lo \<le> p \<and> p \<le> n \<and>
       (\<forall>j. lo \<le> j \<and> j < p \<longrightarrow> less_key (ks j) key) \<and> (\<forall>j. p \<le> j \<and> j < n \<longrightarrow> less_key key (ks j))))"
  using assms(4-)
proof (induction "nat (high + 1 - int low)" arbitrary: low high i rc rule: less_induct)
  case less
  note prem = less.prems
  show ?case
  proof (cases "int low \<le> high")
    case False
    then have eq: "search_loop cmpi low high i rc = Some (i, rc)" by (subst search_loop.simps) simp
    have "rc \<noteq> 0" and low: "low = (if rc > 0 then i + 1 else i)" using prem(8) False by auto
    moreover have "\<forall>j. lo \<le> j \<and> j < low \<longrightarrow> less_key (ks j) key" using prem(6) by simp
    moreover have "\<forall>j. low \<le> j \<and> j < n \<longrightarrow> less_key key (ks j)" using prem(1,7) False by simp
    ultimately show ?thesis unfolding eq using prem(1,2) by (simp add: Let_def)
  next
    case True
    define i1 where "i1 = nat ((int low + high) div 2)"
    have i1: "low \<le> i1" "int i1 \<le> high" "i1 < n" using True prem(4) by (auto simp: i1_def)
    then have lo: "lo \<le> i1" using prem(1) by simp
    obtain v where v: "cmp key (ks i1) = Some v" "v < 0 \<longleftrightarrow> less_key key (ks i1)" "v > 0 \<longleftrightarrow> less_key (ks i1) key"
      using defined[OF assms(1)] ks[OF lo i1(3)] by blast
    have ci: "cmpi i1 = Some v" using ks[OF lo i1(3)] v(1) by simp
    have step: "search_loop cmpi low high i rc = (if v = 0 then Some (i1, v)
        else if v > 0 then search_loop cmpi (i1 + 1) high i1 v else search_loop cmpi low (int i1 - 1) i1 v)"
      using True ci by (subst search_loop.simps) (simp add: Let_def i1_def)
    have valid1: "valid (ks i1)" using ks[OF lo i1(3)] by simp
    consider (eq) "v = 0" | (right) "v > 0" | (left) "v < 0" by linarith
    then show ?thesis
    proof cases
      case eq
      then have "ks i1 = key" using cmp_zero[OF assms(1) valid1] v(1) by simp
      then show ?thesis using step eq i1 lo by simp
    next
      case right
      have below: "less_key (ks j) key" if "lo \<le> j" "j < i1 + 1" for j
      proof (cases "j = i1")
        case False
        then have "j < i1" using that by simp
        then show ?thesis
          using trans[OF _ valid1 assms(1) ord] ks[of j] that(1) i1(3) v(3) right by auto
      qed (use v(3) right in simp)
      have "\<exists>i' rc'. search_loop cmpi (i1 + 1) high i1 v = Some (i', rc') \<and>
        (rc' = 0 \<longrightarrow> lo \<le> i' \<and> i' < n \<and> ks i' = key) \<and>
        (rc' \<noteq> 0 \<longrightarrow> (let p = if rc' > 0 then i' + 1 else i' in lo \<le> p \<and> p \<le> n \<and>
          (\<forall>j. lo \<le> j \<and> j < p \<longrightarrow> less_key (ks j) key) \<and> (\<forall>j. p \<le> j \<and> j < n \<longrightarrow> less_key key (ks j))))"
        using right i1 prem(3,4,7) lo below by (intro less.hyps) simp_all
      then show ?thesis using step right by simp
    next
      case left
      have above: "less_key key (ks j)" if "int i1 - 1 < int j" "lo \<le> j" "j < n" for j
      proof (cases "j = i1")
        case False
        then have "i1 < j" using that by simp
        then show ?thesis
          using trans[OF assms(1) valid1 _ _ ord] ks[of j] that lo v(2) left by auto
      qed (use v(2) left in simp)
      have "\<exists>i' rc'. search_loop cmpi low (int i1 - 1) i1 v = Some (i', rc') \<and>
        (rc' = 0 \<longrightarrow> lo \<le> i' \<and> i' < n \<and> ks i' = key) \<and>
        (rc' \<noteq> 0 \<longrightarrow> (let p = if rc' > 0 then i' + 1 else i' in lo \<le> p \<and> p \<le> n \<and>
          (\<forall>j. lo \<le> j \<and> j < p \<longrightarrow> less_key (ks j) key) \<and> (\<forall>j. p \<le> j \<and> j < n \<longrightarrow> less_key key (ks j))))"
        using left i1 prem(1,2,6) lo above by (intro less.hyps) simp_all
      then show ?thesis using step left by simp
    qed
  qed
qed

text \<open>From the ends of the page: the index found, or the number of keys that are smaller.\<close>

lemma search_loop_page:
  assumes "valid key" and ks: "\<And>i. lo \<le> i \<Longrightarrow> i < n \<Longrightarrow> valid (ks i) \<and> cmpi i = cmp key (ks i)"
    and ord: "\<And>i j. lo \<le> i \<Longrightarrow> i < j \<Longrightarrow> j < n \<Longrightarrow> less_key (ks i) (ks j)" and "lo < n"
  obtains i rc where "search_loop cmpi lo (int n - 1) 0 0 = Some (i, rc)"
    and "rc = 0 \<Longrightarrow> lo \<le> i \<and> i < n \<and> ks i = key"
    and "rc \<noteq> 0 \<Longrightarrow> lo \<le> (if rc > 0 then i + 1 else i) \<and> (if rc > 0 then i + 1 else i) \<le> n \<and>
       (\<forall>j. lo \<le> j \<and> j < (if rc > 0 then i + 1 else i) \<longrightarrow> less_key (ks j) key) \<and>
       (\<forall>j. (if rc > 0 then i + 1 else i) \<le> j \<and> j < n \<longrightarrow> less_key key (ks j))"
proof -
  have "\<exists>i rc. search_loop cmpi lo (int n - 1) 0 0 = Some (i, rc) \<and>
    (rc = 0 \<longrightarrow> lo \<le> i \<and> i < n \<and> ks i = key) \<and>
    (rc \<noteq> 0 \<longrightarrow> (let p = if rc > 0 then i + 1 else i in lo \<le> p \<and> p \<le> n \<and>
       (\<forall>j. lo \<le> j \<and> j < p \<longrightarrow> less_key (ks j) key) \<and> (\<forall>j. p \<le> j \<and> j < n \<longrightarrow> less_key key (ks j))))"
    using assms by (intro search_loop_finds) simp_all
  then show ?thesis using that by (auto simp: Let_def)
qed

end

subsection \<open>A page\<close>

text \<open>\<open>key_pos\<close>: \<open>i\<close> is the index of the first of the keys \<open>lo\<close> to \<open>n - 1\<close> that is not smaller than the key.\<close>

definition key_pos :: "(bytes \<Rightarrow> bytes \<Rightarrow> bool) \<Rightarrow> (nat \<Rightarrow> bytes) \<Rightarrow> nat \<Rightarrow> nat \<Rightarrow> bytes \<Rightarrow> nat \<Rightarrow> bool" where
  "key_pos less_key ks lo n key i \<longleftrightarrow> lo \<le> i \<and> i \<le> n \<and>
     (\<forall>j. lo \<le> j \<and> j < i \<longrightarrow> less_key (ks j) key) \<and> (\<forall>j. i \<le> j \<and> j < n \<longrightarrow> \<not> less_key (ks j) key)"

definition keys_ordered :: "(bytes \<Rightarrow> bool) \<Rightarrow> (bytes \<Rightarrow> bytes \<Rightarrow> bool) \<Rightarrow> (nat \<Rightarrow> bytes) \<Rightarrow> nat \<Rightarrow> nat \<Rightarrow> bool" where
  "keys_ordered valid less_key ks lo n \<longleftrightarrow>
     (\<forall>i. lo \<le> i \<and> i < n \<longrightarrow> valid (ks i)) \<and> (\<forall>i j. lo \<le> i \<and> i < j \<and> j < n \<longrightarrow> less_key (ks i) (ks j))"

definition first_slot :: "mem \<Rightarrow> addr \<Rightarrow> nat" where
  "first_slot m mp = (if IS_LEAF m mp then 0 else 1)"

lemma page_search_key_pos:
  assumes cmp: "comparison (call_cmp (search_cmp m mp c)) valid less_key" and key: "valid key"
    and ord: "keys_ordered valid less_key (node_key m mp ksize) (first_slot m mp) (NUMKEYS m mp)"
    and n: "IS_LEAF m mp \<or> 1 < NUMKEYS m mp"
  obtains i where "page_search_key m mp c ksize key =
      Some (if i < NUMKEYS m mp then Some (NODEPTR m mp (if IS_LEAF2 m mp then 0 else i)) else None,
        i < NUMKEYS m mp \<and> node_key m mp ksize i = key, i)"
    and "key_pos less_key (node_key m mp ksize) (first_slot m mp) (NUMKEYS m mp) key i"
proof (cases "first_slot m mp < NUMKEYS m mp")
  case False
  then have z: "NUMKEYS m mp = 0" "first_slot m mp = 0" "IS_LEAF m mp" using n by (auto simp: first_slot_def split: if_splits)
  have "search_loop f 0 (- 1) 0 0 = Some (0, 0)" for f by (subst search_loop.simps) simp
  then have "page_search_key m mp c ksize key = Some (None, False, 0)"
    using z by (simp add: page_search_key_def first_slot_def[symmetric])
  then show ?thesis using that[of 0] z by (simp add: key_pos_def)
next
  case True
  let ?ks = "node_key m mp ksize" and ?lo = "first_slot m mp" and ?n = "NUMKEYS m mp"
  have val: "valid (?ks i)" if "?lo \<le> i" "i < ?n" for i using ord that by (simp add: keys_ordered_def)
  have less: "less_key (?ks i) (?ks j)" if "?lo \<le> i" "i < j" "j < ?n" for i j using ord that by (simp add: keys_ordered_def)
  obtain i rc where run: "search_loop (\<lambda>i. call_cmp (search_cmp m mp c) key (?ks i)) ?lo (int ?n - 1) 0 0 = Some (i, rc)"
    and zero: "rc = 0 \<Longrightarrow> ?lo \<le> i \<and> i < ?n \<and> ?ks i = key"
    and nz: "rc \<noteq> 0 \<Longrightarrow> ?lo \<le> (if rc > 0 then i + 1 else i) \<and> (if rc > 0 then i + 1 else i) \<le> ?n \<and>
       (\<forall>j. ?lo \<le> j \<and> j < (if rc > 0 then i + 1 else i) \<longrightarrow> less_key (?ks j) key) \<and>
       (\<forall>j. (if rc > 0 then i + 1 else i) \<le> j \<and> j < ?n \<longrightarrow> less_key key (?ks j))"
    by (rule comparison.search_loop_page[OF cmp key, of ?lo ?n ?ks]) (use val less True in auto)
  define p where "p = (if rc > 0 then i + 1 else i)"
  have pos: "key_pos less_key ?ks ?lo ?n key p"
  proof (cases "rc = 0")
    case True
    then have i: "?lo \<le> i" "i < ?n" "?ks i = key" "p = i" using zero by (auto simp: p_def)
    have "\<not> less_key (?ks j) key" if "i \<le> j" "j < ?n" for j
      using comparison.less_asym[OF cmp val val less, of i j] comparison.irrefl[OF cmp key] i that
      by (cases "j = i") auto
    then show ?thesis using i less[of _ i] by (auto simp: key_pos_def)
  next
    case False
    have "\<not> less_key (?ks j) key" if "p \<le> j" "j < ?n" for j
      using comparison.less_asym[OF cmp key val, of j] nz[OF False] that by (simp add: p_def)
    then show ?thesis using nz[OF False] by (simp add: key_pos_def p_def)
  qed
  have exact: "(rc = 0 \<and> ?n > 0) = (p < ?n \<and> ?ks p = key)"
  proof (cases "rc = 0")
    case True
    then show ?thesis using zero by (auto simp: p_def)
  next
    case False
    then show ?thesis using nz comparison.irrefl[OF cmp key] unfolding p_def[symmetric] by auto
  qed
  have "page_search_key m mp c ksize key =
      Some (if p < ?n then Some (NODEPTR m mp (if IS_LEAF2 m mp then 0 else p)) else None, p < ?n \<and> ?ks p = key, p)"
    using run True exact[symmetric] unfolding page_search_key_def first_slot_def[symmetric]
    by (simp add: Let_def p_def)
  then show ?thesis using pos that by blast
qed

lemma node_key_plain: "\<not> IS_LEAF2 m mp \<Longrightarrow> node_key m mp ksize = node_key m mp 0"
  by (simp add: node_key_def fun_eq_iff)

subsection \<open>The order of the keys of a database\<close>

locale key_order = comparison "call_cmp c" valid less_key for c valid less_key +
  assumes branch: "valid k \<Longrightarrow> comparison (call_cmp (branch_cmp c (length k))) valid less_key"
begin

text \<open>The comparison that a search of this page uses.\<close>

lemma page_comparison:
  assumes "keys_ordered valid less_key (node_key m mp ksize) (first_slot m mp) (NUMKEYS m mp)"
    and "\<not> IS_LEAF2 m mp" and "IS_LEAF m mp \<and> \<not> IS_BRANCH m mp \<or> \<not> IS_LEAF m mp \<and> 1 < NUMKEYS m mp"
  shows "comparison (call_cmp (search_cmp m mp c)) valid less_key"
proof (cases "IS_BRANCH m mp")
  case True
  then have "first_slot m mp = 1" "1 < NUMKEYS m mp" using assms(3) by (auto simp: first_slot_def)
  then have "valid (node_key m mp ksize 1)" using assms(1) by (simp add: keys_ordered_def)
  moreover have "length (node_key m mp ksize 1) = NODEKSZ m (NODEPTR m mp 1)" using assms(2) by (simp add: node_key_def)
  ultimately show ?thesis using branch True by (fastforce simp: search_cmp_branch)
next
  case False
  then show ?thesis using comparison_axioms by (simp add: search_cmp_branch)
qed

lemma page_position:
  assumes ord: "keys_ordered valid less_key (node_key m mp 0) (first_slot m mp) (NUMKEYS m mp)"
    and "\<not> IS_LEAF2 m mp" and "IS_LEAF m mp \<and> \<not> IS_BRANCH m mp \<or> \<not> IS_LEAF m mp \<and> 1 < NUMKEYS m mp" and "valid key"
  obtains i where "page_search_key m mp c ksize key =
      Some (if i < NUMKEYS m mp then Some (NODEPTR m mp i) else None, i < NUMKEYS m mp \<and> node_key m mp 0 i = key, i)"
    and "key_pos less_key (node_key m mp 0) (first_slot m mp) (NUMKEYS m mp) key i"
proof -
  note plain = node_key_plain[OF assms(2), of ksize]
  have "IS_LEAF m mp \<or> 1 < NUMKEYS m mp" using assms(3) by blast
  then obtain i where "page_search_key m mp c ksize key =
      Some (if i < NUMKEYS m mp then Some (NODEPTR m mp (if IS_LEAF2 m mp then 0 else i)) else None,
        i < NUMKEYS m mp \<and> node_key m mp ksize i = key, i)"
    and "key_pos less_key (node_key m mp ksize) (first_slot m mp) (NUMKEYS m mp) key i"
    using page_search_key_pos[OF page_comparison[OF assms(1-3)] assms(4), of ksize] ord unfolding plain by blast
  then show ?thesis using assms(2) that unfolding plain by simp
qed

end

lemma key_order_plain: "\<not> is_cmp_cint c \<Longrightarrow> comparison (call_cmp c) valid less_key \<Longrightarrow> key_order c valid less_key"
  by (simp add: key_order_def key_order_axioms_def branch_cmp_def)

lemma call_cmp_eta:
  "call_cmp Cmp_memn = mdb_cmp_memn" "call_cmp Cmp_memnr = mdb_cmp_memnr" "call_cmp Cmp_int = mdb_cmp_int"
  "call_cmp Cmp_cint = mdb_cmp_cint" "call_cmp Cmp_long = mdb_cmp_long"
  by (simp_all add: fun_eq_iff)

interpretation ord_memn: key_order Cmp_memn "\<lambda>a. length a < 2 ^ 32" "(<)"
  by (rule key_order_plain) (simp_all only: is_cmp_cint.simps not_False_eq_True call_cmp_eta memn.comparison_axioms)

interpretation ord_memnr: key_order Cmp_memnr "\<lambda>a. length a < 2 ^ 32" "\<lambda>a b. rev a < rev b"
  by (rule key_order_plain) (simp_all only: is_cmp_cint.simps not_False_eq_True call_cmp_eta memnr.comparison_axioms)

interpretation ord_cint8: key_order Cmp_cint "\<lambda>a. length a = 8" "\<lambda>a b. le_nat a < le_nat b"
  by (simp add: key_order_def key_order_axioms_def branch_cmp_def call_cmp_eta cint8.comparison_axioms cmp_long.comparison_axioms)

interpretation ord_cint4: key_order Cmp_cint "\<lambda>a. length a = 4" "\<lambda>a b. le_nat a < le_nat b"
  by (simp add: key_order_def key_order_axioms_def branch_cmp_def call_cmp_eta cint4.comparison_axioms cmp_int.comparison_axioms)

end
