(* ===== verification/Page_Tree.thy ===== *)
theory Page_Tree
  imports Page_Search Cursor
begin

text \<open>
  What the pages of a database hold. \<open>tree\<close> says that a page is the root of a B+ tree of a height with a list of
  items, \<open>path\<close> that a cursor's page stack leads from the root to a page, with the items left and right of it, and
  \<open>db_holds\<close> that a database has the items. The lemmas follow \<open>mdb_page_search_root\<close> down the tree and
  \<open>mdb_cursor_sibling\<close> across it.
\<close>

section \<open>Trees of pages and reading them\<close>

subsection \<open>Steps of a reader\<close>

text \<open>A reader changes nothing but cursors.\<close>

definition reads :: "world \<Rightarrow> world \<Rightarrow> bool" where
  "reads w w' \<longleftrightarrow> w_mem w' = w_mem w \<and> w_env w' = w_env w \<and> w_txns w' = w_txns w"

lemma reads_refl [simp]: "reads w w"
  by (simp add: reads_def)

lemma reads_trans: "reads w w' \<Longrightarrow> reads w' w'' \<Longrightarrow> reads w w''"
  by (simp add: reads_def)

lemma reads_sym: "reads w w' \<Longrightarrow> reads w' w"
  by (simp add: reads_def)

lemma reads_upd_cur [simp]: "reads w (upd_cur c f w') = reads w w'"
  by (simp add: reads_def upd_cur_def)

lemma reads_cursor_steps [simp]:
  "reads w (set_ki c i w') = reads w w'" "reads w (set_pg c p w') = reads w w'"
  "reads w (cur_or c f w') = reads w w'" "reads w (cur_clear c f w') = reads w w'"
  by (simp_all add: set_ki_def set_pg_def cur_or_def cur_clear_def)

lemma reads_txn: "reads w w' \<Longrightarrow> txn w' t = txn w t"
  by (simp add: reads_def txn_def)

text \<open>Two worlds in which every transaction sees the same page numbers at the same addresses.\<close>

definition same_view :: "world \<Rightarrow> world \<Rightarrow> bool" where
  "same_view w w' \<longleftrightarrow> me_map (w_env w') = me_map (w_env w) \<and> me_psize (w_env w') = me_psize (w_env w) \<and>
     (\<forall>t. mt_flags (txn w' t) = mt_flags (txn w t) \<and> mt_spill_pgs (txn w' t) = mt_spill_pgs (txn w t) \<and>
       mt_dirty_list (txn w' t) = mt_dirty_list (txn w t) \<and> mt_parent (txn w' t) = mt_parent (txn w t) \<and>
       mt_next_pgno (txn w' t) = mt_next_pgno (txn w t))"

lemma same_view_sym: "same_view w w' \<Longrightarrow> same_view w' w"
  by (simp add: same_view_def)

lemma same_view_trans: "same_view w w' \<Longrightarrow> same_view w' w'' \<Longrightarrow> same_view w w''"
  by (simp add: same_view_def)

lemma reads_same_view: "reads w w' \<Longrightarrow> same_view w w'"
  by (simp add: reads_def same_view_def txn_def)

lemma same_viewD:
  assumes "same_view w w'"
  shows "mt_flags (txn w' t) = mt_flags (txn w t)" "mt_parent (txn w' t) = mt_parent (txn w t)" "mt_next_pgno (txn w' t) = mt_next_pgno (txn w t)"
    "map_page w' p = map_page w p" "txn_page w' t p = txn_page w t p"
proof -
  show m: "map_page w' p = map_page w p" using assms by (simp add: map_page_def same_view_def)
  have e: "mt_spill_pgs (txn w' t) = mt_spill_pgs (txn w t)" "mt_dirty_list (txn w' t) = mt_dirty_list (txn w t)"
    using assms by (simp_all add: same_view_def)
  show "txn_page w' t p = txn_page w t p" by (simp only: txn_page_def m e)
qed (use assms in \<open>simp_all add: same_view_def\<close>)

lemma page_get_loop_view1:
  assumes "page_get_loop w t p l = Some r" and "same_view w w'"
  shows "page_get_loop w' t p l = Some r"
proof -
  have "\<forall>w'. same_view w w' \<longrightarrow> page_get_loop w' t p l = Some r"
  proof (rule page_get_loop.raw_induct[where P = "\<lambda>w t p l r. \<forall>w'. same_view w w' \<longrightarrow> page_get_loop w' t p l = Some r", OF _ assms(1)])
    fix rec w t p l r
    assume IH: "\<And>w t p l r. rec w t p l = Some r \<Longrightarrow> \<forall>w'. same_view w w' \<longrightarrow> page_get_loop w' t p l = Some r"
      and run: "txn_page w t p \<bind> (\<lambda>r. case r of None \<Rightarrow> case mt_parent (txn w t) of None \<Rightarrow> Some None
          | Some t2 \<Rightarrow> rec w t2 p (l + 1) | Some q \<Rightarrow> Some (Some (q, l))) = Some r"
    show "\<forall>w'. same_view w w' \<longrightarrow> page_get_loop w' t p l = Some r"
    proof (intro allI impI)
      fix w' assume w': "same_view w w'"
      show "page_get_loop w' t p l = Some r"
        using run IH w' by (subst page_get_loop.simps) (auto simp: same_viewD[OF w'] bind_eq_Some_conv split: option.splits)
    qed
  qed
  then show ?thesis using assms(2) by blast
qed

lemma page_get_loop_view: "same_view w w' \<Longrightarrow> page_get_loop w' t p l = page_get_loop w t p l"
  using page_get_loop_view1[of w t p l _ w'] page_get_loop_view1[of w' t p l _ w] same_view_sym
  by (cases "page_get_loop w t p l"; cases "page_get_loop w' t p l") auto

lemma page_get_loop_reads: "reads w w' \<Longrightarrow> page_get_loop w' t p l = page_get_loop w t p l"
  by (intro page_get_loop_view reads_same_view)

text \<open>\<open>page_at\<close>: the transaction sees the page with the number at this address.\<close>

definition page_at :: "world \<Rightarrow> nat \<Rightarrow> u64 \<Rightarrow> addr \<Rightarrow> bool" where
  "page_at w t pgno a \<longleftrightarrow> (\<exists>l. mdb_page_get w t pgno = Some (MDB_SUCCESS, a, l, w))"

lemma mdb_page_get_reads:
  assumes "mdb_page_get w t pgno = Some (MDB_SUCCESS, a, l, w)" and r: "reads w w'"
  shows "mdb_page_get w' t pgno = Some (MDB_SUCCESS, a, l, w')"
proof -
  define r where "r = (\<lambda>v. if mt_flags (txn v t) AND (MDB_TXN_RDONLY OR MDB_TXN_WRITEMAP) = 0 then page_get_loop v t pgno 1 else Some None)"
  define f where "f = (\<lambda>v (x :: (addr \<times> nat) option). case x of Some (p, level) \<Rightarrow> Some (MDB_SUCCESS, p, level, v)
     | None \<Rightarrow> (if pgno < mt_next_pgno (txn v t) then Some (MDB_SUCCESS, map_page v pgno, 0, v)
          else Some (MDB_PAGE_NOTFOUND, 0, 0, txn_or t MDB_TXN_ERROR v)))"
  have unf: "mdb_page_get v t pgno = (case r v of None \<Rightarrow> None | Some x \<Rightarrow> f v x)" for v
    unfolding mdb_page_get_def r_def f_def by (cases "if mt_flags (txn v t) AND (MDB_TXN_RDONLY OR MDB_TXN_WRITEMAP) = 0 then page_get_loop v t pgno 1 else Some None") simp_all
  have eq: "r w' = r w" unfolding r_def page_get_loop_reads[OF r] reads_txn[OF r] ..
  have mp: "map_page w' pgno = map_page w pgno" using r by (simp add: map_page_def reads_def)
  obtain x where x: "r w = Some x" "f w x = Some (MDB_SUCCESS, a, l, w)" using assms(1) unfolding unf by (cases "r w") simp_all
  have "f w' x = Some (MDB_SUCCESS, a, l, w')"
    using x(2) by (cases x) (auto simp: f_def mp reads_txn[OF r] split: if_splits)
  then show ?thesis unfolding unf eq x(1) by simp
qed

lemma page_get_reads:
  assumes "page_at w t pgno a" and "reads w w'"
  obtains l where "mdb_page_get w' t pgno = Some (MDB_SUCCESS, a, l, w')"
proof -
  obtain l where "mdb_page_get w t pgno = Some (MDB_SUCCESS, a, l, w)" using assms(1) unfolding page_at_def by (elim exE)
  from mdb_page_get_reads[OF this assms(2)] show ?thesis by (rule that)
qed

lemma page_at_alt:
  "page_at w t pgno a \<longleftrightarrow>
     (\<exists>r. (if mt_flags (txn w t) AND (MDB_TXN_RDONLY OR MDB_TXN_WRITEMAP) = 0 then page_get_loop w t pgno 1 else Some None) = Some r \<and>
       (case r of Some (p, level) \<Rightarrow> p = a | None \<Rightarrow> pgno < mt_next_pgno (txn w t) \<and> map_page w pgno = a))"
  unfolding page_at_def mdb_page_get_def
  by (cases "if mt_flags (txn w t) AND (MDB_TXN_RDONLY OR MDB_TXN_WRITEMAP) = 0 then page_get_loop w t pgno 1 else Some None")
    (auto split: option.splits)

lemma page_at_view: "same_view w w' \<Longrightarrow> page_at w' t = page_at w t"
  by (intro ext) (simp only: page_at_alt page_get_loop_view same_viewD)

lemma page_at_fun: "page_at w t pgno a \<Longrightarrow> page_at w t pgno b \<Longrightarrow> a = b"
  by (auto simp: page_at_def)

lemma page_at_reads: "reads w w' \<Longrightarrow> page_at w' t pgno a = page_at w t pgno a"
  using page_at_view reads_same_view by metis

text \<open>\<open>item_at\<close>: the node holds the value, in the page or on overflow pages, and no duplicates.\<close>

definition item_at :: "world \<Rightarrow> nat \<Rightarrow> addr \<Rightarrow> bytes \<Rightarrow> bool" where
  "item_at w t node v \<longleftrightarrow> \<not> F_ISSET (mn_flags (w_mem w) node) F_DUPDATA \<and>
     (if F_ISSET (mn_flags (w_mem w) node) F_BIGDATA then
        \<exists>a. page_at w t (rd64 (w_mem w) (NODEDATA (w_mem w) node)) a \<and> v = mem_read (w_mem w) (METADATA a) (NODEDSZ (w_mem w) node)
      else v = mem_read (w_mem w) (NODEDATA (w_mem w) node) (NODEDSZ (w_mem w) node))"

lemma node_read_item:
  assumes "item_at w t node v" and "reads w w'"
  obtains d' where "mdb_node_read w' t node d = Some (MDB_SUCCESS, d', w')" and "val_bytes (w_mem w) d' = v"
proof (cases "F_ISSET (mn_flags (w_mem w) node) F_BIGDATA")
  case False
  then show ?thesis
    using that assms by (simp add: item_at_def mdb_node_read_def val_bytes_def reads_def Let_def)
next
  case True
  then obtain a where a: "page_at w t (rd64 (w_mem w) (NODEDATA (w_mem w) node)) a"
      and v: "v = mem_read (w_mem w) (METADATA a) (NODEDSZ (w_mem w) node)"
    using assms(1) by (auto simp: item_at_def)
  obtain l where "mdb_page_get w' t (rd64 (w_mem w) (NODEDATA (w_mem w) node)) = Some (MDB_SUCCESS, a, l, w')"
    using page_get_reads[OF a assms(2)] by blast
  then show ?thesis
    using that True v assms(2) by (simp add: mdb_node_read_def val_bytes_def reads_def Let_def)
qed

subsection \<open>Trees\<close>

text \<open>
  \<open>tree valid less_key w t h a kvs\<close>: the page at \<open>a\<close> is the root of a tree of height \<open>h\<close> over the pages that the
  transaction \<open>t\<close> sees, and its leaves hold the items \<open>kvs\<close> from left to right. The key in slot \<open>i\<close> of a branch
  page separates the items left of the child \<open>i\<close> from the others; the key in slot 0 is not used.
\<close>

definition leaf_page :: "(bytes \<Rightarrow> bool) \<Rightarrow> (bytes \<Rightarrow> bytes \<Rightarrow> bool) \<Rightarrow> world \<Rightarrow> nat \<Rightarrow> addr \<Rightarrow> (bytes \<times> bytes) list \<Rightarrow> bool" where
  "leaf_page valid less_key w t a kvs \<longleftrightarrow>
     IS_LEAF (w_mem w) a \<and> \<not> IS_BRANCH (w_mem w) a \<and> \<not> IS_LEAF2 (w_mem w) a \<and>
     length kvs = NUMKEYS (w_mem w) a \<and> 1 \<le> NUMKEYS (w_mem w) a \<and> NUMKEYS (w_mem w) a < 65536 \<and>
     (\<forall>i < NUMKEYS (w_mem w) a. fst (kvs ! i) = node_key (w_mem w) a 0 i \<and> item_at w t (NODEPTR (w_mem w) a i) (snd (kvs ! i))) \<and>
     keys_ordered valid less_key (node_key (w_mem w) a 0) 0 (NUMKEYS (w_mem w) a)"

definition branch_page :: "(bytes \<Rightarrow> bool) \<Rightarrow> (bytes \<Rightarrow> bytes \<Rightarrow> bool) \<Rightarrow> world \<Rightarrow> nat \<Rightarrow> addr \<Rightarrow> addr list \<Rightarrow> bool" where
  "branch_page valid less_key w t a cs \<longleftrightarrow>
     IS_BRANCH (w_mem w) a \<and> \<not> IS_LEAF (w_mem w) a \<and> \<not> IS_LEAF2 (w_mem w) a \<and>
     length cs = NUMKEYS (w_mem w) a \<and> 2 \<le> NUMKEYS (w_mem w) a \<and> NUMKEYS (w_mem w) a < 65536 \<and>
     (\<forall>i < NUMKEYS (w_mem w) a. page_at w t (NODEPGNO (w_mem w) (NODEPTR (w_mem w) a i)) (cs ! i)) \<and>
     keys_ordered valid less_key (node_key (w_mem w) a 0) 1 (NUMKEYS (w_mem w) a)"

definition separated :: "(bytes \<Rightarrow> bytes \<Rightarrow> bool) \<Rightarrow> (nat \<Rightarrow> bytes) \<Rightarrow> (bytes \<times> bytes) list list \<Rightarrow> bool" where
  "separated less_key ks kss \<longleftrightarrow>
     (\<forall>i j. 1 \<le> i \<and> i < length kss \<and> j < length kss \<longrightarrow>
        (\<forall>k v. (k, v) \<in> set (kss ! j) \<longrightarrow> less_key k (ks i) = (j < i)))"

inductive tree :: "(bytes \<Rightarrow> bool) \<Rightarrow> (bytes \<Rightarrow> bytes \<Rightarrow> bool) \<Rightarrow> world \<Rightarrow> nat \<Rightarrow> nat \<Rightarrow> addr \<Rightarrow> (bytes \<times> bytes) list \<Rightarrow> bool"
  for valid less_key w t where
  leaf: "leaf_page valid less_key w t a kvs \<Longrightarrow> tree valid less_key w t 0 a kvs"
| branch: "branch_page valid less_key w t a cs \<Longrightarrow> length kss = length cs \<Longrightarrow>
     (\<forall>i < length cs. tree valid less_key w t h (cs ! i) (kss ! i)) \<Longrightarrow>
     separated less_key (node_key (w_mem w) a 0) kss \<Longrightarrow> tree valid less_key w t (Suc h) a (concat kss)"

inductive_cases tree_leafE: "tree valid less_key w t 0 a kvs"
inductive_cases tree_branchE: "tree valid less_key w t (Suc h) a kvs"

lemma tree_nonempty: "tree valid less_key w t h a kvs \<Longrightarrow> kvs \<noteq> []"
proof (induction rule: tree.induct)
  case (branch a cs kss h)
  have "0 < length cs" using branch.hyps(1) by (simp add: branch_page_def)
  moreover from this have "kss ! 0 \<in> set kss" "kss ! 0 \<noteq> []" using branch.hyps(2) branch.IH by auto
  ultimately show ?case by (metis concat_eq_Nil_conv)
qed (auto simp: leaf_page_def)

text \<open>
  \<open>path\<close>: the pages and indices of a cursor from the root (level 0) to the page of level \<open>l\<close>, which is the root
  of a tree of height \<open>h\<close> with the items \<open>kvs\<close>; \<open>pre\<close> and \<open>post\<close> are the items left and right of it.
\<close>

inductive path ::
  "(bytes \<Rightarrow> bool) \<Rightarrow> (bytes \<Rightarrow> bytes \<Rightarrow> bool) \<Rightarrow> world \<Rightarrow> nat \<Rightarrow> MDB_cursor \<Rightarrow> nat \<Rightarrow> nat \<Rightarrow> addr \<Rightarrow>
   (bytes \<times> bytes) list \<Rightarrow> (bytes \<times> bytes) list \<Rightarrow> (bytes \<times> bytes) list \<Rightarrow> bool"
  for valid less_key w t c where
  root: "tree valid less_key w t h (mc_pg c 0) kvs \<Longrightarrow> path valid less_key w t c 0 h (mc_pg c 0) kvs [] []"
| down: "path valid less_key w t c l (Suc h) (mc_pg c l) (concat kss) pre post \<Longrightarrow>
     branch_page valid less_key w t (mc_pg c l) cs \<Longrightarrow> length kss = length cs \<Longrightarrow>
     (\<forall>i < length cs. tree valid less_key w t h (cs ! i) (kss ! i)) \<Longrightarrow>
     separated less_key (node_key (w_mem w) (mc_pg c l) 0) kss \<Longrightarrow>
     mc_ki c l < length cs \<Longrightarrow> mc_pg c (Suc l) = cs ! mc_ki c l \<Longrightarrow>
     path valid less_key w t c (Suc l) h (mc_pg c (Suc l)) (kss ! mc_ki c l)
       (pre @ concat (take (mc_ki c l) kss)) (concat (drop (Suc (mc_ki c l)) kss) @ post)"

inductive_cases path_rootE: "path valid less_key w t c 0 h a kvs pre post"
inductive_cases path_downE: "path valid less_key w t c (Suc l) h a kvs pre post"

lemma concat_split: "i < length kss \<Longrightarrow> concat (take i kss) @ kss ! i @ concat (drop (Suc i) kss) = concat kss"
  by (subst (4) id_take_nth_drop[of i kss]) simp_all

lemma path_page: "path valid less_key w t c l h a kvs pre post \<Longrightarrow> a = mc_pg c l"
  by (induction rule: path.induct) auto

lemma path_tree: "path valid less_key w t c l h a kvs pre post \<Longrightarrow> tree valid less_key w t h a kvs"
  by (induction rule: path.induct) auto

lemma path_cong:
  assumes "path valid less_key w t c l h a kvs pre post"
    and "\<forall>i \<le> l. mc_pg c' i = mc_pg c i" and "\<forall>i < l. mc_ki c' i = mc_ki c i"
  shows "path valid less_key w t c' l h a kvs pre post"
  using assms
proof (induction rule: path.induct)
  case (root h kvs)
  then show ?case using path.root[of valid less_key w t h c' kvs] by simp
next
  case (down l h kss pre post cs)
  then show ?case using path.down[of valid less_key w t c' l h kss pre post cs] by simp
qed

lemma path_total:
  assumes "path valid less_key w t c l h a kvs pre post"
  shows "\<exists>H. tree valid less_key w t H (mc_pg c 0) (pre @ kvs @ post) \<and> H = l + h"
  using assms
proof (induction rule: path.induct)
  case (down l h kss pre post cs)
  have "concat (take (mc_ki c l) kss) @ kss ! mc_ki c l @ concat (drop (Suc (mc_ki c l)) kss) = concat kss"
    using concat_split[of "mc_ki c l" kss] down.hyps by simp
  then have "(pre @ concat (take (mc_ki c l) kss)) @ kss ! mc_ki c l @ concat (drop (Suc (mc_ki c l)) kss) @ post = pre @ concat kss @ post"
    by (metis append_assoc)
  then show ?case using down.IH by (simp only: add_Suc add_Suc_right)
qed simp

subsection \<open>Moving a cursor\<close>

text \<open>\<open>moves\<close>: nothing changes but the stack and the flags of the cursor.\<close>

definition moves :: "nat \<Rightarrow> world \<Rightarrow> world \<Rightarrow> bool" where
  "moves mc w w' \<longleftrightarrow> (\<exists>s tp fl pg ki. w' = upd_cur mc (\<lambda>c. c\<lparr>mc_snum := s, mc_top := tp, mc_flags := fl, mc_pg := pg, mc_ki := ki\<rparr>) w)"

lemma upd_cur_id: "f (cur w mc) = cur w mc \<Longrightarrow> upd_cur mc f w = w"
  by (simp add: upd_cur_def cur_def)

lemma upd_cur_upd_cur: "upd_cur mc g (upd_cur mc f w) = upd_cur mc (\<lambda>c. g (f c)) w"
  by (simp add: upd_cur_def)

lemma upd_cur_cong: "f (cur w mc) = g (cur w mc) \<Longrightarrow> upd_cur mc f w = upd_cur mc g w"
  by (simp add: upd_cur_def cur_def)

lemma set_ki_id: "cur_ki w mc = i \<Longrightarrow> i < 65536 \<Longrightarrow> set_ki mc i w = w"
  unfolding set_ki_def cur_ki_def by (rule upd_cur_id) (simp add: fun_upd_idem)

lemma moves_upd_cur:
  assumes "f (cur w mc) = (cur w mc)\<lparr>mc_snum := mc_snum (f (cur w mc)), mc_top := mc_top (f (cur w mc)),
     mc_flags := mc_flags (f (cur w mc)), mc_pg := mc_pg (f (cur w mc)), mc_ki := mc_ki (f (cur w mc))\<rparr>"
  shows "moves mc w (upd_cur mc f w)"
  unfolding moves_def by (intro exI) (rule upd_cur_cong, rule assms)

lemma moves_refl [simp]: "moves mc w w"
  using moves_upd_cur[of "\<lambda>c. c" w mc] by (simp add: upd_cur_id)

lemma moves_trans: "moves mc w w' \<Longrightarrow> moves mc w' w'' \<Longrightarrow> moves mc w w''"
  by (fastforce simp: moves_def upd_cur_upd_cur)

lemma moves_reads: "moves mc w w' \<Longrightarrow> reads w w'"
  by (auto simp: moves_def)

lemma moves_steps [simp]:
  "moves mc w (set_ki mc i w)" "moves mc w (set_pg mc a w)" "moves mc w (cur_or mc f w)" "moves mc w (cur_clear mc f w)"
  "moves mc w (upd_cur mc (\<lambda>c. c\<lparr>mc_snum := s, mc_top := tp\<rparr>) w)"
  "moves mc w (upd_cur mc (\<lambda>c. c\<lparr>mc_pg := g c\<rparr>) w)"
  unfolding set_ki_def set_pg_def cur_or_def cur_clear_def
  by (rule moves_upd_cur; simp)+

lemma moves_fields:
  assumes "moves mc w w'"
  shows "mc_txn (cur w' mc) = mc_txn (cur w mc)" "mc_dbi (cur w' mc) = mc_dbi (cur w mc)" "mc_xcursor (cur w' mc) = mc_xcursor (cur w mc)"
    "mc_dbsrc (cur w' mc) = mc_dbsrc (cur w mc)" "get_dbx w' mc = get_dbx w mc" "get_db w' mc = get_db w mc" "get_dbflag w' mc = get_dbflag w mc"
  using assms by (auto simp: moves_def get_dbx_def get_db_def get_dbflag_def split: option.splits)

definition at_level :: "world \<Rightarrow> nat \<Rightarrow> nat \<Rightarrow> nat \<Rightarrow> bool" where
  "at_level w mc t l \<longleftrightarrow> mc_txn (cur w mc) = t \<and> mc_snum (cur w mc) = Suc l \<and> mc_top (cur w mc) = l"

lemma push_moves:
  assumes "mc_snum (cur w mc) < CURSOR_STACK"
  obtains w' where "mdb_cursor_push w mc a = (MDB_SUCCESS, w')" and "moves mc w w'" and "mc_snum (cur w' mc) = Suc (mc_snum (cur w mc))"
    and "mc_top (cur w' mc) = mc_snum (cur w mc)" and "mc_pg (cur w' mc) = (mc_pg (cur w mc))(mc_snum (cur w mc) := a)"
    and "mc_ki (cur w' mc) = (mc_ki (cur w mc))(mc_snum (cur w mc) := 0)" and "mc_flags (cur w' mc) = mc_flags (cur w mc)"
proof -
  let ?w = "upd_cur mc (\<lambda>c. c\<lparr>mc_top := mc_snum c, mc_snum := mc_snum c + 1\<rparr>) w"
  have "moves mc w ?w"
    by (rule moves_upd_cur) simp
  then have "moves mc w (set_ki mc 0 (set_pg mc a ?w))" by (meson moves_trans moves_steps)
  then show ?thesis using assms that[of "set_ki mc 0 (set_pg mc a ?w)"]
    by (simp add: mdb_cursor_push_def Let_def set_ki_def set_pg_def)
qed

text \<open>
  The descent from a page of the path to a leaf: \<open>Q\<close> is what the choice of the child keeps about the items to
  the left and to the right.
\<close>

lemma step_down:
  assumes path: "path valid less_key w t (cur w1 mc) l (Suc h) a (concat kss) pre post"
    and page: "branch_page valid less_key w t a cs" "length kss = length cs"
      "\<forall>i < length cs. tree valid less_key w t h (cs ! i) (kss ! i)" "separated less_key (node_key (w_mem w) a 0) kss"
    and r: "reads w w1" and lvl: "at_level w1 mc t l" and depth: "Suc l < CURSOR_STACK" and j: "j < length cs"
  obtains w2 lv where "mdb_page_get (set_ki mc i w1) t (NODEPGNO (w_mem w) (NODEPTR (w_mem w) a j)) = Some (MDB_SUCCESS, cs ! j, lv, set_ki mc i w1)"
    and "mdb_page_get w1 t (NODEPGNO (w_mem w) (NODEPTR (w_mem w) a j)) = Some (MDB_SUCCESS, cs ! j, lv, w1)"
    and "mdb_cursor_push (set_ki mc j w1) mc (cs ! j) = (MDB_SUCCESS, w2)" and "moves mc w1 w2" and "at_level w2 mc t (Suc l)"
    and "path valid less_key w t (cur w2 mc) (Suc l) h (cs ! j) (kss ! j) (pre @ concat (take j kss)) (concat (drop (Suc j) kss) @ post)"
    and "mc_flags (cur w2 mc) = mc_flags (cur w1 mc)" and "mc_ki (cur w2 mc) = (mc_ki (cur w1 mc))(l := j, Suc l := 0)"
    and "mc_pg (cur w2 mc) = (mc_pg (cur w1 mc))(Suc l := cs ! j)"
proof -
  have n: "length cs < 65536" using page(1) by (simp add: branch_page_def)
  have "page_at w t (NODEPGNO (w_mem w) (NODEPTR (w_mem w) a j)) (cs ! j)" using page(1) j by (simp add: branch_page_def)
  then obtain lv where lv: "mdb_page_get w t (NODEPGNO (w_mem w) (NODEPTR (w_mem w) a j)) = Some (MDB_SUCCESS, cs ! j, lv, w)"
    unfolding page_at_def by (elim exE)
  have r1: "reads w (set_ki mc i w1)" using r by simp
  have snum: "mc_snum (cur (set_ki mc j w1) mc) = Suc l" using lvl by (simp add: at_level_def set_ki_def)
  obtain w2 where w2: "mdb_cursor_push (set_ki mc j w1) mc (cs ! j) = (MDB_SUCCESS, w2)" "moves mc (set_ki mc j w1) w2"
      "mc_snum (cur w2 mc) = Suc (Suc l)" "mc_top (cur w2 mc) = Suc l"
      "mc_pg (cur w2 mc) = (mc_pg (cur (set_ki mc j w1) mc))(Suc l := cs ! j)"
      "mc_ki (cur w2 mc) = (mc_ki (cur (set_ki mc j w1) mc))(Suc l := 0)" "mc_flags (cur w2 mc) = mc_flags (cur (set_ki mc j w1) mc)"
    using push_moves[of "set_ki mc j w1" mc "cs ! j"] depth snum by auto
  have top: "mc_top (cur w1 mc) = l" and a: "a = mc_pg (cur w1 mc) l" using lvl path_page[OF path] by (simp_all add: at_level_def)
  have mv: "moves mc w1 w2" using moves_trans[OF moves_steps(1) w2(2)] .
  have ki: "mc_ki (cur w2 mc) = (mc_ki (cur w1 mc))(l := j, Suc l := 0)" and pg: "mc_pg (cur w2 mc) = (mc_pg (cur w1 mc))(Suc l := cs ! j)"
    using w2(5,6) top j n by (simp_all add: set_ki_def)
  have "path valid less_key w t (cur w2 mc) l (Suc h) a (concat kss) pre post"
    by (rule path_cong[OF path]) (simp_all add: ki pg)
  moreover have "mc_pg (cur w2 mc) l = a" "mc_ki (cur w2 mc) l = j" "mc_pg (cur w2 mc) (Suc l) = cs ! j" using a by (simp_all add: ki pg)
  ultimately have "path valid less_key w t (cur w2 mc) (Suc l) h (cs ! j) (kss ! j) (pre @ concat (take j kss)) (concat (drop (Suc j) kss) @ post)"
    using path.down[of valid less_key w t "cur w2 mc" l h kss pre post cs] page j by simp
  moreover have "at_level w2 mc t (Suc l)" using w2(3,4) moves_fields(1)[OF mv] lvl by (simp add: at_level_def)
  moreover have "mc_flags (cur w2 mc) = mc_flags (cur w1 mc)" using w2(7) by (simp add: set_ki_def)
  ultimately show ?thesis
    using that mdb_page_get_reads[OF lv r1] mdb_page_get_reads[OF lv r] w2(1) mv ki pg by blast
qed

lemma descend_route:
  assumes step: "\<And>w1 l h a kss cs pre post.
      path valid less_key w t (cur w1 mc) l (Suc h) a (concat kss) pre post \<Longrightarrow> Q pre post \<Longrightarrow> moves mc w0 w1 \<Longrightarrow> at_level w1 mc t l \<Longrightarrow>
      branch_page valid less_key w t a cs \<Longrightarrow> length kss = length cs \<Longrightarrow>
      (\<forall>i < length cs. tree valid less_key w t h (cs ! i) (kss ! i)) \<Longrightarrow> separated less_key (node_key (w_mem w) a 0) kss \<Longrightarrow>
      \<exists>j w1'. branch_index w1 mc a key flags = Some (j, w1') \<and> (w1' = w1 \<or> (\<exists>i. w1' = set_ki mc i w1)) \<and> j < length cs \<and>
        Q (pre @ concat (take j kss)) (concat (drop (Suc j) kss) @ post) \<and> G a j"
    and mod: "flags AND MDB_PS_MODIFY = 0" and r0: "reads w w0"
    and "path valid less_key w t (cur w1 mc) l h a kvs pre post" and "Q pre post" and "moves mc w0 w1" and "at_level w1 mc t l"
    and "l + h < CURSOR_STACK"
  shows "\<exists>w2 b kvs2 pre2 post2. page_search_root_gen touch w1 mc a key flags = Some (MDB_SUCCESS, w2) \<and> moves mc w1 w2 \<and>
     at_level w2 mc t (l + h) \<and> path valid less_key w t (cur w2 mc) (l + h) 0 b kvs2 pre2 post2 \<and> Q pre2 post2 \<and>
     pre2 @ kvs2 @ post2 = pre @ kvs @ post \<and> mc_flags (cur w2 mc) = (mc_flags (cur w1 mc) OR C_INITIALIZED) AND NOT C_EOF \<and>
     (\<forall>l'. l \<le> l' \<and> l' < l + h \<longrightarrow> G (mc_pg (cur w2 mc) l') (mc_ki (cur w2 mc) l')) \<and>
     (\<forall>l' < l. mc_ki (cur w2 mc) l' = mc_ki (cur w1 mc) l') \<and> (\<forall>l' \<le> l. mc_pg (cur w2 mc) l' = mc_pg (cur w1 mc) l')"
  using assms(4-)
proof (induction h arbitrary: l a kvs pre post w1)
  case 0
  have r: "reads w w1" using reads_trans[OF r0 moves_reads[OF 0(3)]] .
  have "IS_LEAF (w_mem w1) a" "\<not> IS_BRANCH (w_mem w1) a"
    using path_tree[OF 0(1)] r by (auto elim!: tree_leafE simp: leaf_page_def reads_def)
  then have run: "page_search_root_gen touch w1 mc a key flags = Some (MDB_SUCCESS, cur_clear mc C_EOF (cur_or mc C_INITIALIZED w1))"
    by (subst page_search_root_gen.simps) simp
  let ?w = "cur_clear mc C_EOF (cur_or mc C_INITIALIZED w1)"
  have "moves mc w1 ?w" by (meson moves_trans moves_steps)
  moreover have "path valid less_key w t (cur ?w mc) l 0 a kvs pre post"
    by (rule path_cong[OF 0(1)]) (simp_all add: cur_clear_def cur_or_def)
  moreover have "at_level ?w mc t l" using 0(4) by (simp add: at_level_def cur_clear_def cur_or_def)
  moreover have "mc_flags (cur ?w mc) = (mc_flags (cur w1 mc) OR C_INITIALIZED) AND NOT C_EOF" by (simp add: cur_clear_def cur_or_def)
  moreover have "mc_pg (cur ?w mc) = mc_pg (cur w1 mc)" "mc_ki (cur ?w mc) = mc_ki (cur w1 mc)" by (simp_all add: cur_clear_def cur_or_def)
  moreover have "\<forall>l'. l \<le> l' \<and> l' < l \<longrightarrow> G (mc_pg (cur w1 mc) l') (mc_ki (cur w1 mc) l')" by auto
  ultimately show ?case using run 0(2)
    by (intro exI[of _ ?w] exI[of _ a] exI[of _ kvs] exI[of _ pre] exI[of _ post]) simp
next
  case (Suc h)
  have r: "reads w w1" using reads_trans[OF r0 moves_reads[OF Suc.prems(3)]] .
  from path_tree[OF Suc.prems(1)] obtain cs kss where page: "branch_page valid less_key w t a cs" "length kss = length cs"
      "\<forall>i < length cs. tree valid less_key w t h (cs ! i) (kss ! i)" "separated less_key (node_key (w_mem w) a 0) kss" and kvs: "kvs = concat kss"
    by (auto elim!: tree_branchE)
  obtain j w1' where bi: "branch_index w1 mc a key flags = Some (j, w1')" "w1' = w1 \<or> (\<exists>i. w1' = set_ki mc i w1)" "j < length cs"
      "Q (pre @ concat (take j kss)) (concat (drop (Suc j) kss) @ post)" "G a j"
    using step[OF Suc.prems(1)[unfolded kvs] Suc.prems(2,3,4) page] by blast
  have depth: "Suc l < CURSOR_STACK" using Suc.prems(5) by simp
  have mem: "w_mem w1' = w_mem w" "mc_txn (cur w1' mc) = t" "set_ki mc j w1' = set_ki mc j w1"
    using bi(2) r Suc.prems(4) by (auto simp: reads_def at_level_def set_ki_def upd_cur_upd_cur)
  obtain i where i: "w1' = w1 \<or> w1' = set_ki mc i w1" using bi(2) by blast
  obtain w2 lv where pg: "mdb_page_get (set_ki mc i w1) t (NODEPGNO (w_mem w) (NODEPTR (w_mem w) a j)) = Some (MDB_SUCCESS, cs ! j, lv, set_ki mc i w1)"
      "mdb_page_get w1 t (NODEPGNO (w_mem w) (NODEPTR (w_mem w) a j)) = Some (MDB_SUCCESS, cs ! j, lv, w1)"
    and push: "mdb_cursor_push (set_ki mc j w1) mc (cs ! j) = (MDB_SUCCESS, w2)" "moves mc w1 w2" "at_level w2 mc t (Suc l)"
      "path valid less_key w t (cur w2 mc) (Suc l) h (cs ! j) (kss ! j) (pre @ concat (take j kss)) (concat (drop (Suc j) kss) @ post)"
      "mc_flags (cur w2 mc) = mc_flags (cur w1 mc)" "mc_ki (cur w2 mc) = (mc_ki (cur w1 mc))(l := j, Suc l := 0)"
      "mc_pg (cur w2 mc) = (mc_pg (cur w1 mc))(Suc l := cs ! j)"
    using step_down[OF Suc.prems(1)[unfolded kvs] page r Suc.prems(4) depth bi(3)] by blast
  have get: "mdb_page_get w1' t (NODEPGNO (w_mem w) (NODEPTR (w_mem w) a j)) = Some (MDB_SUCCESS, cs ! j, lv, w1')"
    using i pg by auto
  have "IS_BRANCH (w_mem w1) a" "1 < NUMKEYS (w_mem w1) a" "j < NUMKEYS (w_mem w) a"
    using page(1) r bi(3) by (simp_all add: branch_page_def reads_def)
  then have run: "page_search_root_gen touch w1 mc a key flags = page_search_root_gen touch w2 mc (cs ! j) key flags"
    using bi(1) get push(1) mod by (subst page_search_root_gen.simps) (simp add: mem)
  have "moves mc w0 w2" using moves_trans[OF Suc.prems(3) push(2)] .
  from Suc.IH[OF push(4) bi(4) this push(3)] Suc.prems(5) obtain w3 b kvs2 pre2 post2 where
      3: "page_search_root_gen touch w2 mc (cs ! j) key flags = Some (MDB_SUCCESS, w3)" "moves mc w2 w3" "at_level w3 mc t (Suc l + h)"
        "path valid less_key w t (cur w3 mc) (Suc l + h) 0 b kvs2 pre2 post2" "Q pre2 post2"
        "pre2 @ kvs2 @ post2 = (pre @ concat (take j kss)) @ kss ! j @ concat (drop (Suc j) kss) @ post"
        "mc_flags (cur w3 mc) = (mc_flags (cur w2 mc) OR C_INITIALIZED) AND NOT C_EOF"
        "\<forall>l'. Suc l \<le> l' \<and> l' < Suc l + h \<longrightarrow> G (mc_pg (cur w3 mc) l') (mc_ki (cur w3 mc) l')"
        "\<forall>l' < Suc l. mc_ki (cur w3 mc) l' = mc_ki (cur w2 mc) l'" "\<forall>l' \<le> Suc l. mc_pg (cur w3 mc) l' = mc_pg (cur w2 mc) l'" by auto
  have "mc_pg (cur w3 mc) l = a" "mc_ki (cur w3 mc) l = j" using 3(9,10) push(6,7) path_page[OF Suc.prems(1)] by simp_all
  then have G: "G (mc_pg (cur w3 mc) l') (mc_ki (cur w3 mc) l')" if "l \<le> l'" "l' < l + Suc h" for l'
    using that 3(8) bi(5) by (cases "l' = l") auto
  have same: "\<forall>l' < l. mc_ki (cur w3 mc) l' = mc_ki (cur w1 mc) l'" "\<forall>l' \<le> l. mc_pg (cur w3 mc) l' = mc_pg (cur w1 mc) l'"
    using 3(9,10) push(6,7) by auto
  have "concat (take j kss) @ kss ! j @ concat (drop (Suc j) kss) = concat kss" using concat_split[of j kss] bi(3) page(2) by simp
  then have all: "pre2 @ kvs2 @ post2 = pre @ kvs @ post" using 3(6) kvs by (metis append_assoc)
  show ?case
  proof (intro exI conjI)
    show "page_search_root_gen touch w1 mc a key flags = Some (MDB_SUCCESS, w3)" using run 3(1) by simp
    show "moves mc w1 w3" by (rule moves_trans[OF push(2) 3(2)])
    show "at_level w3 mc t (l + Suc h)" "path valid less_key w t (cur w3 mc) (l + Suc h) 0 b kvs2 pre2 post2" using 3(3,4) by simp_all
    show "mc_flags (cur w3 mc) = (mc_flags (cur w1 mc) OR C_INITIALIZED) AND NOT C_EOF" using 3(7) push(5) by simp
    show "\<forall>l'. l \<le> l' \<and> l' < l + Suc h \<longrightarrow> G (mc_pg (cur w3 mc) l') (mc_ki (cur w3 mc) l')" using G by blast
  qed (fact 3(5) all same)+
qed

lemma descend:
  assumes step: "\<And>w1 l h a kss cs pre post.
      path valid less_key w t (cur w1 mc) l (Suc h) a (concat kss) pre post \<Longrightarrow> Q pre post \<Longrightarrow> moves mc w0 w1 \<Longrightarrow> at_level w1 mc t l \<Longrightarrow>
      branch_page valid less_key w t a cs \<Longrightarrow> length kss = length cs \<Longrightarrow>
      (\<forall>i < length cs. tree valid less_key w t h (cs ! i) (kss ! i)) \<Longrightarrow> separated less_key (node_key (w_mem w) a 0) kss \<Longrightarrow>
      \<exists>j w1'. branch_index w1 mc a key flags = Some (j, w1') \<and> (w1' = w1 \<or> (\<exists>i. w1' = set_ki mc i w1)) \<and> j < length cs \<and>
        Q (pre @ concat (take j kss)) (concat (drop (Suc j) kss) @ post)"
    and "flags AND MDB_PS_MODIFY = 0" and "reads w w0"
    and "path valid less_key w t (cur w1 mc) l h a kvs pre post" and "Q pre post" and "moves mc w0 w1" and "at_level w1 mc t l"
    and "l + h < CURSOR_STACK"
  shows "\<exists>w2 b kvs2 pre2 post2. page_search_root_gen touch w1 mc a key flags = Some (MDB_SUCCESS, w2) \<and> moves mc w1 w2 \<and>
     at_level w2 mc t (l + h) \<and> path valid less_key w t (cur w2 mc) (l + h) 0 b kvs2 pre2 post2 \<and> Q pre2 post2 \<and>
     pre2 @ kvs2 @ post2 = pre @ kvs @ post \<and> mc_flags (cur w2 mc) = (mc_flags (cur w1 mc) OR C_INITIALIZED) AND NOT C_EOF"
proof -
  have "\<exists>w2 b kvs2 pre2 post2. page_search_root_gen touch w1 mc a key flags = Some (MDB_SUCCESS, w2) \<and> moves mc w1 w2 \<and>
     at_level w2 mc t (l + h) \<and> path valid less_key w t (cur w2 mc) (l + h) 0 b kvs2 pre2 post2 \<and> Q pre2 post2 \<and>
     pre2 @ kvs2 @ post2 = pre @ kvs @ post \<and> mc_flags (cur w2 mc) = (mc_flags (cur w1 mc) OR C_INITIALIZED) AND NOT C_EOF \<and>
     (\<forall>l'. l \<le> l' \<and> l' < l + h \<longrightarrow> True) \<and>
     (\<forall>l' < l. mc_ki (cur w2 mc) l' = mc_ki (cur w1 mc) l') \<and> (\<forall>l' \<le> l. mc_pg (cur w2 mc) l' = mc_pg (cur w1 mc) l')"
    by (rule descend_route[where G = "\<lambda>_ _. True" and Q = Q and ?w0.0 = w0, OF _ assms(2-8)]) (simp only: simp_thms, rule step, assumption+)
  then show ?thesis by (elim exE conjE) (intro exI conjI, assumption+)
qed

subsection \<open>The next and the previous page\<close>

definition sibling_rest :: "nat \<Rightarrow> bool \<Rightarrow> int \<Rightarrow> world \<Rightarrow> (int \<times> world) option" where
  "sibling_rest mc move_right rc w =
     (if rc \<noteq> MDB_SUCCESS then Some (rc, w)
      else if \<not> IS_BRANCH (w_mem w) (cur_pg w mc) then None
      else do {
        let indx = NODEPTR (w_mem w) (cur_pg w mc) (cur_ki w mc);
        (rc, mp, _, w) \<leftarrow> mdb_page_get w (mc_txn (cur w mc)) (NODEPGNO (w_mem w) indx);
        if rc \<noteq> 0 then Some (rc, cur_clear mc (C_INITIALIZED OR C_EOF) w)
        else do {
          let (_, w) = mdb_cursor_push w mc mp;
          Some (MDB_SUCCESS, if \<not> move_right then set_ki mc (NUMKEYS_pred (w_mem w) mp) w else w)
        }
      })"

lemma pop_level:
  assumes "at_level w mc t (Suc l)"
  obtains w' where "mdb_cursor_pop mc w = w'" and "moves mc w w'" and "at_level w' mc t l"
    and "mc_pg (cur w' mc) = mc_pg (cur w mc)" "mc_ki (cur w' mc) = mc_ki (cur w mc)" "mc_flags (cur w' mc) = mc_flags (cur w mc)"
    and "upd_cur mc (\<lambda>c. c\<lparr>mc_top := mc_top c + 1, mc_snum := mc_snum c + 1\<rparr>) w' = w"
proof -
  have eq: "mdb_cursor_pop mc w = upd_cur mc (\<lambda>c. c\<lparr>mc_snum := mc_snum c - 1, mc_top := mc_top c - 1\<rparr>) w"
    using assms by (simp add: mdb_cursor_pop_def at_level_def Let_def upd_cur_upd_cur)
  show ?thesis
    by (rule that[OF eq]; insert assms) (auto intro!: moves_upd_cur upd_cur_id simp: at_level_def upd_cur_upd_cur)
qed

lemma sibling_eq:
  "mdb_cursor_sibling w mc move_right =
     (if mc_snum (cur w mc) < 2 then Some (MDB_NOTFOUND, w)
      else let w = mdb_cursor_pop mc w in
        (if (if move_right then cur_ki w mc + 1 \<ge> NUMKEYS (w_mem w) (cur_pg w mc) else cur_ki w mc = 0) then do {
           (rc, w) \<leftarrow> mdb_cursor_sibling w mc move_right;
           Some (rc, if rc \<noteq> MDB_SUCCESS then upd_cur mc (\<lambda>c. c\<lparr>mc_top := mc_top c + 1, mc_snum := mc_snum c + 1\<rparr>) w else w)
         } else Some (MDB_SUCCESS, set_ki mc (if move_right then cur_ki w mc + 1 else cur_ki w mc - 1) w))
        \<bind> (\<lambda>(rc, w). sibling_rest mc move_right rc w))"
  unfolding sibling_rest_def by (subst mdb_cursor_sibling.simps) (rule refl)

lemma sibling_unfold:
  assumes "at_level w mc t (Suc l)" and "mdb_cursor_pop mc w = w'"
  shows "mdb_cursor_sibling w mc move_right =
    (if (if move_right then cur_ki w' mc + 1 \<ge> NUMKEYS (w_mem w') (cur_pg w' mc) else cur_ki w' mc = 0)
     then mdb_cursor_sibling w' mc move_right \<bind> (\<lambda>(rc, w). sibling_rest mc move_right rc
       (if rc \<noteq> MDB_SUCCESS then upd_cur mc (\<lambda>c. c\<lparr>mc_top := mc_top c + 1, mc_snum := mc_snum c + 1\<rparr>) w else w))
     else sibling_rest mc move_right MDB_SUCCESS (set_ki mc (if move_right then cur_ki w' mc + 1 else cur_ki w' mc - 1) w'))"
proof -
  have "\<not> mc_snum (cur w mc) < 2" using assms(1) by (simp add: at_level_def)
  then show ?thesis
    by (subst sibling_eq) (simp add: assms(2) Let_def case_prod_unfold)
qed

lemma sibling_child:
  assumes path: "path valid less_key w t (cur w1 mc) l (Suc h) a (concat kss) pre post"
    and page: "branch_page valid less_key w t a cs" "length kss = length cs"
      "\<forall>i < length cs. tree valid less_key w t h (cs ! i) (kss ! i)" "separated less_key (node_key (w_mem w) a 0) kss"
    and r: "reads w w1" and lvl: "at_level w1 mc t l" and depth: "Suc l < CURSOR_STACK" and j: "j < length cs"
  obtains w2 where "sibling_rest mc move_right MDB_SUCCESS (set_ki mc j w1) = Some (MDB_SUCCESS, w2)"
    and "moves mc w1 w2" and "at_level w2 mc t (Suc l)"
    and "path valid less_key w t (cur w2 mc) (Suc l) h (cs ! j) (kss ! j) (pre @ concat (take j kss)) (concat (drop (Suc j) kss) @ post)"
    and "mc_flags (cur w2 mc) = mc_flags (cur w1 mc)"
    and "cur_ki w2 mc = (if move_right then 0 else NUMKEYS_pred (w_mem w) (cs ! j) mod 65536)"
proof -
  have n: "length cs < 65536" "IS_BRANCH (w_mem w) a" using page(1) by (simp_all add: branch_page_def)
  have a: "mc_top (cur w1 mc) = l" "mc_pg (cur w1 mc) l = a" using lvl path_page[OF path] by (simp_all add: at_level_def)
  obtain w2 lv where get: "mdb_page_get (set_ki mc j w1) t (NODEPGNO (w_mem w) (NODEPTR (w_mem w) a j)) = Some (MDB_SUCCESS, cs ! j, lv, set_ki mc j w1)"
    and push: "mdb_cursor_push (set_ki mc j w1) mc (cs ! j) = (MDB_SUCCESS, w2)" "moves mc w1 w2" "at_level w2 mc t (Suc l)"
      "path valid less_key w t (cur w2 mc) (Suc l) h (cs ! j) (kss ! j) (pre @ concat (take j kss)) (concat (drop (Suc j) kss) @ post)"
      "mc_flags (cur w2 mc) = mc_flags (cur w1 mc)"
    using step_down[OF path page r lvl depth j, where i = j] by blast
  have m: "w_mem w1 = w_mem w" "w_mem w2 = w_mem w" "w_mem (set_ki mc j w1) = w_mem w"
    using r moves_reads[OF push(2)] by (simp_all add: reads_def set_ki_def)
  have k0: "cur_ki w2 mc = 0"
    using push(1,3) depth by (auto simp: mdb_cursor_push_def Let_def cur_ki_def set_ki_def set_pg_def at_level_def split: if_splits)
  have cur: "cur_pg (set_ki mc j w1) mc = a" "cur_ki (set_ki mc j w1) mc = j" "mc_txn (cur (set_ki mc j w1) mc) = t"
    using a lvl j n(1) by (simp_all add: cur_pg_def cur_ki_def set_ki_def at_level_def)
  let ?w = "if \<not> move_right then set_ki mc (NUMKEYS_pred (w_mem w2) (cs ! j)) w2 else w2"
  have "sibling_rest mc move_right MDB_SUCCESS (set_ki mc j w1) = Some (MDB_SUCCESS, ?w)"
    using get push(1) n(2) cur m by (simp add: sibling_rest_def Let_def)
  moreover have "moves mc w1 ?w" using push(2) moves_trans[OF push(2) moves_steps(1)] by simp
  moreover have "at_level ?w mc t (Suc l)" using push(3) by (simp add: at_level_def set_ki_def)
  moreover have "path valid less_key w t (cur ?w mc) (Suc l) h (cs ! j) (kss ! j) (pre @ concat (take j kss)) (concat (drop (Suc j) kss) @ post)"
    by (rule path_cong[OF push(4)]) (use push(3) in \<open>simp_all add: set_ki_def at_level_def\<close>)
  moreover have "mc_flags (cur ?w mc) = mc_flags (cur w1 mc)" using push(5) by (simp add: set_ki_def)
  moreover have "cur_ki ?w mc = (if move_right then 0 else NUMKEYS_pred (w_mem w) (cs ! j) mod 65536)"
    using k0 by (simp add: m cur_ki_def set_ki_def)
  ultimately show ?thesis using that by blast
qed

lemma sibling_parent:
  assumes "path valid less_key w t (cur w1 mc) (Suc l) h a kvs pre post" and "reads w w1" and "at_level w1 mc t (Suc l)"
  obtains w' b kss cs pre' post' i where "mdb_cursor_pop mc w1 = w'" and "moves mc w1 w'" and "reads w w'" and "at_level w' mc t l"
    and "mc_flags (cur w' mc) = mc_flags (cur w1 mc)"
    and "upd_cur mc (\<lambda>c. c\<lparr>mc_top := mc_top c + 1, mc_snum := mc_snum c + 1\<rparr>) w' = w1"
    and "path valid less_key w t (cur w' mc) l (Suc h) b (concat kss) pre' post'" and "branch_page valid less_key w t b cs"
    and "length kss = length cs" and "\<forall>i < length cs. tree valid less_key w t h (cs ! i) (kss ! i)"
    and "separated less_key (node_key (w_mem w) b 0) kss" and "i < length cs"
    and "kvs = kss ! i" and "pre = pre' @ concat (take i kss)" and "post = concat (drop (Suc i) kss) @ post'"
    and "cur_ki w' mc = i" and "NUMKEYS (w_mem w') (cur_pg w' mc) = length cs"
proof -
  obtain w' where pop: "mdb_cursor_pop mc w1 = w'" and mv: "moves mc w1 w'" and lv: "at_level w' mc t l"
    and same: "mc_pg (cur w' mc) = mc_pg (cur w1 mc)" "mc_ki (cur w' mc) = mc_ki (cur w1 mc)" "mc_flags (cur w' mc) = mc_flags (cur w1 mc)"
    and undo: "upd_cur mc (\<lambda>c. c\<lparr>mc_top := mc_top c + 1, mc_snum := mc_snum c + 1\<rparr>) w' = w1"
    using pop_level[OF assms(3)] by blast
  have r: "reads w w'" using reads_trans[OF assms(2) moves_reads[OF mv]] .
  let ?b = "mc_pg (cur w1 mc) l" and ?j = "mc_ki (cur w1 mc) l"
  from assms(1) obtain kss cs pre' post' where
      up: "path valid less_key w t (cur w1 mc) l (Suc h) ?b (concat kss) pre' post'"
    and page: "branch_page valid less_key w t ?b cs" "length kss = length cs"
      "\<forall>i < length cs. tree valid less_key w t h (cs ! i) (kss ! i)" "separated less_key (node_key (w_mem w) ?b 0) kss"
    and j: "?j < length cs" and kvs: "kvs = kss ! ?j" "pre = pre' @ concat (take ?j kss)" "post = concat (drop (Suc ?j) kss) @ post'"
    by (elim path_downE) blast
  have path': "path valid less_key w t (cur w' mc) l (Suc h) ?b (concat kss) pre' post'" by (rule path_cong[OF up]) (simp_all add: same)
  have cur: "cur_ki w' mc = ?j" "cur_pg w' mc = ?b" "w_mem w' = w_mem w"
    using lv r by (simp_all add: cur_ki_def cur_pg_def at_level_def same reads_def)
  have n: "NUMKEYS (w_mem w') (cur_pg w' mc) = length cs" using page(1) cur by (simp add: branch_page_def)
  show ?thesis by (rule that[OF pop mv r lv same(3) undo path' page j kvs cur(1) n])
qed

text \<open>From a page reached one level up, to its first (or, to the left, last) child.\<close>

lemma sibling_into:
  assumes path: "path valid less_key w t (cur w2 mc) l (Suc h) b kvs pre post" and r: "reads w w2" and lvl: "at_level w2 mc t l"
    and depth: "Suc l < CURSOR_STACK" and ki: "cur_ki w2 mc = (if move_right then 0 else NUMKEYS (w_mem w) b - 1)"
  obtains w3 c ks k1 k2 where "sibling_rest mc move_right MDB_SUCCESS w2 = Some (MDB_SUCCESS, w3)" and "moves mc w2 w3" and "at_level w3 mc t (Suc l)"
    and "path valid less_key w t (cur w3 mc) (Suc l) h c ks (pre @ k1) (k2 @ post)" and "kvs = k1 @ ks @ k2"
    and "if move_right then k1 = [] else k2 = []" and "mc_flags (cur w3 mc) = mc_flags (cur w2 mc)"
    and "cur_ki w3 mc = (if move_right then 0 else NUMKEYS_pred (w_mem w) c mod 65536)"
proof -
  from path_tree[OF path] obtain cs kss where page: "branch_page valid less_key w t b cs" "length kss = length cs"
      "\<forall>i < length cs. tree valid less_key w t h (cs ! i) (kss ! i)" "separated less_key (node_key (w_mem w) b 0) kss" and k: "kvs = concat kss"
    by (auto elim!: tree_branchE)
  let ?i = "if move_right then 0 else length cs - 1"
  have n: "NUMKEYS (w_mem w) b = length cs" "2 \<le> length cs" "length cs < 65536" using page(1) by (simp_all add: branch_page_def)
  then have i: "?i < length cs" "cur_ki w2 mc = ?i" using ki by auto
  have s0: "set_ki mc ?i w2 = w2" using set_ki_id[OF i(2)] i(1) n(3) by simp
  obtain w3 where w3: "sibling_rest mc move_right MDB_SUCCESS w2 = Some (MDB_SUCCESS, w3)" "moves mc w2 w3" "at_level w3 mc t (Suc l)"
    "path valid less_key w t (cur w3 mc) (Suc l) h (cs ! ?i) (kss ! ?i) (pre @ concat (take ?i kss)) (concat (drop (Suc ?i) kss) @ post)"
    "mc_flags (cur w3 mc) = mc_flags (cur w2 mc)" "cur_ki w3 mc = (if move_right then 0 else NUMKEYS_pred (w_mem w) (cs ! ?i) mod 65536)"
    using sibling_child[OF path[unfolded k] page r lvl depth i(1), where move_right = move_right, unfolded s0] by blast
  have "kvs = concat (take ?i kss) @ kss ! ?i @ concat (drop (Suc ?i) kss)" using concat_split[of ?i kss] i(1) page(2) k by simp
  moreover have "if move_right then concat (take ?i kss) = [] else concat (drop (Suc ?i) kss) = []" using page(2) n(2) by simp
  ultimately show ?thesis using that[OF w3(1-4)] w3(5,6) by blast
qed

lemma sibling_right:
  assumes "path valid less_key w t (cur w1 mc) l h a kvs pre post" and "reads w w1" and "at_level w1 mc t l" and "l < CURSOR_STACK"
  shows "if post = [] then mdb_cursor_sibling w1 mc True = Some (MDB_NOTFOUND, w1)
    else \<exists>w2 b kvs2 post2. mdb_cursor_sibling w1 mc True = Some (MDB_SUCCESS, w2) \<and> moves mc w1 w2 \<and> at_level w2 mc t l \<and>
      path valid less_key w t (cur w2 mc) l h b kvs2 (pre @ kvs) post2 \<and> post = kvs2 @ post2 \<and> cur_ki w2 mc = 0 \<and>
      mc_flags (cur w2 mc) = mc_flags (cur w1 mc)"
  using assms
proof (induction l arbitrary: h a kvs pre post w1)
  case 0
  then have "post = []" "mc_snum (cur w1 mc) < 2" by (auto elim: path_rootE simp: at_level_def)
  then show ?case by (subst mdb_cursor_sibling.simps) simp
next
  case (Suc l)
  obtain w' b kss cs pre' post' j where pop: "mdb_cursor_pop mc w1 = w'" and mv: "moves mc w1 w'" and r: "reads w w'" and lv: "at_level w' mc t l"
    and fl: "mc_flags (cur w' mc) = mc_flags (cur w1 mc)"
    and undo: "upd_cur mc (\<lambda>c. c\<lparr>mc_top := mc_top c + 1, mc_snum := mc_snum c + 1\<rparr>) w' = w1"
    and path': "path valid less_key w t (cur w' mc) l (Suc h) b (concat kss) pre' post'"
    and page: "branch_page valid less_key w t b cs" "length kss = length cs"
      "\<forall>i < length cs. tree valid less_key w t h (cs ! i) (kss ! i)" "separated less_key (node_key (w_mem w) b 0) kss"
    and j: "j < length cs" and kvs: "kvs = kss ! j" "pre = pre' @ concat (take j kss)" "post = concat (drop (Suc j) kss) @ post'"
    and cur: "cur_ki w' mc = j" "NUMKEYS (w_mem w') (cur_pg w' mc) = length cs"
    by (rule sibling_parent[OF Suc.prems(1-3)])
  note unf = sibling_unfold[OF Suc.prems(3) pop, where move_right = True, unfolded cur]
  have split: "pre @ kvs = pre' @ concat (take (Suc j) kss)" using j page(2) by (simp add: kvs take_Suc_conv_app_nth)
  show ?case
  proof (cases "Suc j < length cs")
    case True
    obtain w2 where w2: "sibling_rest mc True MDB_SUCCESS (set_ki mc (Suc j) w') = Some (MDB_SUCCESS, w2)" "moves mc w' w2" "at_level w2 mc t (Suc l)"
      "path valid less_key w t (cur w2 mc) (Suc l) h (cs ! Suc j) (kss ! Suc j) (pre @ kvs) (concat (drop (Suc (Suc j)) kss) @ post')"
      "mc_flags (cur w2 mc) = mc_flags (cur w' mc)" "cur_ki w2 mc = 0"
      unfolding split using sibling_child[OF path' page r lv Suc.prems(4) True, where move_right = True] by auto
    have post: "post = kss ! Suc j @ concat (drop (Suc (Suc j)) kss) @ post'"
      using True page(2) by (simp add: kvs Cons_nth_drop_Suc[of "Suc j" kss, symmetric])
    have ne: "post \<noteq> []" using True page(3) tree_nonempty by (fastforce simp: post)
    show ?thesis unfolding if_not_P[OF ne]
      by (intro exI[of _ w2] exI[of _ "cs ! Suc j"] exI[of _ "kss ! Suc j"] exI[of _ "concat (drop (Suc (Suc j)) kss) @ post'"])
        (use unf True w2 moves_trans[OF mv w2(2)] fl post in simp)
  next
    case False
    then have last_j: "Suc j = length kss" using j page(2) by simp
    have post: "post = post'" and pk: "pre @ kvs = pre' @ concat kss" using last_j split by (simp_all add: kvs(3))
    have "l < CURSOR_STACK" using Suc.prems(4) by simp
    note IH = Suc.IH[OF path' r lv this]
    show ?thesis
    proof (cases "post' = []")
      case True
      then have "mdb_cursor_sibling w' mc True = Some (MDB_NOTFOUND, w')" using IH by simp
      then show ?thesis using unf False undo by (simp add: post True sibling_rest_def)
    next
      case ne: False
      with IH obtain w2 b2 kvs2 post2 where w2: "mdb_cursor_sibling w' mc True = Some (MDB_SUCCESS, w2)" "moves mc w' w2" "at_level w2 mc t l"
          "path valid less_key w t (cur w2 mc) l (Suc h) b2 kvs2 (pre' @ concat kss) post2" "post' = kvs2 @ post2" "cur_ki w2 mc = 0"
          "mc_flags (cur w2 mc) = mc_flags (cur w' mc)" by auto
      have r2: "reads w w2" using reads_trans[OF r moves_reads[OF w2(2)]] .
      obtain w3 c ks k2 where w3: "sibling_rest mc True MDB_SUCCESS w2 = Some (MDB_SUCCESS, w3)" "moves mc w2 w3" "at_level w3 mc t (Suc l)"
        "path valid less_key w t (cur w3 mc) (Suc l) h c ks (pre' @ concat kss) (k2 @ post2)" "kvs2 = ks @ k2"
        "mc_flags (cur w3 mc) = mc_flags (cur w2 mc)" "cur_ki w3 mc = 0"
        by (rule sibling_into[OF w2(4) r2 w2(3) Suc.prems(4), where move_right = True]) (auto simp: w2(6))
      show ?thesis unfolding if_not_P[OF ne[folded post]]
        by (intro exI[of _ w3] exI[of _ c] exI[of _ ks] exI[of _ "k2 @ post2"])
          (use unf False w2(1,5,7) w3 moves_trans[OF moves_trans[OF mv w2(2)] w3(2)] fl post pk in simp)
    qed
  qed
qed

lemma tree_last: "tree valid less_key w t h a kvs \<Longrightarrow> NUMKEYS_pred (w_mem w) a mod 65536 = NUMKEYS (w_mem w) a - 1"
  by (cases rule: tree.cases) (auto simp: leaf_page_def branch_page_def NUMKEYS_pred_def)

lemma sibling_left:
  assumes "path valid less_key w t (cur w1 mc) l h a kvs pre post" and "reads w w1" and "at_level w1 mc t l" and "l < CURSOR_STACK"
  shows "if pre = [] then mdb_cursor_sibling w1 mc False = Some (MDB_NOTFOUND, w1)
    else \<exists>w2 b kvs2 pre2. mdb_cursor_sibling w1 mc False = Some (MDB_SUCCESS, w2) \<and> moves mc w1 w2 \<and> at_level w2 mc t l \<and>
      path valid less_key w t (cur w2 mc) l h b kvs2 pre2 (kvs @ post) \<and> pre = pre2 @ kvs2 \<and> cur_ki w2 mc = NUMKEYS (w_mem w) b - 1 \<and>
      mc_flags (cur w2 mc) = mc_flags (cur w1 mc)"
  using assms
proof (induction l arbitrary: h a kvs pre post w1)
  case 0
  then have "pre = []" "mc_snum (cur w1 mc) < 2" by (auto elim: path_rootE simp: at_level_def)
  then show ?case by (subst mdb_cursor_sibling.simps) simp
next
  case (Suc l)
  obtain w' b kss cs pre' post' j where pop: "mdb_cursor_pop mc w1 = w'" and mv: "moves mc w1 w'" and r: "reads w w'" and lv: "at_level w' mc t l"
    and fl: "mc_flags (cur w' mc) = mc_flags (cur w1 mc)"
    and undo: "upd_cur mc (\<lambda>c. c\<lparr>mc_top := mc_top c + 1, mc_snum := mc_snum c + 1\<rparr>) w' = w1"
    and path': "path valid less_key w t (cur w' mc) l (Suc h) b (concat kss) pre' post'"
    and page: "branch_page valid less_key w t b cs" "length kss = length cs"
      "\<forall>i < length cs. tree valid less_key w t h (cs ! i) (kss ! i)" "separated less_key (node_key (w_mem w) b 0) kss"
    and j: "j < length cs" and kvs: "kvs = kss ! j" "pre = pre' @ concat (take j kss)" "post = concat (drop (Suc j) kss) @ post'"
    and cur: "cur_ki w' mc = j" "NUMKEYS (w_mem w') (cur_pg w' mc) = length cs"
    by (rule sibling_parent[OF Suc.prems(1-3)])
  note unf = sibling_unfold[OF Suc.prems(3) pop, where move_right = False, unfolded cur]
  have split: "kvs @ post = concat (drop j kss) @ post'" using j page(2) by (simp add: kvs Cons_nth_drop_Suc[of j kss, symmetric])
  show ?case
  proof (cases j)
    case (Suc i)
    then have i: "i < length cs" using j by simp
    obtain w2 where w2: "sibling_rest mc False MDB_SUCCESS (set_ki mc i w') = Some (MDB_SUCCESS, w2)" "moves mc w' w2" "at_level w2 mc t (Suc l)"
      "path valid less_key w t (cur w2 mc) (Suc l) h (cs ! i) (kss ! i) (pre' @ concat (take i kss)) (kvs @ post)"
      "mc_flags (cur w2 mc) = mc_flags (cur w' mc)" "cur_ki w2 mc = NUMKEYS_pred (w_mem w) (cs ! i) mod 65536"
      unfolding split Suc using sibling_child[OF path' page r lv Suc.prems(4) i, where move_right = False] by auto
    have pre: "pre = (pre' @ concat (take i kss)) @ kss ! i" using i page(2) Suc by (simp add: kvs take_Suc_conv_app_nth)
    have ne: "pre \<noteq> []" using i page(3) tree_nonempty by (fastforce simp: pre)
    have "cur_ki w2 mc = NUMKEYS (w_mem w) (cs ! i) - 1" using w2(6) tree_last[OF page(3)[rule_format, OF i]] by simp
    then show ?thesis unfolding if_not_P[OF ne]
      by (intro exI[of _ w2] exI[of _ "cs ! i"] exI[of _ "kss ! i"] exI[of _ "pre' @ concat (take i kss)"])
        (use unf Suc w2 moves_trans[OF mv w2(2)] fl pre in simp)
  next
    case 0
    have pre: "pre = pre'" and pk: "kvs @ post = concat kss @ post'" using 0 split by (simp_all add: kvs(2))
    have "l < CURSOR_STACK" using Suc.prems(4) by simp
    note IH = Suc.IH[OF path' r lv this]
    show ?thesis
    proof (cases "pre' = []")
      case True
      then have "mdb_cursor_sibling w' mc False = Some (MDB_NOTFOUND, w')" using IH by simp
      then show ?thesis using unf 0 undo by (simp add: pre True sibling_rest_def)
    next
      case ne: False
      with IH obtain w2 b2 kvs2 pre2 where w2: "mdb_cursor_sibling w' mc False = Some (MDB_SUCCESS, w2)" "moves mc w' w2" "at_level w2 mc t l"
          "path valid less_key w t (cur w2 mc) l (Suc h) b2 kvs2 pre2 (concat kss @ post')" "pre' = pre2 @ kvs2" "cur_ki w2 mc = NUMKEYS (w_mem w) b2 - 1"
          "mc_flags (cur w2 mc) = mc_flags (cur w' mc)" by auto
      have r2: "reads w w2" using reads_trans[OF r moves_reads[OF w2(2)]] .
      obtain w3 c ks k1 where w3: "sibling_rest mc False MDB_SUCCESS w2 = Some (MDB_SUCCESS, w3)" "moves mc w2 w3" "at_level w3 mc t (Suc l)"
        "path valid less_key w t (cur w3 mc) (Suc l) h c ks (pre2 @ k1) (concat kss @ post')" "kvs2 = k1 @ ks"
        "mc_flags (cur w3 mc) = mc_flags (cur w2 mc)" "cur_ki w3 mc = NUMKEYS_pred (w_mem w) c mod 65536"
        by (rule sibling_into[OF w2(4) r2 w2(3) Suc.prems(4), where move_right = False]) (auto simp: w2(6))
      have "cur_ki w3 mc = NUMKEYS (w_mem w) c - 1" using w3(7) tree_last[OF path_tree[OF w3(4)]] by simp
      then show ?thesis unfolding if_not_P[OF ne[folded pre]]
        by (intro exI[of _ w3] exI[of _ c] exI[of _ ks] exI[of _ "pre2 @ k1"])
          (use unf 0 w2(1,5,7) w3 moves_trans[OF moves_trans[OF mv w2(2)] w3(2)] fl pre pk in simp)
    qed
  qed
qed

subsection \<open>The child for a key\<close>

text \<open>\<open>around less_key key pre post\<close>: the key is between the items on the left and those on the right.\<close>

definition around :: "(bytes \<Rightarrow> bytes \<Rightarrow> bool) \<Rightarrow> bytes \<Rightarrow> (bytes \<times> bytes) list \<Rightarrow> (bytes \<times> bytes) list \<Rightarrow> bool" where
  "around less_key key pre post \<longleftrightarrow>
     (\<forall>k v. (k, v) \<in> set pre \<longrightarrow> less_key k key) \<and> (\<forall>k v. (k, v) \<in> set post \<longrightarrow> less_key key k)"

text \<open>\<open>routed less_key key m a j\<close>: child \<open>j\<close> of the branch page is the one between whose separators the key is.\<close>

definition routed :: "(bytes \<Rightarrow> bytes \<Rightarrow> bool) \<Rightarrow> bytes \<Rightarrow> mem \<Rightarrow> addr \<Rightarrow> nat \<Rightarrow> bool" where
  "routed less_key key m a j \<longleftrightarrow> (\<forall>i. 1 \<le> i \<and> i < NUMKEYS m a \<longrightarrow> less_key key (node_key m a 0 i) = (j < i))"

lemma separatedD:
  "separated less_key ks kss \<Longrightarrow> 1 \<le> i \<Longrightarrow> i < length kss \<Longrightarrow> j < length kss \<Longrightarrow> (k, v) \<in> set (kss ! j) \<Longrightarrow> less_key k (ks i) = (j < i)"
  unfolding separated_def by blast

lemma sorted_wrt_concat:
  assumes "\<And>ks. ks \<in> set kss \<Longrightarrow> sorted_wrt P ks"
    and "\<And>i j x y. i < j \<Longrightarrow> j < length kss \<Longrightarrow> x \<in> set (kss ! i) \<Longrightarrow> y \<in> set (kss ! j) \<Longrightarrow> P x y"
  shows "sorted_wrt P (concat kss)"
  using assms
proof (induction kss)
  case (Cons ks kss)
  have "sorted_wrt P (concat kss)"
    by (rule Cons.IH) (use Cons.prems(1) Cons.prems(2)[of "Suc _" "Suc _"] in auto)
  moreover have "P x y" if x: "x \<in> set ks" and y: "y \<in> set (concat kss)" for x y
  proof -
    obtain zs where zs: "zs \<in> set kss" "y \<in> set zs" using y by auto
    obtain j where "j < length kss" "kss ! j = zs" using zs(1) by (auto simp: in_set_conv_nth)
    then show ?thesis using Cons.prems(2)[of 0 "Suc j" x y] x zs(2) by simp
  qed
  ultimately show ?case using Cons.prems(1) by (simp add: sorted_wrt_append)
qed simp

context key_order
begin

lemma less_le_trans: "valid x \<Longrightarrow> valid y \<Longrightarrow> valid z \<Longrightarrow> less_key x y \<Longrightarrow> \<not> less_key z y \<Longrightarrow> less_key x z"
  using total[of y z] trans[of x y z] by blast

lemma tree_valid: "tree valid less_key w t h a kvs \<Longrightarrow> (k, v) \<in> set kvs \<Longrightarrow> valid k"
proof (induction arbitrary: k v rule: tree.induct)
  case (leaf a kvs)
  then obtain i where "i < length kvs" "kvs ! i = (k, v)" by (auto simp: in_set_conv_nth)
  then show ?case using leaf.hyps by (auto simp: leaf_page_def keys_ordered_def)
next
  case (branch a cs kss h)
  from branch.prems obtain ks where "ks \<in> set kss" and mem: "(k, v) \<in> set ks" by auto
  then obtain i where "i < length kss" "kss ! i = ks" by (auto simp: in_set_conv_nth)
  then show ?case using branch.IH branch.hyps mem by auto
qed

lemma tree_sorted: "tree valid less_key w t h a kvs \<Longrightarrow> sorted_wrt less_key (map fst kvs)"
proof (induction rule: tree.induct)
  case (leaf a kvs)
  then show ?case by (auto simp: leaf_page_def keys_ordered_def sorted_wrt_iff_nth_less)
next
  case (branch a cs kss h)
  have between: "less_key (fst x) (fst y)" if ij: "i < j" "j < length kss" and x: "x \<in> set (kss ! i)" and y: "y \<in> set (kss ! j)" for i j x y
  proof -
    have x': "(fst x, snd x) \<in> set (kss ! i)" and y': "(fst y, snd y) \<in> set (kss ! j)" using x y by simp_all
    have "less_key (fst x) (node_key (w_mem w) a 0 j)" "\<not> less_key (fst y) (node_key (w_mem w) a 0 j)"
      using separatedD[OF branch.hyps(3) _ _ _ x', of j] separatedD[OF branch.hyps(3) _ _ _ y', of j] ij by simp_all
    moreover have "valid (fst x)" using tree_valid[OF _ x', of w t h "cs ! i"] branch ij by simp
    moreover have "valid (fst y)" using tree_valid[OF _ y', of w t h "cs ! j"] branch ij by simp
    moreover have "valid (node_key (w_mem w) a 0 j)" using branch.hyps ij by (simp add: branch_page_def keys_ordered_def)
    ultimately show ?thesis using less_le_trans by blast
  qed
  have "sorted_wrt (\<lambda>x y. less_key (fst x) (fst y)) ks" if ks: "ks \<in> set kss" for ks
  proof -
    obtain i where "i < length kss" "kss ! i = ks" using ks by (auto simp: in_set_conv_nth)
    then show ?thesis using branch by (auto simp: sorted_wrt_map)
  qed
  then show ?case using sorted_wrt_concat[of kss] between by (simp add: sorted_wrt_map)
qed

lemma branch_child:
  assumes "branch_page valid less_key w t a cs" and len: "length kss = length cs"
    and trees: "\<forall>i < length cs. tree valid less_key w t h (cs ! i) (kss ! i)" and sep: "separated less_key (node_key (w_mem w) a 0) kss"
    and key: "valid key" and pos: "key_pos less_key (node_key (w_mem w) a 0) 1 (length cs) key i"
    and j: "j = (if i < length cs \<and> node_key (w_mem w) a 0 i = key then i else i - 1)" and "around less_key key pre post"
  shows "around less_key key (pre @ concat (take j kss)) (concat (drop (Suc j) kss) @ post)"
proof -
  let ?ks = "node_key (w_mem w) a 0" and ?n = "length cs"
  have n: "2 \<le> ?n" and ord: "keys_ordered valid less_key ?ks 1 ?n" using assms(1) by (simp_all add: branch_page_def)
  have i: "1 \<le> i" "i \<le> ?n" "\<And>m. 1 \<le> m \<Longrightarrow> m < i \<Longrightarrow> less_key (?ks m) key" "\<And>m. i \<le> m \<Longrightarrow> m < ?n \<Longrightarrow> \<not> less_key (?ks m) key"
    using pos by (auto simp: key_pos_def)
  have val: "valid (?ks m)" if "1 \<le> m" "m < ?n" for m using ord that by (simp add: keys_ordered_def)
  have kv: "valid k" if "m < ?n" "(k, v) \<in> set (kss ! m)" for m k v using tree_valid trees that by blast
  have left: "less_key k key" if "m < j" "(k, v) \<in> set (kss ! m)" for m k v
  proof -
    have jn: "1 \<le> j" "j < ?n" using that(1) j i(1,2) by (auto split: if_splits)
    then have "less_key k (?ks j)" using separatedD[OF sep _ _ _ that(2), of j] that(1) len by simp
    moreover have "?ks j = key \<or> less_key (?ks j) key" using j i(3)[of j] jn by (auto split: if_splits)
    ultimately show ?thesis using trans[OF kv[OF _ that(2)] val[OF jn] key] jn that(1) by auto
  qed
  have right: "less_key key k" if "j < m" "m < ?n" "(k, v) \<in> set (kss ! m)" for m k v
  proof -
    have sj: "1 \<le> Suc j" "Suc j < ?n" "\<not> less_key k (?ks (Suc j))" using that separatedD[OF sep _ _ _ that(3), of "Suc j"] len by simp_all
    have "less_key key (?ks (Suc j))"
    proof (cases "j = i")
      case True
      then have "?ks j = key" using j i(1) by (auto split: if_splits)
      then show ?thesis using ord i(1) True sj(2) by (auto simp: keys_ordered_def)
    next
      case False
      then have "Suc j = i" "?ks i \<noteq> key" using j i(1) sj(2) by (auto split: if_splits)
      then show ?thesis using total[OF key val, of i] i(4)[of i] i(1) sj(2) by auto
    qed
    then show ?thesis using less_le_trans[OF key val[OF sj(1,2)] kv[OF that(2,3)] _ sj(3)] by blast
  qed
  have "less_key k key" if m: "(k, v) \<in> set (concat (take j kss))" for k v
  proof -
    obtain ks where ks: "ks \<in> set (take j kss)" and mem: "(k, v) \<in> set ks" using m by auto
    obtain i where "i < length (take j kss)" "take j kss ! i = ks" using ks unfolding in_set_conv_nth by blast
    then show ?thesis using left[of i k v] mem by simp
  qed
  moreover have "less_key key k" if m: "(k, v) \<in> set (concat (drop (Suc j) kss))" for k v
  proof -
    obtain ks where ks: "ks \<in> set (drop (Suc j) kss)" and mem: "(k, v) \<in> set ks" using m by auto
    obtain i where "i < length (drop (Suc j) kss)" "drop (Suc j) kss ! i = ks" using ks unfolding in_set_conv_nth by blast
    then show ?thesis using right[of "Suc j + i" k v] len mem by simp
  qed
  ultimately show ?thesis using assms(8) by (auto simp: around_def)
qed

lemma branch_index_key:
  assumes page: "branch_page valid less_key w t a cs" and r: "reads w w1" and a: "cur_pg w1 mc = a"
    and c: "md_cmp (get_dbx w1 mc) = Some c" and key: "valid (val_bytes (w_mem w) k)"
  obtains i j where "branch_index w1 mc a (Some k) 0 = Some (j, set_ki mc i w1)" and "j < length cs"
    and "key_pos less_key (node_key (w_mem w) a 0) 1 (length cs) (val_bytes (w_mem w) k) i"
    and "j = (if i < length cs \<and> node_key (w_mem w) a 0 i = val_bytes (w_mem w) k then i else i - 1)"
proof -
  let ?m = "w_mem w" and ?n = "NUMKEYS (w_mem w) a" and ?key = "val_bytes (w_mem w) k"
  have p: "IS_BRANCH ?m a" "\<not> IS_LEAF ?m a" "\<not> IS_LEAF2 ?m a" "length cs = ?n" "2 \<le> ?n" "?n < 65536"
      "keys_ordered valid less_key (node_key ?m a 0) 1 ?n"
    using page by (auto simp: branch_page_def)
  have fs: "first_slot ?m a = 1" using p(2) by (simp add: first_slot_def)
  have m: "w_mem w1 = ?m" using r by (simp add: reads_def)
  obtain i where i: "page_search_key ?m a c (unat (md_pad (get_db w1 mc))) ?key =
      Some (if i < ?n then Some (NODEPTR ?m a i) else None, i < ?n \<and> node_key ?m a 0 i = ?key, i)"
      "key_pos less_key (node_key ?m a 0) 1 ?n ?key i"
    using page_position[of ?m a ?key "unat (md_pad (get_db w1 mc))"] p key fs by auto
  have b: "1 \<le> i" "i \<le> ?n" using i(2) by (auto simp: key_pos_def)
  have ki: "cur_ki (set_ki mc i w1) mc = i" using b p(6) by (simp add: cur_ki_def set_ki_def)
  have pred: "NUMKEYS_pred ?m a = ?n - 1" using p(5) by (simp add: NUMKEYS_pred_def)
  define j where "j = (if i < ?n \<and> node_key ?m a 0 i = ?key then i else i - 1)"
  have "mdb_node_search w1 mc k = Some (if i < ?n then Some (NODEPTR ?m a i) else None, i < ?n \<and> node_key ?m a 0 i = ?key, set_ki mc i w1)"
    using c i(1) by (simp add: mdb_node_search_def a m)
  then have "branch_index w1 mc a (Some k) 0 = Some (j, set_ki mc i w1)"
    using ki b pred by (auto simp: branch_index_def j_def m set_ki_def)
  moreover have "j < length cs" using b p(4,5) by (auto simp: j_def)
  ultimately show ?thesis using that i(2) p(4) j_def by simp
qed

text \<open>The branch taken at every level is the one whose separators enclose the key.\<close>

lemma branch_route:
  assumes "branch_page valid less_key w t a cs" and key: "valid key"
    and pos: "key_pos less_key (node_key (w_mem w) a 0) 1 (length cs) key i"
    and j: "j = (if i < length cs \<and> node_key (w_mem w) a 0 i = key then i else i - 1)"
  shows "routed less_key key (w_mem w) a j"
proof -
  let ?ks = "node_key (w_mem w) a 0" and ?n = "length cs"
  have n: "?n = NUMKEYS (w_mem w) a" and ord: "keys_ordered valid less_key ?ks 1 ?n" using assms(1) by (simp_all add: branch_page_def)
  have i: "1 \<le> i" "\<And>m. 1 \<le> m \<Longrightarrow> m < i \<Longrightarrow> less_key (?ks m) key" "\<And>m. i \<le> m \<Longrightarrow> m < ?n \<Longrightarrow> \<not> less_key (?ks m) key"
    using pos by (auto simp: key_pos_def)
  have val: "valid (?ks m)" if "1 \<le> m" "m < ?n" for m using ord that by (simp add: keys_ordered_def)
  have "less_key key (?ks m) = (j < m)" if m: "1 \<le> m" "m < ?n" for m
  proof (cases "j < m")
    case True
    show ?thesis
    proof (cases "i < ?n \<and> ?ks i = key")
      case eq: True
      then have "less_key (?ks i) (?ks m)" using ord i(1) True j m by (auto simp: keys_ordered_def)
      then show ?thesis using eq True by simp
    next
      case ne: False
      then have im: "i \<le> m" using True j i(1) by auto
      have "?ks m \<noteq> key"
      proof
        assume e: "?ks m = key"
        then have "i < m" using ne im m by (cases "i = m") auto
        then have "less_key (?ks i) key" using ord i(1) m e by (auto simp: keys_ordered_def)
        then show False using i(3)[of i] \<open>i < m\<close> m by simp
      qed
      then show ?thesis using total[OF key val[OF m]] i(3)[OF im m(2)] True by auto
    qed
  next
    case False
    have "\<not> less_key key (?ks m)"
    proof (cases "m < i")
      case True
      then show ?thesis using less_asym[OF val[OF m] key i(2)[OF m(1) True]] by blast
    next
      case mi: False
      then have "m = i \<and> ?ks i = key" using False j i(1) by (cases "i < ?n \<and> ?ks i = key") auto
      then show ?thesis using irrefl[OF key] by auto
    qed
    then show ?thesis using False by simp
  qed
  then show ?thesis by (simp add: routed_def n)
qed

lemma search_key_route:
  assumes "path valid less_key w t (cur w1 mc) l h a kvs pre post" and "around less_key (val_bytes (w_mem w) k) pre post"
    and r: "reads w w1" and "at_level w1 mc t l" and "l + h < CURSOR_STACK"
    and c: "md_cmp (get_dbx w1 mc) = Some c" and key: "valid (val_bytes (w_mem w) k)"
  shows "\<exists>w2 b kvs2 pre2 post2. page_search_root_gen touch w1 mc a (Some k) 0 = Some (MDB_SUCCESS, w2) \<and> moves mc w1 w2 \<and>
     at_level w2 mc t (l + h) \<and> path valid less_key w t (cur w2 mc) (l + h) 0 b kvs2 pre2 post2 \<and>
     around less_key (val_bytes (w_mem w) k) pre2 post2 \<and>
     pre2 @ kvs2 @ post2 = pre @ kvs @ post \<and> mc_flags (cur w2 mc) = (mc_flags (cur w1 mc) OR C_INITIALIZED) AND NOT C_EOF \<and>
     (\<forall>l'. l \<le> l' \<and> l' < l + h \<longrightarrow> routed less_key (val_bytes (w_mem w) k) (w_mem w) (mc_pg (cur w2 mc) l') (mc_ki (cur w2 mc) l')) \<and>
     (\<forall>l' < l. mc_ki (cur w2 mc) l' = mc_ki (cur w1 mc) l') \<and> (\<forall>l' \<le> l. mc_pg (cur w2 mc) l' = mc_pg (cur w1 mc) l')"
proof (rule descend_route[where w = w and t = t and valid = valid and less_key = less_key and ?w0.0 = w1 and
      Q = "around less_key (val_bytes (w_mem w) k)" and flags = 0 and
      G = "routed less_key (val_bytes (w_mem w) k) (w_mem w)"])
  fix w1' l' h' a' kss cs pre' post'
  assume p: "path valid less_key w t (cur w1' mc) l' (Suc h') a' (concat kss) pre' post'" and ar: "around less_key (val_bytes (w_mem w) k) pre' post'"
    and mv: "moves mc w1 w1'" and lv: "at_level w1' mc t l'"
    and page: "branch_page valid less_key w t a' cs" "length kss = length cs"
      "\<forall>i < length cs. tree valid less_key w t h' (cs ! i) (kss ! i)" "separated less_key (node_key (w_mem w) a' 0) kss"
  have "cur_pg w1' mc = a'" using path_page[OF p] lv by (simp add: cur_pg_def at_level_def)
  moreover have "reads w w1'" using reads_trans[OF r moves_reads[OF mv]] .
  moreover have "md_cmp (get_dbx w1' mc) = Some c" using c moves_fields(5)[OF mv] by simp
  ultimately obtain i j where ij: "branch_index w1' mc a' (Some k) 0 = Some (j, set_ki mc i w1')" "j < length cs"
      "key_pos less_key (node_key (w_mem w) a' 0) 1 (length cs) (val_bytes (w_mem w) k) i"
      "j = (if i < length cs \<and> node_key (w_mem w) a' 0 i = val_bytes (w_mem w) k then i else i - 1)"
    using branch_index_key[OF page(1)] key by blast
  then show "\<exists>j w1''. branch_index w1' mc a' (Some k) 0 = Some (j, w1'') \<and> (w1'' = w1' \<or> (\<exists>i. w1'' = set_ki mc i w1')) \<and> j < length cs \<and>
      around less_key (val_bytes (w_mem w) k) (pre' @ concat (take j kss)) (concat (drop (Suc j) kss) @ post') \<and>
      routed less_key (val_bytes (w_mem w) k) (w_mem w) a' j"
    using branch_child[OF page key ij(3,4) ar] branch_route[OF page(1) key ij(3,4)] by blast
qed (use assms in simp_all)

text \<open>The search for a key ends at the leaf where it belongs.\<close>

lemma search_key:
  assumes "path valid less_key w t (cur w1 mc) l h a kvs pre post" and "around less_key (val_bytes (w_mem w) k) pre post"
    and r: "reads w w1" and "at_level w1 mc t l" and "l + h < CURSOR_STACK"
    and c: "md_cmp (get_dbx w1 mc) = Some c" and key: "valid (val_bytes (w_mem w) k)"
  shows "\<exists>w2 b kvs2 pre2 post2. page_search_root_gen touch w1 mc a (Some k) 0 = Some (MDB_SUCCESS, w2) \<and> moves mc w1 w2 \<and>
     at_level w2 mc t (l + h) \<and> path valid less_key w t (cur w2 mc) (l + h) 0 b kvs2 pre2 post2 \<and>
     around less_key (val_bytes (w_mem w) k) pre2 post2 \<and>
     pre2 @ kvs2 @ post2 = pre @ kvs @ post \<and> mc_flags (cur w2 mc) = (mc_flags (cur w1 mc) OR C_INITIALIZED) AND NOT C_EOF"
  using search_key_route[OF assms, of touch] by blast

end

subsection \<open>A database\<close>

text \<open>
  \<open>db_holds valid less_key c w t dbi kvs\<close>: the transaction can use the database, which has no duplicates and the
  comparison \<open>c\<close>, and its tree holds the items \<open>kvs\<close>. \<open>on_db\<close>: a cursor of it.
\<close>

definition db_holds :: "(bytes \<Rightarrow> bool) \<Rightarrow> (bytes \<Rightarrow> bytes \<Rightarrow> bool) \<Rightarrow> cmp_func \<Rightarrow> world \<Rightarrow> nat \<Rightarrow> nat \<Rightarrow> (bytes \<times> bytes) list \<Rightarrow> bool" where
  "db_holds valid less_key c w t dbi kvs \<longleftrightarrow>
     TXN_DBI_EXIST w t dbi DB_USRVALID \<and> mt_flags (txn w t) AND MDB_TXN_BLOCKED = 0 \<and>
     md_flags (mt_dbs (txn w t) dbi) AND MDB_DUPSORT = 0 \<and> mt_dbflags (txn w t) dbi AND DB_STALE = 0 \<and>
     md_cmp (me_dbxs (w_env w) dbi) = Some c \<and>
     (if md_root (mt_dbs (txn w t) dbi) = P_INVALID then kvs = []
      else 1 < md_root (mt_dbs (txn w t) dbi) \<and>
        (\<exists>a h. page_at w t (md_root (mt_dbs (txn w t) dbi)) a \<and> tree valid less_key w t h a kvs \<and> h < CURSOR_STACK))"

definition on_db :: "world \<Rightarrow> nat \<Rightarrow> nat \<Rightarrow> nat \<Rightarrow> bool" where
  "on_db w mc t dbi \<longleftrightarrow> mc_txn (cur w mc) = t \<and> mc_dbi (cur w mc) = dbi \<and> mc_dbsrc (cur w mc) = None \<and> mc_xcursor (cur w mc) = None"

lemma on_db_moves: "moves mc w w' \<Longrightarrow> on_db w' mc t dbi = on_db w mc t dbi"
  by (simp add: on_db_def moves_fields)

lemma on_db_access:
  assumes "on_db w1 mc t dbi" and "reads w w1"
  shows "get_db w1 mc = mt_dbs (txn w t) dbi" "get_dbx w1 mc = me_dbxs (w_env w) dbi" "get_dbflag w1 mc = mt_dbflags (txn w t) dbi"
    "reset_xcursor mc w1 = w1"
  using assms(1) reads_txn[OF assms(2)] assms(2)
  by (simp_all add: on_db_def get_db_def get_dbx_def get_dbflag_def reset_xcursor_def reads_def)

lemma cursor_init_db:
  assumes "db_holds valid less_key c w t dbi kvs" and "reads w w1"
  obtains w2 where "mdb_cursor_init mc t dbi mx w1 = Some w2" and "reads w w2" and "on_db w2 mc t dbi" and "mc_flags (cur w2 mc) = 0"
    and "mc_pg (cur w2 mc) 0 = 0"
proof -
  have "md_flags (mt_dbs (txn w1 t) dbi) AND MDB_DUPSORT = 0" "mt_dbflags (txn w1 t) dbi AND DB_STALE = 0"
    using assms(1) by (simp_all add: db_holds_def reads_txn[OF assms(2)])
  then show ?thesis
    using assms(2) that
    by (simp add: mdb_cursor_init_def cursor_init_gen_def cursor_init_fields_def Let_def get_dbflag_def on_db_def upd_cur_upd_cur)
qed

text \<open>
  The search from the root, up to the page under which \<open>page_search_root_gen\<close> continues; a cursor that has the root
  already keeps it.
\<close>

lemma search_from_root:
  assumes db: "db_holds valid less_key c w t dbi kvs" and r: "reads w w1" and on: "on_db w1 mc t dbi"
    and pg: "mc_pg (cur w1 mc) 0 = 0 \<or> (\<exists>h < CURSOR_STACK. tree valid less_key w t h (mc_pg (cur w1 mc) 0) kvs)"
    and ne: "kvs \<noteq> []" and fl: "flags AND MDB_PS_MODIFY = 0" "flags AND MDB_PS_ROOTONLY = 0"
  obtains w2 a h where "page_search_gen touch w1 mc key flags = page_search_root_gen touch w2 mc a key flags" and "moves mc w1 w2"
    and "at_level w2 mc t 0" and "path valid less_key w t (cur w2 mc) 0 h a kvs [] []" and "h < CURSOR_STACK"
    and "mc_flags (cur w2 mc) = mc_flags (cur w1 mc)"
    and "mc_pg (cur w1 mc) 0 = 0 \<Longrightarrow> page_at w t (md_root (mt_dbs (txn w t) dbi)) a"
proof -
  let ?root = "md_root (mt_dbs (txn w t) dbi)" and ?pg = "mc_pg (cur w1 mc) 0"
  obtain a h where ah: "page_at w t ?root a" "tree valid less_key w t h a kvs" "h < CURSOR_STACK" and root: "?root \<noteq> P_INVALID" "1 < ?root"
    using db ne by (auto simp: db_holds_def split: if_splits)
  obtain l where l: "mdb_page_get w1 t ?root = Some (MDB_SUCCESS, a, l, w1)" using page_get_reads[OF ah(1) r] by blast
  note acc = on_db_access[OF on r]
  have t: "mc_txn (cur w1 mc) = t" using on by (simp add: on_db_def)
  define new where "new \<longleftrightarrow> ?pg = 0 \<or> mp_pgno (w_mem w1) ?pg \<noteq> ?root"
  define w2 where "w2 = upd_cur mc (\<lambda>c. c\<lparr>mc_snum := 1, mc_top := 0\<rparr>) (if new then upd_cur mc (\<lambda>c. c\<lparr>mc_pg := (mc_pg c)(0 := a)\<rparr>) w1 else w1)"
  have pg2: "mc_pg (cur w2 mc) 0 = (if new then a else ?pg)" and lv2: "mc_top (cur w2 mc) = 0" by (simp_all add: w2_def)
  obtain h2 where h2: "tree valid less_key w t h2 (mc_pg (cur w2 mc) 0) kvs" "h2 < CURSOR_STACK"
    using pg ah(2,3) unfolding pg2 by (cases new) (auto simp: new_def)
  have "mt_flags (txn w1 t) AND MDB_TXN_BLOCKED = 0" "get_dbflag w1 mc AND DB_STALE = 0"
    using db acc(3) by (simp_all add: db_holds_def reads_txn[OF r])
  then have "page_search_gen touch w1 mc key flags = page_search_from touch w1 mc key flags"
    using t by (subst page_search_gen.simps) simp
  moreover have "page_search_from touch w1 mc key flags = page_search_root_gen touch w2 mc (cur_pg w2 mc) key flags"
    using root l fl by (simp add: page_search_from_def acc(1) t Let_def w2_def new_def)
  ultimately have run: "page_search_gen touch w1 mc key flags = page_search_root_gen touch w2 mc (mc_pg (cur w2 mc) 0) key flags"
    by (simp add: cur_pg_def lv2)
  have mv: "moves mc w1 w2" unfolding w2_def by (cases new) (simp_all add: moves_trans[OF moves_steps(6) moves_steps(5)])
  have "page_at w t ?root (mc_pg (cur w2 mc) 0)" if "?pg = 0" using ah(1) that by (simp add: pg2 new_def)
  then show ?thesis using that[OF run mv _ path.root[OF h2(1)] h2(2)] t by (simp add: at_level_def w2_def)
qed

end
