(* ===== verification/Demo.thy ===== *)
theory Demo
  imports Page_Tree
begin

text \<open>
  A small concrete database for the witnesses: pages of 128 bytes mapped at address 1024; the root of the main
  database is the branch page 2 with the leaves 3 (keys a and b) and 4 (keys c and d). A read-only transaction
  (transaction 0) sees it.
\<close>

section \<open>A concrete database\<close>

text \<open>Values of a caller: an empty one, and one that points at the bytes \<open>bs\<close>.\<close>

definition nil_val :: MDB_val where
  "nil_val = \<lparr>mv_size = 0, mv_data = Mem 0\<rparr>"

definition val_of :: "bytes \<Rightarrow> MDB_val" where
  "val_of bs = \<lparr>mv_size = length bs, mv_data = Obj bs\<rparr>"

lemma val_of_bytes [simp]: "val_bytes m (val_of bs) = bs" "mv_size (val_of bs) = length bs"
  by (simp_all add: val_of_def val_bytes_def)

definition demo_mem :: mem where
  "demo_mem = (\<lambda>_. 0)
     (1280 := 2, 1290 := 1, 1292 := 20, 1294 := 110, 1296 := 120, 1298 := 110,
      1400 := 3, 1390 := 4, 1396 := 1, 1398 := 99,
      1408 := 3, 1418 := 2, 1420 := 20, 1422 := 108, 1424 := 118, 1426 := 108,
      1526 := 1, 1532 := 1, 1534 := 97, 1535 := 1, 1516 := 1, 1522 := 1, 1524 := 98, 1525 := 2,
      1536 := 4, 1546 := 2, 1548 := 20, 1550 := 108, 1552 := 118, 1554 := 108,
      1654 := 1, 1660 := 1, 1662 := 99, 1663 := 3, 1644 := 1, 1650 := 1, 1652 := 100, 1653 := 4)"

definition demo_db :: MDB_db where
  "demo_db = \<lparr>md_pad = 0, md_flags = 0, md_depth = 2, md_branch_pages = 1, md_leaf_pages = 2, md_overflow_pages = 0,
     md_entries = 4, md_root = 2\<rparr>"

definition no_db :: MDB_db where
  "no_db = \<lparr>md_pad = 0, md_flags = 0, md_depth = 0, md_branch_pages = 0, md_leaf_pages = 0, md_overflow_pages = 0,
     md_entries = 0, md_root = P_INVALID\<rparr>"

definition demo_dbx :: MDB_dbx where
  "demo_dbx = \<lparr>md_name = [], md_cmp = Some Cmp_memn, md_dcmp = None\<rparr>"

definition demo_idl :: MDB_IDL where
  "demo_idl = \<lparr>alloclen = 0, cells = [0]\<rparr>"

definition demo_env :: MDB_env where
  "demo_env = \<lparr>me_flags = 0, me_psize = 128, me_os_psize = 128, me_maxreaders = 2, me_close_readers = 0, me_numdbs = 2, me_maxdbs = 3,
     me_pid = 7, me_map = 1024, me_txns = None, me_pbuf = 8192, me_txn = None, me_txn0 = 0, me_mapsize = 1280, me_maxpg = 10,
     me_dbxs = (\<lambda>_. demo_dbx), me_dbflags = (\<lambda>_. 0), me_dbiseqs = (\<lambda>_. 0), me_txn0_seqs = (\<lambda>_. 0), me_pgoldest = 0,
     me_pglast = 0, me_pghead = None, me_dpages = 0, me_free_pgs = demo_idl, me_dirty_list = [\<lparr>mid = 0, mptr = 0\<rparr>], me_maxfree_1pg = 13, me_nodemax = 54,
     me_live_reader = False\<rparr>"

definition demo_txn :: MDB_txn where
  "demo_txn = \<lparr>mt_parent = None, mt_child = None, mt_next_pgno = 5, mt_txnid = 1, mt_free_pgs = demo_idl, mt_loose_pgs = 0,
     mt_loose_count = 0, mt_spill_pgs = None, mt_dirty_list = [\<lparr>mid = 0, mptr = 0\<rparr>], mt_reader = Some 0,
     mt_dbs = (\<lambda>dbi. if dbi = MAIN_DBI then demo_db else no_db), mt_env_seqs = True, mt_cursors = None,
     mt_dbflags = (\<lambda>_. DB_VALID OR DB_USRVALID), mt_numdbs = 2, mt_flags = MDB_TXN_RDONLY, mt_dirty_room = 0, mnt_pghead = None, mnt_pglast = 0\<rparr>"

definition demo_cursor :: MDB_cursor where
  "demo_cursor = \<lparr>mc_backup = None, mc_xcursor = None, mc_txn = 0, mc_dbi = MAIN_DBI, mc_dbsrc = None, mx_db = no_db, mx_dbx = demo_dbx,
     mx_dbflag = 0, mc_snum = 0, mc_top = 0, mc_flags = 0, mc_pg = (\<lambda>_. 0), mc_ki = (\<lambda>_. 0)\<rparr>"

definition demo :: world where
  "demo = \<lparr>w_mem = demo_mem, w_env = demo_env, w_txns = (\<lambda>_. demo_txn), w_cursors = (\<lambda>_. demo_cursor), w_ntxn = 1, w_ncur = 0,
     w_brk = 16384, w_ok = (\<lambda>_. True), w_gid = (\<lambda>_. 0), w_nio = 0, w_write = (\<lambda>_. (0, 0)), w_sync = (\<lambda>_. 0), w_tid = 1,
     w_tls = (\<lambda>_. None), w_tlsrc = 0, w_wlock = False, w_lockrc = 0, w_pidset = 0, w_alive = (\<lambda>_. True)\<rparr>"

definition demo_items :: "(bytes \<times> bytes) list" where
  "demo_items = [([97], [1]), ([98], [2]), ([99], [3]), ([100], [4])]"

lemma demo_env [simp]: "w_mem demo = demo_mem" "w_env demo = demo_env" "txn demo t = demo_txn" "w_ok demo n"
  by (simp_all add: demo_def txn_def)

lemmas demo_read = rd16_def rd64_def mem_read_def le_nat.simps upt_rec_numeral demo_mem_def

lemma demo_page2:
  "mp_flags demo_mem 1280 = 1" "NUMKEYS demo_mem 1280 = 2" "NODEPTR demo_mem 1280 0 = 1400" "NODEPTR demo_mem 1280 (Suc 0) = 1390"
  "NODEPGNO demo_mem 1400 = 3" "NODEPGNO demo_mem 1390 = 4" "NODEKSZ demo_mem 1390 = 1" "demo_mem 1398 = 99"
  by (simp_all add: mp_flags_def NUMKEYS_def mp_lower_def NODEPTR_def mp_ptrs_def NODEPGNO_def NODEKSZ_def mn_lo_def mn_hi_def mn_flags_def
      mn_ksize_def demo_read)

lemma demo_page3:
  "mp_flags demo_mem 1408 = 2" "NUMKEYS demo_mem 1408 = 2" "NODEPTR demo_mem 1408 0 = 1526" "NODEPTR demo_mem 1408 (Suc 0) = 1516"
  "mn_flags demo_mem 1526 = 0" "mn_flags demo_mem 1516 = 0" "NODEKSZ demo_mem 1526 = 1" "NODEKSZ demo_mem 1516 = 1"
  "NODEDSZ demo_mem 1526 = 1" "NODEDSZ demo_mem 1516 = 1"
  by (simp_all add: mp_flags_def NUMKEYS_def mp_lower_def NODEPTR_def mp_ptrs_def NODEDSZ_def NODEKSZ_def mn_lo_def mn_hi_def mn_flags_def
      mn_ksize_def demo_read)

lemma demo_page4:
  "mp_flags demo_mem 1536 = 2" "NUMKEYS demo_mem 1536 = 2" "NODEPTR demo_mem 1536 0 = 1654" "NODEPTR demo_mem 1536 (Suc 0) = 1644"
  "mn_flags demo_mem 1654 = 0" "mn_flags demo_mem 1644 = 0" "NODEKSZ demo_mem 1654 = 1" "NODEKSZ demo_mem 1644 = 1"
  "NODEDSZ demo_mem 1654 = 1" "NODEDSZ demo_mem 1644 = 1"
  by (simp_all add: mp_flags_def NUMKEYS_def mp_lower_def NODEPTR_def mp_ptrs_def NODEDSZ_def NODEKSZ_def mn_lo_def mn_hi_def mn_flags_def
      mn_ksize_def demo_read)

lemma demo_bytes:
  "mem_read demo_mem 1398 (Suc 0) = [99]" "mem_read demo_mem 1534 (Suc 0) = [97]" "mem_read demo_mem 1524 (Suc 0) = [98]"
  "mem_read demo_mem 1662 (Suc 0) = [99]" "mem_read demo_mem 1652 (Suc 0) = [100]" "mem_read demo_mem 1535 (Suc 0) = [1]"
  "mem_read demo_mem 1525 (Suc 0) = [2]" "mem_read demo_mem 1663 (Suc 0) = [3]" "mem_read demo_mem 1653 (Suc 0) = [4]"
  by (simp_all add: mem_read_def demo_mem_def)

lemma demo_keys:
  "node_key demo_mem 1280 0 (Suc 0) = [99]" "node_key demo_mem 1408 0 0 = [97]" "node_key demo_mem 1408 0 (Suc 0) = [98]"
  "node_key demo_mem 1536 0 0 = [99]" "node_key demo_mem 1536 0 (Suc 0) = [100]"
  by (simp_all add: node_key_def IS_LEAF2_def F_ISSET_def NODEKEY_def demo_page2 demo_page3 demo_page4 demo_bytes)

lemma demo_page_at: "page_at demo t 2 1280" "page_at demo t 3 1408" "page_at demo t 4 1536"
  by (simp_all add: page_at_def mdb_page_get_def demo_txn_def map_page_def demo_env_def)

lemma demo_item_at:
  "item_at demo t 1526 [1]" "item_at demo t 1516 [2]" "item_at demo t 1654 [3]" "item_at demo t 1644 [4]"
  by (simp_all add: item_at_def NODEDATA_def F_ISSET_def demo_page3 demo_page4 demo_bytes)

abbreviation short :: "bytes \<Rightarrow> bool" where
  "short bs \<equiv> length bs < 2 ^ 32"

lemma all_less_2: "(\<forall>i < 2. P i) \<longleftrightarrow> P 0 \<and> P (Suc 0)"
  by (auto simp: less_Suc_eq numeral_2_eq_2)

lemma keys_ordered_2:
  "keys_ordered valid less_key ks 0 2 \<longleftrightarrow> valid (ks 0) \<and> valid (ks (Suc 0)) \<and> less_key (ks 0) (ks (Suc 0))"
  "keys_ordered valid less_key ks (Suc 0) 2 \<longleftrightarrow> valid (ks (Suc 0))"
  by (auto simp: keys_ordered_def less_Suc_eq numeral_2_eq_2)

lemmas demo_simps = IS_LEAF_def IS_BRANCH_def IS_LEAF2_def F_ISSET_def demo_page2 demo_page3 demo_page4 demo_page_at demo_keys demo_item_at
  all_less_2 keys_ordered_2

lemma demo_leaves:
  "tree short (<) demo t 0 1408 [([97], [1]), ([98], [2])]" "tree short (<) demo t 0 1536 [([99], [3]), ([100], [4])]"
  by (intro tree.leaf; simp add: leaf_page_def demo_simps)+

lemma demo_tree: "tree short (<) demo t 1 1280 demo_items"
proof -
  let ?kss = "[[([97], [1]), ([98], [2])], [([99], [3]), ([100], [4])]] :: (bytes \<times> bytes) list list"
  have "branch_page short (<) demo t 1280 [1408, 1536]"
    by (simp add: branch_page_def demo_simps)
  moreover have "separated (<) (node_key demo_mem 1280 0) ?kss"
    by (auto simp: separated_def less_Suc_eq demo_keys)
  ultimately show ?thesis
    using tree.branch[of short "(<)" demo t 1280 "[1408, 1536]" ?kss 0] demo_leaves by (simp add: demo_items_def All_less_Suc)
qed

lemma demo_holds: "db_holds short (<) Cmp_memn demo 0 MAIN_DBI demo_items"
proof -
  have "\<exists>a h. page_at demo 0 2 a \<and> tree short (<) demo 0 h a demo_items \<and> h < CURSOR_STACK"
    using demo_tree[of 0] demo_page_at(1)[of 0] by (intro exI[of _ 1280] exI[of _ 1]) simp
  then show ?thesis
    by (simp add: db_holds_def TXN_DBI_EXIST_def demo_txn_def demo_db_def demo_env_def demo_dbx_def)
qed

end
