(* ===== verification/Readers_Spec.thy ===== *)
theory Readers_Spec
  imports Readers Demo
begin

text \<open>
  What the reader table operations promise: \<open>mdb_pid_insert\<close> keeps a sorted set, and \<open>mdb_reader_check\<close> frees exactly
  the slots of dead processes.
\<close>

section \<open>The list of process IDs is a sorted set\<close>

text \<open>\<open>pid_list ids xs\<close>: the array \<open>ids\<close> holds the strictly ascending IDs \<open>xs\<close> behind their number.\<close>

definition pid_list :: "int list \<Rightarrow> int list \<Rightarrow> bool" where
  "pid_list ids xs \<longleftrightarrow> sorted_wrt (<) xs \<and> (\<exists>rest. ids = int (length xs) # xs @ rest)"

definition pid_place :: "int list \<Rightarrow> int \<Rightarrow> (nat \<times> int) option option \<Rightarrow> bool" where
  "pid_place xs pid r \<longleftrightarrow>
     (if pid \<in> set xs then r = Some None
      else \<exists>c v q. r = Some (Some (c, v)) \<and> (if v > 0 then c + 1 else c) = q + 1 \<and>
        q \<le> length xs \<and> (\<forall>x \<in> set (take q xs). x < pid) \<and> (\<forall>x \<in> set (drop q xs). pid < x))"

lemma pid_search_finds:
  assumes "sorted_wrt (<) xs" and ids: "ids = h # xs @ rest" and "base + n \<le> length xs"
    and "\<forall>j < base. xs ! j < pid" and "\<forall>j. base + n \<le> j \<and> j < length xs \<longrightarrow> pid < xs ! j"
    and "n = 0 \<Longrightarrow> (if val > 0 then cursor + 1 else cursor) = base + 1" and pos: "0 \<le> pid" "\<forall>x \<in> set xs. 0 \<le> x"
  shows "pid_place xs pid (pid_search ids pid base cursor n val)"
  using assms(3-6)
proof (induction n arbitrary: base cursor val rule: less_induct)
  case (less n)
  have mono: "xs ! i < xs ! j" if "i < j" "j < length xs" for i j using assms(1) that by (simp add: sorted_wrt_iff_nth_less)
  show ?case
  proof (cases "n = 0")
    case True
    have "\<forall>x \<in> set (take base xs). x < pid" using less.prems(2) by (auto simp: in_set_conv_nth)
    moreover have "\<forall>x \<in> set (drop base xs). pid < x" using less.prems(3) True by (auto simp: in_set_conv_nth)
    moreover have "set xs = set (take base xs) \<union> set (drop base xs)" by (metis append_take_drop_id set_append)
    ultimately have "pid \<notin> set xs" by fastforce
    moreover have "pid_search ids pid base cursor n val = Some (Some (cursor, val))" by (simp add: pid_search.simps[of ids pid base] True)
    ultimately show ?thesis
      using less.prems(1,4) True \<open>\<forall>x \<in> set (take base xs). x < pid\<close> \<open>\<forall>x \<in> set (drop base xs). pid < x\<close>
      by (simp only: pid_place_def if_not_P not_False_eq_True) (intro exI[of _ cursor] exI[of _ val] exI[of _ base]; simp)
  next
    case False
    let ?p = "n div 2" and ?x = "xs ! (base + n div 2)"
    have p: "base + ?p < length xs" "?p < n" using less.prems(1) False by auto
    then have get: "aget ids (base + ?p + 1) = Some ?x" by (simp add: ids nth_append)
    have diff: "pid_diff pid ?x = Some (pid - ?x)" using pos p(1) by simp
    note unf = pid_search.simps[of ids pid base cursor n val]
    consider (eq) "pid = ?x" | (lt) "pid < ?x" | (gt) "?x < pid" by linarith
    then show ?thesis
    proof cases
      case eq
      have "pid_search ids pid base cursor n val = Some None" unfolding unf using get diff eq False by (simp add: Let_def)
      moreover have "pid \<in> set xs" using eq p(1) by simp
      ultimately show ?thesis by (simp add: pid_place_def)
    next
      case lt
      have "pid_search ids pid base cursor n val = pid_search ids pid base (base + ?p + 1) ?p (pid - ?x)"
        using get diff lt False by (simp add: unf Let_def)
      moreover have "\<forall>j. base + ?p \<le> j \<and> j < length xs \<longrightarrow> pid < xs ! j" using lt mono[of "base + ?p"] by (metis le_neq_implies_less less_trans)
      then have "pid_place xs pid (pid_search ids pid base (base + ?p + 1) ?p (pid - ?x))"
        by (intro less.IH[OF p(2)]) (use less.prems(2) p lt in auto)
      ultimately show ?thesis by simp
    next
      case gt
      have "pid_search ids pid base cursor n val = pid_search ids pid (base + ?p + 1) (base + ?p + 1) (n - (?p + 1)) (pid - ?x)"
        using get diff gt False by (simp add: unf Let_def)
      moreover have "\<forall>j < base + ?p + 1. xs ! j < pid"
        using gt mono[of _ "base + ?p"] p(1) by (metis Suc_eq_plus1 less_SucE less_trans)
      then have "pid_place xs pid (pid_search ids pid (base + ?p + 1) (base + ?p + 1) (n - (?p + 1)) (pid - ?x))"
        by (intro less.IH) (use less.prems(1,3) p gt False in auto)
      ultimately show ?thesis by simp
    qed
  qed
qed

lemma pid_shift_moves:
  assumes "A \<noteq> []"
  shows "\<exists>ids. pid_shift (A @ B @ z # C) (length A) (length A + length B) = Some (length A, ids) \<and> length ids = length (A @ B @ z # C) \<and>
    ids[length A := pid] = A @ pid # B @ C"
proof (induction B arbitrary: z C rule: rev_induct)
  case Nil
  obtain n where "length A = Suc n" using assms by (cases A) auto
  then show ?case by (simp add: list_update_append)
next
  case (snoc b B)
  have "pid_shift (A @ (B @ [b]) @ z # C) (length A) (length A + length (B @ [b])) =
      pid_shift (A @ B @ b # b # C) (length A) (length A + length B)"
    by (simp add: nth_append list_update_append)
  then show ?case using snoc[of b "b # C"] by simp
qed

lemma insort_split:
  fixes xs :: "int list"
  assumes "sorted_wrt (<) xs" and "\<forall>x \<in> set (take q xs). x < pid" and "\<forall>x \<in> set (drop q xs). pid < x"
  shows "sorted_wrt (<) (take q xs @ pid # drop q xs)" "set (take q xs @ pid # drop q xs) = insert pid (set xs)"
proof -
  have "sorted_wrt (<) (take q xs @ drop q xs)" using assms(1) by simp
  then show "sorted_wrt (<) (take q xs @ pid # drop q xs)" using assms(2,3) unfolding sorted_wrt_append by fastforce
  show "set (take q xs @ pid # drop q xs) = insert pid (set xs)" by (metis append_take_drop_id insert_is_Un list.simps(15) set_append sup_left_commute)
qed

lemma pid_list_card: "pid_list ids xs \<Longrightarrow> length xs = card (set xs)"
  using strict_sorted_iff[of xs] distinct_card[of xs] by (simp add: pid_list_def)

lemma pid_insert_set:
  assumes "pid_list ids xs" and "Suc (length xs) < length ids" and "0 \<le> pid" and "\<forall>x \<in> set xs. 0 \<le> x"
  shows "\<exists>rc ids' xs'. mdb_pid_insert ids pid = Some (rc, ids') \<and> length ids' = length ids \<and> pid_list ids' xs' \<and>
    set xs' = insert pid (set xs) \<and> rc = (if pid \<in> set xs then - 1 else 0) \<and> (pid \<in> set xs \<longrightarrow> ids' = ids)"
proof -
  obtain rest where ids: "ids = int (length xs) # xs @ rest" and sorted: "sorted_wrt (<) xs" using assms(1) by (auto simp: pid_list_def)
  obtain z C where rest: "rest = z # C" using assms(2) ids by (cases rest) auto
  have s: "pid_place xs pid (pid_search ids pid 0 1 (length xs) 0)"
    using pid_search_finds[OF sorted ids, of 0 "length xs" pid 0 1] assms(3,4) by simp
  have get0: "aget ids 0 = Some (int (length xs))" by (simp add: ids)
  show ?thesis
  proof (cases "pid \<in> set xs")
    case True
    then have "mdb_pid_insert ids pid = Some (- 1, ids)" using s get0 by (simp add: mdb_pid_insert_def pid_place_def)
    then show ?thesis using True assms(1) by (intro exI[of _ "- 1"] exI[of _ ids] exI[of _ xs]) (auto simp: insert_absorb)
  next
    case False
    then obtain c v q where q: "pid_search ids pid 0 1 (length xs) 0 = Some (Some (c, v))" "(if v > 0 then c + 1 else c) = q + 1"
        "q \<le> length xs" "\<forall>x \<in> set (take q xs). x < pid" "\<forall>x \<in> set (drop q xs). pid < x" using s by (auto simp: pid_place_def)
    let ?A = "(int (length xs) + 1) # take q xs" and ?B = "drop q xs"
    have A: "length ?A = q + 1" "length ?A + length ?B = length xs + 1" using q(3) by simp_all
    have put0: "ids[0 := int (length xs) + 1] = ?A @ ?B @ z # C" by (simp add: ids rest)
    obtain ids1 where sh: "pid_shift (?A @ ?B @ z # C) (length ?A) (length ?A + length ?B) = Some (length ?A, ids1)"
        "length ids1 = length (?A @ ?B @ z # C)" "ids1[length ?A := pid] = ?A @ pid # ?B @ C"
      using pid_shift_moves[of ?A ?B z C pid] by blast
    have len: "length (?A @ ?B @ z # C) = length ids" by (simp add: ids rest)
    have n1: "nat (int (length xs) + 1) = length xs + 1" by simp
    have sh': "pid_shift (ids[0 := int (length xs) + 1]) (q + 1) (nat (int (length xs) + 1)) = Some (q + 1, ids1)"
      unfolding put0 n1 using sh(1) unfolding A(2) unfolding A(1) .
    have in1: "q + 1 < length ids1" using sh(2) q(3) by simp
    have put: "aput ids 0 (int (length xs) + 1) = Some (ids[0 := int (length xs) + 1])" by (intro aput_in) (simp add: ids)
    have run: "mdb_pid_insert ids pid = Some (0, ?A @ pid # ?B @ C)"
      using get0 q(1,2) sh' in1 sh(3) put unfolding A(1) mdb_pid_insert_def by (simp add: Let_def)
    let ?xs = "take q xs @ pid # drop q xs"
    have "pid_list (?A @ pid # ?B @ C) ?xs"
      unfolding pid_list_def using insort_split(1)[OF sorted q(4,5)] q(3) by (intro conjI exI[of _ C]) simp_all
    moreover have "length (?A @ pid # ?B @ C) = length ids" by (simp add: ids rest)
    ultimately show ?thesis using run False insort_split(2)[OF sorted q(4,5)]
      by (intro exI[of _ 0] exI[of _ "?A @ pid # ?B @ C"] exI[of _ ?xs]) simp
  qed
qed

text \<open>
  C31: \<open>mdb_pid_insert\<close> of process IDs, which are not negative, keeps the array a strictly ascending list behind its
  length: a known ID is reported with \<open>-1\<close> and changes nothing; a new one is added with result 0 whenever a cell is
  free. No access leaves the array and no difference overflows.
\<close>

theorem pid_insert_sorted_set:
  assumes "pid_list ids xs" and "Suc (length xs) < length ids" and "0 \<le> pid" and "\<forall>x \<in> set xs. 0 \<le> x"
  shows "\<exists>rc ids' xs'. mdb_pid_insert ids pid = Some (rc, ids') \<and> length ids' = length ids \<and> pid_list ids' xs' \<and>
    set xs' = insert pid (set xs) \<and> rc = (if pid \<in> set xs then - 1 else 0) \<and> (pid \<in> set xs \<longrightarrow> ids' = ids)"
  by (rule pid_insert_set[OF assms])

theorem pid_insert_sorted_set_witness:
  "\<exists>rc ids' xs'. mdb_pid_insert [2, 3, 9, 0, 0] 5 = Some (rc, ids') \<and> pid_list ids' xs' \<and> set xs' = {3, 5, 9} \<and> rc = 0"
proof -
  have "pid_list [2, 3, 9, 0, 0] [3, 9]" by (simp add: pid_list_def)
  then show ?thesis using pid_insert_sorted_set[of "[2, 3, 9, 0, 0]" "[3, 9]" 5] by (auto simp: insert_commute)
qed

section \<open>Clearing dead readers\<close>

text \<open>The slots of a reader table after the process \<open>p\<close>, or all processes for which \<open>D\<close> holds, gave theirs up.\<close>

definition release :: "(nat \<Rightarrow> bool) \<Rightarrow> MDB_reader \<Rightarrow> MDB_reader" where
  "release D r = (if D (mr_pid r) then r\<lparr>mr_pid := 0\<rparr> else r)"

definition set_slots :: "MDB_txninfo \<Rightarrow> MDB_reader list \<Rightarrow> world \<Rightarrow> world" where
  "set_slots ti rs w = upd_env (\<lambda>e. e\<lparr>me_txns := Some (ti\<lparr>mti_readers := rs\<rparr>)\<rparr>) w"

lemma set_slots_simps [simp]:
  "me_txns (w_env (set_slots ti rs w)) = Some (ti\<lparr>mti_readers := rs\<rparr>)" "me_pid (w_env (set_slots ti rs w)) = me_pid (w_env w)"
  "w_alive (set_slots ti rs w) = w_alive w"
  by (simp_all add: set_slots_def upd_env_def)

lemma set_slots_same: "me_txns (w_env w) = Some ti \<Longrightarrow> set_slots ti (mti_readers ti) w = w"
  by (simp add: set_slots_def upd_env_def)

lemma upd_reader_slots:
  "i < length rs \<Longrightarrow> upd_reader i f (set_slots ti rs w) = Some (set_slots ti (rs[i := f (rs ! i)]) w)"
  by (simp add: upd_reader_def) (simp add: set_slots_def upd_env_def)

lemma clear_stale_slots:
  assumes "j + k \<le> length rs" and "pid \<noteq> 0"
  shows "clear_stale (set_slots ti rs w) pid j k cnt =
    Some (cnt + length (filter (\<lambda>r. mr_pid r = pid) (take k (drop j rs))),
      set_slots ti (take j rs @ map (release ((=) pid)) (take k (drop j rs)) @ drop (j + k) rs) w)"
  using assms
proof (induction k arbitrary: j rs cnt)
  case (Suc k)
  have j: "j < length rs" using Suc.prems by simp
  let ?r = "rs ! j" and ?rs = "rs[j := release ((=) pid) (rs ! j)]"
  have tk: "take (Suc k) (drop j rs) = ?r # take k (drop (Suc j) rs)" using j by (simp add: Cons_nth_drop_Suc[symmetric])
  have dr: "drop (Suc j) ?rs = drop (Suc j) rs" "take (Suc j) ?rs = take j rs @ [release ((=) pid) ?r]" "drop (Suc (j + k)) ?rs = drop (Suc (j + k)) rs"
    using j by (simp_all add: take_Suc_conv_app_nth)
  have step: "clear_stale (set_slots ti rs w) pid j (Suc k) cnt =
      clear_stale (set_slots ti ?rs w) pid (Suc j) k (cnt + (if mr_pid ?r = pid then 1 else 0))"
    using j by (simp add: upd_reader_slots release_def list_update_id)
  show ?case unfolding step using Suc.IH[of "Suc j" ?rs "cnt + (if mr_pid ?r = pid then 1 else 0)"] Suc.prems dr tk by simp
qed simp

text \<open>\<open>dead\<close>: a process with a slot that is neither this one nor alive. \<open>seen\<close>: those of the slots before \<open>i\<close>.\<close>

definition dead :: "world \<Rightarrow> nat \<Rightarrow> bool" where
  "dead w p \<longleftrightarrow> p \<noteq> 0 \<and> p \<noteq> me_pid (w_env w) \<and> \<not> w_alive w p"

definition seen :: "world \<Rightarrow> MDB_reader list \<Rightarrow> nat \<Rightarrow> nat set" where
  "seen w used i = {p. p \<in> mr_pid ` set (take i used) \<and> p \<noteq> 0 \<and> p \<noteq> me_pid (w_env w)}"

definition cleared :: "world \<Rightarrow> MDB_reader list \<Rightarrow> nat \<Rightarrow> MDB_reader list" where
  "cleared w used i = map (release (\<lambda>p. dead w p \<and> p \<in> seen w used i)) used"

definition cleared_count :: "world \<Rightarrow> MDB_reader list \<Rightarrow> nat \<Rightarrow> nat" where
  "cleared_count w used i = length (filter (\<lambda>r. dead w (mr_pid r) \<and> mr_pid r \<in> seen w used i) used)"

lemma seen_Suc:
  "i < length used \<Longrightarrow> seen w used (Suc i) =
     (if mr_pid (used ! i) \<noteq> 0 \<and> mr_pid (used ! i) \<noteq> me_pid (w_env w) then insert (mr_pid (used ! i)) (seen w used i) else seen w used i)"
  by (auto simp: seen_def take_Suc_conv_app_nth)

lemma cleared_same:
  assumes "\<And>p. dead w p \<Longrightarrow> p \<in> seen w used (Suc i) \<longleftrightarrow> p \<in> seen w used i"
  shows "cleared w used (Suc i) = cleared w used i" "cleared_count w used (Suc i) = cleared_count w used i"
  using assms by (auto simp: cleared_def cleared_count_def release_def intro!: arg_cong[where f = length] filter_cong)

lemma length_filter_or:
  "(\<And>x. P x \<Longrightarrow> \<not> Q x) \<Longrightarrow> length (filter (\<lambda>x. P x \<or> Q x) xs) = length (filter P xs) + length (filter Q xs)"
  by (induction xs) auto

lemma cleared_new:
  assumes i: "i < length used" and d: "dead w p" and p: "p = mr_pid (used ! i)" and new: "p \<notin> seen w used i"
  shows "take i (cleared w used i) @ map (release ((=) p)) (drop i (cleared w used i)) = cleared w used (Suc i)"
    "cleared_count w used i + length (filter (\<lambda>r. mr_pid r = p) (drop i (cleared w used i))) = cleared_count w used (Suc i)"
proof -
  have nz: "p \<noteq> 0" "p \<noteq> me_pid (w_env w)" using d by (auto simp: dead_def)
  have s: "seen w used (Suc i) = insert p (seen w used i)" using seen_Suc[OF i, of w] nz p by simp
  have before: "mr_pid r \<noteq> p" if "r \<in> set (take i used)" for r using new nz that by (auto simp: seen_def)
  let ?f = "release (\<lambda>p. dead w p \<and> p \<in> seen w used i)" and ?g = "release (\<lambda>q. dead w q \<and> q \<in> seen w used (Suc i))"
  have "map ?g (take i used) = map ?f (take i used)" using before by (auto simp: release_def s)
  moreover have "release ((=) p) (?f r) = ?g r" for r using d nz new by (auto simp: release_def s)
  moreover have "cleared w used (Suc i) = map ?g (take i used) @ map ?g (drop i used)"
    unfolding cleared_def by (metis append_take_drop_id map_append)
  ultimately show "take i (cleared w used i) @ map (release ((=) p)) (drop i (cleared w used i)) = cleared w used (Suc i)"
    by (simp add: cleared_def take_map drop_map)
  let ?D = "\<lambda>r. dead w (mr_pid r) \<and> mr_pid r \<in> seen w used i" and ?E = "\<lambda>r. mr_pid r = p"
  have pf: "mr_pid (?f r) = p \<longleftrightarrow> ?E r" for r using nz(1) new by (auto simp: release_def)
  have "filter ?E (take i used) = []" using before by (auto simp: filter_empty_conv)
  then have "length (filter ?E (drop i used)) = length (filter ?E used)" by (metis append_take_drop_id append_Nil filter_append)
  moreover have "length (filter (\<lambda>r. dead w (mr_pid r) \<and> mr_pid r \<in> seen w used (Suc i)) used) = length (filter ?D used) + length (filter ?E used)"
  proof -
    have eq: "filter (\<lambda>r. dead w (mr_pid r) \<and> mr_pid r \<in> seen w used (Suc i)) used = filter (\<lambda>r. ?D r \<or> ?E r) used"
      by (rule filter_cong) (use s d in auto)
    show ?thesis unfolding eq by (rule length_filter_or) (use new in auto)
  qed
  ultimately show "cleared_count w used i + length (filter (\<lambda>r. mr_pid r = p) (drop i (cleared w used i))) = cleared_count w used (Suc i)"
    by (simp add: cleared_count_def cleared_def drop_map filter_map comp_def pf)
qed

text \<open>\<open>free_lock\<close>: the reader mutex can be taken at once, or the caller holds it.\<close>

definition free_lock :: "(world \<Rightarrow> (int \<times> bool \<times> world) option) option \<Rightarrow> bool" where
  "free_lock lock \<longleftrightarrow> (\<forall>l w. lock = Some l \<longrightarrow> l w = Some (0, False, w))"

lemma check_loop_clears:
  assumes lock: "free_lock lock" and "i + k = length used" and "pid_list pids xs" and "length pids = Suc (length used)" and "length xs \<le> i"
    and "set xs = int ` seen w used i"
  shows "check_loop lock (set_slots ti (cleared w used i @ unused) w) pids i k (cleared_count w used i) =
    Some (0, cleared_count w used (length used), set_slots ti (cleared w used (length used) @ unused) w)"
  using assms(2-)
proof (induction k arbitrary: i pids xs)
  case (Suc k)
  let ?w = "set_slots ti (cleared w used i @ unused) w" and ?r = "cleared w used i ! i" and ?q = "mr_pid (used ! i)"
  have i: "i < length used" using Suc.prems(1) by simp
  have len: "length (cleared w used i) = length used" by (simp add: cleared_def)
  have get: "aget (cleared w used i @ unused) i = Some ?r" using i len by (simp add: nth_append)
  have r: "mr_pid ?r = (if dead w ?q \<and> ?q \<in> seen w used i then 0 else ?q)" using i by (simp add: cleared_def release_def)
  have ik: "Suc i + k = length used" using Suc.prems(1) by simp
  have skip: ?case
    if eq: "check_loop lock ?w pids i (Suc k) (cleared_count w used i) = check_loop lock ?w pids' (Suc i) k (cleared_count w used i)"
      and "\<And>p. dead w p \<Longrightarrow> p \<in> seen w used (Suc i) \<longleftrightarrow> p \<in> seen w used i"
      and "pid_list pids' xs'" "length pids' = Suc (length used)" "length xs' \<le> Suc i" "set xs' = int ` seen w used (Suc i)" for pids' xs'
  proof -
    have c: "cleared w used (Suc i) = cleared w used i" "cleared_count w used (Suc i) = cleared_count w used i"
      by (rule cleared_same, rule that(2), assumption)+
    show ?thesis using eq Suc.IH[OF ik that(3-6)] unfolding c by (rule trans)
  qed
  show ?case
  proof (cases "mr_pid ?r \<noteq> 0 \<and> mr_pid ?r \<noteq> me_pid (w_env w)")
    case False
    have same: "seen w used (Suc i) = seen w used i"
    proof (cases "?q \<in> seen w used i")
      case True
      then show ?thesis unfolding seen_Suc[OF i] by (simp add: insert_absorb)
    next
      case new: False
      then have "?q = 0 \<or> ?q = me_pid (w_env w)" using False r by simp
      then show ?thesis unfolding seen_Suc[OF i] by (elim disjE) simp_all
    qed
    have "mr_pid ?r = 0 \<or> mr_pid ?r = me_pid (w_env w)" using False by blast
    then have "check_loop lock ?w pids i (Suc k) (cleared_count w used i) = check_loop lock ?w pids (Suc i) k (cleared_count w used i)"
      by (elim disjE) (simp_all add: get)
    then show ?thesis by (rule skip) (use Suc.prems same in auto)
  next
    case True
    then have q: "mr_pid ?r = ?q" "?q \<noteq> 0" "?q \<noteq> me_pid (w_env w)" using r by (auto split: if_splits)
    have s: "seen w used (Suc i) = insert ?q (seen w used i)" using seen_Suc[OF i, of w] q by simp
    obtain rc pids' xs' where ins: "mdb_pid_insert pids (int ?q) = Some (rc, pids')" "length pids' = length pids" "pid_list pids' xs'"
        "set xs' = insert (int ?q) (set xs)" "rc = (if int ?q \<in> set xs then - 1 else 0)"
      using pid_insert_set[OF Suc.prems(2), of "int ?q"] Suc.prems(1,3-5) by auto
    have "length xs' = card (set xs')" "length xs = card (set xs)" using ins(3) Suc.prems(2) pid_list_card by auto
    then have len': "length xs' \<le> Suc i" using Suc.prems(4) ins(4) card_insert_le_m1[of "Suc i" "set xs"] card_insert_if[of "set xs" "int ?q"] by (auto split: if_splits)
    have set': "set xs' = int ` seen w used (Suc i)" using ins(4) Suc.prems(5) s by simp
    have len2: "length pids' = Suc (length used)" using ins(2) Suc.prems(3) by simp
    have rc: "rc = 0 \<longleftrightarrow> ?q \<notin> seen w used i" using ins(5) Suc.prems(5) by auto
    have dq: "dead w ?q \<longleftrightarrow> \<not> w_alive w ?q" using q by (simp add: dead_def)
    show ?thesis
    proof (cases "rc = 0 \<and> \<not> w_alive w ?q")
      case False
      have "check_loop lock ?w pids i (Suc k) (cleared_count w used i) = check_loop lock ?w pids' (Suc i) k (cleared_count w used i)"
        by (cases "rc = 0") (use False in \<open>simp_all add: get q ins(1) Let_def\<close>)
      then show ?thesis by (rule skip) (use False ins(3) len2 len' set' rc dq s in auto)
    next
      case stale: True
      have new: "?q \<notin> seen w used i" "dead w ?q" using stale rc dq by auto
      have ij: "i + Suc k \<le> length (cleared w used i @ unused)" "i + Suc k = length (cleared w used i)" using Suc.prems(1) len by simp_all
      have e: "take i (cleared w used i) @ map (release ((=) ?q)) (drop i (cleared w used i)) @ unused = cleared w used (Suc i) @ unused"
        by (simp add: cleared_new(1)[OF i new(2) refl new(1), symmetric])
      have cl: "clear_stale ?w ?q i (Suc k) (cleared_count w used i) = Some (cleared_count w used (Suc i), set_slots ti (cleared w used (Suc i) @ unused) w)"
        using clear_stale_slots[OF ij(1) q(2), of ti w "cleared_count w used i"] e cleared_new(2)[OF i new(2) refl new(1)] ij(2)
        by (simp del: clear_stale.simps)
      have "check_loop lock ?w pids i (Suc k) (cleared_count w used i) =
          check_loop lock (set_slots ti (cleared w used (Suc i) @ unused) w) pids' (Suc i) k (cleared_count w used (Suc i))"
        using stale lock by (cases lock) (simp_all add: get q ins(1) cl free_lock_def Let_def del: clear_stale.simps)
      then show ?thesis using Suc.IH[OF ik ins(3) len2 len' set'] by simp
    qed
  qed
qed (simp)

lemma reader_check_run:
  assumes "me_txns (w_env w) = Some ti" and "mti_readers ti = used @ unused" and "mti_numreaders ti = length used"
    and "w_ok w (4 * (length used + 1))"
  shows "mdb_reader_check 0 consistent w =
    Some (0, length (filter (\<lambda>r. dead w (mr_pid r)) used), set_slots ti (map (release (dead w)) used @ unused) w)"
proof -
  let ?n = "length used"
  have lock: "free_lock (Some (lock_rmutex 0 consistent))" by (simp add: free_lock_def lock_rmutex_def)
  have start: "seen w used 0 = {}" "cleared w used 0 = used" "cleared_count w used 0 = 0"
    by (simp_all add: seen_def cleared_def cleared_count_def release_def[abs_def])
  have pids: "pid_list (0 # replicate ?n 0) []" by (simp add: pid_list_def)
  have "set_slots ti (used @ unused) w = w" using set_slots_same[OF assms(1)] assms(2) by simp
  then have "check_loop (Some (lock_rmutex 0 consistent)) w (0 # replicate ?n 0) 0 ?n 0 =
      Some (0, cleared_count w used ?n, set_slots ti (cleared w used ?n @ unused) w)"
    using check_loop_clears[OF lock, of 0 ?n used "0 # replicate ?n 0" "[]" w ti unused] pids start by simp
  moreover have "p \<in> seen w used ?n \<longleftrightarrow> p \<in> mr_pid ` set used" if "dead w p" for p using that by (auto simp: seen_def dead_def)
  then have "cleared w used ?n = map (release (dead w)) used" "cleared_count w used ?n = length (filter (\<lambda>r. dead w (mr_pid r)) used)"
    by (auto simp: cleared_def cleared_count_def release_def intro!: arg_cong[where f = length] filter_cong)
  ultimately show ?thesis using assms by (simp add: mdb_reader_check_def mdb_reader_check0_def Let_def)
qed

text \<open>
  C20: \<open>mdb_reader_check\<close> frees the slots of dead processes and no others. When the reader mutex can be taken and
  memory for the list of IDs is there, it returns with \<open>MDB_SUCCESS\<close>; among the used slots exactly those whose process is
  neither this one nor alive lose their process ID, the number reported is their number, and nothing else
  changes.
\<close>

theorem reader_check_clears_dead:
  assumes "me_txns (w_env w) = Some ti" and "mti_readers ti = used @ unused" and "mti_numreaders ti = length used"
    and "w_ok w (4 * (length used + 1))"
  shows "mdb_reader_check 0 consistent w =
    Some (0, length (filter (\<lambda>r. dead w (mr_pid r)) used), set_slots ti (map (release (dead w)) used @ unused) w)"
  by (rule reader_check_run[OF assms])

definition demo_readers :: MDB_txninfo where
  "demo_readers = \<lparr>mti_txnid = 9, mti_numreaders = 3,
     mti_readers = [\<lparr>mr_txnid = 5, mr_pid = 7, mr_tid = 1\<rparr>, \<lparr>mr_txnid = 3, mr_pid = 11, mr_tid = 1\<rparr>,
       \<lparr>mr_txnid = 4, mr_pid = 12, mr_tid = 2\<rparr>, \<lparr>mr_txnid = 0, mr_pid = 0, mr_tid = 0\<rparr>]\<rparr>"

theorem reader_check_clears_dead_witness:
  "\<exists>w'. mdb_reader_check 0 0 (demo\<lparr>w_env := demo_env\<lparr>me_txns := Some demo_readers\<rparr>, w_alive := (\<lambda>p. p \<noteq> 11)\<rparr>) = Some (0, 1, w') \<and>
    map_option (\<lambda>ti. map mr_pid (mti_readers ti)) (me_txns (w_env w')) = Some [7, 0, 12, 0]"
proof -
  let ?w = "demo\<lparr>w_env := demo_env\<lparr>me_txns := Some demo_readers\<rparr>, w_alive := (\<lambda>p. p \<noteq> 11)\<rparr>"
  have "mti_readers demo_readers = take 3 (mti_readers demo_readers) @ drop 3 (mti_readers demo_readers)" by simp
  then show ?thesis
    using reader_check_clears_dead[of ?w demo_readers "take 3 (mti_readers demo_readers)" "drop 3 (mti_readers demo_readers)" 0]
    by (simp add: demo_readers_def demo_def demo_env_def dead_def release_def)
qed

end
