(* ===== verification/Meta_Spec.thy ===== *)
theory Meta_Spec
  imports Meta Demo
begin

text \<open>
  Meta pages: the stored form of \<open>MDB_meta\<close> and \<open>MDB_db\<close>, and what a commit's write of a meta page leaves for the
  next reader, when the write succeeds and when only some of its bytes reach the file.
\<close>

section \<open>Stored records\<close>

lemma mem_read_part: "mem_read m a n = bs \<Longrightarrow> k + l \<le> n \<Longrightarrow> mem_read m (a + k) l = take l (drop k bs)"
  by (rule nth_equalityI) (auto simp: add.assoc)

lemma mem_read_split:
  "mem_read m a n = xs @ ys \<longleftrightarrow> length xs \<le> n \<and> mem_read m a (length xs) = xs \<and> mem_read m (a + length xs) (n - length xs) = ys"
proof (cases "length xs \<le> n")
  case True
  then have "mem_read m a n = mem_read m a (length xs) @ mem_read m (a + length xs) (n - length xs)"
    using mem_read_append[of m a "length xs" "n - length xs"] by simp
  then show ?thesis using True by auto
next
  case False
  have "length (mem_read m a n) \<noteq> length (xs @ ys)" using False by simp
  then show ?thesis using False by metis
qed

lemma to_le_le_nat: "length bs = n \<Longrightarrow> to_le n (le_nat bs) = bs"
proof (induction bs arbitrary: n)
  case (Cons b bs)
  have "(of_nat (unat b + 256 * le_nat bs) :: byte) = b"
    using unsigned_less[of b, where 'a = nat] by (simp add: word_unat_eq_iff unat_of_nat take_bit_eq_mod mod_mult_self2 flip: of_nat_mult of_nat_add)
  moreover have "(unat b + 256 * le_nat bs) div 256 = le_nat bs"
    using unsigned_less[of b, where 'a = nat] by simp
  ultimately show ?case using Cons by (cases n) (auto simp: add.commute)
qed simp

lemma rd_eq_iff:
  "rd16 m a = v16 \<longleftrightarrow> mem_read m a 2 = to_le 2 (unat v16)"
  "rd32 m a = v32 \<longleftrightarrow> mem_read m a 4 = to_le 4 (unat v32)"
  "rd64 m a = v64 \<longleftrightarrow> mem_read m a 8 = to_le 8 (unat v64)"
proof -
  have b: "le_nat (mem_read m a 2) < 2 ^ 16" "le_nat (mem_read m a 4) < 2 ^ 32" "le_nat (mem_read m a 8) < 2 ^ 64"
    using le_nat_bound[of "mem_read m a 2"] le_nat_bound[of "mem_read m a 4"] le_nat_bound[of "mem_read m a 8"] by simp_all
  have "unat (rd16 m a) = le_nat (mem_read m a 2)" "unat (rd32 m a) = le_nat (mem_read m a 4)" "unat (rd64 m a) = le_nat (mem_read m a 8)"
    using b by (simp_all add: rd16_def rd32_def rd64_def unat_of_nat take_bit_eq_mod)
  note u = this
  show "rd16 m a = v16 \<longleftrightarrow> mem_read m a 2 = to_le 2 (unat v16)"
    using u(1) to_le_le_nat[of "mem_read m a 2" 2] le_nat_to_le[of 2 "unat v16"] unsigned_less[of v16, where 'a = nat]
    by (auto simp: word_unat_eq_iff)
  show "rd32 m a = v32 \<longleftrightarrow> mem_read m a 4 = to_le 4 (unat v32)"
    using u(2) to_le_le_nat[of "mem_read m a 4" 4] le_nat_to_le[of 4 "unat v32"] unsigned_less[of v32, where 'a = nat]
    by (auto simp: word_unat_eq_iff)
  show "rd64 m a = v64 \<longleftrightarrow> mem_read m a 8 = to_le 8 (unat v64)"
    using u(3) to_le_le_nat[of "mem_read m a 8" 8] le_nat_to_le[of 8 "unat v64"] unsigned_less[of v64, where 'a = nat]
    by (auto simp: word_unat_eq_iff)
qed

lemma read_db_iff: "read_db m a = d \<longleftrightarrow> mem_read m a 48 = db_bytes d"
  by (cases d) (simp add: read_db_def db_bytes_def mem_read_split rd_eq_iff add.commute[of a])

lemma length_db_bytes [simp]: "length (db_bytes d) = 48"
  by (simp add: db_bytes_def)

lemma length_meta_tail [simp]: "length (meta_tail meta) = 120"
  by (simp add: meta_tail_def)

lemma length_meta_head [simp]: "length (meta_head meta) = 16"
  by (simp add: meta_head_def)

lemma read_meta_iff: "read_meta m a = meta \<longleftrightarrow> mem_read m a 136 = meta_bytes meta"
  by (cases meta) (simp add: read_meta_def meta_bytes_def meta_head_def meta_tail_def mem_read_split rd_eq_iff read_db_iff add.commute[of a])

section \<open>Torn writes\<close>

text \<open>A number of which only the low bytes were replaced by those of its successor or second successor.\<close>

lemma torn_number:
  fixes new old :: nat
  assumes "old \<le> new" and "new \<le> old + 2"
  shows "new mod 256 ^ j + 256 ^ j * (old div 256 ^ j) = new \<or> new mod 256 ^ j + 256 ^ j * (old div 256 ^ j) \<le> old"
proof (cases "j = 0")
  case False
  define B where "B = (256 :: nat) ^ j"
  have B: "256 \<le> B" using False power_increasing[of 1 j "256 :: nat"] by (simp add: B_def)
  have d: "new = B * (new div B) + new mod B" "old = B * (old div B) + old mod B" "new mod B < B" "old mod B < B" using B by simp_all
  show ?thesis
  proof (cases "new div B = old div B")
    case True
    then show ?thesis using d(1) by (simp add: B_def)
  next
    case ne: False
    have "old div B \<le> new div B" using assms(1) by (rule div_le_mono)
    then have "old div B + 1 \<le> new div B" using ne by simp
    then have "B * (old div B) + B \<le> B * (new div B)" using mult_le_mono2[of "old div B + 1" "new div B" B] by simp
    then have "new mod B \<le> old mod B" using d assms(2) by linarith
    then have "new mod B + B * (old div B) \<le> old" using d(2) by linarith
    then show ?thesis by (simp add: B_def)
  qed
qed simp

lemma take_to_le: "j \<le> n \<Longrightarrow> take j (to_le n v) = to_le j v"
proof (induction n arbitrary: j v)
  case (Suc n)
  then show ?case by (cases j) simp_all
qed simp

lemma drop_to_le: "j \<le> n \<Longrightarrow> drop j (to_le n v) = to_le (n - j) (v div 256 ^ j)"
proof (induction n arbitrary: j v)
  case (Suc n)
  then show ?case by (cases j) (simp_all add: div_mult2_eq)
qed simp

lemma torn_word:
  fixes new old :: u64
  assumes "unat old \<le> unat new" and "unat new \<le> unat old + 2"
  shows "le_nat (take j (to_le 8 (unat new)) @ drop j (to_le 8 (unat old))) = unat new \<or>
    le_nat (take j (to_le 8 (unat new)) @ drop j (to_le 8 (unat old))) \<le> unat old"
proof -
  have lt: "unat x < 256 ^ 8" for x :: u64 using unsigned_less[of x, where 'a = nat] by simp
  show ?thesis
  proof (cases "j \<le> 8")
    case True
    have "unat old div 256 ^ j < 256 ^ (8 - j)"
      using lt[of old] True by (simp add: less_mult_imp_div_less power_add[symmetric])
    then have "le_nat (take j (to_le 8 (unat new)) @ drop j (to_le 8 (unat old))) = unat new mod 256 ^ j + 256 ^ j * (unat old div 256 ^ j)"
      using True by (simp add: take_to_le drop_to_le le_nat_append le_nat_to_le)
    then show ?thesis using torn_number[OF assms, of j] by simp
  next
    case False
    then show ?thesis using lt[of new] by (simp add: le_nat_to_le)
  qed
qed

lemma mem_read_torn:
  "mem_read (mem_write m a (take n bs)) a (length bs) = take n bs @ drop n (mem_read m a (length bs))"
  by (rule nth_equalityI) (auto simp: mem_write_def nth_append min_def)

lemma read_meta_parts:
  "read_meta m a = meta \<longleftrightarrow> mem_read m a 16 = meta_head meta \<and> mem_read m (a + 16) 120 = meta_tail meta"
  by (simp add: read_meta_iff meta_bytes_def mem_read_split)

lemma meta_tail_txnid: "drop 112 (meta_tail meta) = to_le 8 (unat (mm_txnid meta))"
  by (simp add: meta_tail_def)

lemma read_meta_txnid: "unat (mm_txnid (read_meta m a)) = le_nat (mem_read m (a + 128) 8)"
  using le_nat_bound[of "mem_read m (a + 128) 8"] by (simp add: read_meta_def rd64_def unat_of_nat take_bit_eq_mod)

lemma read_meta_torn:
  assumes head: "meta_head meta = meta_head (read_meta m a)"
    and old: "unat (mm_txnid (read_meta m a)) < unat (mm_txnid meta)" "unat (mm_txnid meta) \<le> unat (mm_txnid (read_meta m a)) + 2"
    and m1_def: "m1 = mem_write m (a + 16) (take n (meta_tail meta))"
  shows "read_meta m1 a = meta \<or> unat (mm_txnid (read_meta m1 a)) \<le> unat (mm_txnid (read_meta m a))"
proof -
  let ?new = "mm_txnid meta" and ?o = "mm_txnid (read_meta m a)" and ?t = "meta_tail meta" and ?ot = "meta_tail (read_meta m a)"
  have parts: "mem_read m a 16 = meta_head meta" "mem_read m (a + 16) 120 = ?ot" using read_meta_parts[of m a "read_meta m a"] head by simp_all
  have hd: "mem_read m1 a 16 = meta_head meta" using parts(1) by (simp add: m1_def mem_read_write_disj)
  have tl: "mem_read m1 (a + 16) 120 = take n ?t @ drop n ?ot" using mem_read_torn[of m "a + 16" n ?t] parts(2) by (simp add: m1_def)
  have "mem_read m1 (a + 128) 8 = drop 112 (take n ?t @ drop n ?ot)" using mem_read_part[OF tl, of 112 8] by (simp add: add.assoc)
  also have "\<dots> = take (n - 112) (to_le 8 (unat ?new)) @ drop (n - 112) (to_le 8 (unat ?o))"
    by (cases "n \<le> 112") (simp_all add: drop_take meta_tail_txnid[symmetric] min_def)
  finally have tx: "mem_read m1 (a + 128) 8 = take (n - 112) (to_le 8 (unat ?new)) @ drop (n - 112) (to_le 8 (unat ?o))" .
  show ?thesis
  proof (cases "unat (mm_txnid (read_meta m1 a)) \<le> unat ?o")
    case False
    then have new: "le_nat (mem_read m1 (a + 128) 8) = unat ?new"
      using torn_word[of ?o ?new "n - 112"] old by (simp add: read_meta_txnid[of m1] tx)
    then have "112 < n" using tx old(1) le_nat_to_le[of 8 "unat ?o"] unsigned_less[of ?o, where 'a = nat] by (cases "n \<le> 112") simp_all
    moreover have "mem_read m1 (a + 128) 8 = drop 112 ?t" using to_le_le_nat[of "mem_read m1 (a + 128) 8" 8] new by (simp add: meta_tail_txnid)
    ultimately have "mem_read m1 (a + 16) 120 = take 112 ?t @ drop 112 ?t"
      using mem_read_append[of m1 "a + 16" 112 8] mem_read_part[OF tl, of 0 112] by (simp add: add.assoc min_def)
    then show ?thesis using hd by (simp add: read_meta_parts)
  qed simp
qed

section \<open>Writing the meta page of a commit\<close>

text \<open>The meta page that the transaction \<open>t\<close> writes, and the tail written back after a failure.\<close>

definition meta_slot :: "world \<Rightarrow> nat \<Rightarrow> nat" where
  "meta_slot w t = unat (mt_txnid (txn w t) AND 1)"

definition restored_meta :: "world \<Rightarrow> nat \<Rightarrow> MDB_meta" where
  "restored_meta w t = (commit_meta w t)\<lparr>mm_last_pg := mm_last_pg (get_meta w (meta_slot w t)), mm_txnid := mm_txnid (get_meta w (meta_slot w t))\<rparr>"

lemma meta_slot_cases: "meta_slot w t = 0 \<or> meta_slot w t = 1"
  unfolding meta_slot_def and_one_eq unat_mod by simp linarith

lemma commit_meta_head: "meta_head (commit_meta w t) = meta_head (get_meta w (meta_slot w t))"
  by (simp add: commit_meta_def meta_head_def meta_slot_def Let_def)

lemma commit_meta_txnid [simp]: "mm_txnid (commit_meta w t) = mt_txnid (txn w t)"
  by (simp add: commit_meta_def Let_def)

text \<open>The memory after the call, by its outcome.\<close>

lemma write_meta_run:
  assumes run: "mdb_env_write_meta w t = (rc, w')"
  defines "a \<equiv> me_metas w (meta_slot w t) + 16"
  shows "me_map (w_env w') = me_map (w_env w) \<and> me_psize (w_env w') = me_psize (w_env w) \<and>
    (if rc = MDB_SUCCESS then w_mem w' = mem_write (w_mem w) a (meta_tail (commit_meta w t)) \<and>
         map_option mti_txnid (me_txns (w_env w')) = map_option (\<lambda>_. mt_txnid (txn w t)) (me_txns (w_env w))
     else me_flags (w_env w') = me_flags (w_env w) OR MDB_FATAL_ERROR \<and> me_txns (w_env w') = me_txns (w_env w) \<and>
       (w_mem w' = mem_write (w_mem w) a (meta_tail (commit_meta w t)) \<and> me_flags (w_env w) AND MDB_WRITEMAP \<noteq> 0 \<or>
        w_mem w' = mem_write (mem_write (w_mem w) a (take (fst (w_write w (w_nio w))) (meta_tail (commit_meta w t)))) a
                     (take (fst (w_write w (Suc (w_nio w)))) (meta_tail (restored_meta w t)))))"
proof -
  have a: "me_map (w_env w) + (me_metas w (meta_slot w t) + 16 - me_map (w_env w)) = a" by (simp add: a_def me_metas_def METADATA_def)
  show ?thesis
  proof (cases "me_flags (w_env w) AND MDB_WRITEMAP \<noteq> 0")
    case True
    then show ?thesis using run
      by (auto simp: mdb_env_write_meta_def meta_pwrite_def Let_def file_sync_def set_fatal_def set_mti_txnid_def a_def meta_slot_def upd_env_def upd_mem_def txn_def
          option.map_comp comp_def split: if_splits)
  next
    case False
    note b = a[unfolded meta_slot_def]
    show ?thesis using run False b
      by (auto simp: mdb_env_write_meta_def meta_pwrite_def me_metas_def Let_def pwrite_def set_fatal_def set_mti_txnid_def meta_slot_def upd_env_def upd_mem_def txn_def
          restored_meta_def option.map_comp comp_def case_prod_beta min_def split: if_splits)
  qed
qed

lemma get_meta_outside:
  assumes "same_outside (me_metas w i) (me_metas w i + 136) (w_mem w) (w_mem w')" and "me_map (w_env w') = me_map (w_env w)"
    and "me_psize (w_env w') = me_psize (w_env w)" and "152 \<le> me_psize (w_env w)" and "i = 0 \<or> i = 1"
  shows "get_meta w' (1 - i) = get_meta w (1 - i)"
proof -
  let ?b = "me_metas w (1 - i)"
  have "mem_read (w_mem w') ?b 136 = mem_read (w_mem w) ?b 136"
    by (rule mem_read_cong, rule same_outsideD[OF assms(1)]) (use assms(4,5) in \<open>auto simp: me_metas_def METADATA_def\<close>)
  then have "read_meta (w_mem w') ?b = read_meta (w_mem w) ?b" using read_meta_iff[of "w_mem w" ?b] read_meta_iff[of "w_mem w'" ?b] by metis
  then show ?thesis using assms(2,3) by (simp add: get_meta_def me_metas_def)
qed

lemma write_meta_outside:
  assumes "mdb_env_write_meta w t = (rc, w')"
  shows "same_outside (me_metas w (meta_slot w t)) (me_metas w (meta_slot w t) + 136) (w_mem w) (w_mem w')"
  using write_meta_run[OF assms] by (auto simp: same_outside_write min_def split: if_splits)

lemma write_meta_success:
  assumes "mdb_env_write_meta w t = (MDB_SUCCESS, w')"
  shows "get_meta w' (meta_slot w t) = commit_meta w t"
proof -
  let ?a = "me_metas w (meta_slot w t)"
  note run = write_meta_run[OF assms]
  have "mem_read (w_mem w) ?a 16 = meta_head (commit_meta w t)"
    using read_meta_parts[of "w_mem w" ?a "get_meta w (meta_slot w t)"] by (simp add: commit_meta_head get_meta_def)
  then have "read_meta (w_mem w') ?a = commit_meta w t" using run by (simp add: read_meta_parts mem_read_write_disj)
  then show ?thesis using run by (simp add: get_meta_def me_metas_def)
qed

text \<open>
  C18: \<open>mdb_env_write_meta\<close> never touches the other meta page, nor any byte outside the record it writes. If it
  succeeds, its meta page holds the databases, the last page and the number of the transaction, the number is
  published to new readers, and, if the other page is older, it is the page chosen from then on. If it fails,
  the environment is marked as broken and nothing is published.
\<close>

theorem write_meta_commits:
  assumes "mdb_env_write_meta w t = (rc, w')" and "152 \<le> me_psize (w_env w)"
  shows "get_meta w' (1 - meta_slot w t) = get_meta w (1 - meta_slot w t) \<and>
    same_outside (me_metas w (meta_slot w t)) (me_metas w (meta_slot w t) + 136) (w_mem w) (w_mem w') \<and>
    (if rc = MDB_SUCCESS then get_meta w' (meta_slot w t) = commit_meta w t \<and>
         map_option mti_txnid (me_txns (w_env w')) = map_option (\<lambda>_. mt_txnid (txn w t)) (me_txns (w_env w)) \<and>
         (mm_txnid (get_meta w (1 - meta_slot w t)) < mt_txnid (txn w t) \<longrightarrow> mdb_env_pick_meta w' = meta_slot w t)
     else me_flags (w_env w') = me_flags (w_env w) OR MDB_FATAL_ERROR \<and> me_txns (w_env w') = me_txns (w_env w))"
proof -
  note run = write_meta_run[OF assms(1)] and out = write_meta_outside[OF assms(1)]
  have other: "get_meta w' (1 - meta_slot w t) = get_meta w (1 - meta_slot w t)"
    using get_meta_outside[OF out] run assms(2) meta_slot_cases[of w t] by auto
  have "mdb_env_pick_meta w' = meta_slot w t"
    if rc: "rc = MDB_SUCCESS" and lt: "mm_txnid (get_meta w (1 - meta_slot w t)) < mt_txnid (txn w t)"
    using other lt write_meta_success[OF assms(1)[unfolded rc]] meta_slot_cases[of w t] by (auto simp: mdb_env_pick_meta_def)
  then show ?thesis using run out other write_meta_success[of w t w'] assms(1) by (auto split: if_splits)
qed

lemma pick_untouched:
  assumes "mm_txnid (get_meta w (1 - i)) = p" and "i = 0 \<or> i = 1" and "mm_txnid (get_meta w i) \<le> p" and "i = 0 \<longrightarrow> mm_txnid (get_meta w i) < p"
  shows "mdb_env_pick_meta w = 1 - i"
  using assms by (auto simp: mdb_env_pick_meta_def)

text \<open>
  The meta page that the next reader of the file chooses is whole: it is the unchanged page of the previous transaction
  or the complete page of the new one.
\<close>

definition chosen_whole :: "world \<Rightarrow> nat \<Rightarrow> world \<Rightarrow> bool" where
  "chosen_whole w t w' \<longleftrightarrow>
     mdb_env_pick_meta w' = 1 - meta_slot w t \<and> get_meta w' (1 - meta_slot w t) = get_meta w (1 - meta_slot w t) \<or>
     mdb_env_pick_meta w' = meta_slot w t \<and> get_meta w' (meta_slot w t) = commit_meta w t"

text \<open>The pages hold the previous transaction and the one before it, or the file is new.\<close>

definition metas_before :: "world \<Rightarrow> nat \<Rightarrow> bool" where
  "metas_before w t \<longleftrightarrow> 152 \<le> me_psize (w_env w) \<and> unat (mm_txnid (get_meta w (1 - meta_slot w t))) + 1 = unat (mt_txnid (txn w t)) \<and>
     (unat (mm_txnid (get_meta w (meta_slot w t))) + 2 = unat (mt_txnid (txn w t)) \<or> mt_txnid (txn w t) = 1 \<and> mm_txnid (get_meta w (meta_slot w t)) = 0)"

lemma pick_new:
  assumes "metas_before w t" and "get_meta w' (1 - meta_slot w t) = get_meta w (1 - meta_slot w t)" and "get_meta w' (meta_slot w t) = commit_meta w t"
  shows "mdb_env_pick_meta w' = meta_slot w t"
  using assms meta_slot_cases[of w t] by (auto simp: mdb_env_pick_meta_def word_less_nat_alt metas_before_def)

lemma whole_cases:
  assumes before: "metas_before w t" and env: "me_map (w_env w') = me_map (w_env w)" "me_psize (w_env w') = me_psize (w_env w)"
    and out: "same_outside (me_metas w (meta_slot w t)) (me_metas w (meta_slot w t) + 136) (w_mem w) (w_mem w')"
    and slot: "read_meta (w_mem w') (me_metas w (meta_slot w t)) = commit_meta w t \<or>
      unat (mm_txnid (read_meta (w_mem w') (me_metas w (meta_slot w t)))) \<le> unat (mm_txnid (get_meta w (meta_slot w t)))"
  shows "chosen_whole w t w'"
proof -
  let ?i = "meta_slot w t" and ?T = "mt_txnid (txn w t)"
  have other: "get_meta w' (1 - ?i) = get_meta w (1 - ?i)" using get_meta_outside[OF out env] before meta_slot_cases[of w t] by (simp add: metas_before_def)
  have gm: "get_meta w' ?i = read_meta (w_mem w') (me_metas w ?i)" using env by (simp add: get_meta_def me_metas_def)
  show ?thesis
  proof (cases "get_meta w' ?i = commit_meta w t")
    case True
    then show ?thesis using pick_new[OF before other] by (simp add: chosen_whole_def)
  next
    case False
    then have "unat (mm_txnid (get_meta w' ?i)) \<le> unat (mm_txnid (get_meta w ?i))" using slot gm by simp
    then have "mdb_env_pick_meta w' = 1 - ?i"
      by (intro pick_untouched[OF arg_cong[OF other, of mm_txnid]])
        (use before meta_slot_cases[of w t] in \<open>auto simp: word_le_nat_alt word_less_nat_alt meta_slot_def metas_before_def\<close>)
    then show ?thesis using other by (simp add: chosen_whole_def)
  qed
qed

lemma torn_whole:
  assumes before: "metas_before w t" and env: "me_map (w_env w') = me_map (w_env w)" "me_psize (w_env w') = me_psize (w_env w)"
    and mem: "w_mem w' = mem_write (w_mem w) (me_metas w (meta_slot w t) + 16) (take n (meta_tail (commit_meta w t)))"
  shows "chosen_whole w t w'"
proof (rule whole_cases[OF before env])
  show "same_outside (me_metas w (meta_slot w t)) (me_metas w (meta_slot w t) + 136) (w_mem w) (w_mem w')"
    by (auto simp: mem same_outside_write min_def)
  show "read_meta (w_mem w') (me_metas w (meta_slot w t)) = commit_meta w t \<or>
      unat (mm_txnid (read_meta (w_mem w') (me_metas w (meta_slot w t)))) \<le> unat (mm_txnid (get_meta w (meta_slot w t)))"
    using read_meta_torn[OF _ _ _ mem] before by (auto simp: commit_meta_head get_meta_def metas_before_def)
qed

text \<open>What the two writes leave of the number of the transaction, the last 8 of the 120 bytes.\<close>

lemma restored_tail:
  "take 104 (meta_tail (restored_meta w t)) = take 104 (meta_tail (commit_meta w t))"
  "drop 112 (meta_tail (restored_meta w t)) = to_le 8 (unat (mm_txnid (get_meta w (meta_slot w t))))"
  by (simp_all add: restored_meta_def meta_tail_def)

lemma mem_write_over: "mem_write (mem_write m a (take n bs)) a (take k bs) = mem_write m a (take (max n k) bs)"
  by (rule ext) (auto simp: mem_write_def min_def max_def)

lemma restore_keeps_txnid:
  assumes mem: "m' = mem_write (mem_write (w_mem w) (me_metas w (meta_slot w t) + 16) (take n (meta_tail (commit_meta w t)))) (me_metas w (meta_slot w t) + 16)
      (take n2 (meta_tail (restored_meta w t)))" and small: "n \<le> 112 \<or> 120 \<le> n2"
  shows "unat (mm_txnid (read_meta m' (me_metas w (meta_slot w t)))) = unat (mm_txnid (get_meta w (meta_slot w t)))"
proof -
  let ?a = "me_metas w (meta_slot w t)" and ?r = "meta_tail (restored_meta w t)"
  have old: "mem_read (w_mem w) (?a + 128) 8 = to_le 8 (unat (mm_txnid (get_meta w (meta_slot w t))))"
    using read_meta_txnid[of "w_mem w" ?a] to_le_le_nat[of "mem_read (w_mem w) (?a + 128) 8" 8] by (simp add: get_meta_def)
  have "mem_read m' (?a + 128) 8 = drop 112 ?r"
  proof (rule nth_equalityI)
    fix i assume i: "i < length (mem_read m' (?a + 128) 8)"
    have 1: "?r ! (112 + i) = drop 112 ?r ! i" using i by simp
    have "w_mem w (?a + 128 + i) = mem_read (w_mem w) (?a + 128) 8 ! i" using i by simp
    then have 2: "w_mem w (?a + 128 + i) = drop 112 ?r ! i" unfolding old restored_tail .
    show "mem_read m' (?a + 128) 8 ! i = drop 112 ?r ! i"
      using i 1 2 small by (auto simp: mem mem_write_def min_def add.assoc)
  qed simp
  then show ?thesis using unsigned_less[of "mm_txnid (get_meta w (meta_slot w t))", where 'a = nat] by (simp add: read_meta_txnid restored_tail le_nat_to_le)
qed

text \<open>
  C4: The commit is atomic with respect to torn writes. Suppose the meta pages hold the previous transaction and the
  one before it, or the file is new, and the map is not writable. If the process or the system stops during the write of
  the record, whatever prefix of it has reached the file, the meta page chosen afterwards is the complete
  unchanged page of the previous transaction or the complete page of the new one, never a mixture. The same holds
  after the call, and the page is the new one if it reports success. If it reports a failure, the old values were written
  back by a second write; then it is required that the failed write had not reached the number of the transaction
  (the last 8 of the 120 bytes), or that the second write stored all the 120 bytes or none of those after the
  first 104.
\<close>

theorem write_meta_crash_atomic:
  assumes "mdb_env_write_meta w t = (rc, w')" and "meta_pwrite w t (commit_meta w t) = (r, w1)" and "metas_before w t" and "me_flags (w_env w) AND MDB_WRITEMAP = 0"
  shows "chosen_whole w t w1 \<and>
    (rc = MDB_SUCCESS \<longrightarrow> mdb_env_pick_meta w' = meta_slot w t \<and> get_meta w' (meta_slot w t) = commit_meta w t) \<and>
    (rc \<noteq> MDB_SUCCESS \<and> (fst (w_write w (w_nio w)) \<le> 112 \<or> fst (w_write w (Suc (w_nio w))) \<le> 104 \<or> 120 \<le> fst (w_write w (Suc (w_nio w)))) \<longrightarrow> chosen_whole w t w')"
proof -
  let ?a = "me_metas w (meta_slot w t)" and ?n = "fst (w_write w (w_nio w))" and ?n2 = "fst (w_write w (Suc (w_nio w)))"
  note run = write_meta_run[OF assms(1)] and out = write_meta_outside[OF assms(1)]
  have env: "me_map (w_env w') = me_map (w_env w)" "me_psize (w_env w') = me_psize (w_env w)" using run by blast+
  have whole: "chosen_whole w t w1"
    by (rule torn_whole[OF assms(3), of w1 ?n])
      (use assms(2) in \<open>auto simp: meta_pwrite_def pwrite_def Let_def upd_mem_def meta_slot_def me_metas_def METADATA_def case_prod_beta add.left_commute\<close>)
  have new: "mdb_env_pick_meta w' = meta_slot w t \<and> get_meta w' (meta_slot w t) = commit_meta w t" if rc: "rc = MDB_SUCCESS"
  proof -
    have "get_meta w' (1 - meta_slot w t) = get_meta w (1 - meta_slot w t)"
      using get_meta_outside[OF out env] assms(3) meta_slot_cases[of w t] by (simp add: metas_before_def)
    then show ?thesis using pick_new[OF assms(3)] write_meta_success[of w t w'] assms(1) rc by simp
  qed
  have "chosen_whole w t w'" if rc: "rc \<noteq> MDB_SUCCESS" and fit: "?n \<le> 112 \<or> ?n2 \<le> 104 \<or> 120 \<le> ?n2"
  proof -
    have mem: "w_mem w' = mem_write (mem_write (w_mem w) (?a + 16) (take ?n (meta_tail (commit_meta w t)))) (?a + 16) (take ?n2 (meta_tail (restored_meta w t)))"
      using run rc assms(4) by simp
    show ?thesis
    proof (cases "?n \<le> 112 \<or> 120 \<le> ?n2")
      case True
      then show ?thesis using whole_cases[OF assms(3) env out] restore_keeps_txnid[OF mem] by simp
    next
      case False
      then have "take ?n2 (meta_tail (restored_meta w t)) = take ?n2 (meta_tail (commit_meta w t))"
        using fit restored_tail(1)[of w t] by (metis min.absorb1 take_take)
      then show ?thesis using torn_whole[OF assms(3) env] mem by (simp add: mem_write_over)
    qed
  qed
  then show ?thesis using whole new by blast
qed

text \<open>
  C26: A write back that is torn leaves a mixture. If the write of the record stores all of it and still reports an
  error (other than \<open>EINTR\<close>, which is retried), and the second write, which puts back the old last page and the old number, stores 112 of its 120 bytes, the
  meta page has the number and the databases of the new transaction with the last page of the old one, and it
  is the page chosen from then on.
\<close>

theorem torn_restore_mixes:
  assumes "mdb_env_write_meta w t = (rc, w')" and "w_write w (w_nio w) = (n, err)" and "120 \<le> n" and "err \<noteq> 0" and "fst (w_write w (Suc (w_nio w))) = 112"
    and "152 \<le> me_psize (w_env w)" and "me_flags (w_env w) AND MDB_WRITEMAP = 0" and "mm_txnid (get_meta w (1 - meta_slot w t)) < mt_txnid (txn w t)"
  shows "rc = err \<and> mdb_env_pick_meta w' = meta_slot w t \<and>
    get_meta w' (meta_slot w t) = (commit_meta w t)\<lparr>mm_last_pg := mm_last_pg (get_meta w (meta_slot w t))\<rparr>"
proof -
  let ?i = "meta_slot w t" and ?a = "me_metas w (meta_slot w t)" and ?c = "commit_meta w t"
  let ?m = "?c\<lparr>mm_last_pg := mm_last_pg (get_meta w ?i)\<rparr>"
  note run = write_meta_run[OF assms(1)] and out = write_meta_outside[OF assms(1)]
  have rc: "rc = err" using assms(1,2,4,7) by (auto simp: mdb_env_write_meta_def meta_pwrite_def pwrite_def Let_def case_prod_beta)
  have err: "rc \<noteq> MDB_SUCCESS" using rc assms(4) by simp
  have mem: "w_mem w' = mem_write (mem_write (w_mem w) (?a + 16) (meta_tail ?c)) (?a + 16) (take 112 (meta_tail (restored_meta w t)))"
    using run err assms(2,3,5,7) by simp
  have "mem_read (w_mem w') (?a + 16) 120 = take 112 (meta_tail (restored_meta w t)) @ drop 112 (meta_tail ?c)"
    using mem_read_torn[of "mem_write (w_mem w) (?a + 16) (meta_tail ?c)" "?a + 16" 112 "meta_tail (restored_meta w t)"] mem by simp
  also have "\<dots> = meta_tail ?m" by (simp add: meta_tail_def restored_meta_def)
  finally have tl: "mem_read (w_mem w') (?a + 16) 120 = meta_tail ?m" .
  have "mem_read (w_mem w) ?a 16 = meta_head ?c" using read_meta_parts[of "w_mem w" ?a "get_meta w ?i"] by (simp add: commit_meta_head get_meta_def)
  then have hd: "mem_read (w_mem w') ?a 16 = meta_head ?m" by (simp add: mem mem_read_write_disj meta_head_def)
  have slot: "get_meta w' ?i = ?m" using tl hd run read_meta_parts[of "w_mem w'" ?a ?m] by (simp add: get_meta_def me_metas_def)
  have "get_meta w' (1 - ?i) = get_meta w (1 - ?i)" using get_meta_outside[OF out] run assms(6) meta_slot_cases[of w t] by auto
  then have "mdb_env_pick_meta w' = ?i" using slot assms(8) meta_slot_cases[of w t] by (auto simp: mdb_env_pick_meta_def)
  then show ?thesis using rc slot by blast
qed

text \<open>A file with the transactions 2 and 1 in its meta pages, about to commit transaction 3; \<open>f\<close> is the outcome of the writes.\<close>

definition two_metas :: "(nat \<Rightarrow> nat \<times> int) \<Rightarrow> world" where
  "two_metas f = demo\<lparr>w_env := demo_env\<lparr>me_psize := 4096, me_map := 0\<rparr>, w_write := f,
     w_txns := (\<lambda>_. demo_txn\<lparr>mt_txnid := 3, mt_next_pgno := 9\<rparr>),
     w_mem := mem_write (mem_write (\<lambda>_. 0) 16 (meta_bytes (zero_meta\<lparr>mm_txnid := 2\<rparr>))) 4112 (meta_bytes (zero_meta\<lparr>mm_txnid := 1\<rparr>))\<rparr>"

lemma two_metas_simps:
  "get_meta (two_metas f) 0 = zero_meta\<lparr>mm_txnid := 2\<rparr>" "get_meta (two_metas f) (Suc 0) = zero_meta\<lparr>mm_txnid := 1\<rparr>"
  "meta_slot (two_metas f) 0 = 1" "mt_txnid (txn (two_metas f) 0) = 3" "me_psize (w_env (two_metas f)) = 4096"
  "me_flags (w_env (two_metas f)) = 0" "w_write (two_metas f) = f" "w_nio (two_metas f) = 0"
proof -
  have len: "length (meta_bytes m) = 136" for m by (simp add: meta_bytes_def)
  show "get_meta (two_metas f) 0 = zero_meta\<lparr>mm_txnid := 2\<rparr>" "get_meta (two_metas f) (Suc 0) = zero_meta\<lparr>mm_txnid := 1\<rparr>"
    by (simp_all add: two_metas_def get_meta_def me_metas_def METADATA_def read_meta_iff mem_read_write_disj len)
  show "meta_slot (two_metas f) 0 = 1" by (simp add: meta_slot_def two_metas_def txn_def)
qed (simp_all add: two_metas_def txn_def demo_def demo_env_def)

theorem write_meta_commits_witness:
  "\<exists>w'. mdb_env_write_meta (two_metas (\<lambda>_. (120, 0))) 0 = (MDB_SUCCESS, w') \<and> mm_txnid (get_meta w' 0) = 2 \<and> mm_txnid (get_meta w' 1) = 3 \<and> mdb_env_pick_meta w' = 1"
proof -
  let ?w = "two_metas (\<lambda>_. (120, 0))"
  obtain rc w' where run: "mdb_env_write_meta ?w 0 = (rc, w')" by (cases "mdb_env_write_meta ?w 0")
  then have "rc = MDB_SUCCESS"
    by (auto simp: mdb_env_write_meta_def meta_pwrite_def me_metas_def Let_def pwrite_def set_mti_txnid_def upd_env_def upd_mem_def two_metas_simps split: if_splits)
  then show ?thesis using write_meta_commits[OF run] run by (simp add: two_metas_simps word_less_nat_alt)
qed

theorem write_meta_crash_atomic_witness:
  "\<exists>rc w' r w1. mdb_env_write_meta (two_metas (\<lambda>i. if i = 0 then (113, 5) else (90, 5))) 0 = (rc, w') \<and>
    meta_pwrite (two_metas (\<lambda>i. if i = 0 then (113, 5) else (90, 5))) 0 (commit_meta (two_metas (\<lambda>i. if i = 0 then (113, 5) else (90, 5))) 0) = (r, w1) \<and> rc = 5 \<and>
    (mdb_env_pick_meta w1 = 0 \<and> mm_txnid (get_meta w1 0) = 2 \<or> mdb_env_pick_meta w1 = 1 \<and> mm_txnid (get_meta w1 1) = 3) \<and>
    (mdb_env_pick_meta w' = 0 \<and> mm_txnid (get_meta w' 0) = 2 \<or> mdb_env_pick_meta w' = 1 \<and> mm_txnid (get_meta w' 1) = 3)"
proof -
  let ?w = "two_metas (\<lambda>i. if i = 0 then (113, 5) else (90, 5))"
  obtain rc w' where run: "mdb_env_write_meta ?w 0 = (rc, w')" by (cases "mdb_env_write_meta ?w 0")
  obtain r w1 where first: "meta_pwrite ?w 0 (commit_meta ?w 0) = (r, w1)" by (cases "meta_pwrite ?w 0 (commit_meta ?w 0)")
  have r: "r = Inl 5" using first by (simp add: meta_pwrite_def pwrite_def Let_def two_metas_simps split: prod.splits)
  have rc: "rc = 5" using run first r by (auto simp: mdb_env_write_meta_def Let_def two_metas_simps split: prod.splits)
  have "metas_before ?w 0" by (simp add: metas_before_def two_metas_simps)
  from write_meta_crash_atomic[OF run first this] show ?thesis using run first rc by (auto simp: two_metas_simps chosen_whole_def)
qed

theorem torn_restore_mixes_witness:
  "\<exists>w'. mdb_env_write_meta (two_metas (\<lambda>i. if i = 0 then (120, 5) else (112, 5))) 0 = (5, w') \<and> mdb_env_pick_meta w' = 1 \<and> mm_txnid (get_meta w' 1) = 3 \<and>
    mm_last_pg (get_meta w' 1) = 0 \<and> mm_last_pg (commit_meta (two_metas (\<lambda>i. if i = 0 then (120, 5) else (112, 5))) 0) = 8"
proof -
  let ?w = "two_metas (\<lambda>i. if i = 0 then (120, 5) else (112, 5))"
  obtain rc w' where run: "mdb_env_write_meta ?w 0 = (rc, w')" by (cases "mdb_env_write_meta ?w 0")
  have "mm_last_pg (commit_meta ?w 0) = 8" by (simp add: commit_meta_def two_metas_def txn_def Let_def)
  then show ?thesis using torn_restore_mixes[OF run, of 120 5] run by (simp add: two_metas_simps word_less_nat_alt zero_meta_def)
qed

section \<open>Creating a file and reading its header\<close>

definition header_bytes :: "u64 \<Rightarrow> MDB_meta \<Rightarrow> bytes" where
  "header_bytes pgno meta = to_le 8 (unat pgno) @ to_le 2 0 @ to_le 2 (unat (P_META :: u16)) @ to_le 4 0 @ meta_bytes meta"

lemma length_header_bytes [simp]: "length (header_bytes pgno meta) = 152"
  by (simp add: header_bytes_def meta_bytes_def)

lemma meta_page_header: "meta_page psize pgno meta = header_bytes pgno meta @ replicate (psize - 152) 0"
  by (simp add: meta_page_def header_bytes_def meta_bytes_def Let_def)

lemma read_header_bytes:
  "mp_flags (mem_write (\<lambda>_. 0) 0 (header_bytes pgno meta)) 0 = P_META" "read_meta (mem_write (\<lambda>_. 0) 0 (header_bytes pgno meta)) (METADATA 0) = meta"
proof -
  let ?m = "mem_write (\<lambda>_. 0) 0 (header_bytes pgno meta)"
  have all: "mem_read ?m 0 152 = header_bytes pgno meta" by simp
  show "mp_flags ?m 0 = P_META"
    using mem_read_part[OF all, of 10 2] by (simp add: mp_flags_def rd_eq_iff header_bytes_def)
  show "read_meta ?m (METADATA 0) = meta"
    using mem_read_part[OF all, of 16 136] by (simp add: METADATA_def read_meta_iff header_bytes_def meta_bytes_def)
qed

lemma init_meta_file:
  assumes run: "mdb_env_init_meta w meta = (MDB_SUCCESS, w')" and unmapped: "me_map (w_env w) = 0" and psz: "152 \<le> me_psize (w_env w)"
  shows "mem_read (w_mem w') 0 152 = header_bytes 0 meta" and "mem_read (w_mem w') (me_psize (w_env w)) 152 = header_bytes 1 meta"
proof -
  let ?p = "me_psize (w_env w)" and ?bs = "meta_page (me_psize (w_env w)) 0 meta @ meta_page (me_psize (w_env w)) 1 meta"
  have len: "length (meta_page ?p i meta) = ?p" for i using psz by (simp add: meta_page_header)
  have "w_mem w' = mem_write (w_mem w) 0 ?bs"
    using run unmapped len by (auto simp: mdb_env_init_meta_def pwrite_def Let_def case_prod_beta upd_mem_def min_def ENOMEM_def split: if_splits)
  then have all: "mem_read (w_mem w') 0 (2 * ?p) = ?bs" using len by simp
  show "mem_read (w_mem w') 0 152 = header_bytes 0 meta"
    using mem_read_part[OF all, of 0 152] psz by (simp add: meta_page_header)
  show "mem_read (w_mem w') ?p 152 = header_bytes 1 meta"
    using mem_read_part[OF all, of ?p 152] psz len[of 0] by (simp add: meta_page_header)
qed

text \<open>
  C25: A file that \<open>mdb_env_init_meta\<close> created is read back by \<open>mdb_env_read_header\<close>: both meta pages pass the checks of
  page type, magic and version, and the result is the record prepared by \<open>mdb_env_init_meta0\<close>, in particular with the
  page size, the map size and empty databases.
\<close>

theorem new_file_header_roundtrip:
  assumes "mdb_env_init_meta w (mdb_env_init_meta0 w zero_meta) = (MDB_SUCCESS, w')" and "me_map (w_env w) = 0"
    and "152 \<le> me_psize (w_env w)" and "me_psize (w_env w) < 2 ^ 32"
  shows "mdb_env_read_header (\<lambda>off. Inr (mem_read (w_mem w') off 152)) before = (MDB_SUCCESS, mdb_env_init_meta0 w zero_meta)"
proof -
  have "unat (md_pad (mm_free (mdb_env_init_meta0 w zero_meta))) = me_psize (w_env w)"
    using assms(4) by (simp add: mdb_env_init_meta0_def unat_of_nat take_bit_eq_mod)
  moreover have "mm_magic (mdb_env_init_meta0 w zero_meta) = MDB_MAGIC" "mm_version (mdb_env_init_meta0 w zero_meta) = MDB_DATA_VERSION"
    by (simp_all add: mdb_env_init_meta0_def)
  ultimately show ?thesis
    using assms(3) by (simp add: mdb_env_read_header_def numeral_2_eq_2 init_meta_file[OF assms(1-3)] read_header_bytes Let_def F_ISSET_def)
qed

theorem new_file_header_roundtrip_witness:
  "\<exists>w'. mdb_env_init_meta (two_metas (\<lambda>_. (8192, 0))) (mdb_env_init_meta0 (two_metas (\<lambda>_. (8192, 0))) zero_meta) = (MDB_SUCCESS, w') \<and>
    mdb_env_read_header (\<lambda>off. Inr (mem_read (w_mem w') off 152)) zero_meta = (MDB_SUCCESS, mdb_env_init_meta0 (two_metas (\<lambda>_. (8192, 0))) zero_meta)"
proof -
  let ?w = "two_metas (\<lambda>_. (8192, 0))"
  have len: "length (meta_page 4096 i meta) = 4096" for i meta by (simp add: meta_page_header)
  have env: "w_ok ?w n" "me_map (w_env ?w) = 0" for n by (simp_all add: two_metas_def)
  obtain w' where run: "mdb_env_init_meta ?w (mdb_env_init_meta0 ?w zero_meta) = (MDB_SUCCESS, w')"
    by (simp add: mdb_env_init_meta_def Let_def env two_metas_simps pwrite_def len)
  then show ?thesis using new_file_header_roundtrip[OF run env(2)] by (simp add: two_metas_simps)
qed

end
