(* ===== verification/Mvcc_Spec.thy ===== *)
theory Mvcc_Spec
  imports Readers_Spec Meta_Spec
begin

text \<open>
  Snapshots: readers publish the transaction they read in the reader table, and the writer reuses the pages of a
  free-list record only if the record is older than every active reader. Neither takes a lock for it: a reader
  stores the newest transaction in its slot and checks again whether it is still the newest, while the writer
  looks through the slots one by one and commits. The theory states the interleaving of the single loads and stores
  as a step relation and shows by rule induction that the cached bound \<open>me_pgoldest\<close> never exceeds the snapshot
  of a reader that has passed its check.
\<close>

section \<open>The oldest reader\<close>

text \<open>The snapshots of the active readers, those with a process ID.\<close>

definition active :: "MDB_txninfo \<Rightarrow> u64 set" where
  "active ti = set (map mr_txnid (filter (\<lambda>r. mr_pid r \<noteq> 0) (take (mti_numreaders ti) (mti_readers ti))))"

lemma finite_active [simp]: "finite (active ti)"
  by (simp add: active_def)

lemma Min_insert_min:
  fixes x y :: "'a::linorder"
  shows "finite A \<Longrightarrow> Min (insert (if c \<and> y > x then x else y) A) = Min (insert y (if c then insert x A else A))"
  by (cases "A = {}") (auto simp: min_def)

lemma oldest_loop_Min:
  "n \<le> length rs \<Longrightarrow> oldest_loop rs n o' = Some (Min (insert o' (mr_txnid ` {r \<in> set (take n rs). mr_pid r \<noteq> 0})))"
proof (induction n arbitrary: o')
  case (Suc n)
  let ?x = "rs ! n" and ?A = "mr_txnid ` {r \<in> set (take n rs). mr_pid r \<noteq> 0}"
  have A: "mr_txnid ` {r \<in> set (take (Suc n) rs). mr_pid r \<noteq> 0} = (if mr_pid ?x \<noteq> 0 then insert (mr_txnid ?x) ?A else ?A)"
    using Suc.prems by (auto simp: take_Suc_conv_app_nth)
  have "Min (insert (if mr_pid ?x \<noteq> 0 \<and> o' > mr_txnid ?x then mr_txnid ?x else o') ?A) = Min (insert o' (if mr_pid ?x \<noteq> 0 then insert (mr_txnid ?x) ?A else ?A))"
    by (rule Min_insert_min) simp
  then show ?case using Suc unfolding A by simp
qed simp

lemma find_oldest_Min:
  assumes "me_txns (w_env w) = Some ti" and "mti_numreaders ti \<le> length (mti_readers ti)"
  shows "mdb_find_oldest w t = Some (Min (insert (mt_txnid (txn w t) - 1) (active ti)))"
  using assms oldest_loop_Min[of "mti_numreaders ti" "mti_readers ti"] by (simp add: mdb_find_oldest_def active_def Let_def)

text \<open>
  C19: \<open>mdb_find_oldest\<close> returns the least snapshot among the active readers and the transaction before the writer's own.
\<close>

theorem find_oldest_minimum:
  assumes "me_txns (w_env w) = Some ti" and "mti_numreaders ti \<le> length (mti_readers ti)"
  shows "mdb_find_oldest w t = Some (Min (insert (mt_txnid (txn w t) - 1) (active ti)))"
  by (rule find_oldest_Min[OF assms])

theorem find_oldest_minimum_witness:
  "mdb_find_oldest (demo\<lparr>w_env := demo_env\<lparr>me_txns := Some demo_readers\<rparr>, w_txns := (\<lambda>_. demo_txn\<lparr>mt_txnid := 10\<rparr>)\<rparr>) 0 = Some 3"
proof -
  have a: "active demo_readers = {5, 3, 4}" by (simp add: active_def demo_readers_def)
  show ?thesis
    using find_oldest_minimum[of "demo\<lparr>w_env := demo_env\<lparr>me_txns := Some demo_readers\<rparr>, w_txns := (\<lambda>_. demo_txn\<lparr>mt_txnid := 10\<rparr>)\<rparr>" demo_readers 0]
    by (simp add: a) (simp add: demo_readers_def txn_def min_def)
qed

section \<open>Readers, the writer and the check for dead readers\<close>

text \<open>
  Where a reader is in \<open>mdb_txn_renew0\<close>: it owns its slot without a snapshot, is about to load the newest transaction,
  to store it in the slot, to check it, or is active with its snapshot. Where the writer is in \<open>mdb_find_oldest\<close>:
  about to look at the process ID of the slot below \<open>i\<close>, or at the snapshot of slot \<open>i\<close>, with the least one so far.
\<close>

datatype reader_pc = R_own | R_load | R_store u64 | R_check | R_active u64

datatype scan = Scan nat u64 | Scan_txnid nat u64

record mvcc =
  mv_world :: world
  mv_readers :: "nat \<Rightarrow> (nat \<times> reader_pc) option"
  mv_scan :: "scan option"

text \<open>
  The steps. Loads and stores of the shared table are single steps in one order. \<open>elsewhere\<close>: another thread or
  process runs, with its own private state; the table is shared, and one process writes. A slot is claimed under the
  mutex of the reader table; a slot that a thread or transaction kept is its own. The writer runs transaction
  \<open>mti_txnid + 1\<close>, and the numbers of transactions do not wrap. The readers of a process that is reported to
  be dead make no further steps.
\<close>

inductive mvcc_step :: "mvcc \<Rightarrow> mvcc \<Rightarrow> bool" where
  elsewhere: "me_txns (w_env w') = me_txns (w_env (mv_world s)) \<Longrightarrow> me_pgoldest (w_env w') = me_pgoldest (w_env (mv_world s)) \<Longrightarrow>
     mvcc_step s (s\<lparr>mv_world := w'\<rparr>)"
| reader_takes_slot: "me_txns (w_env (mv_world s)) = Some ti \<Longrightarrow> me_pid (w_env (mv_world s)) \<noteq> 0 \<Longrightarrow>
     mv_readers s t = None \<or> mv_readers s t = Some (r, R_own) \<Longrightarrow>
     kept_slot (mv_world s) t = None \<or> (\<forall>u x. u \<noteq> t \<and> mv_readers s u = Some x \<longrightarrow> fst x \<noteq> r) \<Longrightarrow>
     reader_slot (mv_world s) t ti = Some (0, new, r, w') \<Longrightarrow>
     mvcc_step s (s\<lparr>mv_world := w', mv_readers := (mv_readers s)(t \<mapsto> (r, R_load))\<rparr>)"
| reader_fails: "me_txns (w_env (mv_world s)) = Some ti \<Longrightarrow> reader_slot (mv_world s) t ti = Some (rc, new, r, w') \<Longrightarrow> rc \<noteq> 0 \<Longrightarrow>
     mvcc_step s (s\<lparr>mv_world := w'\<rparr>)"
| reader_loads: "mv_readers s t = Some (r, R_load) \<Longrightarrow> load_txnid (mv_world s) = Some v \<Longrightarrow>
     mvcc_step s (s\<lparr>mv_readers := (mv_readers s)(t \<mapsto> (r, R_store v))\<rparr>)"
| reader_stores: "mv_readers s t = Some (r, R_store v) \<Longrightarrow> store_snapshot r v (mv_world s) = Some w' \<Longrightarrow>
     mvcc_step s (s\<lparr>mv_world := w', mv_readers := (mv_readers s)(t \<mapsto> (r, R_check))\<rparr>)"
| reader_retries: "mv_readers s t = Some (r, R_check) \<Longrightarrow> snapshot_current r (mv_world s) = Some False \<Longrightarrow>
     mvcc_step s (s\<lparr>mv_readers := (mv_readers s)(t \<mapsto> (r, R_load))\<rparr>)"
| reader_starts: "mv_readers s t = Some (r, R_check) \<Longrightarrow> snapshot_current r (mv_world s) = Some True \<Longrightarrow>
     adopt_snapshot t r (mv_world s) = Some (i, w') \<Longrightarrow>
     mvcc_step s (s\<lparr>mv_world := w', mv_readers := (mv_readers s)(t \<mapsto> (r, R_active (mt_txnid (txn w' t))))\<rparr>)"
| reader_ends: "mv_readers s t = Some (r, pc) \<Longrightarrow> pc = R_own \<or> pc = R_active v \<Longrightarrow> mt_reader (txn (mv_world s) t) = Some r \<Longrightarrow>
     end_reader (mv_world s) t mode = Some w' \<Longrightarrow>
     mvcc_step s (s\<lparr>mv_world := w', mv_readers := (mv_readers s)(t := map_option (\<lambda>r. (r, R_own)) (mt_reader (txn w' t)))\<rparr>)"
| scan_begins: "mv_scan s = None \<Longrightarrow> me_txns (w_env (mv_world s)) = Some ti \<Longrightarrow> mt_txnid (txn (mv_world s) t) = mti_txnid ti + 1 \<Longrightarrow>
     mvcc_step s (s\<lparr>mv_scan := Some (Scan (mti_numreaders ti) (mt_txnid (txn (mv_world s) t) - 1))\<rparr>)"
| scan_pid: "mv_scan s = Some (Scan (Suc i) old) \<Longrightarrow> me_txns (w_env (mv_world s)) = Some ti \<Longrightarrow> aget (mti_readers ti) i = Some x \<Longrightarrow>
     mvcc_step s (s\<lparr>mv_scan := Some (if mr_pid x \<noteq> 0 then Scan_txnid i old else Scan i old)\<rparr>)"
| scan_txnid: "mv_scan s = Some (Scan_txnid i old) \<Longrightarrow> me_txns (w_env (mv_world s)) = Some ti \<Longrightarrow> aget (mti_readers ti) i = Some x \<Longrightarrow>
     mvcc_step s (s\<lparr>mv_scan := Some (Scan i (if old > mr_txnid x then mr_txnid x else old))\<rparr>)"
| scan_ends: "mv_scan s = Some (Scan 0 old) \<Longrightarrow>
     mvcc_step s (s\<lparr>mv_world := upd_env (\<lambda>e. e\<lparr>me_pgoldest := old\<rparr>) (mv_world s), mv_scan := None\<rparr>)"
| writer_commits: "mv_scan s = None \<Longrightarrow> me_txns (w_env (mv_world s)) = Some ti \<Longrightarrow> mt_txnid (txn (mv_world s) t) = mti_txnid ti + 1 \<Longrightarrow>
     mti_txnid ti \<noteq> - 1 \<Longrightarrow> mdb_env_write_meta (mv_world s) t = (rc, w') \<Longrightarrow> mvcc_step s (s\<lparr>mv_world := w'\<rparr>)"
| dead_freed: "me_txns (w_env (mv_world s)) = Some ti \<Longrightarrow> w_ok (mv_world s) (4 * (mti_numreaders ti + 1)) \<Longrightarrow>
     mdb_reader_check 0 consistent (mv_world s) = Some (rc, n, w') \<Longrightarrow>
     mvcc_step s (s\<lparr>mv_world := w', mv_readers := (\<lambda>t. case mv_readers s t of None \<Rightarrow> None
       | Some x \<Rightarrow> if dead (mv_world s) (mr_pid (mti_readers ti ! fst x)) then None else Some x)\<rparr>)"

section \<open>The invariant\<close>

text \<open>What an unfinished scan owes to an active reader: it will still see the slot, or has no greater bound already.\<close>

fun scan_ok :: "scan option \<Rightarrow> nat \<Rightarrow> u64 \<Rightarrow> bool" where
  "scan_ok None r v = True"
| "scan_ok (Some (Scan i old)) r v = (r < i \<or> old \<le> v)"
| "scan_ok (Some (Scan_txnid i old)) r v = (r \<le> i \<or> old \<le> v)"

fun scan_bound :: "scan option \<Rightarrow> MDB_txninfo \<Rightarrow> bool" where
  "scan_bound None ti = True"
| "scan_bound (Some (Scan i old)) ti = (i \<le> mti_numreaders ti \<and> old \<le> mti_txnid ti)"
| "scan_bound (Some (Scan_txnid i old)) ti = (i < mti_numreaders ti \<and> old \<le> mti_txnid ti)"

definition reader_ok :: "u64 \<Rightarrow> MDB_txninfo \<Rightarrow> scan option \<Rightarrow> nat \<times> reader_pc \<Rightarrow> bool" where
  "reader_ok bound ti sc x \<longleftrightarrow> fst x < mti_numreaders ti \<and> mr_pid (mti_readers ti ! fst x) \<noteq> 0 \<and>
     (case snd x of R_active v \<Rightarrow> mr_txnid (mti_readers ti ! fst x) = v \<and> bound \<le> v \<and> scan_ok sc (fst x) v | _ \<Rightarrow> True)"

definition apart :: "(nat \<Rightarrow> (nat \<times> reader_pc) option) \<Rightarrow> bool" where
  "apart rs \<longleftrightarrow> (\<forall>t u x y. rs t = Some x \<and> rs u = Some y \<and> fst x = fst y \<longrightarrow> t = u)"

definition unused :: "(nat \<Rightarrow> (nat \<times> reader_pc) option) \<Rightarrow> nat \<Rightarrow> bool" where
  "unused rs j \<longleftrightarrow> (\<forall>t x. rs t = Some x \<longrightarrow> fst x \<noteq> j)"

definition free_past :: "MDB_txninfo \<Rightarrow> bool" where
  "free_past ti \<longleftrightarrow> (\<forall>i. mti_numreaders ti \<le> i \<and> i < length (mti_readers ti) \<longrightarrow> mr_pid (mti_readers ti ! i) = 0)"

text \<open>The table is in bounds, its slots past \<open>mti_numreaders\<close> are free, the bound is at most the newest transaction, and the readers have their slots.\<close>

definition table_inv :: "u64 \<Rightarrow> MDB_txninfo \<Rightarrow> (nat \<Rightarrow> (nat \<times> reader_pc) option) \<Rightarrow> scan option \<Rightarrow> bool" where
  "table_inv bound ti rs sc \<longleftrightarrow> mti_numreaders ti \<le> length (mti_readers ti) \<and> bound \<le> mti_txnid ti \<and> scan_bound sc ti \<and> apart rs \<and>
     free_past ti \<and>
     (\<forall>t x. rs t = Some x \<longrightarrow> reader_ok bound ti sc x)"

definition mvcc_ok :: "world \<Rightarrow> (nat \<Rightarrow> (nat \<times> reader_pc) option) \<Rightarrow> scan option \<Rightarrow> bool" where
  "mvcc_ok w rs sc \<longleftrightarrow> (\<exists>ti. me_txns (w_env w) = Some ti \<and> table_inv (me_pgoldest (w_env w)) ti rs sc)"

definition mvcc_inv :: "mvcc \<Rightarrow> bool" where
  "mvcc_inv s \<longleftrightarrow> mvcc_ok (mv_world s) (mv_readers s) (mv_scan s)"

lemma mvcc_okE:
  assumes "mvcc_ok w rs sc" and "me_txns (w_env w) = Some ti"
  shows "table_inv (me_pgoldest (w_env w)) ti rs sc"
  using assms by (auto simp: mvcc_ok_def)

lemma mvcc_ok_env:
  "me_txns (w_env w') = me_txns (w_env w) \<Longrightarrow> me_pgoldest (w_env w') = me_pgoldest (w_env w) \<Longrightarrow> mvcc_ok w' rs sc = mvcc_ok w rs sc"
  by (simp add: mvcc_ok_def)

lemma table_inv_less: "table_inv bound ti rs sc \<Longrightarrow> (\<And>t x. rs' t = Some x \<Longrightarrow> rs t = Some x) \<Longrightarrow> table_inv bound ti rs' sc"
  unfolding table_inv_def apart_def by blast

lemma table_inv_drop: "table_inv bound ti rs sc \<Longrightarrow> table_inv bound ti (rs(t := None)) sc"
  by (erule table_inv_less) (simp split: if_splits)

lemma table_inv_add:
  assumes "table_inv bound ti rs sc" and "unused rs r" and "reader_ok bound ti sc (r, pc)"
  shows "table_inv bound ti (rs(t \<mapsto> (r, pc))) sc"
  using assms unfolding table_inv_def apart_def unused_def by auto

lemma table_inv_slot:
  assumes "table_inv bound ti rs sc" and "unused rs j" and "j < mti_numreaders ti \<or> mr_pid y = 0"
  shows "table_inv bound (ti\<lparr>mti_readers := (mti_readers ti)[j := y]\<rparr>) rs sc"
proof -
  have "scan_bound sc (ti\<lparr>mti_readers := (mti_readers ti)[j := y]\<rparr>) = scan_bound sc ti" by (cases "(sc, ti)" rule: scan_bound.cases) simp_all
  moreover have "fst x \<noteq> j \<Longrightarrow> reader_ok bound (ti\<lparr>mti_readers := (mti_readers ti)[j := y]\<rparr>) sc x = reader_ok bound ti sc x" for x
    by (cases "snd x") (simp_all add: reader_ok_def)
  moreover have "free_past ti \<Longrightarrow> free_past (ti\<lparr>mti_readers := (mti_readers ti)[j := y]\<rparr>)"
    using assms(3) unfolding free_past_def by simp (metis leD nth_list_update_eq nth_list_update_neq)
  ultimately show ?thesis using assms(1,2) unfolding table_inv_def unused_def by simp (metis fst_conv)
qed

lemma table_inv_numreaders:
  assumes "table_inv bound ti rs sc" and "mti_numreaders ti \<le> n" and "n \<le> length (mti_readers ti)"
  shows "table_inv bound (ti\<lparr>mti_numreaders := n\<rparr>) rs sc"
proof -
  have "scan_bound sc ti \<Longrightarrow> scan_bound sc (ti\<lparr>mti_numreaders := n\<rparr>)" using assms(2) by (cases "(sc, ti)" rule: scan_bound.cases) simp_all
  moreover have "reader_ok bound ti sc x \<Longrightarrow> reader_ok bound (ti\<lparr>mti_numreaders := n\<rparr>) sc x" for x
    using assms(2) by (cases "snd x") (auto simp: reader_ok_def)
  moreover have "free_past ti \<Longrightarrow> free_past (ti\<lparr>mti_numreaders := n\<rparr>)" using assms(2) by (simp add: free_past_def)
  ultimately show ?thesis using assms unfolding table_inv_def by auto
qed

lemma unused_upd: "apart rs \<Longrightarrow> rs t = Some (r, pc) \<Longrightarrow> unused (rs(t := None)) r"
  unfolding apart_def unused_def by (metis fst_conv fun_upd_apply option.discI)


subsection \<open>Taking a slot\<close>

lemma upd_reader_Some:
  assumes "upd_reader i f w = Some w'" and "me_txns (w_env w) = Some ti"
  shows "i < length (mti_readers ti)" and "me_txns (w_env w') = Some (ti\<lparr>mti_readers := (mti_readers ti)[i := f (mti_readers ti ! i)]\<rparr>)"
    and "me_pgoldest (w_env w') = me_pgoldest (w_env w)" and "me_pid (w_env w') = me_pid (w_env w)"
  using assms by (auto simp: upd_reader_def array_simps split: Option.bind_splits)

lemma upd_reader_ok:
  assumes "mvcc_ok w rs sc" and "upd_reader j f w = Some w'" and "unused rs j"
    and "\<And>ti. me_txns (w_env w) = Some ti \<Longrightarrow> j < mti_numreaders ti \<or> mr_pid (f (mti_readers ti ! j)) = 0"
  shows "mvcc_ok w' rs sc"
proof -
  obtain ti where ti: "me_txns (w_env w) = Some ti" "table_inv (me_pgoldest (w_env w)) ti rs sc" using assms(1) by (auto simp: mvcc_ok_def)
  show ?thesis using upd_reader_Some[OF assms(2) ti(1)] table_inv_slot[OF ti(2) assms(3) assms(4)[OF ti(1)]] by (auto simp: mvcc_ok_def)
qed

lemma free_slot_bounds:
  "free_slot rs i k = Some j \<Longrightarrow> i \<le> j \<and> j \<le> i + k \<and> (j < i + k \<longrightarrow> j < length rs \<and> mr_pid (rs ! j) = 0)"
proof (induction k arbitrary: i)
  case (Suc k)
  show ?case
  proof (cases "i < length rs \<and> mr_pid (rs ! i) = 0")
    case True
    then show ?thesis using Suc.prems by simp
  next
    case False
    then have "free_slot rs (Suc i) k = Some j" using Suc.prems by (auto simp: array_simps split: if_splits Option.bind_splits)
    then show ?thesis using Suc.IH by fastforce
  qed
qed simp

lemma free_slot_unused:
  assumes "table_inv bound ti rs sc" and "free_slot (mti_readers ti) 0 (mti_numreaders ti) = Some j"
  shows "unused rs j"
proof -
  have j: "j = mti_numreaders ti \<or> mr_pid (mti_readers ti ! j) = 0" using free_slot_bounds[OF assms(2)] by auto
  have "fst x \<noteq> j" if "rs t = Some x" for t x
    using that j assms(1) unfolding table_inv_def reader_ok_def by (metis less_irrefl)
  then show ?thesis by (simp add: unused_def)
qed

text \<open>What a call may do to the table besides writing a slot that nobody uses.\<close>

definition slot_taken :: "world \<Rightarrow> nat \<Rightarrow> bool" where
  "slot_taken w j \<longleftrightarrow> (\<exists>ti. me_txns (w_env w) = Some ti \<and> j < mti_numreaders ti \<and> j < length (mti_readers ti) \<and> mr_pid (mti_readers ti ! j) \<noteq> 0)"

lemma reset_slot_ok:
  assumes ok: "mvcc_ok w rs sc" and ti: "me_txns (w_env w) = Some ti" and j: "j \<le> mti_numreaders ti" and free: "unused rs j"
    and run: "reset_slot w j (mti_numreaders ti) = Some w2"
  shows "mvcc_ok w2 rs sc \<and> (me_pid (w_env w) \<noteq> 0 \<longrightarrow> slot_taken w2 j)"
proof -
  define n where "n = (if j = mti_numreaders ti then mti_numreaders ti + 1 else mti_numreaders ti)"
  define upd where "upd w = upd_env (\<lambda>e. e\<lparr>me_txns := map_option (\<lambda>ti'. ti'\<lparr>mti_numreaders := n\<rparr>) (me_txns e), me_close_readers := n\<rparr>) w" for w
  obtain w1 where w1: "upd_reader j (\<lambda>r. r\<lparr>mr_pid := 0, mr_txnid := - 1, mr_tid := w_tid w\<rparr>) w = Some w1"
    and w2: "upd_reader j (\<lambda>r. r\<lparr>mr_pid := me_pid (w_env w1)\<rparr>) (upd w1) = Some w2"
    using run unfolding reset_slot_def n_def upd_def Let_def bind_eq_Some_conv by auto
  note u1 = upd_reader_Some[OF w1 ti]
  let ?ti = "ti\<lparr>mti_readers := (mti_readers ti)[j := (mti_readers ti ! j)\<lparr>mr_pid := 0, mr_txnid := - 1, mr_tid := w_tid w\<rparr>]\<rparr>"
  have ok1: "mvcc_ok w1 rs sc" by (rule upd_reader_ok[OF ok w1 free]) simp
  have inv1: "table_inv (me_pgoldest (w_env w1)) ?ti rs sc" by (rule mvcc_okE[OF ok1 u1(2)])
  have n: "mti_numreaders ?ti \<le> n" "n \<le> length (mti_readers ?ti)" "j < n" using inv1 u1(1) j by (auto simp: n_def table_inv_def)
  have env: "me_txns (w_env (upd w1)) = Some (?ti\<lparr>mti_numreaders := n\<rparr>)" "me_pgoldest (w_env (upd w1)) = me_pgoldest (w_env w1)"
    using u1(2) by (simp_all add: upd_def)
  have "mvcc_ok (upd w1) rs sc" using env table_inv_numreaders[OF inv1 n(1,2)] by (simp add: mvcc_ok_def)
  then have "mvcc_ok w2 rs sc" using upd_reader_ok[OF _ w2 free] env(1) n(3) by simp
  moreover have "slot_taken w2 j" if "me_pid (w_env w) \<noteq> 0"
    using upd_reader_Some(1,2)[OF w2 env(1)] that u1(4) n(3) by (simp add: slot_taken_def)
  ultimately show ?thesis by blast
qed

lemma upd_reader_tlsrc: "upd_reader i f w = Some w' \<Longrightarrow> w_tlsrc w' = w_tlsrc w"
  by (auto simp: upd_reader_def upd_env_def bind_eq_Some_conv)

lemma store_slot_ok:
  assumes "mvcc_ok w rs sc" and "unused rs i" and "store_slot w i = Some (rc, j, w')"
  shows "mvcc_ok w' rs sc \<and> (rc = 0 \<longrightarrow> j = i \<and> (slot_taken w i \<longrightarrow> slot_taken w' i))"
proof -
  consider "w_env w' = w_env w" "rc = 0" "j = i" | "upd_reader i (\<lambda>r. r\<lparr>mr_pid := 0\<rparr>) w = Some w'" "rc \<noteq> 0"
    using assms(3) by (auto simp: store_slot_def bind_eq_Some_conv upd_reader_tlsrc split: if_splits)
  then show ?thesis
  proof cases
    case 1
    then show ?thesis using assms(1) mvcc_ok_env[of w' w] by (simp add: slot_taken_def)
  next
    case 2
    then show ?thesis using upd_reader_ok[OF assms(1) 2(1) assms(2)] by auto
  qed
qed

lemma claim_slot_ok:
  assumes ok: "mvcc_ok w rs sc" and run: "claim_slot w = Some (rc, j, w')"
  shows "mvcc_ok w' rs sc \<and> (rc = 0 \<and> me_pid (w_env w) \<noteq> 0 \<longrightarrow> unused rs j \<and> slot_taken w' j)"
proof -
  let ?w = "upd_env (\<lambda>e. e\<lparr>me_live_reader := True\<rparr>) w"
  have pid: "me_pid (w_env ?w) = me_pid (w_env w)" by simp
  have ok': "mvcc_ok ?w rs sc" using ok by (simp add: mvcc_ok_def)
  consider "w' = w" "rc \<noteq> 0" | "w' = ?w" "rc \<noteq> 0" | "take_slot ?w = Some (rc, j, w')"
    using run unfolding claim_slot_def Let_def by (simp only: split: if_split_asm) (simp_all only: option.inject prod.inject, blast+)
  then show ?thesis
  proof cases
    case 3
    obtain ti i where ti: "me_txns (w_env ?w) = Some ti" and i: "free_slot (mti_readers ti) 0 (mti_numreaders ti) = Some i"
      using 3 by (auto simp: take_slot_def bind_eq_Some_conv)
    have free: "unused rs i" by (rule free_slot_unused[OF mvcc_okE[OF ok' ti] i])
    have le: "i \<le> mti_numreaders ti" using free_slot_bounds[OF i] by simp
    show ?thesis
    proof (cases "i = me_maxreaders (w_env ?w)")
      case True
      then have "w' = ?w" "rc = MDB_READERS_FULL" using 3 ti i by (simp_all add: take_slot_def)
      then show ?thesis using ok' by simp
    next
      case False
      then obtain w1 where w1: "reset_slot ?w i (mti_numreaders ti) = Some w1" "store_slot w1 i = Some (rc, j, w')"
        using 3 ti i by (auto simp: take_slot_def bind_eq_Some_conv)
      note r = reset_slot_ok[OF ok' ti le free w1(1)]
      show ?thesis using r store_slot_ok[OF conjunct1[OF r] free w1(2)] free pid by auto
    qed
  qed (use ok ok' in simp_all)
qed

lemma reader_slot_ok:
  assumes ok: "mvcc_ok w rs sc" and ti: "me_txns (w_env w) = Some ti" and run: "reader_slot w t ti = Some (rc, new, r, w')"
  shows "mvcc_ok w' rs sc \<and> (rc = 0 \<and> me_pid (w_env w) \<noteq> 0 \<and> kept_slot w t = None \<longrightarrow> unused rs r \<and> slot_taken w' r) \<and>
    (rc = 0 \<and> kept_slot w t \<noteq> None \<longrightarrow> w' = w \<and> r < length (mti_readers ti) \<and> mr_pid (mti_readers ti ! r) = me_pid (w_env w))"
proof (cases "kept_slot w t")
  case None
  then obtain rc' j where "claim_slot w = Some (rc', j, w')" "rc' = rc" "j = r" using run by (auto simp: reader_slot_def bind_eq_Some_conv)
  then show ?thesis using claim_slot_ok[OF ok, of rc r w'] None by auto
next
  case (Some k)
  then show ?thesis using run ok by (auto simp: reader_slot_def bind_eq_Some_conv array_simps split: if_splits)
qed

subsection \<open>The steps keep the invariant\<close>

fun idle :: "reader_pc \<Rightarrow> bool" where
  "idle (R_active v) = False"
| "idle _ = True"

lemma reader_ok_idle: "idle pc \<Longrightarrow> reader_ok bound ti sc (r, pc) \<longleftrightarrow> r < mti_numreaders ti \<and> mr_pid (mti_readers ti ! r) \<noteq> 0"
  by (cases pc) (simp_all add: reader_ok_def)

lemma table_inv_reader:
  assumes "table_inv bound ti rs sc" and "rs t = Some (r, pc)"
  shows "reader_ok bound ti sc (r, pc)" and "r < mti_numreaders ti" and "mr_pid (mti_readers ti ! r) \<noteq> 0"
proof -
  show "reader_ok bound ti sc (r, pc)" using assms unfolding table_inv_def by blast
  then show "r < mti_numreaders ti" "mr_pid (mti_readers ti ! r) \<noteq> 0" by (simp_all add: reader_ok_def)
qed

lemma mvcc_ok_drop:
  assumes "mvcc_ok w rs sc" and "rs t = Some (r, pc)"
  shows "mvcc_ok w (rs(t := None)) sc" and "unused (rs(t := None)) r"
proof -
  obtain ti where ti: "me_txns (w_env w) = Some ti" "table_inv (me_pgoldest (w_env w)) ti rs sc" using assms(1) by (auto simp: mvcc_ok_def)
  then show "mvcc_ok w (rs(t := None)) sc" using table_inv_drop[OF ti(2)] by (simp add: mvcc_ok_def)
  show "unused (rs(t := None)) r" using unused_upd[of rs t r pc] assms(2) ti(2) by (simp add: table_inv_def)
qed

lemma mvcc_ok_add:
  assumes "mvcc_ok w rs sc" and "me_txns (w_env w) = Some ti" and "unused (rs(t := None)) r" and "reader_ok (me_pgoldest (w_env w)) ti sc (r, pc)"
  shows "mvcc_ok w (rs(t \<mapsto> (r, pc))) sc"
proof -
  have "table_inv (me_pgoldest (w_env w)) ti (rs(t := None)) sc"
    by (rule table_inv_drop[OF mvcc_okE[OF assms(1,2)]])
  then show ?thesis using table_inv_add[OF _ assms(3,4), of t] assms(2) by (simp add: mvcc_ok_def)
qed

lemma mvcc_ok_idle:
  assumes ok: "mvcc_ok w rs sc" and t: "rs t = Some (r, pc)" and "idle pc'"
  shows "mvcc_ok w (rs(t \<mapsto> (r, pc'))) sc"
proof -
  obtain ti where ti: "me_txns (w_env w) = Some ti" "table_inv (me_pgoldest (w_env w)) ti rs sc" using ok by (auto simp: mvcc_ok_def)
  then have "reader_ok (me_pgoldest (w_env w)) ti sc (r, pc')" using t table_inv_reader(2,3)[of _ ti rs sc t r pc] reader_ok_idle[OF assms(3)] by blast
  then show ?thesis using mvcc_ok_add[OF ok ti(1) mvcc_ok_drop(2)[of w rs sc t r pc, OF ok t]] by blast
qed

text \<open>A reader writes its own slot, without giving it up.\<close>

lemma own_slot_ok:
  assumes ok: "mvcc_ok w rs sc" and t: "rs t = Some (r, pc)" and run: "upd_reader r f w = Some w'" and "\<And>x. mr_pid (f x) = mr_pid x" and "idle pc'"
  shows "mvcc_ok w' (rs(t \<mapsto> (r, pc'))) sc"
proof -
  obtain ti where ti: "me_txns (w_env w) = Some ti" "table_inv (me_pgoldest (w_env w)) ti rs sc" using ok by (auto simp: mvcc_ok_def)
  have slot: "r < mti_numreaders ti" "mr_pid (mti_readers ti ! r) \<noteq> 0" using table_inv_reader(2,3)[of _ ti rs sc t r pc] ti(2) t by blast+
  note drop = mvcc_ok_drop[of w rs sc t r pc, OF ok t] and u = upd_reader_Some[OF run ti(1)]
  have "mvcc_ok w' (rs(t := None)) sc" by (rule upd_reader_ok[OF drop(1) run drop(2)]) (use ti(1) slot in simp)
  then show ?thesis using mvcc_ok_add[OF _ u(2), of "rs(t := None)" sc t r pc'] drop(2) reader_ok_idle[OF assms(5)] slot u(1) assms(4) by simp
qed

lemma start_ok:
  assumes ok: "mvcc_ok w rs sc" and t: "rs t = Some (r, pc)" and cur: "snapshot_current r w = Some True" and run: "adopt_snapshot t r w = Some (i, w')"
  shows "mvcc_ok w' (rs(t \<mapsto> (r, R_active (mt_txnid (txn w' t))))) sc"
proof -
  obtain ti where ti: "me_txns (w_env w) = Some ti" "table_inv (me_pgoldest (w_env w)) ti rs sc" using ok by (auto simp: mvcc_ok_def)
  have slot: "reader_ok (me_pgoldest (w_env w)) ti sc (r, pc)" using table_inv_reader(1)[of _ ti rs sc t r pc] ti(2) t by blast
  have v: "mr_txnid (mti_readers ti ! r) = mti_txnid ti" using cur ti(1) by (auto simp: snapshot_current_def bind_eq_Some_conv array_simps split: if_splits)
  have w': "w_env w' = w_env w" "mt_txnid (txn w' t) = mr_txnid (mti_readers ti ! r)"
    using run ti(1) by (auto simp: adopt_snapshot_def bind_eq_Some_conv array_simps upd_txn_def txn_def split: if_splits)
  have "scan_ok sc r (mti_txnid ti)" using ti(2) by (cases "(sc, ti)" rule: scan_bound.cases) (auto simp: table_inv_def)
  then have "reader_ok (me_pgoldest (w_env w')) ti sc (r, R_active (mt_txnid (txn w' t)))"
    using slot ti(2) by (simp add: reader_ok_def w' v table_inv_def)
  moreover have "mvcc_ok w' rs sc" using ok by (simp add: mvcc_ok_def w'(1))
  ultimately show ?thesis using mvcc_ok_add[of w' rs sc ti t r] ti(1) mvcc_ok_drop(2)[of w rs sc t r pc, OF ok t] by (simp add: w'(1))
qed

lemma end_reader_ok:
  assumes ok: "mvcc_ok w rs sc" and t: "rs t = Some (r, pc)" and own: "mt_reader (txn w t) = Some r" and run: "end_reader w t mode = Some w'"
  shows "mvcc_ok w' (rs(t := map_option (\<lambda>r. (r, R_own)) (mt_reader (txn w' t)))) sc"
proof -
  note drop = mvcc_ok_drop[of w rs sc t r pc, OF ok t]
  obtain w2 where w2: "upd_reader r (\<lambda>x. x\<lparr>mr_txnid := - 1\<rparr>) w = Some w2"
    and cont: "w_env w' = w_env w2 \<and> mt_reader (txn w' t) = None \<or> w_env w' = w_env w2 \<and> mt_reader (txn w' t) = mt_reader (txn w2 t) \<or>
      (\<exists>w3. upd_reader r (\<lambda>x. x\<lparr>mr_pid := 0\<rparr>) w2 = Some w3 \<and> w_env w' = w_env w3 \<and> mt_reader (txn w' t) = None)"
    using run own by (auto simp: end_reader_def bind_eq_Some_conv upd_txn_def txn_def split: if_splits)
  have w2t: "mt_reader (txn w2 t) = Some r" using w2 own by (auto simp: upd_reader_def bind_eq_Some_conv upd_env_def txn_def)
  have own2: "mvcc_ok w2 (rs(t \<mapsto> (r, R_own))) sc" by (rule own_slot_ok[of w rs sc t r pc, OF ok t w2]) simp_all
  have none: "mvcc_ok w2 (rs(t := None)) sc" using mvcc_ok_drop(1)[OF own2, of t r R_own] by simp
  show ?thesis using cont
  proof (elim disjE exE conjE)
    fix w3 assume w3: "upd_reader r (\<lambda>x. x\<lparr>mr_pid := 0\<rparr>) w2 = Some w3" "w_env w' = w_env w3" "mt_reader (txn w' t) = None"
    have "mvcc_ok w3 (rs(t := None)) sc" by (rule upd_reader_ok[OF none w3(1) drop(2)]) simp
    then show ?thesis using w3 by (simp add: mvcc_ok_def)
  qed (use own2 none w2t in \<open>simp_all add: mvcc_ok_def\<close>)
qed

text \<open>The writer's scan and its commit.\<close>

lemma scan_keeps_inv:
  assumes "table_inv bound ti rs sc" and "scan_bound sc' ti"
    and "\<And>t r v. rs t = Some (r, R_active v) \<Longrightarrow> r < mti_numreaders ti \<Longrightarrow> mr_pid (mti_readers ti ! r) \<noteq> 0 \<Longrightarrow> mr_txnid (mti_readers ti ! r) = v \<Longrightarrow>
       scan_ok sc r v \<Longrightarrow> scan_ok sc' r v"
  shows "table_inv bound ti rs sc'"
proof -
  have "reader_ok bound ti sc' x" if "rs t = Some x" for t x
  proof (cases x)
    case (Pair r pc)
    note ok = table_inv_reader[OF assms(1) that[unfolded Pair]]
    show ?thesis
    proof (cases pc)
      case (R_active v)
      then show ?thesis using ok assms(3)[of t r v] that Pair by (simp add: reader_ok_def)
    qed (use ok Pair in \<open>simp_all add: reader_ok_def\<close>)
  qed
  then show ?thesis using assms(1,2) unfolding table_inv_def by blast
qed

lemma scan_done_inv:
  assumes inv: "table_inv bound ti rs (Some (Scan 0 old))"
  shows "table_inv old ti rs None"
proof -
  have "reader_ok old ti None x" if "rs t = Some x" for t x
  proof (cases x)
    case (Pair r pc)
    note ok = table_inv_reader[OF inv that[unfolded Pair]]
    show ?thesis using ok Pair by (cases pc) (simp_all add: reader_ok_def)
  qed
  then show ?thesis using inv unfolding table_inv_def by simp
qed

lemma write_meta_env:
  assumes "mdb_env_write_meta w t = (rc, w')"
  shows "w_env w' = w_env (if rc = MDB_SUCCESS then set_mti_txnid (mt_txnid (txn w t)) w else set_fatal w)"
  using assms
  by (auto simp: mdb_env_write_meta_def meta_pwrite_def Let_def file_sync_def pwrite_def set_fatal_def set_mti_txnid_def upd_env_def upd_mem_def txn_def
      case_prod_beta split: if_splits)

lemma commit_ok:
  assumes ok: "mvcc_ok w rs None" and ti: "me_txns (w_env w) = Some ti" and t: "mt_txnid (txn w t) = mti_txnid ti + 1" "mti_txnid ti \<noteq> - 1"
    and run: "mdb_env_write_meta w t = (rc, w')"
  shows "mvcc_ok w' rs None"
proof -
  have "mti_txnid ti \<le> mti_txnid ti + 1" using t(2) unatSuc[of "mti_txnid ti"] by (simp add: word_le_nat_alt add.commute add_eq_0_iff)
  moreover have "reader_ok b (ti\<lparr>mti_txnid := v\<rparr>) None x = reader_ok b ti None x" for b v x by (cases "snd x") (simp_all add: reader_ok_def)
  ultimately have "table_inv (me_pgoldest (w_env w)) (ti\<lparr>mti_txnid := mti_txnid ti + 1\<rparr>) rs None"
    using mvcc_okE[OF ok ti] unfolding table_inv_def by (simp add: free_past_def) (metis order_trans)
  then have "mvcc_ok (set_mti_txnid (mt_txnid (txn w t)) w) rs None" using ti t(1) by (simp add: mvcc_ok_def set_mti_txnid_def)
  moreover have "mvcc_ok (set_fatal w) rs None" using ok by (simp add: mvcc_ok_def set_fatal_def)
  ultimately show ?thesis using write_meta_env[OF run] unfolding mvcc_ok_def by (cases "rc = MDB_SUCCESS") simp_all
qed

lemma dead_freed_ok:
  assumes ok: "mvcc_ok w rs sc" and ti: "me_txns (w_env w) = Some ti" and alloc: "w_ok w (4 * (mti_numreaders ti + 1))"
    and run: "mdb_reader_check 0 consistent w = Some (rc, n, w')"
  shows "mvcc_ok w' (\<lambda>t. case rs t of None \<Rightarrow> None | Some x \<Rightarrow> if dead w (mr_pid (mti_readers ti ! fst x)) then None else Some x) sc"
proof -
  let ?n = "mti_numreaders ti" and ?rs = "mti_readers ti"
  define ti' where "ti' = ti\<lparr>mti_readers := map (release (dead w)) (take ?n ?rs) @ drop ?n ?rs\<rparr>"
  define live where "live t = (case rs t of None \<Rightarrow> None | Some x \<Rightarrow> if dead w (mr_pid (?rs ! fst x)) then None else Some x)" for t
  note inv = mvcc_okE[OF ok ti]
  have len: "?n \<le> length ?rs" using inv by (simp add: table_inv_def)
  have w': "w' = set_slots ti (map (release (dead w)) (take ?n ?rs) @ drop ?n ?rs) w"
    using reader_check_run[OF ti, of "take ?n ?rs" "drop ?n ?rs" consistent] run alloc len by (simp add: min_def)
  have live: "rs t = Some x" "\<not> dead w (mr_pid (?rs ! fst x))" if "live t = Some x" for t x
    using that by (auto simp: live_def split: option.splits if_splits)
  have inv': "table_inv (me_pgoldest (w_env w)) ti live sc" by (rule table_inv_less[OF inv]) (rule live)
  have "reader_ok b ti' sc x" if "reader_ok b ti sc x" "\<not> dead w (mr_pid (?rs ! fst x))" for b x
    using that len by (cases "snd x") (auto simp: reader_ok_def nth_append release_def ti'_def)
  then have "reader_ok (me_pgoldest (w_env w)) ti' sc x" if "live t = Some x" for t x
    using inv' live(2)[OF that] that unfolding table_inv_def by blast
  moreover have "free_past ti \<Longrightarrow> free_past ti'" using len by (auto simp: free_past_def nth_append ti'_def)
  moreover have "scan_bound sc ti' = scan_bound sc ti" by (cases "(sc, ti)" rule: scan_bound.cases) (simp_all add: ti'_def)
  moreover have "mti_numreaders ti' \<le> length (mti_readers ti')" "mti_txnid ti' = mti_txnid ti" using len by (simp_all add: ti'_def)
  ultimately have "table_inv (me_pgoldest (w_env w)) ti' live sc" using inv' unfolding table_inv_def by simp
  then have "mvcc_ok w' live sc" using w' by (simp add: mvcc_ok_def set_slots_def ti'_def)
  then show ?thesis unfolding live_def .
qed

lemma mvcc_step_inv: "mvcc_step s s' \<Longrightarrow> mvcc_inv s \<Longrightarrow> mvcc_inv s'"
proof (induction rule: mvcc_step.induct)
  case (elsewhere w' s)
  then show ?case by (simp add: mvcc_inv_def mvcc_ok_def)
next
  case (reader_takes_slot s ti t r new w')
  let ?w = "mv_world s" and ?rs = "mv_readers s"
  have ok: "mvcc_ok ?w ?rs (mv_scan s)" using reader_takes_slot.prems by (simp add: mvcc_inv_def)
  note r = reader_slot_ok[OF ok reader_takes_slot(1,5)]
  have ok': "mvcc_ok w' ?rs (mv_scan s)" using r by blast
  have "unused (?rs(t := None)) r \<and> slot_taken w' r"
  proof (cases "kept_slot ?w t = None")
    case True
    then have "unused ?rs r \<and> slot_taken w' r" using r reader_takes_slot(2) by blast
    then show ?thesis by (simp add: unused_def)
  next
    case False
    then have k: "w' = ?w" "r < length (mti_readers ti)" "mr_pid (mti_readers ti ! r) \<noteq> 0" using r reader_takes_slot(2) by simp_all
    have "free_past ti" using mvcc_okE[OF ok reader_takes_slot(1)] by (simp add: table_inv_def)
    then have "r < mti_numreaders ti" using k(2,3) unfolding free_past_def by (meson not_le)
    moreover have "unused (?rs(t := None)) r" using False reader_takes_slot(4) unfolding unused_def by (metis fun_upd_apply option.discI)
    ultimately show ?thesis using k reader_takes_slot(1) by (simp add: slot_taken_def)
  qed
  then have free: "unused (?rs(t := None)) r" and taken: "slot_taken w' r" by blast+
  then obtain ti' where "me_txns (w_env w') = Some ti'" "r < mti_numreaders ti'" "mr_pid (mti_readers ti' ! r) \<noteq> 0" by (auto simp: slot_taken_def)
  then show ?case using mvcc_ok_add[OF ok' _ free, of ti' R_load] by (simp add: mvcc_inv_def reader_ok_idle)
next
  case (reader_fails s ti t rc new r w')
  then show ?case using reader_slot_ok[OF _ reader_fails(1,2)] by (simp add: mvcc_inv_def)
next
  case (reader_loads s t r v)
  then show ?case using mvcc_ok_idle[of "mv_world s" "mv_readers s"] by (simp add: mvcc_inv_def)
next
  case (reader_stores s t r v w')
  then show ?case
    using own_slot_ok[of "mv_world s" "mv_readers s" "mv_scan s" t r "R_store v" _ w' R_check] by (simp add: mvcc_inv_def store_snapshot_def)
next
  case (reader_retries s t r)
  then show ?case using mvcc_ok_idle[of "mv_world s" "mv_readers s"] by (simp add: mvcc_inv_def)
next
  case (reader_starts s t r i w')
  then show ?case using start_ok[of "mv_world s" "mv_readers s" "mv_scan s" t r R_check i w'] by (simp add: mvcc_inv_def)
next
  case (reader_ends s t r pc v mode w')
  have "mvcc_ok (mv_world s) (mv_readers s) (mv_scan s)" using reader_ends.prems by (simp only: mvcc_inv_def)
  from end_reader_ok[of "mv_world s" "mv_readers s" "mv_scan s" t r pc mode w', OF this reader_ends(1,3,4)] show ?case
    by (simp add: mvcc_inv_def)
next
  case (scan_begins s ti t)
  have inv: "table_inv (me_pgoldest (w_env (mv_world s))) ti (mv_readers s) (mv_scan s)"
    by (rule mvcc_okE[OF _ scan_begins(2)]) (use scan_begins.prems in \<open>simp only: mvcc_inv_def\<close>)
  have "table_inv (me_pgoldest (w_env (mv_world s))) ti (mv_readers s) (Some (Scan (mti_numreaders ti) (mti_txnid ti)))"
    by (rule scan_keeps_inv[OF inv]) simp_all
  then show ?case using scan_begins(2,3) by (simp add: mvcc_inv_def mvcc_ok_def)
next
  case (scan_pid s i old ti x)
  then have inv: "table_inv (me_pgoldest (w_env (mv_world s))) ti (mv_readers s) (Some (Scan (Suc i) old))"
    using mvcc_okE[of "mv_world s" "mv_readers s" "mv_scan s" ti] by (simp add: mvcc_inv_def)
  have x: "x = mti_readers ti ! i" using scan_pid(3) by (auto simp: array_simps split: if_splits)
  have "table_inv (me_pgoldest (w_env (mv_world s))) ti (mv_readers s) (Some (if mr_pid x \<noteq> 0 then Scan_txnid i old else Scan i old))"
    by (rule scan_keeps_inv[OF inv]) (use inv x in \<open>auto simp: table_inv_def less_Suc_eq\<close>)
  then show ?case using scan_pid by (simp add: mvcc_inv_def mvcc_ok_def)
next
  case (scan_txnid s i old ti x)
  then have inv: "table_inv (me_pgoldest (w_env (mv_world s))) ti (mv_readers s) (Some (Scan_txnid i old))"
    using mvcc_okE[of "mv_world s" "mv_readers s" "mv_scan s" ti] by (simp add: mvcc_inv_def)
  have x: "x = mti_readers ti ! i" using scan_txnid(3) by (auto simp: array_simps split: if_splits)
  have "table_inv (me_pgoldest (w_env (mv_world s))) ti (mv_readers s) (Some (Scan i (if old > mr_txnid x then mr_txnid x else old)))"
    by (rule scan_keeps_inv[OF inv]) (use inv x in \<open>auto simp: table_inv_def le_less\<close>)
  then show ?case using scan_txnid by (simp add: mvcc_inv_def mvcc_ok_def)
next
  case (scan_ends s old)
  then show ?case using scan_done_inv by (auto simp: mvcc_inv_def mvcc_ok_def)
next
  case (writer_commits s ti t rc w')
  then show ?case using commit_ok[of "mv_world s" "mv_readers s" ti t rc w'] by (simp add: mvcc_inv_def)
next
  case (dead_freed s ti consistent rc n w')
  then show ?case using dead_freed_ok[of "mv_world s" "mv_readers s" "mv_scan s" ti consistent rc n w'] by (simp add: mvcc_inv_def)
qed

lemma mvcc_reachable_inv: "mvcc_step\<^sup>*\<^sup>* s0 s \<Longrightarrow> mvcc_inv s0 \<Longrightarrow> mvcc_inv s"
  by (induction rule: rtranclp_induct) (auto intro: mvcc_step_inv)

section \<open>The calls as runs of steps\<close>

text \<open>A call of \<open>renew_reader\<close> that nobody interrupts is a run of the reader's steps: its loop ends at once.\<close>

lemma snapshot_loop_once:
  assumes "snapshot_loop r w = Some w'"
  shows "\<exists>v. load_txnid w = Some v \<and> store_snapshot r v w = Some w' \<and> snapshot_current r w' = Some True"
proof -
  obtain v w1 where v: "load_txnid w = Some v" "store_snapshot r v w = Some w1"
    using assms by (subst (asm) snapshot_loop.simps) (auto simp: bind_eq_Some_conv)
  obtain ti where ti: "me_txns (w_env w) = Some ti" "mti_txnid ti = v" using v(1) by (auto simp: load_txnid_def)
  note u = upd_reader_Some[OF v(2)[unfolded store_snapshot_def] ti(1)]
  have cur: "snapshot_current r w1 = Some True" using u(1,2) ti(2) by (simp add: snapshot_current_def)
  have "w1 = w'" using assms v cur by (subst (asm) snapshot_loop.simps) simp
  then show ?thesis using v cur by blast
qed

lemma renew_reader_steps:
  assumes run: "renew_reader (mv_world s) t = Some (0, new, i, w')" and ti: "me_txns (w_env (mv_world s)) = Some ti" and pid: "me_pid (w_env (mv_world s)) \<noteq> 0"
    and free: "mv_readers s t = None" and own: "\<forall>r. kept_slot (mv_world s) t = Some r \<longrightarrow> unused (mv_readers s) r"
  shows "\<exists>r. mvcc_step\<^sup>*\<^sup>* s (s\<lparr>mv_world := w', mv_readers := (mv_readers s)(t \<mapsto> (r, R_active (mt_txnid (txn w' t))))\<rparr>)"
proof -
  obtain r w1 w2 where r: "reader_slot (mv_world s) t ti = Some (0, new, r, w1)" and loop: "snapshot_loop r w1 = Some w2" and adopt: "adopt_snapshot t r w2 = Some (i, w')"
    using run ti by (auto simp: renew_reader_def bind_eq_Some_conv split: if_splits)
  obtain v where v: "load_txnid w1 = Some v" "store_snapshot r v w1 = Some w2" "snapshot_current r w2 = Some True" using snapshot_loop_once[OF loop] by blast
  let ?s1 = "s\<lparr>mv_world := w1, mv_readers := (mv_readers s)(t \<mapsto> (r, R_load))\<rparr>"
  let ?s2 = "?s1\<lparr>mv_readers := (mv_readers ?s1)(t \<mapsto> (r, R_store v))\<rparr>"
  let ?s3 = "?s2\<lparr>mv_world := w2, mv_readers := (mv_readers ?s2)(t \<mapsto> (r, R_check))\<rparr>"
  let ?s4 = "?s3\<lparr>mv_world := w', mv_readers := (mv_readers ?s3)(t \<mapsto> (r, R_active (mt_txnid (txn w' t))))\<rparr>"
  have kept: "kept_slot (mv_world s) t = Some r" if "kept_slot (mv_world s) t \<noteq> None" using that r by (auto simp: reader_slot_def bind_eq_Some_conv)
  then have "kept_slot (mv_world s) t = None \<or> (\<forall>u x. u \<noteq> t \<and> mv_readers s u = Some x \<longrightarrow> fst x \<noteq> r)" using own unfolding unused_def by blast
  then have 1: "mvcc_step s ?s1" using mvcc_step.reader_takes_slot[OF ti pid _ _ r] free by blast
  have 2: "mvcc_step ?s1 ?s2" by (rule mvcc_step.reader_loads) (simp_all add: v)
  have 3: "mvcc_step ?s2 ?s3" by (rule mvcc_step.reader_stores[of _ _ _ v]) (simp_all add: v)
  have 4: "mvcc_step ?s3 ?s4" by (rule mvcc_step.reader_starts) (simp_all add: v adopt)
  have "mvcc_step\<^sup>*\<^sup>* s ?s4" using 1 2 3 4 by (meson converse_rtranclp_into_rtranclp rtranclp.rtrancl_refl)
  then show ?thesis by (intro exI[of _ r]) simp
qed

text \<open>A call of \<open>mdb_find_oldest\<close> that nobody interrupts is a run of the writer's scan.\<close>

lemma oldest_loop_steps:
  assumes "me_txns (w_env (mv_world s)) = Some ti" and "oldest_loop (mti_readers ti) n old = Some res"
  shows "mvcc_step\<^sup>*\<^sup>* (s\<lparr>mv_scan := Some (Scan n old)\<rparr>) (s\<lparr>mv_scan := Some (Scan 0 res)\<rparr>)"
  using assms(2)
proof (induction n arbitrary: old)
  case (Suc i)
  let ?sc = "\<lambda>x. s\<lparr>mv_scan := Some x\<rparr>"
  obtain x where x: "aget (mti_readers ti) i = Some x" and rest: "oldest_loop (mti_readers ti) i (if mr_pid x \<noteq> 0 \<and> old > mr_txnid x then mr_txnid x else old) = Some res"
    using Suc.prems by (auto simp: bind_eq_Some_conv)
  have pid: "mvcc_step (?sc (Scan (Suc i) old)) (?sc (if mr_pid x \<noteq> 0 then Scan_txnid i old else Scan i old))"
    using mvcc_step.scan_pid[of "?sc (Scan (Suc i) old)" i old ti x] assms(1) x by simp
  have txnid: "mvcc_step (?sc (Scan_txnid i old)) (?sc (Scan i (if old > mr_txnid x then mr_txnid x else old)))"
    using mvcc_step.scan_txnid[of "?sc (Scan_txnid i old)" i old ti x] assms(1) x by simp
  show ?case
  proof (cases "mr_pid x = 0")
    case True
    then show ?thesis using pid Suc.IH rest by (auto intro: converse_rtranclp_into_rtranclp)
  next
    case False
    have "mvcc_step\<^sup>*\<^sup>* (?sc (Scan i (if old > mr_txnid x then mr_txnid x else old))) (?sc (Scan 0 res))" using Suc.IH rest False by simp
    then have "mvcc_step\<^sup>*\<^sup>* (?sc (Scan_txnid i old)) (?sc (Scan 0 res))" by (rule converse_rtranclp_into_rtranclp[of mvcc_step, OF txnid])
    then show ?thesis using converse_rtranclp_into_rtranclp[of mvcc_step, OF pid] False by simp
  qed
qed simp

lemma find_oldest_steps:
  assumes "mdb_find_oldest (mv_world s) t = Some res" and "me_txns (w_env (mv_world s)) = Some ti" and "mt_txnid (txn (mv_world s) t) = mti_txnid ti + 1"
    and "mv_scan s = None"
  shows "mvcc_step\<^sup>*\<^sup>* s (s\<lparr>mv_world := upd_env (\<lambda>e. e\<lparr>me_pgoldest := res\<rparr>) (mv_world s)\<rparr>)"
proof -
  have b: "mvcc_step s (s\<lparr>mv_scan := Some (Scan (mti_numreaders ti) (mt_txnid (txn (mv_world s) t) - 1))\<rparr>)"
    by (rule mvcc_step.scan_begins[OF assms(4,2,3)])
  have l: "mvcc_step\<^sup>*\<^sup>* (s\<lparr>mv_scan := Some (Scan (mti_numreaders ti) (mt_txnid (txn (mv_world s) t) - 1))\<rparr>) (s\<lparr>mv_scan := Some (Scan 0 res)\<rparr>)"
    by (rule oldest_loop_steps[OF assms(2)]) (use assms(1,2) in \<open>simp add: mdb_find_oldest_def Let_def\<close>)
  have "mvcc_step (s\<lparr>mv_scan := Some (Scan 0 res)\<rparr>) (s\<lparr>mv_world := upd_env (\<lambda>e. e\<lparr>me_pgoldest := res\<rparr>) (mv_world s), mv_scan := None\<rparr>)"
    using mvcc_step.scan_ends[of "s\<lparr>mv_scan := Some (Scan 0 res)\<rparr>" res] by simp
  moreover have "s\<lparr>mv_world := upd_env (\<lambda>e. e\<lparr>me_pgoldest := res\<rparr>) (mv_world s), mv_scan := None\<rparr> = s\<lparr>mv_world := upd_env (\<lambda>e. e\<lparr>me_pgoldest := res\<rparr>) (mv_world s)\<rparr>"
    using assms(4) by (cases s) simp
  ultimately show ?thesis using converse_rtranclp_into_rtranclp[of mvcc_step, OF b l] by simp
qed

section \<open>Reused pages\<close>

text \<open>An environment that was just opened: the cached bound is 0, and the slots past \<open>mti_numreaders\<close> are free.\<close>

definition mvcc_start :: "mvcc \<Rightarrow> bool" where
  "mvcc_start s \<longleftrightarrow> mv_readers s = (\<lambda>_. None) \<and> mv_scan s = None \<and> me_pgoldest (w_env (mv_world s)) = 0 \<and>
     (case me_txns (w_env (mv_world s)) of None \<Rightarrow> False
      | Some ti \<Rightarrow> mti_numreaders ti \<le> length (mti_readers ti) \<and> list_all (\<lambda>r. mr_pid r = 0) (drop (mti_numreaders ti) (mti_readers ti)))"

lemma start_inv: "mvcc_start s \<Longrightarrow> mvcc_inv s"
proof -
  assume s: "mvcc_start s"
  then obtain ti where ti: "me_txns (w_env (mv_world s)) = Some ti" "mti_numreaders ti \<le> length (mti_readers ti)"
      "list_all (\<lambda>r. mr_pid r = 0) (drop (mti_numreaders ti) (mti_readers ti))" by (auto simp: mvcc_start_def split: option.splits)
  have "free_past ti" unfolding free_past_def
  proof (intro allI impI)
    fix i assume i: "mti_numreaders ti \<le> i \<and> i < length (mti_readers ti)"
    then have "drop (mti_numreaders ti) (mti_readers ti) ! (i - mti_numreaders ti) = mti_readers ti ! i" "i - mti_numreaders ti < length (mti_readers ti) - mti_numreaders ti"
      using ti(2) by auto
    then show "mr_pid (mti_readers ti ! i) = 0" using ti(3) unfolding list_all_length by (metis length_drop)
  qed
  then show ?thesis using s ti by (simp add: mvcc_inv_def mvcc_ok_def mvcc_start_def table_inv_def apart_def)
qed

lemma accepted_below_bound:
  assumes inv: "mvcc_inv s" and idle: "mv_scan s = None" and ti: "me_txns (w_env (mv_world s)) = Some ti" and t: "mt_txnid (txn (mv_world s) t) = mti_txnid ti + 1"
    and a: "as_oldest a = me_pgoldest (w_env (mv_world s))" and run: "too_recent (mv_world s) t a = Some (False, a', w')"
  shows "mvcc_inv (s\<lparr>mv_world := w'\<rparr>) \<and> as_last a' < me_pgoldest (w_env w') \<and> me_txns (w_env w') = Some ti"
proof (cases "as_oldest a \<le> as_last a")
  case True
  then obtain res where res: "mdb_find_oldest (mv_world s) t = Some res" "w' = upd_env (\<lambda>e. e\<lparr>me_pgoldest := res\<rparr>) (mv_world s)" "\<not> res \<le> as_last a" "as_last a' = as_last a"
    using run by (auto simp: too_recent_def bind_eq_Some_conv split: if_splits)
  have "mvcc_inv (s\<lparr>mv_world := w'\<rparr>)" using mvcc_reachable_inv[OF find_oldest_steps[OF res(1) ti t idle] inv] res(2) by simp
  then show ?thesis using res ti by simp
next
  case False
  then have "w' = mv_world s" "a' = a" using run by (auto simp: too_recent_def)
  then show ?thesis using False inv a ti by simp
qed

text \<open>
  C6: No page that an active reader may use is reused. Start from an environment that was just opened and let readers
  of any process take slots, load the newest transaction, store it in the slot, check it again, start and end, the
  dead be cleared, and the writer scan the slots and commit, in any interleaving of the single loads and
  stores. Whenever the writer, in \<open>mdb_page_alloc\<close>, then accepts a record of the free database, that is, the pages
  freed by the transaction \<open>as_last\<close>, every reader that has passed its check still has its snapshot in its slot, and
  the snapshot is newer than that transaction. Numbers of transactions do not wrap, one process writes, and
  a reader of a process that was reported dead makes no further steps.
\<close>

theorem reuse_spares_readers:
  assumes "mvcc_step\<^sup>*\<^sup>* s0 s" and "mvcc_start s0" and "mv_scan s = None"
    and "me_txns (w_env (mv_world s)) = Some ti" and "mt_txnid (txn (mv_world s) t) = mti_txnid ti + 1" and "as_oldest a = me_pgoldest (w_env (mv_world s))"
    and "too_recent (mv_world s) t a = Some (False, a', w')" and "mv_readers s u = Some (r, R_active snapshot)"
  shows "r < mti_numreaders ti \<and> mr_pid (mti_readers ti ! r) \<noteq> 0 \<and> mr_txnid (mti_readers ti ! r) = snapshot \<and> as_last a' < snapshot"
proof -
  have "mvcc_inv s" by (rule mvcc_reachable_inv[OF assms(1) start_inv[OF assms(2)]])
  note acc = accepted_below_bound[OF this assms(3-7)]
  then have "table_inv (me_pgoldest (w_env w')) ti (mv_readers s) (mv_scan s)" by (auto simp: mvcc_inv_def mvcc_ok_def)
  from table_inv_reader(1)[OF this assms(8)] show ?thesis using acc by (auto simp: reader_ok_def intro: less_le_trans)
qed

text \<open>A slot that the thread kept from an earlier transaction, and transaction 9 as the newest one.\<close>

definition kept_reader :: MDB_txninfo where
  "kept_reader = \<lparr>mti_txnid = 9, mti_numreaders = 1, mti_readers = [\<lparr>mr_txnid = - 1, mr_pid = 7, mr_tid = 1\<rparr>, \<lparr>mr_txnid = 0, mr_pid = 0, mr_tid = 0\<rparr>]\<rparr>"

definition reader_system :: mvcc where
  "reader_system = \<lparr>mv_world = demo\<lparr>w_env := demo_env\<lparr>me_txns := Some kept_reader\<rparr>, w_txns := (\<lambda>_. demo_txn\<lparr>mt_txnid := 10\<rparr>), w_tls := (\<lambda>_. Some 0)\<rparr>,
     mv_readers = (\<lambda>_. None), mv_scan = None\<rparr>"

lemma reader_system_run:
  "\<exists>s ti. mvcc_step\<^sup>*\<^sup>* reader_system s \<and> (\<exists>r. mv_readers s 1 = Some (r, R_active 9)) \<and> mv_scan s = None \<and> mt_txnid (txn (mv_world s) 0) = 10 \<and>
     me_pgoldest (w_env (mv_world s)) = 0 \<and> me_txns (w_env (mv_world s)) = Some ti \<and> mti_txnid ti = 9 \<and> mdb_find_oldest (mv_world s) 0 = Some 9"
proof -
  let ?w = "mv_world reader_system" and ?x = "\<lparr>mr_txnid = 9, mr_pid = 7, mr_tid = 1\<rparr> :: MDB_reader"
  let ?ti = "kept_reader\<lparr>mti_readers := [?x, \<lparr>mr_txnid = 0, mr_pid = 0, mr_tid = 0\<rparr>]\<rparr>"
  let ?w2 = "upd_env (\<lambda>e. e\<lparr>me_txns := Some ?ti\<rparr>) ?w"
  let ?w3 = "upd_txn 1 (\<lambda>y. y\<lparr>mt_txnid := 9, mt_reader := Some 0\<rparr>) ?w2"
  have w: "me_txns (w_env ?w) = Some kept_reader" "me_pid (w_env ?w) = 7" "me_flags (w_env ?w) = 0" "w_tls ?w = (\<lambda>_. Some 0)"
    by (simp_all add: reader_system_def demo_env_def)
  have slot: "reader_slot ?w 1 kept_reader = Some (0, False, 0, ?w)" using w by (simp add: reader_slot_def kept_slot_def kept_reader_def)
  have store: "store_snapshot 0 9 ?w = Some ?w2" using w by (simp add: store_snapshot_def upd_reader_def kept_reader_def)
  have "snapshot_current 0 ?w2 = Some True" by (simp add: snapshot_current_def kept_reader_def)
  then have loop: "snapshot_loop 0 ?w = Some ?w2" using w store by (subst snapshot_loop.simps) (simp add: load_txnid_def kept_reader_def)
  have adopt: "adopt_snapshot 1 0 ?w2 = Some (1, ?w3)" by (simp add: adopt_snapshot_def)
  have run: "renew_reader ?w 1 = Some (0, False, 1, ?w3)" using w(1) slot loop adopt by (simp add: renew_reader_def)
  have "\<exists>r. mvcc_step\<^sup>*\<^sup>* reader_system (reader_system\<lparr>mv_world := ?w3, mv_readers := (mv_readers reader_system)(1 \<mapsto> (r, R_active (mt_txnid (txn ?w3 1))))\<rparr>)"
    by (rule renew_reader_steps[OF run w(1)]) (use w in \<open>simp_all add: unused_def reader_system_def\<close>)
  moreover have t: "mt_txnid (txn ?w3 1) = 9" "mt_txnid (txn ?w3 0) = 10" by (simp_all add: txn_def upd_txn_def upd_env_def reader_system_def)
  moreover have e: "me_txns (w_env ?w3) = Some ?ti" "me_pgoldest (w_env ?w3) = 0" by (simp_all add: upd_txn_def reader_system_def demo_env_def)
  moreover have "mdb_find_oldest ?w3 0 = Some 9" using e t by (simp add: mdb_find_oldest_def kept_reader_def)
  ultimately obtain r where run: "mvcc_step\<^sup>*\<^sup>* reader_system (reader_system\<lparr>mv_world := ?w3, mv_readers := (mv_readers reader_system)(1 \<mapsto> (r, R_active 9))\<rparr>)"
    and "mdb_find_oldest ?w3 0 = Some 9" by auto
  then show ?thesis using t e by (intro exI[of _ "reader_system\<lparr>mv_world := ?w3, mv_readers := (mv_readers reader_system)(1 \<mapsto> (r, R_active 9))\<rparr>"] exI[of _ ?ti])
      (simp add: reader_system_def kept_reader_def)
qed

theorem reuse_spares_readers_witness:
  "\<exists>s r a' w'. mvcc_step\<^sup>*\<^sup>* reader_system s \<and> mv_readers s 1 = Some (r, R_active 9) \<and>
     too_recent (mv_world s) 0 \<lparr>as_retry = 60, as_last = 4, as_oldest = 0, as_found_old = False\<rparr> = Some (False, a', w') \<and> as_last a' < 9"
proof -
  let ?a = "\<lparr>as_retry = 60, as_last = 4, as_oldest = 0, as_found_old = False\<rparr>"
  obtain s r ti where s: "mvcc_step\<^sup>*\<^sup>* reader_system s" "mv_readers s 1 = Some (r, R_active 9)" "mv_scan s = None" "mt_txnid (txn (mv_world s) 0) = 10"
     "me_pgoldest (w_env (mv_world s)) = 0" "me_txns (w_env (mv_world s)) = Some ti" "mti_txnid ti = 9" "mdb_find_oldest (mv_world s) 0 = Some 9"
    using reader_system_run by blast
  obtain a' w' where run: "too_recent (mv_world s) 0 ?a = Some (False, a', w')" using s(8) by (simp add: too_recent_def word_le_nat_alt)
  have "mvcc_start reader_system" by (simp add: mvcc_start_def reader_system_def kept_reader_def demo_env_def)
  then have "as_last a' < 9" using reuse_spares_readers[OF s(1) _ s(3,6), of 0 ?a a' w' 1 r 9] s run by simp
  then show ?thesis using s(1,2) run by blast
qed

end
