(* ===== verification/Alloc_Spec.thy ===== *)
theory Alloc_Spec
  imports Alloc Demo
begin

text \<open>
  Allocation of pages: taking a run of page numbers out of \<open>me_pghead\<close>, taking new pages at the end of the file, and
  the errors.
\<close>

section \<open>Finding a run\<close>

lemma seek_run_cases:
  assumes "i < length mop" and "n2 < i"
  shows "(\<exists>j. seek_run mop n2 i = Some (Some j) \<and> n2 < j \<and> j \<le> i \<and> mop ! (j - n2) = mop ! j + of_nat n2) \<or>
    seek_run mop n2 i = Some None \<and> (\<forall>j. n2 < j \<and> j \<le> i \<longrightarrow> mop ! (j - n2) \<noteq> mop ! j + of_nat n2)"
  using assms
proof (induction i)
  case (Suc i)
  have l: "Suc i - n2 < length mop" using Suc.prems by simp
  consider "mop ! (Suc i - n2) = mop ! Suc i + of_nat n2" | "mop ! (Suc i - n2) \<noteq> mop ! Suc i + of_nat n2" "i > n2"
    | "mop ! (Suc i - n2) \<noteq> mop ! Suc i + of_nat n2" "\<not> i > n2" by blast
  then show ?case
  proof cases
    case 1
    then show ?thesis using Suc.prems l by (intro disjI1 exI[of _ "Suc i"]) simp
  next
    case 2
    then have "seek_run mop n2 (Suc i) = seek_run mop n2 i" using Suc.prems l by simp
    then show ?thesis using Suc.IH Suc.prems 2 by (auto simp: le_Suc_eq)
  next
    case 3
    then have "seek_run mop n2 (Suc i) = Some None" using Suc.prems l by simp
    then show ?thesis using 3 Suc.prems(2) by (auto simp: le_Suc_eq)
  qed
qed simp

lemma descending_gap:
  assumes "sorted_wrt (>) xs" and "a + k < length xs"
  shows "unat (xs ! (a + k)) + k \<le> unat (xs ! a :: MDB_ID)"
  using assms(2)
proof (induction k)
  case (Suc k)
  have "xs ! (a + Suc k) < xs ! (a + k)" using assms(1) Suc.prems by (simp add: sorted_wrt_iff_nth_less)
  then show ?case using Suc by (simp add: word_less_nat_alt)
qed simp

text \<open>In a descending list the ends of a window tell that it is a run of consecutive numbers.\<close>

lemma descending_run:
  fixes xs :: "MDB_ID list"
  assumes "sorted_wrt (>) xs" and "a + n < length xs" and "xs ! a = xs ! (a + n) + of_nat n" and "k \<le> n"
  shows "xs ! (a + n - k) = xs ! (a + n) + of_nat k"
proof -
  let ?u = "unat (xs ! (a + n))"
  have g: "?u + n \<le> unat (xs ! a)" "?u + k \<le> unat (xs ! (a + n - k))" "unat (xs ! (a + n - k)) + (n - k) \<le> unat (xs ! a)"
    using descending_gap[OF assms(1), of a n] descending_gap[OF assms(1), of "a + n - k" k] descending_gap[OF assms(1), of a "n - k"] assms(2,4) by simp_all
  have "unat (xs ! a) \<le> ?u + n"
    unfolding assms(3) by (simp add: unat_word_ariths unat_of_nat take_bit_eq_mod mod_add_right_eq)
  then have "unat (xs ! (a + n - k)) = ?u + k" using g assms(4) by linarith
  then have "(of_nat (unat (xs ! (a + n - k))) :: MDB_ID) = of_nat (?u + k)" by (rule arg_cong)
  then show ?thesis by simp
qed

section \<open>Taking it out of the list\<close>

lemma stragglers_spec:
  assumes "j \<le> i" and "i + (n - j) < length mop"
  shows "\<exists>mop'. stragglers mop j i n = Some mop' \<and> length mop' = length mop \<and> (\<forall>x. mop' ! x = (if j < x \<and> x \<le> n then mop ! (x + (i - j)) else mop ! x))"
  using assms
proof (induction "n - j" arbitrary: mop j i)
  case 0
  then show ?case by (subst stragglers.simps) auto
next
  case (Suc k)
  let ?mop = "mop[j + 1 := mop ! (i + 1)]"
  have jn: "j < n" and l: "i + 1 < length mop" "j + 1 < length mop" using Suc.hyps(2) Suc.prems by simp_all
  have "stragglers mop j i n = stragglers ?mop (j + 1) (i + 1) n" using jn l by (subst stragglers.simps) simp
  moreover obtain mop' where m': "stragglers ?mop (j + 1) (i + 1) n = Some mop'" "length mop' = length ?mop"
     "\<forall>x. mop' ! x = (if j + 1 < x \<and> x \<le> n then ?mop ! (x + (i + 1 - (j + 1))) else ?mop ! x)"
  proof -
    have "k = n - (j + 1)" "j + 1 \<le> i + 1" "i + 1 + (n - (j + 1)) < length ?mop" using Suc.hyps(2) Suc.prems jn by simp_all
    from Suc.hyps(1)[OF this] show thesis using that by blast
  qed
  moreover have "mop' ! x = (if j < x \<and> x \<le> n then mop ! (x + (i - j)) else mop ! x)" for x
  proof (cases "x = j + 1")
    case True
    then show ?thesis using m'(3) jn l Suc.prems(1) by (simp add: add.commute)
  next
    case False
    then show ?thesis using m'(3)[rule_format, of x] Suc.prems(1) by (auto simp: nth_list_update)
  qed
  ultimately show ?case by simp
qed

definition page_run :: "MDB_ID \<Rightarrow> nat \<Rightarrow> MDB_ID list" where
  "page_run pgno num = map (\<lambda>k. pgno + of_nat k) [0..<num]"

lemma in_page_run: "x \<in> set (page_run pgno num) \<longleftrightarrow> (\<exists>k < num. x = pgno + of_nat k)"
  by (auto simp: page_run_def)

lemma run_in_list:
  fixes xs :: "MDB_ID list"
  assumes "sorted_wrt (>) xs" and "0 < num" and "num \<le> i" and "i \<le> length xs" and "xs ! (i - num) = xs ! (i - 1) + of_nat (num - 1)"
  shows "xs = take (i - num) xs @ rev (page_run (xs ! (i - 1)) num) @ drop i xs"
proof -
  have "take num (drop (i - num) xs) = rev (page_run (xs ! (i - 1)) num)"
  proof (rule nth_equalityI)
    fix x assume "x < length (take num (drop (i - num) xs))"
    then have x: "x < num" by simp
    have "xs ! (i - num + (num - 1) - (num - 1 - x)) = xs ! (i - num + (num - 1)) + of_nat (num - 1 - x)"
      by (rule descending_run[OF assms(1)]) (use assms in simp_all)
    moreover have "i - num + (num - 1) - (num - 1 - x) = i - num + x" "i - num + (num - 1) = i - 1" using x assms(2,3) by simp_all
    ultimately show "take num (drop (i - num) xs) ! x = rev (page_run (xs ! (i - 1)) num) ! x"
      using x assms(4) by (simp add: page_run_def rev_nth)
  qed (use assms(3,4) in \<open>simp add: page_run_def\<close>)
  moreover have "xs = take (i - num) xs @ take num (drop (i - num) xs) @ drop num (drop (i - num) xs)" by (simp only: append_take_drop_id)
  ultimately show ?thesis using assms(3) by simp
qed

lemma take_run:
  assumes len: "idl_count arr < length arr" and num: "0 < num" "num \<le> i" "i \<le> idl_count arr"
  shows "\<exists>ids. (do { ids \<leftarrow> aput arr 0 (arr ! 0 - of_nat num); stragglers ids (i - num) i (unat (arr ! 0) - num) }) = Some ids \<and>
    length ids = length arr \<and> idl_count ids = idl_count arr - num \<and> idl_list ids = take (i - num) (idl_list arr) @ drop i (idl_list arr)"
proof -
  let ?a = "arr[0 := arr ! 0 - of_nat num]" and ?n = "idl_count arr"
  have un: "unat (arr ! 0) = ?n" by (simp add: idl_count_def)
  obtain ids where ids: "stragglers ?a (i - num) i (?n - num) = Some ids" "length ids = length ?a"
     "\<forall>x. ids ! x = (if i - num < x \<and> x \<le> ?n - num then ?a ! (x + (i - (i - num))) else ?a ! x)"
    using stragglers_spec[of "i - num" i "?n - num" ?a] len num by auto
  have "num < 2 ^ 64" using un num unsigned_less[of "arr ! 0", where 'a = nat] by simp
  then have "unat (arr ! 0 - of_nat num) = ?n - num"
    using un num unat_sub[of "of_nat num" "arr ! 0"] by (simp add: word_le_nat_alt unat_of_nat take_bit_eq_mod)
  then have cnt: "idl_count ids = ?n - num" using ids(3) len by (cases arr) (simp_all add: idl_count_def)
  have "idl_list ids = take (i - num) (idl_list arr) @ drop i (idl_list arr)"
  proof (rule nth_equalityI)
    show "length (idl_list ids) = length (take (i - num) (idl_list arr) @ drop i (idl_list arr))" using cnt len num ids(2) by (simp add: idl_list_def)
    fix x assume "x < length (idl_list ids)"
    then have x: "x < ?n - num" using cnt len ids(2) by (simp add: idl_list_def)
    have "idl_list ids ! x = ids ! Suc x" using x cnt len ids(2) by (simp add: idl_list_def)
    also have "\<dots> = (if i - num < Suc x then arr ! (Suc x + num) else arr ! Suc x)" using ids(3) x num by simp
    also have "\<dots> = (take (i - num) (idl_list arr) @ drop i (idl_list arr)) ! x" using x len num by (auto simp: idl_list_def nth_append)
    finally show "idl_list ids ! x = (take (i - num) (idl_list arr) @ drop i (idl_list arr)) ! x" .
  qed
  moreover have "0 < length arr" using len by linarith
  ultimately show ?thesis using ids cnt un by simp
qed

section \<open>Reusing freed pages\<close>

text \<open>There is a page buffer: one released before, or one from the heap.\<close>

definition can_malloc :: "world \<Rightarrow> nat \<Rightarrow> bool" where
  "can_malloc w num \<longleftrightarrow> num = 1 \<and> me_dpages (w_env w) \<noteq> 0 \<or> w_ok w (me_psize (w_env w) * num) \<and> w_brk w \<noteq> 0"

text \<open>The world after taking a buffer: its bytes may have changed, those of the rest of the memory have not.\<close>

definition malloced :: "world \<Rightarrow> nat \<Rightarrow> addr \<Rightarrow> world \<Rightarrow> bool" where
  "malloced w num np w1 \<longleftrightarrow> (\<exists>x m b. w1 = w\<lparr>w_env := (w_env w)\<lparr>me_dpages := x\<rparr>, w_mem := m, w_brk := b\<rparr>) \<and> np \<noteq> 0 \<and>
     (np = me_dpages (w_env w) \<or> np = w_brk w) \<and> (16 \<le> me_psize (w_env w) \<and> 0 < num \<longrightarrow> same_outside np (np + me_psize (w_env w) * num) (w_mem w) (w_mem w1))"

lemma mallocedI:
  assumes "np \<noteq> 0" and "np = me_dpages (w_env w) \<or> np = w_brk w"
    and "16 \<le> me_psize (w_env w) \<Longrightarrow> 0 < num \<Longrightarrow> same_outside np (np + me_psize (w_env w) * num) (w_mem w) m"
  shows "malloced w num np (w\<lparr>w_env := (w_env w)\<lparr>me_dpages := x\<rparr>, w_mem := m, w_brk := b\<rparr>)"
  unfolding malloced_def using assms by (intro conjI exI[of _ x] exI[of _ m] exI[of _ b]) auto

lemma malloced_simps:
  assumes "malloced w num np w1"
  shows "txn w1 = txn w" and "cur w1 = cur w" and "me_pghead (w_env w1) = me_pghead (w_env w)" and "me_flags (w_env w1) = me_flags (w_env w)"
    and "me_psize (w_env w1) = me_psize (w_env w)" and "me_map (w_env w1) = me_map (w_env w)" and "me_mapsize (w_env w1) = me_mapsize (w_env w)"
  using assms by (auto simp: malloced_def txn_def cur_def)

lemma page_malloc_run:
  assumes "can_malloc w num"
  shows "\<exists>np w1. mdb_page_malloc w t num = (np, w1) \<and> malloced w num np w1"
proof (cases "num = 1 \<and> me_dpages (w_env w) \<noteq> 0")
  case True
  then have "mdb_page_malloc w t num = (me_dpages (w_env w), w\<lparr>w_env := (w_env w)\<lparr>me_dpages := mp_next (w_mem w) (me_dpages (w_env w))\<rparr>, w_mem := w_mem w, w_brk := w_brk w\<rparr>)"
    by (simp add: mdb_page_malloc_def Let_def upd_env_def)
  then show ?thesis using True mallocedI[of "me_dpages (w_env w)" w num "w_mem w"] by fastforce
next
  case False
  let ?sz = "me_psize (w_env w) * num"
  have ok: "heap_alloc w ?sz = (w_brk w, w\<lparr>w_brk := w_brk w + ?sz\<rparr>)" "w_brk w \<noteq> 0"
    using False assms by (auto simp: can_malloc_def heap_alloc_def)
  obtain ps off where po: "(if num = 1 then (me_psize (w_env w) - PAGEHDRSZ, PAGEHDRSZ) else (me_psize (w_env w), ?sz - me_psize (w_env w))) = (ps, off)"
    by (cases "num = 1") auto
  have fit: "off + ps \<le> ?sz \<and> 10 \<le> ?sz" if "16 \<le> me_psize (w_env w)" "0 < num"
    using po that by (cases num; cases "num = 1") (auto split: if_split_asm)
  let ?g = "\<lambda>m. set_pad (mem_write m (w_brk w + off) (replicate ps 0)) (w_brk w) 0"
  define f where "f = (if me_flags (w_env w) AND MDB_NOMEMINIT = 0 then ?g else id)"
  have "mdb_page_malloc w t num = (w_brk w, upd_mem f (w\<lparr>w_brk := w_brk w + ?sz\<rparr>))"
    using False ok unfolding mdb_page_malloc_def Let_def po f_def by (auto simp: upd_mem_def)
  moreover have "same_outside (w_brk w) (w_brk w + ?sz) (w_mem w) (f (w_mem w))" if "16 \<le> me_psize (w_env w)" "0 < num"
    using fit[OF that] unfolding f_def set_pad_def by (auto intro!: same_outside_wr16 same_outside_write)
  moreover have "upd_mem f (w\<lparr>w_brk := w_brk w + ?sz\<rparr>) = w\<lparr>w_env := (w_env w)\<lparr>me_dpages := me_dpages (w_env w)\<rparr>, w_mem := f (w_mem w), w_brk := w_brk w + ?sz\<rparr>"
    by (simp add: upd_mem_def)
  ultimately show ?thesis using ok(2) mallocedI[of "w_brk w" w num "f (w_mem w)", where x = "me_dpages (w_env w)" and b = "w_brk w + ?sz"] by simp
qed

text \<open>The dirty list of a transaction has room and does not have the page.\<close>

definition dirty_ready :: "MDB_txn \<Rightarrow> u64 \<Rightarrow> bool" where
  "dirty_ready x pgno \<longleftrightarrow> id2l_sorted (mt_dirty_list x) \<and> length (mt_dirty_list x) = MDB_IDL_UM_MAX + 1 \<and> id2l_count (mt_dirty_list x) < MDB_IDL_UM_MAX \<and>
     pgno \<notin> mid ` set (id2l_list (mt_dirty_list x)) \<and> mt_flags x AND MDB_TXN_WRITEMAP = 0"

lemma page_dirty_run:
  assumes "dirty_ready (txn w t) (mp_pgno (w_mem w) np)"
  shows "\<exists>dl. mdb_page_dirty w t np = Some (upd_txn t (\<lambda>x. x\<lparr>mt_dirty_list := dl, mt_dirty_room := mt_dirty_room x - 1\<rparr>) w) \<and> id2l_sorted dl \<and>
     length dl = MDB_IDL_UM_MAX + 1 \<and> set (id2l_list dl) = insert \<lparr>mid = mp_pgno (w_mem w) np, mptr = np\<rparr> (set (id2l_list (mt_dirty_list (txn w t))))"
proof -
  obtain dl where "mdb_mid2l_insert (mt_dirty_list (txn w t)) \<lparr>mid = mp_pgno (w_mem w) np, mptr = np\<rparr> = Some (0, dl)" "id2l_sorted dl"
     "length dl = length (mt_dirty_list (txn w t))" "set (id2l_list dl) = insert \<lparr>mid = mp_pgno (w_mem w) np, mptr = np\<rparr> (set (id2l_list (mt_dirty_list (txn w t))))"
    using mdb_mid2l_insert_spec[of "mt_dirty_list (txn w t)" "\<lparr>mid = mp_pgno (w_mem w) np, mptr = np\<rparr>"] assms by (auto simp: dirty_ready_def)
  then show ?thesis using assms by (auto simp: mdb_page_dirty_def dirty_ready_def)
qed

lemma mp_pgno_set [simp]: "mp_pgno (set_pgno m np pgno) np = pgno"
  by (simp add: mp_pgno_def set_pgno_def)

lemma alloc_done_run:
  assumes "me_flags (w_env w) AND MDB_WRITEMAP = 0" and "can_malloc w num" and "dirty_ready (txn w t) pgno"
    and "\<And>w1. me_pghead (w_env w1) = me_pghead (w_env w) \<Longrightarrow> txn w1 = txn w \<Longrightarrow>
      (if i \<noteq> 0 then do {
         mop \<leftarrow> me_pghead (w_env w1);
         len \<leftarrow> aget (cells mop) 0;
         ids \<leftarrow> aput (cells mop) 0 (len - of_nat num);
         ids \<leftarrow> stragglers ids (i - num) i (unat len - num);
         Some (upd_env (\<lambda>e. e\<lparr>me_pghead := Some (mop\<lparr>cells := ids\<rparr>)\<rparr>) w1)
       } else Some (upd_txn t (\<lambda>x. x\<lparr>mt_next_pgno := pgno + of_nat num\<rparr>) w1)) = Some (f w1)"
    and "\<And>w1. mt_dirty_list (txn (f w1) t) = mt_dirty_list (txn w1 t) \<and> mt_flags (txn (f w1) t) = mt_flags (txn w1 t)"
  shows "\<exists>np w1 dl. alloc_done w t num i pgno = Some (MDB_SUCCESS, np, upd_txn t (\<lambda>x. x\<lparr>mt_dirty_list := dl, mt_dirty_room := mt_dirty_room x - 1\<rparr>)
        (upd_mem (\<lambda>m. set_pgno m np pgno) (f w1))) \<and> malloced w num np w1 \<and>
     id2l_sorted dl \<and> length dl = MDB_IDL_UM_MAX + 1 \<and> set (id2l_list dl) = insert \<lparr>mid = pgno, mptr = np\<rparr> (set (id2l_list (mt_dirty_list (txn w t))))"
proof -
  obtain np w1 where m: "mdb_page_malloc w t num = (np, w1)" "malloced w num np w1"
    using page_malloc_run[OF assms(2)] by blast
  note w1 = malloced_simps(3,1,4)[OF m(2)]
  have np: "np \<noteq> 0" using m(2) by (simp add: malloced_def)
  let ?w2 = "upd_mem (\<lambda>m. set_pgno m np pgno) (f w1)"
  have "dirty_ready (txn ?w2 t) (mp_pgno (w_mem ?w2) np)" using assms(3,5) w1(2) by (simp add: dirty_ready_def)
  from page_dirty_run[OF this] obtain dl where dl: "mdb_page_dirty ?w2 t np = Some (upd_txn t (\<lambda>x. x\<lparr>mt_dirty_list := dl, mt_dirty_room := mt_dirty_room x - 1\<rparr>) ?w2)"
     "id2l_sorted dl" "length dl = MDB_IDL_UM_MAX + 1" "set (id2l_list dl) = insert \<lparr>mid = pgno, mptr = np\<rparr> (set (id2l_list (mt_dirty_list (txn w t))))"
    using assms(5) w1(2) by auto
  have "alloc_done w t num i pgno = Some (MDB_SUCCESS, np, upd_txn t (\<lambda>x. x\<lparr>mt_dirty_list := dl, mt_dirty_room := mt_dirty_room x - 1\<rparr>) ?w2)"
    unfolding alloc_done_def m(1) using assms(1) np w1(3) assms(4)[OF w1(1,2)] dl(1) by simp
  then show ?thesis using m(2) dl(2-) by blast
qed

lemma alloc_done_from_list:
  assumes mop: "me_pghead (w_env w) = Some mop" and len: "idl_count (cells mop) < length (cells mop)"
    and num: "0 < num" "num \<le> i" "i \<le> idl_count (cells mop)" and fl: "me_flags (w_env w) AND MDB_WRITEMAP = 0"
    and cm: "can_malloc w num" and dr: "dirty_ready (txn w t) pgno"
  shows "\<exists>np w1 dl ids. alloc_done w t num i pgno = Some (MDB_SUCCESS, np, upd_txn t (\<lambda>x. x\<lparr>mt_dirty_list := dl, mt_dirty_room := mt_dirty_room x - 1\<rparr>)
        (upd_mem (\<lambda>m. set_pgno m np pgno) (upd_env (\<lambda>e. e\<lparr>me_pghead := Some (mop\<lparr>cells := ids\<rparr>)\<rparr>) w1))) \<and> malloced w num np w1 \<and> id2l_sorted dl \<and> length dl = MDB_IDL_UM_MAX + 1 \<and>
     idl_list ids = take (i - num) (idl_list (cells mop)) @ drop i (idl_list (cells mop)) \<and>
     set (id2l_list dl) = insert \<lparr>mid = pgno, mptr = np\<rparr> (set (id2l_list (mt_dirty_list (txn w t))))"
proof -
  let ?a = "cells mop"
  obtain ids0 ids where ids: "aput ?a 0 (?a ! 0 - of_nat num) = Some ids0" "idl_list ids = take (i - num) (idl_list ?a) @ drop i (idl_list ?a)"
     "stragglers ids0 (i - num) i (unat (?a ! 0) - num) = Some ids"
    using take_run[OF len num] unfolding bind_eq_Some_conv by blast
  let ?f = "\<lambda>w1. upd_env (\<lambda>e. e\<lparr>me_pghead := Some (mop\<lparr>cells := ids\<rparr>)\<rparr>) w1"
  have ag: "aget ?a 0 = Some (?a ! 0)" using len by (intro aget_in) linarith
  have i0: "i \<noteq> 0" using num by simp
  have "(do {
       mop \<leftarrow> me_pghead (w_env w1);
       len \<leftarrow> aget (cells mop) 0;
       ids \<leftarrow> aput (cells mop) 0 (len - of_nat num);
       ids \<leftarrow> stragglers ids (i - num) i (unat len - num);
       Some (upd_env (\<lambda>e. e\<lparr>me_pghead := Some (mop\<lparr>cells := ids\<rparr>)\<rparr>) w1)
     }) = Some (?f w1)" if "me_pghead (w_env w1) = me_pghead (w_env w)" for w1
    using that ag ids(1,3) mop by simp
  then have "\<exists>np w1 dl. alloc_done w t num i pgno = Some (MDB_SUCCESS, np, upd_txn t (\<lambda>x. x\<lparr>mt_dirty_list := dl, mt_dirty_room := mt_dirty_room x - 1\<rparr>)
      (upd_mem (\<lambda>m. set_pgno m np pgno) (?f w1))) \<and> malloced w num np w1 \<and>
   id2l_sorted dl \<and> length dl = MDB_IDL_UM_MAX + 1 \<and> set (id2l_list dl) = insert \<lparr>mid = pgno, mptr = np\<rparr> (set (id2l_list (mt_dirty_list (txn w t))))"
    by (intro alloc_done_run[OF fl cm dr]) (simp_all only: if_P[OF i0], simp)
  then show ?thesis using ids(2) by blast
qed

lemma run_window:
  fixes xs :: "MDB_ID list"
  assumes desc: "sorted_wrt (>) xs" and run: "set (page_run pgno num) \<subseteq> set xs" and wrap: "unat pgno + num \<le> 2 ^ 64"
    and p: "p < length xs" "xs ! p = pgno" and "k < num"
  shows "k \<le> p \<and> xs ! (p - k) = pgno + of_nat k"
  using assms(6)
proof (induction k)
  case (Suc k)
  have u: "unat (pgno + of_nat l) = unat pgno + l" if "l < num" for l
    using that wrap by (simp add: unat_word_ariths unat_of_nat take_bit_eq_mod mod_add_right_eq)
  have IH: "k \<le> p" "xs ! (p - k) = pgno + of_nat k" using Suc by simp_all
  have "pgno + of_nat (Suc k) \<in> set xs" using run Suc.prems in_page_run by blast
  then obtain q where q: "q < length xs" "xs ! q = pgno + of_nat (Suc k)" by (auto simp: in_set_conv_nth)
  have uq: "unat (xs ! q) = unat pgno + Suc k" "unat (xs ! (p - k)) = unat pgno + k" using u[of "Suc k"] u[of k] q(2) IH(2) Suc.prems by simp_all
  have "q < p - k"
  proof (rule ccontr)
    assume "\<not> q < p - k"
    then have "unat (xs ! q) + (q - (p - k)) \<le> unat (xs ! (p - k))" using descending_gap[OF desc, of "p - k" "q - (p - k)"] q(1) by simp
    then show False using uq by simp
  qed
  moreover have "unat (xs ! (p - k)) + (p - k - q) \<le> unat (xs ! q)" using descending_gap[OF desc, of q "p - k - q"] calculation p(1) by simp
  ultimately have "q = p - Suc k" "Suc k \<le> p" using uq by simp_all
  then show ?case using q(2) by simp
qed (use p in simp)

lemma alloc_loop_found:
  assumes mop: "me_pghead (w_env w) = Some mop" and len: "idl_count (cells mop) < length (cells mop)" and desc: "sorted_wrt (>) (idl_list (cells mop))"
    and num: "0 < num" and run: "set (page_run p0 num) \<subseteq> set (idl_list (cells mop))" "unat p0 + num \<le> 2 ^ 64"
  shows "\<exists>i. alloc_loop w t m2 (num - 1) op s = Some (Found i, w) \<and> num \<le> i \<and> i \<le> idl_count (cells mop) \<and>
    idl_list (cells mop) ! (i - num) = idl_list (cells mop) ! (i - 1) + of_nat (num - 1)"
proof -
  let ?a = "cells mop" and ?n = "idl_count (cells mop)" and ?xs = "idl_list (cells mop)"
  have lx: "length ?xs = ?n" using len by (simp add: idl_list_def)
  have nth: "?xs ! x = ?a ! Suc x" if "x < ?n" for x using that len by (simp add: idl_list_def)
  have "p0 \<in> set ?xs" using run(1) num in_page_run[of p0 p0 num] by (auto intro: exI[of _ 0])
  then obtain p where p: "p < length ?xs" "?xs ! p = p0" by (auto simp: in_set_conv_nth)
  have w: "num - 1 \<le> p" "?xs ! (p - (num - 1)) = p0 + of_nat (num - 1)" using run_window[OF desc run p, of "num - 1"] num by simp_all
  have big: "num - 1 < ?n" using w(1) p(1) lx by simp
  from seek_run_cases[OF len big] obtain i where i: "seek_run ?a (num - 1) ?n = Some (Some i)" "num - 1 < i" "i \<le> ?n" "?a ! (i - (num - 1)) = ?a ! i + of_nat (num - 1)"
  proof
    assume "seek_run ?a (num - 1) ?n = Some None \<and> (\<forall>j. num - 1 < j \<and> j \<le> ?n \<longrightarrow> ?a ! (j - (num - 1)) \<noteq> ?a ! j + of_nat (num - 1))"
    moreover have "?a ! (Suc p - (num - 1)) = ?a ! Suc p + of_nat (num - 1)"
      using w nth[of p] nth[of "p - (num - 1)"] p lx by (simp add: Suc_diff_le)
    ultimately show thesis using w(1) p(1) lx by auto
  qed blast
  have "?xs ! (i - num) = ?xs ! (i - 1) + of_nat (num - 1)"
  proof -
    have "Suc (i - num) = i - (num - 1)" "Suc (i - 1) = i" using i(2) num by simp_all
    then show ?thesis using i nth[of "i - num"] nth[of "i - 1"] num by simp
  qed
  moreover have "aget ?a 0 = Some (?a ! 0)" using len by (intro aget_in) linarith
  then have "alloc_loop w t m2 (num - 1) op s = Some (Found i, w)"
    using i(1) big mop by (subst alloc_loop.simps) (simp add: pghead_cells_def idl_count_def Let_def)
  ultimately show ?thesis using i(2,3) num by auto
qed

lemma without_middle:
  fixes xs :: "MDB_ID list"
  assumes "sorted_wrt (>) (xs @ ys @ zs)"
  shows "set (xs @ zs) = set (xs @ ys @ zs) - set ys" and "sorted_wrt (>) (xs @ zs)"
proof -
  show "sorted_wrt (>) (xs @ zs)" using assms by (auto simp: sorted_wrt_append)
  have "x \<notin> set ys" if "x \<in> set xs \<or> x \<in> set zs" for x using that assms by (auto simp: sorted_wrt_append)
  then show "set (xs @ zs) = set (xs @ ys @ zs) - set ys" by auto
qed

lemma alloc_from_list:
  assumes "t = mc_txn (cur w mc)" and "num \<noteq> 1 \<or> mt_loose_pgs (txn w t) = 0" and "0 < mt_dirty_room (txn w t)" and "0 < num"
    and "me_pghead (w_env w) = Some mop" and "idl_count (cells mop) < length (cells mop)" and "sorted_wrt (>) (idl_list (cells mop))"
    and "set (page_run p0 num) \<subseteq> set (idl_list (cells mop))" and "unat p0 + num \<le> 2 ^ 64"
    and "me_flags (w_env w) AND MDB_WRITEMAP = 0" and "can_malloc w num" and "\<forall>p \<in> set (idl_list (cells mop)). dirty_ready (txn w t) p"
  shows "\<exists>np pgno w1 dl ids. mdb_page_alloc w mc num = Some (MDB_SUCCESS, np, upd_txn t (\<lambda>x. x\<lparr>mt_dirty_list := dl, mt_dirty_room := mt_dirty_room x - 1\<rparr>)
        (upd_mem (\<lambda>m. set_pgno m np pgno) (upd_env (\<lambda>e. e\<lparr>me_pghead := Some (mop\<lparr>cells := ids\<rparr>)\<rparr>) w1))) \<and>
    malloced (w\<lparr>w_ncur := w_ncur w + 1\<rparr>) num np w1 \<and> set (page_run pgno num) \<subseteq> set (idl_list (cells mop)) \<and>
    set (idl_list ids) = set (idl_list (cells mop)) - set (page_run pgno num) \<and> sorted_wrt (>) (idl_list ids) \<and> id2l_sorted dl \<and> length dl = MDB_IDL_UM_MAX + 1 \<and>
    set (id2l_list dl) = insert \<lparr>mid = pgno, mptr = np\<rparr> (set (id2l_list (mt_dirty_list (txn w t))))"
proof -
  let ?w = "w\<lparr>w_ncur := w_ncur w + 1\<rparr>" and ?a = "cells mop" and ?xs = "idl_list (cells mop)"
  let ?s = "\<lparr>as_retry = int num * 60, as_last = 0, as_oldest = 0, as_found_old = False\<rparr>"
  have w: "txn ?w = txn w" "w_env ?w = w_env w" by (auto simp: txn_def)
  obtain i where i: "alloc_loop ?w t (w_ncur w) (num - 1) MDB_FIRST ?s = Some (Found i, ?w)" "num \<le> i" "i \<le> idl_count ?a"
     "?xs ! (i - num) = ?xs ! (i - 1) + of_nat (num - 1)"
    using alloc_loop_found[of ?w mop num p0 t "w_ncur w" MDB_FIRST ?s] assms(4-9) by auto
  define pgno where "pgno = ?xs ! (i - 1)"
  have lx: "length ?xs = idl_count ?a" using assms(6) by (simp add: idl_list_def)
  have split: "?xs = take (i - num) ?xs @ rev (page_run pgno num) @ drop i ?xs"
    using run_in_list[OF assms(7,4) i(2) _ i(4)] i(3) lx by (simp add: pgno_def)
  have pg: "pgno \<in> set ?xs" "?a ! i = pgno"
    using i(2,3) lx assms(4,6) nth_mem[of "i - 1" ?xs] by (simp_all add: pgno_def) (simp add: idl_list_def)
  have cm: "can_malloc ?w num" and dr: "dirty_ready (txn ?w t) pgno"
    using assms(11,12) pg(1) unfolding w(1) by (simp add: can_malloc_def, blast)
  obtain np w1 dl ids where fin: "alloc_done ?w t num i pgno = Some (MDB_SUCCESS, np, upd_txn t (\<lambda>x. x\<lparr>mt_dirty_list := dl, mt_dirty_room := mt_dirty_room x - 1\<rparr>)
        (upd_mem (\<lambda>m. set_pgno m np pgno) (upd_env (\<lambda>e. e\<lparr>me_pghead := Some (mop\<lparr>cells := ids\<rparr>)\<rparr>) w1)))" "malloced ?w num np w1"
      "id2l_sorted dl \<and> length dl = MDB_IDL_UM_MAX + 1" "idl_list ids = take (i - num) ?xs @ drop i ?xs" "set (id2l_list dl) = insert \<lparr>mid = pgno, mptr = np\<rparr> (set (id2l_list (mt_dirty_list (txn ?w t))))"
    using alloc_done_from_list[OF _ assms(6,4) i(2,3) _ cm dr] assms(5,10) unfolding w(2) by blast
  have "mdb_page_alloc w mc num = alloc_done ?w t num i pgno"
    using assms(1-3,5,6) i pg(2) by (auto simp: mdb_page_alloc_def Let_def new_cur_def pghead_cells_def)
  moreover have "set (idl_list ids) = set ?xs - set (page_run pgno num)" "sorted_wrt (>) (idl_list ids)"
    using without_middle[of "take (i - num) ?xs" "rev (page_run pgno num)" "drop i ?xs"] assms(7) split fin(4) by simp_all
  moreover have "set (page_run pgno num) \<subseteq> set (take (i - num) ?xs @ rev (page_run pgno num) @ drop i ?xs)" by auto
  then have "set (page_run pgno num) \<subseteq> set ?xs" unfolding split[symmetric] .
  ultimately show ?thesis using fin(1-3) fin(5)[unfolded w(1)] by (intro exI conjI) (assumption | simp)+
qed

text \<open>
  C11: \<open>mdb_page_alloc\<close> reuses freed pages, in an environment without \<open>MDB_WRITEMAP\<close>, with room in the dirty list, memory
  for the page, and no loose page to take when one page is asked for. If the numbers in \<open>me_pghead\<close>, a descending list, contain a run of \<open>num\<close>
  consecutive ones, the call succeeds without looking into the free database or growing the file: some such run is
  taken out of the list, and nothing else, the list stays descending, the new page has the first number of the run and is
  in the dirty list, and the end of the file stays.
\<close>

theorem page_alloc_reuses_run:
  assumes "t = mc_txn (cur w mc)" and "num \<noteq> 1 \<or> mt_loose_pgs (txn w t) = 0" and "0 < mt_dirty_room (txn w t)" and "0 < num"
    and "me_pghead (w_env w) = Some mop" and "idl_count (cells mop) < length (cells mop)" and "sorted_wrt (>) (idl_list (cells mop))"
    and "set (page_run p0 num) \<subseteq> set (idl_list (cells mop))" and "unat p0 + num \<le> 2 ^ 64"
    and "me_flags (w_env w) AND MDB_WRITEMAP = 0" and "can_malloc w num" and "\<forall>p \<in> set (idl_list (cells mop)). dirty_ready (txn w t) p"
  shows "\<exists>np pgno w' mop'. mdb_page_alloc w mc num = Some (MDB_SUCCESS, np, w') \<and> np \<noteq> 0 \<and> mp_pgno (w_mem w') np = pgno \<and>
    set (page_run pgno num) \<subseteq> set (idl_list (cells mop)) \<and> me_pghead (w_env w') = Some mop' \<and>
    set (idl_list (cells mop')) = set (idl_list (cells mop)) - set (page_run pgno num) \<and> sorted_wrt (>) (idl_list (cells mop')) \<and>
    set (id2l_list (mt_dirty_list (txn w' t))) = insert \<lparr>mid = pgno, mptr = np\<rparr> (set (id2l_list (mt_dirty_list (txn w t)))) \<and>
    mt_next_pgno (txn w' t) = mt_next_pgno (txn w t)"
proof -
  obtain np pgno w1 dl ids where r: "mdb_page_alloc w mc num = Some (MDB_SUCCESS, np, upd_txn t (\<lambda>x. x\<lparr>mt_dirty_list := dl, mt_dirty_room := mt_dirty_room x - 1\<rparr>)
        (upd_mem (\<lambda>m. set_pgno m np pgno) (upd_env (\<lambda>e. e\<lparr>me_pghead := Some (mop\<lparr>cells := ids\<rparr>)\<rparr>) w1)))" "malloced (w\<lparr>w_ncur := w_ncur w + 1\<rparr>) num np w1"
      "set (page_run pgno num) \<subseteq> set (idl_list (cells mop))" "set (idl_list ids) = set (idl_list (cells mop)) - set (page_run pgno num)" "sorted_wrt (>) (idl_list ids)"
      "set (id2l_list dl) = insert \<lparr>mid = pgno, mptr = np\<rparr> (set (id2l_list (mt_dirty_list (txn w t))))"
    using alloc_from_list[OF assms] by blast
  have "txn w1 = txn w" using malloced_simps(1)[OF r(2)] by (auto simp: txn_def)
  moreover have "np \<noteq> 0" using r(2) by (simp add: malloced_def)
  ultimately show ?thesis using r by auto
qed

text \<open>A writer on the demo database whose list of free pages has the numbers 9, 8 and 5.\<close>

definition demo_writer :: world where
  "demo_writer = demo\<lparr>w_env := demo_env\<lparr>me_pghead := Some \<lparr>alloclen = 3, cells = [3, 9, 8, 5]\<rparr>\<rparr>,
     w_txns := (\<lambda>_. demo_txn\<lparr>mt_flags := 0, mt_dirty_room := 5, mt_dirty_list := replicate (MDB_IDL_UM_MAX + 1) \<lparr>mid = 0, mptr = 0\<rparr>\<rparr>)\<rparr>"

lemma demo_writer_simps:
  "txn demo_writer t = demo_txn\<lparr>mt_flags := 0, mt_dirty_room := 5, mt_dirty_list := replicate (MDB_IDL_UM_MAX + 1) \<lparr>mid = 0, mptr = 0\<rparr>\<rparr>"
  "me_pghead (w_env demo_writer) = Some \<lparr>alloclen = 3, cells = [3, 9, 8, 5]\<rparr>" "me_flags (w_env demo_writer) = 0" "mc_txn (cur demo_writer 0) = 0"
  "mt_loose_pgs (txn demo_writer t) = 0"
  by (simp_all add: demo_writer_def txn_def cur_def) (simp_all add: demo_def demo_env_def demo_txn_def demo_cursor_def)

lemma demo_dirty_ready: "dirty_ready (txn demo_writer t) p"
  by (simp add: demo_writer_simps dirty_ready_def id2l_sorted_def id2l_list_def id2l_count_def content_def MDB_IDL_UM_MAX_def)

lemma demo_can_malloc: "can_malloc demo_writer num"
  by (simp add: can_malloc_def demo_writer_def demo_def)

theorem page_alloc_reuses_run_witness:
  "\<exists>np pgno w' mop'. mdb_page_alloc demo_writer 0 2 = Some (MDB_SUCCESS, np, w') \<and> mp_pgno (w_mem w') np = pgno \<and>
    set (page_run pgno 2) \<subseteq> {9, 8, 5} \<and> me_pghead (w_env w') = Some mop' \<and> set (idl_list (cells mop')) = {9, 8, 5} - set (page_run pgno 2)"
proof -
  let ?mop = "\<lparr>alloclen = 3, cells = [3, 9, 8, 5 :: MDB_ID]\<rparr>"
  have l: "idl_list (cells ?mop) = [9, 8, 5]" "idl_count (cells ?mop) = 3" by (simp_all add: idl_list_def idl_count_def content_def)
  have "set (page_run 8 2) \<subseteq> {9, 8, 5}" by (auto simp: page_run_def upt_rec)
  then show ?thesis
    using page_alloc_reuses_run[of 0 demo_writer 0 2 ?mop 8] demo_dirty_ready demo_can_malloc unfolding l demo_writer_simps by fastforce
qed

end
