(* ===== verification/Page_Move.thy ===== *)
theory Page_Move
  imports Page_Ops
begin

text \<open>
  Pages that are copied to another place: the nodes of a page are those of its copy, whatever number and flags the
  copy gets.
\<close>

lemma page_transfer_body:
  assumes wf: "page_wf psz m src" and leaf: "IS_LEAF m' dst = IS_LEAF m src"
    and eq: "\<And>x. 12 \<le> x \<and> x < 16 + 2 * NUMKEYS m src \<or> (unat (mp_upper m src) \<le> x \<and> x < psz) \<Longrightarrow> m' (dst + x) = m (src + x)"
  shows "page_wf psz m' dst" and "page_nodes m' dst = page_nodes m src" and "mp_lower m' dst = mp_lower m src" and "mp_upper m' dst = mp_upper m src"
    and "NUMKEYS m' dst = NUMKEYS m src" and "\<And>i. i < NUMKEYS m src \<Longrightarrow> nptr m' dst i = nptr m src i"
proof -
  note w = page_wfD[OF wf]
  have rd: "rd16 m' (dst + d) = rd16 m (src + d)" if "12 \<le> d" "d + 2 \<le> 16 + 2 * NUMKEYS m src" for d
    using that eq[of "d + i" for i] by (intro rd16_cong) (auto simp: add.assoc)
  show lo: "mp_lower m' dst = mp_lower m src" and up: "mp_upper m' dst = mp_upper m src"
    using rd[of 12] rd[of 14] by (simp_all add: mp_lower_def mp_upper_def)
  show n: "NUMKEYS m' dst = NUMKEYS m src" by (simp add: NUMKEYS_def lo)
  show ptr: "nptr m' dst i = nptr m src i" if "i < NUMKEYS m src" for i
    using rd[of "16 + 2 * i"] that by (simp add: nptr_def mp_ptrs_def add.assoc)
  have keep: "node_at (IS_LEAF m' dst) m' (NODEPTR m' dst i) = node_at (IS_LEAF m src) m (NODEPTR m src i) \<and> nlen m' dst i = nlen m src i"
    if i: "i < NUMKEYS m src" for i
  proof -
    have "m' (NODEPTR m' dst i + k) = m (NODEPTR m src i + k)" if "k < raw_sz (IS_LEAF m src) m (NODEPTR m src i)" for k
      using eq[of "nptr m src i + k"] w(5,6)[OF i] that EVEN_bounds(1)[of "raw_sz (IS_LEAF m src) m (NODEPTR m src i)"]
      by (simp add: NODEPTR_nptr nlen_def ptr[OF i] add.assoc)
    note c = node_move_cong[of "IS_LEAF m src" m "NODEPTR m src i" m' "NODEPTR m' dst i", OF this]
    show ?thesis using c by (simp add: leaf nlen_def)
  qed
  then show "page_nodes m' dst = page_nodes m src"
    by (intro nth_equalityI) (simp_all add: n nth_page_nodes)
  show "page_wf psz m' dst"
    by (rule page_wfI[of m' dst "NUMKEYS m src"]) (use w keep in \<open>simp_all add: lo up ptr\<close>)
qed

lemma wr_keeps:
  "a + 8 \<le> x \<Longrightarrow> wr64 m a v x = m x" "x < a \<Longrightarrow> wr64 m a v x = m x" "a + 2 \<le> x \<Longrightarrow> wr16 m a u x = m x" "x < a \<Longrightarrow> wr16 m a u x = m x"
  by (simp_all add: wr64_def wr16_def mem_write_def)

lemma set_pgno_page:
  assumes "page_wf psz m mp"
  shows "page_wf psz (set_pgno m mp pg) mp" and "page_nodes (set_pgno m mp pg) mp = page_nodes m mp" and "mp_flags (set_pgno m mp pg) mp = mp_flags m mp"
    and "mp_pgno (set_pgno m mp pg) mp = pg" and "same_outside mp (mp + 8) m (set_pgno m mp pg)"
proof -
  show fl: "mp_flags (set_pgno m mp pg) mp = mp_flags m mp" by (simp add: mp_flags_def set_pgno_def) (intro rd16_cong, simp add: wr_keeps)
  show "mp_pgno (set_pgno m mp pg) mp = pg" by (simp add: mp_pgno_def set_pgno_def)
  show "same_outside mp (mp + 8) m (set_pgno m mp pg)" by (simp add: same_outside_def set_pgno_def wr_keeps)
  have leaf: "IS_LEAF (set_pgno m mp pg) mp = IS_LEAF m mp" by (simp add: IS_LEAF_def fl)
  note t = page_transfer_body[OF assms leaf]
  have eq: "set_pgno m mp pg (mp + x) = m (mp + x)" if "12 \<le> x \<and> x < 16 + 2 * NUMKEYS m mp \<or> (unat (mp_upper m mp) \<le> x \<and> x < psz)" for x
    using that page_wfD(2)[OF assms] by (auto simp: set_pgno_def wr_keeps)
  show "page_wf psz (set_pgno m mp pg) mp" "page_nodes (set_pgno m mp pg) mp = page_nodes m mp" using t eq by blast+
qed

lemma set_dirty_page:
  assumes "page_wf psz m mp"
  defines "m' \<equiv> set_flags m mp (mp_flags m mp OR P_DIRTY)"
  shows "page_wf psz m' mp" and "page_nodes m' mp = page_nodes m mp" and "mp_flags m' mp = mp_flags m mp OR P_DIRTY" and "mp_pgno m' mp = mp_pgno m mp"
    and "same_outside mp (mp + 12) m m'"
proof -
  show fl: "mp_flags m' mp = mp_flags m mp OR P_DIRTY" by (simp add: mp_flags_def m'_def set_flags_def)
  show "mp_pgno m' mp = mp_pgno m mp" by (simp add: mp_pgno_def m'_def set_flags_def) (intro rd64_cong, simp add: wr_keeps)
  show "same_outside mp (mp + 12) m m'" by (simp add: same_outside_def m'_def set_flags_def wr_keeps)
  have leaf: "IS_LEAF m' mp = IS_LEAF m mp" unfolding IS_LEAF_def fl F_ISSET_def by (simp add: bit.conj_disj_distrib2)
  note t = page_transfer_body[OF assms(1) leaf]
  have eq: "m' (mp + x) = m (mp + x)" if "12 \<le> x \<and> x < 16 + 2 * NUMKEYS m mp \<or> (unat (mp_upper m mp) \<le> x \<and> x < psz)" for x
    using that page_wfD(2)[OF assms(1)] by (auto simp: m'_def set_flags_def wr_keeps)
  show "page_wf psz m' mp" "page_nodes m' mp = page_nodes m mp" using t eq by blast+
qed

lemma copy_renumbered:
  assumes wf: "page_wf psz m src" and leaf2: "\<not> IS_LEAF2 m src" and apart: "dst + psz \<le> src \<or> src + psz \<le> dst"
    and m': "m' = set_pgno (mdb_page_copy m dst src psz) dst pg"
  shows "page_wf psz m' dst" and "page_nodes m' dst = page_nodes m src" and "mp_flags m' dst = mp_flags m src"
    and "mp_pgno m' dst = pg" and "same_outside dst (dst + psz) m m'"
proof -
  note c = mdb_page_copy_spec[OF wf leaf2 apart]
  note s = set_pgno_page[OF c(1), of pg]
  show "page_wf psz m' dst" "page_nodes m' dst = page_nodes m src" "mp_flags m' dst = mp_flags m src" "mp_pgno m' dst = pg"
    using s c by (simp_all add: m')
  have "8 \<le> psz" using page_wfD(2,3)[OF wf] by simp
  then show "same_outside dst (dst + psz) m m'"
    using c(5) s(5) unfolding m' by (auto simp: same_outside_def)
qed

end
