(* ===== verification/Page_Spec.thy ===== *)
theory Page_Spec
  imports Btree Page_Ops Demo
begin

text \<open>
  What the operations on the nodes of one page promise at the level of cursors: the byte-level lemmas of the theory
  \<open>Page_Ops\<close> composed with \<open>mdb_node_add\<close>, \<open>mdb_node_del\<close>, \<open>mdb_update_key\<close> and \<open>mdb_node_search\<close>.
\<close>

section \<open>Adding and deleting nodes\<close>

lemma room_iff: "uint x - 2 < int s \<longleftrightarrow> \<not> s + 2 \<le> unat (x :: u16)"
proof -
  have "uint x = int (unat x)" by simp
  then show ?thesis by linarith
qed

lemma page_wf_bounds: "page_wf psz m mp \<Longrightarrow> \<not> mp_upper m mp < mp_lower m mp"
  by (simp add: page_wf_def word_less_nat_alt)

lemma node_add_leaf_run:
  assumes wf: "page_wf psz (w_mem w) (cur_pg w mc)" and leaf: "IS_LEAF (w_mem w) (cur_pg w mc)" "\<not> IS_LEAF2 (w_mem w) (cur_pg w mc)"
    and i: "indx \<le> NUMKEYS (w_mem w) (cur_pg w mc)" and kd: "val_apart (cur_pg w mc) (cur_pg w mc + psz) k" "val_apart (cur_pg w mc) (cur_pg w mc + psz) d"
    and flags: "\<not> F_ISSET flags MDB_RESERVE" "\<not> F_ISSET flags F_BIGDATA" and fit: "8 + mv_size k + mv_size d \<le> me_nodemax (w_env w)"
    and s: "s = EVEN (8 + mv_size k + mv_size d)"
  shows "if s + 2 \<le> unat (SIZELEFT (w_mem w) (cur_pg w mc)) then
      \<exists>m'. mdb_node_add w mc indx (Some k) (Some d) pgno flags = Some (MDB_SUCCESS, Some d, upd_mem (\<lambda>_. m') w) \<and>
        page_wf psz m' (cur_pg w mc) \<and> same_outside (cur_pg w mc) (cur_pg w mc + psz) (w_mem w) m' \<and>
        mp_flags m' (cur_pg w mc) = mp_flags (w_mem w) (cur_pg w mc) \<and>
        page_nodes m' (cur_pg w mc) = take indx (page_nodes (w_mem w) (cur_pg w mc)) @
          leaf_node (ucast flags) (val_bytes (w_mem w) k) (mv_size d) (val_bytes (w_mem w) d) # drop indx (page_nodes (w_mem w) (cur_pg w mc))
    else mdb_node_add w mc indx (Some k) (Some d) pgno flags = Some (MDB_PAGE_FULL, Some d, txn_or (mc_txn (cur w mc)) MDB_TXN_ERROR w)"
proof (cases "s + 2 \<le> unat (SIZELEFT (w_mem w) (cur_pg w mc))")
  case True
  have "mv_size d \<le> s" using EVEN_bounds(1)[of "8 + mv_size k + mv_size d"] s by linarith
  moreover have "unat (SIZELEFT (w_mem w) (cur_pg w mc)) < 65536" using unsigned_less[of "SIZELEFT (w_mem w) (cur_pg w mc)", where ?'a = nat] by simp
  ultimately have dsz: "mv_size d < 2 ^ 32" using True by simp
  obtain m' where m': "node_add_update (w_mem w) (cur_pg w mc) indx (Some k) (Some d) pgno flags s None = Some (m', Some (mv_data d))"
     "page_wf psz m' (cur_pg w mc)" "same_outside (cur_pg w mc) (cur_pg w mc + psz) (w_mem w) m'" "mp_flags m' (cur_pg w mc) = mp_flags (w_mem w) (cur_pg w mc)"
     "page_nodes m' (cur_pg w mc) = take indx (page_nodes (w_mem w) (cur_pg w mc)) @
       leaf_node (ucast flags) (val_bytes (w_mem w) k) (mv_size d) (val_bytes (w_mem w) d) # drop indx (page_nodes (w_mem w) (cur_pg w mc))"
    using node_add_leaf_spec[OF wf leaf(1) i kd dsz flags s True, of pgno] by blast
  have "mdb_node_add w mc indx (Some k) (Some d) pgno flags = Some (MDB_SUCCESS, Some d, upd_mem (\<lambda>_. m') w)"
    using leaf flags(2) fit True m'(1) page_wf_bounds[OF wf]
    by (simp add: mdb_node_add_def node_add_finish_def Let_def s[symmetric] room_iff)
  then show ?thesis using True m'(2-) by auto
next
  case False
  then have "mdb_node_add w mc indx (Some k) (Some d) pgno flags = Some (MDB_PAGE_FULL, Some d, txn_or (mc_txn (cur w mc)) MDB_TXN_ERROR w)"
    using leaf flags(2) fit page_wf_bounds[OF wf] by (simp add: mdb_node_add_def Let_def s[symmetric] room_iff)
  then show ?thesis using False by simp
qed

text \<open>
  C15: \<open>mdb_node_add\<close> on a leaf, for a value stored in the node (not on overflow pages, not only reserved). If the node and its index entry fit the free space, the page then has the node at the
  given index, all other nodes in their order, and stays well-formed; no byte outside the page changes. If they do
  not fit, the result is \<open>MDB_PAGE_FULL\<close>, the memory is unchanged and the transaction is marked with
  \<open>MDB_TXN_ERROR\<close>.
\<close>

theorem node_add_leaf_inserts:
  assumes "page_wf psz (w_mem w) (cur_pg w mc)" and "IS_LEAF (w_mem w) (cur_pg w mc)" and "\<not> IS_LEAF2 (w_mem w) (cur_pg w mc)"
    and "indx \<le> NUMKEYS (w_mem w) (cur_pg w mc)" and "val_apart (cur_pg w mc) (cur_pg w mc + psz) k" and "val_apart (cur_pg w mc) (cur_pg w mc + psz) d"
    and "\<not> F_ISSET flags MDB_RESERVE" and "\<not> F_ISSET flags F_BIGDATA" and "8 + mv_size k + mv_size d \<le> me_nodemax (w_env w)"
  shows "if EVEN (8 + mv_size k + mv_size d) + 2 \<le> unat (SIZELEFT (w_mem w) (cur_pg w mc)) then
      \<exists>m'. mdb_node_add w mc indx (Some k) (Some d) pgno flags = Some (MDB_SUCCESS, Some d, upd_mem (\<lambda>_. m') w) \<and>
        page_wf psz m' (cur_pg w mc) \<and> same_outside (cur_pg w mc) (cur_pg w mc + psz) (w_mem w) m' \<and>
        mp_flags m' (cur_pg w mc) = mp_flags (w_mem w) (cur_pg w mc) \<and>
        page_nodes m' (cur_pg w mc) = take indx (page_nodes (w_mem w) (cur_pg w mc)) @
          leaf_node (ucast flags) (val_bytes (w_mem w) k) (mv_size d) (val_bytes (w_mem w) d) # drop indx (page_nodes (w_mem w) (cur_pg w mc))
    else mdb_node_add w mc indx (Some k) (Some d) pgno flags = Some (MDB_PAGE_FULL, Some d, txn_or (mc_txn (cur w mc)) MDB_TXN_ERROR w)"
  by (rule node_add_leaf_run[OF assms refl])

text \<open>The cursor 0 of the demo database on its leaf page 3.\<close>

definition demo_on_leaf :: world where
  "demo_on_leaf = upd_cur 0 (\<lambda>c. c\<lparr>mc_snum := 1, mc_top := 0, mc_pg := (\<lambda>_. 1408), mc_ki := (\<lambda>_. 1)\<rparr>) demo"

lemma demo_on_leaf_simps [simp]:
  "w_mem demo_on_leaf = demo_mem" "w_env demo_on_leaf = demo_env" "cur_pg demo_on_leaf 0 = 1408" "cur_ki demo_on_leaf 0 = 1"
  by (simp_all add: demo_on_leaf_def cur_pg_def cur_ki_def)

lemma demo_leaf_ptrs:
  "mp_ptrs demo_mem 1408 0 = 118" "mp_ptrs demo_mem 1408 (Suc 0) = 108" "mp_lower demo_mem 1408 = 20" "mp_upper demo_mem 1408 = 108"
  by (simp_all add: mp_ptrs_def mp_lower_def mp_upper_def demo_read)

lemma demo_leaf_wf: "page_wf 128 demo_mem 1408"
proof -
  have len: "nlen demo_mem 1408 0 = 10" "nlen demo_mem 1408 (Suc 0) = 10"
    by (simp_all add: nlen_def raw_sz_def data_len_def demo_simps EVEN_def)
  show ?thesis
    by (simp add: page_wf_def demo_simps demo_leaf_ptrs len nptr_def)
qed

lemma demo_leaf_facts: "IS_LEAF demo_mem 1408" "\<not> IS_LEAF2 demo_mem 1408" "NUMKEYS demo_mem 1408 = 2" "unat (SIZELEFT demo_mem 1408) = 88"
  "me_nodemax demo_env = 54"
  by (simp_all add: demo_simps SIZELEFT_def demo_leaf_ptrs demo_env_def)

lemma upt_2: "[0..<2] = [0, Suc 0]"
  by (simp add: upt_rec)

theorem node_add_leaf_inserts_witness:
  "\<exists>m'. mdb_node_add demo_on_leaf 0 1 (Some (val_of [97, 1])) (Some (val_of [9])) 0 0 = Some (MDB_SUCCESS, Some (val_of [9]), upd_mem (\<lambda>_. m') demo_on_leaf) \<and>
    page_wf 128 m' 1408 \<and> map n_key (page_nodes m' 1408) = [[97], [97, 1], [98]]"
proof -
  have nodes: "map n_key (page_nodes demo_mem 1408) = [[97], [98]]"
    by (simp add: page_nodes_def node_at_def demo_simps NODEKEY_def demo_bytes upt_2)
  have n: "length (page_nodes demo_mem 1408) = 2" by (simp add: page_nodes_def demo_simps)
  have apart: "val_apart 1408 (1408 + 128) (val_of bs)" for bs by (simp add: val_apart_def val_of_def)
  obtain m' where m': "mdb_node_add demo_on_leaf 0 1 (Some (val_of [97, 1])) (Some (val_of [9])) 0 0 = Some (MDB_SUCCESS, Some (val_of [9]), upd_mem (\<lambda>_. m') demo_on_leaf)"
      "page_wf 128 m' 1408" "page_nodes m' 1408 = take 1 (page_nodes demo_mem 1408) @ leaf_node 0 [97, 1] 1 [9] # drop 1 (page_nodes demo_mem 1408)"
    using node_add_leaf_inserts[of 128 demo_on_leaf 0 1 "val_of [97, 1]" "val_of [9]" 0 0] demo_leaf_wf demo_leaf_facts apart
    by (auto simp: F_ISSET_def EVEN_def)
  have "map n_key (page_nodes m' 1408) = take 1 [[97], [98]] @ [97, 1] # drop 1 [[97], [98]]"
    unfolding m'(3) map_append take_map[symmetric] list.map drop_map[symmetric] nodes by (simp add: leaf_node_def)
  then show ?thesis using m'(1,2) by auto
qed

text \<open>
  C16: \<open>mdb_node_del\<close> removes exactly the node the cursor is on: the page keeps its other nodes in their order with
  their contents, although their bytes and index entries move, stays well-formed, and its free space grows by the
  node and its index entry. No byte outside the page changes.
\<close>

theorem node_del_removes:
  assumes "page_wf psz (w_mem w) (cur_pg w mc)" and "cur_ki w mc < NUMKEYS (w_mem w) (cur_pg w mc)" and "\<not> IS_LEAF2 (w_mem w) (cur_pg w mc)"
  shows "\<exists>m'. mdb_node_del w mc ks = Some (upd_mem (\<lambda>_. m') w) \<and> page_wf psz m' (cur_pg w mc) \<and>
     page_nodes m' (cur_pg w mc) = take (cur_ki w mc) (page_nodes (w_mem w) (cur_pg w mc)) @ drop (Suc (cur_ki w mc)) (page_nodes (w_mem w) (cur_pg w mc)) \<and>
     unat (SIZELEFT m' (cur_pg w mc)) = unat (SIZELEFT (w_mem w) (cur_pg w mc)) + nlen (w_mem w) (cur_pg w mc) (cur_ki w mc) + 2 \<and>
     same_outside (cur_pg w mc) (cur_pg w mc + psz) (w_mem w) m'"
  using page_node_del_spec[OF assms, of ks] by (auto simp: mdb_node_del_def)

lemma demo_leaf_keys: "map n_key (page_nodes demo_mem 1408) = [[97], [98]]"
  by (simp add: page_nodes_def node_at_def demo_simps NODEKEY_def demo_bytes upt_2)

theorem node_del_removes_witness:
  "\<exists>m'. mdb_node_del demo_on_leaf 0 0 = Some (upd_mem (\<lambda>_. m') demo_on_leaf) \<and> page_wf 128 m' 1408 \<and> map n_key (page_nodes m' 1408) = [[97]]"
proof -
  obtain m' where m': "mdb_node_del demo_on_leaf 0 0 = Some (upd_mem (\<lambda>_. m') demo_on_leaf)" "page_wf 128 m' 1408"
      "page_nodes m' 1408 = take 1 (page_nodes demo_mem 1408) @ drop (Suc 1) (page_nodes demo_mem 1408)"
    using node_del_removes[of 128 demo_on_leaf 0 0] demo_leaf_wf demo_leaf_facts by auto
  have "map n_key (page_nodes m' 1408) = take 1 [[97], [98]] @ drop (Suc 1) [[97], [98]]"
    unfolding m'(3) map_append take_map[symmetric] drop_map[symmetric] demo_leaf_keys ..
  then show ?thesis using m'(1,2) by auto
qed

text \<open>
  C17: Deleting the node that was just added gives the old nodes back: after a successful \<open>mdb_node_add\<close> on a leaf, a
  \<open>mdb_node_del\<close> at the same index succeeds, and the page has the same nodes as before the two calls.
\<close>

theorem node_add_del_roundtrip:
  assumes "page_wf psz (w_mem w) (cur_pg w mc)" and "IS_LEAF (w_mem w) (cur_pg w mc)" and "\<not> IS_LEAF2 (w_mem w) (cur_pg w mc)"
    and "cur_ki w mc \<le> NUMKEYS (w_mem w) (cur_pg w mc)" and "val_apart (cur_pg w mc) (cur_pg w mc + psz) k" and "val_apart (cur_pg w mc) (cur_pg w mc + psz) d"
    and "\<not> F_ISSET flags MDB_RESERVE" and "\<not> F_ISSET flags F_BIGDATA" and "8 + mv_size k + mv_size d \<le> me_nodemax (w_env w)"
    and "mdb_node_add w mc (cur_ki w mc) (Some k) (Some d) pgno flags = Some (MDB_SUCCESS, d', w1)"
  shows "\<exists>w2. mdb_node_del w1 mc ks = Some w2 \<and> page_wf psz (w_mem w2) (cur_pg w mc) \<and>
    page_nodes (w_mem w2) (cur_pg w mc) = page_nodes (w_mem w) (cur_pg w mc) \<and> same_outside (cur_pg w mc) (cur_pg w mc + psz) (w_mem w) (w_mem w2)"
proof -
  let ?mp = "cur_pg w mc" and ?i = "cur_ki w mc"
  obtain m' where w1: "w1 = upd_mem (\<lambda>_. m') w" and m': "page_wf psz m' ?mp" "same_outside ?mp (?mp + psz) (w_mem w) m'" "mp_flags m' ?mp = mp_flags (w_mem w) ?mp"
      "page_nodes m' ?mp = take ?i (page_nodes (w_mem w) ?mp) @ leaf_node (ucast flags) (val_bytes (w_mem w) k) (mv_size d) (val_bytes (w_mem w) d) # drop ?i (page_nodes (w_mem w) ?mp)"
    using node_add_leaf_run[OF assms(1-9) refl, of pgno] assms(10) by (auto split: if_splits)
  have len: "length (page_nodes (w_mem w) ?mp) = NUMKEYS (w_mem w) ?mp" "length (page_nodes m' ?mp) = NUMKEYS m' ?mp" by (simp_all add: page_nodes_def)
  have i: "?i < NUMKEYS m' ?mp" using arg_cong[OF m'(4), of length] len assms(4) by simp
  have "\<not> IS_LEAF2 m' ?mp" using assms(3) m'(3) by (simp add: IS_LEAF2_def)
  then obtain m2 where m2: "page_node_del m' ?mp ?i ks = Some m2" "page_wf psz m2 ?mp" "same_outside ?mp (?mp + psz) m' m2"
      "page_nodes m2 ?mp = take ?i (page_nodes m' ?mp) @ drop (Suc ?i) (page_nodes m' ?mp)"
    using page_node_del_spec[OF m'(1) i, of ks] by blast
  have "page_nodes m2 ?mp = page_nodes (w_mem w) ?mp" unfolding m2(4) m'(4) using len(1) assms(4) by simp
  moreover have "mdb_node_del w1 mc ks = Some (upd_mem (\<lambda>_. m2) w1)" using m2(1) by (simp add: mdb_node_del_def w1 cur_pg_def cur_ki_def)
  ultimately show ?thesis using m2(2) same_outside_trans[OF m'(2) m2(3)] by simp
qed

theorem node_add_del_roundtrip_witness:
  "\<exists>w1 w2. mdb_node_add demo_on_leaf 0 1 (Some (val_of [97, 1])) (Some (val_of [9])) 0 0 = Some (MDB_SUCCESS, Some (val_of [9]), w1) \<and>
    mdb_node_del w1 0 0 = Some w2 \<and> page_nodes (w_mem w2) 1408 = page_nodes demo_mem 1408"
proof -
  have apart: "val_apart 1408 (1408 + 128) (val_of bs)" for bs by (simp add: val_apart_def val_of_def)
  obtain m' where m': "mdb_node_add demo_on_leaf 0 1 (Some (val_of [97, 1])) (Some (val_of [9])) 0 0 = Some (MDB_SUCCESS, Some (val_of [9]), upd_mem (\<lambda>_. m') demo_on_leaf)"
    using node_add_leaf_run[of 128 demo_on_leaf 0 1 "val_of [97, 1]" "val_of [9]" 0 _ 0] demo_leaf_wf demo_leaf_facts apart
    by (auto simp: F_ISSET_def EVEN_def)
  then show ?thesis
    using node_add_del_roundtrip[of 128 demo_on_leaf 0 "val_of [97, 1]" "val_of [9]" 0 0 "Some (val_of [9])" "upd_mem (\<lambda>_. m') demo_on_leaf" 0]
      demo_leaf_wf demo_leaf_facts apart by (auto simp: F_ISSET_def)
qed

end
