(* ===== verification/Touch_Spec.thy ===== *)
theory Touch_Spec
  imports Alloc_Spec Page_Move Page_Spec
begin

text \<open>
  Copy on write: \<open>mdb_page_touch\<close> gives a clean page a new number and a new place and leaves the map of the data file, and
  with it every snapshot, as it is.
\<close>

section \<open>Cursors that follow the page\<close>

definition moved :: "addr \<Rightarrow> addr \<Rightarrow> nat \<Rightarrow> nat \<Rightarrow> MDB_cursor \<Rightarrow> MDB_cursor" where
  "moved mp np snum lv c = (if snum \<le> mc_snum c \<and> mc_pg c lv = mp then c\<lparr>mc_pg := (mc_pg c)(lv := np)\<rparr> else c)"

lemma set_pg_at_simps [simp]:
  "w_mem (set_pg_at c i p w) = w_mem w" "w_env (set_pg_at c i p w) = w_env w" "txn (set_pg_at c i p w) t = txn w t" "get_db (set_pg_at c i p w) mc = get_db w mc"
  "cur (set_pg_at c i p w) d = (if c = d then (cur w d)\<lparr>mc_pg := (mc_pg (cur w d))(i := p)\<rparr> else cur w d)"
  by (auto simp: set_pg_at_def get_db_def split: option.split)

lemma touch_cursors_run:
  assumes "md_flags (get_db w mc) AND MDB_DUPSORT = 0"
  shows "\<exists>w'. touch_cursors w mc mp np ms = Some w' \<and> w_mem w' = w_mem w \<and> w_env w' = w_env w \<and> txn w' = txn w \<and>
    (\<forall>c. cur w' c = (if c \<in> set ms \<and> c \<noteq> mc then moved mp np (mc_snum (cur w mc)) (mc_top (cur w mc)) (cur w c) else cur w c))"
  using assms
proof (induction ms arbitrary: w)
  case (Cons m2 ms)
  let ?top = "mc_top (cur w mc)"
  define w1 where "w1 = (if mc_snum (cur w mc) \<le> mc_snum (cur w m2) \<and> m2 \<noteq> mc \<and> mc_pg (cur w m2) ?top = mp then set_pg_at m2 ?top np w else w)"
  have same: "w_mem w1 = w_mem w" "w_env w1 = w_env w" "txn w1 = txn w" "get_db w1 mc = get_db w mc" "cur w1 mc = cur w mc"
    by (auto simp: w1_def)
  have c1: "cur w1 c = (if c = m2 \<and> c \<noteq> mc then moved mp np (mc_snum (cur w mc)) ?top (cur w c) else cur w c)" for c
    by (auto simp: w1_def moved_def)
  have "touch_cursors w mc mp np (m2 # ms) = touch_cursors w1 mc mp np ms"
    using Cons.prems by (auto simp: w1_def Let_def)
  moreover obtain w' where "touch_cursors w1 mc mp np ms = Some w'" "w_mem w' = w_mem w1" "w_env w' = w_env w1" "txn w' = txn w1"
     "\<forall>c. cur w' c = (if c \<in> set ms \<and> c \<noteq> mc then moved mp np (mc_snum (cur w1 mc)) (mc_top (cur w1 mc)) (cur w1 c) else cur w1 c)"
    using Cons.IH[of w1] Cons.prems unfolding same by blast
  moreover have "moved mp np s t (moved mp np s t c) = moved mp np s t c" for s t c by (auto simp: moved_def)
  ultimately show ?case unfolding same by (auto simp: c1)
qed auto

lemma set_pg_simps [simp]:
  "w_mem (set_pg c p w) = w_mem w" "w_env (set_pg c p w) = w_env w" "txn (set_pg c p w) t = txn w t" "get_db (set_pg c p w) mc = get_db w mc"
  "cur (set_pg c p w) d = (if c = d then (cur w d)\<lparr>mc_pg := (mc_pg (cur w d))(mc_top (cur w d) := p)\<rparr> else cur w d)"
  by (auto simp: set_pg_def get_db_def split: option.split)

lemma touch_done_run:
  assumes "md_flags (get_db w mc) AND MDB_DUPSORT = 0" and "mc_flags (cur w mc) AND C_SUB = 0" and "mt_cursors (txn w (mc_txn (cur w mc))) = Some cs"
  shows "\<exists>w'. touch_done w mc mp np = Some (0, w') \<and> w_mem w' = w_mem w \<and> w_env w' = w_env w \<and> txn w' = txn w \<and> cur_pg w' mc = np \<and>
    (\<forall>c. c \<noteq> mc \<longrightarrow> cur w' c = (if c \<in> set (cs (mc_dbi (cur w mc))) then moved mp np (mc_snum (cur w mc)) (mc_top (cur w mc)) (cur w c) else cur w c)) \<and>
    cur w' mc = (cur w mc)\<lparr>mc_pg := (mc_pg (cur w mc))(mc_top (cur w mc) := np)\<rparr>"
proof -
  let ?w = "set_pg mc np w"
  obtain w' where "touch_cursors ?w mc mp np (cs (mc_dbi (cur w mc))) = Some w'" "w_mem w' = w_mem ?w" "w_env w' = w_env ?w" "txn w' = txn ?w"
     "\<forall>c. cur w' c = (if c \<in> set (cs (mc_dbi (cur w mc))) \<and> c \<noteq> mc then moved mp np (mc_snum (cur ?w mc)) (mc_top (cur ?w mc)) (cur ?w c) else cur ?w c)"
    using touch_cursors_run[of ?w mc mp np "cs (mc_dbi (cur w mc))"] assms(1) by auto
  moreover have "txn ?w = txn w" by (rule ext) simp
  ultimately show ?thesis using assms(2,3) by (auto simp: touch_done_def cur_pg_def)
qed

section \<open>The copy\<close>

lemma touch_copy_page:
  assumes wf: "page_wf psz m mp" and leaf2: "\<not> IS_LEAF2 m mp" and apart: "np + psz \<le> mp \<or> mp + psz \<le> np"
    and m': "m' = (let m = mdb_page_copy m np mp psz; m = set_pgno m np pgno in set_flags m np (mp_flags m np OR P_DIRTY))"
  shows "page_wf psz m' np" and "page_nodes m' np = page_nodes m mp" and "mp_flags m' np = mp_flags m mp OR P_DIRTY"
    and "mp_pgno m' np = pgno" and "same_outside np (np + psz) m m'"
proof -
  let ?m = "set_pgno (mdb_page_copy m np mp psz) np pgno"
  note c = copy_renumbered[OF wf leaf2 apart refl, of pgno]
  note d = set_dirty_page[OF c(1)]
  show "page_wf psz m' np" "page_nodes m' np = page_nodes m mp" "mp_flags m' np = mp_flags m mp OR P_DIRTY" "mp_pgno m' np = pgno"
    using c d by (simp_all add: m' Let_def)
  have "12 \<le> psz" using page_wfD(2,3)[OF wf] by simp
  then show "same_outside np (np + psz) m m'" using c(5) d(5) unfolding m' Let_def by (auto simp: same_outside_def)
qed

lemma midl_need_room:
  assumes "midl_wf l" and "idl_count (cells l) < unat (alloclen l)" and "unat (alloclen l) < 2 ^ 32"
  shows "mdb_midl_need ok g l 1 = Some (0, l)"
proof -
  have c: "aget (cells l) 0 = Some (cells l ! 0)" using assms(1) by (simp add: midl_wf_def)
  have "unat (1 + ucast (cells l ! 0) :: u32) = Suc (idl_count (cells l))"
    using assms(2,3) by (simp add: idl_count_def unat_word_ariths unsigned_ucast_eq take_bit_eq_mod)
  then show ?thesis unfolding mdb_midl_need_def c using assms(2) by simp
qed

text \<open>
  \<open>touch_ready\<close>: the cursor is on a clean page of the map, a page number is free, there is room in the lists and a page
  buffer, and the buffers and the parent page are not in the map.
\<close>

definition in_map :: "world \<Rightarrow> addr \<Rightarrow> bool" where
  "in_map w x \<longleftrightarrow> me_map (w_env w) \<le> x \<and> x < me_map (w_env w) + me_mapsize (w_env w)"

definition off_map :: "world \<Rightarrow> addr \<Rightarrow> bool" where
  "off_map w p \<longleftrightarrow> p + me_psize (w_env w) \<le> me_map (w_env w) \<or> me_map (w_env w) + me_mapsize (w_env w) \<le> p"

definition parent_pg :: "world \<Rightarrow> nat \<Rightarrow> addr" where
  "parent_pg w mc = mc_pg (cur w mc) (mc_top (cur w mc) - 1)"

definition parent_ki :: "world \<Rightarrow> nat \<Rightarrow> nat" where
  "parent_ki w mc = mc_ki (cur w mc) (mc_top (cur w mc) - 1)"

definition clean_page :: "world \<Rightarrow> addr \<Rightarrow> bool" where
  "clean_page w mp \<longleftrightarrow> page_wf (me_psize (w_env w)) (w_mem w) mp \<and> \<not> IS_LEAF2 (w_mem w) mp \<and> \<not> F_ISSET (mp_flags (w_mem w) mp) P_DIRTY \<and>
     me_map (w_env w) \<le> mp \<and> mp + me_psize (w_env w) \<le> me_map (w_env w) + me_mapsize (w_env w)"

definition writer_ready :: "world \<Rightarrow> nat \<Rightarrow> MDB_IDL \<Rightarrow> bool" where
  "writer_ready w t mop \<longleftrightarrow> mt_flags (txn w t) AND MDB_TXN_SPILLS = 0 \<and> mt_loose_pgs (txn w t) = 0 \<and> 0 < mt_dirty_room (txn w t) \<and>
     midl_wf (mt_free_pgs (txn w t)) \<and> idl_count (cells (mt_free_pgs (txn w t))) < unat (alloclen (mt_free_pgs (txn w t))) \<and> unat (alloclen (mt_free_pgs (txn w t))) < 2 ^ 32 \<and>
     me_flags (w_env w) AND MDB_WRITEMAP = 0 \<and> can_malloc w 1 \<and> me_pghead (w_env w) = Some mop \<and> idl_count (cells mop) < length (cells mop) \<and>
     sorted_wrt (>) (idl_list (cells mop)) \<and> idl_list (cells mop) \<noteq> [] \<and> (\<forall>p \<in> set (idl_list (cells mop)). dirty_ready (txn w t) p \<and> p < 2 ^ 48)"

definition buffer_ready :: "world \<Rightarrow> nat \<Rightarrow> bool" where
  "buffer_ready w mc \<longleftrightarrow> (\<forall>b \<in> {me_dpages (w_env w), w_brk w}. off_map w b \<and>
     (0 < mc_top (cur w mc) \<longrightarrow> b + me_psize (w_env w) \<le> parent_pg w mc \<or> parent_pg w mc + me_psize (w_env w) \<le> b))"

definition parent_ready :: "world \<Rightarrow> nat \<Rightarrow> bool" where
  "parent_ready w mc \<longleftrightarrow> 0 < mc_top (cur w mc) \<longrightarrow> page_wf (me_psize (w_env w)) (w_mem w) (parent_pg w mc) \<and> parent_ki w mc < NUMKEYS (w_mem w) (parent_pg w mc) \<and>
     off_map w (parent_pg w mc)"

definition touch_ready :: "world \<Rightarrow> nat \<Rightarrow> MDB_IDL \<Rightarrow> bool" where
  "touch_ready w mc mop \<longleftrightarrow> clean_page w (cur_pg w mc) \<and> writer_ready w (mc_txn (cur w mc)) mop \<and> buffer_ready w mc \<and> parent_ready w mc \<and>
     mp_pgno (w_mem w) (cur_pg w mc) \<notin> set (idl_list (cells mop)) \<and> mc_dbsrc (cur w mc) = None \<and> mc_flags (cur w mc) AND C_SUB = 0 \<and>
     md_flags (get_db w mc) AND MDB_DUPSORT = 0 \<and> mt_cursors (txn w (mc_txn (cur w mc))) \<noteq> None"

lemma set_free_pgs_same: "set_free_pgs t (mt_free_pgs (txn w t)) w = w"
  by (simp add: set_free_pgs_def upd_txn_def txn_def)

text \<open>\<open>renumbered\<close>: the world after the allocation of one page.\<close>

definition renumbered :: "world \<Rightarrow> nat \<Rightarrow> MDB_IDL \<Rightarrow> addr \<Rightarrow> u64 \<Rightarrow> world \<Rightarrow> bool" where
  "renumbered w mc mop np pgno w2 \<longleftrightarrow> (\<exists>dl ids. txn w2 = (txn w)(mc_txn (cur w mc) := (txn w (mc_txn (cur w mc)))\<lparr>mt_dirty_list := dl, mt_dirty_room := mt_dirty_room (txn w (mc_txn (cur w mc))) - 1\<rparr>) \<and>
     me_pghead (w_env w2) = Some (mop\<lparr>cells := ids\<rparr>) \<and> pgno \<in> set (idl_list (cells mop)) \<and> set (idl_list ids) = set (idl_list (cells mop)) - {pgno} \<and>
     sorted_wrt (>) (idl_list ids) \<and> set (id2l_list dl) = insert \<lparr>mid = pgno, mptr = np\<rparr> (set (id2l_list (mt_dirty_list (txn w (mc_txn (cur w mc))))))) \<and>
     cur w2 = cur w \<and> me_psize (w_env w2) = me_psize (w_env w) \<and> me_map (w_env w2) = me_map (w_env w) \<and> me_mapsize (w_env w2) = me_mapsize (w_env w) \<and>
     np \<noteq> 0 \<and> np \<in> {me_dpages (w_env w), w_brk w} \<and> mp_pgno (w_mem w2) np = pgno \<and> same_outside np (np + me_psize (w_env w)) (w_mem w) (w_mem w2)"

lemma touch_alloc:
  assumes r: "writer_ready w (mc_txn (cur w mc)) mop" and psz: "16 \<le> me_psize (w_env w)"
  shows "\<exists>np pgno w2. mdb_page_alloc w mc 1 = Some (MDB_SUCCESS, np, w2) \<and> renumbered w mc mop np pgno w2"
proof -
  let ?t = "mc_txn (cur w mc)" and ?xs = "idl_list (cells mop)" and ?w = "w\<lparr>w_ncur := w_ncur w + 1\<rparr>"
  obtain p0 where p0: "p0 \<in> set ?xs" using r by (cases ?xs) (auto simp: writer_ready_def)
  have run: "set (page_run p 1) = {p}" for p by (simp add: page_run_def)
  have small: "unat p0 + 1 \<le> 2 ^ 64"
  proof -
    have "p0 < 2 ^ 48" using r p0 by (auto simp: writer_ready_def)
    then show ?thesis by (simp add: word_less_nat_alt)
  qed
  obtain np pgno w1 dl ids where a: "mdb_page_alloc w mc 1 = Some (MDB_SUCCESS, np, upd_txn ?t (\<lambda>x. x\<lparr>mt_dirty_list := dl, mt_dirty_room := mt_dirty_room x - 1\<rparr>)
        (upd_mem (\<lambda>m. set_pgno m np pgno) (upd_env (\<lambda>e. e\<lparr>me_pghead := Some (mop\<lparr>cells := ids\<rparr>)\<rparr>) w1)))"
      and m: "malloced ?w 1 np w1" and sub: "{pgno} \<subseteq> set ?xs" and rest: "set (idl_list ids) = set ?xs - {pgno}" "sorted_wrt (>) (idl_list ids)"
      and dl: "set (id2l_list dl) = insert \<lparr>mid = pgno, mptr = np\<rparr> (set (id2l_list (mt_dirty_list (txn w ?t))))"
    using alloc_from_list[of ?t w mc 1 mop p0] r p0 small unfolding run writer_ready_def by auto
  let ?w2 = "upd_txn ?t (\<lambda>x. x\<lparr>mt_dirty_list := dl, mt_dirty_room := mt_dirty_room x - 1\<rparr>)
        (upd_mem (\<lambda>m. set_pgno m np pgno) (upd_env (\<lambda>e. e\<lparr>me_pghead := Some (mop\<lparr>cells := ids\<rparr>)\<rparr>) w1))"
  have w: "txn ?w = txn w" "cur ?w = cur w" by (auto simp: txn_def cur_def)
  note ms = malloced_simps[OF m, unfolded w]
  have "same_outside np (np + me_psize (w_env w)) (w_mem w) (w_mem w1)" using m psz by (simp add: malloced_def)
  then have "same_outside np (np + me_psize (w_env w)) (w_mem w) (w_mem ?w2)"
    using psz by (auto simp: same_outside_def set_pgno_def wr_keeps)
  moreover have "txn ?w2 = (txn w)(?t := (txn w ?t)\<lparr>mt_dirty_list := dl, mt_dirty_room := mt_dirty_room (txn w ?t) - 1\<rparr>)"
    by (rule ext) (simp add: ms)
  moreover have "cur ?w2 = cur w" by (rule ext) (simp add: ms)
  moreover have "np \<noteq> 0" "np \<in> {me_dpages (w_env w), w_brk w}" using m by (auto simp: malloced_def)
  ultimately have "renumbered w mc mop np pgno ?w2"
    unfolding renumbered_def using ms sub rest dl by (intro conjI exI[of _ dl] exI[of _ ids]) simp_all
  then show ?thesis using a by blast
qed

lemma page_unchanged:
  assumes "page_wf psz m mp" and "\<And>x. mp \<le> x \<Longrightarrow> x < mp + psz \<Longrightarrow> m' x = m x"
  shows "page_wf psz m' mp" and "page_nodes m' mp = page_nodes m mp" and "mp_flags m' mp = mp_flags m mp" and "mp_pgno m' mp = mp_pgno m mp"
    and "NUMKEYS m' mp = NUMKEYS m mp" and "\<And>i. i < NUMKEYS m mp \<Longrightarrow> nptr m' mp i = nptr m mp i"
proof -
  have eq: "m' (mp + x) = m (mp + x)" if "x < 16 + 2 * NUMKEYS m mp \<or> (unat (mp_upper m mp) \<le> x \<and> x < psz)" for x
    using that assms(2)[of "mp + x"] page_wfD(2,3)[OF assms(1)] by auto
  note t = page_transfer[OF assms(1) eq]
  show "page_wf psz m' mp" "page_nodes m' mp = page_nodes m mp" "mp_flags m' mp = mp_flags m mp" "mp_pgno m' mp = mp_pgno m mp" using t by blast+
  have "IS_LEAF m' mp = IS_LEAF m mp" using t(3) by (simp add: IS_LEAF_def)
  from page_transfer_body[OF assms(1) this] show "NUMKEYS m' mp = NUMKEYS m mp" "\<And>i. i < NUMKEYS m mp \<Longrightarrow> nptr m' mp i = nptr m mp i" using eq by auto
qed

text \<open>The link to the page: the parent's node, or the root of the database.\<close>

definition relink :: "nat \<Rightarrow> u64 \<Rightarrow> world \<Rightarrow> world" where
  "relink mc pgno w = (if mc_top (cur w mc) \<noteq> 0 then upd_mem (\<lambda>m. SETPGNO m (NODEPTR (w_mem w) (parent_pg w mc) (parent_ki w mc)) pgno) w
     else upd_db mc (\<lambda>d. d\<lparr>md_root := pgno\<rparr>) w)"

lemma relink_simps:
  assumes "mc_dbsrc (cur w mc) = None"
  shows "cur (relink mc pgno w) = cur w" and "w_env (relink mc pgno w) = w_env w" and "mt_free_pgs (txn (relink mc pgno w) t) = mt_free_pgs (txn w t)"
    and "mt_dirty_list (txn (relink mc pgno w) t) = mt_dirty_list (txn w t)" and "mt_cursors (txn (relink mc pgno w) t) = mt_cursors (txn w t)"
    and "md_flags (get_db (relink mc pgno w) mc) = md_flags (get_db w mc)" and "mc_top (cur w mc) = 0 \<Longrightarrow> md_root (get_db (relink mc pgno w) mc) = pgno"
    and "mc_top (cur w mc) = 0 \<Longrightarrow> w_mem (relink mc pgno w) = w_mem w"
  using assms by (auto simp: relink_def upd_db_def get_db_def)

lemma relink_parent:
  assumes top: "0 < mc_top (cur w mc)" and wf: "page_wf psz (w_mem w) (parent_pg w mc)" and ki: "parent_ki w mc < NUMKEYS (w_mem w) (parent_pg w mc)" and "pgno < 2 ^ 48"
  defines "m' \<equiv> w_mem (relink mc pgno w)"
  shows "same_outside (parent_pg w mc) (parent_pg w mc + psz) (w_mem w) m'" and "NODEPGNO m' (NODEPTR m' (parent_pg w mc) (parent_ki w mc)) = pgno"
    and "nptr m' (parent_pg w mc) (parent_ki w mc) = nptr (w_mem w) (parent_pg w mc) (parent_ki w mc)"
proof -
  let ?p = "parent_pg w mc" and ?node = "NODEPTR (w_mem w) (parent_pg w mc) (parent_ki w mc)"
  have m': "m' = SETPGNO (w_mem w) ?node pgno" using top by (simp add: m'_def relink_def)
  have b: "?p + 16 + 2 * NUMKEYS (w_mem w) ?p \<le> ?node" "?node + 8 \<le> ?p + psz"
    using page_wfD(2,5,6)[OF wf] ki nlen_pos[of "w_mem w" ?p "parent_ki w mc"] unfolding NODEPTR_nptr by fastforce+
  have so: "same_outside ?node (?node + 6) (w_mem w) m'" unfolding m' by (rule same_outside_SETPGNO) simp_all
  show "same_outside ?p (?p + psz) (w_mem w) m'" by (rule same_outside_mono[OF so]) (use b in auto)
  have "mp_ptrs m' ?p (parent_ki w mc) = mp_ptrs (w_mem w) ?p (parent_ki w mc)"
    unfolding mp_ptrs_def by (intro rd16_cong same_outsideD[OF so]) (use b ki in auto)
  then show n: "nptr m' ?p (parent_ki w mc) = nptr (w_mem w) ?p (parent_ki w mc)" by (simp add: nptr_def)
  then have "NODEPTR m' ?p (parent_ki w mc) = ?node" by (simp add: NODEPTR_nptr)
  then show "NODEPGNO m' (NODEPTR m' ?p (parent_ki w mc)) = pgno" using NODEPGNO_SETPGNO[OF assms(4)] by (simp add: m')
qed

lemma touch_clean_run:
  assumes ready: "writer_ready w t mop" and t: "t = mc_txn (cur w mc)" and alloc: "mdb_page_alloc w mc 1 = Some (MDB_SUCCESS, np, w2)"
    and r: "renumbered w mc mop np pgno w2" and old: "mp_pgno (w_mem w2) mp = old" "old \<noteq> pgno"
  shows "\<exists>ids. idl_list ids = idl_list (cells (mt_free_pgs (txn w t))) @ [old] \<and>
    touch_clean w mc mp = touch_copy (relink mc pgno (set_free_pgs t ((mt_free_pgs (txn w t))\<lparr>cells := ids\<rparr>) w2)) mc mp np pgno"
proof -
  let ?l = "mt_free_pgs (txn w t)"
  have l: "midl_wf ?l" "idl_count (cells ?l) < unat (alloclen ?l)" "unat (alloclen ?l) < 2 ^ 32" using ready by (simp_all add: writer_ready_def)
  have need: "mdb_midl_need (w_ok w) (w_gid w) ?l 1 = Some (0, ?l)" by (rule midl_need_room[OF l])
  have l2: "mt_free_pgs (txn w2 t) = ?l" using r t by (auto simp: renumbered_def)
  have "idl_count (cells ?l) + 1 < length (cells ?l)" "idl_count (cells ?l) + 1 < 2 ^ 64" using l by (simp_all add: midl_wf_def)
  from mdb_midl_xappend_spec[OF this, of old] obtain ids where ids: "mdb_midl_xappend (cells ?l) old = Some ids" "idl_list ids = idl_list (cells ?l) @ [old]" by blast
  have pg: "mp_pgno (w_mem w2) np = pgno" "cur w2 = cur w" using r by (simp_all add: renumbered_def)
  have "touch_clean w mc mp = touch_copy (relink mc pgno (set_free_pgs t (?l\<lparr>cells := ids\<rparr>) w2)) mc mp np pgno"
    unfolding touch_clean_def Let_def t[symmetric] need Option.bind.simps prod.case set_free_pgs_same alloc pg old l2 ids
    using old(2) by (simp add: relink_def parent_pg_def parent_ki_def)
  then show ?thesis using ids(2) by blast
qed

lemma NODEPGNO_cong: "(\<And>y. a \<le> y \<Longrightarrow> y < a + 8 \<Longrightarrow> m' y = m y) \<Longrightarrow> NODEPGNO m' a = NODEPGNO m a"
proof -
  assume eq: "\<And>y. a \<le> y \<Longrightarrow> y < a + 8 \<Longrightarrow> m' y = m y"
  have "mn_lo m' a = mn_lo m a" "mn_hi m' a = mn_hi m a" "mn_flags m' a = mn_flags m a"
    unfolding mn_lo_def mn_hi_def mn_flags_def by (intro rd16_cong eq; simp)+
  then show ?thesis by (simp add: NODEPGNO_def)
qed

text \<open>What the new link leaves alone, and that it stays when the new page is written.\<close>

lemma relinked_mem:
  assumes so: "same_outside np (np + me_psize (w_env w)) (w_mem w) (w_mem w3)" and c: "cur w3 = cur w" and br: "buffer_ready w mc" and pr: "parent_ready w mc"
    and np: "np \<in> {me_dpages (w_env w), w_brk w}" and pg: "pgno < 2 ^ 48" and dbsrc: "mc_dbsrc (cur w mc) = None"
  defines "m4 \<equiv> w_mem (relink mc pgno w3)"
  shows "in_map w x \<Longrightarrow> m4 x = w_mem w x"
    and "0 < mc_top (cur w mc) \<Longrightarrow> same_outside np (np + me_psize (w_env w)) m4 m6 \<Longrightarrow> NODEPGNO m6 (NODEPTR m6 (parent_pg w mc) (parent_ki w mc)) = pgno"
proof -
  let ?psz = "me_psize (w_env w)" and ?par = "parent_pg w mc" and ?ki = "parent_ki w mc"
  have p3: "parent_pg w3 mc = ?par" "parent_ki w3 mc = ?ki" by (simp_all add: parent_pg_def parent_ki_def c)
  have off: "off_map w np" "0 < mc_top (cur w mc) \<Longrightarrow> np + ?psz \<le> ?par \<or> ?par + ?psz \<le> np" using br np by (auto simp: buffer_ready_def)
  have par: "page_wf ?psz (w_mem w) ?par" "?ki < NUMKEYS (w_mem w) ?par" "off_map w ?par" if "0 < mc_top (cur w mc)"
    using pr that by (simp_all add: parent_ready_def)
  have wf3: "page_wf ?psz (w_mem w3) ?par" "?ki < NUMKEYS (w_mem w3) ?par" if "0 < mc_top (cur w mc)"
  proof -
    have eq: "w_mem w3 y = w_mem w y" if "?par \<le> y" "y < ?par + ?psz" for y
      using that same_outsideD[OF so, of y] off(2)[OF \<open>0 < mc_top (cur w mc)\<close>] by auto
    show "page_wf ?psz (w_mem w3) ?par" "?ki < NUMKEYS (w_mem w3) ?par" using page_unchanged(1,5)[OF par(1)[OF that] eq] par(2)[OF that] by auto
  qed
  have rp: "same_outside ?par (?par + ?psz) (w_mem w3) m4" "NODEPGNO m4 (NODEPTR m4 ?par ?ki) = pgno" "nptr m4 ?par ?ki = nptr (w_mem w3) ?par ?ki" if "0 < mc_top (cur w mc)"
    using relink_parent[of w3 mc ?psz pgno] wf3[OF that] that pg by (simp_all add: c p3 m4_def)
  show "m4 x = w_mem w x" if x: "in_map w x"
  proof -
    have "w_mem w3 x = w_mem w x" using same_outsideD[OF so, of x] off(1) x by (auto simp: off_map_def in_map_def)
    moreover have "m4 x = w_mem w3 x"
    proof (cases "0 < mc_top (cur w mc)")
      case True
      then show ?thesis using same_outsideD[OF rp(1)[OF True], of x] par(3)[OF True] x by (auto simp: off_map_def in_map_def)
    next
      case False
      then show ?thesis using relink_simps(8)[of w3 mc pgno] dbsrc by (simp add: m4_def c)
    qed
    ultimately show ?thesis by simp
  qed
  show "NODEPGNO m6 (NODEPTR m6 ?par ?ki) = pgno" if top: "0 < mc_top (cur w mc)" and so6: "same_outside np (np + ?psz) m4 m6"
  proof -
    have eq: "m6 y = m4 y" if "?par \<le> y" "y < ?par + ?psz" for y using that same_outsideD[OF so6, of y] off(2)[OF top] by auto
    note w = page_wfD[OF wf3(1)[OF top]]
    have n: "nptr (w_mem w3) ?par ?ki + 8 \<le> ?psz" "16 + 2 * ?ki + 2 \<le> ?psz"
      using w(2,3) w(6)[OF wf3(2)[OF top]] nlen_pos[of "w_mem w3" ?par ?ki] wf3(2)[OF top] by linarith+
    have "mp_ptrs m6 ?par ?ki = mp_ptrs m4 ?par ?ki" unfolding mp_ptrs_def by (intro rd16_cong eq) (use n in auto)
    then have a: "NODEPTR m6 ?par ?ki = NODEPTR m4 ?par ?ki" by (simp add: NODEPTR_def)
    have b: "?par \<le> NODEPTR m4 ?par ?ki" "NODEPTR m4 ?par ?ki + 8 \<le> ?par + ?psz" using rp(3)[OF top] n by (simp_all add: NODEPTR_nptr)
    have "NODEPGNO m6 (NODEPTR m4 ?par ?ki) = NODEPGNO m4 (NODEPTR m4 ?par ?ki)"
      by (rule NODEPGNO_cong) (use eq b in auto)
    then show ?thesis using rp(2)[OF top] a by simp
  qed
qed

lemma touch_copy_run:
  assumes psz: "me_psize (w_env w) = psz" and wf: "page_wf psz (w_mem w) mp" "\<not> IS_LEAF2 (w_mem w) mp" "np + psz \<le> mp \<or> mp + psz \<le> np"
    and db: "md_flags (get_db w mc) AND MDB_DUPSORT = 0" "mc_flags (cur w mc) AND C_SUB = 0" "mt_cursors (txn w (mc_txn (cur w mc))) = Some cs" "mc_dbsrc (cur w mc) = None"
  shows "\<exists>w'. touch_copy w mc mp np pgno = Some (0, w') \<and> page_wf psz (w_mem w') np \<and> page_nodes (w_mem w') np = page_nodes (w_mem w) mp \<and>
    mp_flags (w_mem w') np = mp_flags (w_mem w) mp OR P_DIRTY \<and> mp_pgno (w_mem w') np = pgno \<and> same_outside np (np + psz) (w_mem w) (w_mem w') \<and>
    w_env w' = w_env w \<and> txn w' = txn w \<and> get_db w' mc = get_db w mc \<and> cur_pg w' mc = np \<and>
    (\<forall>c \<in> set (cs (mc_dbi (cur w mc))). mc_snum (cur w mc) \<le> mc_snum (cur w c) \<and> mc_pg (cur w c) (mc_top (cur w mc)) = mp \<longrightarrow> mc_pg (cur w' c) (mc_top (cur w mc)) = np)"
proof -
  define m6 where "m6 = (let m = mdb_page_copy (w_mem w) np mp psz; m = set_pgno m np pgno in set_flags m np (mp_flags m np OR P_DIRTY))"
  note cp = touch_copy_page[OF wf m6_def]
  let ?w = "upd_mem (\<lambda>_. m6) w"
  have eq: "touch_copy w mc mp np pgno = touch_done ?w mc mp np" by (simp add: touch_copy_def m6_def Let_def upd_mem_def psz)
  have g: "get_db ?w mc = get_db w mc" using db(4) by (simp add: get_db_def)
  obtain w' where dn: "touch_done ?w mc mp np = Some (0, w')" "w_mem w' = m6" "w_env w' = w_env w" "txn w' = txn ?w" "cur_pg w' mc = np"
      "\<forall>c. c \<noteq> mc \<longrightarrow> cur w' c = (if c \<in> set (cs (mc_dbi (cur w mc))) then moved mp np (mc_snum (cur w mc)) (mc_top (cur w mc)) (cur w c) else cur w c)"
      "cur w' mc = (cur w mc)\<lparr>mc_pg := (mc_pg (cur w mc))(mc_top (cur w mc) := np)\<rparr>"
    using touch_done_run[of ?w mc cs mp np] db by (auto simp: g)
  have "txn w' = txn w" using dn(4) by (simp add: fun_eq_iff)
  moreover have "get_db w' mc = get_db w mc" using db(4) dn(7) calculation by (simp add: get_db_def)
  moreover have "mc_pg (cur w' c) (mc_top (cur w mc)) = np" if "c \<in> set (cs (mc_dbi (cur w mc)))" "mc_snum (cur w mc) \<le> mc_snum (cur w c)" "mc_pg (cur w c) (mc_top (cur w mc)) = mp" for c
    using that dn(6,7) by (cases "c = mc") (auto simp: moved_def)
  ultimately show ?thesis unfolding eq using dn cp by auto
qed

lemma touch_to_copy:
  assumes ready: "touch_ready w mc mop" and t: "t = mc_txn (cur w mc)"
  shows "\<exists>np pgno w2 ids. renumbered w mc mop np pgno w2 \<and> idl_list ids = idl_list (cells (mt_free_pgs (txn w t))) @ [mp_pgno (w_mem w) (cur_pg w mc)] \<and>
    touch_clean w mc (cur_pg w mc) = touch_copy (relink mc pgno (set_free_pgs t ((mt_free_pgs (txn w t))\<lparr>cells := ids\<rparr>) w2)) mc (cur_pg w mc) np pgno \<and>
    pgno < 2 ^ 48 \<and> off_map w np \<and> (np + me_psize (w_env w) \<le> cur_pg w mc \<or> cur_pg w mc + me_psize (w_env w) \<le> np)"
proof -
  let ?mp = "cur_pg w mc" and ?psz = "me_psize (w_env w)" and ?old = "mp_pgno (w_mem w) (cur_pg w mc)"
  have cl: "page_wf ?psz (w_mem w) ?mp" "me_map (w_env w) \<le> ?mp" "?mp + ?psz \<le> me_map (w_env w) + me_mapsize (w_env w)"
    and wr: "writer_ready w t mop" and br: "buffer_ready w mc" and fresh: "?old \<notin> set (idl_list (cells mop))"
    using ready t by (auto simp: touch_ready_def clean_page_def)
  have psz: "16 \<le> ?psz" using page_wfD(2,3)[OF cl(1)] by simp
  obtain np pgno w2 where al: "mdb_page_alloc w mc 1 = Some (MDB_SUCCESS, np, w2)" and r: "renumbered w mc mop np pgno w2"
    using touch_alloc[OF wr[unfolded t] psz] by blast
  have so2: "same_outside np (np + ?psz) (w_mem w) (w_mem w2)" and np: "np \<in> {me_dpages (w_env w), w_brk w}" using r by (simp_all add: renumbered_def)
  have off: "off_map w np" using br np by (auto simp: buffer_ready_def)
  have apart: "np + ?psz \<le> ?mp \<or> ?mp + ?psz \<le> np" using off cl(2,3) by (auto simp: off_map_def)
  have pg: "pgno \<in> set (idl_list (cells mop))" "pgno < 2 ^ 48" using r wr by (auto simp: renumbered_def writer_ready_def)
  have mp2: "w_mem w2 x = w_mem w x" if "?mp \<le> x" "x < ?mp + ?psz" for x using same_outsideD[OF so2, of x] that apart by auto
  have "?old \<noteq> pgno" using pg(1) fresh by auto
  from touch_clean_run[OF wr t al r page_unchanged(4)[OF cl(1) mp2] this] show ?thesis using r pg(2) off apart by auto
qed

text \<open>
  C5: Copy on write, in an environment without \<open>MDB_WRITEMAP\<close>, for a transaction that has free page numbers at hand and no
  loose or spilled page (\<open>touch_ready\<close>). When a writer touches a clean page, the cursor, and every tracked cursor on that page, moves to a
  copy in a page buffer that has the same nodes, is marked dirty and has a page number from the list of free pages;
  the number is taken out of that list and entered into the dirty list, the old number is recorded as freed by this
  transaction, and the parent's node (or the root of the database) names the new number. No byte of the mapped file
  changes, so every snapshot a reader has keeps its pages.
\<close>

theorem touch_copies_on_write:
  assumes "touch_ready w mc mop" and "t = mc_txn (cur w mc)" and "mt_cursors (txn w t) = Some cs"
  shows "\<exists>w' np pgno mop'. mdb_page_touch w mc = Some (0, w') \<and> cur_pg w' mc = np \<and>
    page_wf (me_psize (w_env w)) (w_mem w') np \<and> page_nodes (w_mem w') np = page_nodes (w_mem w) (cur_pg w mc) \<and>
    mp_flags (w_mem w') np = mp_flags (w_mem w) (cur_pg w mc) OR P_DIRTY \<and> mp_pgno (w_mem w') np = pgno \<and> pgno \<in> set (idl_list (cells mop)) \<and>
    me_pghead (w_env w') = Some mop' \<and> set (idl_list (cells mop')) = set (idl_list (cells mop)) - {pgno} \<and>
    idl_list (cells (mt_free_pgs (txn w' t))) = idl_list (cells (mt_free_pgs (txn w t))) @ [mp_pgno (w_mem w) (cur_pg w mc)] \<and>
    set (id2l_list (mt_dirty_list (txn w' t))) = insert \<lparr>mid = pgno, mptr = np\<rparr> (set (id2l_list (mt_dirty_list (txn w t)))) \<and>
    (if mc_top (cur w mc) = 0 then md_root (get_db w' mc) = pgno
     else NODEPGNO (w_mem w') (NODEPTR (w_mem w') (parent_pg w mc) (parent_ki w mc)) = pgno) \<and>
    (\<forall>x. in_map w x \<longrightarrow> w_mem w' x = w_mem w x) \<and>
    (\<forall>c \<in> set (cs (mc_dbi (cur w mc))). mc_snum (cur w mc) \<le> mc_snum (cur w c) \<and> mc_pg (cur w c) (mc_top (cur w mc)) = cur_pg w mc \<longrightarrow>
       mc_pg (cur w' c) (mc_top (cur w mc)) = np)"
proof -
  let ?mp = "cur_pg w mc" and ?psz = "me_psize (w_env w)" and ?par = "parent_pg w mc"
  have cl: "page_wf ?psz (w_mem w) ?mp" "\<not> IS_LEAF2 (w_mem w) ?mp" "\<not> F_ISSET (mp_flags (w_mem w) ?mp) P_DIRTY"
      "me_map (w_env w) \<le> ?mp" "?mp + ?psz \<le> me_map (w_env w) + me_mapsize (w_env w)" and wr: "writer_ready w t mop" and dbsrc: "mc_dbsrc (cur w mc) = None"
    and br: "buffer_ready w mc" and pr: "parent_ready w mc" using assms(1,2) by (auto simp: touch_ready_def clean_page_def)
  obtain np pgno w2 ids where r: "renumbered w mc mop np pgno w2" and ids: "idl_list ids = idl_list (cells (mt_free_pgs (txn w t))) @ [mp_pgno (w_mem w) ?mp]"
    and tc: "touch_clean w mc ?mp = touch_copy (relink mc pgno (set_free_pgs t ((mt_free_pgs (txn w t))\<lparr>cells := ids\<rparr>) w2)) mc ?mp np pgno"
    and pg: "pgno < 2 ^ 48" and off: "off_map w np" and apart: "np + ?psz \<le> ?mp \<or> ?mp + ?psz \<le> np"
    using touch_to_copy[OF assms(1,2)] by blast
  have so2: "same_outside np (np + ?psz) (w_mem w) (w_mem w2)" and np: "np \<in> {me_dpages (w_env w), w_brk w}" and c2: "cur w2 = cur w" using r by (simp_all add: renumbered_def)
  define w3 where "w3 = set_free_pgs t ((mt_free_pgs (txn w t))\<lparr>cells := ids\<rparr>) w2"
  define w4 where "w4 = relink mc pgno w3"
  have w3: "cur w3 = cur w" "w_mem w3 = w_mem w2" "w_env w3 = w_env w2" by (auto simp: w3_def set_free_pgs_def c2)
  note s4 = relink_simps[of w3 mc pgno, folded w4_def, unfolded w3, OF dbsrc]
  have so3: "same_outside np (np + ?psz) (w_mem w) (w_mem w3)" using so2 by (simp add: w3)
  note mem = relinked_mem[OF so3 w3(1) br pr np pg dbsrc, folded w4_def]
  have mp4: "w_mem w4 x = w_mem w x" if "?mp \<le> x" "x < ?mp + ?psz" for x using mem(1)[of x] that cl(4,5) by (simp add: in_map_def)
  note u4 = page_unchanged[OF cl(1) mp4]
  have l4: "\<not> IS_LEAF2 (w_mem w4) ?mp" using cl(2) u4(3) by (simp add: IS_LEAF2_def)
  have t4: "mt_free_pgs (txn w4 t) = (mt_free_pgs (txn w t))\<lparr>cells := ids\<rparr>" "mt_dirty_list (txn w4 t) = mt_dirty_list (txn w2 t)" "mt_cursors (txn w4 t) = mt_cursors (txn w t)"
    "mt_dbs (txn w3 t) = mt_dbs (txn w t)"
    using s4(3-5)[of t] r by (auto simp: w3_def set_free_pgs_def renumbered_def assms(2))
  have db4: "md_flags (get_db w4 mc) AND MDB_DUPSORT = 0" "mc_flags (cur w4 mc) AND C_SUB = 0" "mt_cursors (txn w4 (mc_txn (cur w4 mc))) = Some cs" "mc_dbsrc (cur w4 mc) = None"
    using assms(1,3) t4(3,4) dbsrc unfolding s4(1,6) assms(2)[symmetric] by (auto simp: touch_ready_def get_db_def w3(1) assms(2)[symmetric])
  have psz4: "me_psize (w_env w4) = ?psz" using s4(2) r by (simp add: renumbered_def)
  obtain w' where cp: "touch_copy w4 mc ?mp np pgno = Some (0, w')" "page_wf ?psz (w_mem w') np" "page_nodes (w_mem w') np = page_nodes (w_mem w4) ?mp"
      "mp_flags (w_mem w') np = mp_flags (w_mem w4) ?mp OR P_DIRTY" "mp_pgno (w_mem w') np = pgno" "same_outside np (np + ?psz) (w_mem w4) (w_mem w')"
      "w_env w' = w_env w4" "txn w' = txn w4" "get_db w' mc = get_db w4 mc" "cur_pg w' mc = np"
      "\<forall>c \<in> set (cs (mc_dbi (cur w mc))). mc_snum (cur w mc) \<le> mc_snum (cur w c) \<and> mc_pg (cur w c) (mc_top (cur w mc)) = ?mp \<longrightarrow> mc_pg (cur w' c) (mc_top (cur w mc)) = np"
    using touch_copy_run[OF psz4 u4(1) l4 apart db4, of pgno] unfolding s4(1) by blast
  have touch: "mdb_page_touch w mc = Some (0, w')"
    using wr cl(3) tc cp(1) assms(2) by (simp add: mdb_page_touch_def writer_ready_def w3_def w4_def)
  have map: "w_mem w' x = w_mem w x" if "in_map w x" for x
    using same_outsideD[OF cp(6), of x] mem(1)[OF that] off that by (auto simp: in_map_def off_map_def)
  have link: "if mc_top (cur w mc) = 0 then md_root (get_db w' mc) = pgno else NODEPGNO (w_mem w') (NODEPTR (w_mem w') ?par (parent_ki w mc)) = pgno"
    using mem(2)[OF _ cp(6)] s4(7) cp(9) by simp
  obtain dl ids2 where r2: "mt_dirty_list (txn w2 t) = dl" "me_pghead (w_env w2) = Some (mop\<lparr>cells := ids2\<rparr>)" "set (idl_list ids2) = set (idl_list (cells mop)) - {pgno}"
      "pgno \<in> set (idl_list (cells mop))" "set (id2l_list dl) = insert \<lparr>mid = pgno, mptr = np\<rparr> (set (id2l_list (mt_dirty_list (txn w t))))"
    using r unfolding renumbered_def assms(2)[symmetric] by auto
  show ?thesis
    by (rule exI[of _ w'], rule exI[of _ np], rule exI[of _ pgno], rule exI[of _ "mop\<lparr>cells := ids2\<rparr>"])
      (use touch map link cp u4 ids r2 t4 s4(2) in simp)
qed

text \<open>The writer of the demo database with its cursor on the leaf with the keys a and b.\<close>

definition demo_toucher :: world where
  "demo_toucher = demo_writer\<lparr>w_txns := (\<lambda>t. (w_txns demo_writer t)\<lparr>mt_free_pgs := \<lparr>alloclen = 3, cells = [0, 0, 0, 0]\<rparr>, mt_cursors := Some (\<lambda>_. [0])\<rparr>),
     w_cursors := (\<lambda>_. demo_cursor\<lparr>mc_snum := 1, mc_pg := (\<lambda>_. 1408)\<rparr>)\<rparr>"

lemma demo_toucher_simps:
  "txn demo_toucher t = (txn demo_writer t)\<lparr>mt_free_pgs := \<lparr>alloclen = 3, cells = [0, 0, 0, 0]\<rparr>, mt_cursors := Some (\<lambda>_. [0])\<rparr>"
  "cur demo_toucher c = demo_cursor\<lparr>mc_snum := 1, mc_pg := (\<lambda>_. 1408)\<rparr>" "w_mem demo_toucher = demo_mem" "w_brk demo_toucher = 16384"
  "w_env demo_toucher = demo_env\<lparr>me_pghead := Some \<lparr>alloclen = 3, cells = [3, 9, 8, 5]\<rparr>\<rparr>"
  by (simp_all add: demo_toucher_def txn_def cur_def) (simp_all add: demo_writer_def demo_def)

lemma demo_touch_ready: "touch_ready demo_toucher 0 \<lparr>alloclen = 3, cells = [3, 9, 8, 5]\<rparr>"
proof -
  let ?mop = "\<lparr>alloclen = 3, cells = [3, 9, 8, 5 :: MDB_ID]\<rparr>"
  have l: "idl_list (cells ?mop) = [9, 8, 5]" "idl_count (cells ?mop) = 3" by (simp_all add: idl_list_def idl_count_def content_def)
  have pg: "cur_pg demo_toucher 0 = 1408" "mp_pgno demo_mem 1408 = 3"
    by (simp_all add: cur_pg_def demo_toucher_simps demo_cursor_def mp_pgno_def demo_read)
  have dr: "dirty_ready (txn demo_toucher 0) p" for p using demo_dirty_ready[of 0 p] by (simp add: demo_toucher_simps dirty_ready_def)
  have cm: "can_malloc demo_toucher 1" by (simp add: can_malloc_def demo_toucher_def demo_writer_def demo_def)
  have "clean_page demo_toucher 1408"
    using demo_leaf_wf by (simp add: clean_page_def demo_toucher_simps demo_env_def IS_LEAF2_def F_ISSET_def demo_page3)
  moreover have "writer_ready demo_toucher 0 ?mop"
    unfolding writer_ready_def l using dr cm
    by (simp add: demo_toucher_simps demo_writer_simps demo_txn_def demo_env_def midl_wf_def idl_count_def)
  moreover have "buffer_ready demo_toucher 0" "parent_ready demo_toucher 0"
    by (simp_all add: buffer_ready_def parent_ready_def off_map_def demo_toucher_simps demo_env_def demo_cursor_def)
  ultimately show ?thesis
    unfolding touch_ready_def pg using l pg(2)
    by (simp add: demo_toucher_simps demo_writer_simps demo_cursor_def get_db_def demo_txn_def demo_db_def)
qed

theorem touch_copies_on_write_witness:
  "\<exists>w' np pgno. mdb_page_touch demo_toucher 0 = Some (0, w') \<and> cur_pg w' 0 = np \<and> page_nodes (w_mem w') np = page_nodes demo_mem 1408 \<and>
    pgno \<in> {9, 8, 5} \<and> md_root (get_db w' 0) = pgno \<and> idl_list (cells (mt_free_pgs (txn w' 0))) = [3] \<and> w_mem w' 1500 = demo_mem 1500"
proof -
  have pg: "cur_pg demo_toucher 0 = 1408" "mp_pgno demo_mem 1408 = 3" "mc_txn (cur demo_toucher 0) = 0" "mc_top (cur demo_toucher 0) = 0"
      "mt_cursors (txn demo_toucher 0) = Some (\<lambda>_. [0])" "in_map demo_toucher 1500"
    by (simp_all add: cur_pg_def demo_toucher_simps demo_cursor_def mp_pgno_def demo_read in_map_def demo_env_def)
  have l: "idl_list (cells \<lparr>alloclen = 3, cells = [3, 9, 8, 5 :: MDB_ID]\<rparr>) = [9, 8, 5]" "idl_list (cells (mt_free_pgs (txn demo_toucher 0))) = []"
    by (simp_all add: idl_list_def idl_count_def content_def demo_toucher_simps)
  show ?thesis
    using touch_copies_on_write[OF demo_touch_ready, of 0 "\<lambda>_. [0]"] unfolding pg l demo_toucher_simps(3) if_P[OF refl] using pg(6) by fastforce
qed

end
