(* ===== verification/Env.thy ===== *)
theory Env
  imports Commit
begin

section \<open>The environment (mdb.c)\<close>

text \<open>
  Creating and configuring an environment, mapping the data file, the second half of opening it, copying
  it, and the small helpers around it: error texts, the hash of the lock names, flags and limits.

  A file that is not mapped is kept at address 0 of the memory, so that \<open>pwrite\<close> writes to it in either
  state. Calls of the operating system are arguments: \<open>mmap\<close> gives an error code or the address of the
  map for the wanted address and size, \<open>ft\<close> is the result of \<open>ftruncate\<close>, \<open>pread\<close> that of reading the file.
\<close>

subsection \<open>Error texts and comparison\<close>

definition mdb_errstr :: "string list" where
  "mdb_errstr =
    [''MDB_KEYEXIST: Key/data pair already exists'',
     ''MDB_NOTFOUND: No matching key/data pair found'',
     ''MDB_PAGE_NOTFOUND: Requested page not found'',
     ''MDB_CORRUPTED: Located page was wrong type'',
     ''MDB_PANIC: Update of meta page failed or environment had fatal error'',
     ''MDB_VERSION_MISMATCH: Database environment version mismatch'',
     ''MDB_INVALID: File is not an LMDB file'',
     ''MDB_MAP_FULL: Environment mapsize limit reached'',
     ''MDB_DBS_FULL: Environment maxdbs limit reached'',
     ''MDB_READERS_FULL: Environment maxreaders limit reached'',
     ''MDB_TLS_FULL: Thread-local storage keys full - too many environments open'',
     ''MDB_TXN_FULL: Transaction has too many dirty pages - transaction too big'',
     ''MDB_CURSOR_FULL: Internal error - cursor stack limit reached'',
     ''MDB_PAGE_FULL: Internal error - page has no more space'',
     ''MDB_MAP_RESIZED: Database contents grew beyond environment mapsize'',
     ''MDB_INCOMPATIBLE: Operation and DB incompatible, or DB flags changed'',
     ''MDB_BAD_RSLOT: Invalid reuse of reader locktable slot'',
     ''MDB_BAD_TXN: Transaction must abort, has a child, or is invalid'',
     ''MDB_BAD_VALSIZE: Unsupported size of key/DB name/data, or wrong DUPFIXED size'',
     ''MDB_BAD_DBI: The specified DBI handle was closed/changed unexpectedly'']"

text \<open>\<open>strerror\<close> is the C library's function for the other codes.\<close>

definition mdb_strerror :: "(int \<Rightarrow> string) \<Rightarrow> int \<Rightarrow> string option" where
  "mdb_strerror strerror err =
     (if err = 0 then Some ''Successful return: 0''
      else if err \<ge> MDB_KEYEXIST \<and> err \<le> MDB_BAD_DBI then aget mdb_errstr (nat (err - MDB_KEYEXIST))
      else Some (strerror err))"

definition mdb_cmp :: "world \<Rightarrow> nat \<Rightarrow> bytes \<Rightarrow> bytes \<Rightarrow> int option" where
  "mdb_cmp w dbi a b = do { f \<leftarrow> md_cmp (me_dbxs (w_env w) dbi); call_cmp f a b }"

definition mdb_dcmp :: "world \<Rightarrow> nat \<Rightarrow> bytes \<Rightarrow> bytes \<Rightarrow> int option" where
  "mdb_dcmp w dbi a b = do {
     f \<leftarrow> md_dcmp (me_dbxs (w_env w) dbi);
     call_cmp (if is_cmp_int (Some f) \<and> length a = 8 then Cmp_long else f) a b
   }"

subsection \<open>The hash of a lock's name\<close>

abbreviation (input) MDB_HASH_INIT :: u64 where "MDB_HASH_INIT \<equiv> 0xcbf29ce484222325"

definition hash_step :: "u64 \<Rightarrow> byte \<Rightarrow> u64" where
  "hash_step hval s =
     (let h = hval XOR ucast s
      in h + (push_bit 1 h + push_bit 4 h + push_bit 5 h + push_bit 7 h + push_bit 8 h + push_bit 40 h))"

fun mdb_hash_val :: "bytes \<Rightarrow> u64 \<Rightarrow> u64" where
  "mdb_hash_val [] hval = hval"
| "mdb_hash_val (s # bs) hval = mdb_hash_val bs (hash_step hval s)"

definition mdb_a85 :: string where
  "mdb_a85 = ''0123456789ABCDEFGHIJKLMNOPQRSTUVWXYZabcdefghijklmnopqrstuvwxyz!#$%&()*+-;<=>?@^_`{|}~''"

fun pack85 :: "nat \<Rightarrow> nat \<Rightarrow> string option" where
  "pack85 0 l = Some []"
| "pack85 (Suc n) l = do { c \<leftarrow> aget mdb_a85 (l mod 85); cs \<leftarrow> pack85 n (l div 85); Some (c # cs) }"

definition mdb_pack85 :: "u64 \<Rightarrow> string option" where
  "mdb_pack85 l = pack85 5 (unat l)"

definition mdb_hash_enc :: "bytes \<Rightarrow> string option" where
  "mdb_hash_enc val = do {
     let h = mdb_hash_val val MDB_HASH_INIT;
     a \<leftarrow> mdb_pack85 h;
     b \<leftarrow> mdb_pack85 (drop_bit 32 h);
     Some (a @ b)
   }"

subsection \<open>Creating and configuring\<close>

abbreviation (input) DEFAULT_READERS :: nat where "DEFAULT_READERS \<equiv> 126"
abbreviation (input) DEFAULT_MAPSIZE :: nat where "DEFAULT_MAPSIZE \<equiv> 1048576"

definition mdb_env_create :: "bool \<Rightarrow> nat \<Rightarrow> nat \<Rightarrow> int \<times> MDB_env option" where
  "mdb_env_create ok pid os_psize =
     (if \<not> ok then (ENOMEM, None)
      else (MDB_SUCCESS, Some
        \<lparr>me_flags = 0, me_psize = 0, me_os_psize = os_psize, me_maxreaders = DEFAULT_READERS, me_close_readers = 0,
         me_numdbs = CORE_DBS, me_maxdbs = CORE_DBS, me_pid = pid, me_map = 0, me_txns = None, me_pbuf = 0,
         me_txn = None, me_txn0 = 0, me_mapsize = 0, me_maxpg = 0,
         me_dbxs = (\<lambda>_. \<lparr>md_name = [], md_cmp = None, md_dcmp = None\<rparr>), me_dbflags = (\<lambda>_. 0), me_dbiseqs = (\<lambda>_. 0),
         me_txn0_seqs = (\<lambda>_. 0), me_pgoldest = 0, me_pglast = 0, me_pghead = None, me_dpages = 0,
         me_free_pgs = \<lparr>alloclen = 0, cells = []\<rparr>, me_dirty_list = [], me_maxfree_1pg = 0, me_nodemax = 0, me_live_reader = False\<rparr>))"

definition map_at :: "addr \<Rightarrow> world \<Rightarrow> world" where
  "map_at a w =
     (let old = me_map (w_env w); sz = me_mapsize (w_env w) in
      upd_env (\<lambda>e. e\<lparr>me_map := a\<rparr>) (upd_mem (\<lambda>m x. if a \<le> x \<and> x < a + sz then m (old + (x - a)) else m x) w))"

definition mdb_env_map :: "int \<Rightarrow> (addr \<Rightarrow> nat \<Rightarrow> int + addr) \<Rightarrow> world \<Rightarrow> addr \<Rightarrow> int \<times> world" where
  "mdb_env_map ft mmap w hint =
     (if me_flags (w_env w) AND MDB_WRITEMAP \<noteq> 0 \<and> ft \<noteq> 0 then (ft, w)
      else case mmap hint (me_mapsize (w_env w)) of
        Inl rc \<Rightarrow> (rc, map_at 0 w)
      | Inr a \<Rightarrow> (if hint \<noteq> 0 \<and> a \<noteq> hint then EBUSY else MDB_SUCCESS, map_at a w))"

definition set_limits :: "nat \<Rightarrow> world \<Rightarrow> world" where
  "set_limits sz w =
     upd_env (\<lambda>e. e\<lparr>me_mapsize := sz, me_maxpg := (if me_psize e \<noteq> 0 then of_nat (sz div me_psize e) else me_maxpg e)\<rparr>) w"

definition mdb_env_set_mapsize :: "int \<Rightarrow> (addr \<Rightarrow> nat \<Rightarrow> int + addr) \<Rightarrow> world \<Rightarrow> nat \<Rightarrow> int \<times> world" where
  "mdb_env_set_mapsize ft mmap w sz =
     (if me_map (w_env w) \<noteq> 0 then
        (if me_txn (w_env w) \<noteq> None then (EINVAL, w)
         else
           (let meta = get_meta w (mdb_env_pick_meta w);
                sz = (if sz = 0 then unat (mm_mapsize meta) else sz);
                minsize = unat ((mm_last_pg meta + 1) * of_nat (me_psize (w_env w)));
                sz = (if sz < minsize then minsize else sz);
                w = upd_env (\<lambda>e. e\<lparr>me_mapsize := sz\<rparr>) w;
                (rc, w) = mdb_env_map ft mmap w (if me_flags (w_env w) AND MDB_FIXEDMAP \<noteq> 0 then me_map (w_env w) else 0)
            in if rc \<noteq> 0 then (rc, w) else (MDB_SUCCESS, set_limits sz w)))
      else (MDB_SUCCESS, set_limits sz w))"

definition mdb_env_set_maxdbs :: "world \<Rightarrow> nat \<Rightarrow> int \<times> world" where
  "mdb_env_set_maxdbs w dbs =
     (if me_map (w_env w) \<noteq> 0 then (EINVAL, w)
      else (MDB_SUCCESS, upd_env (\<lambda>e. e\<lparr>me_maxdbs := (dbs + CORE_DBS) mod 2 ^ 32\<rparr>) w))"

definition mdb_env_set_maxreaders :: "world \<Rightarrow> nat \<Rightarrow> int \<times> world" where
  "mdb_env_set_maxreaders w readers =
     (if me_map (w_env w) \<noteq> 0 \<or> readers < 1 then (EINVAL, w)
      else (MDB_SUCCESS, upd_env (\<lambda>e. e\<lparr>me_maxreaders := readers\<rparr>) w))"

definition mdb_env_get_maxreaders :: "world \<Rightarrow> int \<times> nat" where
  "mdb_env_get_maxreaders w = (MDB_SUCCESS, me_maxreaders (w_env w))"

abbreviation (input) CHANGEABLE :: u32 where
  "CHANGEABLE \<equiv> MDB_NOSYNC OR MDB_NOMETASYNC OR MDB_MAPASYNC OR MDB_NOMEMINIT"
abbreviation (input) CHANGELESS :: u32 where
  "CHANGELESS \<equiv> MDB_FIXEDMAP OR MDB_NOSUBDIR OR MDB_RDONLY OR MDB_WRITEMAP OR MDB_NOTLS OR MDB_NOLOCK OR MDB_NORDAHEAD"

definition mdb_env_set_flags :: "world \<Rightarrow> u32 \<Rightarrow> bool \<Rightarrow> int \<times> world" where
  "mdb_env_set_flags w flag onoff =
     (if flag AND NOT CHANGEABLE \<noteq> 0 then (EINVAL, w)
      else (MDB_SUCCESS, upd_env (\<lambda>e. e\<lparr>me_flags := (if onoff then me_flags e OR flag else me_flags e AND NOT flag)\<rparr>) w))"

definition mdb_env_get_flags :: "world \<Rightarrow> int \<times> u32" where
  "mdb_env_get_flags w = (MDB_SUCCESS, me_flags (w_env w) AND (CHANGEABLE OR CHANGELESS))"

definition mdb_env_get_maxkeysize :: "world \<Rightarrow> nat" where
  "mdb_env_get_maxkeysize w = MDB_MAXKEYSIZE"

subsection \<open>Opening the data file\<close>

text \<open>
  \<open>open2_header\<close>: the meta page that the file has or gets, with \<open>me_psize\<close> and \<open>me_mapsize\<close> set; the flag says
  that the file is new.
\<close>

definition open2_header :: "(nat \<Rightarrow> int + bytes) \<Rightarrow> world \<Rightarrow> int \<times> bool \<times> MDB_meta \<times> world" where
  "open2_header pread w =
     (let (rc, meta) = mdb_env_read_header pread zero_meta in
      if rc \<noteq> 0 \<and> rc \<noteq> ENOENT then (rc, False, meta, w)
      else
        (let newenv = (rc = ENOENT);
             w = upd_env (\<lambda>e. e\<lparr>me_psize := (if newenv then min (me_os_psize e) MAX_PAGESIZE else unat (md_pad (mm_free meta)))\<rparr>) w;
             meta = (if newenv then (mdb_env_init_meta0 w zero_meta)\<lparr>mm_mapsize := of_nat DEFAULT_MAPSIZE\<rparr> else meta);
             minsize = unat ((mm_last_pg meta + 1) * ucast (md_pad (mm_free meta)));
             w = upd_env (\<lambda>e. e\<lparr>me_mapsize := max (if me_mapsize e = 0 then unat (mm_mapsize meta) else me_mapsize e) minsize\<rparr>) w
         in (0, newenv, meta\<lparr>mm_mapsize := of_nat (me_mapsize (w_env w))\<rparr>, w)))"

text \<open>The limits that follow from the page size, which is at least 24 in a valid file.\<close>

definition open2_limits :: "MDB_env \<Rightarrow> MDB_env" where
  "open2_limits e = e\<lparr>me_maxfree_1pg := (me_psize e - PAGEHDRSZ) div 8 - 1,
     me_nodemax := (me_psize e - PAGEHDRSZ) div MDB_MINKEYS div 2 * 2 - 2,
     me_maxpg := of_nat (me_mapsize e div me_psize e)\<rparr>"

definition mdb_env_open2 :: "(nat \<Rightarrow> int + bytes) \<Rightarrow> int \<Rightarrow> (addr \<Rightarrow> nat \<Rightarrow> int + addr) \<Rightarrow> world \<Rightarrow> int \<times> world" where
  "mdb_env_open2 pread ft mmap w =
     (let fixed = (me_flags (w_env w) AND MDB_FIXEDMAP \<noteq> 0);
          (rc, newenv, meta, w) = open2_header pread w
      in if rc \<noteq> 0 then (rc, w)
         else
           (let (rc, w) = (if newenv \<and> \<not> fixed then mdb_env_init_meta w meta else (0, w))
            in if rc \<noteq> 0 then (rc, w)
               else
                 (let (rc, w) = mdb_env_map ft mmap w (if fixed then unat (mm_address meta) else 0)
                  in if rc \<noteq> 0 then (rc, w)
                     else
                       (let (rc, w) = (if newenv \<and> fixed then mdb_env_init_meta w (meta\<lparr>mm_address := of_nat (me_map (w_env w))\<rparr>) else (0, w))
                        in if rc \<noteq> MDB_SUCCESS then (rc, w)
                           else (MDB_SUCCESS, upd_env open2_limits w)))))"

text \<open>Going back to a shared lock; \<open>lk\<close> is the outcome of \<open>fcntl\<close>. The result has the code and \<open>*excl\<close>.\<close>

definition mdb_env_share_locks :: "int \<Rightarrow> world \<Rightarrow> int \<times> int \<times> world" where
  "mdb_env_share_locks lk w =
     (lk, if lk \<noteq> 0 then - 1 else 0, set_mti_txnid (mm_txnid (get_meta w (mdb_env_pick_meta w))) w)"

text \<open>Trying the exclusive lock, then waiting for a shared one (the branch of \<open>MDB_USE_POSIX_MUTEX\<close>).\<close>

definition mdb_env_excl_lock :: "int \<Rightarrow> int \<Rightarrow> int \<Rightarrow> int \<times> int" where
  "mdb_env_excl_lock wrlck rdlck excl =
     (if wrlck = 0 then (0, 1)
      else if rdlck = 0 then (0, 0) else (rdlck, excl))"

subsection \<open>Copying the data file\<close>

text \<open>
  \<open>out\<close> holds the outcomes of the calls of \<open>write\<close>: an error code or the number of bytes taken. A loop writes
  \<open>wsize\<close> bytes at \<open>ptr\<close>, at most \<open>chunk\<close> at a time, and appends them to the file; the result has the return
  code, the file, \<open>ptr\<close> and the outcomes left over.
\<close>

fun copy_loop :: "nat \<Rightarrow> mem \<Rightarrow> (int + nat) list \<Rightarrow> addr \<Rightarrow> nat \<Rightarrow> bytes \<Rightarrow> (int \<times> bytes \<times> addr \<times> (int + nat) list) option" where
  "copy_loop chunk m out ptr 0 file = Some (MDB_SUCCESS, file, ptr, out)"
| "copy_loop chunk m [] ptr (Suc n) file = None"
| "copy_loop chunk m (Inl rc # out) ptr (Suc n) file = Some (rc, file, ptr, out)"
| "copy_loop chunk m (Inr len # out) ptr (Suc n) file =
     (let len = min len (min chunk (Suc n)) in
      if len > 0 then copy_loop chunk m out (ptr + len) (Suc n - len) (file @ mem_read m ptr len)
      else Some (EIO, file, ptr, out))"

text \<open>\<open>fsize\<close> is the outcome of \<open>mdb_fsize\<close>; \<open>out1\<close> and \<open>out2\<close> are the outcomes of the writes of the two loops.\<close>

definition mdb_env_copyfd0 :: "(int + nat) list \<Rightarrow> (int + nat) list \<Rightarrow> int + nat \<Rightarrow> world \<Rightarrow> (int \<times> bytes \<times> world) option" where
  "mdb_env_copyfd0 out1 out2 fsize w = do {
     (rc, t, w) \<leftarrow> mdb_txn_begin w None MDB_RDONLY;
     if rc \<noteq> 0 then Some (rc, [], w)
     else do {
       let lock = (me_txns (w_env w) \<noteq> None);
       (rc, w) \<leftarrow>
         (if lock then do {
            w \<leftarrow> mdb_txn_end w t MDB_END_RESET_TMP;
            if w_lockrc w \<noteq> 0 then Some (w_lockrc w, w)
            else if w_wlock w then None
            else mdb_txn_renew0 w t
          } else Some (0, w));
       if rc \<noteq> 0 then do { w \<leftarrow> mdb_txn_abort w (Some t); Some (rc, [], w) }
       else do {
         let msize = me_psize (w_env w) * NUM_METAS;
         (rc, file, ptr, _) \<leftarrow> copy_loop msize (w_mem w) out1 (me_map (w_env w)) msize [];
         (rc, file) \<leftarrow>
           (if rc \<noteq> 0 then Some (rc, file)
            else case fsize of
              Inl rc \<Rightarrow> Some (rc, file)
            | Inr fs \<Rightarrow> do {
                let w2 = min (unat (mt_next_pgno (txn w t) * of_nat (me_psize (w_env w)))) fs;
                let wsize = unat (of_nat w2 - of_nat msize :: u64);
                (rc, file, _, _) \<leftarrow> copy_loop MAX_WRITE (w_mem w) out2 ptr wsize file;
                Some (rc, file)
              });
         w \<leftarrow> mdb_txn_abort w (Some t);
         Some (rc, file, w)
       }
     }
   }"

end
