(* ===== verification/Env_Spec.thy ===== *)
theory Env_Spec
  imports Env Demo
begin

text \<open>
  What the helpers of the environment promise: the hash of the lock names is FNV-1a and its text form loses nothing,
  a copy writes the bytes of the map in order whatever the operating system takes at a time, and the limits derived
  from the page size let two nodes fit a page.
\<close>

section \<open>The names of the locks\<close>

text \<open>The 64-bit FNV-1a hash as it is published.\<close>

definition fnv1a :: "bytes \<Rightarrow> u64 \<Rightarrow> u64" where
  "fnv1a bs h = foldl (\<lambda>h b. (h XOR ucast b) * 0x100000001b3) h bs"

lemma hash_step_mult: "hash_step h b = (h XOR ucast b) * 0x100000001b3"
proof -
  have "x + (push_bit 1 x + push_bit 4 x + push_bit 5 x + push_bit 7 x + push_bit 8 x + push_bit 40 x) = x * 0x100000001b3" for x :: u64
    by (simp add: push_bit_eq_mult)
  then show ?thesis by (simp add: hash_step_def Let_def)
qed

text \<open>C38: \<open>mdb_hash_val\<close>, written with shifts and additions, is the FNV-1a hash with its multiplication, from any start value.\<close>

theorem hash_val_is_fnv1a: "mdb_hash_val bs h = fnv1a bs h"
  by (induction bs arbitrary: h) (simp_all add: fnv1a_def hash_step_mult)

lemma a85_digits: "length mdb_a85 = 85" "distinct mdb_a85"
  by (simp_all add: mdb_a85_def)

lemma pack85_digits: "pack85 n l = Some (map (\<lambda>i. mdb_a85 ! (l div 85 ^ i mod 85)) [0..<n])"
proof (induction n arbitrary: l)
  case (Suc n)
  have "[0..<Suc n] = 0 # map Suc [0..<n]" by (simp add: upt_conv_Cons map_Suc_upt)
  then show ?case using Suc by (simp add: a85_digits div_mult2_eq comp_def)
qed simp

lemma digits_inj:
  fixes l k :: nat
  assumes "\<forall>i < n. l div 85 ^ i mod 85 = k div 85 ^ i mod 85"
  shows "l mod 85 ^ n = k mod 85 ^ n"
  using assms
proof (induction n)
  case (Suc n)
  then have "l mod 85 ^ n = k mod 85 ^ n" "l div 85 ^ n mod 85 = k div 85 ^ n mod 85" by simp_all
  then show ?case by (simp add: mod_mult2_eq power_Suc2 del: power_Suc)
qed simp

lemma pack85_inj: "pack85 n l = pack85 n k \<Longrightarrow> l mod 85 ^ n = k mod 85 ^ n"
proof (rule digits_inj, intro allI impI)
  fix i assume eq: "pack85 n l = pack85 n k" and i: "i < n"
  have "map (\<lambda>i. mdb_a85 ! (l div 85 ^ i mod 85)) [0..<n] ! i = map (\<lambda>i. mdb_a85 ! (k div 85 ^ i mod 85)) [0..<n] ! i"
    using eq by (simp only: pack85_digits option.inject)
  then have "mdb_a85 ! (l div 85 ^ i mod 85) = mdb_a85 ! (k div 85 ^ i mod 85)" using i by simp
  then show "l div 85 ^ i mod 85 = k div 85 ^ i mod 85"
    using nth_eq_iff_index_eq[OF a85_digits(2)] by (simp add: a85_digits(1))
qed

lemma hash_enc_digits: "mdb_hash_enc bs = Some (the (pack85 5 (unat (mdb_hash_val bs MDB_HASH_INIT))) @ the (pack85 5 (unat (drop_bit 32 (mdb_hash_val bs MDB_HASH_INIT)))))"
  by (simp add: mdb_hash_enc_def mdb_pack85_def pack85_digits Let_def)

lemma halves_inj:
  fixes a b :: u64
  assumes lo: "unat a mod 85 ^ 5 = unat b mod 85 ^ 5" and hi: "unat (drop_bit 32 a) mod 85 ^ 5 = unat (drop_bit 32 b) mod 85 ^ 5"
  shows "a = b"
proof -
  have half: "unat (drop_bit 32 x) = unat x div 2 ^ 32" for x :: u64 
    using unat_drop_bit_eq[of 32 x] drop_bit_eq_div[of 32 "unat x"] by (rule trans)
  have small: "unat (drop_bit 32 x) < 2 ^ 32" for x :: u64
  proof -
    have "unat x < 2 ^ 64" using unsigned_less[of x, where ?'a = nat] by simp
    then show ?thesis unfolding half by (simp add: div_less_iff_less_mult)
  qed
  have "unat (drop_bit 32 a) = unat (drop_bit 32 b)" using hi small[of a] small[of b] by simp
  then have h: "unat a div 2 ^ 32 = unat b div 2 ^ 32" unfolding half .
  define p q where "p = unat a mod 2 ^ 32" and "q = unat b mod 2 ^ 32"
  have ab: "unat a = 2 ^ 32 * (unat b div 2 ^ 32) + p" "unat b = 2 ^ 32 * (unat b div 2 ^ 32) + q"
    unfolding p_def q_def using h mult_div_mod_eq[of "2 ^ 32" "unat a"] mult_div_mod_eq[of "2 ^ 32" "unat b"] by simp_all
  have pq: "p < 2 ^ 32" "q < 2 ^ 32" by (simp_all add: p_def q_def)
  have "(85 ^ 5 :: int) dvd int (unat a) - int (unat b)"
    using arg_cong[OF lo, of int] by (simp add: of_nat_mod mod_eq_dvd_iff)
  moreover have "int (unat a) - int (unat b) = int p - int q" using arg_cong[OF ab(1), of int] arg_cong[OF ab(2), of int] by linarith
  ultimately have "(85 ^ 5 :: int) dvd int p - int q" by simp
  then have "int p - int q = 0" using pq dvd_imp_le_int[of "int p - int q" "85 ^ 5"] by fastforce
  then have "p = q" by simp
  then show ?thesis using ab by (metis word_unat_eq_iff)
qed

text \<open>
  C39: \<open>mdb_hash_enc\<close> always yields ten characters, and two names get the same text exactly when their hashes are equal,
  although the first five characters are taken from all 64 bits and only keep them modulo \<open>85 ^ 5\<close>.
\<close>

theorem hash_enc_lossless:
  "(\<exists>s. mdb_hash_enc a = Some s \<and> length s = 10) \<and>
   (mdb_hash_enc a = mdb_hash_enc b \<longleftrightarrow> mdb_hash_val a MDB_HASH_INIT = mdb_hash_val b MDB_HASH_INIT)"
proof -
  let ?h = "\<lambda>x. mdb_hash_val x MDB_HASH_INIT"
  have "?h a = ?h b" if eq: "mdb_hash_enc a = mdb_hash_enc b"
  proof (rule halves_inj)
    have len: "length (the (pack85 5 l)) = 5" for l by (simp add: pack85_digits)
    have "the (pack85 5 (unat (?h a))) = the (pack85 5 (unat (?h b))) \<and>
        the (pack85 5 (unat (drop_bit 32 (?h a)))) = the (pack85 5 (unat (drop_bit 32 (?h b))))"
      using eq unfolding hash_enc_digits option.inject by (subst (asm) append_eq_append_conv) (simp_all add: len)
    then show "unat (?h a) mod 85 ^ 5 = unat (?h b) mod 85 ^ 5" "unat (drop_bit 32 (?h a)) mod 85 ^ 5 = unat (drop_bit 32 (?h b)) mod 85 ^ 5"
      using pack85_inj[of 5] by (simp_all add: pack85_digits)
  qed
  moreover have "mdb_hash_enc a = mdb_hash_enc b" if "?h a = ?h b" using that by (simp add: hash_enc_digits)
  ultimately show ?thesis by (auto simp: hash_enc_digits pack85_digits)
qed

section \<open>Copying the data file\<close>

text \<open>\<open>all_taken out n\<close>: the first \<open>n\<close> calls of \<open>write\<close> take some bytes.\<close>

definition all_taken :: "(int + nat) list \<Rightarrow> nat \<Rightarrow> bool" where
  "all_taken out n \<longleftrightarrow> (\<forall>x \<in> set (take n out). \<exists>l > 0. x = Inr l)"

lemma all_taken_tl: "all_taken (x # out) (Suc n) \<Longrightarrow> k \<le> n \<Longrightarrow> all_taken out k"
  using set_take_subset_set_take[of k n out] by (auto simp: all_taken_def)

lemma copy_loop_prefix:
  assumes "n \<le> length out" and "0 < chunk"
  shows "\<exists>rc k out'. copy_loop chunk m out ptr n data = Some (rc, data @ mem_read m ptr k, ptr + k, out') \<and> k \<le> n \<and>
    (all_taken out n \<longrightarrow> rc = MDB_SUCCESS) \<and> (rc = MDB_SUCCESS \<and> k = n \<or> rc = EIO \<or> Inl rc \<in> set out) \<and>
    (all_taken out n \<longrightarrow> k = n)"
  using assms
proof (induction chunk m out ptr n data rule: copy_loop.induct)
  case (4 chunk m len out ptr n data)
  define l where "l = min len (min chunk (Suc n))"
  show ?case
  proof (cases "l > 0")
    case True
    have l: "l \<le> Suc n" by (simp add: l_def)
    have "Suc n - l \<le> length out" using 4(2) True by simp
    from 4(1)[OF l_def True this 4(3)] obtain rc k out' where
      r: "copy_loop chunk m out (ptr + l) (Suc n - l) (data @ mem_read m ptr l) = Some (rc, (data @ mem_read m ptr l) @ mem_read m (ptr + l) k, ptr + l + k, out')"
      and k: "k \<le> Suc n - l" and rc: "all_taken out (Suc n - l) \<longrightarrow> rc = MDB_SUCCESS"
        "rc = MDB_SUCCESS \<and> k = Suc n - l \<or> rc = EIO \<or> Inl rc \<in> set out" "all_taken out (Suc n - l) \<longrightarrow> k = Suc n - l" by blast
    have run: "copy_loop chunk m (Inr len # out) ptr (Suc n) data = Some (rc, data @ mem_read m ptr (l + k), ptr + (l + k), out')"
      using True r by (simp add: l_def[symmetric] Let_def mem_read_append add.assoc)
    have "all_taken out (Suc n - l)" if "all_taken (Inr len # out) (Suc n)" using all_taken_tl[OF that] True by simp
    then show ?thesis using run k rc l by (intro exI[of _ rc] exI[of _ "l + k"] exI[of _ out']) auto
  next
    case False
    then have "len = 0" using 4(3) by (simp add: l_def min_def split: if_splits)
    then show ?thesis
      by (intro exI[of _ EIO] exI[of _ 0] exI[of _ out]) (simp add: mem_read_def all_taken_def)
  qed
next
  case (3 chunk m rc out ptr n data)
  then show ?case by (intro exI[of _ rc] exI[of _ 0] exI[of _ out]) (simp add: mem_read_def all_taken_def)
qed (simp_all add: mem_read_def)

text \<open>
  C36: Each of the two copy loops of \<open>mdb_env_copyfd0\<close> ends, and what it wrote is a prefix of the mapped bytes, in
  order and without gaps, however few bytes each \<open>write\<close> takes. If no call fails or takes nothing, all \<open>n\<close> bytes
  are written with \<open>MDB_SUCCESS\<close>; success is never reported for less, and a failure is \<open>EIO\<close> or the error of a call.
\<close>

theorem copy_loop_writes_prefix:
  assumes "n \<le> length out" and "0 < chunk"
  shows "\<exists>rc k out'. copy_loop chunk m out ptr n data = Some (rc, data @ mem_read m ptr k, ptr + k, out') \<and> k \<le> n \<and>
    (all_taken out n \<longrightarrow> rc = MDB_SUCCESS \<and> k = n) \<and> (rc = MDB_SUCCESS \<and> k = n \<or> rc = EIO \<or> Inl rc \<in> set out)"
  using copy_loop_prefix[OF assms, of m ptr data] by blast

theorem copy_loop_writes_prefix_witness:
  "\<exists>rc k out'. copy_loop 4 demo_mem [Inr 2, Inr 9, Inl 28] 1534 3 [] = Some (rc, mem_read demo_mem 1534 k, 1534 + k, out') \<and> k \<le> 3 \<and>
    (rc = MDB_SUCCESS \<and> k = 3 \<or> rc = EIO \<or> rc = 28)"
  using copy_loop_writes_prefix[of 3 "[Inr 2, Inr 9, Inl 28]" 4 demo_mem 1534 "[]"] by auto

section \<open>Limits\<close>

text \<open>
  C35: The limits that \<open>mdb_env_open2\<close> derives from the page size: two nodes of the largest size and their index entries
  fit a page behind its header, a node that is kept in the page leaves its size even, and the page numbers below
  \<open>me_maxpg\<close> lie inside the map.
\<close>

theorem open2_limits_fit:
  assumes "64 \<le> me_psize e" and "me_psize e \<le> MAX_PAGESIZE" and "me_mapsize e < 2 ^ 64"
  shows "let e' = open2_limits e in
    PAGEHDRSZ + MDB_MINKEYS * (me_nodemax e' + 2) \<le> me_psize e \<and> even (me_nodemax e') \<and> 0 < me_nodemax e' \<and>
    8 * (me_maxfree_1pg e' + 1) \<le> me_psize e - PAGEHDRSZ \<and> me_psize e * unat (me_maxpg e') \<le> me_mapsize e"
proof -
  define s where "s = me_psize e - 16"
  define y where "y = s div 2 div 2 * 2"
  define z where "z = s div 8"
  have "48 \<le> s" using assms(1) by (simp add: s_def)
  then have y: "2 * y \<le> s" "24 \<le> y" and z: "8 * z \<le> s" "6 \<le> z" unfolding y_def z_def by presburger+
  have "20 + 2 * (y - 2) \<le> me_psize e" "8 + 8 * (z - 1) \<le> s" using y z s_def by simp_all
  moreover have "unat (of_nat (me_mapsize e div me_psize e) :: u64) \<le> me_mapsize e div me_psize e" by (simp add: unat_of_nat)
  then have "me_psize e * unat (of_nat (me_mapsize e div me_psize e) :: u64) \<le> me_mapsize e"
    by (metis dual_order.trans mult_le_mono2 times_div_less_eq_dividend)
  ultimately show ?thesis using y(2) by (simp add: open2_limits_def Let_def s_def[symmetric] y_def[symmetric] z_def[symmetric]) (simp add: y_def)
qed

theorem open2_limits_fit_witness:
  "let e' = open2_limits (demo_env\<lparr>me_psize := 4096, me_mapsize := 1048576\<rparr>) in
    PAGEHDRSZ + MDB_MINKEYS * (me_nodemax e' + 2) \<le> 4096 \<and> even (me_nodemax e') \<and> 4096 * unat (me_maxpg e') \<le> 1048576"
  using open2_limits_fit[of "demo_env\<lparr>me_psize := 4096, me_mapsize := 1048576\<rparr>"] by (simp add: Let_def)

text \<open>
  C40: \<open>mdb_strerror\<close> never reads outside its table: every code from \<open>MDB_KEYEXIST\<close> to \<open>MDB_LAST_ERRCODE\<close> has its own text, and
  every other code is success or left to the C library.
\<close>

theorem strerror_in_table:
  "(\<exists>s. mdb_strerror strerror err = Some s) \<and>
   (MDB_KEYEXIST \<le> err \<and> err \<le> MDB_BAD_DBI \<longrightarrow> mdb_strerror strerror err = Some (mdb_errstr ! nat (err - MDB_KEYEXIST))) \<and> distinct mdb_errstr"
proof -
  have len: "length mdb_errstr = 20" by (simp add: mdb_errstr_def)
  have d: "distinct mdb_errstr" by (simp add: mdb_errstr_def)
  have "aget mdb_errstr (nat (err - MDB_KEYEXIST)) = Some (mdb_errstr ! nat (err - MDB_KEYEXIST))" if "MDB_KEYEXIST \<le> err \<and> err \<le> MDB_BAD_DBI"
    using that by (intro aget_in) (simp add: len nat_less_iff)
  then show ?thesis using d by (simp add: mdb_strerror_def)
qed

theorem strerror_in_table_witness: "mdb_strerror (\<lambda>_. []) MDB_NOTFOUND = Some ''MDB_NOTFOUND: No matching key/data pair found''"
  using strerror_in_table[of "\<lambda>_. []" MDB_NOTFOUND] by (simp add: mdb_errstr_def)

end
