(* ===== verification/Tree_Update.thy ===== *)
theory Tree_Update
  imports Page_Tree Page_Ops
begin

text \<open>
  What a change of the bytes of one page does to the tree it belongs to: pages as lists of nodes, the areas of
  memory a tree occupies, and the tree after one of its leaves has got another item.
\<close>

section \<open>Pages as lists of nodes\<close>

definition node_dsz :: "mnode \<Rightarrow> nat" where
  "node_dsz n = unat (ucast (n_lo n) OR push_bit 16 (ucast (n_hi n)) :: u32)"

definition node_pgno :: "mnode \<Rightarrow> u64" where
  "node_pgno n = ucast (n_lo n) OR push_bit 16 (ucast (n_hi n)) OR push_bit 32 (ucast (n_flags n))"

definition node_item :: "world \<Rightarrow> nat \<Rightarrow> mnode \<Rightarrow> bytes \<Rightarrow> bool" where
  "node_item w t n v \<longleftrightarrow> \<not> F_ISSET (n_flags n) F_DUPDATA \<and>
     (if F_ISSET (n_flags n) F_BIGDATA then
        \<exists>b. page_at w t (of_nat (le_nat (n_data n))) b \<and> v = mem_read (w_mem w) (METADATA b) (node_dsz n)
      else v = n_data n)"

lemma node_at_fields:
  "NODEDSZ m a = node_dsz (node_at l m a)" "NODEPGNO m a = node_pgno (node_at l m a)" "mn_flags m a = n_flags (node_at l m a)"
  by (simp_all add: node_at_def node_dsz_def node_pgno_def NODEDSZ_def NODEPGNO_def)

lemma item_at_node: "item_at w t a v \<longleftrightarrow> node_item w t (node_at True (w_mem w) a) v"
  by (auto simp: item_at_def node_item_def node_at_def data_len_def node_dsz_def NODEDSZ_def rd64_def)

lemma node_key_nodes: "\<not> IS_LEAF2 m a \<Longrightarrow> i < NUMKEYS m a \<Longrightarrow> node_key m a 0 i = n_key (page_nodes m a ! i)"
  by (simp add: node_key_def nth_page_nodes node_at_def)

lemma leaf_page_nodes:
  "leaf_page valid less_key w t a kvs \<longleftrightarrow>
     IS_LEAF (w_mem w) a \<and> \<not> IS_BRANCH (w_mem w) a \<and> \<not> IS_LEAF2 (w_mem w) a \<and>
     1 \<le> length (page_nodes (w_mem w) a) \<and> length (page_nodes (w_mem w) a) < 65536 \<and>
     list_all2 (\<lambda>n kv. n_key n = fst kv \<and> node_item w t n (snd kv)) (page_nodes (w_mem w) a) kvs \<and>
     (\<forall>kv \<in> set kvs. valid (fst kv)) \<and> sorted_wrt less_key (map fst kvs)"
proof (cases "IS_LEAF (w_mem w) a \<and> \<not> IS_BRANCH (w_mem w) a \<and> \<not> IS_LEAF2 (w_mem w) a \<and> length kvs = NUMKEYS (w_mem w) a")
  case True
  let ?m = "w_mem w" and ?n = "NUMKEYS (w_mem w) a"
  have key: "node_key ?m a 0 i = n_key (page_nodes ?m a ! i)" if "i < ?n" for i using True that node_key_nodes by simp
  have item: "item_at w t (NODEPTR ?m a i) v \<longleftrightarrow> node_item w t (page_nodes ?m a ! i) v" if "i < ?n" for i v
    using True that by (simp add: item_at_node nth_page_nodes)
  show ?thesis
    using True key item
    by (auto simp: leaf_page_def list_all2_conv_all_nth length_page_nodes keys_ordered_def sorted_wrt_iff_nth_less all_set_conv_all_nth)
next
  case False
  then show ?thesis by (auto simp: leaf_page_def list_all2_conv_all_nth length_page_nodes)
qed

lemma branch_page_nodes:
  "branch_page valid less_key w t a cs \<longleftrightarrow>
     IS_BRANCH (w_mem w) a \<and> \<not> IS_LEAF (w_mem w) a \<and> \<not> IS_LEAF2 (w_mem w) a \<and>
     2 \<le> length (page_nodes (w_mem w) a) \<and> length (page_nodes (w_mem w) a) < 65536 \<and>
     list_all2 (\<lambda>n c. page_at w t (node_pgno n) c) (page_nodes (w_mem w) a) cs \<and>
     keys_ordered valid less_key (\<lambda>i. n_key (page_nodes (w_mem w) a ! i)) 1 (length (page_nodes (w_mem w) a))"
proof -
  let ?m = "w_mem w" and ?n = "NUMKEYS (w_mem w) a"
  have "keys_ordered valid less_key (node_key ?m a 0) 1 ?n = keys_ordered valid less_key (\<lambda>i. n_key (page_nodes ?m a ! i)) 1 ?n" if "\<not> IS_LEAF2 ?m a"
    using node_key_nodes[OF that] by (auto simp: keys_ordered_def)
  moreover have "NODEPGNO ?m (NODEPTR ?m a i) = node_pgno (page_nodes ?m a ! i)" if "i < ?n" for i
    using that by (simp add: nth_page_nodes node_at_fields(2)[of _ _ "IS_LEAF ?m a"])
  ultimately show ?thesis by (auto simp: branch_page_def list_all2_conv_all_nth length_page_nodes)
qed

section \<open>The memory of a tree\<close>

text \<open>\<open>tree_page\<close>: the pages that are reached from a page through the nodes of branch pages.\<close>

inductive tree_page :: "world \<Rightarrow> nat \<Rightarrow> addr \<Rightarrow> addr \<Rightarrow> bool" for w t where
  self: "tree_page w t a a"
| child: "IS_BRANCH (w_mem w) a \<Longrightarrow> n \<in> set (page_nodes (w_mem w) a) \<Longrightarrow> page_at w t (node_pgno n) c \<Longrightarrow>
     tree_page w t c b \<Longrightarrow> tree_page w t a b"

text \<open>
  \<open>apart\<close>: the pages of the tree are well formed and do not overlap, neither with each other nor with the values
  on overflow pages. \<open>spared\<close>: a change of the world leaves every page of the tree but one alone.
\<close>

definition big_value :: "world \<Rightarrow> nat \<Rightarrow> addr \<Rightarrow> addr \<Rightarrow> nat \<Rightarrow> bool" where
  "big_value w t root v n \<longleftrightarrow> (\<exists>b nd big. tree_page w t root b \<and> IS_LEAF (w_mem w) b \<and> nd \<in> set (page_nodes (w_mem w) b) \<and>
     F_ISSET (n_flags nd) F_BIGDATA \<and> page_at w t (of_nat (le_nat (n_data nd))) big \<and> v = METADATA big \<and> n = node_dsz nd)"

definition apart :: "nat \<Rightarrow> world \<Rightarrow> nat \<Rightarrow> addr \<Rightarrow> bool" where
  "apart psz w t root \<longleftrightarrow> (\<forall>a. tree_page w t root a \<longrightarrow> page_wf psz (w_mem w) a \<and>
     (\<forall>b. tree_page w t root b \<longrightarrow> a = b \<or> a + psz \<le> b \<or> b + psz \<le> a) \<and>
     (\<forall>v n. big_value w t root v n \<longrightarrow> a + psz \<le> v \<or> v + n \<le> a))"

definition spared :: "world \<Rightarrow> world \<Rightarrow> nat \<Rightarrow> addr \<Rightarrow> addr \<Rightarrow> bool" where
  "spared w w' t root a \<longleftrightarrow> same_view w w' \<and>
     (\<forall>b. tree_page w t root b \<and> b \<noteq> a \<longrightarrow>
        page_nodes (w_mem w') b = page_nodes (w_mem w) b \<and> mp_flags (w_mem w') b = mp_flags (w_mem w) b) \<and>
     (\<forall>v n. big_value w t root v n \<longrightarrow> mem_read (w_mem w') v n = mem_read (w_mem w) v n)"

lemma tree_page_trans: "tree_page w t a b \<Longrightarrow> tree_page w t b c \<Longrightarrow> tree_page w t a c"
  by (induction rule: tree_page.induct) (auto intro: tree_page.child)

lemma page_bytes_same:
  assumes "page_wf psz m b" and "same_outside a (a + psz) m m'" and "a + psz \<le> b \<or> b + psz \<le> a"
  shows "page_nodes m' b = page_nodes m b" "mp_flags m' b = mp_flags m b" "page_wf psz m' b"
proof -
  have "m' (b + x) = m (b + x)" if "x < psz" for x using assms that by (auto simp: same_outside_def)
  moreover have "16 + 2 * NUMKEYS m b \<le> psz" using page_wfD[OF assms(1)] by linarith
  ultimately have "m' (b + x) = m (b + x)" if "x < 16 + 2 * NUMKEYS m b \<or> (unat (mp_upper m b) \<le> x \<and> x < psz)" for x
    using that by auto
  note tr = page_transfer[OF assms(1) this]
  show "page_nodes m' b = page_nodes m b" "mp_flags m' b = mp_flags m b" "page_wf psz m' b" by (simp_all add: tr)
qed

lemma apart_spared:
  assumes "apart psz w t root" and "tree_page w t root a" and "same_view w w'" and out: "same_outside a (a + psz) (w_mem w) (w_mem w')"
  shows "spared w w' t root a"
  unfolding spared_def
proof (intro conjI allI impI)
  fix b assume b: "tree_page w t root b \<and> b \<noteq> a"
  then have "page_wf psz (w_mem w) b" "a + psz \<le> b \<or> b + psz \<le> a" using assms(1,2) by (auto simp: apart_def)
  from page_bytes_same[OF this(1) out this(2)]
  show "page_nodes (w_mem w') b = page_nodes (w_mem w) b" "mp_flags (w_mem w') b = mp_flags (w_mem w) b" by simp_all
next
  fix v n assume "big_value w t root v n"
  then have "a + psz \<le> v \<or> v + n \<le> a" using assms(1,2) by (auto simp: apart_def)
  then show "mem_read (w_mem w') v n = mem_read (w_mem w) v n" using out by (auto simp: mem_read_def same_outside_def)
qed (rule assms(3))

lemma leaf_items_same:
  assumes sp: "spared w w' t root a" and b: "tree_page w t root b" "IS_LEAF (w_mem w) b" and n: "n \<in> set (page_nodes (w_mem w) b)"
  shows "node_item w' t n v = node_item w t n v"
proof -
  have "same_view w w'" using sp by (simp add: spared_def)
  moreover have "mem_read (w_mem w') (METADATA big) (node_dsz n) = mem_read (w_mem w) (METADATA big) (node_dsz n)"
    if "F_ISSET (n_flags n) F_BIGDATA" "page_at w t (of_nat (le_nat (n_data n))) big" for big
    using sp b n that by (fastforce simp: spared_def big_value_def)
  ultimately show ?thesis by (auto simp: node_item_def page_at_view)
qed

lemma page_kind_same:
  assumes "mp_flags m' b = mp_flags m b"
  shows "IS_LEAF m' b = IS_LEAF m b" "IS_BRANCH m' b = IS_BRANCH m b" "IS_LEAF2 m' b = IS_LEAF2 m b"
  using assms by (simp_all add: IS_LEAF_def IS_BRANCH_def IS_LEAF2_def)

lemma leaf_page_spared:
  assumes sp: "spared w w' t root a" and b: "tree_page w t root b" "b \<noteq> a" and leaf: "leaf_page valid less_key w t b kvs"
  shows "leaf_page valid less_key w' t b kvs"
proof -
  have eq: "page_nodes (w_mem w') b = page_nodes (w_mem w) b" "mp_flags (w_mem w') b = mp_flags (w_mem w) b"
    using sp b by (auto simp: spared_def)
  have "IS_LEAF (w_mem w) b" using leaf by (simp add: leaf_page_def)
  from leaf_items_same[OF sp b(1) this]
  have "list_all2 (\<lambda>n kv. n_key n = fst kv \<and> node_item w' t n (snd kv)) (page_nodes (w_mem w) b) kvs =
     list_all2 (\<lambda>n kv. n_key n = fst kv \<and> node_item w t n (snd kv)) (page_nodes (w_mem w) b) kvs"
    by (intro list.rel_cong) auto
  with leaf show ?thesis unfolding leaf_page_nodes eq page_kind_same[OF eq(2)] by blast
qed

lemma branch_page_spared:
  assumes sp: "spared w w' t root a" and b: "tree_page w t root b" "b \<noteq> a" and branch: "branch_page valid less_key w t b cs"
  shows "branch_page valid less_key w' t b cs"
    and "i < NUMKEYS (w_mem w) b \<Longrightarrow> node_key (w_mem w') b 0 i = node_key (w_mem w) b 0 i"
proof -
  have eq: "page_nodes (w_mem w') b = page_nodes (w_mem w) b" "mp_flags (w_mem w') b = mp_flags (w_mem w) b"
    and vw: "same_view w w'" using sp b by (auto simp: spared_def)
  show "branch_page valid less_key w' t b cs"
    using branch unfolding branch_page_nodes eq page_kind_same[OF eq(2)] page_at_view[OF vw] .
  have "\<not> IS_LEAF2 (w_mem w) b" using branch by (simp add: branch_page_def)
  moreover from this have "\<not> IS_LEAF2 (w_mem w') b" by (simp only: page_kind_same[OF eq(2)] not_False_eq_True)
  moreover have "NUMKEYS (w_mem w') b = NUMKEYS (w_mem w) b" using eq(1) by (metis length_page_nodes)
  ultimately show "node_key (w_mem w') b 0 i = node_key (w_mem w) b 0 i" if "i < NUMKEYS (w_mem w) b"
    using that eq(1) by (simp add: node_key_nodes)
qed

lemma child_page:
  assumes "branch_page valid less_key w t a cs" and "i < length cs" and "tree_page w t (cs ! i) b"
  shows "tree_page w t a b"
  using assms by (intro tree_page.child[of w a "page_nodes (w_mem w) a ! i" t "cs ! i" b])
    (auto simp: branch_page_nodes list_all2_conv_all_nth)

lemma tree_spared:
  assumes "tree valid less_key w t h c kvs" and "spared w w' t root a" and "tree_page w t root c" and "\<not> tree_page w t c a"
  shows "tree valid less_key w' t h c kvs"
  using assms
proof (induction rule: tree.induct)
  case (leaf c kvs)
  then have "c \<noteq> a" using tree_page.self by auto
  then show ?case using leaf leaf_page_spared by (blast intro: tree.leaf)
next
  case (branch c cs kss h)
  have ca: "c \<noteq> a" using branch.prems(3) tree_page.self by auto
  note same = branch_page_spared[OF branch.prems(1,2) ca branch.hyps(1)]
  have n: "length kss = NUMKEYS (w_mem w) c" using branch.hyps(1,2) by (simp add: branch_page_def)
  have "\<forall>i < length cs. tree valid less_key w' t h (cs ! i) (kss ! i)"
    using branch.IH branch.prems child_page[OF branch.hyps(1)] tree_page.self tree_page_trans by meson
  moreover have "separated less_key (node_key (w_mem w') c 0) kss"
    using branch.hyps(3) same(2) n by (simp add: separated_def)
  ultimately show ?case using same(1) branch.hyps(2) by (intro tree.branch)
qed

section \<open>A change of one leaf\<close>

text \<open>A leaf page is a page of one subtree only, since no key is in two of them.\<close>

lemma leaf_keys: "leaf_page valid less_key w t a ks \<Longrightarrow> map fst ks = map n_key (page_nodes (w_mem w) a)"
  by (auto simp: leaf_page_nodes list_all2_conv_all_nth list_eq_iff_nth_eq)

lemma subtree_leaf:
  assumes "tree_page w t c a" and "tree valid less_key w t h c kvs" and "leaf_page valid less_key w t a ks"
  shows "fst ` set ks \<subseteq> fst ` set kvs"
  using assms
proof (induction arbitrary: h kvs rule: tree_page.induct)
  case (self a)
  from self.prems(1) show ?case
  proof (cases rule: tree.cases)
    case leaf
    then have "map fst kvs = map fst ks" using leaf_keys[of valid less_key w t a] self.prems(2) by metis
    then show ?thesis by (metis list.set_map order_refl)
  qed (use self.prems(2) in \<open>auto simp: leaf_page_def branch_page_def\<close>)
next
  case (child c n d b)
  from child.prems(1) show ?case
  proof (cases rule: tree.cases)
    case (branch cs kss h)
    obtain i where i: "i < length cs" "n = page_nodes (w_mem w) c ! i"
      using child.hyps(2) branch(3) by (auto simp: in_set_conv_nth branch_page_def)
    then have "page_at w t (node_pgno n) (cs ! i)" using branch(3) by (auto simp: branch_page_nodes list_all2_conv_all_nth)
    then have "d = cs ! i" using child.hyps(3) page_at_fun by blast
    then have "fst ` set ks \<subseteq> fst ` set (kss ! i)" using child.IH[of h "kss ! i"] child.prems(2) branch(5) i by simp
    moreover have "set (kss ! i) \<subseteq> set kvs" unfolding branch(2) set_concat by (rule UN_upper) (simp add: i branch(4))
    ultimately show ?thesis by blast
  qed (use child.hyps(1) in \<open>simp add: leaf_page_def\<close>)
qed

lemma separated_key:
  assumes "separated less_key ks kss" and "1 \<le> i" "i < length kss" and "k \<in> fst ` set (kss ! j)" and "j < length kss"
  shows "less_key k (ks i) = (j < i)"
proof -
  obtain v where "(k, v) \<in> set (kss ! j)" using assms(4) by auto
  then show ?thesis using assms(1)[unfolded separated_def, rule_format, of i j k v] assms(2,3,5) by simp
qed

lemma sibling_not_page:
  assumes "branch_page valid less_key w t b cs" and len: "length kss = length cs" and tr: "\<forall>i < length cs. tree valid less_key w t h (cs ! i) (kss ! i)"
    and sep: "separated less_key (node_key (w_mem w) b 0) kss"
    and leaf: "leaf_page valid less_key w t a ks" and j: "j < length cs" "tree_page w t (cs ! j) a" and i: "i < length cs" "i \<noteq> j"
  shows "\<not> tree_page w t (cs ! i) a"
proof
  assume "tree_page w t (cs ! i) a"
  from subtree_leaf[OF this _ leaf, of h "kss ! i"] subtree_leaf[OF j(2) _ leaf, of h "kss ! j"]
  have sub: "fst ` set ks \<subseteq> fst ` set (kss ! i)" "fst ` set ks \<subseteq> fst ` set (kss ! j)" using tr i j by simp_all
  have "ks \<noteq> []" using leaf by (auto simp: leaf_page_def)
  then obtain k where "k \<in> fst ` set ks" by (cases ks) auto
  then have ki: "k \<in> fst ` set (kss ! i)" and kj: "k \<in> fst ` set (kss ! j)" using sub(1,2)[THEN subsetD, of k] by simp_all
  have m: "1 \<le> max i j" "max i j < length kss" using i j len by auto
  have "less_key k (node_key (w_mem w) b 0 (max i j)) = (i < max i j)" "less_key k (node_key (w_mem w) b 0 (max i j)) = (j < max i j)"
    using separated_key[OF sep m ki] separated_key[OF sep m kj] i j len by simp_all
  then show False using i(2) by auto
qed

text \<open>The items of a subtree are routed to it at every level above.\<close>

lemma path_routed:
  assumes "path valid less_key w t c l h a kvs pre post" and "i < l" and "kv \<in> set kvs"
  shows "routed less_key (fst kv) (w_mem w) (mc_pg c i) (mc_ki c i)"
  using assms
proof (induction arbitrary: kv rule: path.induct)
  case (down l h kss pre post cs)
  have n: "length cs = NUMKEYS (w_mem w) (mc_pg c l)" using down.hyps(2) by (simp add: branch_page_def)
  have at: "kss ! mc_ki c l \<in> set kss" using down.hyps by simp
  show ?case
  proof (cases "i = l")
    case True
    then show ?thesis using separated_key[OF down.hyps(5), of _ "fst kv" "mc_ki c l"] down.hyps(3,6) down.prems n by (simp add: routed_def)
  next
    case False
    then show ?thesis using down.IH[of kv] down.prems at by auto
  qed
qed simp

lemma concat_update: "j < length kss \<Longrightarrow> concat (kss[j := ks]) = concat (take j kss) @ ks @ concat (drop (Suc j) kss)"
  by (simp add: upd_conv_take_nth_drop)

lemma path_tree_page: "path valid less_key w t c l h b kvs pre post \<Longrightarrow> tree_page w t (mc_pg c 0) b"
proof (induction rule: path.induct)
  case (down l h kss pre post cs)
  have "tree_page w t (mc_pg c l) (mc_pg c (Suc l))"
    using child_page[OF down.hyps(2,6)] down.hyps(7) tree_page.self by metis
  then show ?case using down.IH tree_page_trans by blast
qed (rule tree_page.self)

lemma branch_update:
  assumes page: "branch_page valid less_key w t b cs" and len: "length kss = length cs"
    and tr: "\<forall>i < length cs. tree valid less_key w t h (cs ! i) (kss ! i)" and sep: "separated less_key (node_key (w_mem w) b 0) kss"
    and sp: "spared w w' t root a" and b: "tree_page w t root b" and leaf: "leaf_page valid less_key w t a ks"
    and j: "j < length cs" "tree_page w t (cs ! j) a" and new: "tree valid less_key w' t h (cs ! j) ks'"
    and rt: "\<forall>kv \<in> set ks'. routed less_key (fst kv) (w_mem w) b j"
  shows "tree valid less_key w' t (Suc h) b (concat (kss[j := ks']))"
proof (rule tree.branch)
  have ba: "b \<noteq> a" using page leaf by (auto simp: branch_page_def leaf_page_def)
  note same = branch_page_spared[OF sp b ba page]
  show "branch_page valid less_key w' t b cs" by (rule same(1))
  show "length (kss[j := ks']) = length cs" by (simp add: len)
  show "\<forall>i < length cs. tree valid less_key w' t h (cs ! i) (kss[j := ks'] ! i)"
  proof (intro allI impI)
    fix i assume i: "i < length cs"
    show "tree valid less_key w' t h (cs ! i) (kss[j := ks'] ! i)"
    proof (cases "i = j")
      case False
      then have "\<not> tree_page w t (cs ! i) a" using sibling_not_page[OF page len tr sep leaf j i] by blast
      moreover have "tree_page w t root (cs ! i)" using child_page[OF page i tree_page.self] b tree_page_trans by blast
      ultimately have "tree valid less_key w' t h (cs ! i) (kss ! i)" using tree_spared[OF _ sp] tr i by blast
      then show ?thesis using False by simp
    qed (use new i len in simp)
  qed
  have n: "length kss = NUMKEYS (w_mem w) b" using page len by (simp add: branch_page_def)
  have "less_key k (node_key (w_mem w) b 0 i) = (q < i)"
    if "1 \<le> i" "i < length kss" "q < length kss" "(k, v) \<in> set (kss[j := ks'] ! q)" for i q k v
  proof (cases "q = j")
    case True
    then show ?thesis using rt that n unfolding routed_def by fastforce
  next
    case False
    then show ?thesis using separated_key[OF sep that(1,2), of k q] that(3,4) by (force simp: image_iff)
  qed
  then show "separated less_key (node_key (w_mem w') b 0) (kss[j := ks'])"
    using same(2) n by (simp add: separated_def)
qed

lemma path_update:
  assumes "path valid less_key w t c l h b kvs pre post" and "tree valid less_key w' t h b ks'" and "tree_page w t b a"
    and "spared w w' t (mc_pg c 0) a" and "leaf_page valid less_key w t a ks"
    and "\<forall>kv \<in> set ks'. \<forall>i < l. routed less_key (fst kv) (w_mem w) (mc_pg c i) (mc_ki c i)"
  shows "tree valid less_key w' t (l + h) (mc_pg c 0) (pre @ ks' @ post)"
  using assms
proof (induction arbitrary: ks' rule: path.induct)
  case (down l h kss pre post cs)
  let ?j = "mc_ki c l"
  have sub: "tree_page w t (cs ! ?j) a" "tree valid less_key w' t h (cs ! ?j) ks'" using down.prems(1,2) down.hyps(7) by simp_all
  have "\<forall>kv \<in> set ks'. routed less_key (fst kv) (w_mem w) (mc_pg c l) ?j" using down.prems(5) by simp
  note upd = branch_update[OF down.hyps(2,3,4,5) down.prems(3) path_tree_page[OF down.hyps(1)] down.prems(4) down.hyps(6) sub this]
  have j: "?j < length kss" using down.hyps by simp
  have "set (concat (kss[?j := ks'])) \<subseteq> set ks' \<union> set (concat kss)"
    using set_update_subset_insert[of kss ?j ks'] by auto
  then have "\<forall>kv \<in> set (concat (kss[?j := ks'])). \<forall>i < l. routed less_key (fst kv) (w_mem w) (mc_pg c i) (mc_ki c i)"
    using down.prems(5) path_routed[OF down.hyps(1)] by (meson Un_iff less_SucI subsetD)
  from down.IH[OF upd child_page[OF down.hyps(2,6) sub(1)] down.prems(3,4) this]
  show ?case using concat_update[OF j, of ks'] by simp
qed simp

lemma leaf_insert:
  assumes leaf: "leaf_page valid less_key w t a ks" and sp: "spared w w' t root a" and a: "tree_page w t root a"
    and nodes: "page_nodes (w_mem w') a = take i (page_nodes (w_mem w) a) @ n # drop i (page_nodes (w_mem w) a)"
    and fl: "mp_flags (w_mem w') a = mp_flags (w_mem w) a" and few: "Suc (length ks) < 65536" and i: "i \<le> length ks"
    and n: "n_key n = key" "node_item w' t n v" and key: "valid key"
    and lo: "\<forall>j < i. less_key (fst (ks ! j)) key" and hi: "\<forall>j. i \<le> j \<and> j < length ks \<longrightarrow> less_key key (fst (ks ! j))"
  shows "leaf_page valid less_key w' t a (take i ks @ (key, v) # drop i ks)"
proof -
  let ?ns = "page_nodes (w_mem w) a" and ?R = "\<lambda>w n kv. n_key n = fst kv \<and> node_item w t n (snd kv)"
  have old: "IS_LEAF (w_mem w) a" "list_all2 (?R w) ?ns ks" "\<forall>kv \<in> set ks. valid (fst kv)" "sorted_wrt less_key (map fst ks)"
    and kind: "\<not> IS_BRANCH (w_mem w) a" "\<not> IS_LEAF2 (w_mem w) a" "length ?ns = length ks"
    using leaf by (auto simp: leaf_page_nodes list_all2_conv_all_nth)
  have "list_all2 (?R w') ?ns ks = list_all2 (?R w) ?ns ks"
    using leaf_items_same[OF sp a old(1)] by (intro list.rel_cong) auto
  with old(2) have "list_all2 (?R w') ?ns ks" by simp
  then have "list_all2 (?R w') (page_nodes (w_mem w') a) (take i ks @ (key, v) # drop i ks)"
    unfolding nodes using n by (auto intro!: list_all2_appendI list_all2_takeI list_all2_dropI)
  moreover have "\<forall>kv \<in> set (take i ks @ (key, v) # drop i ks). valid (fst kv)"
    using old(3) key by (auto dest: in_set_takeD in_set_dropD)
  moreover have "less_key k key" if "k \<in> set (take i (map fst ks))" for k
    using that lo i by (auto simp: in_set_conv_nth)
  moreover have "less_key key k" if "k \<in> set (drop i (map fst ks))" for k
    using that hi i by (auto simp: in_set_conv_nth)
  moreover have "sorted_wrt less_key (take i (map fst ks) @ drop i (map fst ks))" using old(4) by simp
  ultimately have "sorted_wrt less_key (map fst (take i ks @ (key, v) # drop i ks))"
    unfolding sorted_wrt_append by (simp add: take_map drop_map sorted_wrt_append)
  moreover have "length (page_nodes (w_mem w') a) = Suc (length ks)" using nodes kind(3) i by simp
  ultimately show ?thesis
    unfolding leaf_page_nodes page_kind_same[OF fl] using old(1) kind few
      \<open>list_all2 (?R w') (page_nodes (w_mem w') a) (take i ks @ (key, v) # drop i ks)\<close>
      \<open>\<forall>kv \<in> set (take i ks @ (key, v) # drop i ks). valid (fst kv)\<close> by simp
qed

text \<open>The pages of the tree stay the same, and apart.\<close>

lemma tree_page_spared:
  assumes "tree_page w t c b" and "spared w w' t root a" and "tree_page w t root c" and "\<not> IS_BRANCH (w_mem w) a"
  shows "tree_page w' t c b"
  using assms
proof (induction rule: tree_page.induct)
  case (child c n d b)
  have c: "c \<noteq> a" using child.hyps(1) child.prems(3) by auto
  have vw: "same_view w w'" using child.prems(1) by (simp add: spared_def)
  have eq: "page_nodes (w_mem w') c = page_nodes (w_mem w) c" "mp_flags (w_mem w') c = mp_flags (w_mem w) c"
    using child.prems(1,2) c by (auto simp: spared_def)
  have "tree_page w t root d"
    using child.prems(2) child.hyps(1-3) tree_page.child[OF _ _ _ tree_page.self] tree_page_trans by blast
  from child.IH[OF child.prems(1) this child.prems(3)]
  show ?case by (rule tree_page.child[of w' c n, rotated 3]) (simp_all add: eq child.hyps page_kind_same[OF eq(2)] page_at_view[OF vw])
qed (rule tree_page.self)

lemma tree_page_back:
  assumes "tree_page w' t c b" and "spared w w' t root a" and "tree_page w t root c" and "\<not> IS_BRANCH (w_mem w') a"
  shows "tree_page w t c b"
  using assms
proof (induction rule: tree_page.induct)
  case (child c n d b)
  have c: "c \<noteq> a" using child.hyps(1) child.prems(3) by auto
  have vw: "same_view w w'" using child.prems(1) by (simp add: spared_def)
  have eq: "page_nodes (w_mem w') c = page_nodes (w_mem w) c" "mp_flags (w_mem w') c = mp_flags (w_mem w) c"
    using child.prems(1,2) c by (auto simp: spared_def)
  have d: "IS_BRANCH (w_mem w) c" "n \<in> set (page_nodes (w_mem w) c)" "page_at w t (node_pgno n) d"
    using child.hyps(1-3) by (simp_all add: eq(1) page_kind_same[OF eq(2)] page_at_view[OF vw])
  then have "tree_page w t root d"
    using child.prems(2) tree_page.child[OF _ _ _ tree_page.self] tree_page_trans by blast
  from child.IH[OF child.prems(1) this child.prems(3)] show ?case by (rule tree_page.child[OF d])
qed (rule tree_page.self)

lemma apart_insert:
  assumes ap: "apart psz w t root" and a: "tree_page w t root a" and vw: "same_view w w'" and out: "same_outside a (a + psz) (w_mem w) (w_mem w')"
    and wf: "page_wf psz (w_mem w') a" and leaf: "\<not> IS_BRANCH (w_mem w) a" "mp_flags (w_mem w') a = mp_flags (w_mem w) a"
    and nodes: "page_nodes (w_mem w') a = take i (page_nodes (w_mem w) a) @ n # drop i (page_nodes (w_mem w) a)"
    and n: "\<not> F_ISSET (n_flags n) F_BIGDATA"
  shows "apart psz w' t root"
proof -
  note sp = apart_spared[OF ap a vw out]
  have pages: "tree_page w' t root b = tree_page w t root b" for b
    using tree_page_spared[OF _ sp tree_page.self leaf(1)] tree_page_back[OF _ sp tree_page.self] leaf page_kind_same[OF leaf(2)] by blast
  have "big_value w t root v k" if big: "big_value w' t root v k" for v k
  proof -
    from big[unfolded big_value_def pages page_at_view[OF vw]] obtain b nd g where b: "tree_page w t root b" "IS_LEAF (w_mem w') b" "nd \<in> set (page_nodes (w_mem w') b)"
      "F_ISSET (n_flags nd) F_BIGDATA" "page_at w t (of_nat (le_nat (n_data nd))) g" "v = METADATA g" "k = node_dsz nd" by (elim exE conjE)
    have "mp_flags (w_mem w') b = mp_flags (w_mem w) b" using sp b(1) leaf(2) by (cases "b = a") (auto simp: spared_def)
    moreover have "nd \<in> set (page_nodes (w_mem w) b)"
    proof (cases "b = a")
      case True
      then show ?thesis using b(3,4) n nodes by (auto dest: in_set_takeD in_set_dropD)
    next
      case False
      then show ?thesis using b(1,3) sp by (simp add: spared_def)
    qed
    ultimately show ?thesis using b page_kind_same(1) unfolding big_value_def by blast
  qed
  moreover have "page_wf psz (w_mem w') b" if "tree_page w t root b" for b
    using page_bytes_same(3)[OF _ out] that ap a wf by (cases "b = a") (auto simp: apart_def)
  ultimately show ?thesis using ap unfolding apart_def pages by blast
qed

section \<open>The pages on the way to a key\<close>

inductive key_page :: "(bytes \<Rightarrow> bytes \<Rightarrow> bool) \<Rightarrow> world \<Rightarrow> nat \<Rightarrow> bytes \<Rightarrow> addr \<Rightarrow> addr \<Rightarrow> bool" for less_key w t key where
  self: "key_page less_key w t key a a"
| child: "key_page less_key w t key a b \<Longrightarrow> IS_BRANCH (w_mem w) b \<Longrightarrow> j < NUMKEYS (w_mem w) b \<Longrightarrow> routed less_key key (w_mem w) b j \<Longrightarrow>
     page_at w t (node_pgno (page_nodes (w_mem w) b ! j)) c \<Longrightarrow> key_page less_key w t key a c"

lemma path_key_page:
  assumes "path valid less_key w t c l h b kvs pre post" and "\<forall>i < l. routed less_key key (w_mem w) (mc_pg c i) (mc_ki c i)"
  shows "\<forall>i \<le> l. key_page less_key w t key (mc_pg c 0) (mc_pg c i)"
  using assms
proof (induction rule: path.induct)
  case (down l h kss pre post cs)
  have up: "\<forall>i \<le> l. key_page less_key w t key (mc_pg c 0) (mc_pg c i)" using down.IH down.prems by simp
  have "IS_BRANCH (w_mem w) (mc_pg c l)" "mc_ki c l < NUMKEYS (w_mem w) (mc_pg c l)"
      "page_at w t (node_pgno (page_nodes (w_mem w) (mc_pg c l) ! mc_ki c l)) (mc_pg c (Suc l))"
    using down.hyps(2,6,7) by (simp_all add: branch_page_nodes list_all2_conv_all_nth)
  moreover have "routed less_key key (w_mem w) (mc_pg c l) (mc_ki c l)" using down.prems by simp
  moreover have "key_page less_key w t key (mc_pg c 0) (mc_pg c l)" using up by simp
  ultimately have "key_page less_key w t key (mc_pg c 0) (mc_pg c (Suc l))" by (blast intro: key_page.child)
  then show ?case using up by (auto simp: le_Suc_eq)
qed (simp add: key_page.self)

section \<open>The same memory\<close>

lemma tree_same:
  assumes "tree valid less_key w t h a kvs" and "same_view w w'" and "w_mem w' = w_mem w"
  shows "tree valid less_key w' t h a kvs"
  using assms
proof (induction rule: tree.induct)
  case (leaf a kvs)
  have "node_item w' t = node_item w t" by (intro ext) (simp only: node_item_def page_at_view[OF leaf.prems(1)] leaf.prems(2))
  then show ?case using leaf by (auto intro: tree.leaf simp: leaf_page_nodes)
next
  case (branch a cs kss h)
  have "branch_page valid less_key w' t a cs" using branch.hyps(1) branch.prems by (simp add: branch_page_def page_at_view)
  then show ?case using branch by (auto intro!: tree.branch)
qed

lemma tree_same_eq:
  assumes "same_view w w'" and "w_mem w' = w_mem w"
  shows "tree valid less_key w' t = tree valid less_key w t"
  using tree_same[OF _ assms] tree_same[OF _ same_view_sym[OF assms(1)] assms(2)[symmetric]] by (intro ext) blast

lemma db_holds_same:
  assumes "same_view w w'" and "w_mem w' = w_mem w" and "me_dbxs (w_env w') = me_dbxs (w_env w)"
    and "mt_dbs (txn w' t) = mt_dbs (txn w t)" and "mt_dbflags (txn w' t) = mt_dbflags (txn w t)" and "mt_numdbs (txn w' t) = mt_numdbs (txn w t)"
  shows "db_holds valid less_key c w' t dbi kvs = db_holds valid less_key c w t dbi kvs"
  unfolding db_holds_def TXN_DBI_EXIST_def page_at_view[OF assms(1)] same_viewD(1)[OF assms(1)] assms(3-6) tree_same_eq[OF assms(1,2)] ..

lemma tree_page_same: "tree_page w t a b \<Longrightarrow> same_view w w' \<Longrightarrow> w_mem w' = w_mem w \<Longrightarrow> tree_page w' t a b"
proof (induction rule: tree_page.induct)
  case (child a n c b)
  then show ?case by (intro tree_page.child[of w' a n t c b]) (simp_all add: page_at_view)
qed (rule tree_page.self)

lemma apart_same:
  assumes "same_view w w'" and "w_mem w' = w_mem w"
  shows "apart psz w' t a = apart psz w t a"
proof -
  have "tree_page w' t a = tree_page w t a"
    using tree_page_same[OF _ assms] tree_page_same[OF _ same_view_sym[OF assms(1)] assms(2)[symmetric]] by blast
  then show ?thesis by (simp add: apart_def big_value_def assms(2) page_at_view[OF assms(1)])
qed

lemma key_page_same1: "key_page less_key w t key a b \<Longrightarrow> same_view w w' \<Longrightarrow> w_mem w' = w_mem w \<Longrightarrow> key_page less_key w' t key a b"
proof (induction rule: key_page.induct)
  case (child a b j c)
  then show ?case by (intro key_page.child[of less_key w' t key a b j c]) (simp_all add: page_at_view)
qed (rule key_page.self)

lemma key_page_same:
  assumes "same_view w w'" and "w_mem w' = w_mem w"
  shows "key_page less_key w' t key a b = key_page less_key w t key a b"
  using key_page_same1[OF _ assms] key_page_same1[OF _ same_view_sym[OF assms(1)] assms(2)[symmetric]] by blast

end
