(* ===== verification/Cursor_Spec.thy ===== *)
theory Cursor_Spec
  imports Demo
begin

text \<open>
  What \<open>mdb_get\<close> and the read operations of a cursor promise. The items of a database are a list in key order and
  a cursor is a position in it; \<open>cursor_step\<close> is that specification, and \<open>cursor_rel\<close> the relation between a
  cursor of the model (page stack, indices and flags) and a position.
\<close>

section \<open>Cursors as positions in the list of items\<close>

subsection \<open>The specification\<close>

text \<open>
  \<open>Unset\<close>: never positioned. \<open>At p eof\<close>: on the item \<open>p\<close>, \<open>eof\<close> when \<open>C_EOF\<close> is set. \<open>Lost\<close>: after a
  search that did not find its key; the operations that move from the current item are not specified there.
\<close>

datatype acursor = Unset | Lost | At nat bool

datatype aop = First | Last | Next | Prev | Current | Set_key bytes | Set_range bytes

text \<open>The position of the first item whose key is not less than \<open>key\<close>.\<close>

definition lower_bound :: "(bytes \<Rightarrow> bytes \<Rightarrow> bool) \<Rightarrow> (bytes \<times> bytes) list \<Rightarrow> bytes \<Rightarrow> nat" where
  "lower_bound less_key kvs key = length (takeWhile (\<lambda>kv. less_key (fst kv) key) kvs)"

definition goto :: "(bytes \<times> bytes) list \<Rightarrow> nat \<Rightarrow> bool \<Rightarrow> (bytes \<times> bytes) option \<times> acursor" where
  "goto kvs p eof = (Some (kvs ! p), At p eof)"

fun cursor_step :: "(bytes \<Rightarrow> bytes \<Rightarrow> bool) \<Rightarrow> (bytes \<times> bytes) list \<Rightarrow> aop \<Rightarrow> acursor \<Rightarrow> (bytes \<times> bytes) option \<times> acursor" where
  "cursor_step less_key kvs First c = (if kvs = [] then (None, Unset) else goto kvs 0 False)"
| "cursor_step less_key kvs Last c = (if kvs = [] then (None, Unset) else goto kvs (length kvs - 1) True)"
| "cursor_step less_key kvs Next (At p eof) = (if eof \<or> Suc p \<ge> length kvs then (None, At p True) else goto kvs (Suc p) False)"
| "cursor_step less_key kvs Next c = (if kvs = [] then (None, Unset) else goto kvs 0 False)"
| "cursor_step less_key kvs Prev (At p eof) = (if p = 0 then (None, At p eof) else goto kvs (p - 1) False)"
| "cursor_step less_key kvs Prev c = (if kvs = [] then (None, Unset) else goto kvs (length kvs - 1) False)"
| "cursor_step less_key kvs Current (At p eof) = goto kvs p eof"
| "cursor_step less_key kvs Current c = (None, c)"
| "cursor_step less_key kvs (Set_key key) c =
     (let p = lower_bound less_key kvs key in
      if kvs = [] then (None, Unset)
      else if p < length kvs \<and> fst (kvs ! p) = key then goto kvs p False else (None, Lost))"
| "cursor_step less_key kvs (Set_range key) c =
     (let p = lower_bound less_key kvs key in
      if kvs = [] then (None, Unset) else if p < length kvs then goto kvs p False else (None, Lost))"

text \<open>The operations a position allows.\<close>

fun allowed :: "aop \<Rightarrow> acursor \<Rightarrow> bool" where
  "allowed Next Lost = False"
| "allowed Prev Lost = False"
| "allowed Current Lost = False"
| "allowed Current Unset = False"
| "allowed op c = True"

text \<open>The arguments of \<open>mdb_cursor_get\<close> for an operation, and the keys it accepts.\<close>

fun op_code :: "aop \<Rightarrow> MDB_cursor_op" where
  "op_code First = MDB_FIRST"
| "op_code Last = MDB_LAST"
| "op_code Next = MDB_NEXT"
| "op_code Prev = MDB_PREV"
| "op_code Current = MDB_GET_CURRENT"
| "op_code (Set_key key) = MDB_SET_KEY"
| "op_code (Set_range key) = MDB_SET_RANGE"

fun op_val :: "aop \<Rightarrow> MDB_val" where
  "op_val (Set_key key) = val_of key"
| "op_val (Set_range key) = val_of key"
| "op_val op = nil_val"

fun op_valid :: "(bytes \<Rightarrow> bool) \<Rightarrow> aop \<Rightarrow> bool" where
  "op_valid valid (Set_key key) \<longleftrightarrow> key \<noteq> [] \<and> valid key"
| "op_valid valid (Set_range key) \<longleftrightarrow> key \<noteq> [] \<and> valid key"
| "op_valid valid op \<longleftrightarrow> True"

text \<open>A sequence of operations: on the specification, and on the code.\<close>

fun spec_run :: "(bytes \<Rightarrow> bytes \<Rightarrow> bool) \<Rightarrow> (bytes \<times> bytes) list \<Rightarrow> aop list \<Rightarrow> acursor \<Rightarrow> (bytes \<times> bytes) option list" where
  "spec_run less_key kvs [] c = []"
| "spec_run less_key kvs (op # ops) c = (let (r, c) = cursor_step less_key kvs op c in r # spec_run less_key kvs ops c)"

fun spec_allows :: "(bytes \<Rightarrow> bool) \<Rightarrow> (bytes \<Rightarrow> bytes \<Rightarrow> bool) \<Rightarrow> (bytes \<times> bytes) list \<Rightarrow> aop list \<Rightarrow> acursor \<Rightarrow> bool" where
  "spec_allows valid less_key kvs [] c \<longleftrightarrow> True"
| "spec_allows valid less_key kvs (op # ops) c \<longleftrightarrow>
     allowed op c \<and> op_valid valid op \<and> spec_allows valid less_key kvs ops (snd (cursor_step less_key kvs op c))"

fun cursor_run :: "nat \<Rightarrow> aop list \<Rightarrow> world \<Rightarrow> ((bytes \<times> bytes) option list \<times> world) option" where
  "cursor_run mc [] w = Some ([], w)"
| "cursor_run mc (op # ops) w = do {
     (rc, k, d, w) \<leftarrow> mdb_cursor_get w (Some mc) (Some (op_val op)) (Some nil_val) (op_code op);
     k \<leftarrow> k;
     d \<leftarrow> d;
     (rs, w') \<leftarrow> cursor_run mc ops w;
     if rc = MDB_SUCCESS then Some (Some (val_bytes (w_mem w) k, val_bytes (w_mem w) d) # rs, w')
     else if rc = MDB_NOTFOUND then Some (None # rs, w')
     else None
   }"

subsection \<open>The relation with a cursor of the model\<close>

text \<open>
  \<open>on_leaf\<close>: the stack of the cursor leads to a leaf, the items of the database are those left of the leaf, in it
  and right of it, and \<open>C_EOF\<close> is only set on the last leaf.
\<close>

definition on_leaf ::
  "(bytes \<Rightarrow> bool) \<Rightarrow> (bytes \<Rightarrow> bytes \<Rightarrow> bool) \<Rightarrow> world \<Rightarrow> nat \<Rightarrow> nat \<Rightarrow> (bytes \<times> bytes) list \<Rightarrow> world \<Rightarrow> nat \<Rightarrow> nat \<Rightarrow> addr \<Rightarrow>
   (bytes \<times> bytes) list \<Rightarrow> (bytes \<times> bytes) list \<Rightarrow> (bytes \<times> bytes) list \<Rightarrow> bool" where
  "on_leaf valid less_key w t dbi kvs w1 mc l a ks pre post \<longleftrightarrow>
     reads w w1 \<and> on_db w1 mc t dbi \<and> at_level w1 mc t l \<and> l < CURSOR_STACK \<and>
     path valid less_key w t (cur w1 mc) l 0 a ks pre post \<and> kvs = pre @ ks @ post \<and> bit (mc_flags (cur w1 mc)) 0 \<and>
     (bit (mc_flags (cur w1 mc)) (Suc 0) \<longrightarrow> post = []) \<and> \<not> bit (mc_flags (cur w1 mc)) 3"

fun cursor_rel ::
  "(bytes \<Rightarrow> bool) \<Rightarrow> (bytes \<Rightarrow> bytes \<Rightarrow> bool) \<Rightarrow> world \<Rightarrow> nat \<Rightarrow> nat \<Rightarrow> (bytes \<times> bytes) list \<Rightarrow> acursor \<Rightarrow> world \<Rightarrow> nat \<Rightarrow> bool" where
  "cursor_rel valid less_key w t dbi kvs Unset w1 mc \<longleftrightarrow>
     reads w w1 \<and> on_db w1 mc t dbi \<and> mc_pg (cur w1 mc) 0 = 0 \<and> \<not> bit (mc_flags (cur w1 mc)) 0 \<and>
     \<not> bit (mc_flags (cur w1 mc)) (Suc 0) \<and> \<not> bit (mc_flags (cur w1 mc)) 3"
| "cursor_rel valid less_key w t dbi kvs Lost w1 mc \<longleftrightarrow>
     (\<exists>l a ks pre post. on_leaf valid less_key w t dbi kvs w1 mc l a ks pre post)"
| "cursor_rel valid less_key w t dbi kvs (At p eof) w1 mc \<longleftrightarrow>
     (\<exists>l a ks pre post. on_leaf valid less_key w t dbi kvs w1 mc l a ks pre post \<and>
        cur_ki w1 mc < length ks \<and> p = length pre + cur_ki w1 mc \<and> eof = bit (mc_flags (cur w1 mc)) (Suc 0))"

lemma flag_bits:
  "f AND C_INITIALIZED = (0 :: u32) \<longleftrightarrow> \<not> bit f 0" "f AND C_EOF = (0 :: u32) \<longleftrightarrow> \<not> bit f (Suc 0)" "f AND C_DEL = (0 :: u32) \<longleftrightarrow> \<not> bit f 3"
  using and_exp_eq_0_iff_not_bit[of f 0] and_exp_eq_0_iff_not_bit[of f 1] and_exp_eq_0_iff_not_bit[of f 3] by simp_all

lemma flag_set_bits [simp]:
  fixes f :: u32
  shows "bit ((f OR 1) AND - 3) 0" "\<not> bit ((f OR 1) AND - 3) (Suc 0)" "bit ((f OR 1) AND - 3) 3 = bit f 3"
    "bit (f OR 2) 0 = bit f 0" "bit (f OR 2) (Suc 0)" "bit (f OR 2) 3 = bit f 3"
    "bit (f OR 3) 0" "bit (f OR 3) (Suc 0)" "bit (f OR 3) 3 = bit f 3"
    "bit (f AND - 3) 0 = bit f 0" "\<not> bit (f AND - 3) (Suc 0)" "bit (f AND - 3) 3 = bit f 3"
    "bit (f OR 1) 0" "bit (f OR 1) (Suc 0) = bit f (Suc 0)" "bit (f OR 1) 3 = bit f 3"
proof -
  have b: "bit (2 :: u32) n = (n = 1)" "bit (1 :: u32) n = (n = 0)" for n
    using bit_exp_iff[of 1 n, where 'a = u32] bit_exp_iff[of 0 n, where 'a = u32] by auto
  have c: "(- 3 :: u32) = NOT 2" "(3 :: u32) = 1 OR 2" by simp_all
  show "bit ((f OR 1) AND - 3) 0" "\<not> bit ((f OR 1) AND - 3) (Suc 0)" "bit ((f OR 1) AND - 3) 3 = bit f 3"
    "bit (f OR 2) 0 = bit f 0" "bit (f OR 2) (Suc 0)" "bit (f OR 2) 3 = bit f 3"
    "bit (f OR 3) 0" "bit (f OR 3) (Suc 0)" "bit (f OR 3) 3 = bit f 3"
    "bit (f AND - 3) 0 = bit f 0" "\<not> bit (f AND - 3) (Suc 0)" "bit (f AND - 3) 3 = bit f 3"
    "bit (f OR 1) 0" "bit (f OR 1) (Suc 0) = bit f (Suc 0)" "bit (f OR 1) 3 = bit f 3"
    unfolding c by (simp_all only: bit_and_iff bit_or_iff bit_not_iff b) simp_all
qed

subsection \<open>The item under a cursor\<close>

lemma on_leaf_page:
  assumes "on_leaf valid less_key w t dbi kvs w1 mc l a ks pre post"
  shows "leaf_page valid less_key w t a ks" "cur_pg w1 mc = a" "w_mem w1 = w_mem w" "mc_txn (cur w1 mc) = t"
    "reset_xcursor mc w1 = w1" "get_db w1 mc = mt_dbs (txn w t) dbi" "get_dbx w1 mc = me_dbxs (w_env w) dbi"
proof -
  have a: "reads w w1" "on_db w1 mc t dbi" "at_level w1 mc t l" "path valid less_key w t (cur w1 mc) l 0 a ks pre post"
    using assms by (simp_all add: on_leaf_def)
  show "leaf_page valid less_key w t a ks" using path_tree[OF a(4)] by (auto elim: tree_leafE)
  show "cur_pg w1 mc = a" using path_page[OF a(4)] a(3) by (simp add: cur_pg_def at_level_def)
  show "w_mem w1 = w_mem w" "mc_txn (cur w1 mc) = t" using a by (simp_all add: reads_def on_db_def)
  show "reset_xcursor mc w1 = w1" "get_db w1 mc = mt_dbs (txn w t) dbi" "get_dbx w1 mc = me_dbxs (w_env w) dbi"
    using on_db_access[OF a(2,1)] by simp_all
qed

lemma leaf_item:
  assumes "leaf_page valid less_key w t a ks" and "i < length ks" and "reads w w1"
  obtains d' where "mdb_node_read w1 t (NODEPTR (w_mem w) a i) d = Some (MDB_SUCCESS, d', w1)" and "val_bytes (w_mem w) d' = snd (ks ! i)"
    and "val_bytes (w_mem w) (MDB_GET_KEY2 (w_mem w) (NODEPTR (w_mem w) a i)) = fst (ks ! i)"
    and "\<not> F_ISSET (mn_flags (w_mem w) (NODEPTR (w_mem w) a i)) F_DUPDATA"
proof -
  have it: "item_at w t (NODEPTR (w_mem w) a i) (snd (ks ! i))" and key: "fst (ks ! i) = node_key (w_mem w) a 0 i"
    and plain: "\<not> IS_LEAF2 (w_mem w) a" using assms(1,2) by (simp_all add: leaf_page_def)
  have "val_bytes (w_mem w) (MDB_GET_KEY2 (w_mem w) (NODEPTR (w_mem w) a i)) = fst (ks ! i)"
    using plain by (simp add: key node_key_def MDB_GET_KEY2_def val_bytes_def)
  then show ?thesis using node_read_item[OF it assms(3), of d] it that by (auto simp: item_at_def)
qed

text \<open>\<open>gets\<close>: a result with the item of position \<open>p\<close>, leaving the cursor there.\<close>

definition gets ::
  "(bytes \<Rightarrow> bool) \<Rightarrow> (bytes \<Rightarrow> bytes \<Rightarrow> bool) \<Rightarrow> world \<Rightarrow> nat \<Rightarrow> nat \<Rightarrow> (bytes \<times> bytes) list \<Rightarrow> nat \<Rightarrow> (bytes \<times> bytes) option \<times> acursor \<Rightarrow> kv_result \<Rightarrow> bool" where
  "gets valid less_key w t dbi kvs mc r res \<longleftrightarrow>
     (\<exists>rc k d w2. res = Some (rc, Some k, Some d, w2) \<and> cursor_rel valid less_key w t dbi kvs (snd r) w2 mc \<and>
        (case fst r of None \<Rightarrow> rc = MDB_NOTFOUND
         | Some kv \<Rightarrow> rc = MDB_SUCCESS \<and> (val_bytes (w_mem w) k, val_bytes (w_mem w) d) = kv))"

lemma rel_at:
  assumes "on_leaf valid less_key w t dbi kvs w2 mc l a ks pre post" and "cur_ki w2 mc < length ks"
  shows "cursor_rel valid less_key w t dbi kvs (At (length pre + cur_ki w2 mc) (bit (mc_flags (cur w2 mc)) (Suc 0))) w2 mc"
  unfolding cursor_rel.simps using assms by blast

lemma gets_item:
  assumes "on_leaf valid less_key w t dbi kvs w2 mc l a ks pre post" and "i < length ks" and "cur_ki w2 mc = i"
    and "val_bytes (w_mem w) k = fst (ks ! i)" and "val_bytes (w_mem w) d = snd (ks ! i)" and "p = length pre + i"
    and "eof = bit (mc_flags (cur w2 mc)) (Suc 0)"
  shows "gets valid less_key w t dbi kvs mc (goto kvs p eof) (Some (MDB_SUCCESS, Some k, Some d, w2))"
proof -
  have "kvs ! p = ks ! i" using assms(1,2,6) by (simp add: on_leaf_def nth_append)
  then show ?thesis using assms rel_at[OF assms(1)] by (simp add: gets_def goto_def)
qed

lemma fetch_gets:
  assumes on: "on_leaf valid less_key w t dbi kvs w1 mc l a ks pre post" and i: "cur_ki w1 mc < length ks"
  shows "gets valid less_key w t dbi kvs mc (goto kvs (length pre + cur_ki w1 mc) (bit (mc_flags (cur w1 mc)) (Suc 0)))
    (cursor_fetch xfirst w1 mc (Some k) (Some d))"
proof -
  note pg = on_leaf_page[OF on]
  have "reads w w1" using on by (simp add: on_leaf_def)
  then obtain d' where d': "mdb_node_read w1 t (NODEPTR (w_mem w) a (cur_ki w1 mc)) d = Some (MDB_SUCCESS, d', w1)"
      "val_bytes (w_mem w) d' = snd (ks ! cur_ki w1 mc)"
      "val_bytes (w_mem w) (MDB_GET_KEY2 (w_mem w) (NODEPTR (w_mem w) a (cur_ki w1 mc))) = fst (ks ! cur_ki w1 mc)"
      "\<not> F_ISSET (mn_flags (w_mem w) (NODEPTR (w_mem w) a (cur_ki w1 mc))) F_DUPDATA"
    using leaf_item[OF pg(1) i] by blast
  have "cursor_fetch xfirst w1 mc (Some k) (Some d) =
      Some (MDB_SUCCESS, Some (MDB_GET_KEY2 (w_mem w) (NODEPTR (w_mem w) a (cur_ki w1 mc))), Some d', w1)"
    using d'(1,4) pg(1) by (simp add: cursor_fetch_def pg(2-4) MDB_GET_KEY_def leaf_page_def Let_def)
  then show ?thesis using gets_item[OF on i _ d'(3,2)] by simp
qed

subsection \<open>Steps on a leaf\<close>

lemma on_leaf_cong:
  assumes on: "on_leaf valid less_key w t dbi kvs w1 mc l a ks pre post" and mv: "moves mc w1 w2"
    and "mc_pg (cur w2 mc) = mc_pg (cur w1 mc)" and "\<forall>i < l. mc_ki (cur w2 mc) i = mc_ki (cur w1 mc) i"
    and "mc_snum (cur w2 mc) = mc_snum (cur w1 mc)" and "mc_top (cur w2 mc) = mc_top (cur w1 mc)"
    and "bit (mc_flags (cur w2 mc)) 0" and "bit (mc_flags (cur w2 mc)) (Suc 0) \<Longrightarrow> post = []" and "\<not> bit (mc_flags (cur w2 mc)) 3"
  shows "on_leaf valid less_key w t dbi kvs w2 mc l a ks pre post"
proof -
  have a: "reads w w1" "on_db w1 mc t dbi" "at_level w1 mc t l" "path valid less_key w t (cur w1 mc) l 0 a ks pre post"
    using on by (simp_all add: on_leaf_def)
  have "path valid less_key w t (cur w2 mc) l 0 a ks pre post" by (rule path_cong[OF a(4)]) (simp_all add: assms)
  then show ?thesis
    using on reads_trans[OF a(1) moves_reads[OF mv]] on_db_moves[OF mv] moves_fields(1)[OF mv] assms(5-)
    by (auto simp: on_leaf_def at_level_def)
qed

lemma on_leaf_steps:
  assumes on: "on_leaf valid less_key w t dbi kvs w1 mc l a ks pre post"
  shows "on_leaf valid less_key w t dbi kvs (set_ki mc i w1) mc l a ks pre post"
    "on_leaf valid less_key w t dbi kvs (cur_clear mc C_EOF w1) mc l a ks pre post"
    "on_leaf valid less_key w t dbi kvs (cur_or mc C_INITIALIZED w1) mc l a ks pre post"
    "post = [] \<Longrightarrow> on_leaf valid less_key w t dbi kvs (cur_or mc C_EOF w1) mc l a ks pre post"
    "post = [] \<Longrightarrow> on_leaf valid less_key w t dbi kvs (cur_or mc (C_INITIALIZED OR C_EOF) w1) mc l a ks pre post"
proof -
  have f: "bit (mc_flags (cur w1 mc)) 0" "bit (mc_flags (cur w1 mc)) (Suc 0) \<Longrightarrow> post = []" "\<not> bit (mc_flags (cur w1 mc)) 3" "mc_top (cur w1 mc) = l"
    using on by (simp_all add: on_leaf_def at_level_def)
  note simps = set_ki_def cur_clear_def cur_or_def f(1,3,4) flag_set_bits
  show "on_leaf valid less_key w t dbi kvs (set_ki mc i w1) mc l a ks pre post"
    by (rule on_leaf_cong[OF on moves_steps(1)]) (use f(2) in \<open>simp_all add: simps\<close>)
  show "on_leaf valid less_key w t dbi kvs (cur_clear mc C_EOF w1) mc l a ks pre post"
    by (rule on_leaf_cong[OF on moves_steps(4)]) (use f(2) in \<open>simp_all add: simps\<close>)
  show "on_leaf valid less_key w t dbi kvs (cur_or mc C_INITIALIZED w1) mc l a ks pre post"
    by (rule on_leaf_cong[OF on moves_steps(3)]) (use f(2) in \<open>simp_all add: simps\<close>)
  show "on_leaf valid less_key w t dbi kvs (cur_or mc C_EOF w1) mc l a ks pre post" if "post = []"
    by (rule on_leaf_cong[OF on moves_steps(3)]) (use that in \<open>simp_all add: simps\<close>)
  show "on_leaf valid less_key w t dbi kvs (cur_or mc (C_INITIALIZED OR C_EOF) w1) mc l a ks pre post" if "post = []"
    by (rule on_leaf_cong[OF on moves_steps(3)]) (use that in \<open>simp_all add: simps\<close>)
qed

subsection \<open>Searching the first and the last leaf\<close>

lemma rel_root:
  assumes "cursor_rel valid less_key w t dbi kvs c w1 mc"
  shows "reads w w1" "on_db w1 mc t dbi" "mc_pg (cur w1 mc) 0 = 0 \<or> (\<exists>h < CURSOR_STACK. tree valid less_key w t h (mc_pg (cur w1 mc) 0) kvs)"
    "\<not> bit (mc_flags (cur w1 mc)) 3" "reset_xcursor mc w1 = w1"
proof -
  have "reads w w1 \<and> on_db w1 mc t dbi \<and> \<not> bit (mc_flags (cur w1 mc)) 3 \<and>
      (mc_pg (cur w1 mc) 0 = 0 \<or> (\<exists>h < CURSOR_STACK. tree valid less_key w t h (mc_pg (cur w1 mc) 0) kvs))"
  proof (cases "\<exists>l a ks pre post. on_leaf valid less_key w t dbi kvs w1 mc l a ks pre post")
    case True
    then obtain l a ks pre post where on: "on_leaf valid less_key w t dbi kvs w1 mc l a ks pre post" by blast
    then have "path valid less_key w t (cur w1 mc) l 0 a ks pre post" "kvs = pre @ ks @ post" "l < CURSOR_STACK"
      by (simp_all add: on_leaf_def)
    then have "\<exists>h < CURSOR_STACK. tree valid less_key w t h (mc_pg (cur w1 mc) 0) kvs" using path_total by fastforce
    then show ?thesis using on by (simp add: on_leaf_def)
  next
    case False
    then show ?thesis using assms by (cases c) auto
  qed
  then show "reads w w1" "on_db w1 mc t dbi" "mc_pg (cur w1 mc) 0 = 0 \<or> (\<exists>h < CURSOR_STACK. tree valid less_key w t h (mc_pg (cur w1 mc) 0) kvs)"
    "\<not> bit (mc_flags (cur w1 mc)) 3" by simp_all
  then show "reset_xcursor mc w1 = w1" using on_db_access by blast
qed

lemma search_empty:
  assumes "db_holds valid less_key c w t dbi []" and "reads w w1" and "on_db w1 mc t dbi"
  shows "page_search_gen touch w1 mc key flags = Some (MDB_NOTFOUND, w1)"
proof -
  note acc = on_db_access[OF assms(3,2)]
  have "md_root (mt_dbs (txn w t) dbi) = P_INVALID"
    using assms(1) tree_nonempty by (fastforce simp: db_holds_def split: if_splits)
  moreover have "mt_flags (txn w1 t) AND MDB_TXN_BLOCKED = 0" "get_dbflag w1 mc AND DB_STALE = 0"
    using assms(1) acc(3) by (simp_all add: db_holds_def reads_txn[OF assms(2)])
  ultimately show ?thesis
    using assms(3) by (subst page_search_gen.simps) (simp add: page_search_from_def acc(1) on_db_def)
qed

lemma search_end:
  assumes db: "db_holds valid less_key c w t dbi kvs" and rel: "cursor_rel valid less_key w t dbi kvs cs w1 mc" and ne: "kvs \<noteq> []"
    and fl: "flags = (if first then MDB_PS_FIRST else MDB_PS_LAST)"
  obtains w2 l a ks pre post where "page_search_gen touch w1 mc None flags = Some (MDB_SUCCESS, w2)"
    and "on_leaf valid less_key w t dbi kvs w2 mc l a ks pre post" and "if first then pre = [] else post = []"
proof -
  note root = rel_root[OF rel]
  have fl': "flags AND MDB_PS_MODIFY = 0" "flags AND MDB_PS_ROOTONLY = 0" by (simp_all add: fl)
  obtain w2 a h where s: "page_search_gen touch w1 mc None flags = page_search_root_gen touch w2 mc a None flags" "moves mc w1 w2"
      "at_level w2 mc t 0" "path valid less_key w t (cur w2 mc) 0 h a kvs [] []" "h < CURSOR_STACK" "mc_flags (cur w2 mc) = mc_flags (cur w1 mc)"
    by (rule search_from_root[OF db root(1-3) ne fl'])
  have r2: "reads w w2" using reads_trans[OF root(1) moves_reads[OF s(2)]] .
  let ?Q = "\<lambda>(pre :: (bytes \<times> bytes) list) (post :: (bytes \<times> bytes) list). if first then pre = [] else post = []"
  have "\<exists>w3 b ks pre post. page_search_root_gen touch w2 mc a None flags = Some (MDB_SUCCESS, w3) \<and> moves mc w2 w3 \<and>
     at_level w3 mc t (0 + h) \<and> path valid less_key w t (cur w3 mc) (0 + h) 0 b ks pre post \<and> ?Q pre post \<and>
     pre @ ks @ post = [] @ kvs @ [] \<and> mc_flags (cur w3 mc) = (mc_flags (cur w2 mc) OR C_INITIALIZED) AND NOT C_EOF"
  proof (rule descend[where w = w and t = t and valid = valid and less_key = less_key and ?w0.0 = w2 and Q = ?Q and flags = flags])
    fix w1' l' h' a' and kss :: "(bytes \<times> bytes) list list" and cs pre' post'
    assume Q: "?Q pre' post'" and mv: "moves mc w2 w1'" and page: "branch_page valid less_key w t a' cs" "length kss = length cs"
    have m: "w_mem w1' = w_mem w" using reads_trans[OF r2 moves_reads[OF mv]] by (simp add: reads_def)
    have n: "NUMKEYS (w_mem w) a' = length cs" "2 \<le> length cs" using page(1) by (simp_all add: branch_page_def)
    let ?j = "if first then 0 else length cs - 1"
    have "branch_index w1' mc a' None flags = Some (?j, w1')"
      using n by (auto simp: branch_index_def fl m NUMKEYS_pred_def)
    moreover have "?Q (pre' @ concat (take ?j kss)) (concat (drop (Suc ?j) kss) @ post')" using Q page(2) n by simp
    moreover have "?j < length cs" using n(2) by auto
    ultimately show "\<exists>j w1''. branch_index w1' mc a' None flags = Some (j, w1'') \<and> (w1'' = w1' \<or> (\<exists>i. w1'' = set_ki mc i w1')) \<and> j < length cs \<and>
        ?Q (pre' @ concat (take j kss)) (concat (drop (Suc j) kss) @ post')"
      by (intro exI[of _ ?j] exI[of _ w1'] conjI disjI1 refl)
  qed (use s r2 fl' in auto)
  then obtain w3 b ks pre post where 3: "page_search_root_gen touch w2 mc a None flags = Some (MDB_SUCCESS, w3)" "moves mc w2 w3"
     "at_level w3 mc t h" "path valid less_key w t (cur w3 mc) h 0 b ks pre post" "?Q pre post"
     "pre @ ks @ post = kvs" "mc_flags (cur w3 mc) = (mc_flags (cur w2 mc) OR C_INITIALIZED) AND NOT C_EOF" by auto
  have "on_leaf valid less_key w t dbi kvs w3 mc h b ks pre post"
    using 3 s(5,6) reads_trans[OF r2 moves_reads[OF 3(2)]] on_db_moves[OF moves_trans[OF s(2) 3(2)]] root(2,4)
    by (simp add: on_leaf_def)
  then show ?thesis using that 3(1,5) s(1) by simp
qed

subsection \<open>First and last\<close>

lemma on_leaf_nonempty: "on_leaf valid less_key w t dbi kvs w1 mc l a ks pre post \<Longrightarrow> 0 < length ks \<and> kvs \<noteq> []"
  using on_leaf_page(1) by (fastforce simp: leaf_page_def on_leaf_def)

lemma rel_empty: "cursor_rel valid less_key w t dbi [] c w1 mc \<Longrightarrow> c = Unset"
  by (cases c) (auto dest: on_leaf_nonempty)

lemma rel_leaf:
  assumes "cursor_rel valid less_key w t dbi kvs c w1 mc" and "bit (mc_flags (cur w1 mc)) 0"
  obtains l a ks pre post where "on_leaf valid less_key w t dbi kvs w1 mc l a ks pre post"
  using assms that by (cases c) auto

lemma on_leaf_root:
  assumes "on_leaf valid less_key w t dbi kvs w1 mc l a ks pre post" and "mc_top (cur w1 mc) = 0"
  shows "pre = []" "post = []"
  using assms by (auto simp: on_leaf_def at_level_def elim: path_rootE)

lemma first_gets:
  assumes db: "db_holds valid less_key c w t dbi kvs" and rel: "cursor_rel valid less_key w t dbi kvs cs w1 mc"
  shows "gets valid less_key w t dbi kvs mc (cursor_step less_key kvs First cs) (mdb_cursor_first w1 mc (Some k) (Some d))"
proof (cases "kvs = []")
  case True
  then have "cs = Unset" using rel rel_empty by blast
  then show ?thesis
    using True search_empty[OF db[unfolded True] rel_root(1,2)[OF rel]] rel rel_root(5)[OF rel]
    by (subst mdb_cursor_first.simps) (simp add: gets_def flag_bits)
next
  case False
  let ?cond = "mc_flags (cur w1 mc) AND C_INITIALIZED = 0 \<or> mc_top (cur w1 mc) \<noteq> 0"
  obtain w2 l a ks post where s: "(if ?cond then page_search_gen no_touch w1 mc None MDB_PS_FIRST else Some (MDB_SUCCESS, w1)) = Some (MDB_SUCCESS, w2)"
    and on: "on_leaf valid less_key w t dbi kvs w2 mc l a ks [] post"
  proof (cases ?cond)
    case True
    show thesis by (rule search_end[OF db rel False, where first = True]) (use True that in auto)
  next
    case not: False
    then have "bit (mc_flags (cur w1 mc)) 0" by (simp add: flag_bits)
    with rel obtain l a ks pre post where "on_leaf valid less_key w t dbi kvs w1 mc l a ks pre post" by (rule rel_leaf)
    then show thesis using that[of w1] on_leaf_root[of valid less_key w t dbi kvs w1 mc l a ks pre post] not by auto
  qed
  let ?w = "set_ki mc 0 (cur_clear mc C_EOF (cur_or mc C_INITIALIZED w2))"
  have on': "on_leaf valid less_key w t dbi kvs ?w mc l a ks [] post" by (intro on_leaf_steps on)
  note pg = on_leaf_page[OF on] and pg' = on_leaf_page[OF on']
  have ks: "0 < length ks" using on_leaf_nonempty[OF on] by blast
  have "reads w ?w" using on' by (simp add: on_leaf_def)
  then obtain d' where d': "mdb_node_read ?w t (NODEPTR (w_mem w) a 0) d = Some (MDB_SUCCESS, d', ?w)" "val_bytes (w_mem w) d' = snd (ks ! 0)"
      "val_bytes (w_mem w) (MDB_GET_KEY2 (w_mem w) (NODEPTR (w_mem w) a 0)) = fst (ks ! 0)"
      "\<not> F_ISSET (mn_flags (w_mem w) (NODEPTR (w_mem w) a 0)) F_DUPDATA"
    using leaf_item[OF pg(1) ks] by blast
  have run: "mdb_cursor_first w1 mc (Some k) (Some d) = Some (MDB_SUCCESS, Some (MDB_GET_KEY2 (w_mem w) (NODEPTR (w_mem w) a 0)), Some d', ?w)"
    using d'(1,4) pg(1) s rel_root(5)[OF rel] pg pg'
    by (subst mdb_cursor_first.simps) (simp add: MDB_GET_KEY_def leaf_page_def Let_def)
  have "cur_ki ?w mc = 0" "\<not> bit (mc_flags (cur ?w mc)) (Suc 0)" by (simp_all add: cur_ki_def set_ki_def cur_clear_def cur_or_def)
  then show ?thesis unfolding run using gets_item[OF on' ks _ d'(3,2), of 0 False] False by simp
qed

lemma last_gets:
  assumes db: "db_holds valid less_key c w t dbi kvs" and rel: "cursor_rel valid less_key w t dbi kvs cs w1 mc"
  shows "gets valid less_key w t dbi kvs mc (cursor_step less_key kvs Last cs) (mdb_cursor_last w1 mc (Some k) (Some d))"
proof (cases "kvs = []")
  case True
  then have "cs = Unset" using rel rel_empty by blast
  then show ?thesis
    using True search_empty[OF db[unfolded True] rel_root(1,2)[OF rel]] rel rel_root(5)[OF rel]
    by (subst mdb_cursor_last.simps) (simp add: gets_def flag_bits)
next
  case False
  let ?cond = "mc_flags (cur w1 mc) AND C_INITIALIZED = 0 \<or> mc_top (cur w1 mc) \<noteq> 0"
  let ?find = "\<lambda>w. if mc_flags (cur w mc) AND C_EOF = 0 then do {
         (rc, w) \<leftarrow> (if mc_flags (cur w mc) AND C_INITIALIZED = 0 \<or> mc_top (cur w mc) \<noteq> 0
                     then page_search_gen no_touch w mc None MDB_PS_LAST else Some (MDB_SUCCESS, w));
         if rc = MDB_SUCCESS \<and> \<not> IS_LEAF (w_mem w) (cur_pg w mc) then None else Some (rc, w)
       } else Some (MDB_SUCCESS, w)"
  obtain w2 l a ks pre where s: "?find w1 = Some (MDB_SUCCESS, w2)" and on: "on_leaf valid less_key w t dbi kvs w2 mc l a ks pre []"
  proof (cases "\<not> bit (mc_flags (cur w1 mc)) (Suc 0) \<and> ?cond")
    case True
    obtain w2 l a ks pre where s: "page_search_gen no_touch w1 mc None MDB_PS_LAST = Some (MDB_SUCCESS, w2)"
        and on: "on_leaf valid less_key w t dbi kvs w2 mc l a ks pre []"
      by (rule search_end[OF db rel False, where first = False]) auto
    show thesis by (rule that[OF _ on]) (use True s on_leaf_page[OF on] in \<open>simp add: flag_bits leaf_page_def\<close>)
  next
    case not: False
    have init: "bit (mc_flags (cur w1 mc)) 0" using not rel by (cases cs) (auto simp: flag_bits on_leaf_def)
    with rel obtain l a ks pre post where on: "on_leaf valid less_key w t dbi kvs w1 mc l a ks pre post" by (rule rel_leaf)
    have "post = []" using not on_leaf_root(2)[OF on] on init by (auto simp: flag_bits on_leaf_def)
    then show thesis using that[of w1 l a ks pre] on not on_leaf_page[OF on] init by (auto simp: flag_bits leaf_page_def)
  qed
  note pg = on_leaf_page[OF on]
  let ?i = "length ks - 1"
  have n: "NUMKEYS (w_mem w) a = length ks" "0 < length ks" "length ks < 65536" using pg(1) by (auto simp: leaf_page_def)
  let ?w = "cur_or mc (C_INITIALIZED OR C_EOF) (set_ki mc ?i w2)"
  have on': "on_leaf valid less_key w t dbi kvs ?w mc l a ks pre []" by (intro on_leaf_steps on refl)
  note pg' = on_leaf_page[OF on']
  have ki: "cur_ki ?w mc = ?i" "bit (mc_flags (cur ?w mc)) (Suc 0)" using n by (simp_all add: cur_ki_def set_ki_def cur_or_def)
  have i: "?i < length ks" and "reads w ?w" using on' n by (simp_all add: on_leaf_def)
  then obtain d' where d': "mdb_node_read ?w t (NODEPTR (w_mem w) a ?i) d = Some (MDB_SUCCESS, d', ?w)" "val_bytes (w_mem w) d' = snd (ks ! ?i)"
      "val_bytes (w_mem w) (MDB_GET_KEY2 (w_mem w) (NODEPTR (w_mem w) a ?i)) = fst (ks ! ?i)"
      "\<not> F_ISSET (mn_flags (w_mem w) (NODEPTR (w_mem w) a ?i)) F_DUPDATA"
    using leaf_item[OF pg(1) i] by blast
  have pred: "NUMKEYS_pred (w_mem w) a = ?i" using n by (simp add: NUMKEYS_pred_def)
  have run: "mdb_cursor_last w1 mc (Some k) (Some d) = Some (MDB_SUCCESS, Some (MDB_GET_KEY2 (w_mem w) (NODEPTR (w_mem w) a ?i)), Some d', ?w)"
    using d'(1,4) pg(1) s rel_root(5)[OF rel] pg pg' pred ki(1)
    by (subst mdb_cursor_last.simps) (simp add: MDB_GET_KEY_def leaf_page_def Let_def)
  have "length kvs - 1 = length pre + ?i" using on n(2) by (cases ks) (auto simp: on_leaf_def)
  then show ?thesis unfolding run using gets_item[OF on' i ki(1) d'(3,2), of "length kvs - 1" True] False ki(2) by simp
qed

subsection \<open>Next, previous and current\<close>

lemma next_gets:
  assumes db: "db_holds valid less_key c w t dbi kvs" and rel: "cursor_rel valid less_key w t dbi kvs (At p eof) w1 mc"
  shows "gets valid less_key w t dbi kvs mc (cursor_step less_key kvs Next (At p eof)) (mdb_cursor_next w1 mc (Some k) (Some d) MDB_NEXT)"
proof -
  obtain l a ks pre post where on: "on_leaf valid less_key w t dbi kvs w1 mc l a ks pre post" and ki: "cur_ki w1 mc < length ks"
      and p: "p = length pre + cur_ki w1 mc" and eof: "eof = bit (mc_flags (cur w1 mc)) (Suc 0)" using rel by auto
  note pg = on_leaf_page[OF on]
  have n: "NUMKEYS (w_mem w) a = length ks" "length ks < 65536" using pg(1) by (auto simp: leaf_page_def)
  have kvs: "kvs = pre @ ks @ post" and init: "bit (mc_flags (cur w1 mc)) 0" and r: "reads w w1" and lv: "at_level w1 mc t l" "l < CURSOR_STACK"
    and path: "path valid less_key w t (cur w1 mc) l 0 a ks pre post" using on by (simp_all add: on_leaf_def)
  have nodup: "md_flags (get_db w1 mc) AND MDB_DUPSORT = 0" using db by (simp add: pg(6) db_holds_def)
  have dl: "mc_flags (cur w1 mc) AND C_DEL = 0" using on by (simp add: flag_bits on_leaf_def)
  show ?thesis
  proof (cases eof)
    case True
    then show ?thesis using rel eof by (subst mdb_cursor_next.simps) (simp add: gets_def flag_bits)
  next
    case False
    have unf: "mdb_cursor_next w1 mc (Some k) (Some d) MDB_NEXT = do {
          (rc, w) \<leftarrow> next_index w1 mc;
          if rc \<noteq> MDB_SUCCESS then Some (rc, Some k, Some d, w)
          else cursor_fetch mdb_cursor_first w mc (Some k) (Some d) }"
      using False eof init nodup by (subst mdb_cursor_next.simps) (simp add: flag_bits Let_def)
    consider (inner) "Suc (cur_ki w1 mc) < length ks" | (last_item) "Suc (cur_ki w1 mc) = length ks" "post = []"
      | (sib) "Suc (cur_ki w1 mc) = length ks" "post \<noteq> []" using ki by linarith
    then show ?thesis
    proof cases
      case inner
      let ?w = "set_ki mc (Suc (cur_ki w1 mc)) w1"
      have on': "on_leaf valid less_key w t dbi kvs ?w mc l a ks pre post" by (intro on_leaf_steps on)
      have k': "cur_ki ?w mc = Suc (cur_ki w1 mc)" "mc_flags (cur ?w mc) = mc_flags (cur w1 mc)" using inner n by (simp_all add: cur_ki_def set_ki_def)
      have "next_index w1 mc = Some (MDB_SUCCESS, ?w)" using inner n pg by (simp add: next_index_def dl)
      then show ?thesis using fetch_gets[OF on', of mdb_cursor_first k d] inner False eof k' p kvs by (simp add: unf)
    next
      case last_item
      then have "mdb_cursor_sibling w1 mc True = Some (MDB_NOTFOUND, w1)" using sibling_right[OF path r lv] by simp
      then have "next_index w1 mc = Some (MDB_NOTFOUND, cur_or mc C_EOF w1)" using last_item n pg by (simp add: next_index_def dl)
      moreover have on': "on_leaf valid less_key w t dbi kvs (cur_or mc C_EOF w1) mc l a ks pre post" by (intro on_leaf_steps on last_item)
      moreover have "cur_ki (cur_or mc C_EOF w1) mc = cur_ki w1 mc" "bit (mc_flags (cur (cur_or mc C_EOF w1) mc)) (Suc 0)"
        by (simp_all add: cur_ki_def cur_or_def)
      ultimately show ?thesis using rel_at[OF on'] ki p kvs last_item by (simp add: unf gets_def)
    next
      case sib
      then obtain w2 b ks2 post2 where w2: "mdb_cursor_sibling w1 mc True = Some (MDB_SUCCESS, w2)" "moves mc w1 w2" "at_level w2 mc t l"
          "path valid less_key w t (cur w2 mc) l 0 b ks2 (pre @ ks) post2" "post = ks2 @ post2" "cur_ki w2 mc = 0" "mc_flags (cur w2 mc) = mc_flags (cur w1 mc)"
        using sibling_right[OF path r lv] by auto
      have on': "on_leaf valid less_key w t dbi kvs w2 mc l b ks2 (pre @ ks) post2"
        using w2 on reads_trans[OF r moves_reads[OF w2(2)]] on_db_moves[OF w2(2)] by (simp add: on_leaf_def)
      have "next_index w1 mc = Some (MDB_SUCCESS, w2)" using sib n pg w2(1) by (simp add: next_index_def dl)
      moreover have "Suc p = length (pre @ ks) + cur_ki w2 mc" using sib p w2(6) by simp
      ultimately show ?thesis
        using fetch_gets[OF on', of mdb_cursor_first k d] on_leaf_nonempty[OF on'] False eof w2(5-7) kvs by (simp add: unf)
    qed
  qed
qed

lemma prev_from:
  assumes db: "db_holds valid less_key c w t dbi kvs" and on: "on_leaf valid less_key w t dbi kvs w1 mc l a ks pre post"
    and ki: "cur_ki w1 mc \<le> length ks" "p = length pre + cur_ki w1 mc" "0 < p"
  shows "gets valid less_key w t dbi kvs mc (goto kvs (p - 1) False) (mdb_cursor_prev w1 mc (Some k) (Some d) MDB_PREV)"
proof -
  note pg = on_leaf_page[OF on]
  have n: "NUMKEYS (w_mem w) a = length ks" "length ks < 65536" using pg(1) by (auto simp: leaf_page_def)
  have kvs: "kvs = pre @ ks @ post" and init: "bit (mc_flags (cur w1 mc)) 0" and r: "reads w w1" and lv: "at_level w1 mc t l" "l < CURSOR_STACK"
    and path: "path valid less_key w t (cur w1 mc) l 0 a ks pre post" using on by (simp_all add: on_leaf_def)
  have nodup: "md_flags (get_db w1 mc) AND MDB_DUPSORT = 0" using db by (simp add: pg(6) db_holds_def)
  have unf: "mdb_cursor_prev w1 mc (Some k) (Some d) MDB_PREV = do {
        (rc, w) \<leftarrow> prev_index w1 mc;
        if rc \<noteq> MDB_SUCCESS then Some (rc, Some k, Some d, w)
        else cursor_fetch mdb_cursor_last (cur_clear mc C_EOF w) mc (Some k) (Some d) }"
    using init nodup by (subst mdb_cursor_prev.simps) (simp add: flag_bits Let_def)
  show ?thesis
  proof (cases "cur_ki w1 mc")
    case (Suc i)
    let ?w = "cur_clear mc C_EOF (set_ki mc i w1)"
    have on': "on_leaf valid less_key w t dbi kvs ?w mc l a ks pre post" by (intro on_leaf_steps on)
    have k': "cur_ki ?w mc = i" "\<not> bit (mc_flags (cur ?w mc)) (Suc 0)" using ki Suc n by (simp_all add: cur_ki_def set_ki_def cur_clear_def)
    have "prev_index w1 mc = Some (MDB_SUCCESS, set_ki mc i w1)" using Suc by (simp add: prev_index_def)
    then show ?thesis using fetch_gets[OF on', of mdb_cursor_last k d] ki Suc k' by (simp add: unf)
  next
    case 0
    then have "pre \<noteq> []" using ki by auto
    then obtain w2 b ks2 pre2 where w2: "mdb_cursor_sibling w1 mc False = Some (MDB_SUCCESS, w2)" "moves mc w1 w2" "at_level w2 mc t l"
        "path valid less_key w t (cur w2 mc) l 0 b ks2 pre2 (ks @ post)" "pre = pre2 @ ks2" "cur_ki w2 mc = NUMKEYS (w_mem w) b - 1"
        "mc_flags (cur w2 mc) = mc_flags (cur w1 mc)"
      using sibling_left[OF path r lv] by auto
    have m2: "w_mem w2 = w_mem w" using reads_trans[OF r moves_reads[OF w2(2)]] by (simp add: reads_def)
    have lf: "leaf_page valid less_key w t b ks2" using path_tree[OF w2(4)] by (auto elim: tree_leafE)
    have n2: "NUMKEYS (w_mem w) b = length ks2" "0 < length ks2" "length ks2 < 65536" using lf by (auto simp: leaf_page_def)
    have b: "cur_pg w2 mc = b" using path_page[OF w2(4)] w2(3) by (simp add: cur_pg_def at_level_def)
    have same: "set_ki mc (NUMKEYS_pred (w_mem w2) (cur_pg w2 mc)) w2 = w2"
      using set_ki_id[OF w2(6)] n2 by (simp add: m2 b NUMKEYS_pred_def)
    let ?w = "cur_clear mc C_EOF w2"
    have mv: "moves mc w1 ?w" using moves_trans[OF w2(2) moves_steps(4)] .
    have fl: "mc_flags (cur ?w mc) = mc_flags (cur w1 mc) AND - 3" by (simp add: cur_clear_def w2(7))
    have "path valid less_key w t (cur ?w mc) l 0 b ks2 pre2 (ks @ post)" by (rule path_cong[OF w2(4)]) (simp_all add: cur_clear_def)
    then have on': "on_leaf valid less_key w t dbi kvs ?w mc l b ks2 pre2 (ks @ post)"
      using w2(3,5) on reads_trans[OF r moves_reads[OF mv]] on_db_moves[OF mv] fl
      by (auto simp: on_leaf_def at_level_def cur_clear_def)
    have k': "cur_ki ?w mc = length ks2 - 1" using w2(6) n2 by (simp add: cur_clear_def cur_ki_def)
    have "prev_index w1 mc = Some (MDB_SUCCESS, w2)" using 0 w2(1) same by (simp add: prev_index_def)
    moreover have "p - 1 = length pre2 + (length ks2 - 1)" using ki 0 w2(5) n2(2) unfolding length_append[of pre2, symmetric] by (cases ks2) simp_all
    ultimately show ?thesis using fetch_gets[OF on', of mdb_cursor_last k d] k' n2 fl by (simp add: unf)
  qed
qed

lemma prev_gets:
  assumes db: "db_holds valid less_key c w t dbi kvs" and rel: "cursor_rel valid less_key w t dbi kvs (At p eof) w1 mc"
  shows "gets valid less_key w t dbi kvs mc (cursor_step less_key kvs Prev (At p eof)) (mdb_cursor_prev w1 mc (Some k) (Some d) MDB_PREV)"
proof (cases "p = 0")
  case False
  then show ?thesis using rel prev_from[OF db] by fastforce
next
  case True
  obtain l a ks pre post where on: "on_leaf valid less_key w t dbi kvs w1 mc l a ks pre post" and p: "p = length pre + cur_ki w1 mc"
    using rel by auto
  have z: "pre = []" "cur_ki w1 mc = 0" using True p by auto
  have r: "reads w w1" and lv: "at_level w1 mc t l" "l < CURSOR_STACK" and init: "bit (mc_flags (cur w1 mc)) 0"
    and path: "path valid less_key w t (cur w1 mc) l 0 a ks pre post" using on by (simp_all add: on_leaf_def)
  have nodup: "md_flags (get_db w1 mc) AND MDB_DUPSORT = 0" using db by (simp add: on_leaf_page(6)[OF on] db_holds_def)
  have "prev_index w1 mc = Some (MDB_NOTFOUND, w1)" using sibling_left[OF path r lv] z by (simp add: prev_index_def)
  then have "mdb_cursor_prev w1 mc (Some k) (Some d) MDB_PREV = Some (MDB_NOTFOUND, Some k, Some d, w1)"
    using init nodup by (subst mdb_cursor_prev.simps) (simp add: flag_bits Let_def)
  then show ?thesis using rel True by (simp add: gets_def)
qed

subsection \<open>Positioning on a key\<close>

lemma lower_bound_split:
  assumes "kvs = pre @ ks @ post" and "i \<le> length ks" and "\<And>kv. kv \<in> set pre \<Longrightarrow> less_key (fst kv) key"
    and "\<And>j. j < i \<Longrightarrow> less_key (fst (ks ! j)) key" and "i < length ks \<Longrightarrow> \<not> less_key (fst (ks ! i)) key"
    and "\<And>kv. i = length ks \<Longrightarrow> kv \<in> set post \<Longrightarrow> \<not> less_key (fst kv) key"
  shows "lower_bound less_key kvs key = length pre + i"
proof -
  have "takeWhile (\<lambda>kv. less_key (fst kv) key) kvs = take (length pre + i) kvs"
  proof (rule takeWhile_eq_take_P_nth)
    fix j assume j: "j < length pre + i" "j < length kvs"
    show "less_key (fst (kvs ! j)) key"
    proof (cases "j < length pre")
      case True
      then show ?thesis using assms(3)[of "pre ! j"] by (simp add: assms(1) nth_append)
    next
      case False
      then have "j - length pre < i" "j - length pre < length ks" using assms(2) j by simp_all
      then show ?thesis using assms(4)[of "j - length pre"] False by (simp add: assms(1) nth_append)
    qed
  next
    assume n: "length pre + i < length kvs"
    show "\<not> less_key (fst (kvs ! (length pre + i))) key"
    proof (cases "i < length ks")
      case True
      then show ?thesis using assms(5) by (simp add: assms(1) nth_append)
    next
      case False
      then have "i = length ks" using assms(2) by simp
      then show ?thesis using assms(6)[of "post ! 0"] n by (simp add: assms(1) nth_append)
    qed
  qed
  then show ?thesis using assms(1,2) by (simp add: lower_bound_def)
qed

text \<open>\<open>finds\<close>: the search of the code has found the lower bound, or says that there is none.\<close>

definition finds ::
  "(bytes \<Rightarrow> bool) \<Rightarrow> (bytes \<Rightarrow> bytes \<Rightarrow> bool) \<Rightarrow> world \<Rightarrow> nat \<Rightarrow> nat \<Rightarrow> (bytes \<times> bytes) list \<Rightarrow> nat \<Rightarrow> bytes \<Rightarrow> bool \<Rightarrow> ((int + addr) \<times> world) option \<Rightarrow> bool" where
  "finds valid less_key w t dbi kvs mc key exactp res \<longleftrightarrow>
     (let p = lower_bound less_key kvs key in
      if p < length kvs \<and> (exactp \<longrightarrow> fst (kvs ! p) = key) then
        \<exists>w2 l a ks pre post. res = Some (Inr (NODEPTR (w_mem w) a (cur_ki w2 mc)), w2) \<and>
          on_leaf valid less_key w t dbi kvs w2 mc l a ks pre post \<and> cur_ki w2 mc < length ks \<and> p = length pre + cur_ki w2 mc
      else \<exists>w2. res = Some (Inl MDB_NOTFOUND, w2) \<and> cursor_rel valid less_key w t dbi kvs Lost w2 mc)"

lemma finds_at:
  assumes "on_leaf valid less_key w t dbi kvs w2 mc l a ks pre post" and "cur_ki w2 mc = i" and "i < length ks"
    and "lower_bound less_key kvs key = length pre + i" and "exactp \<longrightarrow> fst (ks ! i) = key"
  shows "finds valid less_key w t dbi kvs mc key exactp (Some (Inr (NODEPTR (w_mem w) a i), w2))"
proof -
  have kvs: "kvs = pre @ ks @ post" using assms(1) by (simp add: on_leaf_def)
  then have "length pre + i < length kvs" "kvs ! (length pre + i) = ks ! i" using assms(3) by (simp_all add: nth_append)
  then show ?thesis using assms
    by (simp add: finds_def) (intro exI[of _ l] exI[of _ a] exI[of _ ks] exI[of _ pre] exI[of _ post] conjI; simp)
qed

lemma finds_none:
  assumes "on_leaf valid less_key w t dbi kvs w2 mc l a ks pre post"
    and "lower_bound less_key kvs key < length kvs \<Longrightarrow> exactp \<and> fst (kvs ! lower_bound less_key kvs key) \<noteq> key"
  shows "finds valid less_key w t dbi kvs mc key exactp (Some (Inl MDB_NOTFOUND, w2))"
proof -
  have "cursor_rel valid less_key w t dbi kvs Lost w2 mc" unfolding cursor_rel.simps using assms(1) by blast
  then show ?thesis unfolding finds_def Let_def using assms(2) by auto
qed

lemma right_sibs:
  "path valid less_key w t c l h a kvs pre post \<Longrightarrow> post = [] \<longleftrightarrow> (\<forall>i < l. \<not> mc_ki c i < NUMKEYS_pred (w_mem w) (mc_pg c i))"
proof (induction rule: path.induct)
  case (down l h kss pre post cs)
  let ?i = "mc_ki c l"
  have n: "NUMKEYS_pred (w_mem w) (mc_pg c l) = length cs - 1" "2 \<le> length cs" using down.hyps(2) by (simp_all add: branch_page_def NUMKEYS_pred_def)
  have ne: "ks \<noteq> []" if "ks \<in> set kss" for ks using that down.hyps(3,4) tree_nonempty by (metis in_set_conv_nth)
  have "concat (drop (Suc ?i) kss) = [] \<longleftrightarrow> drop (Suc ?i) kss = []"
  proof (cases "drop (Suc ?i) kss")
    case (Cons ks rest)
    then show ?thesis using ne[of ks] in_set_dropD[of ks "Suc ?i" kss] by simp
  qed simp
  also have "\<dots> \<longleftrightarrow> \<not> ?i < length cs - 1" using down.hyps(3,6) n by auto
  finally show ?case using down.IH n(1) by (auto simp: less_Suc_eq)
qed simp

context key_order
begin

lemma on_leaf_items:
  assumes "on_leaf valid less_key w t dbi kvs w1 mc l a ks pre post"
  shows "sorted_wrt less_key (map fst kvs)" "\<And>kv. kv \<in> set kvs \<Longrightarrow> valid (fst kv)" "kvs = pre @ ks @ post"
proof -
  have "path valid less_key w t (cur w1 mc) l 0 a ks pre post" and kvs: "kvs = pre @ ks @ post" using assms by (simp_all add: on_leaf_def)
  then obtain h where "tree valid less_key w t h (mc_pg (cur w1 mc) 0) kvs" using path_total by blast
  then show "sorted_wrt less_key (map fst kvs)" "kvs = pre @ ks @ post" "\<And>kv. kv \<in> set kvs \<Longrightarrow> valid (fst kv)"
    using tree_sorted kvs tree_valid by fastforce+
qed

lemma leaf_cmp:
  assumes db: "db_holds valid less_key c w t dbi kvs" and on: "on_leaf valid less_key w t dbi kvs w1 mc l a ks pre post" and i: "i < length ks"
    and key: "valid (val_bytes (w_mem w) k)"
  obtains v where "cmp_item w1 mc k i = Some v" and "v < 0 \<longleftrightarrow> less_key (val_bytes (w_mem w) k) (fst (ks ! i))"
    and "v > 0 \<longleftrightarrow> less_key (fst (ks ! i)) (val_bytes (w_mem w) k)" and "v = 0 \<longleftrightarrow> val_bytes (w_mem w) k = fst (ks ! i)"
proof -
  note pg = on_leaf_page[OF on] and kv = on_leaf_items[OF on]
  have nk: "node_key (w_mem w) a n i = fst (ks ! i)" for n
    using pg(1) i node_key_plain[of "w_mem w" a n] by (simp add: leaf_page_def)
  have val: "valid (fst (ks ! i))" using kv(2)[of "ks ! i"] i kv(3) by simp
  obtain v where v: "call_cmp c (val_bytes (w_mem w) k) (fst (ks ! i)) = Some v" "v < 0 \<longleftrightarrow> less_key (val_bytes (w_mem w) k) (fst (ks ! i))"
      "v > 0 \<longleftrightarrow> less_key (fst (ks ! i)) (val_bytes (w_mem w) k)" using defined[OF key val] by blast
  have "v = 0 \<longleftrightarrow> val_bytes (w_mem w) k = fst (ks ! i)"
    using v cmp_zero[OF key val] irrefl[OF val] by (metis less_irrefl linorder_neqE)
  moreover have "cmp_item w1 mc k i = Some v" using db v(1) by (simp add: cmp_item_def pg nk db_holds_def)
  ultimately show ?thesis using that v by blast
qed

lemma set2_finds:
  assumes db: "db_holds valid less_key c w t dbi kvs" and on: "on_leaf valid less_key w t dbi kvs w1 mc l a ks pre post"
    and ar: "around less_key key pre post" and k: "val_bytes (w_mem w) k = key" and key: "valid key"
  shows "finds valid less_key w t dbi kvs mc key exactp (cursor_set2 w1 mc k exactp)"
proof -
  note pg = on_leaf_page[OF on] and kv = on_leaf_items[OF on]
  let ?m = "w_mem w" and ?n = "length ks"
  have lf: "IS_LEAF ?m a" "\<not> IS_BRANCH ?m a" "\<not> IS_LEAF2 ?m a" "NUMKEYS ?m a = ?n" "?n < 65536" "0 < ?n"
    "keys_ordered valid less_key (node_key ?m a 0) (first_slot ?m a) (NUMKEYS ?m a)"
    and nk: "\<And>i. i < ?n \<Longrightarrow> node_key ?m a 0 i = fst (ks ! i)"
    using pg(1) by (auto simp: leaf_page_def first_slot_def)
  obtain i where i: "page_search_key ?m a c (unat (md_pad (get_db w1 mc))) key =
      Some (if i < ?n then Some (NODEPTR ?m a i) else None, i < ?n \<and> node_key ?m a 0 i = key, i)"
      "key_pos less_key (node_key ?m a 0) 0 ?n key i"
    using page_position[OF lf(7,3) _ key, of "unat (md_pad (get_db w1 mc))"] lf(1,2,4) by (auto simp: first_slot_def)
  have search: "mdb_node_search w1 mc k = Some (if i < ?n then Some (NODEPTR ?m a i) else None, i < ?n \<and> node_key ?m a 0 i = key, set_ki mc i w1)"
    using i(1) db by (simp add: mdb_node_search_def pg k db_holds_def)
  have b: "i \<le> ?n" "\<And>j. j < i \<Longrightarrow> less_key (fst (ks ! j)) key" "i < ?n \<Longrightarrow> \<not> less_key (fst (ks ! i)) key"
    using i(2) nk by (auto simp: key_pos_def)
  have prekey: "\<And>x. x \<in> set pre \<Longrightarrow> less_key (fst x) key" and postkey: "\<And>x. x \<in> set post \<Longrightarrow> less_key key (fst x)"
    using ar by (auto simp: around_def)
  have postn: "\<not> less_key (fst x) key" if "x \<in> set post" for x using postkey[OF that] less_asym[OF key kv(2)] that kv(3) by auto
  have p: "lower_bound less_key kvs key = length pre + i"
    by (rule lower_bound_split[OF kv(3) b(1)]) (use prekey b(2,3) postn in auto)
  let ?w = "set_ki mc i w1"
  have on': "on_leaf valid less_key w t dbi kvs ?w mc l a ks pre post" by (intro on_leaf_steps on)
  have ki: "cur_ki ?w mc = i" using b(1) lf(5) by (simp add: cur_ki_def set_ki_def)
  consider (here) "i < ?n" "exactp \<longrightarrow> fst (ks ! i) = key" | (miss) "i < ?n" "exactp" "fst (ks ! i) \<noteq> key"
    | (past) "i = ?n" "exactp" | (sib) "i = ?n" "\<not> exactp" "post \<noteq> []" | (none) "i = ?n" "\<not> exactp" "post = []" using b(1) by linarith
  then show ?thesis
  proof cases
    case here
    then have "cursor_set2 w1 mc k exactp = Some (Inr (NODEPTR ?m a i), ?w)" using nk by (auto simp: cursor_set2_def search)
    then show ?thesis using finds_at[OF on' ki here(1) p here(2)] by simp
  next
    case miss
    then have run: "cursor_set2 w1 mc k exactp = Some (Inl MDB_NOTFOUND, ?w)" using nk by (simp add: cursor_set2_def search)
    have "fst (kvs ! (length pre + i)) \<noteq> key" using miss by (simp add: kv(3) nth_append)
    then show ?thesis unfolding run by (rule_tac finds_none[OF on']) (simp add: p miss)
  next
    case past
    then have run: "cursor_set2 w1 mc k exactp = Some (Inl MDB_NOTFOUND, ?w)" by (simp add: cursor_set2_def search)
    have "fst (kvs ! (length pre + i)) \<noteq> key" if "length pre + i < length kvs"
      using that past postkey[of "post ! 0"] irrefl[OF key] by (auto simp: kv(3) nth_append)
    then show ?thesis unfolding run by (rule_tac finds_none[OF on']) (simp add: p past)
  next
    case sib
    have r: "reads w ?w" and lv: "at_level ?w mc t l" "l < CURSOR_STACK" and path: "path valid less_key w t (cur ?w mc) l 0 a ks pre post"
      using on' by (simp_all add: on_leaf_def)
    obtain w2 b ks2 post2 where w2: "mdb_cursor_sibling ?w mc True = Some (MDB_SUCCESS, w2)" "moves mc ?w w2" "at_level w2 mc t l"
        "path valid less_key w t (cur w2 mc) l 0 b ks2 (pre @ ks) post2" "post = ks2 @ post2" "cur_ki w2 mc = 0" "mc_flags (cur w2 mc) = mc_flags (cur ?w mc)"
      using sibling_right[OF path r lv] sib by auto
    have on2: "on_leaf valid less_key w t dbi kvs w2 mc l b ks2 (pre @ ks) post2"
      using w2 on' reads_trans[OF r moves_reads[OF w2(2)]] on_db_moves[OF w2(2)] by (simp add: on_leaf_def)
    note pg2 = on_leaf_page[OF on2]
    have "cursor_set2 w1 mc k exactp = Some (Inr (NODEPTR ?m b 0), w2)"
      using sib w2(1) pg2(1) by (simp add: cursor_set2_def search pg2 leaf_page_def)
    then show ?thesis using finds_at[OF on2 w2(6)] on_leaf_nonempty[OF on2] p sib by simp
  next
    case none
    have r: "reads w ?w" and lv: "at_level ?w mc t l" "l < CURSOR_STACK" and path: "path valid less_key w t (cur ?w mc) l 0 a ks pre post"
      using on' by (simp_all add: on_leaf_def)
    have "mdb_cursor_sibling ?w mc True = Some (MDB_NOTFOUND, ?w)" using sibling_right[OF path r lv] none by simp
    then have run: "cursor_set2 w1 mc k exactp = Some (Inl MDB_NOTFOUND, cur_or mc C_EOF ?w)" using none by (simp add: cursor_set2_def search)
    have "length kvs = length pre + i" using none arg_cong[OF kv(3), of length] by simp
    then show ?thesis unfolding run by (rule_tac finds_none[OF on_leaf_steps(4)[OF on' none(3)]]) (simp add: p)
  qed
qed

lemma set_search_finds:
  assumes db: "db_holds valid less_key c w t dbi kvs" and ne: "kvs \<noteq> []" and r: "reads w w1" and on: "on_db w1 mc t dbi"
    and pg: "mc_pg (cur w1 mc) 0 = 0 \<or> (\<exists>h < CURSOR_STACK. tree valid less_key w t h (mc_pg (cur w1 mc) 0) kvs)"
    and dl: "\<not> bit (mc_flags (cur w1 mc)) 3" and k: "val_bytes (w_mem w) k = key" and key: "valid key"
  shows "finds valid less_key w t dbi kvs mc key exactp (set_search w1 mc k exactp)"
proof -
  obtain w2 a h where s: "page_search_gen no_touch w1 mc (Some k) 0 = page_search_root_gen no_touch w2 mc a (Some k) 0" "moves mc w1 w2"
      "at_level w2 mc t 0" "path valid less_key w t (cur w2 mc) 0 h a kvs [] []" "h < CURSOR_STACK" "mc_flags (cur w2 mc) = mc_flags (cur w1 mc)"
    by (rule search_from_root[OF db r on pg ne, of 0 no_touch "Some k"]) simp_all
  have r2: "reads w w2" using reads_trans[OF r moves_reads[OF s(2)]] .
  have on2: "on_db w2 mc t dbi" using on on_db_moves[OF s(2)] by simp
  have cmp: "md_cmp (get_dbx w2 mc) = Some c" using db on_db_access(2)[OF on2 r2] by (simp add: db_holds_def)
  have depth: "0 + h < CURSOR_STACK" and key': "valid (val_bytes (w_mem w) k)" and ar: "around less_key (val_bytes (w_mem w) k) [] []"
    using s(5) key k by (simp_all add: around_def)
  obtain w3 b ks pre post where 3: "page_search_root_gen no_touch w2 mc a (Some k) 0 = Some (MDB_SUCCESS, w3)" "moves mc w2 w3" "at_level w3 mc t h"
     "path valid less_key w t (cur w3 mc) h 0 b ks pre post" "around less_key key pre post" "pre @ ks @ post = kvs"
     "mc_flags (cur w3 mc) = (mc_flags (cur w2 mc) OR C_INITIALIZED) AND NOT C_EOF"
    using search_key[OF s(4) ar r2 s(3) depth cmp key', of no_touch] k by auto
  have on3: "on_leaf valid less_key w t dbi kvs w3 mc h b ks pre post"
    using 3 s(5,6) reads_trans[OF r2 moves_reads[OF 3(2)]] on_db_moves[OF 3(2)] on2 dl by (simp add: on_leaf_def)
  have "set_search w1 mc k exactp = cursor_set2 w3 mc k exactp"
    using s(1) 3(1) on_leaf_page(1-3)[OF on3] by (simp add: set_search_def leaf_page_def)
  then show ?thesis using set2_finds[OF db on3 3(5) k key] by simp
qed

lemma sorted_around:
  assumes on: "on_leaf valid less_key w t dbi kvs w1 mc l a ks pre post" and key: "valid key" and i: "i < length ks"
  shows "fst (ks ! i) = key \<or> less_key (fst (ks ! i)) key \<Longrightarrow> \<forall>x \<in> set (pre @ take i ks). less_key (fst x) key"
    "fst (ks ! i) = key \<or> less_key key (fst (ks ! i)) \<Longrightarrow> \<forall>x \<in> set (drop (Suc i) ks @ post). less_key key (fst x)"
proof -
  note kv = on_leaf_items[OF on]
  have split: "kvs = (pre @ take i ks) @ ks ! i # (drop (Suc i) ks @ post)" using kv(3) id_take_nth_drop[OF i] by simp
  have val: "valid (fst (ks ! i))" using kv(2)[of "ks ! i"] split by simp
  have lt: "less_key (fst x) (fst (ks ! i))" "valid (fst x)" if "x \<in> set (pre @ take i ks)" for x
    using kv(1) that kv(2)[of x] unfolding split by (auto simp: sorted_wrt_append)
  have gt: "less_key (fst (ks ! i)) (fst x)" "valid (fst x)" if "x \<in> set (drop (Suc i) ks @ post)" for x
    using kv(1) that kv(2)[of x] unfolding split by (auto simp: sorted_wrt_append)
  show "\<forall>x \<in> set (pre @ take i ks). less_key (fst x) key" if "fst (ks ! i) = key \<or> less_key (fst (ks ! i)) key"
    using lt that trans[OF _ val key] by blast
  show "\<forall>x \<in> set (drop (Suc i) ks @ post). less_key key (fst x)" if "fst (ks ! i) = key \<or> less_key key (fst (ks ! i))"
    using gt that trans[OF key val] by blast
qed

lemma lower_bound_item:
  assumes on: "on_leaf valid less_key w t dbi kvs w1 mc l a ks pre post" and i: "i < length ks" "fst (ks ! i) = key"
  shows "lower_bound less_key kvs key = length pre + i"
proof -
  note kv = on_leaf_items[OF on]
  have key: "valid key" using kv(2)[of "ks ! i"] i kv(3) by simp
  have "\<forall>x \<in> set (pre @ take i ks). less_key (fst x) key" using sorted_around(1)[OF on key i(1)] i(2) by blast
  moreover have "ks ! j \<in> set (take i ks)" if "j < i" for j using that i(1) by (auto simp: in_set_conv_nth)
  ultimately show ?thesis
    by (intro lower_bound_split[OF kv(3)]) (use i irrefl[OF key] in auto)
qed

text \<open>The shortcuts that look at the first, the last and the current item of the leaf the cursor is on.\<close>

lemma set_find_leaf:
  assumes db: "db_holds valid less_key c w t dbi kvs" and on: "on_leaf valid less_key w t dbi kvs w1 mc l a ks pre post"
    and k: "val_bytes (w_mem w) k = key" and key: "valid key" and op: "exactp \<longleftrightarrow> op \<noteq> MDB_SET_RANGE"
  shows "finds valid less_key w t dbi kvs mc key exactp (cursor_set_find w1 mc k op exactp)"
proof -
  note pg = on_leaf_page[OF on] and kv = on_leaf_items[OF on]
  have n: "NUMKEYS (w_mem w) a = length ks" "length ks < 65536" "0 < length ks" using pg(1) by (auto simp: leaf_page_def)
  have init: "bit (mc_flags (cur w1 mc)) 0" and r: "reads w w1" "on_db w1 mc t dbi" "\<not> bit (mc_flags (cur w1 mc)) 3"
    and path: "path valid less_key w t (cur w1 mc) l 0 a ks pre post" and l: "mc_top (cur w1 mc) = l" "l < CURSOR_STACK"
    using on by (simp_all add: on_leaf_def at_level_def)
  have root: "mc_pg (cur w1 mc) 0 = 0 \<or> (\<exists>h < CURSOR_STACK. tree valid less_key w t h (mc_pg (cur w1 mc) 0) kvs)"
    using path_total[OF path] l(2) kv(3) by auto
  have ne: "kvs \<noteq> []" using n(3) kv(3) by auto
  note search = set_search_finds[OF db ne r(1,2) root r(3) k key, of exactp]
  have sibs: "has_right_sibs w1 mc \<longleftrightarrow> post \<noteq> []"
    using right_sibs[OF path] by (auto simp: has_right_sibs_def list_ex_iff l(1) pg(3))
  have at: "finds valid less_key w t dbi kvs mc key exactp (Some (Inr (NODEPTR (w_mem w) a i), set_ki mc i w1))"
    if "i < length ks" "fst (ks ! i) = key" for i
    by (rule finds_at[OF on_leaf_steps(1)[OF on] _ that(1) lower_bound_item[OF on that]]) (use that n(2) in \<open>simp_all add: cur_ki_def set_ki_def\<close>)
  obtain v where v: "cmp_item w1 mc k 0 = Some v" "v < 0 \<longleftrightarrow> less_key key (fst (ks ! 0))" "v > 0 \<longleftrightarrow> less_key (fst (ks ! 0)) key" "v = 0 \<longleftrightarrow> key = fst (ks ! 0)"
    by (rule leaf_cmp[OF db on n(3) key[folded k], unfolded k])
  have last: "length ks - 1 < length ks" using n(3) by simp
  obtain v2 where v2: "cmp_item w1 mc k (length ks - 1) = Some v2" "v2 < 0 \<longleftrightarrow> less_key key (fst (ks ! (length ks - 1)))"
      "v2 > 0 \<longleftrightarrow> less_key (fst (ks ! (length ks - 1))) key" "v2 = 0 \<longleftrightarrow> key = fst (ks ! (length ks - 1))"
    by (rule leaf_cmp[OF db on last key[folded k], unfolded k])
  have "ks \<noteq> []" using n(3) by simp
  note unf = cursor_set_find_def Let_def flag_bits init pg n v(1) v2(1)[unfolded One_nat_def] this
  consider (eq) "v = 0" | (low) "v < 0" | (last_eq) "v > 0" "1 < length ks" "v2 = 0" | (inside) "v > 0" "1 < length ks" "v2 < 0"
    | (high) "v > 0" "\<not> 1 < length ks \<or> v2 > 0" by linarith
  then show ?thesis
  proof cases
    case eq
    then show ?thesis using at[OF n(3)] v(4) by (simp add: unf)
  next
    case low
    show ?thesis
    proof (cases "l = 0")
      case True
      have z: "pre = []" "post = []" using on_leaf_root[OF on] True l by simp_all
      have lb: "lower_bound less_key kvs key = 0"
        using lower_bound_split[OF kv(3), of 0] z less_asym[OF key kv(2)[of "ks ! 0"]] low v(2) n(3) kv(3) by auto
      have on': "on_leaf valid less_key w t dbi kvs (set_ki mc 0 w1) mc l a ks pre post" by (intro on_leaf_steps on)
      have k0: "cur_ki (set_ki mc 0 w1) mc = 0" by (simp add: cur_ki_def set_ki_def)
      have m0: "w_mem (set_ki mc 0 w1) = w_mem w" by (simp add: set_ki_def pg)
      have "fst (kvs ! 0) \<noteq> key" using low v(4) z n(3) by (auto simp: kv(3) nth_append)
      then show ?thesis
        using finds_at[OF on' k0 n(3), of key False] finds_none[OF on', of key True] lb z low True l op m0 by (cases exactp) (simp_all add: unf)
    next
      case False
      then show ?thesis using search low l by (simp add: unf)
    qed
  next
    case last_eq
    then show ?thesis using at[OF last] v2(4) by (simp add: unf)
  next
    case inside
    have ar: "around less_key key pre post"
      using sorted_around(1)[OF on key n(3)] sorted_around(2)[OF on key last] inside v(3) v2(2) by (auto simp: around_def)
    show ?thesis
    proof (cases "cur_ki w1 mc < length ks")
      case True
      obtain v3 where v3: "cmp_item w1 mc k (cur_ki w1 mc) = Some v3" "v3 = 0 \<longleftrightarrow> key = fst (ks ! cur_ki w1 mc)"
        by (rule leaf_cmp[OF db on True key[folded k], unfolded k])
      have "finds valid less_key w t dbi kvs mc key exactp (Some (Inr (NODEPTR (w_mem w) a (cur_ki w1 mc)), w1))" if "v3 = 0"
        using finds_at[OF on refl True lower_bound_item[OF on True]] v3(2) that by simp
      then show ?thesis using set2_finds[OF db on ar k key, of exactp] inside v3(1) True by (simp add: unf)
    next
      case False
      then show ?thesis using set2_finds[OF db on ar k key, of exactp] inside by (simp add: unf)
    qed
  next
    case high
    have gt: "less_key (fst (ks ! (length ks - 1))) key" using high v(3) v2(3) n(3) by (cases "length ks = 1") auto
    have all: "\<forall>x \<in> set (pre @ ks). less_key (fst x) key"
      using sorted_around(1)[OF on key last] gt n(3) by (subst append_butlast_last_id[of ks, symmetric]) (auto simp: butlast_conv_take last_conv_nth)
    show ?thesis
    proof (cases "post = []")
      case True
      have "lower_bound less_key kvs key = length pre + length ks" by (rule lower_bound_split[OF kv(3)]) (use all True in auto)
      then have "\<not> lower_bound less_key kvs key < length kvs" using True kv(3) by simp
      moreover have "on_leaf valid less_key w t dbi kvs (set_ki mc (length ks) w1) mc l a ks pre post" by (intro on_leaf_steps on)
      ultimately have "finds valid less_key w t dbi kvs mc key exactp (Some (Inl MDB_NOTFOUND, set_ki mc (length ks) w1))"
        using finds_none by blast
      then show ?thesis using high sibs True by (auto simp: unf)
    next
      case False
      have "l \<noteq> 0" using on_leaf_root(2)[OF on] False l by auto
      then show ?thesis using high sibs False search l by (auto simp: unf)
    qed
  qed
qed

lemma set_find_finds:
  assumes db: "db_holds valid less_key c w t dbi kvs" and rel: "cursor_rel valid less_key w t dbi kvs cs w1 mc" and ne: "kvs \<noteq> []"
    and k: "val_bytes (w_mem w) k = key" and key: "valid key" and op: "exactp \<longleftrightarrow> op \<noteq> MDB_SET_RANGE"
  shows "finds valid less_key w t dbi kvs mc key exactp (cursor_set_find w1 mc k op exactp)"
proof (cases "bit (mc_flags (cur w1 mc)) 0")
  case True
  with rel obtain l a ks pre post where "on_leaf valid less_key w t dbi kvs w1 mc l a ks pre post" by (rule rel_leaf)
  then show ?thesis using set_find_leaf[OF db _ k key op] by blast
next
  case False
  let ?w = "upd_cur mc (\<lambda>c. c\<lparr>mc_pg := (mc_pg c)(0 := 0)\<rparr>) w1"
  note root = rel_root[OF rel]
  have "reads w ?w" "on_db ?w mc t dbi" using root on_db_moves[OF moves_steps(6)] by simp_all
  then have "finds valid less_key w t dbi kvs mc key exactp (set_search ?w mc k exactp)"
    using set_search_finds[OF db ne _ _ _ _ k key] root(4) by simp
  then show ?thesis using False by (simp add: cursor_set_find_def flag_bits)
qed

lemma set_empty:
  assumes db: "db_holds valid less_key c w t dbi []" and rel: "cursor_rel valid less_key w t dbi [] cs w1 mc" and sz: "mv_size k \<noteq> 0"
  shows "\<exists>w2. mdb_cursor_set w1 mc (Some k) (Some d) op exactp = Some (MDB_NOTFOUND, Some k, Some d, w2) \<and> cursor_rel valid less_key w t dbi [] Unset w2 mc"
proof -
  note root = rel_root[OF rel]
  let ?w = "upd_cur mc (\<lambda>c. c\<lparr>mc_pg := (mc_pg c)(0 := 0)\<rparr>) w1"
  have un: "cursor_rel valid less_key w t dbi [] Unset w1 mc" using rel rel_empty by blast
  have w: "reads w ?w" "on_db ?w mc t dbi" using root on_db_moves[OF moves_steps(6)] by simp_all
  then have "mdb_cursor_set w1 mc (Some k) (Some d) op exactp = Some (MDB_NOTFOUND, Some k, Some d, ?w)"
    using un sz by (subst mdb_cursor_set.simps) (simp add: root(5) cursor_set_find_def flag_bits set_search_def search_empty[OF db])
  moreover have "cursor_rel valid less_key w t dbi [] Unset ?w mc" using un w by simp
  ultimately show ?thesis by blast
qed

lemma set_found:
  assumes db: "db_holds valid less_key c w t dbi kvs" and rel: "cursor_rel valid less_key w t dbi kvs cs w1 mc"
    and find: "cursor_set_find w1 mc k op exactp = Some (Inr (NODEPTR (w_mem w) a (cur_ki w2 mc)), w2)"
    and on: "on_leaf valid less_key w t dbi kvs w2 mc l a ks pre post" and i: "cur_ki w2 mc < length ks"
    and sz: "mv_size k \<noteq> 0" and op: "op = MDB_SET \<or> op = MDB_SET_KEY \<or> op = MDB_SET_RANGE"
  obtains k' d' w3 where "mdb_cursor_set w1 mc (Some k) (Some d) op exactp = Some (MDB_SUCCESS, Some (if op = MDB_SET then k else k'), Some d', w3)"
    and "val_bytes (w_mem w) k' = fst (ks ! cur_ki w2 mc)" and "val_bytes (w_mem w) d' = snd (ks ! cur_ki w2 mc)"
    and "on_leaf valid less_key w t dbi kvs w3 mc l a ks pre post" and "cur_ki w3 mc = cur_ki w2 mc" and "\<not> bit (mc_flags (cur w3 mc)) (Suc 0)"
proof -
  let ?w = "cur_clear mc C_EOF (cur_or mc C_INITIALIZED w2)" and ?i = "cur_ki w2 mc"
  have on': "on_leaf valid less_key w t dbi kvs ?w mc l a ks pre post" by (intro on_leaf_steps on)
  note pg = on_leaf_page[OF on'] and root = rel_root[OF rel]
  have "reads w ?w" using on' by (simp add: on_leaf_def)
  then obtain d' where d': "mdb_node_read ?w t (NODEPTR (w_mem w) a ?i) d = Some (MDB_SUCCESS, d', ?w)" "val_bytes (w_mem w) d' = snd (ks ! ?i)"
      "val_bytes (w_mem w) (MDB_GET_KEY2 (w_mem w) (NODEPTR (w_mem w) a ?i)) = fst (ks ! ?i)"
      "\<not> F_ISSET (mn_flags (w_mem w) (NODEPTR (w_mem w) a ?i)) F_DUPDATA"
    using leaf_item[OF pg(1) i] by blast
  have "mdb_cursor_set w1 mc (Some k) (Some d) op exactp =
      Some (MDB_SUCCESS, Some (if op = MDB_SET then k else MDB_GET_KEY2 (w_mem w) (NODEPTR (w_mem w) a ?i)), Some d', ?w)"
    using d'(1,4) pg(1) sz op find by (subst mdb_cursor_set.simps) (auto simp: root(5) pg Let_def leaf_page_def MDB_GET_KEY_def)
  then show ?thesis using that d'(2,3) on' by (simp add: cur_ki_def cur_clear_def cur_or_def)
qed

lemma set_gets:
  assumes db: "db_holds valid less_key c w t dbi kvs" and rel: "cursor_rel valid less_key w t dbi kvs cs w1 mc"
    and k: "val_bytes (w_mem w) k = key" and key: "valid key" and sz: "mv_size k \<noteq> 0" and op: "op = MDB_SET_KEY \<or> op = MDB_SET_RANGE"
  shows "gets valid less_key w t dbi kvs mc (cursor_step less_key kvs (if op = MDB_SET_RANGE then Set_range key else Set_key key) cs)
    (mdb_cursor_set w1 mc (Some k) (Some d) op (op \<noteq> MDB_SET_RANGE))"
proof (cases "kvs = []")
  case True
  then show ?thesis using set_empty[OF db[unfolded True] rel[unfolded True] sz, of d op "op \<noteq> MDB_SET_RANGE"] by (auto simp: gets_def)
next
  case ne: False
  let ?ex = "op \<noteq> MDB_SET_RANGE" and ?p = "lower_bound less_key kvs key"
  note f = set_find_finds[OF db rel ne k key refl, of op]
  have spec: "cursor_step less_key kvs (if op = MDB_SET_RANGE then Set_range key else Set_key key) cs =
      (if ?p < length kvs \<and> (?ex \<longrightarrow> fst (kvs ! ?p) = key) then goto kvs ?p False else (None, Lost))" using ne by (simp add: Let_def)
  show ?thesis
  proof (cases "?p < length kvs \<and> (?ex \<longrightarrow> fst (kvs ! ?p) = key)")
    case True
    then obtain w2 l a ks pre post where w2: "cursor_set_find w1 mc k op ?ex = Some (Inr (NODEPTR (w_mem w) a (cur_ki w2 mc)), w2)"
        "on_leaf valid less_key w t dbi kvs w2 mc l a ks pre post" "cur_ki w2 mc < length ks" "?p = length pre + cur_ki w2 mc"
      using f unfolding finds_def Let_def if_P[OF True] by blast
    obtain k' d' w3 where 3: "mdb_cursor_set w1 mc (Some k) (Some d) op ?ex = Some (MDB_SUCCESS, Some (if op = MDB_SET then k else k'), Some d', w3)"
      "val_bytes (w_mem w) k' = fst (ks ! cur_ki w2 mc)" "val_bytes (w_mem w) d' = snd (ks ! cur_ki w2 mc)"
      "on_leaf valid less_key w t dbi kvs w3 mc l a ks pre post" "cur_ki w3 mc = cur_ki w2 mc" "\<not> bit (mc_flags (cur w3 mc)) (Suc 0)"
      by (rule set_found[OF db rel w2(1-3) sz]) (use op in auto)
    have "gets valid less_key w t dbi kvs mc (goto kvs ?p False) (mdb_cursor_set w1 mc (Some k) (Some d) op ?ex)"
      using 3(1) op gets_item[OF 3(4) w2(3) 3(5,2,3) w2(4)] 3(6) by auto
    then show ?thesis unfolding spec if_P[OF True] .
  next
    case False
    then obtain w2 where w2: "cursor_set_find w1 mc k op ?ex = Some (Inl MDB_NOTFOUND, w2)" "cursor_rel valid less_key w t dbi kvs Lost w2 mc"
      using f unfolding finds_def Let_def if_not_P[OF False] by blast
    then have "mdb_cursor_set w1 mc (Some k) (Some d) op ?ex = Some (MDB_NOTFOUND, Some k, Some d, w2)"
      using sz by (subst mdb_cursor_set.simps) (simp add: rel_root(5)[OF rel])
    then show ?thesis unfolding spec if_not_P[OF False] using w2(2) by (simp add: gets_def)
  qed
qed

text \<open>The whole read interface of a cursor.\<close>

lemma current_gets:
  assumes db: "db_holds valid less_key c w t dbi kvs" and rel: "cursor_rel valid less_key w t dbi kvs (At p eof) w1 mc"
  shows "gets valid less_key w t dbi kvs mc (goto kvs p eof) (mdb_cursor_get w1 (Some mc) (Some k) (Some d) MDB_GET_CURRENT)"
proof -
  obtain l a ks pre post where on: "on_leaf valid less_key w t dbi kvs w1 mc l a ks pre post" and ki: "cur_ki w1 mc < length ks"
      and p: "p = length pre + cur_ki w1 mc" and eof: "eof = bit (mc_flags (cur w1 mc)) (Suc 0)" using rel by auto
  note pg = on_leaf_page[OF on]
  have n: "NUMKEYS (w_mem w) a = length ks" and flags: "bit (mc_flags (cur w1 mc)) 0" "\<not> bit (mc_flags (cur w1 mc)) 3" and r: "reads w w1"
    using pg(1) on by (simp_all add: leaf_page_def on_leaf_def)
  have bl: "mt_flags (txn w1 t) AND MDB_TXN_BLOCKED = 0" using db by (simp add: db_holds_def reads_txn[OF r])
  obtain d' where d': "mdb_node_read w1 t (NODEPTR (w_mem w) a (cur_ki w1 mc)) d = Some (MDB_SUCCESS, d', w1)"
      "val_bytes (w_mem w) d' = snd (ks ! cur_ki w1 mc)"
      "val_bytes (w_mem w) (MDB_GET_KEY2 (w_mem w) (NODEPTR (w_mem w) a (cur_ki w1 mc))) = fst (ks ! cur_ki w1 mc)"
      "\<not> F_ISSET (mn_flags (w_mem w) (NODEPTR (w_mem w) a (cur_ki w1 mc))) F_DUPDATA"
    using leaf_item[OF pg(1) ki r] by blast
  have "mdb_cursor_get w1 (Some mc) (Some k) (Some d) MDB_GET_CURRENT =
      Some (MDB_SUCCESS, Some (MDB_GET_KEY2 (w_mem w) (NODEPTR (w_mem w) a (cur_ki w1 mc))), Some d', w1)"
    using d'(1,4) pg(1) ki bl flags n
    by (subst mdb_cursor_get.simps) (auto simp: pg Let_def flag_bits clear_del_def leaf_page_def MDB_GET_KEY_def)
  then show ?thesis using gets_item[OF on ki refl d'(3,2) p eof] by simp
qed

lemma prev_unset:
  assumes db: "db_holds valid less_key c w t dbi kvs" and rel: "cursor_rel valid less_key w t dbi kvs Unset w1 mc"
  shows "gets valid less_key w t dbi kvs mc (cursor_step less_key kvs Prev Unset) (cursor_get_op w1 mc (Some k) (Some d) MDB_PREV)"
proof -
  have un: "mc_flags (cur w1 mc) AND C_INITIALIZED = 0" using rel by (simp add: flag_bits)
  note last = last_gets[OF db rel, of k d]
  show ?thesis
  proof (cases "kvs = []")
    case True
    then show ?thesis using last un by (auto simp: cursor_get_op_def gets_def)
  next
    case False
    then obtain k' d' w2 where w2: "mdb_cursor_last w1 mc (Some k) (Some d) = Some (MDB_SUCCESS, Some k', Some d', w2)"
        "cursor_rel valid less_key w t dbi kvs (At (length kvs - 1) True) w2 mc" using last by (auto simp: gets_def goto_def simp del: cursor_rel.simps)
    then obtain l a ks pre post where on: "on_leaf valid less_key w t dbi kvs w2 mc l a ks pre post" "cur_ki w2 mc < length ks"
        "length kvs - 1 = length pre + cur_ki w2 mc" by auto
    let ?w = "set_ki mc (cur_ki w2 mc + 1) (cur_or mc C_INITIALIZED w2)"
    have on': "on_leaf valid less_key w t dbi kvs ?w mc l a ks pre post" by (intro on_leaf_steps on)
    have "length ks < 65536" using on_leaf_page(1)[OF on(1)] by (auto simp: leaf_page_def)
    then have ki: "cur_ki ?w mc = cur_ki w2 mc + 1" using on(2) by (simp add: cur_ki_def set_ki_def)
    have "length kvs = length pre + cur_ki ?w mc" using on(3) False unfolding ki by (cases kvs) simp_all
    then have "gets valid less_key w t dbi kvs mc (goto kvs (length kvs - 1) False) (mdb_cursor_prev ?w mc (Some k') (Some d') MDB_PREV)"
      by (rule_tac prev_from[OF db on']) (use ki on(2) False in simp_all)
    moreover have "cur_ki (cur_or mc C_INITIALIZED w2) mc = cur_ki w2 mc" by (simp add: cur_or_def cur_ki_def)
    ultimately show ?thesis using False w2(1) un by (simp add: cursor_get_op_def Let_def)
  qed
qed

lemma get_op_gets:
  assumes db: "db_holds valid less_key c w t dbi kvs" and rel: "cursor_rel valid less_key w t dbi kvs cs w1 mc"
    and al: "allowed op cs" "op_valid valid op" and op: "op \<noteq> Current"
  shows "gets valid less_key w t dbi kvs mc (cursor_step less_key kvs op cs) (cursor_get_op w1 mc (Some (op_val op)) (Some d) (op_code op))"
proof -
  have init: "mc_flags (cur w1 mc) AND C_INITIALIZED = 0 \<longleftrightarrow> cs = Unset" using rel by (cases cs) (auto simp: flag_bits on_leaf_def)
  have pos: "\<exists>p eof. cs = At p eof" if "cs \<noteq> Unset" "cs \<noteq> Lost" using that by (cases cs) auto
  show ?thesis
  proof (cases op)
    case First
    then show ?thesis using first_gets[OF db rel] by (simp add: cursor_get_op_def)
  next
    case Last
    then show ?thesis using last_gets[OF db rel] by (simp add: cursor_get_op_def)
  next
    case Next
    show ?thesis
    proof (cases "cs = Unset")
      case True
      then show ?thesis using first_gets[OF db rel, of "op_val op" d] init Next by (simp add: cursor_get_op_def)
    next
      case False
      then obtain p eof where "cs = At p eof" using pos al(1) Next by (cases cs) auto
      then show ?thesis using next_gets[OF db, of p eof w1 mc "op_val op" d] rel init Next
        by (simp add: cursor_get_op_def del: cursor_rel.simps cursor_step.simps)
    qed
  next
    case Prev
    show ?thesis
    proof (cases "cs = Unset")
      case True
      then show ?thesis using prev_unset[OF db, of w1 mc "op_val op" d] rel Prev by (simp del: cursor_rel.simps cursor_step.simps)
    next
      case False
      then obtain p eof where "cs = At p eof" using pos al(1) Prev by (cases cs) auto
      then show ?thesis using prev_gets[OF db, of p eof w1 mc "op_val op" d] rel init Prev
        by (simp add: cursor_get_op_def del: cursor_rel.simps cursor_step.simps)
    qed
  next
    case (Set_key key)
    then show ?thesis using set_gets[OF db rel, of "val_of key" key MDB_SET_KEY d] al(2) by (simp add: cursor_get_op_def)
  next
    case (Set_range key)
    then show ?thesis using set_gets[OF db rel, of "val_of key" key MDB_SET_RANGE d] al(2) by (simp add: cursor_get_op_def)
  qed (use op in simp)
qed

lemma cursor_get_gets:
  assumes db: "db_holds valid less_key c w t dbi kvs" and rel: "cursor_rel valid less_key w t dbi kvs cs w1 mc"
    and al: "allowed op cs" "op_valid valid op"
  shows "gets valid less_key w t dbi kvs mc (cursor_step less_key kvs op cs) (mdb_cursor_get w1 (Some mc) (Some (op_val op)) (Some d) (op_code op))"
proof (cases "op = Current")
  case True
  then obtain p eof where "cs = At p eof" using al(1) by (cases cs) auto
  then show ?thesis using current_gets[OF db] rel True by simp
next
  case False
  note root = rel_root[OF rel]
  have bl: "mt_flags (txn w1 (mc_txn (cur w1 mc))) AND MDB_TXN_BLOCKED = 0" using db root by (simp add: db_holds_def reads_txn[OF root(1)] on_db_def)
  have nc: "op_code op \<noteq> MDB_GET_CURRENT" using False by (cases op) auto
  obtain rc k d' w2 where w2: "cursor_get_op w1 mc (Some (op_val op)) (Some d) (op_code op) = Some (rc, Some k, Some d', w2)"
      "cursor_rel valid less_key w t dbi kvs (snd (cursor_step less_key kvs op cs)) w2 mc"
    and g: "gets valid less_key w t dbi kvs mc (cursor_step less_key kvs op cs) (Some (rc, Some k, Some d', w2))"
    using get_op_gets[OF db rel al False, of d] unfolding gets_def by auto
  have "clear_del mc w2 = w2" using rel_root(4)[OF w2(2)] by (simp add: clear_del_def flag_bits)
  then have "mdb_cursor_get w1 (Some mc) (Some (op_val op)) (Some d) (op_code op) = Some (rc, Some k, Some d', w2)"
    using bl nc w2(1) by (subst mdb_cursor_get.simps) simp
  then show ?thesis using g by simp
qed

lemma cursor_run_refines:
  assumes db: "db_holds valid less_key c w t dbi kvs" and "cursor_rel valid less_key w t dbi kvs cs w1 mc"
    and "spec_allows valid less_key kvs ops cs"
  shows "\<exists>w2. cursor_run mc ops w1 = Some (spec_run less_key kvs ops cs, w2) \<and> reads w w2"
  using assms(2-)
proof (induction ops arbitrary: cs w1)
  case Nil
  then show ?case using rel_root(1) by fastforce
next
  case (Cons op ops)
  let ?r = "cursor_step less_key kvs op cs"
  obtain rc k d w2 where w2: "mdb_cursor_get w1 (Some mc) (Some (op_val op)) (Some nil_val) (op_code op) = Some (rc, Some k, Some d, w2)"
      "cursor_rel valid less_key w t dbi kvs (snd ?r) w2 mc"
      "case fst ?r of None \<Rightarrow> rc = MDB_NOTFOUND | Some kv \<Rightarrow> rc = MDB_SUCCESS \<and> (val_bytes (w_mem w) k, val_bytes (w_mem w) d) = kv"
    using cursor_get_gets[OF db Cons.prems(1), of op nil_val] Cons.prems(2) unfolding gets_def by auto
  have m: "w_mem w2 = w_mem w" using rel_root(1)[OF w2(2)] by (simp add: reads_def)
  obtain w3 where "cursor_run mc ops w2 = Some (spec_run less_key kvs ops (snd ?r), w3)" "reads w w3"
    using Cons.IH[OF w2(2)] Cons.prems(2) by auto
  then show ?case using w2(1,3) m by (cases ?r; cases "fst ?r") auto
qed

subsection \<open>Lookups\<close>

lemma map_of_lower_bound:
  assumes "sorted_wrt less_key (map fst kvs)" and "\<And>kv. kv \<in> set kvs \<Longrightarrow> valid (fst kv)"
  shows "map_of kvs key =
    (let p = lower_bound less_key kvs key in if p < length kvs \<and> fst (kvs ! p) = key then Some (snd (kvs ! p)) else None)"
proof -
  have at: "lower_bound less_key kvs k = q" if q: "q < length kvs" "fst (kvs ! q) = k" for q k
  proof -
    have "valid k" using assms(2)[of "kvs ! q"] q by simp
    then show ?thesis
      using lower_bound_split[of kvs "[]" kvs "[]" q less_key k] q assms(1) irrefl by (auto simp: sorted_wrt_iff_nth_less)
  qed
  have "distinct (map fst kvs)"
    unfolding distinct_conv_nth by (intro allI impI notI) (metis at length_map nth_map)
  then have some: "map_of kvs key = Some (snd (kvs ! q))" if "q < length kvs" "fst (kvs ! q) = key" for q
    using that map_of_is_SomeI[of kvs key "snd (kvs ! q)"] by (metis nth_mem prod.collapse)
  show ?thesis
  proof (cases "map_of kvs key")
    case None
    then show ?thesis using some by (auto simp: Let_def)
  next
    case (Some v)
    then obtain q where "q < length kvs" "kvs ! q = (key, v)" by (metis in_set_conv_nth map_of_SomeD)
    then show ?thesis using at[of q key] Some by (simp add: Let_def)
  qed
qed

lemma db_items:
  assumes "db_holds valid less_key c w t dbi kvs"
  shows "sorted_wrt less_key (map fst kvs)" "\<And>kv. kv \<in> set kvs \<Longrightarrow> valid (fst kv)"
  using assms tree_sorted tree_valid by (fastforce simp: db_holds_def split: if_splits)+

lemma fresh_cursor:
  assumes db: "db_holds valid less_key c w t dbi kvs" and "reads w w1"
  obtains w2 where "mdb_cursor_init mc t dbi mx w1 = Some w2" and "cursor_rel valid less_key w t dbi kvs Unset w2 mc" "mt_cursors (txn w2 t) = mt_cursors (txn w t)"
proof -
  obtain w2 where "mdb_cursor_init mc t dbi mx w1 = Some w2" "reads w w2" "on_db w2 mc t dbi" "mc_flags (cur w2 mc) = 0" "mc_pg (cur w2 mc) 0 = 0"
    by (rule cursor_init_db[OF db assms(2)])
  then show ?thesis using that reads_txn by fastforce
qed

lemma get_runs:
  assumes db: "db_holds valid less_key c w t dbi kvs" and key: "valid (val_bytes (w_mem w) k)" and sz: "mv_size k \<noteq> 0"
  shows "\<exists>rc d' w'. mdb_get w t dbi (Some k) (Some d) = Some (rc, Some k, Some d', w') \<and> reads w w' \<and>
     (case map_of kvs (val_bytes (w_mem w) k) of None \<Rightarrow> rc = MDB_NOTFOUND | Some v \<Rightarrow> rc = MDB_SUCCESS \<and> val_bytes (w_mem w) d' = v)"
proof -
  let ?key = "val_bytes (w_mem w) k" and ?p = "lower_bound less_key kvs (val_bytes (w_mem w) k)"
  define w1 where "w1 = snd (new_cur (snd (new_cur w)))"
  define mc where "mc = fst (new_cur w)"
  define mx where "mx = fst (new_cur (snd (new_cur w)))"
  have "reads w w1" by (simp add: w1_def new_cur_def reads_def Let_def)
  then obtain w2 where w2: "mdb_cursor_init mc t dbi (Some mx) w1 = Some w2" "cursor_rel valid less_key w t dbi kvs Unset w2 mc"
    by (rule fresh_cursor[OF db])
  have run: "mdb_get w t dbi (Some k) (Some d) = mdb_cursor_set w2 mc (Some k) (Some d) MDB_SET True"
    using db w2(1) by (simp add: mdb_get_def db_holds_def w1_def mc_def mx_def case_prod_unfold Let_def)
  show ?thesis
  proof (cases "kvs = []")
    case True
    then show ?thesis using set_empty[OF db[unfolded True] w2(2)[unfolded True] sz, of d MDB_SET True] rel_root(1) unfolding run by fastforce
  next
    case ne: False
    note f = set_find_finds[OF db w2(2) ne refl key, of True MDB_SET]
    have look: "map_of kvs ?key = (if ?p < length kvs \<and> fst (kvs ! ?p) = ?key then Some (snd (kvs ! ?p)) else None)"
      using map_of_lower_bound[OF db_items[OF db]] by (simp add: Let_def)
    show ?thesis
    proof (cases "?p < length kvs \<and> fst (kvs ! ?p) = ?key")
      case True
      then obtain w3 l a ks pre post where w3: "cursor_set_find w2 mc k MDB_SET True = Some (Inr (NODEPTR (w_mem w) a (cur_ki w3 mc)), w3)"
          "on_leaf valid less_key w t dbi kvs w3 mc l a ks pre post" "cur_ki w3 mc < length ks" "?p = length pre + cur_ki w3 mc"
        using f by (auto simp: finds_def Let_def)
      obtain d' w4 where 4: "mdb_cursor_set w2 mc (Some k) (Some d) MDB_SET True = Some (MDB_SUCCESS, Some k, Some d', w4)"
          "val_bytes (w_mem w) d' = snd (ks ! cur_ki w3 mc)" "on_leaf valid less_key w t dbi kvs w4 mc l a ks pre post"
        by (rule set_found[OF db w2(2) w3(1-3) sz]) auto
      have "kvs ! ?p = ks ! cur_ki w3 mc" using w3 by (simp add: on_leaf_def nth_append)
      then show ?thesis unfolding run using 4 look True by (auto simp: on_leaf_def)
    next
      case False
      then obtain w3 where w3: "cursor_set_find w2 mc k MDB_SET True = Some (Inl MDB_NOTFOUND, w3)" "cursor_rel valid less_key w t dbi kvs Lost w3 mc"
        using f by (auto simp: finds_def Let_def simp del: cursor_rel.simps)
      then have "mdb_cursor_set w2 mc (Some k) (Some d) MDB_SET True = Some (MDB_NOTFOUND, Some k, Some d, w3)"
        using sz by (subst mdb_cursor_set.simps) (simp add: rel_root(5)[OF w2(2)])
      then show ?thesis unfolding run using rel_root(1)[OF w3(2)] False by (simp add: look)
    qed
  qed
qed

lemma open_runs:
  assumes db: "db_holds valid less_key c w t dbi kvs" and v: "TXN_DBI_EXIST w t dbi DB_VALID" and ro: "mt_cursors (txn w t) = None"
    "F_ISSET (mt_flags (txn w t)) MDB_TXN_RDONLY" and ok: "w_ok w sizeof_cursor" and al: "spec_allows valid less_key kvs ops Unset"
  shows "\<exists>mc w1 w2. mdb_cursor_open w t dbi = Some (MDB_SUCCESS, mc, w1) \<and> cursor_run mc ops w1 = Some (spec_run less_key kvs ops Unset, w2) \<and> reads w w2"
proof -
  define w1 where "w1 = snd (new_cur (snd (new_cur w)))"
  define mc where "mc = fst (new_cur w)"
  define mx where "mx = fst (new_cur (snd (new_cur w)))"
  have "reads w w1" by (simp add: w1_def new_cur_def reads_def Let_def)
  then obtain w2 where w2: "mdb_cursor_init mc t dbi (Some mx) w1 = Some w2" "cursor_rel valid less_key w t dbi kvs Unset w2 mc"
      "mt_cursors (txn w2 t) = mt_cursors (txn w t)" by (rule fresh_cursor[OF db])
  have "mdb_cursor_open w t dbi = Some (MDB_SUCCESS, mc, w2)"
    using db v ro ok w2(1,3) by (simp add: mdb_cursor_open_def db_holds_def w1_def mc_def mx_def case_prod_unfold Let_def)
  then show ?thesis using cursor_run_refines[OF db w2(2) al] by blast
qed

end

subsection \<open>Whole scans\<close>

lemma scan_next:
  assumes "p < length kvs"
  shows "spec_run less_key kvs (replicate (length kvs - p) Next) (At p False) = map Some (drop (Suc p) kvs) @ [None] \<and>
    spec_allows valid less_key kvs (replicate (length kvs - p) Next) (At p False)"
  using assms
proof (induction "length kvs - p" arbitrary: p)
  case (Suc n)
  show ?case
  proof (cases "Suc p < length kvs")
    case True
    then have "length kvs - p = Suc (length kvs - Suc p)" "n = length kvs - Suc p" using Suc by simp_all
    then show ?thesis using Suc.hyps(1)[of "Suc p"] True by (simp add: goto_def Cons_nth_drop_Suc[symmetric])
  next
    case False
    then have "length kvs - p = Suc 0" using Suc by simp
    then show ?thesis using False by simp
  qed
qed simp

lemma scan_prev:
  assumes "p < length kvs"
  shows "spec_run less_key kvs (replicate (Suc p) Prev) (At p False) = map Some (rev (take p kvs)) @ [None] \<and>
    spec_allows valid less_key kvs (replicate (Suc p) Prev) (At p False)"
  using assms by (induction p) (simp_all add: goto_def take_Suc_conv_app_nth)

lemma scan_unset:
  "spec_run less_key kvs (replicate (Suc (length kvs)) Next) Unset = map Some kvs @ [None]"
  "spec_allows valid less_key kvs (replicate (Suc (length kvs)) Next) Unset"
  "spec_run less_key kvs (replicate (Suc (length kvs)) Prev) Unset = map Some (rev kvs) @ [None]"
  "spec_allows valid less_key kvs (replicate (Suc (length kvs)) Prev) Unset"
proof -
  have "kvs = [] \<or> 0 < length kvs \<and> Some (kvs ! 0) # map Some (drop (Suc 0) kvs) = map Some kvs" by (cases kvs) auto
  then show "spec_run less_key kvs (replicate (Suc (length kvs)) Next) Unset = map Some kvs @ [None]"
    "spec_allows valid less_key kvs (replicate (Suc (length kvs)) Next) Unset"
    using scan_next[of 0 kvs less_key valid] by (auto simp: goto_def)
  have "spec_run less_key kvs (replicate (Suc (length kvs)) Prev) Unset = map Some (rev kvs) @ [None] \<and>
    spec_allows valid less_key kvs (replicate (Suc (length kvs)) Prev) Unset"
  proof (cases "length kvs")
    case (Suc n)
    have "take (Suc n) kvs = kvs" using Suc by simp
    then have eq: "map Some (rev kvs) = Some (kvs ! n) # map Some (rev (take n kvs))"
      using arg_cong[OF take_Suc_conv_app_nth[of n kvs], of "\<lambda>xs. map Some (rev xs)"] Suc by simp
    show ?thesis using scan_prev[of n kvs less_key valid] Suc unfolding eq by (auto simp: goto_def)
  qed simp
  then show "spec_run less_key kvs (replicate (Suc (length kvs)) Prev) Unset = map Some (rev kvs) @ [None]"
    "spec_allows valid less_key kvs (replicate (Suc (length kvs)) Prev) Unset" by simp_all
qed

section \<open>What the read interface promises\<close>

text \<open>
  C7: \<open>mdb_get\<close> is the lookup of the items of the database. In a database without duplicates whose pages form a tree
  with the items \<open>kvs\<close>, under any of the comparisons that order the keys, it returns: with \<open>MDB_SUCCESS\<close> and the value
  that \<open>kvs\<close> has for the key, or with \<open>MDB_NOTFOUND\<close> when there is none; pages, environment and transactions
  are unchanged.
\<close>

theorem mdb_get_lookup:
  assumes "key_order c valid less_key" and "db_holds valid less_key c w t dbi kvs" and "valid (val_bytes (w_mem w) k)" and "mv_size k \<noteq> 0"
  shows "\<exists>rc d' w'. mdb_get w t dbi (Some k) (Some d) = Some (rc, Some k, Some d', w') \<and> reads w w' \<and>
     (case map_of kvs (val_bytes (w_mem w) k) of None \<Rightarrow> rc = MDB_NOTFOUND | Some v \<Rightarrow> rc = MDB_SUCCESS \<and> val_bytes (w_mem w) d' = v)"
  by (rule key_order.get_runs[OF assms])

theorem mdb_get_lookup_witness:
  "\<exists>rc d' w'. mdb_get demo 0 MAIN_DBI (Some (val_of [99])) (Some nil_val) = Some (rc, Some (val_of [99]), Some d', w') \<and>
    rc = MDB_SUCCESS \<and> val_bytes (w_mem demo) d' = [3]"
  using mdb_get_lookup[OF ord_memn.key_order_axioms demo_holds, of "val_of [99]" nil_val] by (simp add: demo_items_def) blast

text \<open>
  C3: A cursor refines a position in the list of items. A cursor opened in a read-only transaction answers any sequence
  of \<open>mdb_cursor_get\<close> calls with \<open>MDB_FIRST\<close>, \<open>MDB_LAST\<close>, \<open>MDB_NEXT\<close>, \<open>MDB_PREV\<close>, \<open>MDB_GET_CURRENT\<close>, \<open>MDB_SET_KEY\<close> and
  \<open>MDB_SET_RANGE\<close> as \<open>cursor_step\<close> does on the list: \<open>MDB_SET_RANGE\<close> goes to the first key not less than the given
  one, across pages too. Every call returns. After a failed search the cursor must be positioned again before it
  moves, and \<open>MDB_GET_CURRENT\<close> is asked only of a cursor that has a position.
\<close>

theorem cursor_refines_position:
  assumes "key_order c valid less_key" and "db_holds valid less_key c w t dbi kvs" and "TXN_DBI_EXIST w t dbi DB_VALID"
    and "mt_cursors (txn w t) = None" and "F_ISSET (mt_flags (txn w t)) MDB_TXN_RDONLY" and "w_ok w sizeof_cursor"
    and "spec_allows valid less_key kvs ops Unset"
  shows "\<exists>mc w1 w2. mdb_cursor_open w t dbi = Some (MDB_SUCCESS, mc, w1) \<and>
    cursor_run mc ops w1 = Some (spec_run less_key kvs ops Unset, w2) \<and> reads w w2"
  by (rule key_order.open_runs[OF assms])

lemma demo_open: "TXN_DBI_EXIST demo 0 MAIN_DBI DB_VALID" "mt_cursors (txn demo 0) = None" "F_ISSET (mt_flags (txn demo 0)) MDB_TXN_RDONLY"
  "w_ok demo sizeof_cursor"
  by (simp_all add: TXN_DBI_EXIST_def demo_txn_def F_ISSET_def)

theorem cursor_refines_position_witness:
  "\<exists>mc w1 w2. mdb_cursor_open demo 0 MAIN_DBI = Some (MDB_SUCCESS, mc, w1) \<and>
    cursor_run mc [Set_range [98, 1], Next, Next, Prev, Set_key [97], Prev] w1 =
      Some ([Some ([99], [3]), Some ([100], [4]), None, Some ([99], [3]), Some ([97], [1]), None], w2)"
  using cursor_refines_position[OF ord_memn.key_order_axioms demo_holds demo_open, of "[Set_range [98, 1], Next, Next, Prev, Set_key [97], Prev]"]
  by (auto simp: demo_items_def goto_def lower_bound_def)

text \<open>
  C12: A scan with \<open>MDB_NEXT\<close> from a new cursor returns every item once, in key order, and then \<open>MDB_NOTFOUND\<close>.
\<close>

theorem scan_forward_complete:
  assumes "key_order c valid less_key" and "db_holds valid less_key c w t dbi kvs" and "TXN_DBI_EXIST w t dbi DB_VALID"
    and "mt_cursors (txn w t) = None" and "F_ISSET (mt_flags (txn w t)) MDB_TXN_RDONLY" and "w_ok w sizeof_cursor"
  shows "\<exists>mc w1 w2. mdb_cursor_open w t dbi = Some (MDB_SUCCESS, mc, w1) \<and>
    cursor_run mc (replicate (Suc (length kvs)) Next) w1 = Some (map Some kvs @ [None], w2) \<and> sorted_wrt less_key (map fst kvs)"
  using key_order.open_runs[OF assms scan_unset(2)] key_order.db_items(1)[OF assms(1,2)] unfolding scan_unset(1) by blast

theorem scan_forward_complete_witness:
  "\<exists>mc w1 w2. mdb_cursor_open demo 0 MAIN_DBI = Some (MDB_SUCCESS, mc, w1) \<and>
    cursor_run mc (replicate 5 Next) w1 = Some ([Some ([97], [1]), Some ([98], [2]), Some ([99], [3]), Some ([100], [4]), None], w2)"
  using scan_forward_complete[OF ord_memn.key_order_axioms demo_holds demo_open] by (simp add: demo_items_def numeral_eq_Suc del: cursor_run.simps) blast

text \<open>C13: A scan with \<open>MDB_PREV\<close> from a new cursor returns every item once, in the reverse of the key order, and then \<open>MDB_NOTFOUND\<close>.\<close>

theorem scan_backward_complete:
  assumes "key_order c valid less_key" and "db_holds valid less_key c w t dbi kvs" and "TXN_DBI_EXIST w t dbi DB_VALID"
    and "mt_cursors (txn w t) = None" and "F_ISSET (mt_flags (txn w t)) MDB_TXN_RDONLY" and "w_ok w sizeof_cursor"
  shows "\<exists>mc w1 w2. mdb_cursor_open w t dbi = Some (MDB_SUCCESS, mc, w1) \<and>
    cursor_run mc (replicate (Suc (length kvs)) Prev) w1 = Some (map Some (rev kvs) @ [None], w2)"
  using key_order.open_runs[OF assms scan_unset(4)] unfolding scan_unset(3) by blast

theorem scan_backward_complete_witness:
  "\<exists>mc w1 w2. mdb_cursor_open demo 0 MAIN_DBI = Some (MDB_SUCCESS, mc, w1) \<and>
    cursor_run mc (replicate 5 Prev) w1 = Some ([Some ([100], [4]), Some ([99], [3]), Some ([98], [2]), Some ([97], [1]), None], w2)"
  using scan_backward_complete[OF ord_memn.key_order_axioms demo_holds demo_open] by (simp add: demo_items_def numeral_eq_Suc del: cursor_run.simps)

end
