(* ===== verification/Put_Spec.thy ===== *)
theory Put_Spec
  imports Tree_Update Put Page_Spec Cursor_Spec
begin

text \<open>
  What \<open>mdb_put\<close> does to a database.
\<close>

section \<open>Finding the place of a key\<close>

text \<open>\<open>at_key\<close>: the cursor is on the leaf where the key belongs, at the first item that is not less.\<close>

definition at_key ::
  "(bytes \<Rightarrow> bool) \<Rightarrow> (bytes \<Rightarrow> bytes \<Rightarrow> bool) \<Rightarrow> world \<Rightarrow> nat \<Rightarrow> nat \<Rightarrow> (bytes \<times> bytes) list \<Rightarrow> bytes \<Rightarrow> world \<Rightarrow> nat \<Rightarrow> nat \<Rightarrow> addr \<Rightarrow>
   (bytes \<times> bytes) list \<Rightarrow> (bytes \<times> bytes) list \<Rightarrow> (bytes \<times> bytes) list \<Rightarrow> bool" where
  "at_key valid less_key w t dbi kvs key w1 mc l a ks pre post \<longleftrightarrow>
     on_leaf valid less_key w t dbi kvs w1 mc l a ks pre post \<and> around less_key key pre post \<and>
     (\<forall>i < l. routed less_key key (w_mem w) (mc_pg (cur w1 mc) i) (mc_ki (cur w1 mc) i)) \<and>
     page_at w t (md_root (mt_dbs (txn w t) dbi)) (mc_pg (cur w1 mc) 0) \<and> mc_flags (cur w1 mc) = C_INITIALIZED \<and>
     cur_ki w1 mc \<le> length ks \<and> (\<forall>j < cur_ki w1 mc. less_key (fst (ks ! j)) key) \<and>
     (\<forall>j. cur_ki w1 mc \<le> j \<and> j < length ks \<longrightarrow> \<not> less_key (fst (ks ! j)) key)"

context key_order
begin

lemma set_search_key:
  assumes db: "db_holds valid less_key c w t dbi kvs" and ne: "kvs \<noteq> []" and r: "reads w w1" and on: "on_db w1 mc t dbi"
    and pg: "mc_pg (cur w1 mc) 0 = 0" and fl: "mc_flags (cur w1 mc) = 0" and k: "val_bytes (w_mem w) k = key" and key: "valid key"
  obtains w2 l a ks pre post where "set_search w1 mc k True =
      Some (if cur_ki w2 mc < length ks \<and> fst (ks ! cur_ki w2 mc) = key then Inr (NODEPTR (w_mem w) a (cur_ki w2 mc)) else Inl MDB_NOTFOUND, w2)"
    and "moves mc w1 w2" and "at_key valid less_key w t dbi kvs key w2 mc l a ks pre post"
proof -
  obtain w2 a h where s: "page_search_gen no_touch w1 mc (Some k) 0 = page_search_root_gen no_touch w2 mc a (Some k) 0" "moves mc w1 w2"
      "at_level w2 mc t 0" "path valid less_key w t (cur w2 mc) 0 h a kvs [] []" "h < CURSOR_STACK" "mc_flags (cur w2 mc) = mc_flags (cur w1 mc)"
      "page_at w t (md_root (mt_dbs (txn w t) dbi)) a"
    by (rule search_from_root[OF db r on _ ne, of 0 no_touch "Some k"]) (simp_all add: pg)
  have r2: "reads w w2" using reads_trans[OF r moves_reads[OF s(2)]] .
  have on2: "on_db w2 mc t dbi" using on on_db_moves[OF s(2)] by simp
  have cmp: "md_cmp (get_dbx w2 mc) = Some c" using db on_db_access(2)[OF on2 r2] by (simp add: db_holds_def)
  have depth: "0 + h < CURSOR_STACK" and key': "valid (val_bytes (w_mem w) k)" and ar: "around less_key (val_bytes (w_mem w) k) [] []"
    using s(5) key k by (simp_all add: around_def)
  obtain w3 b ks pre post where 3: "page_search_root_gen no_touch w2 mc a (Some k) 0 = Some (MDB_SUCCESS, w3)" "moves mc w2 w3" "at_level w3 mc t h"
     "path valid less_key w t (cur w3 mc) h 0 b ks pre post" "around less_key key pre post" "pre @ ks @ post = kvs"
     "mc_flags (cur w3 mc) = (mc_flags (cur w2 mc) OR C_INITIALIZED) AND NOT C_EOF"
     "\<forall>i < h. routed less_key key (w_mem w) (mc_pg (cur w3 mc) i) (mc_ki (cur w3 mc) i)" "mc_pg (cur w3 mc) 0 = mc_pg (cur w2 mc) 0"
    using search_key_route[OF s(4) ar r2 s(3) depth cmp key', of no_touch] k by auto
  have f3: "mc_flags (cur w3 mc) = C_INITIALIZED" using 3(7) s(6) fl by simp
  have on3: "on_leaf valid less_key w t dbi kvs w3 mc h b ks pre post"
    using 3 s(5) reads_trans[OF r2 moves_reads[OF 3(2)]] on_db_moves[OF 3(2)] on2 f3 by (simp add: on_leaf_def)
  note pg3 = on_leaf_page[OF on3]
  let ?m = "w_mem w" and ?n = "length ks"
  have lf: "IS_LEAF ?m b" "\<not> IS_BRANCH ?m b" "\<not> IS_LEAF2 ?m b" "NUMKEYS ?m b = ?n" "?n < 65536" "0 < ?n"
    "keys_ordered valid less_key (node_key ?m b 0) (first_slot ?m b) (NUMKEYS ?m b)"
    and nk: "\<And>i. i < ?n \<Longrightarrow> node_key ?m b 0 i = fst (ks ! i)"
    using pg3(1) by (auto simp: leaf_page_def first_slot_def)
  obtain i where i: "page_search_key ?m b c (unat (md_pad (get_db w3 mc))) key =
      Some (if i < ?n then Some (NODEPTR ?m b i) else None, i < ?n \<and> node_key ?m b 0 i = key, i)"
      "key_pos less_key (node_key ?m b 0) 0 ?n key i"
    using page_position[OF lf(7,3) _ key, of "unat (md_pad (get_db w3 mc))"] lf(1,2,4) by (auto simp: first_slot_def)
  let ?w = "set_ki mc i w3"
  have search: "mdb_node_search w3 mc k = Some (if i < ?n then Some (NODEPTR ?m b i) else None, i < ?n \<and> node_key ?m b 0 i = key, ?w)"
    using i(1) db by (simp add: mdb_node_search_def pg3 k db_holds_def)
  have b: "i \<le> ?n" "\<forall>j < i. less_key (fst (ks ! j)) key" "\<forall>j. i \<le> j \<and> j < ?n \<longrightarrow> \<not> less_key (fst (ks ! j)) key"
    using i(2) nk by (auto simp: key_pos_def)
  have ki: "cur_ki ?w mc = i" using b(1) lf(5) by (simp add: cur_ki_def set_ki_def)
  have lv: "mc_top (cur w3 mc) = h" using 3(3) by (simp add: at_level_def)
  have "set_search w1 mc k True = cursor_set2 w3 mc k True"
    using s(1) 3(1) pg3(1-3) by (simp add: set_search_def leaf_page_def)
  then have "set_search w1 mc k True =
      Some (if cur_ki ?w mc < length ks \<and> fst (ks ! cur_ki ?w mc) = key then Inr (NODEPTR (w_mem w) b (cur_ki ?w mc)) else Inl MDB_NOTFOUND, ?w)"
    using nk by (auto simp: cursor_set2_def search ki)
  moreover have "at_key valid less_key w t dbi kvs key ?w mc h b ks pre post"
    unfolding at_key_def ki using on_leaf_steps(1)[OF on3] 3(5,8,9) b s(7) path_page[OF s(4)] f3 lv by (simp add: set_ki_def)
  ultimately show ?thesis using that moves_trans[OF s(2) moves_trans[OF 3(2) moves_steps(1)]] by blast
qed

lemma position_new:
  assumes db: "db_holds valid less_key c w t dbi kvs" and ne: "kvs \<noteq> []" and r: "reads w w1" and on: "on_db w1 mc t dbi"
    and pg: "mc_pg (cur w1 mc) 0 = 0" and fl: "mc_flags (cur w1 mc) = 0" and k: "val_bytes (w_mem w) k = key" and key: "valid key"
    and sz: "mv_size k \<noteq> 0" and new: "key \<notin> fst ` set kvs"
  obtains w2 l a ks pre post where "put_position w1 mc k d 0 = Some (False, MDB_NOTFOUND, d, w2)"
    and "moves mc w1 w2" and "at_key valid less_key w t dbi kvs key w2 mc l a ks pre post"
proof -
  have upd: "upd_cur mc (\<lambda>c. c\<lparr>mc_pg := (mc_pg c)(0 := 0)\<rparr>) w1 = w1" using pg by (intro upd_cur_id) (simp add: fun_upd_idem)
  obtain w2 l a ks pre post where s: "set_search w1 mc k True =
      Some (if cur_ki w2 mc < length ks \<and> fst (ks ! cur_ki w2 mc) = key then Inr (NODEPTR (w_mem w) a (cur_ki w2 mc)) else Inl MDB_NOTFOUND, w2)"
      "moves mc w1 w2" "at_key valid less_key w t dbi kvs key w2 mc l a ks pre post"
    by (rule set_search_key[OF db ne r on pg fl k key])
  have "kvs = pre @ ks @ post" using s(3) by (simp add: at_key_def on_leaf_def)
  then have "\<not> (cur_ki w2 mc < length ks \<and> fst (ks ! cur_ki w2 mc) = key)" using new by force
  then have "cursor_set_find w1 mc k MDB_SET True = Some (Inl MDB_NOTFOUND, w2)"
    using s(1) fl by (simp add: cursor_set_find_def upd)
  then have "mdb_cursor_set w1 mc (Some k) (Some Put.no_val) MDB_SET True = Some (MDB_NOTFOUND, Some k, Some Put.no_val, w2)"
    using sz by (subst mdb_cursor_set.simps) (simp add: on_db_access(4)[OF on r])
  moreover have "md_root (get_db w1 mc) \<noteq> P_INVALID" using db ne by (auto simp: db_holds_def on_db_access(1)[OF on r] split: if_splits)
  ultimately have "put_position w1 mc k d 0 = Some (False, MDB_NOTFOUND, d, w2)" by (simp add: put_position_def)
  then show ?thesis using that s(2,3) by blast
qed

end

section \<open>Pages that are writable already\<close>

lemma touch_path_dirty:
  assumes "\<forall>i. mc_top (cur w mc) \<le> i \<and> i < mc_top (cur w mc) + k \<longrightarrow> F_ISSET (mp_flags (w_mem w) (mc_pg (cur w mc) i)) P_DIRTY"
    and "mt_parent (txn w (mc_txn (cur w mc))) = None"
  shows "touch_path w mc k = Some (0, upd_cur mc (\<lambda>c. c\<lparr>mc_top := mc_top c + k\<rparr>) w)"
  using assms
proof (induction k arbitrary: w)
  case 0
  then show ?case by (simp add: upd_cur_id)
next
  case (Suc k)
  let ?w = "upd_cur mc (\<lambda>c. c\<lparr>mc_top := mc_top c + 1\<rparr>) w"
  have "mdb_page_touch w mc = Some (0, w)" using Suc.prems by (simp add: mdb_page_touch_def cur_pg_def)
  moreover have "touch_path ?w mc k = Some (0, upd_cur mc (\<lambda>c. c\<lparr>mc_top := mc_top c + k\<rparr>) ?w)"
    by (rule Suc.IH) (use Suc.prems in auto)
  ultimately show ?case by (simp add: upd_cur_upd_cur)
qed

lemma cursor_touch_dirty:
  assumes lv: "at_level w mc t l" and dirty: "\<forall>i \<le> l. F_ISSET (mp_flags (w_mem w) (mc_pg (cur w mc) i)) P_DIRTY"
    and top: "mt_parent (txn w t) = None" and db: "mc_dbi (cur w mc) < CORE_DBS \<or> get_dbflag w mc AND DB_DIRTY \<noteq> 0"
  shows "mdb_cursor_touch w mc = Some (MDB_SUCCESS, w)"
proof -
  have l: "mc_txn (cur w mc) = t" "mc_snum (cur w mc) = Suc l" "mc_top (cur w mc) = l" using lv by (simp_all add: at_level_def)
  let ?w = "upd_cur mc (\<lambda>c. c\<lparr>mc_top := 0\<rparr>) w"
  have "touch_path ?w mc (Suc l) = Some (0, upd_cur mc (\<lambda>c. c\<lparr>mc_top := mc_top c + Suc l\<rparr>) ?w)"
    using dirty top l by (intro touch_path_dirty) simp_all
  moreover have c: "\<not> (mc_dbi (cur w mc) \<ge> CORE_DBS \<and> get_dbflag w mc AND DB_DIRTY = 0)" using db by auto
  ultimately have "mdb_cursor_touch w mc = Some (0, upd_cur mc (\<lambda>c. c\<lparr>mc_top := mc_snum c - 1\<rparr>) (upd_cur mc (\<lambda>c. c\<lparr>mc_top := mc_top c + Suc l\<rparr>) ?w))"
    unfolding mdb_cursor_touch_def if_not_P[OF c] using l by (simp del: touch_path.simps)
  moreover have "upd_cur mc (\<lambda>c. c\<lparr>mc_top := mc_snum c - 1\<rparr>) (upd_cur mc (\<lambda>c. c\<lparr>mc_top := mc_top c + Suc l\<rparr>) ?w) = w"
    unfolding upd_cur_upd_cur by (rule upd_cur_id) (use l in simp)
  ultimately show ?thesis by simp
qed

section \<open>Storing a new item in a leaf with room\<close>

text \<open>The other cursors of the database are no sub-cursors and have none: only their indices change.\<close>

lemma put_fix_reads:
  assumes "mc_xcursor (cur w m3) = None"
  obtains w' where "put_fix mc mp ins m2 m3 w = Some w'" and "reads w w'" and "cur w' mc = cur w mc"
    and "\<forall>m. mc_xcursor (cur w' m) = mc_xcursor (cur w m)"
proof (cases "m3 = mc \<or> mc_snum (cur w m3) < mc_snum (cur w mc) \<or> mc_pg (cur w m3) (mc_top (cur w mc)) \<noteq> mp")
  case True
  then show ?thesis using that[of w] by (auto simp: put_fix_def Let_def)
next
  case False
  let ?w = "if mc_ki (cur w m3) (mc_top (cur w mc)) \<ge> mc_ki (cur w mc) (mc_top (cur w mc)) \<and> ins then inc_ki m3 (mc_top (cur w mc)) w else w"
  have "mc_xcursor (cur ?w m3) = None" using assms by (simp add: inc_ki_def set_ki_at_def)
  then have "put_fix mc mp ins m2 m3 w = Some ?w" using False by (simp add: put_fix_def Let_def fix_xcursor_def)
  moreover have "reads w ?w" "cur ?w mc = cur w mc" "\<forall>m. mc_xcursor (cur ?w m) = mc_xcursor (cur w m)"
    using False by (auto simp: inc_ki_def set_ki_at_def)
  ultimately show ?thesis by (rule that)
qed

lemma each_put_fix:
  assumes "\<forall>m \<in> set ms. mc_xcursor (cur w m) = None"
  shows "\<exists>w'. each_cursor (put_fix mc mp ins) False ms w = Some w' \<and> reads w w' \<and> cur w' mc = cur w mc"
  using assms
proof (induction ms arbitrary: w)
  case (Cons m ms)
  obtain w1 where 1: "put_fix mc mp ins m m w = Some w1" "reads w w1" "cur w1 mc = cur w mc" "\<forall>m. mc_xcursor (cur w1 m) = mc_xcursor (cur w m)"
    by (rule put_fix_reads[of w m mc mp ins m]) (use Cons.prems in auto)
  obtain w2 where "each_cursor (put_fix mc mp ins) False ms w1 = Some w2" "reads w1 w2" "cur w2 mc = cur w1 mc"
    using Cons.IH[of w1] Cons.prems 1(4) by auto
  then show ?case using 1 reads_trans by auto
qed simp

abbreviation (input) insert_state :: put_state where
  "insert_state \<equiv> \<lparr>ps_flags = 0, ps_insert_key = True, ps_do_sub = False, ps_sub_root = 0, ps_dkey = Put.no_val, ps_dcount = 0, ps_mcount = 0\<rparr>"

lemma put_begin_new:
  assumes "put_position w1 mc k d 0 = Some (False, MDB_NOTFOUND, d, w2)" and "mc_flags (cur w2 mc) = C_INITIALIZED"
    and "mt_dirty_room (txn w2 (mc_txn (cur w2 mc))) > spill_estimate w2 mc (Some (k, d))" and "mdb_cursor_touch w2 mc = Some (MDB_SUCCESS, w2)"
    and "0 < mv_size k" "mv_size k \<le> MDB_MAXKEYSIZE" "mv_size d \<le> MAXDATASIZE"
    and "md_flags (get_db w1 mc) AND MDB_DUPSORT = 0" "md_flags (get_db w2 mc) AND MDB_DUPSORT = 0"
    and "mt_flags (txn w1 (mc_txn (cur w1 mc))) AND (MDB_TXN_RDONLY OR MDB_TXN_BLOCKED) = 0"
  shows "put_begin w1 mc k d 0 0 = Some (Put_node True d, insert_state, d, w2)"
  using assms by (simp add: put_begin_def clear_del_def mdb_page_spill_def put_insert_def Let_def)

lemma EVEN_add_2: "EVEN (n + 2) = EVEN n + 2"
  by (simp add: EVEN_def)

lemma put_node_new:
  assumes wf: "page_wf psz (w_mem w) a" and leaf: "IS_LEAF (w_mem w) a" "\<not> IS_LEAF2 (w_mem w) a" and a: "cur_pg w mc = a"
    and i: "cur_ki w mc \<le> NUMKEYS (w_mem w) a" and kd: "val_apart a (a + psz) k" "val_apart a (a + psz) d"
    and fit: "LEAFSIZE k d \<le> me_nodemax (w_env w)" and room: "EVEN (LEAFSIZE k d) + 2 \<le> unat (SIZELEFT (w_mem w) a)"
    and cs: "mt_cursors (txn w (mc_txn (cur w mc))) = Some cs" "\<forall>m \<in> set (cs (mc_dbi (cur w mc))). mc_xcursor (cur w m) = None" and fl: "mc_flags (cur w mc) AND C_SUB = 0"
  obtains m' w' where "put_node w mc k d insert_state = Some (MDB_SUCCESS, d, w')" and "reads (upd_mem (\<lambda>_. m') w) w'" and "cur w' mc = cur w mc"
    and "page_wf psz m' a" and "same_outside a (a + psz) (w_mem w) m'" and "mp_flags m' a = mp_flags (w_mem w) a"
    and "page_nodes m' a = take (cur_ki w mc) (page_nodes (w_mem w) a) @
          leaf_node 0 (val_bytes (w_mem w) k) (mv_size d) (val_bytes (w_mem w) d) # drop (cur_ki w mc) (page_nodes (w_mem w) a)"
proof -
  have sz: "8 + mv_size k + mv_size d = LEAFSIZE k d" by (simp add: LEAFSIZE_def)
  obtain m' where m': "mdb_node_add w mc (cur_ki w mc) (Some k) (Some d) 0 0 = Some (MDB_SUCCESS, Some d, upd_mem (\<lambda>_. m') w)"
    and f: "page_wf psz m' a" "same_outside a (a + psz) (w_mem w) m'" "mp_flags m' a = mp_flags (w_mem w) a"
      "page_nodes m' a = take (cur_ki w mc) (page_nodes (w_mem w) a) @
          leaf_node 0 (val_bytes (w_mem w) k) (mv_size d) (val_bytes (w_mem w) d) # drop (cur_ki w mc) (page_nodes (w_mem w) a)"
    using node_add_leaf_run[of psz w mc "cur_ki w mc" k d 0 "EVEN (LEAFSIZE k d)" 0] wf leaf i kd fit room
    by (auto simp: a sz F_ISSET_def)
  have "\<not> unat (SIZELEFT (w_mem w) a) < mdb_leaf_size (me_nodemax (w_env w)) k d"
    using fit room EVEN_add_2[of "LEAFSIZE k d"] by (simp add: mdb_leaf_size_def Let_def)
  moreover obtain w' where "for_cursors mc (put_fix mc a True) (upd_mem (\<lambda>_. m') w) = Some w'"
    and w': "reads (upd_mem (\<lambda>_. m') w) w'" "cur w' mc = cur w mc"
    using each_put_fix[of "cs (mc_dbi (cur w mc))" "upd_mem (\<lambda>_. m') w" mc a True] cs fl by (auto simp: for_cursors_def)
  ultimately have "put_node w mc k d insert_state = Some (MDB_SUCCESS, d, w')"
    using m' leaf by (simp add: put_node_def a Let_def)
  then show ?thesis using that w' f by blast
qed

lemma cursor_put_new:
  assumes "put_begin w1 mc k d 0 0 = Some (Put_node True d, insert_state, d, w2)" and "put_node w2 mc k d insert_state = Some (MDB_SUCCESS, d, w3)"
  shows "mdb_cursor_put w1 (Some mc) (Some k) d 0 0 =
    Some (MDB_SUCCESS, d, 0, cur_or mc C_INITIALIZED (upd_db mc (\<lambda>d. d\<lparr>md_entries := md_entries d + 1\<rparr>) w3))"
  using assms by (simp add: mdb_cursor_put_def, subst cursor_put_from.simps) simp

text \<open>The pages and the cursor of \<open>mdb_put\<close> before it stores.\<close>

definition put_need :: "world \<Rightarrow> nat \<Rightarrow> nat \<Rightarrow> MDB_val \<Rightarrow> MDB_val \<Rightarrow> nat" where
  "put_need w t dbi k d = 2 * (unat (md_depth (mt_dbs (txn w t) dbi)) +
     (if dbi \<ge> CORE_DBS then unat (md_depth (mt_dbs (txn w t) MAIN_DBI)) else 0) + (LEAFSIZE k d + me_psize (w_env w)) div me_psize (w_env w))"

lemma spill_estimate_need:
  assumes "on_db w1 mc t dbi" and "reads w w1"
  shows "spill_estimate w1 mc (Some (k, d)) = put_need w t dbi k d"
  using assms on_db_access(1)[OF assms] reads_txn[OF assms(2)]
  by (simp add: spill_estimate_def put_need_def Let_def on_db_def reads_def)

lemma put_start:
  assumes db: "db_holds valid less_key c w t dbi kvs" and cs: "mt_cursors (txn w t) = Some cs"
    and tf: "mt_flags (txn w t) AND (MDB_TXN_RDONLY OR MDB_TXN_BLOCKED) = 0"
  obtains mc w0 where "mdb_put w t dbi (Some k) (Some d) 0 =
      do { (rc, d, _, w) \<leftarrow> mdb_cursor_put w0 (Some mc) (Some k) d 0 0; w \<leftarrow> untrack_cursor t dbi w; Some (rc, Some d, w) }"
    and "w_mem w0 = w_mem w" and "w_env w0 = w_env w" and "txn w0 t = (txn w t)\<lparr>mt_cursors := Some (cs(dbi := mc # cs dbi))\<rparr>"
    and "same_view w w0"
    and "on_db w0 mc t dbi" and "mc_flags (cur w0 mc) = 0" and "mc_pg (cur w0 mc) 0 = 0" and "\<forall>m. m \<noteq> mc \<longrightarrow> cur w0 m = cur w m"
proof -
  define mc where "mc = fst (new_cur w)"
  define mx where "mx = fst (new_cur (snd (new_cur w)))"
  define wa where "wa = snd (new_cur (snd (new_cur w)))"
  have wa: "txn wa u = txn w u" "cur wa m = cur w m" "w_mem wa = w_mem w" "w_env wa = w_env w" for u m
    by (simp_all add: wa_def new_cur_def txn_def cur_def)
  let ?f = "\<lambda>c. c\<lparr>mc_backup := None, mc_dbi := dbi, mc_txn := t, mc_dbsrc := None, mc_snum := 0,
                mc_top := 0, mc_pg := (mc_pg c)(0 := 0), mc_ki := (mc_ki c)(0 := 0), mc_flags := 0, mc_xcursor := None\<rparr>"
  define w0 where "w0 = upd_txn t (\<lambda>x. x\<lparr>mt_cursors := Some (cs(dbi := mc # cs dbi))\<rparr>) (upd_cur mc ?f wa)"
  have dbf: "TXN_DBI_EXIST w t dbi DB_USRVALID" "md_flags (mt_dbs (txn w t) dbi) AND MDB_DUPSORT = 0" "mt_dbflags (txn w t) dbi AND DB_STALE = 0"
    using db by (simp_all add: db_holds_def)
  have init: "cursor_init_gen mdb_page_touch mc t dbi mx wa = Some (upd_cur mc ?f wa)" for mx
    using dbf by (simp add: cursor_init_gen_def cursor_init_fields_def Let_def get_dbflag_def upd_cur_upd_cur wa)
  have "link_cursor t dbi mc (upd_cur mc ?f wa) = Some w0" using cs by (simp add: link_cursor_def w0_def wa)
  then have run: "mdb_put w t dbi (Some k) (Some d) 0 =
      do { (rc, d, _, w) \<leftarrow> mdb_cursor_put w0 (Some mc) (Some k) d 0 0; w \<leftarrow> untrack_cursor t dbi w; Some (rc, Some d, w) }"
    using tf dbf(1) init[of "Some mx"]
    by (simp add: mdb_put_def case_prod_unfold wa_def[symmetric] mc_def[symmetric] mx_def[symmetric] Let_def)
  show ?thesis by (rule that[OF run]) (auto simp: w0_def wa on_db_def same_view_def)
qed

section \<open>The tree with the new item\<close>

definition insert_item :: "(bytes \<Rightarrow> bytes \<Rightarrow> bool) \<Rightarrow> bytes \<Rightarrow> bytes \<Rightarrow> (bytes \<times> bytes) list \<Rightarrow> (bytes \<times> bytes) list" where
  "insert_item less_key key v kvs = take (lower_bound less_key kvs key) kvs @ (key, v) # drop (lower_bound less_key kvs key) kvs"

context key_order
begin

lemma at_key_insert:
  assumes at: "at_key valid less_key w t dbi kvs key w1 mc l a ks pre post" and key: "valid key"
  shows "insert_item less_key key v kvs = pre @ (take (cur_ki w1 mc) ks @ (key, v) # drop (cur_ki w1 mc) ks) @ post"
proof -
  let ?i = "cur_ki w1 mc"
  have on: "on_leaf valid less_key w t dbi kvs w1 mc l a ks pre post" and ar: "around less_key key pre post" and i: "?i \<le> length ks"
    "\<forall>j < ?i. less_key (fst (ks ! j)) key" "\<forall>j. ?i \<le> j \<and> j < length ks \<longrightarrow> \<not> less_key (fst (ks ! j)) key"
    using at by (simp_all add: at_key_def)
  note kv = on_leaf_items[OF on]
  have "\<not> less_key (fst x) key" if "x \<in> set post" for x
    using ar that less_asym[OF key kv(2)[of x]] kv(3) by (cases x) (auto simp: around_def)
  moreover have "less_key (fst x) key" if "x \<in> set pre" for x using ar that by (cases x) (auto simp: around_def)
  ultimately have "lower_bound less_key kvs key = length pre + ?i"
    by (intro lower_bound_split[OF kv(3) i(1)]) (use i in auto)
  then show ?thesis using kv(3) i(1) by (simp add: insert_item_def)
qed

lemma tree_after_put:
  assumes at: "at_key valid less_key w t dbi kvs key w1 mc l a ks pre post" and new: "key \<notin> fst ` set kvs" and key: "valid key"
    and ap: "apart psz w t (mc_pg (cur w1 mc) 0)" and vw: "same_view w w'" and wf: "page_wf psz (w_mem w') a"
    and out: "same_outside a (a + psz) (w_mem w) (w_mem w')" and fl: "mp_flags (w_mem w') a = mp_flags (w_mem w) a"
    and nodes: "page_nodes (w_mem w') a = take (cur_ki w1 mc) (page_nodes (w_mem w) a) @ leaf_node 0 key n v # drop (cur_ki w1 mc) (page_nodes (w_mem w) a)"
  shows "tree valid less_key w' t l (mc_pg (cur w1 mc) 0) (insert_item less_key key v kvs)" "apart psz w' t (mc_pg (cur w1 mc) 0)"
    "tree_page w t (mc_pg (cur w1 mc) 0) a"
proof -
  let ?i = "cur_ki w1 mc" and ?root = "mc_pg (cur w1 mc) 0"
  have on: "on_leaf valid less_key w t dbi kvs w1 mc l a ks pre post" and i: "?i \<le> length ks" "\<forall>j < ?i. less_key (fst (ks ! j)) key"
    "\<forall>j. ?i \<le> j \<and> j < length ks \<longrightarrow> \<not> less_key (fst (ks ! j)) key"
    and rt: "\<forall>j < l. routed less_key key (w_mem w) (mc_pg (cur w1 mc) j) (mc_ki (cur w1 mc) j)"
    using at by (simp_all add: at_key_def)
  have path: "path valid less_key w t (cur w1 mc) l 0 a ks pre post" using on by (simp add: on_leaf_def)
  note leaf = on_leaf_page(1)[OF on] and kv = on_leaf_items[OF on]
  have branch: "\<not> IS_BRANCH (w_mem w) a" "length ks = NUMKEYS (w_mem w) a" using leaf by (simp_all add: leaf_page_def)
  show a: "tree_page w t ?root a" by (rule path_tree_page[OF path])
  note sp = apart_spared[OF ap a vw out]
  have plain: "node_item w' t (leaf_node 0 key n v) v" by (simp add: node_item_def leaf_node_def F_ISSET_def)
  have "less_key key (fst (ks ! j))" if "?i \<le> j" "j < length ks" for j
  proof -
    have "ks ! j \<in> set kvs" using that(2) kv(3) by simp
    then show ?thesis using i(3) that total[OF key kv(2)] new by (metis image_eqI)
  qed
  moreover have "Suc (length ks) = NUMKEYS (w_mem w') a" using arg_cong[OF nodes, of length] branch i(1) by simp
  moreover have "NUMKEYS (w_mem w') a < 65536" using page_wfD(2-4)[OF wf] by linarith
  ultimately have "leaf_page valid less_key w' t a (take ?i ks @ (key, v) # drop ?i ks)"
    using i(1,2) key plain by (intro leaf_insert[OF leaf sp a nodes fl]) (simp_all add: leaf_node_def)
  then have "tree valid less_key w' t 0 a (take ?i ks @ (key, v) # drop ?i ks)" by (rule tree.leaf)
  moreover have "\<forall>kv \<in> set (take ?i ks @ (key, v) # drop ?i ks). \<forall>j < l. routed less_key (fst kv) (w_mem w) (mc_pg (cur w1 mc) j) (mc_ki (cur w1 mc) j)"
    using path_routed[OF path] rt by (auto dest: in_set_takeD in_set_dropD)
  ultimately have "tree valid less_key w' t (l + 0) ?root (pre @ (take ?i ks @ (key, v) # drop ?i ks) @ post)"
    by (rule path_update[OF path _ tree_page.self sp leaf])
  then show "tree valid less_key w' t l ?root (insert_item less_key key v kvs)" by (simp only: at_key_insert[OF at key] add_0_right)
  show "apart psz w' t ?root"
    by (rule apart_insert[OF ap a vw out wf branch(1) fl nodes]) (simp add: leaf_node_def F_ISSET_def)
qed

end

text \<open>
  \<open>put_ready\<close>: a write transaction without a parent has the pages on the way to the key in its dirty list, the leaf has
  room for the node, the value is small enough to be stored in the node, and the list has room for what
  \<open>mdb_page_spill\<close> reckons with. So no page on the way is copied, no page is split and no root or overflow page is made.
\<close>

definition put_ready :: "(bytes \<Rightarrow> bytes \<Rightarrow> bool) \<Rightarrow> world \<Rightarrow> nat \<Rightarrow> nat \<Rightarrow> addr \<Rightarrow> MDB_val \<Rightarrow> MDB_val \<Rightarrow> bool" where
  "put_ready less_key w t dbi root k d \<longleftrightarrow>
     page_at w t (md_root (mt_dbs (txn w t) dbi)) root \<and> apart (me_psize (w_env w)) w t root \<and>
     mt_flags (txn w t) AND (MDB_TXN_RDONLY OR MDB_TXN_BLOCKED) = 0 \<and> mt_parent (txn w t) = None \<and>
     (dbi < CORE_DBS \<or> mt_dbflags (txn w t) dbi AND DB_DIRTY \<noteq> 0) \<and> put_need w t dbi k d < mt_dirty_room (txn w t) \<and>
     (\<exists>cs. mt_cursors (txn w t) = Some cs \<and> (\<forall>m \<in> set (cs dbi). mc_xcursor (cur w m) = None)) \<and>
     0 < mv_size k \<and> mv_size k \<le> MDB_MAXKEYSIZE \<and> LEAFSIZE k d \<le> me_nodemax (w_env w) \<and> mv_size d \<le> MAXDATASIZE \<and>
     (\<forall>b. key_page less_key w t (val_bytes (w_mem w) k) root b \<longrightarrow> F_ISSET (mp_flags (w_mem w) b) P_DIRTY \<and>
        val_apart b (b + me_psize (w_env w)) k \<and> val_apart b (b + me_psize (w_env w)) d \<and>
        (IS_LEAF (w_mem w) b \<longrightarrow> EVEN (LEAFSIZE k d) + 2 \<le> unat (SIZELEFT (w_mem w) b)))"

lemma moves_xcursor: "moves mc w w' \<Longrightarrow> mc_xcursor (cur w' m) = mc_xcursor (cur w m)"
  by (auto simp: moves_def)

lemma reads_mem: "reads w w' \<Longrightarrow> w_mem w' = w_mem w"
  by (simp add: reads_def)

lemma reads_env: "reads w w' \<Longrightarrow> w_env w' = w_env w"
  by (simp add: reads_def)

lemma put_ready_link:
  assumes "put_ready less_key w t dbi root k d" and "w_mem w0 = w_mem w" "w_env w0 = w_env w" "same_view w w0"
    and "txn w0 t = (txn w t)\<lparr>mt_cursors := Some (cs(dbi := mc # cs dbi))\<rparr>" "mt_cursors (txn w t) = Some cs"
    and "mc_xcursor (cur w0 mc) = None" "\<forall>m. m \<noteq> mc \<longrightarrow> cur w0 m = cur w m"
  shows "put_ready less_key w0 t dbi root k d"
proof -
  have "\<forall>m \<in> set (mc # cs dbi). mc_xcursor (cur w0 m) = None"
  proof
    fix m assume "m \<in> set (mc # cs dbi)"
    then show "mc_xcursor (cur w0 m) = None" using assms by (cases "m = mc") (auto simp: put_ready_def)
  qed
  moreover have "put_need w0 t dbi k d = put_need w t dbi k d" using assms(3,5) by (simp add: put_need_def)
  ultimately show ?thesis
    using assms(1) unfolding put_ready_def page_at_view[OF assms(4)] apart_same[OF assms(4,2)] key_page_same[OF assms(4,2)] assms(2,3,5)
    by simp
qed

context key_order
begin

lemma cursor_put_inserts:
  assumes db: "db_holds valid less_key c w t dbi kvs" and ne: "kvs \<noteq> []" and ready: "put_ready less_key w t dbi root k d"
    and on: "on_db w mc t dbi" and fl: "mc_flags (cur w mc) = 0" and pg: "mc_pg (cur w mc) 0 = 0"
    and key: "valid (val_bytes (w_mem w) k)" and new: "val_bytes (w_mem w) k \<notin> fst ` set kvs"
  shows "\<exists>w'. mdb_cursor_put w (Some mc) (Some k) d 0 0 = Some (MDB_SUCCESS, d, 0, w') \<and>
     db_holds valid less_key c w' t dbi (insert_item less_key (val_bytes (w_mem w) k) (val_bytes (w_mem w) d) kvs) \<and>
     same_view w w' \<and> apart (me_psize (w_env w)) w' t root \<and> w_env w' = w_env w \<and>
     txn w' t = (txn w t)\<lparr>mt_dbs := (mt_dbs (txn w t))(dbi := (mt_dbs (txn w t) dbi)\<lparr>md_entries := md_entries (mt_dbs (txn w t) dbi) + 1\<rparr>)\<rparr> \<and>
     (\<exists>a. tree_page w t root a \<and> same_outside a (a + me_psize (w_env w)) (w_mem w) (w_mem w'))"
proof -
  let ?psz = "me_psize (w_env w)" and ?key = "val_bytes (w_mem w) k" and ?v = "val_bytes (w_mem w) d" and ?root = "md_root (mt_dbs (txn w t) dbi)"
  obtain w2 l a ks pre post where w2: "put_position w mc k d 0 = Some (False, MDB_NOTFOUND, d, w2)" "moves mc w w2"
      and at: "at_key valid less_key w t dbi kvs ?key w2 mc l a ks pre post"
    by (rule position_new[OF db ne reads_refl on pg fl refl key _ new, where d = d]) (use ready in \<open>simp add: put_ready_def\<close>)
  have onl: "on_leaf valid less_key w t dbi kvs w2 mc l a ks pre post" and f2: "mc_flags (cur w2 mc) = C_INITIALIZED" using at by (simp_all add: at_key_def)
  have r: "reads w w2" and on2: "on_db w2 mc t dbi" and lv: "at_level w2 mc t l" and path: "path valid less_key w t (cur w2 mc) l 0 a ks pre post"
    using onl by (simp_all add: on_leaf_def)
  note pg2 = on_leaf_page[OF onl] and acc = on_db_access[OF on2 r] and tx = reads_txn[OF r]
  have root: "mc_pg (cur w2 mc) 0 = root" using at ready page_at_fun by (auto simp: at_key_def put_ready_def)
  have kp: "key_page less_key w t ?key root (mc_pg (cur w2 mc) i)" if "i \<le> l" for i
    using path_key_page[OF path] at that by (simp add: at_key_def root)
  have kpa: "key_page less_key w t ?key root a" using kp[of l] path_page[OF path] by simp
  have leaf: "IS_LEAF (w_mem w) a" "\<not> IS_LEAF2 (w_mem w) a" "NUMKEYS (w_mem w) a = length ks" using pg2(1) by (auto simp: leaf_page_def)
  have "mdb_cursor_touch w2 mc = Some (MDB_SUCCESS, w2)"
    using cursor_touch_dirty[OF lv] kp ready on2 by (auto simp: put_ready_def pg2(3) tx acc(3) on_db_def)
  then have start: "put_begin w mc k d 0 0 = Some (Put_node True d, insert_state, d, w2)"
    using ready db on spill_estimate_need[OF on2 r, of k d]
    by (intro put_begin_new[OF w2(1) f2]) (auto simp: put_ready_def db_holds_def pg2(4,6) tx on_db_access(1)[OF on reads_refl] on_db_def)
  obtain cs where cs: "mt_cursors (txn w t) = Some cs" "\<forall>m \<in> set (cs dbi). mc_xcursor (cur w m) = None" using ready by (auto simp: put_ready_def)
  have i: "cur_ki w2 mc \<le> length ks" using at by (simp add: at_key_def)
  have wf: "page_wf ?psz (w_mem w) a" using ready path_tree_page[OF path] by (auto simp: put_ready_def apart_def root)
  have kd: "val_apart a (a + ?psz) k" "val_apart a (a + ?psz) d" "EVEN (LEAFSIZE k d) + 2 \<le> unat (SIZELEFT (w_mem w) a)"
    and fit: "LEAFSIZE k d \<le> me_nodemax (w_env w)" using ready kpa leaf(1) by (auto simp: put_ready_def)
  obtain m' w3 where node: "put_node w2 mc k d insert_state = Some (MDB_SUCCESS, d, w3)" and w3: "reads (upd_mem (\<lambda>_. m') w2) w3" "cur w3 mc = cur w2 mc"
      and m': "page_wf ?psz m' a" "same_outside a (a + ?psz) (w_mem w) m'" "mp_flags m' a = mp_flags (w_mem w) a"
      "page_nodes m' a = take (cur_ki w2 mc) (page_nodes (w_mem w) a) @ leaf_node 0 ?key (mv_size d) ?v # drop (cur_ki w2 mc) (page_nodes (w_mem w) a)"
    by (rule put_node_new[of ?psz w2 a mc k d cs])
      (use wf leaf kd fit i cs on2 f2 in \<open>simp_all add: pg2(2,3) tx on_db_def reads_env[OF r] moves_xcursor[OF w2(2)]\<close>)
  let ?w = "cur_or mc C_INITIALIZED (upd_db mc (\<lambda>d. d\<lparr>md_entries := md_entries d + 1\<rparr>) w3)"
  have fin: "w_mem ?w = m'" "w_env ?w = w_env w" "txn ?w u = (if u = t then (txn w t)\<lparr>mt_dbs := (mt_dbs (txn w t))(dbi := (mt_dbs (txn w t) dbi)
      \<lparr>md_entries := md_entries (mt_dbs (txn w t) dbi) + 1\<rparr>)\<rparr> else txn w u)" for u
    using on2 w3(2) reads_mem[OF w3(1)] reads_env[OF w3(1)] reads_txn[OF w3(1)]
    by (auto simp: upd_db_def on_db_def cur_or_def tx reads_env[OF r])
  have vw: "same_view w ?w" unfolding same_view_def using fin by simp
  note tree = tree_after_put[OF at new key _ vw, of ?psz, unfolded fin(1) root, OF _ m']
  have ap: "apart ?psz w t root" using ready by (simp add: put_ready_def)
  have "db_holds valid less_key c ?w t dbi (insert_item less_key ?key ?v kvs)"
    using db ne tree(1)[OF ap] onl ready
    by (auto simp: db_holds_def TXN_DBI_EXIST_def fin page_at_view[OF vw] put_ready_def on_leaf_def split: if_splits)
  moreover have "mdb_cursor_put w (Some mc) (Some k) d 0 0 = Some (MDB_SUCCESS, d, 0, ?w)" by (rule cursor_put_new[OF start node])
  ultimately show ?thesis using vw tree(2,3)[OF ap] fin m'(2) by auto
qed

lemma put_runs:
  assumes db: "db_holds valid less_key c w t dbi kvs" and ne: "kvs \<noteq> []" and ready: "put_ready less_key w t dbi root k d"
    and key: "valid (val_bytes (w_mem w) k)" and new: "val_bytes (w_mem w) k \<notin> fst ` set kvs"
  shows "\<exists>w'. mdb_put w t dbi (Some k) (Some d) 0 = Some (MDB_SUCCESS, Some d, w') \<and>
     db_holds valid less_key c w' t dbi (insert_item less_key (val_bytes (w_mem w) k) (val_bytes (w_mem w) d) kvs) \<and>
     apart (me_psize (w_env w)) w' t root \<and> w_env w' = w_env w \<and>
     txn w' t = (txn w t)\<lparr>mt_dbs := (mt_dbs (txn w t))(dbi := (mt_dbs (txn w t) dbi)\<lparr>md_entries := md_entries (mt_dbs (txn w t) dbi) + 1\<rparr>)\<rparr> \<and>
     (\<exists>a. tree_page w t root a \<and> same_outside a (a + me_psize (w_env w)) (w_mem w) (w_mem w'))"
proof -
  obtain cs where cs: "mt_cursors (txn w t) = Some cs" using ready by (auto simp: put_ready_def)
  have tf: "mt_flags (txn w t) AND (MDB_TXN_RDONLY OR MDB_TXN_BLOCKED) = 0" using ready by (simp add: put_ready_def)
  obtain mc w0 where put: "mdb_put w t dbi (Some k) (Some d) 0 =
      do { (rc, d, _, w) \<leftarrow> mdb_cursor_put w0 (Some mc) (Some k) d 0 0; w \<leftarrow> untrack_cursor t dbi w; Some (rc, Some d, w) }"
    and 0: "w_mem w0 = w_mem w" "w_env w0 = w_env w" "txn w0 t = (txn w t)\<lparr>mt_cursors := Some (cs(dbi := mc # cs dbi))\<rparr>" "same_view w w0"
      "on_db w0 mc t dbi" "mc_flags (cur w0 mc) = 0" "mc_pg (cur w0 mc) 0 = 0" "\<forall>m. m \<noteq> mc \<longrightarrow> cur w0 m = cur w m"
    by (rule put_start[OF db cs tf])
  have db0: "db_holds valid less_key c w0 t dbi kvs" using db db_holds_same[OF 0(4,1), of t] 0(2,3) by simp
  have ready0: "put_ready less_key w0 t dbi root k d"
    using put_ready_link[OF ready 0(1,2,4,3) cs _ 0(8)] 0(5) by (simp add: on_db_def)
  have tp: "tree_page w0 t = tree_page w t"
    using tree_page_same[OF _ 0(4,1)] tree_page_same[OF _ same_view_sym[OF 0(4)] 0(1)[symmetric]] by blast
  obtain w1 where 1: "mdb_cursor_put w0 (Some mc) (Some k) d 0 0 = Some (MDB_SUCCESS, d, 0, w1)"
     "db_holds valid less_key c w1 t dbi (insert_item less_key (val_bytes (w_mem w) k) (val_bytes (w_mem w) d) kvs)"
     "apart (me_psize (w_env w)) w1 t root" "w_env w1 = w_env w"
     "txn w1 t = (txn w0 t)\<lparr>mt_dbs := (mt_dbs (txn w t))(dbi := (mt_dbs (txn w t) dbi)\<lparr>md_entries := md_entries (mt_dbs (txn w t) dbi) + 1\<rparr>)\<rparr>"
     "\<exists>a. tree_page w t root a \<and> same_outside a (a + me_psize (w_env w)) (w_mem w) (w_mem w1)"
    using cursor_put_inserts[OF db0 ne ready0 0(5-7)] key new by (simp add: 0(1-3) tp) blast
  let ?w = "upd_txn t (\<lambda>x. x\<lparr>mt_cursors := Some cs\<rparr>) w1"
  have vw: "same_view w1 ?w" and m: "w_mem ?w = w_mem w1" by (simp_all add: same_view_def)
  have fin: "txn ?w t = (txn w t)\<lparr>mt_dbs := (mt_dbs (txn w t))(dbi := (mt_dbs (txn w t) dbi)\<lparr>md_entries := md_entries (mt_dbs (txn w t) dbi) + 1\<rparr>)\<rparr>"
    using cs by (simp add: 1(5) 0(3))
  have "untrack_cursor t dbi w1 = Some ?w" by (simp add: untrack_cursor_def 1(5) 0(3) fun_upd_idem)
  then have "mdb_put w t dbi (Some k) (Some d) 0 = Some (MDB_SUCCESS, Some d, ?w)" using put 1(1) by simp
  moreover have "db_holds valid less_key c ?w t dbi (insert_item less_key (val_bytes (w_mem w) k) (val_bytes (w_mem w) d) kvs)"
    using 1(2) db_holds_same[OF vw m, of t] by simp
  moreover have "apart (me_psize (w_env w)) ?w t root" using 1(3) apart_same[OF vw m] by simp
  ultimately show ?thesis using fin 1(4,6) m by auto
qed

lemma insert_item_map:
  assumes db: "db_holds valid less_key c w t dbi kvs" and new: "key \<notin> fst ` set kvs"
  shows "map_of (insert_item less_key key v kvs) = (map_of kvs)(key \<mapsto> v)"
proof -
  have app: "map_of (xs @ (key, v) # ys) = (map_of (xs @ ys))(key \<mapsto> v)" if "key \<notin> fst ` set xs" for xs ys
    using that by (induction xs) (auto simp: fun_upd_twist)
  have "key \<notin> fst ` set (take n kvs)" for n using new by (auto dest: in_set_takeD)
  then show ?thesis unfolding insert_item_def by (subst app) simp_all
qed

end

section \<open>A writer on the demo database\<close>

text \<open>
  The writer of an environment with \<open>MDB_WRITEMAP\<close> on the pages of the demo database, of which the root and the left
  leaf are dirty.
\<close>

definition draft_mem :: mem where
  "draft_mem = demo_mem(1290 := 17, 1418 := 18)"

definition draft :: world where
  "draft = demo\<lparr>w_mem := draft_mem,
     w_txns := (\<lambda>_. demo_txn\<lparr>mt_flags := MDB_TXN_WRITEMAP, mt_dirty_room := 20, mt_cursors := Some (\<lambda>_. []), mt_reader := None\<rparr>)\<rparr>"

lemma draft_simps [simp]:
  "w_mem draft = draft_mem" "w_env draft = demo_env" "cur draft c = demo_cursor"
  "txn draft t = demo_txn\<lparr>mt_flags := MDB_TXN_WRITEMAP, mt_dirty_room := 20, mt_cursors := Some (\<lambda>_. []), mt_reader := None\<rparr>"
  by (simp_all add: draft_def txn_def cur_def) (simp_all add: demo_def)

lemmas draft_read = demo_read draft_mem_def

lemma draft_heads:
  "mp_flags draft_mem 1280 = 17" "mp_flags draft_mem 1408 = 18" "mp_flags draft_mem 1536 = 2"
  "mp_lower draft_mem 1280 = 20" "mp_lower draft_mem 1408 = 20" "mp_lower draft_mem 1536 = 20"
  "mp_upper draft_mem 1280 = 110" "mp_upper draft_mem 1408 = 108" "mp_upper draft_mem 1536 = 108"
  "mp_ptrs draft_mem 1280 0 = 120" "mp_ptrs draft_mem 1280 (Suc 0) = 110" "mp_ptrs draft_mem 1408 0 = 118" "mp_ptrs draft_mem 1408 (Suc 0) = 108"
  "mp_ptrs draft_mem 1536 0 = 118" "mp_ptrs draft_mem 1536 (Suc 0) = 108"
  by (simp_all add: mp_flags_def mp_lower_def mp_upper_def mp_ptrs_def draft_read)

lemma draft_kinds:
  "IS_BRANCH draft_mem 1280" "\<not> IS_LEAF draft_mem 1280" "\<not> IS_LEAF2 draft_mem 1280"
  "IS_LEAF draft_mem 1408" "\<not> IS_BRANCH draft_mem 1408" "\<not> IS_LEAF2 draft_mem 1408"
  "IS_LEAF draft_mem 1536" "\<not> IS_BRANCH draft_mem 1536" "\<not> IS_LEAF2 draft_mem 1536"
  "NUMKEYS draft_mem 1280 = 2" "NUMKEYS draft_mem 1408 = 2" "NUMKEYS draft_mem 1536 = 2"
  by (simp_all add: IS_BRANCH_def IS_LEAF_def IS_LEAF2_def F_ISSET_def NUMKEYS_def draft_heads)

lemma draft_node_heads:
  "mn_lo draft_mem 1400 = 3" "mn_hi draft_mem 1400 = 0" "mn_flags draft_mem 1400 = 0" "mn_ksize draft_mem 1400 = 0"
  "mn_lo draft_mem 1390 = 4" "mn_hi draft_mem 1390 = 0" "mn_flags draft_mem 1390 = 0" "mn_ksize draft_mem 1390 = 1"
  "mn_lo draft_mem 1526 = 1" "mn_hi draft_mem 1526 = 0" "mn_flags draft_mem 1526 = 0" "mn_ksize draft_mem 1526 = 1"
  "mn_lo draft_mem 1516 = 1" "mn_hi draft_mem 1516 = 0" "mn_flags draft_mem 1516 = 0" "mn_ksize draft_mem 1516 = 1"
  "mn_lo draft_mem 1654 = 1" "mn_hi draft_mem 1654 = 0" "mn_flags draft_mem 1654 = 0" "mn_ksize draft_mem 1654 = 1"
  "mn_lo draft_mem 1644 = 1" "mn_hi draft_mem 1644 = 0" "mn_flags draft_mem 1644 = 0" "mn_ksize draft_mem 1644 = 1"
  by (simp_all add: mn_lo_def mn_hi_def mn_flags_def mn_ksize_def draft_read)

lemma draft_bytes:
  "mem_read draft_mem 1398 (Suc 0) = [99]" "mem_read draft_mem 1534 (Suc 0) = [97]" "mem_read draft_mem 1524 (Suc 0) = [98]"
  "mem_read draft_mem 1662 (Suc 0) = [99]" "mem_read draft_mem 1652 (Suc 0) = [100]" "mem_read draft_mem 1535 (Suc 0) = [1]"
  "mem_read draft_mem 1525 (Suc 0) = [2]" "mem_read draft_mem 1663 (Suc 0) = [3]" "mem_read draft_mem 1653 (Suc 0) = [4]"
  "mem_read draft_mem a 0 = []"
  by (simp_all add: mem_read_def demo_mem_def draft_mem_def)

lemmas draft_facts = draft_kinds draft_node_heads draft_bytes

lemma draft_ptrs:
  "NODEPTR draft_mem 1280 0 = 1400" "NODEPTR draft_mem 1280 (Suc 0) = 1390" "NODEPTR draft_mem 1408 0 = 1526" "NODEPTR draft_mem 1408 (Suc 0) = 1516"
  "NODEPTR draft_mem 1536 0 = 1654" "NODEPTR draft_mem 1536 (Suc 0) = 1644"
  by (simp_all add: NODEPTR_def draft_heads)

lemma draft_nodes:
  "page_nodes draft_mem 1280 = [\<lparr>n_lo = 3, n_hi = 0, n_flags = 0, n_key = [], n_data = []\<rparr>, \<lparr>n_lo = 4, n_hi = 0, n_flags = 0, n_key = [99], n_data = []\<rparr>]"
  "page_nodes draft_mem 1408 = [leaf_node 0 [97] 1 [1], leaf_node 0 [98] 1 [2]]"
  "page_nodes draft_mem 1536 = [leaf_node 0 [99] 1 [3], leaf_node 0 [100] 1 [4]]"
  by (simp_all add: page_nodes_def node_at_def leaf_node_def data_len_def NODEKEY_def NODEDATA_def NODEKSZ_def NODEDSZ_def F_ISSET_def upt_2 draft_facts draft_ptrs)

lemma draft_page_at: "page_at draft t 2 1280" "page_at draft t 3 1408" "page_at draft t 4 1536"
  by (simp_all add: page_at_def mdb_page_get_def demo_txn_def map_page_def demo_env_def)

lemma draft_children:
  assumes "n \<in> set (page_nodes draft_mem 1280)" and "page_at draft t (node_pgno n) c"
  shows "c = 1408 \<or> c = 1536"
  using assms page_at_fun draft_page_at by (auto simp: draft_nodes node_pgno_def)

lemma draft_tree: "tree short (<) draft t 1 1280 demo_items"
proof -
  let ?kss = "[[([97], [1]), ([98], [2])], [([99], [3]), ([100], [4])]] :: (bytes \<times> bytes) list list"
  have "tree short (<) draft t 0 1408 (?kss ! 0)" "tree short (<) draft t 0 1536 (?kss ! 1)"
    by (intro tree.leaf; simp add: leaf_page_nodes draft_nodes draft_kinds node_item_def leaf_node_def F_ISSET_def)+
  moreover have "branch_page short (<) draft t 1280 [1408, 1536]"
    by (auto simp: branch_page_nodes draft_nodes draft_kinds node_pgno_def draft_page_at keys_ordered_def less_Suc_eq)
  moreover have "separated (<) (node_key draft_mem 1280 0) ?kss"
    by (auto simp: separated_def less_Suc_eq node_key_nodes draft_kinds draft_nodes)
  ultimately show ?thesis
    using tree.branch[of short "(<)" draft t 1280 "[1408, 1536]" ?kss 0] by (simp add: demo_items_def All_less_Suc)
qed

lemma draft_holds: "db_holds short (<) Cmp_memn draft 0 MAIN_DBI demo_items"
proof -
  have "\<exists>a h. page_at draft 0 2 a \<and> tree short (<) draft 0 h a demo_items \<and> h < CURSOR_STACK"
    using draft_tree[of 0] draft_page_at(1)[of 0] by (intro exI[of _ 1280] exI[of _ 1]) simp
  then show ?thesis
    by (simp add: db_holds_def TXN_DBI_EXIST_def demo_txn_def demo_db_def demo_env_def demo_dbx_def)
qed

lemma draft_tree_page: "tree_page draft t 1280 b \<Longrightarrow> b \<in> {1280, 1408, 1536}"
proof -
  have "(a = 1280 \<longrightarrow> b \<in> {1280, 1408, 1536}) \<and> (a = 1408 \<or> a = 1536 \<longrightarrow> b = a)" if "tree_page draft t a b" for a
    using that
  proof (induction rule: tree_page.induct)
    case (child a n c b)
    then show ?case using draft_children[of n t c] draft_kinds by auto
  qed simp
  then show "tree_page draft t 1280 b \<Longrightarrow> b \<in> {1280, 1408, 1536}" by blast
qed

lemma draft_nlen:
  "nlen draft_mem 1280 0 = 8" "nlen draft_mem 1280 (Suc 0) = 10" "nlen draft_mem 1408 0 = 10" "nlen draft_mem 1408 (Suc 0) = 10"
  "nlen draft_mem 1536 0 = 10" "nlen draft_mem 1536 (Suc 0) = 10"
  by (simp_all add: nlen_def raw_sz_def data_len_def NODEKSZ_def NODEDSZ_def F_ISSET_def EVEN_def draft_ptrs draft_kinds draft_node_heads)

lemma draft_wf: "page_wf 128 draft_mem 1280" "page_wf 128 draft_mem 1408" "page_wf 128 draft_mem 1536"
  by (simp_all add: page_wf_def draft_kinds draft_heads nptr_def draft_nlen all_less_2)

lemma draft_apart: "apart 128 draft t 1280"
proof -
  have "\<not> big_value draft t 1280 v n" for v n
    using draft_tree_page[of t] by (fastforce simp: big_value_def draft_nodes leaf_node_def draft_kinds F_ISSET_def)
  moreover have "page_wf 128 draft_mem a \<and> (a = b \<or> a + 128 \<le> b \<or> b + 128 \<le> a)" if "tree_page draft t 1280 a" "tree_page draft t 1280 b" for a b
    using draft_tree_page[OF that(1)] draft_tree_page[OF that(2)] draft_wf by auto
  ultimately show ?thesis unfolding apart_def draft_simps(1) by blast
qed

lemma draft_key_page: "key_page (<) draft t [97, 1] 1280 b \<Longrightarrow> b = 1280 \<or> b = 1408"
proof (induction "1280 :: nat" b rule: key_page.induct)
  case (child b j c)
  then have b: "b = 1280" using draft_kinds by auto
  then have "j = 0" using child.hyps(4,5) by (auto simp: routed_def draft_kinds node_key_nodes draft_nodes less_Suc_eq)
  then have "page_at draft t 3 c" using child.hyps(6) b by (simp add: draft_nodes node_pgno_def)
  then show ?case using page_at_fun draft_page_at(2) by blast
qed simp

lemma draft_ready: "put_ready (<) draft 0 MAIN_DBI 1280 (val_of [97, 1]) (val_of [9])"
proof -
  have "val_apart b e (val_of bs)" for b e bs by (simp add: val_apart_def val_of_def)
  moreover have "mp_flags draft_mem b AND 16 = 16 \<and> (IS_LEAF draft_mem b \<longrightarrow> unat (SIZELEFT draft_mem b) = 88)"
    if "key_page (<) draft 0 [97, 1] 1280 b" for b
    using draft_key_page[OF that] draft_kinds by (auto simp: SIZELEFT_def draft_heads)
  ultimately show ?thesis
    using draft_page_at(1)[of 0] draft_apart[of 0]
    by (auto simp: put_ready_def put_need_def demo_txn_def demo_db_def demo_env_def demo_cursor_def LEAFSIZE_def EVEN_def draft_heads draft_kinds F_ISSET_def)
qed

section \<open>What storing promises\<close>

text \<open>
  C1: \<open>mdb_put\<close> of a new key refines the insertion into the sorted list of items: in a tree of any height that is not
  empty, whose pages on the way to the key are dirty already and whose leaf has room for the key and its value
  (\<open>put_ready\<close>), the call succeeds, the pages then hold the old items
  and the new one at its place in key order, the count of entries grows by one, the pages of the tree stay
  well-formed and disjoint, and the only bytes that change are in one page of the tree. All the rest of the
  transaction is as before.
\<close>

theorem put_inserts:
  assumes "key_order c valid less_key" and "db_holds valid less_key c w t dbi kvs" and "kvs \<noteq> []" and "put_ready less_key w t dbi root k d"
    and "valid (val_bytes (w_mem w) k)" and "val_bytes (w_mem w) k \<notin> fst ` set kvs"
  shows "\<exists>w'. mdb_put w t dbi (Some k) (Some d) 0 = Some (MDB_SUCCESS, Some d, w') \<and>
     db_holds valid less_key c w' t dbi (insert_item less_key (val_bytes (w_mem w) k) (val_bytes (w_mem w) d) kvs) \<and>
     apart (me_psize (w_env w)) w' t root \<and> w_env w' = w_env w \<and>
     txn w' t = (txn w t)\<lparr>mt_dbs := (mt_dbs (txn w t))(dbi := (mt_dbs (txn w t) dbi)\<lparr>md_entries := md_entries (mt_dbs (txn w t) dbi) + 1\<rparr>)\<rparr> \<and>
     (\<exists>a. tree_page w t root a \<and> same_outside a (a + me_psize (w_env w)) (w_mem w) (w_mem w'))"
  by (rule key_order.put_runs[OF assms])

theorem put_inserts_witness:
  "\<exists>w'. mdb_put draft 0 MAIN_DBI (Some (val_of [97, 1])) (Some (val_of [9])) 0 = Some (MDB_SUCCESS, Some (val_of [9]), w') \<and>
    db_holds short (<) Cmp_memn w' 0 MAIN_DBI [([97], [1]), ([97, 1], [9]), ([98], [2]), ([99], [3]), ([100], [4])] \<and>
    md_entries (mt_dbs (txn w' 0) MAIN_DBI) = 5"
proof -
  have "insert_item (<) [97, 1] [9] demo_items = [([97], [1]), ([97, 1], [9]), ([98], [2]), ([99], [3]), ([100], [4])]"
    by (simp add: insert_item_def lower_bound_def demo_items_def)
  then show ?thesis
    using put_inserts[OF ord_memn.key_order_axioms draft_holds _ draft_ready] by (auto simp: demo_items_def demo_txn_def demo_db_def)
qed

text \<open>
  C2: What was stored in place is found: in a tree of any height that is not empty, whose pages on the way to the key are
  dirty already and whose leaf has room for the key and its value (\<open>put_ready\<close>), \<open>mdb_put\<close> of a new key succeeds, and then
  \<open>mdb_get\<close> in the same transaction returns the stored value for that key, and for every other key what the database
  had before, \<open>MDB_NOTFOUND\<close> included. A put that first copies a clean page, splits a page, makes the first root or
  stores its value on overflow pages is not covered.
\<close>

theorem put_get_roundtrip:
  assumes "key_order c valid less_key" and "db_holds valid less_key c w t dbi kvs" and "kvs \<noteq> []" and "put_ready less_key w t dbi root k d"
    and "valid (val_bytes (w_mem w) k)" and "val_bytes (w_mem w) k \<notin> fst ` set kvs"
  shows "\<exists>w'. mdb_put w t dbi (Some k) (Some d) 0 = Some (MDB_SUCCESS, Some d, w') \<and>
     (\<forall>key d2. valid key \<and> key \<noteq> [] \<longrightarrow> (\<exists>rc d' w''. mdb_get w' t dbi (Some (val_of key)) (Some d2) = Some (rc, Some (val_of key), Some d', w'') \<and>
        (case ((map_of kvs)(val_bytes (w_mem w) k \<mapsto> val_bytes (w_mem w) d)) key of
           None \<Rightarrow> rc = MDB_NOTFOUND | Some v \<Rightarrow> rc = MDB_SUCCESS \<and> val_bytes (w_mem w') d' = v)))"
proof -
  obtain w' where w': "mdb_put w t dbi (Some k) (Some d) 0 = Some (MDB_SUCCESS, Some d, w')"
     "db_holds valid less_key c w' t dbi (insert_item less_key (val_bytes (w_mem w) k) (val_bytes (w_mem w) d) kvs)"
    using key_order.put_runs[OF assms] by blast
  note look = key_order.insert_item_map[OF assms(1,2,6), of "val_bytes (w_mem w) d"]
  show ?thesis
  proof (intro exI[of _ w'] conjI w'(1) allI impI)
    fix key d2 assume "valid key \<and> key \<noteq> []"
    then show "\<exists>rc d' w''. mdb_get w' t dbi (Some (val_of key)) (Some d2) = Some (rc, Some (val_of key), Some d', w'') \<and>
        (case ((map_of kvs)(val_bytes (w_mem w) k \<mapsto> val_bytes (w_mem w) d)) key of
           None \<Rightarrow> rc = MDB_NOTFOUND | Some v \<Rightarrow> rc = MDB_SUCCESS \<and> val_bytes (w_mem w') d' = v)"
      using key_order.get_runs[OF assms(1) w'(2), of "val_of key" d2, unfolded look val_of_bytes] by auto
  qed
qed

theorem put_get_roundtrip_witness:
  "\<exists>w' rc d' w''. mdb_put draft 0 MAIN_DBI (Some (val_of [97, 1])) (Some (val_of [9])) 0 = Some (MDB_SUCCESS, Some (val_of [9]), w') \<and>
    mdb_get w' 0 MAIN_DBI (Some (val_of [97, 1])) (Some nil_val) = Some (rc, Some (val_of [97, 1]), Some d', w'') \<and>
    rc = MDB_SUCCESS \<and> val_bytes (w_mem w') d' = [9]"
proof -
  obtain w' where w': "mdb_put draft 0 MAIN_DBI (Some (val_of [97, 1])) (Some (val_of [9])) 0 = Some (MDB_SUCCESS, Some (val_of [9]), w')"
    and get: "\<forall>key d2. short key \<and> key \<noteq> [] \<longrightarrow> (\<exists>rc d' w''. mdb_get w' 0 MAIN_DBI (Some (val_of key)) (Some d2) = Some (rc, Some (val_of key), Some d', w'') \<and>
        (case ((map_of demo_items)([97, 1] \<mapsto> [9])) key of
           None \<Rightarrow> rc = MDB_NOTFOUND | Some v \<Rightarrow> rc = MDB_SUCCESS \<and> val_bytes (w_mem w') d' = v))"
    using put_get_roundtrip[OF ord_memn.key_order_axioms draft_holds _ draft_ready] by (auto simp: demo_items_def)
  show ?thesis using w' get[rule_format, of "[97, 1]" nil_val] by fastforce
qed

end
