(* ===== verification/Copy_Threads.thy ===== *)
theory Copy_Threads
  imports Lmdb_Const "HOL-Library.Sublist"
begin

text \<open>
  The two threads of the compacting copy: \<open>mdb_env_copyfd1\<close> with \<open>mdb_env_cwalk\<close> fills two buffers in turn and hands
  them over by \<open>mdb_env_cthr_toggle\<close>, the thread \<open>mdb_env_copythr\<close> writes them. A step is what a thread does from
  the point where it gets the mutex to the point where it gives it back, by unlocking or by waiting for the
  condition; the writer keeps the mutex while it writes a buffer. A thread that waits for the condition sleeps
  until the other one signals it, and then looks again at what it waits for; \<open>pthread_cond_wait\<close> may also return
  without a signal.
\<close>

section \<open>Shared state and threads (mdb.c)\<close>

text \<open>
  A buffer has the bytes of \<open>mc_wbuf\<close> up to \<open>mc_wlen\<close> and those of the overflow tail \<open>mc_over\<close> up to \<open>mc_olen\<close>. The
  writer is before its first wait, waiting, writing the rest of the buffer or of its tail, or has returned. The
  other thread is before the first handover, filling a buffer, in \<open>mdb_env_cthr_toggle\<close> with its argument, waiting
  there, waiting for the writer to take the end mark, joining the writer, or has returned. \<open>cs_wsleep\<close> and \<open>cs_psleep\<close>:
  the writer and the other thread sleep in \<open>pthread_cond_wait\<close>.
\<close>

type_synonym chunk = "byte list \<times> byte list"

datatype writer = W_start | W_wait | W_write "byte list" bool | W_done

datatype producer = P_init | P_fill | P_toggle int | P_wait int | P_last | P_join | P_done

record copy_sys =
  cs_buf :: "nat \<Rightarrow> chunk"
  cs_new :: int
  cs_status :: int
  cs_toggle :: nat
  cs_wtoggle :: nat
  cs_writer :: writer
  cs_producer :: producer
  cs_todo :: "chunk list"
  cs_rc :: int
  cs_out :: "byte list"
  cs_wsleep :: bool
  cs_psleep :: bool

text \<open>\<open>cs_todo\<close>: what the walk will put into the buffers, one entry per handover. \<open>cs_out\<close>: the file written so far.\<close>

definition copy_init :: "chunk list \<Rightarrow> copy_sys" where
  "copy_init chunks = \<lparr>cs_buf = (\<lambda>_. ([], [])), cs_new = 1, cs_status = 0, cs_toggle = 0, cs_wtoggle = 0, cs_writer = W_start,
     cs_producer = P_init, cs_todo = chunks, cs_rc = 0, cs_out = [], cs_wsleep = False, cs_psleep = False\<rparr>"

text \<open>\<open>pthread_cond_signal\<close> by either thread: only the other one can be asleep.\<close>

definition signal_producer :: "copy_sys \<Rightarrow> copy_sys" where
  "signal_producer s = s\<lparr>cs_psleep := False\<rparr>"

definition signal_writer :: "copy_sys \<Rightarrow> copy_sys" where
  "signal_writer s = s\<lparr>cs_wsleep := False\<rparr>"

text \<open>\<open>mc_olen\<close>: the length of the tail as an \<open>int\<close>.\<close>

definition olen :: "byte list \<Rightarrow> int" where
  "olen over = sint (of_nat (length over) :: u32)"

fun writing :: "writer \<Rightarrow> bool" where
  "writing (W_write rest tail) = True"
| "writing _ = False"

text \<open>
  \<open>copythr_step\<close>: the steps of the writer. A write takes some of the bytes, or fails with a code, or takes none, which
  is \<open>EIO\<close>. A tail whose length is no positive \<open>int\<close> is not written. The writer takes no empty buffer: its result
  code would not be set, and the invariant excludes it. The length of a buffer, at most \<open>MDB_WBUF\<close>, fits an \<open>int\<close>.
\<close>

inductive copythr_step :: "copy_sys \<Rightarrow> copy_sys \<Rightarrow> bool" where
  start: "cs_writer s = W_start \<Longrightarrow> copythr_step s (signal_producer (s\<lparr>cs_new := 0, cs_writer := W_wait, cs_wsleep := True\<rparr>))"
| sleep: "cs_writer s = W_wait \<Longrightarrow> \<not> cs_wsleep s \<Longrightarrow> cs_new s = 0 \<Longrightarrow> copythr_step s (s\<lparr>cs_wsleep := True\<rparr>)"
| stop: "cs_writer s = W_wait \<Longrightarrow> \<not> cs_wsleep s \<Longrightarrow> cs_new s < 0 \<Longrightarrow>
     copythr_step s (signal_producer (s\<lparr>cs_new := 0, cs_writer := W_done\<rparr>))"
| take_buf: "cs_writer s = W_wait \<Longrightarrow> \<not> cs_wsleep s \<Longrightarrow> cs_new s > 0 \<Longrightarrow> fst (cs_buf s (cs_wtoggle s)) \<noteq> [] \<Longrightarrow>
     copythr_step s (s\<lparr>cs_new := 0, cs_writer := W_write (fst (cs_buf s (cs_wtoggle s))) False\<rparr>)"
| put: "cs_writer s = W_write rest tail \<Longrightarrow> 0 < n \<Longrightarrow> n \<le> length rest \<Longrightarrow>
     copythr_step s (s\<lparr>cs_out := cs_out s @ take n rest, cs_writer := W_write (drop n rest) tail\<rparr>)"
| fail: "cs_writer s = W_write rest tail \<Longrightarrow> rest \<noteq> [] \<Longrightarrow> rc \<noteq> 0 \<Longrightarrow>
     copythr_step s (signal_producer (s\<lparr>cs_status := rc, cs_writer := W_done\<rparr>))"
| over: "cs_writer s = W_write [] tail \<Longrightarrow> snd (cs_buf s (cs_wtoggle s)) = over \<Longrightarrow> olen over \<noteq> 0 \<Longrightarrow>
     copythr_step s (s\<lparr>cs_writer := W_write (take (nat (olen over)) over) True,
       cs_buf := (cs_buf s)(cs_wtoggle s := (fst (cs_buf s (cs_wtoggle s)), []))\<rparr>)"
| release: "cs_writer s = W_write [] tail \<Longrightarrow> olen (snd (cs_buf s (cs_wtoggle s))) = 0 \<Longrightarrow>
     copythr_step s (signal_producer (s\<lparr>cs_buf := (cs_buf s)(cs_wtoggle s := ([], [])), cs_wtoggle := 1 - cs_wtoggle s,
       cs_writer := W_wait, cs_wsleep := (cs_new s = 0)\<rparr>))"

text \<open>
  \<open>toggle_step\<close>: \<open>mdb_env_cthr_toggle\<close> in one or, when the last buffer is not taken yet, more steps. After it the walk
  goes on, or the end mark is out. A failed handover ends the walk with the writer's code.
\<close>

definition toggle_next :: "int \<Rightarrow> producer" where
  "toggle_next st = (if st < 0 then P_last else P_fill)"

inductive toggle_step :: "copy_sys \<Rightarrow> copy_sys \<Rightarrow> bool" where
  failed: "cs_producer s = P_toggle st \<Longrightarrow> \<not> writing (cs_writer s) \<Longrightarrow> cs_status s \<noteq> 0 \<Longrightarrow>
     toggle_step s (if st < 0 then s\<lparr>cs_producer := P_last\<rparr> else s\<lparr>cs_rc := cs_status s, cs_producer := P_toggle (- 1)\<rparr>)"
| full: "cs_producer s = P_toggle st \<Longrightarrow> \<not> writing (cs_writer s) \<Longrightarrow> cs_status s = 0 \<Longrightarrow> cs_new s = 1 \<Longrightarrow>
     toggle_step s (s\<lparr>cs_producer := P_wait st, cs_psleep := True\<rparr>)"
| handover: "cs_producer s = P_toggle st \<Longrightarrow> \<not> writing (cs_writer s) \<Longrightarrow> cs_status s = 0 \<Longrightarrow> cs_new s \<noteq> 1 \<Longrightarrow>
     toggle_step s (signal_writer (s\<lparr>cs_new := st, cs_toggle := 1 - cs_toggle s, cs_producer := toggle_next st\<rparr>))"
| sleep: "cs_producer s = P_wait st \<Longrightarrow> \<not> cs_psleep s \<Longrightarrow> \<not> writing (cs_writer s) \<Longrightarrow> cs_new s = 1 \<Longrightarrow>
     toggle_step s (s\<lparr>cs_psleep := True\<rparr>)"
| wake: "cs_producer s = P_wait st \<Longrightarrow> \<not> cs_psleep s \<Longrightarrow> \<not> writing (cs_writer s) \<Longrightarrow> cs_new s \<noteq> 1 \<Longrightarrow>
     toggle_step s (signal_writer (s\<lparr>cs_new := st, cs_toggle := 1 - cs_toggle s, cs_producer := toggle_next st\<rparr>))"

text \<open>\<open>copyfd1_step\<close>: the other steps of the copying thread. The walk adds to the buffer without
  the mutex; it may end with an error of its own.\<close>

inductive copyfd1_step :: "copy_sys \<Rightarrow> copy_sys \<Rightarrow> bool" where
  sleep: "cs_producer s = P_init \<or> cs_producer s = P_last \<Longrightarrow> \<not> cs_psleep s \<Longrightarrow> \<not> writing (cs_writer s) \<Longrightarrow> cs_new s \<noteq> 0 \<Longrightarrow>
     copyfd1_step s (s\<lparr>cs_psleep := True\<rparr>)"
| ready: "cs_producer s = P_init \<Longrightarrow> \<not> cs_psleep s \<Longrightarrow> \<not> writing (cs_writer s) \<Longrightarrow> cs_new s = 0 \<Longrightarrow> copyfd1_step s (s\<lparr>cs_producer := P_fill\<rparr>)"
| fill: "cs_producer s = P_fill \<Longrightarrow> cs_todo s = c # cs \<Longrightarrow>
     copyfd1_step s (s\<lparr>cs_buf := (cs_buf s)(cs_toggle s := (fst (cs_buf s (cs_toggle s)) @ fst c, if snd c = [] then snd (cs_buf s (cs_toggle s)) else snd c)),
       cs_todo := cs, cs_producer := P_toggle 1\<rparr>)"
| finish: "cs_producer s = P_fill \<Longrightarrow> cs_todo s = [] \<Longrightarrow> copyfd1_step s (s\<lparr>cs_producer := P_toggle (- 1)\<rparr>)"
| abort: "cs_producer s = P_fill \<Longrightarrow> rc \<noteq> 0 \<Longrightarrow> copyfd1_step s (s\<lparr>cs_rc := rc, cs_producer := P_toggle (- 1)\<rparr>)"
| last: "cs_producer s = P_last \<Longrightarrow> \<not> cs_psleep s \<Longrightarrow> \<not> writing (cs_writer s) \<Longrightarrow> cs_new s = 0 \<Longrightarrow> copyfd1_step s (s\<lparr>cs_producer := P_join\<rparr>)"
| join: "cs_producer s = P_join \<Longrightarrow> cs_writer s = W_done \<Longrightarrow> copyfd1_step s (s\<lparr>cs_producer := P_done\<rparr>)"

definition copy_step :: "copy_sys \<Rightarrow> copy_sys \<Rightarrow> bool" where
  "copy_step s s' \<longleftrightarrow> copythr_step s s' \<or> toggle_step s s' \<or> copyfd1_step s s'"

text \<open>\<open>spurious\<close>: \<open>pthread_cond_wait\<close> returns without a signal.\<close>

inductive spurious :: "copy_sys \<Rightarrow> copy_sys \<Rightarrow> bool" where
  writer_wakes: "cs_wsleep s \<Longrightarrow> spurious s (s\<lparr>cs_wsleep := False\<rparr>)"
| producer_wakes: "cs_psleep s \<Longrightarrow> spurious s (s\<lparr>cs_psleep := False\<rparr>)"

definition copy_run :: "copy_sys \<Rightarrow> copy_sys \<Rightarrow> bool" where
  "copy_run s s' \<longleftrightarrow> copy_step s s' \<or> spurious s s'"

declare signal_producer_def [simp] and signal_writer_def [simp]

section \<open>The invariant\<close>

lemma olen_small: "length over < 2 ^ 31 \<Longrightarrow> olen over = int (length over)"
proof -
  assume small: "length over < 2 ^ 31"
  then have "unat (of_nat (length over) :: u32) = length over" by (simp add: unat_of_nat take_bit_eq_mod)
  then show ?thesis using sint_small[of "of_nat (length over)"] small by (simp add: olen_def)
qed

definition chunk_bytes :: "chunk \<Rightarrow> byte list" where
  "chunk_bytes c = fst c @ snd c"

definition all_bytes :: "chunk list \<Rightarrow> byte list" where
  "all_bytes cs = concat (map chunk_bytes cs)"

text \<open>What the writer still has to write of the buffers that were handed over.\<close>

definition handed :: "copy_sys \<Rightarrow> byte list" where
  "handed s = (case cs_writer s of W_write rest tail \<Rightarrow> rest @ snd (cs_buf s (cs_wtoggle s))
     | _ \<Rightarrow> if cs_toggle s = cs_wtoggle s then [] else chunk_bytes (cs_buf s (cs_wtoggle s)))"

definition early :: "producer \<Rightarrow> bool" where
  "early p \<longleftrightarrow> p \<noteq> P_init \<and> p \<noteq> P_last \<and> p \<noteq> P_join \<and> p \<noteq> P_done"

definition writer_ok :: "copy_sys \<Rightarrow> bool" where
  "writer_ok s \<longleftrightarrow> (case cs_writer s of
       W_start \<Rightarrow> cs_producer s = P_init \<and> cs_new s = 1 \<and> cs_toggle s = cs_wtoggle s \<and> cs_buf s = (\<lambda>_. ([], []))
     | W_wait \<Rightarrow> cs_new s = 0 \<and> cs_toggle s = cs_wtoggle s \<and> cs_buf s (1 - cs_wtoggle s) = ([], []) \<and> (early (cs_producer s) \<or> cs_producer s = P_init) \<or>
         cs_new s = 1 \<and> cs_toggle s = 1 - cs_wtoggle s \<and> fst (cs_buf s (cs_wtoggle s)) \<noteq> [] \<and> early (cs_producer s) \<or>
         cs_new s = - 1 \<and> cs_producer s = P_last \<and> cs_buf s 0 = ([], []) \<and> cs_buf s 1 = ([], [])
     | W_write rest tail \<Rightarrow> cs_new s = 0 \<and> cs_toggle s = 1 - cs_wtoggle s \<and> early (cs_producer s)
     | W_done \<Rightarrow> cs_new s = 0 \<and> cs_producer s \<in> {P_last, P_join, P_done} \<and> cs_buf s 0 = ([], []) \<and> cs_buf s 1 = ([], []))"

definition producer_ok :: "copy_sys \<Rightarrow> bool" where
  "producer_ok s \<longleftrightarrow> (case cs_producer s of
       P_init \<Rightarrow> cs_buf s (cs_toggle s) = ([], [])
     | P_fill \<Rightarrow> cs_buf s (cs_toggle s) = ([], [])
     | P_toggle st \<Rightarrow> st = 1 \<and> fst (cs_buf s (cs_toggle s)) \<noteq> [] \<or> st = - 1 \<and> cs_buf s (cs_toggle s) = ([], []) \<and> (cs_rc s = 0 \<longrightarrow> cs_todo s = [])
     | P_wait st \<Rightarrow> st = 1 \<and> fst (cs_buf s (cs_toggle s)) \<noteq> [] \<or> st = - 1 \<and> cs_buf s (cs_toggle s) = ([], []) \<and> (cs_rc s = 0 \<longrightarrow> cs_todo s = [])
     | _ \<Rightarrow> cs_rc s = 0 \<longrightarrow> cs_todo s = [])"

text \<open>The walk hands over no empty buffer, and the length of a tail fits an \<open>int\<close>.\<close>

definition chunk_ok :: "chunk \<Rightarrow> bool" where
  "chunk_ok c \<longleftrightarrow> fst c \<noteq> [] \<and> length (snd c) < 2 ^ 31"

definition copy_inv :: "chunk list \<Rightarrow> copy_sys \<Rightarrow> bool" where
  "copy_inv chunks s \<longleftrightarrow> cs_wtoggle s \<le> 1 \<and> cs_toggle s \<le> 1 \<and> (\<forall>c \<in> set (cs_todo s). chunk_ok c) \<and> (\<forall>i. length (snd (cs_buf s i)) < 2 ^ 31) \<and>
     writer_ok s \<and> producer_ok s \<and>
     cs_out s @ handed s @ chunk_bytes (cs_buf s (cs_toggle s)) @ all_bytes (cs_todo s) = all_bytes chunks"

lemmas inv_defs = copy_inv_def chunk_ok_def writer_ok_def producer_ok_def handed_def early_def chunk_bytes_def all_bytes_def

lemma inv_init: "\<forall>c \<in> set chunks. chunk_ok c \<Longrightarrow> copy_inv chunks (copy_init chunks)"
  by (simp add: inv_defs copy_init_def)

lemma toggle_cases: "cs_wtoggle s \<le> 1 \<Longrightarrow> cs_wtoggle s = 0 \<or> cs_wtoggle s = Suc 0"
  by auto

lemma handed_simps:
  "cs_writer s = W_write rest tail \<Longrightarrow> handed s = rest @ snd (cs_buf s (cs_wtoggle s))"
  "\<not> writing (cs_writer s) \<Longrightarrow> cs_toggle s = cs_wtoggle s \<Longrightarrow> handed s = []"
  "\<not> writing (cs_writer s) \<Longrightarrow> cs_toggle s \<noteq> cs_wtoggle s \<Longrightarrow> handed s = chunk_bytes (cs_buf s (cs_wtoggle s))"
  by (cases "cs_writer s"; simp add: handed_def)+

lemma take_drop_rest: "take n xs @ drop n xs @ ys = xs @ ys"
  by (metis append_assoc append_take_drop_id)

lemma inv_sleep [simp]: "copy_inv chunks (s\<lparr>cs_wsleep := b\<rparr>) = copy_inv chunks s" "copy_inv chunks (s\<lparr>cs_psleep := b\<rparr>) = copy_inv chunks s"
  by (simp_all add: inv_defs cong: writer.case_cong producer.case_cong)

lemma inv_copythr:
  assumes "copythr_step s s'" and "copy_inv chunks s" and "cs_status s = 0" and "cs_status s' = 0"
  shows "copy_inv chunks s'"
  using assms
proof (induction rule: copythr_step.induct)
  case (start s)
  then show ?case by (auto simp: inv_defs split: producer.splits)
next
  case (stop s)
  then show ?case by (auto simp: inv_defs split: producer.splits)
next
  case (take_buf s)
  then show ?case using toggle_cases[of s] by (auto simp: inv_defs split: producer.splits)
next
  case (put s rest tail n)
  then show ?case by (auto simp: inv_defs take_drop_rest split: producer.splits)
next
  case (over s tail over)
  then have "olen over = int (length over)" using olen_small[of over] by (auto simp: copy_inv_def)
  then show ?case using over toggle_cases[of s] by (auto simp: inv_defs split: producer.splits)
next
  case (release s tail)
  then have "snd (cs_buf s (cs_wtoggle s)) = []" using olen_small[of "snd (cs_buf s (cs_wtoggle s))"] by (auto simp: copy_inv_def)
  then show ?case using release toggle_cases[of s] by (auto simp: inv_defs split: producer.splits)
qed simp_all

lemma inv_toggle:
  assumes "toggle_step s s'" and "copy_inv chunks s" and "cs_status s = 0"
  shows "copy_inv chunks s'"
  using assms
proof (induction rule: toggle_step.induct)
  case (full s st)
  then show ?case by (auto simp: inv_defs split: writer.splits)
next
  case (handover s st)
  then show ?case using toggle_cases[of s] by (auto simp: inv_defs toggle_next_def split: writer.splits)
next
  case (wake s st)
  then show ?case using toggle_cases[of s] by (auto simp: inv_defs toggle_next_def split: writer.splits)
qed simp_all

lemma inv_copyfd1:
  assumes "copyfd1_step s s'" and "copy_inv chunks s"
  shows "copy_inv chunks s'"
  using assms
proof (induction rule: copyfd1_step.induct)
  case (fill s c cs)
  then show ?case using toggle_cases[of s] by (auto simp: inv_defs split: writer.splits)
next
  case (finish s)
  then show ?case using toggle_cases[of s] by (auto simp: inv_defs split: writer.splits)
next
  case (abort s rc)
  then show ?case using toggle_cases[of s] by (auto simp: inv_defs split: writer.splits)
next
  case (sleep s)
  then show ?case by simp
qed (auto simp: inv_defs split: writer.splits)

text \<open>
  No signal is lost: the writer sleeps only if nothing is handed over, and the other thread only if what it waits for does
  not hold or the writer is going to signal.
\<close>

definition sleep_ok :: "copy_sys \<Rightarrow> bool" where
  "sleep_ok s \<longleftrightarrow> (cs_wsleep s \<longrightarrow> cs_writer s = W_wait \<and> cs_new s = 0) \<and>
     (cs_psleep s \<longrightarrow> (case cs_producer s of P_init \<Rightarrow> cs_new s \<noteq> 0 | P_wait st \<Rightarrow> writing (cs_writer s) \<or> cs_new s = 1 | P_last \<Rightarrow> cs_new s \<noteq> 0 | _ \<Rightarrow> False))"

lemma sleep_copythr: "copythr_step s s' \<Longrightarrow> copy_inv chunks s \<Longrightarrow> sleep_ok s \<Longrightarrow> sleep_ok s'"
  by (induction rule: copythr_step.induct) (auto simp: sleep_ok_def copy_inv_def writer_ok_def early_def split: producer.splits)

lemma sleep_toggle: "toggle_step s s' \<Longrightarrow> sleep_ok s \<Longrightarrow> sleep_ok s'"
  by (induction rule: toggle_step.induct) (auto simp: sleep_ok_def)

lemma sleep_copyfd1: "copyfd1_step s s' \<Longrightarrow> sleep_ok s \<Longrightarrow> sleep_ok s'"
  by (induction rule: copyfd1_step.induct) (auto simp: sleep_ok_def)

lemma sleep_spurious: "spurious s s' \<Longrightarrow> sleep_ok s \<Longrightarrow> sleep_ok s'"
  by (induction rule: spurious.induct) (auto simp: sleep_ok_def split: producer.splits)

section \<open>Runs without errors\<close>

definition ok_step :: "copy_sys \<Rightarrow> copy_sys \<Rightarrow> bool" where
  "ok_step s s' \<longleftrightarrow> copy_step s s' \<and> cs_status s' = 0 \<and> cs_rc s' = 0"

definition ok_inv :: "chunk list \<Rightarrow> copy_sys \<Rightarrow> bool" where
  "ok_inv chunks s \<longleftrightarrow> copy_inv chunks s \<and> sleep_ok s \<and> cs_status s = 0 \<and> cs_rc s = 0"

lemma ok_inv_step: "ok_step s s' \<Longrightarrow> ok_inv chunks s \<Longrightarrow> ok_inv chunks s'"
  using inv_copythr inv_toggle inv_copyfd1 sleep_copythr sleep_toggle sleep_copyfd1 by (auto simp: ok_step_def ok_inv_def copy_step_def)

lemma spurious_same: "spurious s s' \<Longrightarrow> cs_status s' = cs_status s \<and> cs_rc s' = cs_rc s \<and> cs_writer s' = cs_writer s \<and> cs_out s' = cs_out s \<and> copy_inv chunks s' = copy_inv chunks s"
  by (induction rule: spurious.induct) simp_all

lemma ok_inv_spurious: "spurious s s' \<Longrightarrow> ok_inv chunks s \<Longrightarrow> ok_inv chunks s'"
  using spurious_same[of s s'] sleep_spurious[of s s'] by (simp add: ok_inv_def)

text \<open>No state of such a run is stuck before the copy has returned, even if nobody wakes up without a signal.\<close>

lemma ok_progress:
  assumes inv: "ok_inv chunks s" and go: "cs_producer s \<noteq> P_done"
  shows "\<exists>s'. ok_step s s'"
proof -
  have i: "writer_ok s" "producer_ok s" "cs_status s = 0" "cs_rc s = 0" "sleep_ok s" using inv by (auto simp: ok_inv_def copy_inv_def)
  show ?thesis
  proof (cases "cs_writer s")
    case W_start
    then show ?thesis using copythr_step.start[of s] i(3,4) by (auto simp: ok_step_def copy_step_def)
  next
    case W_wait
    show ?thesis
    proof (cases "cs_new s = 0")
      case True
      then show ?thesis
        using W_wait i go copyfd1_step.ready[of s] copyfd1_step.finish[of s] copyfd1_step.fill[of s "hd (cs_todo s)" "tl (cs_todo s)"]
          toggle_step.handover[of s] toggle_step.wake[of s]
        by (cases "cs_producer s"; cases "cs_todo s") (auto simp: ok_step_def copy_step_def writer_ok_def early_def sleep_ok_def)
    next
      case False
      then show ?thesis
        using W_wait i copythr_step.stop[of s] copythr_step.take_buf[of s] by (auto simp: ok_step_def copy_step_def writer_ok_def sleep_ok_def)
    qed
  next
    case (W_write rest tail)
    then show ?thesis
      using i(3,4) copythr_step.put[of s rest tail 1] copythr_step.over[of s tail] copythr_step.release[of s tail]
      by (cases rest; cases "olen (snd (cs_buf s (cs_wtoggle s))) = 0") (auto simp: ok_step_def copy_step_def)
  next
    case W_done
    then show ?thesis
      using i go copyfd1_step.last[of s] copyfd1_step.join[of s] by (auto simp: ok_step_def copy_step_def writer_ok_def sleep_ok_def)
  qed
qed

text \<open>
  Every step of such a run comes closer to the end, going to sleep included; waking up costs less than the step of the
  other thread gains.
\<close>

definition producer_left :: "producer \<Rightarrow> nat" where
  "producer_left p = (case p of P_init \<Rightarrow> 7 | P_fill \<Rightarrow> 6 | P_toggle st \<Rightarrow> if st < 0 then 5 else 12
     | P_wait st \<Rightarrow> if st < 0 then 4 else 11 | P_last \<Rightarrow> 2 | P_join \<Rightarrow> 1 | P_done \<Rightarrow> 0)"

definition writer_left :: "copy_sys \<Rightarrow> nat" where
  "writer_left s = (case cs_writer s of W_start \<Rightarrow> 1 | W_wait \<Rightarrow> if cs_new s = 1 then 4 else if cs_new s = - 1 then 1 else 0
     | W_write rest tail \<Rightarrow> if snd (cs_buf s (cs_wtoggle s)) = [] then 2 else 3 | W_done \<Rightarrow> 0)"

definition work_left :: "chunk list \<Rightarrow> copy_sys \<Rightarrow> nat" where
  "work_left chunks s = length (all_bytes chunks) - length (cs_out s) + 8 * length (cs_todo s) + producer_left (cs_producer s) + writer_left s"

definition steps_left :: "chunk list \<Rightarrow> copy_sys \<Rightarrow> nat" where
  "steps_left chunks s = 3 * work_left chunks s + (if cs_wsleep s then 0 else 1) + (if cs_psleep s then 0 else 1)"

lemma out_bound: "copy_inv chunks s \<Longrightarrow> length (cs_out s) + length (handed s) \<le> length (all_bytes chunks)"
  unfolding copy_inv_def by (metis append_assoc length_append le_add1)

lemma steps_left_less: "work_left chunks s' < work_left chunks s \<Longrightarrow> steps_left chunks s' < steps_left chunks s"
  by (simp add: steps_left_def)

lemma work_left_sleep [simp]: "work_left chunks (s\<lparr>cs_wsleep := b\<rparr>) = work_left chunks s" "work_left chunks (s\<lparr>cs_psleep := b\<rparr>) = work_left chunks s"
  by (simp_all add: work_left_def writer_left_def cong: writer.case_cong)

lemma left_copythr: "copythr_step s s' \<Longrightarrow> copy_inv chunks s \<Longrightarrow> cs_status s' = 0 \<Longrightarrow> cs_status s = 0 \<Longrightarrow> steps_left chunks s' < steps_left chunks s"
proof (induction rule: copythr_step.induct)
  case (put s rest tail n)
  have "length (cs_out s) + length rest \<le> length (all_bytes chunks)"
    using out_bound[OF put.prems(1)] by (simp add: handed_simps(1)[OF put.hyps(1)])
  then show ?case using put.hyps by (intro steps_left_less) (simp add: work_left_def writer_left_def)
next
  case (over s tail over)
  then have "over \<noteq> []" by (auto simp: olen_def)
  then show ?case using over by (intro steps_left_less) (simp add: work_left_def writer_left_def)
next
  case (sleep s)
  then show ?case by (simp add: steps_left_def)
qed (auto intro!: steps_left_less simp: work_left_def writer_left_def copy_inv_def writer_ok_def)

lemma left_toggle: "toggle_step s s' \<Longrightarrow> copy_inv chunks s \<Longrightarrow> cs_status s = 0 \<Longrightarrow> steps_left chunks s' < steps_left chunks s"
proof (induction rule: toggle_step.induct)
  case (handover s st)
  then show ?case
    by (intro steps_left_less) (auto simp: work_left_def writer_left_def producer_left_def toggle_next_def copy_inv_def writer_ok_def producer_ok_def early_def split: writer.splits)
next
  case (wake s st)
  then show ?case
    by (intro steps_left_less) (auto simp: work_left_def writer_left_def producer_left_def toggle_next_def copy_inv_def writer_ok_def producer_ok_def early_def split: writer.splits)
next
  case (sleep s st)
  then show ?case by (simp add: steps_left_def)
qed (auto intro!: steps_left_less simp: work_left_def writer_left_def producer_left_def split: writer.splits)

lemma left_copyfd1: "copyfd1_step s s' \<Longrightarrow> copy_inv chunks s \<Longrightarrow> steps_left chunks s' < steps_left chunks s"
proof (induction rule: copyfd1_step.induct)
  case (fill s c cs)
  then have "cs_writer s = W_write r t \<Longrightarrow> cs_toggle s \<noteq> cs_wtoggle s" for r t using toggle_cases[of s] by (auto simp: copy_inv_def writer_ok_def)
  with fill show ?case by (intro steps_left_less) (auto simp: work_left_def writer_left_def producer_left_def split: writer.splits)
next
  case (sleep s)
  then show ?case by (simp add: steps_left_def)
qed (auto intro!: steps_left_less simp: work_left_def writer_left_def producer_left_def split: writer.splits)

lemma ok_step_left: "ok_step s s' \<Longrightarrow> ok_inv chunks s \<Longrightarrow> steps_left chunks s' < steps_left chunks s"
  using left_copythr left_toggle left_copyfd1 by (auto simp: ok_step_def ok_inv_def copy_step_def)

text \<open>A run of both threads without errors, in which they may wake up without a signal.\<close>

definition ok_run :: "copy_sys \<Rightarrow> copy_sys \<Rightarrow> bool" where
  "ok_run s s' \<longleftrightarrow> ok_step s s' \<or> spurious s s'"

lemma ok_inv_runs: "ok_run\<^sup>*\<^sup>* s s' \<Longrightarrow> ok_inv chunks s \<Longrightarrow> ok_inv chunks s'"
  by (induction rule: rtranclp_induct) (auto simp: ok_run_def intro: ok_inv_step ok_inv_spurious)

lemma no_infinite_run:
  assumes init: "ok_inv chunks (f 0)" and run: "\<forall>i. ok_run (f i) (f (Suc i))" and last: "\<forall>i \<ge> n. ok_step (f i) (f (Suc i))"
  shows False
proof -
  have inv: "ok_inv chunks (f i)" for i using init run ok_inv_step ok_inv_spurious unfolding ok_run_def by (induction i) blast+
  have "steps_left chunks (f (n + i)) + i \<le> steps_left chunks (f n)" for i
  proof (induction i)
    case (Suc i)
    have "steps_left chunks (f (Suc (n + i))) < steps_left chunks (f (n + i))" using ok_step_left inv last by simp
    then show ?case using Suc by simp
  qed simp
  from this[of "Suc (steps_left chunks (f n))"] show False by simp
qed

lemma ok_done:
  assumes inv: "ok_inv chunks s" and stuck: "\<nexists>s'. ok_step s s'"
  shows "cs_producer s = P_done \<and> cs_status s = 0 \<and> cs_rc s = 0 \<and> cs_out s = all_bytes chunks"
proof -
  have "cs_producer s = P_done" using ok_progress[OF inv] stuck by blast
  then show ?thesis using inv toggle_cases[of s] by (auto simp: ok_inv_def inv_defs le_Suc_eq split: writer.splits)
qed

lemma ok_ends: "ok_inv chunks s \<Longrightarrow> \<exists>s'. ok_step\<^sup>*\<^sup>* s s' \<and> (\<nexists>s''. ok_step s' s'')"
proof (induction "steps_left chunks s" arbitrary: s rule: less_induct)
  case less
  show ?case
  proof (cases "\<exists>s1. ok_step s s1")
    case True
    then obtain s1 where s1: "ok_step s s1" ..
    then show ?thesis using less.hyps[OF ok_step_left[OF s1 less.prems] ok_inv_step[OF s1 less.prems]] by (meson converse_rtranclp_into_rtranclp)
  qed auto
qed

section \<open>What the copy promises\<close>

lemma inv_prefix: "copy_inv chunks s \<Longrightarrow> prefix (cs_out s) (all_bytes chunks)"
  unfolding copy_inv_def by (metis prefixI)

lemma any_step:
  assumes "copy_step s s'" and "cs_status s = 0 \<and> copy_inv chunks s \<or> cs_status s \<noteq> 0 \<and> cs_writer s = W_done \<and> prefix (cs_out s) (all_bytes chunks)"
  shows "cs_status s' = 0 \<and> copy_inv chunks s' \<or> cs_status s' \<noteq> 0 \<and> cs_writer s' = W_done \<and> prefix (cs_out s') (all_bytes chunks)"
proof (cases "cs_status s = 0")
  case True
  then have inv: "copy_inv chunks s" using assms(2) by simp
  have pre: "prefix (cs_out s) (all_bytes chunks)" by (rule inv_prefix[OF inv])
  have failing: "cs_writer s' = W_done \<and> cs_out s' = cs_out s" if "copythr_step s s'" "cs_status s' \<noteq> 0"
    using that True by cases auto
  have other: "cs_status s' = 0" if "toggle_step s s' \<or> copyfd1_step s s'"
    using that True by (auto elim!: toggle_step.cases copyfd1_step.cases)
  consider "copythr_step s s'" | "toggle_step s s'" | "copyfd1_step s s'" using assms(1) unfolding copy_step_def by blast
  then show ?thesis
  proof cases
    case 1
    then show ?thesis using failing pre inv_copythr[OF 1 inv True] by (cases "cs_status s' = 0") auto
  next
    case 2
    then show ?thesis using other inv_toggle[OF 2 inv True] by blast
  next
    case 3
    then show ?thesis using other inv_copyfd1[OF 3 inv] by blast
  qed
next
  case False
  then have "\<not> copythr_step s s'" using assms(2) by (auto elim: copythr_step.cases)
  then have "toggle_step s s' \<or> copyfd1_step s s'" using assms(1) by (simp add: copy_step_def)
  then show ?thesis using False assms(2) by (auto elim!: toggle_step.cases copyfd1_step.cases)
qed

lemma any_run:
  assumes "copy_run\<^sup>*\<^sup>* (copy_init chunks) s" and "\<forall>c \<in> set chunks. chunk_ok c"
  shows "cs_status s = 0 \<and> copy_inv chunks s \<or> cs_status s \<noteq> 0 \<and> cs_writer s = W_done \<and> prefix (cs_out s) (all_bytes chunks)"
  using assms(1)
proof (induction rule: rtranclp_induct)
  case base
  then show ?case using inv_init[OF assms(2)] by (simp add: copy_init_def)
next
  case (step s s')
  then show ?case using any_step[of s s'] spurious_same[of s s' chunks] unfolding copy_run_def by metis
qed

text \<open>
  C8: The threads of the compacting copy keep the order of the pages. However the two threads interleave, however
  much the system takes at a write and whenever a thread wakes up without a signal, the file is at every moment a prefix of
  the bytes the walk put into the buffers, the walk never fills the buffer that is being written, and if the
  copy returns, no write failed and the walk had no error, the file is complete. The tail of an overflow value is
  shorter than 2 GB, so that its length fits the \<open>int\<close> \<open>mc_olen\<close>; a longer one is not written. The walk hands over no
  empty buffer.
\<close>

theorem compact_copy_in_order:
  assumes "copy_run\<^sup>*\<^sup>* (copy_init chunks) s" and "\<forall>c \<in> set chunks. fst c \<noteq> [] \<and> length (snd c) < 2 ^ 31"
  shows "prefix (cs_out s) (all_bytes chunks) \<and> (writing (cs_writer s) \<and> cs_producer s = P_fill \<longrightarrow> cs_toggle s \<noteq> cs_wtoggle s) \<and>
    (cs_producer s = P_done \<and> cs_status s = 0 \<and> cs_rc s = 0 \<longrightarrow> cs_out s = all_bytes chunks)"
proof -
  have ok: "\<forall>c \<in> set chunks. chunk_ok c" using assms(2) by (simp add: chunk_ok_def)
  show ?thesis
  proof (cases "cs_status s = 0")
    case True
    then have inv: "copy_inv chunks s" using any_run[OF assms(1) ok] by simp
    have "prefix (cs_out s) (all_bytes chunks)" by (rule inv_prefix[OF inv])
    moreover have "cs_toggle s \<noteq> cs_wtoggle s" if "writing (cs_writer s)"
      using that inv toggle_cases[of s] by (cases "cs_writer s") (auto simp: copy_inv_def writer_ok_def)
    moreover have "cs_out s = all_bytes chunks" if "cs_producer s = P_done" "cs_rc s = 0"
      using inv that toggle_cases[of s] by (auto simp: inv_defs le_Suc_eq split: writer.splits)
    ultimately show ?thesis by blast
  next
    case False
    then show ?thesis using any_run[OF assms(1) ok] by auto
  qed
qed

lemma copy_returns:
  assumes "\<forall>c \<in> set chunks. chunk_ok c"
  shows "\<exists>s. ok_step\<^sup>*\<^sup>* (copy_init chunks) s \<and> (\<nexists>s'. ok_step s s') \<and> cs_producer s = P_done \<and> cs_status s = 0 \<and> cs_rc s = 0"
proof -
  have init: "ok_inv chunks (copy_init chunks)" using inv_init[OF assms] by (simp add: ok_inv_def copy_init_def sleep_ok_def)
  obtain s where s: "ok_step\<^sup>*\<^sup>* (copy_init chunks) s" "\<nexists>s'. ok_step s s'" using ok_ends[OF init] by blast
  have "ok_run\<^sup>*\<^sup>* (copy_init chunks) s" using s(1) by (rule rtranclp_mono[THEN predicate2D, rotated]) (auto simp: ok_run_def)
  then show ?thesis using s ok_done[OF ok_inv_runs[OF _ init] s(2)] by blast
qed

theorem compact_copy_in_order_witness:
  "\<exists>s. copy_run\<^sup>*\<^sup>* (copy_init [([1, 2], [3]), ([4], [])]) s \<and> cs_producer s = P_done \<and> cs_out s = [1, 2, 3, 4]"
proof -
  obtain s where s: "ok_step\<^sup>*\<^sup>* (copy_init [([1, 2], [3]), ([4], [])]) s" "cs_producer s = P_done" "cs_status s = 0" "cs_rc s = 0"
    using copy_returns[of "[([1, 2], [3]), ([4], [])]"] by (auto simp: chunk_ok_def)
  have run: "copy_run\<^sup>*\<^sup>* (copy_init [([1, 2], [3]), ([4], [])]) s"
    using s(1) by (rule rtranclp_mono[THEN predicate2D, rotated]) (auto simp: ok_step_def copy_run_def)
  then show ?thesis using compact_copy_in_order[OF run] s by (auto simp: all_bytes_def chunk_bytes_def)
qed

text \<open>
  C9: Without errors the compacting copy comes to an end under every scheduling of its threads, and no signal is missing:
  there is no infinite run in which no write fails, the walk has no error and the threads wake up without a signal
  only finitely often, and a run in which no thread can go on without such a wake-up has returned success
  with all the bytes written. In particular the two threads never wait for each other. The buffers are not empty, and
  tails are shorter than 2 GB.
\<close>

theorem compact_copy_completes:
  assumes "\<forall>c \<in> set chunks. fst c \<noteq> [] \<and> length (snd c) < 2 ^ 31"
  shows "(\<nexists>f. f 0 = copy_init chunks \<and> (\<forall>i. ok_run (f i) (f (Suc i))) \<and> (\<exists>n. \<forall>i \<ge> n. ok_step (f i) (f (Suc i)))) \<and>
    (\<forall>s. ok_run\<^sup>*\<^sup>* (copy_init chunks) s \<and> (\<nexists>s'. ok_step s s') \<longrightarrow> cs_producer s = P_done \<and> cs_rc s = 0 \<and> cs_out s = all_bytes chunks)"
proof -
  have ok: "\<forall>c \<in> set chunks. chunk_ok c" using assms by (simp add: chunk_ok_def)
  have init: "ok_inv chunks (copy_init chunks)" using inv_init[OF ok] by (simp add: ok_inv_def copy_init_def sleep_ok_def)
  have "cs_producer s = P_done \<and> cs_rc s = 0 \<and> cs_out s = all_bytes chunks" if run: "ok_run\<^sup>*\<^sup>* (copy_init chunks) s" and stuck: "\<nexists>s'. ok_step s s'" for s
    using ok_done[OF ok_inv_runs[OF run init] stuck] by blast
  then show ?thesis using no_infinite_run init by metis
qed

theorem compact_copy_completes_witness:
  "(\<nexists>f. f 0 = copy_init [([1, 2], [3])] \<and> (\<forall>i. ok_run (f i) (f (Suc i))) \<and> (\<exists>n. \<forall>i \<ge> n. ok_step (f i) (f (Suc i)))) \<and>
    (\<exists>s. ok_step\<^sup>*\<^sup>* (copy_init [([1, 2], [3])]) s \<and> cs_producer s = P_done \<and> cs_out s = [1, 2, 3])"
proof -
  let ?cs = "[([1, 2], [3])] :: chunk list"
  have c: "\<forall>c \<in> set ?cs. fst c \<noteq> [] \<and> length (snd c) < 2 ^ 31" by simp
  obtain s where s: "ok_step\<^sup>*\<^sup>* (copy_init ?cs) s" "\<nexists>s'. ok_step s s'" using copy_returns[of ?cs] by (auto simp: chunk_ok_def)
  have run: "ok_run\<^sup>*\<^sup>* (copy_init ?cs) s" using s(1) by (rule rtranclp_mono[THEN predicate2D, rotated]) (auto simp: ok_run_def)
  show ?thesis using compact_copy_completes[OF c] run s by (auto simp: all_bytes_def chunk_bytes_def)
qed

text \<open>The first buffer has been handed over and the writer has not woken up yet.\<close>

definition first_full :: "chunk \<Rightarrow> copy_sys" where
  "first_full c = \<lparr>cs_buf = (\<lambda>_. ([], []))(0 := c), cs_new = 1, cs_status = 0, cs_toggle = 1, cs_wtoggle = 0, cs_writer = W_wait,
     cs_producer = P_fill, cs_todo = [], cs_rc = 0, cs_out = [], cs_wsleep = False, cs_psleep = False\<rparr>"

lemma first_run: "copy_step\<^sup>*\<^sup>* (copy_init [c]) (first_full c)"
proof -
  let ?s0 = "copy_init [c]"
  let ?s1 = "?s0\<lparr>cs_new := 0, cs_writer := W_wait, cs_wsleep := True\<rparr>"
  let ?s2 = "?s1\<lparr>cs_producer := P_fill\<rparr>"
  let ?s3 = "?s2\<lparr>cs_buf := (\<lambda>_. ([], []))(0 := c), cs_todo := [], cs_producer := P_toggle 1\<rparr>"
  have 1: "copy_step ?s0 ?s1" using copythr_step.start[of ?s0] unfolding copy_step_def by (simp add: copy_init_def)
  have 2: "copy_step ?s1 ?s2" unfolding copy_step_def by (intro disjI2 copyfd1_step.ready) (simp_all add: copy_init_def)
  have 3: "copy_step ?s2 ?s3" using copyfd1_step.fill[of ?s2 c "[]"] unfolding copy_step_def by (cases c; cases "snd c = []") (simp_all add: copy_init_def)
  have 4: "copy_step ?s3 (first_full c)"
    using toggle_step.handover[of ?s3 1] unfolding copy_step_def by (simp add: copy_init_def toggle_next_def first_full_def)
  from 1 2 3 4 show ?thesis by (meson converse_rtranclp_into_rtranclp rtranclp.rtrancl_refl)
qed

text \<open>
  C22: A failed write can hang the compacting copy. If the write of the buffer fails while the copying thread waits in
  \<open>mdb_env_cthr_toggle\<close> to hand over the end mark, a state is reached in which the writer has returned with its error,
  nobody will reset \<open>mc_new\<close>, and neither thread can make a step: the status is looked at only before the wait, and a thread
  that wakes up without a signal goes back to sleep.
\<close>

theorem copy_write_error_hangs:
  assumes "rc \<noteq> 0" and "fst c \<noteq> []"
  shows "\<exists>s. copy_step\<^sup>*\<^sup>* (copy_init [c]) s \<and> cs_writer s = W_done \<and> cs_status s = rc \<and> cs_producer s \<noteq> P_done \<and> (\<nexists>s'. copy_step s s')"
proof -
  let ?s4 = "first_full c"
  let ?s5 = "?s4\<lparr>cs_producer := P_toggle (- 1)\<rparr>"
  let ?s6 = "?s5\<lparr>cs_producer := P_wait (- 1), cs_psleep := True\<rparr>"
  let ?s7 = "?s6\<lparr>cs_new := 0, cs_writer := W_write (fst c) False\<rparr>"
  let ?s8 = "?s7\<lparr>cs_status := rc, cs_writer := W_done, cs_psleep := False\<rparr>"
  let ?s9 = "?s8\<lparr>cs_new := - 1, cs_toggle := 0, cs_producer := P_last\<rparr>"
  let ?s10 = "?s9\<lparr>cs_psleep := True\<rparr>"
  have 5: "copy_step ?s4 ?s5" unfolding copy_step_def by (intro disjI2 copyfd1_step.finish) (simp_all add: first_full_def)
  have 6: "copy_step ?s5 ?s6" unfolding copy_step_def by (intro disjI2 disjI1 toggle_step.full) (simp_all add: first_full_def)
  have 7: "copy_step ?s6 ?s7" using copythr_step.take_buf[of ?s6] assms(2) unfolding copy_step_def by (simp add: first_full_def)
  have 8: "copy_step ?s7 ?s8" using copythr_step.fail[of ?s7 "fst c" False rc] assms unfolding copy_step_def by (simp add: first_full_def)
  have 9: "copy_step ?s8 ?s9" using toggle_step.wake[of ?s8 "- 1"] unfolding copy_step_def by (simp add: first_full_def toggle_next_def)
  have 10: "copy_step ?s9 ?s10" unfolding copy_step_def by (intro disjI2 copyfd1_step.sleep) (simp_all add: first_full_def)
  have stuck: "\<nexists>s'. copy_step ?s10 s'"
    unfolding copy_step_def by (auto simp: first_full_def elim: copythr_step.cases toggle_step.cases copyfd1_step.cases)
  have "copy_step\<^sup>*\<^sup>* (copy_init [c]) ?s10" using first_run[of c] 5 6 7 8 9 10 by (meson rtranclp.rtrancl_into_rtrancl)
  moreover have "cs_writer ?s10 = W_done \<and> cs_status ?s10 = rc \<and> cs_producer ?s10 \<noteq> P_done" by simp
  ultimately show ?thesis using stuck by blast
qed

theorem copy_write_error_hangs_witness:
  "\<exists>s. copy_step\<^sup>*\<^sup>* (copy_init [([1, 2], [3])]) s \<and> cs_writer s = W_done \<and> cs_status s = EIO \<and> cs_producer s \<noteq> P_done \<and> (\<nexists>s'. copy_step s s')"
  by (rule copy_write_error_hangs) simp_all

text \<open>
  C23: A failed write can go unreported. If the last buffer fails after the walk has handed it over, the copy returns 0
  although the file is not complete: the code that \<open>mdb_env_cthr_toggle\<close> returns for the end mark is dropped and
  \<open>mc_status\<close> is not looked at after the join.
\<close>

theorem copy_write_error_unreported:
  assumes "rc \<noteq> 0" and "fst c \<noteq> []"
  shows "\<exists>s. copy_step\<^sup>*\<^sup>* (copy_init [c]) s \<and> cs_producer s = P_done \<and> cs_rc s = 0 \<and> cs_status s = rc \<and> cs_out s = [] \<and> all_bytes [c] \<noteq> []"
proof -
  let ?s4 = "first_full c"
  let ?s5 = "?s4\<lparr>cs_new := 0, cs_writer := W_write (fst c) False\<rparr>"
  let ?s6 = "?s5\<lparr>cs_status := rc, cs_writer := W_done\<rparr>"
  let ?s7 = "?s6\<lparr>cs_producer := P_toggle (- 1)\<rparr>"
  let ?s8 = "?s7\<lparr>cs_producer := P_last\<rparr>"
  let ?s9 = "?s8\<lparr>cs_producer := P_join\<rparr>"
  let ?s10 = "?s9\<lparr>cs_producer := P_done\<rparr>"
  have 5: "copy_step ?s4 ?s5" using copythr_step.take_buf[of ?s4] assms(2) unfolding copy_step_def by (simp add: first_full_def)
  have 6: "copy_step ?s5 ?s6" using copythr_step.fail[of ?s5 "fst c" False rc] assms unfolding copy_step_def by (simp add: first_full_def)
  have 7: "copy_step ?s6 ?s7" unfolding copy_step_def by (intro disjI2 copyfd1_step.finish) (simp_all add: first_full_def)
  have 8: "copy_step ?s7 ?s8" using toggle_step.failed[of ?s7 "- 1"] assms(1) unfolding copy_step_def by (simp add: first_full_def)
  have 9: "copy_step ?s8 ?s9" unfolding copy_step_def by (intro disjI2 copyfd1_step.last) (simp_all add: first_full_def)
  have 10: "copy_step ?s9 ?s10" unfolding copy_step_def by (intro disjI2 copyfd1_step.join) (simp_all add: first_full_def)
  have "copy_step\<^sup>*\<^sup>* (copy_init [c]) ?s10" using first_run[of c] 5 6 7 8 9 10 by (meson rtranclp.rtrancl_into_rtrancl)
  moreover have "all_bytes [c] \<noteq> []" using assms(2) by (simp add: all_bytes_def chunk_bytes_def)
  ultimately show ?thesis by (intro exI[of _ ?s10]) (simp add: first_full_def)
qed

theorem copy_write_error_unreported_witness:
  "\<exists>s. copy_step\<^sup>*\<^sup>* (copy_init [([1, 2], [3])]) s \<and> cs_producer s = P_done \<and> cs_rc s = 0 \<and> cs_status s = EIO \<and> cs_out s = [] \<and> all_bytes [([1, 2], [3])] \<noteq> []"
  by (rule copy_write_error_unreported) simp_all

end
