(* ===== verification/Copy.thy ===== *)
theory Copy
  imports Env Copy_Threads
begin

section \<open>The compacting copy (mdb.c)\<close>

text \<open>
  \<open>mdb_env_cwalk\<close> and \<open>mdb_env_copyfd1\<close> as the copying thread executes them. The record \<open>mdb_copy\<close> has the fields of the
  structure that this thread uses, with the prefix \<open>my\<close> of the pointer to it, since cursors have fields named
  \<open>mc\<close> too. The handover of a buffer is seen from this thread only: it appends the contents of the buffer to
  \<open>my_sent\<close>, or it returns the error that the writer has met, given by the parameter \<open>my_status\<close> for each handover.
  After a handover the other buffer is empty. That both are what the writer makes of it is shown in the
  theory \<open>Copy_Threads\<close>: the writer writes the buffers it is given in their order, and the walk fills no buffer that
  is being written.
\<close>

abbreviation (input) MDB_WBUF :: nat where "MDB_WBUF \<equiv> 1048576"

abbreviation (input) MDB_CP_COMPACT :: u32 where "MDB_CP_COMPACT \<equiv> 1"

definition DATANAME :: bytes where
  "DATANAME = map (of_nat \<circ> of_char) ''/data.mdb''"

record mdb_copy =
  my_wbuf :: "nat \<Rightarrow> addr"
  my_over :: "nat \<Rightarrow> addr"
  my_wlen :: "nat \<Rightarrow> nat"
  my_olen :: "nat \<Rightarrow> int"
  my_txn :: nat
  my_next_pgno :: u64
  my_toggle :: nat
  my_status :: "nat \<Rightarrow> int"
  my_sent :: "chunk list"

text \<open>The writer takes the tail of an overflow page as long as its length, an \<open>int\<close>, is positive.\<close>

definition buf_chunk :: "mem \<Rightarrow> mdb_copy \<Rightarrow> chunk" where
  "buf_chunk m my = (mem_read m (my_wbuf my (my_toggle my)) (my_wlen my (my_toggle my)),
     mem_read m (my_over my (my_toggle my)) (nat (my_olen my (my_toggle my))))"

definition hand_over :: "mem \<Rightarrow> mdb_copy \<Rightarrow> int \<times> mdb_copy" where
  "hand_over m my =
     (let rc = my_status my (length (my_sent my)) in
      if rc \<noteq> 0 then (rc, my)
      else (0, my\<lparr>my_sent := my_sent my @ [buf_chunk m my], my_wlen := (my_wlen my)(my_toggle my := 0),
        my_olen := (my_olen my)(my_toggle my := 0), my_toggle := 1 - my_toggle my\<rparr>))"

definition buf_room :: "mem \<Rightarrow> mdb_copy \<Rightarrow> int \<times> mdb_copy" where
  "buf_room m my = (if my_wlen my (my_toggle my) \<ge> MDB_WBUF then hand_over m my else (0, my))"

definition buf_end :: "mdb_copy \<Rightarrow> addr" where
  "buf_end my = my_wbuf my (my_toggle my) + my_wlen my (my_toggle my)"

definition buf_grow :: "nat \<Rightarrow> mdb_copy \<Rightarrow> mdb_copy" where
  "buf_grow psize my = my\<lparr>my_wlen := (my_wlen my)(my_toggle my := my_wlen my (my_toggle my) + psize)\<rparr>"

subsection \<open>Leaf pages\<close>

text \<open>The first page of an overflow page goes into the buffer, the rest is the tail of the buffer.\<close>

definition copy_overflow :: "world \<Rightarrow> mdb_copy \<Rightarrow> addr \<Rightarrow> int \<times> u64 \<times> mdb_copy \<times> world" where
  "copy_overflow w my omp =
     (let psize = me_psize (w_env w);
          (rc, my) = buf_room (w_mem w) my
      in if rc \<noteq> 0 then (rc, 0, my, w)
         else
           (let mo = buf_end my;
                w = upd_mem (\<lambda>m. set_pgno (memmove m mo omp psize) mo (my_next_pgno my)) w;
                pages = mp_pages (w_mem w) omp;
                my = buf_grow psize (my\<lparr>my_next_pgno := my_next_pgno my + ucast pages\<rparr>);
                (rc, my) =
                  (if pages > 1 then
                     hand_over (w_mem w) (my\<lparr>my_olen := (my_olen my)(my_toggle my := sint (of_nat psize * (pages - 1))),
                       my_over := (my_over my)(my_toggle my := omp + psize)\<rparr>)
                   else (0, my))
            in (rc, mp_pgno (w_mem w) mo, my, w)))"

definition writable_leaf :: "world \<Rightarrow> nat \<Rightarrow> addr \<Rightarrow> addr \<Rightarrow> world" where
  "writable_leaf w mc leaf mp =
     (if mp \<noteq> leaf then upd_mem (\<lambda>m. mdb_page_copy m leaf mp (me_psize (w_env w))) (set_pg mc leaf w) else w)"

text \<open>
  \<open>cwalk_node\<close>: one node of a leaf; \<open>sub\<close> is the walk of a sub-database, which gives the new number of its root.
  \<open>cwalk_nodes\<close>: the nodes from the index \<open>i\<close> on.
\<close>

type_synonym walk_fn = "world \<Rightarrow> mdb_copy \<Rightarrow> u64 \<Rightarrow> u16 \<Rightarrow> (int \<times> u64 \<times> mdb_copy \<times> world) option"

definition cwalk_node :: "walk_fn \<Rightarrow> addr \<Rightarrow> nat \<Rightarrow> nat \<Rightarrow> world \<Rightarrow> mdb_copy \<Rightarrow> (int \<times> mdb_copy \<times> world) option" where
  "cwalk_node sub leaf mc i w my =
     (let mp = cur_pg w mc; flags = mn_flags (w_mem w) (NODEPTR (w_mem w) mp i) in
      if flags AND F_BIGDATA \<noteq> 0 then do {
        let w = writable_leaf w mc leaf mp;
        let ni = NODEPTR (w_mem w) leaf i;
        (rc, omp, _, w) \<leftarrow> mdb_page_get w (my_txn my) (rd64 (w_mem w) (NODEDATA (w_mem w) ni));
        if rc \<noteq> 0 then Some (rc, my, w)
        else do {
          let (rc, pg, my, w) = copy_overflow w my omp;
          if rc \<noteq> 0 then Some (rc, my, w)
          else Some (0, my, upd_mem (\<lambda>m. wr64 m (NODEDATA m ni) pg) w)
        }
      } else if flags AND F_SUBDATA \<noteq> 0 then do {
        let w = writable_leaf w mc leaf mp;
        let ni = NODEPTR (w_mem w) leaf i;
        let db = read_db (w_mem w) (NODEDATA (w_mem w) ni);
        (rc, pg, my, w) \<leftarrow> sub w my (md_root db) (mn_flags (w_mem w) ni AND F_DUPDATA);
        if rc \<noteq> 0 then Some (rc, my, w)
        else Some (0, my, upd_mem (\<lambda>m. mem_write m (NODEDATA m ni) (db_bytes (db\<lparr>md_root := pg\<rparr>))) w)
      } else Some (0, my, w))"

fun cwalk_nodes :: "walk_fn \<Rightarrow> addr \<Rightarrow> nat \<Rightarrow> nat \<Rightarrow> nat \<Rightarrow> world \<Rightarrow> mdb_copy \<Rightarrow> (int \<times> mdb_copy \<times> world) option" where
  "cwalk_nodes sub leaf mc i 0 w my = Some (0, my, w)"
| "cwalk_nodes sub leaf mc i (Suc k) w my = do {
     (rc, my, w) \<leftarrow> cwalk_node sub leaf mc i w my;
     if rc \<noteq> 0 then Some (rc, my, w) else cwalk_nodes sub leaf mc (Suc i) k w my
   }"

subsection \<open>The walk\<close>

text \<open>
  \<open>cwalk_down\<close>: from the current node of the page \<open>mp\<close> down to a leaf, branch pages being copied to the space the cursor
  has for them. The stack of the cursor has no check in the code; leaving it is no result.
\<close>

partial_function (option) cwalk_down :: "nat \<Rightarrow> nat \<Rightarrow> world \<Rightarrow> addr \<Rightarrow> (int \<times> world) option" where
  [code]: "cwalk_down t mc w mp = do {
     (rc, mp, _, w) \<leftarrow> mdb_page_get w t (NODEPGNO (w_mem w) (NODEPTR (w_mem w) mp (cur_ki w mc)));
     if rc \<noteq> 0 then Some (rc, w)
     else if mc_top (cur w mc) + 1 \<ge> CURSOR_STACK then None
     else do {
       let w = set_ki mc 0 (upd_cur mc (\<lambda>c. c\<lparr>mc_top := mc_top c + 1, mc_snum := mc_snum c + 1\<rparr>) w);
       if IS_BRANCH (w_mem w) mp then cwalk_down t mc (upd_mem (\<lambda>m. mdb_page_copy m (cur_pg w mc) mp (me_psize (w_env w))) w) mp
       else Some (0, set_pg mc mp w)
     }
   }"

text \<open>\<open>cwalk_emit\<close>: the page \<open>mp\<close> goes into the buffer under the next number.\<close>

definition cwalk_emit :: "world \<Rightarrow> mdb_copy \<Rightarrow> addr \<Rightarrow> int \<times> u64 \<times> mdb_copy \<times> world" where
  "cwalk_emit w my mp =
     (let psize = me_psize (w_env w);
          (rc, my) = buf_room (w_mem w) my
      in if rc \<noteq> 0 then (rc, 0, my, w)
         else
           (let mo = buf_end my
            in (0, my_next_pgno my, buf_grow psize (my\<lparr>my_next_pgno := my_next_pgno my + 1\<rparr>),
                upd_mem (\<lambda>m. set_pgno (mdb_page_copy m mo mp psize) mo (my_next_pgno my)) w)))"

partial_function (option) cwalk_loop ::
  "walk_fn \<Rightarrow> addr \<Rightarrow> nat \<Rightarrow> u16 \<Rightarrow> u64 \<Rightarrow> world \<Rightarrow> mdb_copy \<Rightarrow> (int \<times> u64 \<times> mdb_copy \<times> world) option" where
  [code]: "cwalk_loop sub leaf mc flags pg w my =
     (if mc_snum (cur w mc) = 0 then Some (0, pg, my, w)
      else do {
        let mp = cur_pg w mc;
        let n = NUMKEYS (w_mem w) mp;
        (rc, down, my, w) \<leftarrow>
          (if IS_LEAF (w_mem w) mp then
             (if \<not> IS_LEAF2 (w_mem w) mp \<and> flags AND F_DUPDATA = 0 then do {
                (rc, my, w) \<leftarrow> cwalk_nodes sub leaf mc 0 n w my;
                Some (rc, False, my, w)
              } else Some (0, False, my, w))
           else do {
             let w = set_ki mc (cur_ki w mc + 1) w;
             if cur_ki w mc < n then do {
               (rc, w) \<leftarrow> cwalk_down (my_txn my) mc w mp;
               Some (rc, True, my, w)
             } else Some (0, False, my, w)
           });
        if rc \<noteq> 0 then Some (rc, pg, my, w)
        else if down then cwalk_loop sub leaf mc flags pg w my
        else do {
          let (rc, no, my, w) = cwalk_emit w my (cur_pg w mc);
          if rc \<noteq> 0 then Some (rc, pg, my, w)
          else if mc_top (cur w mc) > 0 then do {
            let top = mc_top (cur w mc) - 1;
            let w = upd_mem (\<lambda>m. SETPGNO m (NODEPTR m (mc_pg (cur w mc) top) (mc_ki (cur w mc) top)) no) w;
            cwalk_loop sub leaf mc flags pg (mdb_cursor_pop mc w) my
          } else Some (0, no, my, w)
        }
      })"

text \<open>The branch pages the cursor is on are copied to the heap, one after the other.\<close>

fun copy_path :: "nat \<Rightarrow> nat \<Rightarrow> nat \<Rightarrow> addr \<Rightarrow> world \<Rightarrow> world" where
  "copy_path mc i 0 ptr w = w"
| "copy_path mc i (Suc k) ptr w =
     copy_path mc (Suc i) k (ptr + me_psize (w_env w))
       (upd_cur mc (\<lambda>c. c\<lparr>mc_pg := (mc_pg c)(i := ptr)\<rparr>) (upd_mem (\<lambda>m. mdb_page_copy m ptr (mc_pg (cur w mc) i) (me_psize (w_env w))) w))"

definition cwalk_gen :: "walk_fn \<Rightarrow> walk_fn" where
  "cwalk_gen sub w my pg flags =
     (if pg = P_INVALID then Some (MDB_SUCCESS, pg, my, w)
      else do {
        let (mc, w) = new_cur w;
        let w = upd_cur mc (\<lambda>c. c\<lparr>mc_snum := 1, mc_top := 0, mc_txn := my_txn my\<rparr>) w;
        (rc, mp, _, w) \<leftarrow> mdb_page_get w (my_txn my) pg;
        if rc \<noteq> 0 then Some (rc, pg, my, w)
        else do {
          let w = set_pg mc mp w;
          (rc, w) \<leftarrow> page_search_root_gen no_touch w mc mp None MDB_PS_FIRST;
          if rc \<noteq> 0 then Some (rc, pg, my, w)
          else do {
            let psize = me_psize (w_env w);
            let (buf, w) = heap_alloc w (psize * mc_snum (cur w mc));
            if buf = 0 then Some (ENOMEM, pg, my, w)
            else do {
              let top = mc_top (cur w mc);
              cwalk_loop sub (buf + psize * top) mc flags pg (copy_path mc 0 top buf w) my
            }
          }
        }
      })"

text \<open>\<open>mdb_env_cwalk\<close> calls itself for sub-databases; the first argument bounds how deep they may be nested.\<close>

fun mdb_env_cwalk :: "nat \<Rightarrow> walk_fn" where
  "mdb_env_cwalk 0 w my pg flags = None"
| "mdb_env_cwalk (Suc d) w my pg flags = cwalk_gen (mdb_env_cwalk d) w my pg flags"

subsection \<open>The copy\<close>

definition mem_zero :: "mem \<Rightarrow> addr \<Rightarrow> nat \<Rightarrow> mem" where
  "mem_zero m a n = (\<lambda>x. if a \<le> x \<and> x < a + n then 0 else m x)"

text \<open>\<open>count_free\<close>: the sum of the first words of the records of the free database.\<close>

partial_function (option) count_free :: "nat \<Rightarrow> world \<Rightarrow> u64 \<Rightarrow> (u64 \<times> world) option" where
  [code]: "count_free mc w freecount = do {
     (rc, _, data, w) \<leftarrow> mdb_cursor_get w (Some mc) (Some no_val) (Some no_val) MDB_NEXT;
     if rc \<noteq> 0 then Some (freecount, w)
     else do {
       d \<leftarrow> data;
       case mv_data d of
         Mem a \<Rightarrow> count_free mc w (freecount + rd64 (w_mem w) a)
       | Obj _ \<Rightarrow> None
     }
   }"

definition compact_meta :: "world \<Rightarrow> nat \<Rightarrow> u64 \<Rightarrow> MDB_meta \<Rightarrow> MDB_meta" where
  "compact_meta w t freecount mm =
     (let last_pg = mt_next_pgno (txn w t) - freecount - 1;
          main = mt_dbs (txn w t) MAIN_DBI
      in if last_pg > of_nat (NUM_METAS - 1)
         then mm\<lparr>mm_last_pg := last_pg, mm_main := main\<lparr>md_root := last_pg\<rparr>, mm_txnid := 1\<rparr>
         else mm\<lparr>mm_last_pg := last_pg, mm_main := main\<lparr>md_root := P_INVALID\<rparr>\<rparr>)"

text \<open>
  The file written is what \<open>my_sent\<close> has. The first result is the return code; the code of the last handover, the end
  mark, is dropped.
\<close>

definition mdb_env_copyfd1 :: "nat \<Rightarrow> (nat \<Rightarrow> int) \<Rightarrow> world \<Rightarrow> (int \<times> chunk list \<times> world) option" where
  "mdb_env_copyfd1 depth status w = do {
     let (wbuf, w) = heap_alloc w (MDB_WBUF * 2);
     if wbuf = 0 then Some (ENOMEM, [], w)
     else do {
       let w = upd_mem (\<lambda>m. mem_zero m wbuf (MDB_WBUF * 2)) w;
       (rc, t, w) \<leftarrow> mdb_txn_begin w None MDB_RDONLY;
       if rc \<noteq> 0 then Some (rc, [], w)
       else do {
         let psize = me_psize (w_env w);
         let mm = (mdb_env_init_meta0 w zero_meta)\<lparr>mm_address := mm_address (get_meta w 0)\<rparr>;
         let (mc, w) = new_cur w;
         w \<leftarrow> mdb_cursor_init mc t FREE_DBI None w;
         (freecount, w) \<leftarrow> count_free mc w 0;
         let free = mt_dbs (txn w t) FREE_DBI;
         let freecount = freecount + md_branch_pages free + md_leaf_pages free + md_overflow_pages free;
         let w = upd_mem (\<lambda>m. mem_write m wbuf (meta_page psize 0 mm @ meta_page psize 1 (compact_meta w t freecount mm))) w;
         let my = \<lparr>my_wbuf = (\<lambda>i. wbuf + i * MDB_WBUF), my_over = (\<lambda>_. 0), my_wlen = (\<lambda>_. 0)(0 := psize * NUM_METAS), my_olen = (\<lambda>_. 0),
           my_txn = t, my_next_pgno = of_nat NUM_METAS, my_toggle = 0, my_status = status, my_sent = []\<rparr>;
         (rc, root, my, w) \<leftarrow> mdb_env_cwalk depth w my (md_root (mt_dbs (txn w t) MAIN_DBI)) 0;
         let w = upd_txn t (\<lambda>x. x\<lparr>mt_dbs := (mt_dbs x)(MAIN_DBI := (mt_dbs x MAIN_DBI)\<lparr>md_root := root\<rparr>)\<rparr>) w;
         let (rc, my) = (if rc = MDB_SUCCESS \<and> my_wlen my (my_toggle my) \<noteq> 0 then hand_over (w_mem w) my else (rc, my));
         w \<leftarrow> mdb_txn_abort w (Some t);
         Some (rc, my_sent my, w)
       }
     }
   }"

text \<open>
  What the system does during a copy: how deep sub-databases may be nested, the errors the writer has met at each
  handover of the compacting copy, the outcomes of the writes and of \<open>mdb_fsize\<close> in the plain copy, and the outcomes
  of creating the file of a name and of closing it, 0 or an error code.
\<close>

record copy_io =
  io_depth :: nat
  io_status :: "nat \<Rightarrow> int"
  io_out1 :: "(int + nat) list"
  io_out2 :: "(int + nat) list"
  io_fsize :: "int + nat"
  io_open :: "bytes \<Rightarrow> int"
  io_close :: int

text \<open>
  The results are the return code, the file as far as it was written and the world. The writer of the compacting
  copy writes what it is given.
\<close>

definition mdb_env_copyfd2 :: "copy_io \<Rightarrow> world \<Rightarrow> u32 \<Rightarrow> (int \<times> bytes \<times> world) option" where
  "mdb_env_copyfd2 io w flags =
     (if flags AND MDB_CP_COMPACT \<noteq> 0 then do {
        (rc, sent, w) \<leftarrow> mdb_env_copyfd1 (io_depth io) (io_status io) w;
        Some (rc, all_bytes sent, w)
      } else mdb_env_copyfd0 (io_out1 io) (io_out2 io) (io_fsize io) w)"

definition mdb_env_copyfd :: "copy_io \<Rightarrow> world \<Rightarrow> (int \<times> bytes \<times> world) option" where
  "mdb_env_copyfd io w = mdb_env_copyfd2 io w 0"

text \<open>The name and the contents of the file are part of the result if it was created.\<close>

definition mdb_env_copy2 :: "copy_io \<Rightarrow> world \<Rightarrow> bytes \<Rightarrow> u32 \<Rightarrow> (int \<times> (bytes \<times> bytes) option \<times> world) option" where
  "mdb_env_copy2 io w path flags =
     (let sub = (me_flags (w_env w) AND MDB_NOSUBDIR = 0);
          lpath = (if sub then path @ DATANAME else path)
      in if sub \<and> \<not> w_ok w (length lpath + 1) then Some (ENOMEM, None, w)
         else if io_open io lpath \<noteq> 0 then Some (io_open io lpath, None, w)
         else do {
           (rc, file, w) \<leftarrow> mdb_env_copyfd2 io w flags;
           Some (if rc = MDB_SUCCESS then io_close io else rc, Some (lpath, file), w)
         })"

definition mdb_env_copy :: "copy_io \<Rightarrow> world \<Rightarrow> bytes \<Rightarrow> (int \<times> (bytes \<times> bytes) option \<times> world) option" where
  "mdb_env_copy io w path = mdb_env_copy2 io w path 0"

end
