(* ===== verification/Env_Open.thy ===== *)
theory Env_Open
  imports Env Readers "HOL-Library.Multiset"
begin

section \<open>Opening and closing an environment (mdb.c)\<close>

text \<open>
  \<open>mdb_env_open\<close>, \<open>mdb_env_setup_locks\<close>, \<open>mdb_env_close0\<close> and \<open>mdb_env_close\<close> on a 64-bit Linux with POSIX mutexes. The record
  \<open>env_files\<close> has the handles of the environment and the pointers to its blocks that are not \<open>NULL\<close>, and
  next to them what the process holds: open files, mappings with their number of pages, the key of the thread-specific
  data and memory blocks. Giving back what is not held is no result: a handle closed twice, a block freed twice,
  or a mapping unmapped with the length of more or fewer pages than it has. The outcomes of the system calls are the
  record \<open>open_io\<close>.
\<close>

datatype block = B_lpath | B_free_pgs | B_dirty_list | B_path | B_dbxs | B_dbflags | B_dbiseqs | B_pbuf | B_txn0

datatype resource = R_file nat | R_map nat | R_lockmap nat | R_key | R_mem block

record env_files =
  me_fd :: "nat option"
  me_mfd :: "nat option"
  me_lfd :: "nat option"
  me_ptrs :: "block list"
  os_held :: "resource multiset"

text \<open>
  \<open>oi_lock\<close>, \<open>oi_data\<close> and \<open>oi_sync\<close>: opening the lock file, the data file and the data file for synchronous writes, an
  error or the handle. \<open>oi_key\<close>: \<open>pthread_key_create\<close>. \<open>oi_wrlck\<close> and \<open>oi_rdlck\<close>: the two \<open>fcntl\<close> calls of
  \<open>mdb_env_excl_lock\<close>, \<open>oi_share\<close> that of \<open>mdb_env_share_locks\<close>. \<open>oi_lsize\<close>, \<open>oi_ltrunc\<close>, \<open>oi_lmap\<close>: \<open>lseek\<close>, \<open>ftruncate\<close> and
  \<open>mmap\<close> of the lock file; \<open>oi_region\<close> is what a mapping of the given size holds, magic number, format and table.
  \<open>oi_mutex\<close>: the calls that initialise the mutexes, in their order. \<open>oi_errno\<close>: \<open>errno\<close> where \<open>mdb_env_setup_locks\<close>
  looks at it after a shared lock. \<open>oi_pread\<close>, \<open>oi_ft\<close>, \<open>oi_mmap\<close>: as in \<open>mdb_env_open2\<close>.
\<close>

record open_io =
  oi_lock :: "int + nat"
  oi_key :: int
  oi_wrlck :: int
  oi_rdlck :: int
  oi_lsize :: "int + nat"
  oi_ltrunc :: int
  oi_lmap :: int
  oi_region :: "nat \<Rightarrow> u32 \<times> u32 \<times> MDB_txninfo"
  oi_mutex :: "int list"
  oi_errno :: int
  oi_data :: "int + nat"
  oi_sync :: "int + nat"
  oi_share :: int
  oi_pread :: "nat \<Rightarrow> int + bytes"
  oi_ft :: int
  oi_mmap :: "addr \<Rightarrow> nat \<Rightarrow> int + addr"

definition hold :: "resource \<Rightarrow> env_files \<Rightarrow> env_files" where
  "hold r f = f\<lparr>os_held := add_mset r (os_held f)\<rparr>"

definition release :: "resource \<Rightarrow> env_files \<Rightarrow> env_files option" where
  "release r f = (if r \<in># os_held f then Some (f\<lparr>os_held := os_held f - {#r#}\<rparr>) else None)"

text \<open>An allocation that sets a pointer of the environment, and \<open>free\<close> of such a pointer.\<close>

definition env_alloc :: "bool \<Rightarrow> block \<Rightarrow> env_files \<Rightarrow> env_files" where
  "env_alloc ok b f = (if ok then hold (R_mem b) (f\<lparr>me_ptrs := b # me_ptrs f\<rparr>) else f)"

fun env_free :: "block list \<Rightarrow> env_files \<Rightarrow> env_files option" where
  "env_free [] f = Some f"
| "env_free (b # bs) f = do {
     f \<leftarrow> (if b \<in> set (me_ptrs f) then release (R_mem b) f else Some f);
     env_free bs f
   }"

definition close_file :: "nat option \<Rightarrow> env_files \<Rightarrow> env_files option" where
  "close_file fd f = (case fd of None \<Rightarrow> Some f | Some h \<Rightarrow> release (R_file h) f)"

text \<open>The number of pages that \<open>mmap\<close> and \<open>munmap\<close> of \<open>len\<close> bytes concern.\<close>

definition os_pages :: "world \<Rightarrow> nat \<Rightarrow> nat" where
  "os_pages w len = (len + me_os_psize (w_env w) - 1) div me_os_psize (w_env w)"

subsection \<open>The lock file\<close>

abbreviation (input) sizeof_reader :: nat where "sizeof_reader \<equiv> 64"
abbreviation (input) sizeof_txninfo :: nat where "sizeof_txninfo \<equiv> 192"
abbreviation (input) MDB_LOCK_FORMAT :: u32 where "MDB_LOCK_FORMAT \<equiv> 65537"
abbreviation (input) EROFS :: int where "EROFS \<equiv> 30"
abbreviation (input) EAGAIN :: int where "EAGAIN \<equiv> 11"

text \<open>\<open>(env->me_maxreaders-1)*sizeof(MDB_reader)+sizeof(MDB_txninfo)\<close>: the difference is of type \<open>unsigned\<close>.\<close>

definition lockmap_len :: "world \<Rightarrow> nat" where
  "lockmap_len w = unat (of_nat (me_maxreaders (w_env w)) - 1 :: u32) * sizeof_reader + sizeof_txninfo"

text \<open>The size of the mapping and \<open>me_maxreaders\<close>; the sizes are unsigned where the code subtracts.\<close>

definition lock_size :: "world \<Rightarrow> nat \<Rightarrow> int \<Rightarrow> bool \<times> nat \<times> nat" where
  "lock_size w lsz excl =
     (let rsize = lockmap_len w in
      if lsz < rsize \<and> excl > 0 then (True, rsize, me_maxreaders (w_env w))
      else (False, lsz, unat (ucast ((of_nat lsz - of_nat sizeof_txninfo :: u64) div of_nat sizeof_reader + 1) :: u32)))"

definition first_error :: "int list \<Rightarrow> int" where
  "first_error rcs = (case filter (\<lambda>rc. rc \<noteq> 0) rcs of [] \<Rightarrow> 0 | rc # _ \<Rightarrow> rc)"

text \<open>\<open>mmap\<close> of no bytes fails. The region is initialised under an exclusive lock and checked otherwise.\<close>

definition lock_region :: "open_io \<Rightarrow> nat \<Rightarrow> int \<Rightarrow> world \<Rightarrow> int \<times> world" where
  "lock_region io rsize excl w =
     (let (magic, format, ti) = oi_region io rsize;
          w = upd_env (\<lambda>e. e\<lparr>me_txns := Some ti\<rparr>) w
      in if excl > 0 then
           (let rc = first_error (oi_mutex io) in
            if rc \<noteq> 0 then (rc, w)
            else (MDB_SUCCESS, upd_env (\<lambda>e. e\<lparr>me_txns := Some (ti\<lparr>mti_txnid := 0, mti_numreaders := 0\<rparr>)\<rparr>) w))
         else if magic \<noteq> MDB_MAGIC then (MDB_INVALID, w)
         else if format \<noteq> MDB_LOCK_FORMAT then (MDB_VERSION_MISMATCH, w)
         else if oi_errno io \<noteq> 0 \<and> oi_errno io \<noteq> EACCES \<and> oi_errno io \<noteq> EAGAIN then (oi_errno io, w)
         else (MDB_SUCCESS, w))"

definition setup_region :: "open_io \<Rightarrow> int \<Rightarrow> env_files \<Rightarrow> world \<Rightarrow> int \<times> env_files \<times> world" where
  "setup_region io excl f w =
     (case oi_lsize io of
        Inl rc \<Rightarrow> (rc, f, w)
      | Inr lsz \<Rightarrow>
          (let (grow, rsize, maxreaders) = lock_size w lsz excl in
           if grow \<and> oi_ltrunc io \<noteq> 0 then (oi_ltrunc io, f, w)
           else
             (let w = upd_env (\<lambda>e. e\<lparr>me_maxreaders := maxreaders\<rparr>) w in
              if rsize = 0 then (EINVAL, f, w)
              else if oi_lmap io \<noteq> 0 then (oi_lmap io, f, w)
              else (let (rc, w) = lock_region io rsize excl w in (rc, hold (R_lockmap (os_pages w rsize)) f, w)))))"

definition mdb_env_setup_locks :: "open_io \<Rightarrow> int \<Rightarrow> env_files \<Rightarrow> world \<Rightarrow> int \<times> int \<times> env_files \<times> world" where
  "mdb_env_setup_locks io excl f w =
     (case oi_lock io of
        Inl rc \<Rightarrow> (if rc = EROFS \<and> me_flags (w_env w) AND MDB_RDONLY \<noteq> 0 then MDB_SUCCESS else rc, excl, f, w)
      | Inr h \<Rightarrow>
          (let f = hold (R_file h) (f\<lparr>me_lfd := Some h\<rparr>);
               tls = (me_flags (w_env w) AND MDB_NOTLS = 0)
           in if tls \<and> oi_key io \<noteq> 0 then (oi_key io, excl, f, w)
              else
                (let f = (if tls then hold R_key f else f);
                     w = (if tls then upd_env (\<lambda>e. e\<lparr>me_flags := me_flags e OR MDB_ENV_TXKEY\<rparr>) w else w);
                     (rc, excl) = mdb_env_excl_lock (oi_wrlck io) (oi_rdlck io) excl
                 in if rc \<noteq> 0 then (rc, excl, f, w)
                    else (let (rc, f, w) = setup_region io excl f w in (rc, excl, f, w)))))"

subsection \<open>Closing\<close>

definition mdb_env_close0 :: "env_files \<Rightarrow> world \<Rightarrow> (env_files \<times> world) option" where
  "mdb_env_close0 f w =
     (if me_flags (w_env w) AND MDB_ENV_ACTIVE = 0 then Some (f, w)
      else do {
        f \<leftarrow> env_free [B_dbxs, B_pbuf, B_dbiseqs, B_dbflags, B_path, B_dirty_list, B_txn0, B_free_pgs] f;
        f \<leftarrow> (if me_flags (w_env w) AND MDB_ENV_TXKEY \<noteq> 0 then release R_key f else Some f);
        f \<leftarrow> (if me_map (w_env w) \<noteq> 0 then release (R_map (os_pages w (me_mapsize (w_env w)))) f else Some f);
        f \<leftarrow> (if me_mfd f \<noteq> me_fd f then close_file (me_mfd f) f else Some f);
        f \<leftarrow> close_file (me_fd f) f;
        (f, w) \<leftarrow>
          (if me_txns (w_env w) \<noteq> None then do {
             w \<leftarrow> close_readers w (me_close_readers (w_env w));
             f \<leftarrow> release (R_lockmap (os_pages w (lockmap_len w))) f;
             Some (f, w)
           } else Some (f, w));
        f \<leftarrow> close_file (me_lfd f) f;
        Some (f, upd_env (\<lambda>e. e\<lparr>me_flags := me_flags e AND NOT (MDB_ENV_ACTIVE OR MDB_ENV_TXKEY)\<rparr>) w)
      })"

text \<open>The pages kept for reuse are freed first; the environment itself is then gone.\<close>

partial_function (option) free_dpages :: "world \<Rightarrow> world option" where
  [code]: "free_dpages w =
     (let dp = me_dpages (w_env w) in
      if dp = 0 then Some w
      else free_dpages (upd_env (\<lambda>e. e\<lparr>me_dpages := mp_next (w_mem w) dp\<rparr>) w))"

definition mdb_env_close :: "env_files \<Rightarrow> world \<Rightarrow> (env_files \<times> world) option" where
  "mdb_env_close f w = do {
     w \<leftarrow> free_dpages w;
     mdb_env_close0 f w
   }"

subsection \<open>Opening\<close>

definition MDB_IDL_UM_SIZE :: nat where
  "MDB_IDL_UM_SIZE = 131072"

abbreviation (input) sizeof_dbx :: nat where "sizeof_dbx \<equiv> 48"
abbreviation (input) sizeof_txn :: nat where "sizeof_txn \<equiv> 136"
abbreviation (input) sizeof_db :: nat where "sizeof_db \<equiv> 48"

text \<open>\<open>path_size\<close>: the size of the block with the names of the lock file and of the data file, \<open>len\<close> being that of the path.\<close>

definition path_size :: "nat \<Rightarrow> u32 \<Rightarrow> nat" where
  "path_size len flags = (if flags AND MDB_NOSUBDIR \<noteq> 0 then len + 6 + len + 1 else len + 10 + len + 10)"

text \<open>The lists of a writer.\<close>

definition open_lists :: "u32 \<Rightarrow> env_files \<Rightarrow> world \<Rightarrow> int \<times> env_files \<times> world" where
  "open_lists flags f w =
     (if flags AND MDB_RDONLY \<noteq> 0 then (0, f, w)
      else case mdb_midl_alloc (w_ok w) (w_gid w) MDB_IDL_UM_MAX of
        None \<Rightarrow> (ENOMEM, f, w)
      | Some idl \<Rightarrow>
          (let f = env_alloc True B_free_pgs f;
               w = upd_env (\<lambda>e. e\<lparr>me_free_pgs := idl\<rparr>) w
           in if w_ok w (MDB_IDL_UM_SIZE * 16)
              then (0, env_alloc True B_dirty_list f, upd_env (\<lambda>e. e\<lparr>me_dirty_list := replicate MDB_IDL_UM_SIZE \<lparr>mid = 0, mptr = 0\<rparr>\<rparr>) w)
              else (ENOMEM, f, w)))"

definition open_handles :: "bytes \<Rightarrow> env_files \<Rightarrow> world \<Rightarrow> int \<times> env_files \<times> world" where
  "open_handles path f w =
     (let n = me_maxdbs (w_env w);
          f = env_alloc (w_ok w (length path + 1)) B_path f;
          f = env_alloc (w_ok w (n * sizeof_dbx)) B_dbxs f;
          f = env_alloc (w_ok w (n * 2)) B_dbflags f;
          f = env_alloc (w_ok w (n * 4)) B_dbiseqs f
      in if \<not> (w_ok w (length path + 1) \<and> w_ok w (n * sizeof_dbx) \<and> w_ok w (n * 2) \<and> w_ok w (n * 4)) then (ENOMEM, f, w)
         else (0, f, upd_env (\<lambda>e. e\<lparr>me_dbxs := (\<lambda>_. \<lparr>md_name = [], md_cmp = None, md_dcmp = None\<rparr>)(FREE_DBI := \<lparr>md_name = [], md_cmp = Some Cmp_long, md_dcmp = None\<rparr>),
           me_dbflags := (\<lambda>_. 0), me_dbiseqs := (\<lambda>_. 0)\<rparr>) w))"

definition open_data :: "open_io \<Rightarrow> env_files \<Rightarrow> world \<Rightarrow> int \<times> env_files \<times> world" where
  "open_data io f w =
     (case oi_data io of
        Inl rc \<Rightarrow> (rc, f, w)
      | Inr h \<Rightarrow> (0, hold (R_file h) (f\<lparr>me_fd := Some h\<rparr>), w))"

text \<open>\<open>mdb_env_open2\<close>; the file is mapped if \<open>me_map\<close> is not \<open>NULL\<close> afterwards.\<close>

definition open_map :: "open_io \<Rightarrow> env_files \<Rightarrow> world \<Rightarrow> int \<times> env_files \<times> world" where
  "open_map io f w =
     (let (rc, w) = mdb_env_open2 (oi_pread io) (oi_ft io) (oi_mmap io) w
      in (rc, if me_map (w_env w) \<noteq> 0 then hold (R_map (os_pages w (me_mapsize (w_env w)))) f else f, w))"

definition open_sync :: "open_io \<Rightarrow> u32 \<Rightarrow> env_files \<Rightarrow> world \<Rightarrow> int \<times> env_files \<times> world" where
  "open_sync io flags f w =
     (if flags AND (MDB_RDONLY OR MDB_WRITEMAP) \<noteq> 0 then (0, f\<lparr>me_mfd := me_fd f\<rparr>, w)
      else case oi_sync io of
        Inl rc \<Rightarrow> (rc, f, w)
      | Inr h \<Rightarrow> (0, hold (R_file h) (f\<lparr>me_mfd := Some h\<rparr>), w))"

text \<open>The page buffer and the transaction \<open>me_txn0\<close> that every writer uses.\<close>

definition open_txn0 :: "u32 \<Rightarrow> env_files \<Rightarrow> world \<Rightarrow> int \<times> env_files \<times> world" where
  "open_txn0 flags f w =
     (if flags AND MDB_RDONLY \<noteq> 0 then (0, f, w)
      else
        (let (pbuf, w) = heap_alloc w (me_psize (w_env w)) in
         if pbuf = 0 then (ENOMEM, f, w)
         else
           (let f = env_alloc True B_pbuf f;
                w = upd_env (\<lambda>e. e\<lparr>me_pbuf := pbuf\<rparr>) (upd_mem (\<lambda>m. mem_write m pbuf (replicate (me_psize (w_env w)) 0)) w)
            in if \<not> w_ok w (sizeof_txn + me_maxdbs (w_env w) * (sizeof_db + 8 + 4 + 1)) then (ENOMEM, f, w)
               else
                 (let (t, w) = new_txn w;
                      w = upd_txn t (\<lambda>_. zero_txn\<lparr>mt_flags := MDB_TXN_FINISHED\<rparr>) w
                  in (0, env_alloc True B_txn0 f, upd_env (\<lambda>e. e\<lparr>me_txn0 := t\<rparr>) w)))))"

text \<open>
  \<open>open_steps\<close>: everything between the allocation of the names and the label \<open>leave\<close>, each part unless one before it
  failed. The result has \<open>excl\<close> too.
\<close>

definition open_locks :: "open_io \<Rightarrow> bool \<Rightarrow> int \<Rightarrow> env_files \<Rightarrow> world \<Rightarrow> int \<times> int \<times> env_files \<times> world" where
  "open_locks io go excl f w = (if go then mdb_env_setup_locks io excl f w else (0, excl, f, w))"

definition open_tail :: "open_io \<Rightarrow> u32 \<Rightarrow> int \<Rightarrow> env_files \<Rightarrow> world \<Rightarrow> int \<times> int \<times> env_files \<times> world" where
  "open_tail io flags excl f w =
     (let (rc, f, w) = open_map io f w in
      if rc \<noteq> 0 then (rc, excl, f, w)
      else
        (let (rc, f, w) = open_sync io flags f w in
         if rc \<noteq> 0 then (rc, excl, f, w)
         else
           (let (rc, excl, w) = (if excl > 0 then mdb_env_share_locks (oi_share io) w else (0, excl, w)) in
            if rc \<noteq> 0 then (rc, excl, f, w)
            else (let (rc, f, w) = open_txn0 flags f w in (rc, excl, f, w)))))"

definition open_steps :: "open_io \<Rightarrow> bytes \<Rightarrow> u32 \<Rightarrow> env_files \<Rightarrow> world \<Rightarrow> int \<times> int \<times> env_files \<times> world" where
  "open_steps io path flags f w =
     (let (rc, f, w) = open_lists flags f w;
          w = upd_env (\<lambda>e. e\<lparr>me_flags := flags\<rparr>) w
      in if rc \<noteq> 0 then (rc, - 1, f, w)
         else
           (let (rc, f, w) = open_handles path f w in
            if rc \<noteq> 0 then (rc, - 1, f, w)
            else
              (let (rc, excl, f, w) = open_locks io (flags AND (MDB_RDONLY OR MDB_NOLOCK) = 0) (- 1) f w in
               if rc \<noteq> 0 then (rc, excl, f, w)
               else
                 (let (rc, f, w) = open_data io f w in
                  if rc \<noteq> 0 then (rc, excl, f, w)
                  else
                    (let (rc, excl, f, w) = open_locks io (flags AND (MDB_RDONLY OR MDB_NOLOCK) = MDB_RDONLY) excl f w in
                     if rc \<noteq> 0 then (rc, excl, f, w) else open_tail io flags excl f w)))))"

definition open_flags :: "u32 \<Rightarrow> world \<Rightarrow> u32" where
  "open_flags flags w =
     (let flags = flags OR me_flags (w_env w) in
      (if flags AND MDB_RDONLY \<noteq> 0 then flags AND NOT MDB_WRITEMAP else flags) OR MDB_ENV_ACTIVE)"

definition mdb_env_open :: "open_io \<Rightarrow> env_files \<Rightarrow> world \<Rightarrow> bytes \<Rightarrow> u32 \<Rightarrow> (int \<times> env_files \<times> world) option" where
  "mdb_env_open io f w path flags =
     (if me_fd f \<noteq> None \<or> flags AND NOT (CHANGEABLE OR CHANGELESS) \<noteq> 0 then Some (EINVAL, f, w)
      else if \<not> w_ok w (path_size (length path) flags) then Some (ENOMEM, f, w)
      else do {
        let f = hold (R_mem B_lpath) f;
        let (rc, excl, f, w) = open_steps io path (open_flags flags w) f w;
        (f, w) \<leftarrow> (if rc \<noteq> 0 then mdb_env_close0 f w else Some (f, w));
        f \<leftarrow> release (R_mem B_lpath) f;
        Some (rc, f, w)
      })"

end
