(* ===== verification/Env_Misc.thy ===== *)
theory Env_Misc
  imports Env_Open
begin

section \<open>What the application attaches to an environment (mdb.c)\<close>

text \<open>
  Functions that only store or read fields no other operation looks at, the system calls behind the process lock and
  the size of a file, and the version. Pointers of the application are numbers; the environment is absent for
  \<open>NULL\<close>, and so is the address an answer goes to.
\<close>

record env_user =
  me_userctx :: "nat option"
  me_assert_func :: "nat option"
  me_path :: "bytes option"
  md_rel :: "nat \<Rightarrow> nat option"
  md_relctx :: "nat \<Rightarrow> nat option"

definition mdb_env_set_userctx :: "env_user option \<Rightarrow> nat option \<Rightarrow> int \<times> env_user option" where
  "mdb_env_set_userctx env ctx = (case env of None \<Rightarrow> (EINVAL, None) | Some e \<Rightarrow> (MDB_SUCCESS, Some (e\<lparr>me_userctx := ctx\<rparr>)))"

definition mdb_env_get_userctx :: "env_user option \<Rightarrow> nat option" where
  "mdb_env_get_userctx env = (case env of None \<Rightarrow> None | Some e \<Rightarrow> me_userctx e)"

definition mdb_env_set_assert :: "env_user option \<Rightarrow> nat option \<Rightarrow> int \<times> env_user option" where
  "mdb_env_set_assert env func = (case env of None \<Rightarrow> (EINVAL, None) | Some e \<Rightarrow> (MDB_SUCCESS, Some (e\<lparr>me_assert_func := func\<rparr>)))"

definition mdb_env_get_path :: "env_user option \<Rightarrow> bool \<Rightarrow> int \<times> bytes option" where
  "mdb_env_get_path env arg =
     (case env of None \<Rightarrow> (EINVAL, None) | Some e \<Rightarrow> if \<not> arg then (EINVAL, None) else (MDB_SUCCESS, me_path e))"

definition mdb_env_get_fd :: "env_files option \<Rightarrow> bool \<Rightarrow> int \<times> nat option" where
  "mdb_env_get_fd env arg =
     (case env of None \<Rightarrow> (EINVAL, None) | Some f \<Rightarrow> if \<not> arg then (EINVAL, None) else (MDB_SUCCESS, me_fd f))"

definition mdb_set_relfunc :: "world \<Rightarrow> env_user \<Rightarrow> nat \<Rightarrow> nat \<Rightarrow> nat option \<Rightarrow> int \<times> env_user" where
  "mdb_set_relfunc w e t dbi rel =
     (if \<not> TXN_DBI_EXIST w t dbi DB_USRVALID then (EINVAL, e) else (MDB_SUCCESS, e\<lparr>md_rel := (md_rel e)(dbi := rel)\<rparr>))"

definition mdb_set_relctx :: "world \<Rightarrow> env_user \<Rightarrow> nat \<Rightarrow> nat \<Rightarrow> nat option \<Rightarrow> int \<times> env_user" where
  "mdb_set_relctx w e t dbi ctx =
     (if \<not> TXN_DBI_EXIST w t dbi DB_USRVALID then (EINVAL, e) else (MDB_SUCCESS, e\<lparr>md_relctx := (md_relctx e)(dbi := ctx)\<rparr>))"

text \<open>
  \<open>mdb_reader_pid\<close>: the outcomes of the calls of \<open>fcntl\<close> are a list, an error code or whether the byte of the process is
  locked by another; the call is repeated while it is interrupted. With \<open>check\<close> the lock is only looked at.
\<close>

abbreviation (input) EINTR :: int where "EINTR \<equiv> 4"

fun mdb_reader_pid :: "bool \<Rightarrow> (int + bool) list \<Rightarrow> int option" where
  "mdb_reader_pid check [] = None"
| "mdb_reader_pid check (Inl rc # out) = (if rc = EINTR then mdb_reader_pid check out else Some rc)"
| "mdb_reader_pid check (Inr locked # out) = Some (if check \<and> locked then - 1 else 0)"

definition mdb_fsize :: "int + nat \<Rightarrow> int \<times> nat option" where
  "mdb_fsize st = (case st of Inl rc \<Rightarrow> (rc, None) | Inr n \<Rightarrow> (MDB_SUCCESS, Some n))"

definition mdb_version :: "nat \<times> nat \<times> nat" where
  "mdb_version = (0, 9, 17)"

end
