(* ===== verification/Env_Open_Spec.thy ===== *)
theory Env_Open_Spec
  imports Env_Open Demo
begin

text \<open>
  What the process holds is accounted for by the handles, flags and pointers of the environment at every point of
  \<open>mdb_env_open\<close>, so that \<open>mdb_env_close0\<close> can give it all back.
\<close>

section \<open>What an environment owns\<close>

definition env_blocks :: "block set" where
  "env_blocks = {B_dbxs, B_pbuf, B_dbiseqs, B_dbflags, B_path, B_dirty_list, B_txn0, B_free_pgs}"

definition file_held :: "nat option \<Rightarrow> resource multiset" where
  "file_held fd = (case fd of None \<Rightarrow> {#} | Some h \<Rightarrow> {#R_file h#})"

definition map_held :: "world \<Rightarrow> resource multiset" where
  "map_held w = (if me_map (w_env w) \<noteq> 0 then {#R_map (os_pages w (me_mapsize (w_env w)))#} else {#})"

definition lockmap_held :: "world \<Rightarrow> resource multiset" where
  "lockmap_held w = (if me_txns (w_env w) \<noteq> None then {#R_lockmap (os_pages w (lockmap_len w))#} else {#})"

definition env_owns :: "env_files \<Rightarrow> world \<Rightarrow> resource multiset" where
  "env_owns f w = image_mset R_mem (mset (me_ptrs f)) + (if me_flags (w_env w) AND MDB_ENV_TXKEY \<noteq> 0 then {#R_key#} else {#}) +
     map_held w + (if me_mfd f \<noteq> me_fd f then file_held (me_mfd f) else {#}) + file_held (me_fd f) +
     lockmap_held w + file_held (me_lfd f)"

definition files_inv :: "resource multiset \<Rightarrow> env_files \<Rightarrow> world \<Rightarrow> bool" where
  "files_inv base f w \<longleftrightarrow> os_held f = base + env_owns f w \<and> distinct (me_ptrs f) \<and> set (me_ptrs f) \<subseteq> env_blocks"

lemma release_held [simp]: "os_held f = add_mset r R \<Longrightarrow> release r f = Some (f\<lparr>os_held := R\<rparr>)"
  by (simp add: release_def)

lemma close_file_held: "os_held f = base + file_held fd \<Longrightarrow> close_file fd f = Some (f\<lparr>os_held := base\<rparr>)"
  by (cases fd) (auto simp: close_file_def file_held_def)

lemma env_free_held:
  assumes "distinct bs" and "os_held f = base + image_mset R_mem (mset (filter (\<lambda>b. b \<in> set (me_ptrs f)) bs))"
  shows "env_free bs f = Some (f\<lparr>os_held := base\<rparr>)"
  using assms
proof (induction bs arbitrary: f)
  case (Cons b bs)
  show ?case
  proof (cases "b \<in> set (me_ptrs f)")
    case True
    then have "release (R_mem b) f = Some (f\<lparr>os_held := base + image_mset R_mem (mset (filter (\<lambda>b. b \<in> set (me_ptrs f)) bs))\<rparr>)"
      using Cons.prems by simp
    then show ?thesis using True Cons.IH[of "f\<lparr>os_held := base + image_mset R_mem (mset (filter (\<lambda>b. b \<in> set (me_ptrs f)) bs))\<rparr>"] Cons.prems by simp
  next
    case False
    then show ?thesis using Cons by simp
  qed
qed simp

lemma blocks_mset:
  assumes "distinct ps" and "set ps \<subseteq> set bs" and "distinct bs"
  shows "mset (filter (\<lambda>b. b \<in> set ps) bs) = mset ps"
  using assms by (subst set_eq_iff_mset_eq_distinct[symmetric]) auto

definition close_ok :: "world \<Rightarrow> bool" where
  "close_ok w \<longleftrightarrow> me_txns (w_env w) \<noteq> None \<longrightarrow> (\<exists>w'. close_readers w (me_close_readers (w_env w)) = Some w')"

lemma close_readers_lockmap: "close_readers w n = Some w' \<Longrightarrow> os_pages w' (lockmap_len w') = os_pages w (lockmap_len w)"
  by (induction n arbitrary: w) (force simp: bind_eq_Some_conv upd_reader_def os_pages_def lockmap_len_def split: if_splits)+

lemma close0_releases:
  assumes inv: "files_inv base f w" and act: "me_flags (w_env w) AND MDB_ENV_ACTIVE \<noteq> 0" and ok: "close_ok w"
  shows "\<exists>f' w'. mdb_env_close0 f w = Some (f', w') \<and> os_held f' = base"
proof -
  define K where "K = (if me_flags (w_env w) AND MDB_ENV_TXKEY \<noteq> 0 then {#R_key#} else {#})"
  define M where "M = map_held w"
  define S where "S = (if me_mfd f \<noteq> me_fd f then file_held (me_mfd f) else {#})"
  define T where "T = lockmap_held w"
  let ?bs = "[B_dbxs, B_pbuf, B_dbiseqs, B_dbflags, B_path, B_dirty_list, B_txn0, B_free_pgs]"
  let ?f = "\<lambda>R. f\<lparr>os_held := R\<rparr>"
  have held: "os_held f = base + T + file_held (me_lfd f) + file_held (me_fd f) + S + M + K + image_mset R_mem (mset (me_ptrs f))"
    using inv by (simp add: files_inv_def env_owns_def K_def M_def S_def T_def)
  have "mset (filter (\<lambda>b. b \<in> set (me_ptrs f)) ?bs) = mset (me_ptrs f)"
    by (rule blocks_mset) (use inv in \<open>auto simp: files_inv_def env_blocks_def\<close>)
  then have 1: "env_free ?bs f = Some (?f (base + T + file_held (me_lfd f) + file_held (me_fd f) + S + M + K))"
    by (intro env_free_held) (simp_all add: held)
  have 2: "(if me_flags (w_env w) AND MDB_ENV_TXKEY \<noteq> 0 then release R_key (?f (R + K)) else Some (?f (R + K))) = Some (?f R)" for R
    by (simp add: K_def)
  have 3: "(if me_map (w_env w) \<noteq> 0 then release (R_map (os_pages w (me_mapsize (w_env w)))) (?f (R + M)) else Some (?f (R + M))) = Some (?f R)" for R
    by (simp add: M_def map_held_def)
  have 4: "(if me_mfd (?f (R + S)) \<noteq> me_fd (?f (R + S)) then close_file (me_mfd (?f (R + S))) (?f (R + S)) else Some (?f (R + S))) = Some (?f R)" for R
    by (simp add: S_def close_file_held)
  have 5: "close_file (me_fd (?f R')) (?f (R + file_held (me_fd f))) = Some (?f R)"
    "close_file (me_lfd (?f R')) (?f (R + file_held (me_lfd f))) = Some (?f R)" for R R'
    by (simp_all add: close_file_held)
  have "\<exists>w'. (if me_txns (w_env w) \<noteq> None then do {
             w' \<leftarrow> close_readers w (me_close_readers (w_env w));
             f \<leftarrow> release (R_lockmap (os_pages w' (lockmap_len w'))) (?f (base + T + file_held (me_lfd f)));
             Some (f, w')
           } else Some (?f (base + T + file_held (me_lfd f)), w)) = Some (?f (base + file_held (me_lfd f)), w')"
    using ok close_readers_lockmap by (auto simp: close_ok_def T_def lockmap_held_def)
  then obtain w' where 6: "(if me_txns (w_env w) \<noteq> None then do {
             w' \<leftarrow> close_readers w (me_close_readers (w_env w));
             f \<leftarrow> release (R_lockmap (os_pages w' (lockmap_len w'))) (?f (base + T + file_held (me_lfd f)));
             Some (f, w')
           } else Some (?f (base + T + file_held (me_lfd f)), w)) = Some (?f (base + file_held (me_lfd f)), w')" ..
  show ?thesis
    unfolding mdb_env_close0_def if_not_P[OF act]
    by (simp only: 1 2 3 4 5 6 Option.bind.simps prod.case) simp
qed

section \<open>The steps of mdb_env_open\<close>

text \<open>\<open>quiet\<close>: the fields that say what the environment owns, and those that closing looks at, are the same.\<close>

definition quiet :: "world \<Rightarrow> world \<Rightarrow> bool" where
  "quiet w w' \<longleftrightarrow> me_flags (w_env w') = me_flags (w_env w) \<and> me_map (w_env w') = me_map (w_env w) \<and>
     (me_txns (w_env w') = None \<longleftrightarrow> me_txns (w_env w) = None) \<and> me_close_readers (w_env w') = me_close_readers (w_env w) \<and>
     me_dpages (w_env w') = me_dpages (w_env w) \<and> me_maxreaders (w_env w') = me_maxreaders (w_env w) \<and>
     me_os_psize (w_env w') = me_os_psize (w_env w) \<and> me_mapsize (w_env w') = me_mapsize (w_env w)"

lemma quiet_held: "quiet w w' \<Longrightarrow> map_held w' = map_held w \<and> lockmap_held w' = lockmap_held w"
  by (simp add: quiet_def map_held_def lockmap_held_def os_pages_def lockmap_len_def)

definition same_files :: "env_files \<Rightarrow> env_files \<Rightarrow> bool" where
  "same_files f f' \<longleftrightarrow> me_fd f' = me_fd f \<and> me_mfd f' = me_mfd f \<and> me_lfd f' = me_lfd f"

lemma alloc_inv:
  assumes "files_inv base f w" and "quiet w w'" and "b \<in> env_blocks" and "b \<notin> set (me_ptrs f)"
  shows "files_inv base (env_alloc ok b f) w'" and "same_files f (env_alloc ok b f)"
    and "set (me_ptrs (env_alloc ok b f)) \<subseteq> insert b (set (me_ptrs f))"
  using assms quiet_held[OF assms(2)] by (auto simp: files_inv_def env_owns_def quiet_def env_alloc_def hold_def same_files_def)

lemma alloc_next:
  assumes "files_inv base f w" and "quiet w w'" and "set (me_ptrs f) \<subseteq> A" and "b \<in> env_blocks" and "b \<notin> A"
  shows "files_inv base (env_alloc ok b f) w' \<and> same_files f (env_alloc ok b f) \<and> set (me_ptrs (env_alloc ok b f)) \<subseteq> insert b A"
  using alloc_inv[OF assms(1,2,4), of ok] assms(3,5) by blast

lemma quiet_inv: "files_inv base f w \<Longrightarrow> quiet w w' \<Longrightarrow> files_inv base f w'"
  using quiet_held[of w w'] by (simp add: files_inv_def env_owns_def quiet_def)

lemma quiet_trans: "quiet w w' \<Longrightarrow> quiet w' w'' \<Longrightarrow> quiet w w''"
  by (simp add: quiet_def)

lemma same_files_trans: "same_files f f' \<Longrightarrow> same_files f' f'' \<Longrightarrow> same_files f f''"
  by (simp add: same_files_def)

lemma open_lists_inv:
  assumes "open_lists flags f w = (rc, f', w')" and "files_inv base f w" and "me_ptrs f = []"
  shows "files_inv base f' w'" and "quiet w w'" and "same_files f f'" and "set (me_ptrs f') \<subseteq> {B_free_pgs, B_dirty_list}"
proof -
  let ?f1 = "env_alloc True B_free_pgs f"
  have q: "quiet w w'" and cases: "f' = f \<or> f' = ?f1 \<or> f' = env_alloc True B_dirty_list ?f1"
    using assms(1) unfolding open_lists_def by (auto simp: quiet_def Let_def split: if_split_asm option.split_asm)
  show "quiet w w'" by (rule q)
  have w: "quiet w w" by (simp add: quiet_def)
  note 1 = alloc_inv[OF assms(2) q, of B_free_pgs True] alloc_inv(1)[OF assms(2) w, of B_free_pgs True]
  note 2 = alloc_inv[OF 1(4) q, of B_dirty_list True]
  have "me_ptrs ?f1 = [B_free_pgs]" using assms(3) by (simp add: env_alloc_def hold_def)
  then have d: "B_dirty_list \<notin> set (me_ptrs ?f1)" by simp
  show "files_inv base f' w'" "same_files f f'" "set (me_ptrs f') \<subseteq> {B_free_pgs, B_dirty_list}"
    using cases 1 2 d assms(3) quiet_inv[OF assms(2) q] by (auto simp: env_blocks_def same_files_def env_alloc_def hold_def)
qed

lemma open_handles_inv:
  assumes "open_handles dir f w = (rc, f', w')" and "files_inv base f w" and "set (me_ptrs f) \<subseteq> {B_free_pgs, B_dirty_list}"
  shows "files_inv base f' w'" and "quiet w w'" and "same_files f f'" and "set (me_ptrs f') \<subseteq> env_blocks - {B_pbuf, B_txn0}"
proof -
  have q: "quiet w w'" using assms(1) by (auto simp: open_handles_def Let_def quiet_def split: if_splits)
  then show "quiet w w'" .
  define n where "n = me_maxdbs (w_env w)"
  define f1 where "f1 = env_alloc (w_ok w (length dir + 1)) B_path f"
  define f2 where "f2 = env_alloc (w_ok w (n * sizeof_dbx)) B_dbxs f1"
  define f3 where "f3 = env_alloc (w_ok w (n * 2)) B_dbflags f2"
  have f': "f' = env_alloc (w_ok w (n * 4)) B_dbiseqs f3"
    using assms(1) by (auto simp: open_handles_def Let_def n_def f1_def f2_def f3_def split: if_split_asm)
  note [simp] = env_blocks_def
  have w: "quiet w w" by (simp add: quiet_def)
  have 1: "files_inv base f1 w \<and> same_files f f1 \<and> set (me_ptrs f1) \<subseteq> {B_path, B_free_pgs, B_dirty_list}"
    unfolding f1_def by (rule alloc_next[OF assms(2) w assms(3)]) simp_all
  have 2: "files_inv base f2 w \<and> same_files f1 f2 \<and> set (me_ptrs f2) \<subseteq> {B_dbxs, B_path, B_free_pgs, B_dirty_list}"
    unfolding f2_def by (rule alloc_next[OF _ w]) (use 1 in simp_all)
  have 3: "files_inv base f3 w \<and> same_files f2 f3 \<and> set (me_ptrs f3) \<subseteq> {B_dbflags, B_dbxs, B_path, B_free_pgs, B_dirty_list}"
    unfolding f3_def by (rule alloc_next[OF _ w]) (use 2 in simp_all)
  have 4: "files_inv base f' w' \<and> same_files f3 f' \<and> set (me_ptrs f') \<subseteq> {B_dbiseqs, B_dbflags, B_dbxs, B_path, B_free_pgs, B_dirty_list}"
    unfolding f' by (rule alloc_next[OF _ q]) (use 3 in simp_all)
  show "files_inv base f' w'" using 4 by blast
  show "same_files f f'" using 1 2 3 4 same_files_trans by blast
  show "set (me_ptrs f') \<subseteq> env_blocks - {B_pbuf, B_txn0}" using 4 by auto
qed

text \<open>\<open>calm\<close>: as \<open>quiet\<close>, without the reader table and its size.\<close>

definition calm :: "world \<Rightarrow> world \<Rightarrow> bool" where
  "calm w w' \<longleftrightarrow> me_flags (w_env w') = me_flags (w_env w) \<and> me_map (w_env w') = me_map (w_env w) \<and>
     me_close_readers (w_env w') = me_close_readers (w_env w) \<and> me_dpages (w_env w') = me_dpages (w_env w) \<and>
     me_os_psize (w_env w') = me_os_psize (w_env w) \<and> me_mapsize (w_env w') = me_mapsize (w_env w)"

lemma calm_held: "calm w w' \<Longrightarrow> map_held w' = map_held w \<and> os_pages w' len = os_pages w len"
  by (simp add: calm_def map_held_def os_pages_def)

lemma quiet_calm: "quiet w w' \<Longrightarrow> calm w w'"
  by (simp add: quiet_def calm_def)

lemma lock_region_calm:
  assumes "lock_region io rsize excl w = (rc, w')"
  shows "calm w w' \<and> me_txns (w_env w') \<noteq> None \<and> me_maxreaders (w_env w') = me_maxreaders (w_env w)"
proof -
  obtain magic format ti where r: "oi_region io rsize = (magic, format, ti)" by (cases "oi_region io rsize") auto
  show ?thesis
    using assms unfolding lock_region_def r by (auto simp: calm_def Let_def split: if_split_asm)
qed

text \<open>
  \<open>own_lock_file\<close>: the size of a lock file that an environment made: it is new, or it has the table for some number
  of readers. Then the length that is unmapped has as many pages as the mapping.
\<close>

definition own_lock_file :: "nat \<Rightarrow> bool" where
  "own_lock_file lsz \<longleftrightarrow> lsz = 0 \<or> sizeof_txninfo \<le> lsz \<and> (lsz - sizeof_txninfo) mod sizeof_reader = 0 \<and> (lsz - sizeof_txninfo) div sizeof_reader + 1 < 2 ^ 32"

lemma lock_size_len:
  assumes "lock_size w lsz excl = (grow, rsize, maxr)" and "own_lock_file lsz" and "rsize \<noteq> 0"
  shows "lockmap_len (upd_env (\<lambda>e. e\<lparr>me_maxreaders := maxr\<rparr>) w) = rsize"
proof (cases "lsz < lockmap_len w \<and> excl > 0")
  case True
  then have "rsize = lockmap_len w" "maxr = me_maxreaders (w_env w)" using assms(1) by (simp_all add: lock_size_def Let_def)
  then show ?thesis by (simp add: lockmap_len_def)
next
  case False
  define k where "k = (lsz - sizeof_txninfo) div sizeof_reader"
  have r: "rsize = lsz" "maxr = unat (ucast ((of_nat lsz - of_nat sizeof_txninfo :: u64) div of_nat sizeof_reader + 1) :: u32)"
    using assms(1) unfolding lock_size_def Let_def if_not_P[OF False] by auto
  have lsz: "lsz = sizeof_reader * k + sizeof_txninfo" "k + 1 < 2 ^ 32"
    using assms(2,3) r(1) by (auto simp: own_lock_file_def k_def)
  have "unat (of_nat (sizeof_reader * k) div of_nat sizeof_reader :: u64) = k"
    using lsz(2) unfolding unat_div unat_of_nat by (simp add: take_bit_eq_mod)
  then have "(of_nat (sizeof_reader * k) :: u64) div of_nat sizeof_reader = of_nat k" by (metis of_nat_unat ucast_id)
  then have "(of_nat lsz - of_nat sizeof_txninfo :: u64) div of_nat sizeof_reader + 1 = of_nat (k + 1)" unfolding lsz(1) by simp
  then have "maxr = unat (of_nat (k + 1) :: u32)" unfolding r(2) using lsz(2) by (simp add: unsigned_ucast_eq unat_of_nat take_bit_eq_mod del: of_nat_add of_nat_Suc)
  then have "unat (of_nat maxr - 1 :: u32) = k" using lsz(2) by (simp add: unat_of_nat take_bit_eq_mod)
  then show ?thesis using r(1) lsz(1) by (simp add: lockmap_len_def)
qed

lemma lockmap_inv:
  assumes inv: "files_inv base f w" and none: "me_txns (w_env w) = None" and c: "calm w w'" and "me_txns (w_env w') \<noteq> None" and "lockmap_len w' = rsize"
  shows "files_inv base (hold (R_lockmap (os_pages w' rsize)) f) w'"
  using assms calm_held[OF c] unfolding files_inv_def env_owns_def lockmap_held_def hold_def calm_def by simp

lemma setup_region_inv:
  assumes run: "setup_region io excl f w = (rc, f', w')" and inv: "files_inv base f w" and none: "me_txns (w_env w) = None"
    and size: "\<And>lsz. oi_lsize io = Inr lsz \<Longrightarrow> own_lock_file lsz"
  shows "files_inv base f' w' \<and> same_files f f' \<and> me_ptrs f' = me_ptrs f \<and> calm w w'"
proof (cases "oi_lsize io")
  case (Inl e)
  then show ?thesis using run inv by (simp add: setup_region_def same_files_def calm_def)
next
  case (Inr lsz)
  obtain grow rsize maxr where l: "lock_size w lsz excl = (grow, rsize, maxr)" by (cases "lock_size w lsz excl") auto
  let ?w = "upd_env (\<lambda>e. e\<lparr>me_maxreaders := maxr\<rparr>) w"
  have inv1: "files_inv base f ?w" using inv none by (simp add: files_inv_def env_owns_def map_held_def lockmap_held_def os_pages_def)
  note run = run[unfolded setup_region_def Inr sum.case l Let_def prod.case]
  show ?thesis
  proof (cases "grow \<and> oi_ltrunc io \<noteq> 0 \<or> rsize = 0 \<or> oi_lmap io \<noteq> 0")
    case True
    then have "f' = f" "w' = w \<or> w' = ?w" using run by (auto split: if_split_asm)
    then show ?thesis using inv inv1 by (auto simp: same_files_def calm_def)
  next
    case False
    then obtain rc1 where r: "lock_region io rsize excl ?w = (rc1, w')" and f: "f' = hold (R_lockmap (os_pages w' rsize)) f"
      using run by (auto split: if_split_asm prod.split_asm)
    have c: "calm ?w w'" "me_txns (w_env w') \<noteq> None" "me_maxreaders (w_env w') = me_maxreaders (w_env ?w)" using lock_region_calm[OF r] by auto
    have "lockmap_len w' = rsize" using lock_size_len[OF l size[OF Inr]] False c(3) by (simp add: lockmap_len_def)
    then have "files_inv base f' w'" unfolding f by (intro lockmap_inv[OF inv1 _ c(1,2)]) (simp_all add: none)
    then show ?thesis using c(1) by (simp add: f same_files_def hold_def calm_def)
  qed
qed

definition lock_start :: "world \<Rightarrow> world" where
  "lock_start w = (if me_flags (w_env w) AND MDB_NOTLS = 0 then upd_env (\<lambda>e. e\<lparr>me_flags := me_flags e OR MDB_ENV_TXKEY\<rparr>) w else w)"

lemma txkey_or: "(x OR MDB_ENV_TXKEY :: u32) AND MDB_ENV_TXKEY \<noteq> 0"
  by (simp add: bit.conj_disj_distrib2)

lemma key_inv:
  assumes "files_inv base f w" and "me_flags (w_env w) AND MDB_ENV_TXKEY = 0"
  shows "files_inv base (hold R_key f) (upd_env (\<lambda>e. e\<lparr>me_flags := me_flags e OR MDB_ENV_TXKEY\<rparr>) w)"
  using assms txkey_or unfolding files_inv_def env_owns_def hold_def map_held_def lockmap_held_def os_pages_def lockmap_len_def by simp

lemma setup_locks_inv:
  assumes run: "mdb_env_setup_locks io excl f w = (rc, excl', f', w')" and inv: "files_inv base f w" and none: "me_txns (w_env w) = None"
    and lfd: "me_lfd f = None" and key: "me_flags (w_env w) AND MDB_ENV_TXKEY = 0" and size: "\<And>lsz. oi_lsize io = Inr lsz \<Longrightarrow> own_lock_file lsz"
  shows "files_inv base f' w' \<and> me_fd f' = me_fd f \<and> me_mfd f' = me_mfd f \<and> me_ptrs f' = me_ptrs f \<and> (calm w w' \<or> calm (lock_start w) w')"
proof (cases "oi_lock io")
  case (Inl e)
  then show ?thesis using run inv by (simp add: mdb_env_setup_locks_def calm_def)
next
  case (Inr h)
  let ?f = "hold (R_file h) (f\<lparr>me_lfd := Some h\<rparr>)"
  let ?tls = "me_flags (w_env w) AND MDB_NOTLS = 0"
  let ?f1 = "if ?tls then hold R_key ?f else ?f"
  obtain rc1 excl1 where e: "mdb_env_excl_lock (oi_wrlck io) (oi_rdlck io) excl = (rc1, excl1)" by (cases "mdb_env_excl_lock (oi_wrlck io) (oi_rdlck io) excl") auto
  have i: "files_inv base ?f w" using inv lfd by (simp add: files_inv_def env_owns_def hold_def file_held_def)
  have i1: "files_inv base ?f1 (lock_start w)"
    using i key_inv[OF i key] by (simp add: lock_start_def)
  note run = run[unfolded mdb_env_setup_locks_def Inr sum.case Let_def e prod.case, folded lock_start_def]
  show ?thesis
  proof (cases "?tls \<and> oi_key io \<noteq> 0")
    case True
    then show ?thesis using run i by (auto simp: hold_def calm_def)
  next
    case False
    show ?thesis
    proof (cases "rc1 \<noteq> 0")
      case True
      then show ?thesis using run False i1 by (auto simp: hold_def calm_def split: if_splits)
    next
      case False2: False
      obtain rc2 where s: "setup_region io excl1 ?f1 (lock_start w) = (rc2, f', w')"
        using run False False2 by (auto split: prod.split_asm if_splits)
      have "me_txns (w_env (lock_start w)) = None" using none by (simp add: lock_start_def)
      from setup_region_inv[OF s i1 this size] show ?thesis by (auto simp: hold_def same_files_def split: if_splits)
    qed
  qed
qed

lemma data_inv:
  assumes "files_inv base f w" and "me_fd f = None" and "me_mfd f = None"
  shows "files_inv base (hold (R_file h) (f\<lparr>me_fd := Some h\<rparr>)) w"
  using assms unfolding files_inv_def env_owns_def hold_def by (simp add: file_held_def)

lemma open_data_inv:
  assumes "open_data io f w = (rc, f', w')" and "files_inv base f w" and "me_fd f = None" and "me_mfd f = None"
  shows "files_inv base f' w' \<and> w' = w \<and> me_mfd f' = None \<and> me_lfd f' = me_lfd f \<and> me_ptrs f' = me_ptrs f \<and>
    (\<forall>h. me_fd f' = Some h \<longrightarrow> oi_data io = Inr h)"
proof (cases "oi_data io")
  case (Inl e)
  then show ?thesis using assms by (auto simp: open_data_def)
next
  case (Inr h)
  then show ?thesis using assms data_inv[OF assms(2-4), of h] by (auto simp: open_data_def hold_def)
qed

lemma map_inv:
  assumes "files_inv base f w" and "me_map (w_env w) = 0" and "me_flags (w_env w') = me_flags (w_env w)" and "me_txns (w_env w') = me_txns (w_env w)"
    and "me_maxreaders (w_env w') = me_maxreaders (w_env w)" and "me_os_psize (w_env w') = me_os_psize (w_env w)"
  shows "files_inv base (if me_map (w_env w') \<noteq> 0 then hold (R_map (os_pages w' (me_mapsize (w_env w')))) f else f) w'"
  using assms unfolding files_inv_def env_owns_def hold_def map_held_def lockmap_held_def os_pages_def lockmap_len_def by simp

lemma sync_inv:
  assumes "files_inv base f w" and "me_mfd f = None"
  shows "files_inv base (f\<lparr>me_mfd := me_fd f\<rparr>) w" and "me_fd f \<noteq> Some h \<Longrightarrow> files_inv base (hold (R_file h) (f\<lparr>me_mfd := Some h\<rparr>)) w"
  using assms unfolding files_inv_def env_owns_def hold_def by (auto simp: file_held_def)

text \<open>\<open>mdb_env_open2\<close> changes the map, the page size and the limits.\<close>

definition env_keeps :: "world \<Rightarrow> world \<Rightarrow> bool" where
  "env_keeps w w' \<longleftrightarrow> me_flags (w_env w') = me_flags (w_env w) \<and> me_txns (w_env w') = me_txns (w_env w) \<and>
     me_close_readers (w_env w') = me_close_readers (w_env w) \<and> me_dpages (w_env w') = me_dpages (w_env w) \<and>
     me_maxreaders (w_env w') = me_maxreaders (w_env w) \<and> me_os_psize (w_env w') = me_os_psize (w_env w)"

lemma env_keeps_trans: "env_keeps w w' \<Longrightarrow> env_keeps w' w'' \<Longrightarrow> env_keeps w w''"
  by (simp add: env_keeps_def)

lemma init_meta_keeps: "env_keeps w (snd (mdb_env_init_meta w meta))"
  by (auto simp: mdb_env_init_meta_def pwrite_def env_keeps_def Let_def split: prod.split sum.split)

lemma map_keeps: "env_keeps w (snd (mdb_env_map ft mmap w hint))"
  by (auto simp: mdb_env_map_def map_at_def env_keeps_def Let_def split: sum.split)

lemma header_keeps: "open2_header pread w = (rc, newenv, meta, w') \<Longrightarrow> env_keeps w w'"
  by (auto simp: open2_header_def env_keeps_def Let_def split: prod.split_asm if_split_asm)

lemma open2_keeps: "mdb_env_open2 pread ft mmap w = (rc, w') \<Longrightarrow> env_keeps w w'"
proof -
  assume run: "mdb_env_open2 pread ft mmap w = (rc, w')"
  obtain rc0 newenv meta w0 where h: "open2_header pread w = (rc0, newenv, meta, w0)" by (cases "open2_header pread w") auto
  have k0: "env_keeps w w0" by (rule header_keeps[OF h])
  define fixed where "fixed = (me_flags (w_env w) AND MDB_FIXEDMAP \<noteq> 0)"
  obtain rc1 w1 where i1: "(if newenv \<and> \<not> fixed then mdb_env_init_meta w0 meta else (0, w0)) = (rc1, w1)" by fastforce
  have k1: "env_keeps w0 w1" using i1 init_meta_keeps[of w0 meta] by (auto simp: env_keeps_def split: if_split_asm)
  obtain rc2 w2 where m: "mdb_env_map ft mmap w1 (if fixed then unat (mm_address meta) else 0) = (rc2, w2)" by fastforce
  have k2: "env_keeps w1 w2" using map_keeps[of w1 ft mmap "if fixed then unat (mm_address meta) else 0"] by (simp add: m)
  let ?meta = "meta\<lparr>mm_address := of_nat (me_map (w_env w2))\<rparr>"
  obtain rc3 w3 where i3: "(if newenv \<and> fixed then mdb_env_init_meta w2 ?meta else (0, w2)) = (rc3, w3)" by fastforce
  have k3: "env_keeps w2 w3" using i3 init_meta_keeps[of w2 ?meta] by (auto simp: env_keeps_def split: if_split_asm)
  have k4: "env_keeps w3 (upd_env open2_limits w3)" by (simp add: env_keeps_def open2_limits_def)
  have "w' \<in> {w0, w1, w2, w3, upd_env open2_limits w3}"
    using run unfolding mdb_env_open2_def Let_def fixed_def[symmetric] h prod.case i1 m i3 by (auto split: if_split_asm)
  then show ?thesis using k0 k1 k2 k3 k4 env_keeps_trans by blast
qed

lemma open_map_inv:
  assumes run: "open_map io f w = (rc, f', w')" and inv: "files_inv base f w" and map0: "me_map (w_env w) = 0"
  shows "files_inv base f' w' \<and> env_keeps w w' \<and> same_files f f' \<and> me_ptrs f' = me_ptrs f"
proof -
  obtain rc0 w0 where r: "mdb_env_open2 (oi_pread io) (oi_ft io) (oi_mmap io) w = (rc0, w0)" by fastforce
  have w: "w' = w0" "f' = (if me_map (w_env w') \<noteq> 0 then hold (R_map (os_pages w' (me_mapsize (w_env w')))) f else f)"
    using run unfolding open_map_def r by auto
  have k: "env_keeps w w'" using open2_keeps[OF r] w(1) by simp
  have "files_inv base f' w'" unfolding w(2) by (rule map_inv[OF inv map0]) (use k in \<open>simp_all add: env_keeps_def\<close>)
  then show ?thesis using k w(2) by (simp add: same_files_def hold_def)
qed

lemma open_sync_inv:
  assumes run: "open_sync io flags f w = (rc, f', w')" and inv: "files_inv base f w" and mfd: "me_mfd f = None"
    and new: "\<And>h. oi_sync io = Inr h \<Longrightarrow> me_fd f \<noteq> Some h"
  shows "files_inv base f' w' \<and> w' = w \<and> me_ptrs f' = me_ptrs f"
proof (cases "flags AND (MDB_RDONLY OR MDB_WRITEMAP) \<noteq> 0")
  case True
  then have "f' = f\<lparr>me_mfd := me_fd f\<rparr>" "w' = w" using run unfolding open_sync_def if_P[OF True] by auto
  then show ?thesis using sync_inv(1)[OF inv mfd] by simp
next
  case False
  note run = run[unfolded open_sync_def if_not_P[OF False]]
  show ?thesis
  proof (cases "oi_sync io")
    case (Inl e)
    then show ?thesis using run inv by simp
  next
    case (Inr h)
    then have "f' = hold (R_file h) (f\<lparr>me_mfd := Some h\<rparr>)" "w' = w" using run by auto
    then show ?thesis using sync_inv(2)[OF inv mfd new[OF Inr]] by (simp add: hold_def)
  qed
qed

lemma open_txn0_inv:
  assumes run: "open_txn0 flags f w = (rc, f', w')" and inv: "files_inv base f w" and ptrs: "set (me_ptrs f) \<subseteq> env_blocks - {B_pbuf, B_txn0}"
  shows "files_inv base f' w' \<and> quiet w w'"
proof -
  let ?f1 = "env_alloc True B_pbuf f"
  let ?f2 = "env_alloc True B_txn0 ?f1"
  have q: "quiet w w'" and cases: "f' = f \<or> f' = ?f1 \<or> f' = ?f2"
    using run unfolding open_txn0_def
    by (auto simp: quiet_def Let_def heap_alloc_def new_txn_def upd_env_def upd_txn_def upd_mem_def split: if_split_asm)
  have w: "quiet w w" by (simp add: quiet_def)
  have 1: "files_inv base ?f1 w0 \<and> same_files f ?f1 \<and> set (me_ptrs ?f1) \<subseteq> insert B_pbuf (env_blocks - {B_pbuf, B_txn0})" if "quiet w w0" for w0
    by (rule alloc_next[OF inv that ptrs]) (simp_all add: env_blocks_def)
  have "files_inv base ?f2 w' \<and> same_files ?f1 ?f2 \<and> set (me_ptrs ?f2) \<subseteq> insert B_txn0 (insert B_pbuf (env_blocks - {B_pbuf, B_txn0}))"
    by (rule alloc_next[OF _ q]) (use 1[OF w] in \<open>simp_all add: env_blocks_def\<close>)
  then show ?thesis using cases q 1[OF q] quiet_inv[OF inv q] by blast
qed

lemma share_quiet: "mdb_env_share_locks lk w = (rc, excl, w') \<Longrightarrow> quiet w w'"
  by (auto simp: mdb_env_share_locks_def set_mti_txnid_def quiet_def)

text \<open>\<open>closable\<close>: \<open>mdb_env_close0\<close> gives everything back.\<close>

definition closable :: "resource multiset \<Rightarrow> env_files \<Rightarrow> world \<Rightarrow> bool" where
  "closable base f w \<longleftrightarrow> files_inv base f w \<and> me_flags (w_env w) AND MDB_ENV_ACTIVE \<noteq> 0 \<and> me_close_readers (w_env w) = 0 \<and> me_dpages (w_env w) = 0"

lemma closable_closes: "closable base f w \<Longrightarrow> \<exists>f' w'. mdb_env_close0 f w = Some (f', w') \<and> os_held f' = base"
  by (rule close0_releases) (auto simp: closable_def close_ok_def)

lemma closable_quiet: "files_inv base f' w' \<Longrightarrow> quiet w w' \<Longrightarrow> closable base f w \<Longrightarrow> closable base f' w'"
  by (simp add: closable_def quiet_def)

lemma open_tail_closable:
  assumes run: "open_tail io flags excl f w = (rc, excl', f', w')" and c: "closable base f w" and map0: "me_map (w_env w) = 0"
    and mfd: "me_mfd f = None" and ptrs: "set (me_ptrs f) \<subseteq> env_blocks - {B_pbuf, B_txn0}"
    and new: "\<And>h. oi_sync io = Inr h \<Longrightarrow> me_fd f \<noteq> Some h"
  shows "closable base f' w'"
proof -
  obtain rc1 f1 w1 where 1: "open_map io f w = (rc1, f1, w1)" by (cases "open_map io f w") auto
  obtain rc2 f2 w2 where 2: "open_sync io flags f1 w1 = (rc2, f2, w2)" by (cases "open_sync io flags f1 w1") auto
  obtain rc3 e3 w3 where 3: "(if excl > 0 then mdb_env_share_locks (oi_share io) w2 else (0, excl, w2)) = (rc3, e3, w3)"
    by (cases "if excl > 0 then mdb_env_share_locks (oi_share io) w2 else (0, excl, w2)") auto
  obtain rc4 f4 w4 where 4: "open_txn0 flags f2 w3 = (rc4, f4, w4)" by (cases "open_txn0 flags f2 w3") auto
  have i: "files_inv base f w" using c by (simp add: closable_def)
  have i1: "files_inv base f1 w1 \<and> env_keeps w w1 \<and> same_files f f1 \<and> me_ptrs f1 = me_ptrs f" by (rule open_map_inv[OF 1 i map0])
  have c1: "closable base f1 w1" using i1 c by (simp add: closable_def env_keeps_def)
  have i2: "files_inv base f2 w2 \<and> w2 = w1 \<and> me_ptrs f2 = me_ptrs f1"
    by (rule open_sync_inv[OF 2]) (use i1 mfd new in \<open>auto simp: same_files_def\<close>)
  have c2: "closable base f2 w2" using i2 c1 by (auto simp: closable_def)
  have q3: "quiet w2 w3" using 3 share_quiet by (auto simp: quiet_def split: if_split_asm)
  have c3: "closable base f2 w3" by (rule closable_quiet[OF quiet_inv[OF _ q3] q3 c2]) (use i2 in blast)
  have i4: "files_inv base f4 w4 \<and> quiet w3 w4" by (rule open_txn0_inv[OF 4]) (use c3 i1 i2 ptrs in \<open>auto simp: closable_def\<close>)
  have c4: "closable base f4 w4" by (rule closable_quiet[OF _ _ c3]) (use i4 in simp_all)
  have "(f', w') \<in> {(f1, w1), (f2, w2), (f2, w3), (f4, w4)}"
    using run unfolding open_tail_def 1 Let_def prod.case 2 3 4 by (auto split: if_split_asm)
  then show ?thesis using c1 c2 c3 c4 by auto
qed

definition unlocked :: "env_files \<Rightarrow> world \<Rightarrow> bool" where
  "unlocked f w \<longleftrightarrow> me_lfd f = None \<and> me_txns (w_env w) = None \<and> me_flags (w_env w) AND MDB_ENV_TXKEY = 0"

lemma active_txkey: "(x :: u32) AND MDB_ENV_ACTIVE \<noteq> 0 \<Longrightarrow> (x OR MDB_ENV_TXKEY) AND MDB_ENV_ACTIVE \<noteq> 0"
  by (simp add: bit.conj_disj_distrib2)

lemma open_locks_closable:
  assumes run: "open_locks io go excl f w = (rc, excl', f', w')" and c: "closable base f w" and u: "go \<Longrightarrow> unlocked f w"
    and size: "\<And>lsz. oi_lsize io = Inr lsz \<Longrightarrow> own_lock_file lsz"
  shows "closable base f' w' \<and> me_fd f' = me_fd f \<and> me_mfd f' = me_mfd f \<and> me_ptrs f' = me_ptrs f \<and> me_map (w_env w') = me_map (w_env w) \<and>
    (\<not> go \<longrightarrow> f' = f \<and> w' = w)"
proof (cases go)
  case True
  then have r: "mdb_env_setup_locks io excl f w = (rc, excl', f', w')" using run by (simp add: open_locks_def)
  have i: "files_inv base f' w' \<and> me_fd f' = me_fd f \<and> me_mfd f' = me_mfd f \<and> me_ptrs f' = me_ptrs f \<and> (calm w w' \<or> calm (lock_start w) w')"
    by (rule setup_locks_inv[OF r]) (use c u[OF True] size in \<open>simp_all add: closable_def unlocked_def\<close>)
  have s: "me_map (w_env (lock_start w)) = me_map (w_env w)" "me_close_readers (w_env (lock_start w)) = me_close_readers (w_env w)"
    "me_dpages (w_env (lock_start w)) = me_dpages (w_env w)" "me_flags (w_env (lock_start w)) AND MDB_ENV_ACTIVE \<noteq> 0"
    using c active_txkey by (simp_all add: lock_start_def closable_def)
  have "me_map (w_env w') = me_map (w_env w) \<and> me_close_readers (w_env w') = me_close_readers (w_env w) \<and> me_dpages (w_env w') = me_dpages (w_env w) \<and>
      me_flags (w_env w') AND MDB_ENV_ACTIVE \<noteq> 0"
    using i s c unfolding calm_def closable_def by metis
  then show ?thesis using True c i unfolding closable_def by simp
next
  case False
  then show ?thesis using run c by (simp add: open_locks_def)
qed

definition fresh_env :: "env_files \<Rightarrow> world \<Rightarrow> bool" where
  "fresh_env f w \<longleftrightarrow> me_fd f = None \<and> me_mfd f = None \<and> me_lfd f = None \<and> me_ptrs f = [] \<and> me_map (w_env w) = 0 \<and> me_txns (w_env w) = None \<and>
     me_close_readers (w_env w) = 0 \<and> me_dpages (w_env w) = 0 \<and> me_flags (w_env w) AND MDB_ENV_TXKEY = 0"

lemma open_steps_closable:
  assumes run: "open_steps io dir flags f w = (rc, excl', f', w')" and held: "os_held f = base" and fresh: "fresh_env f w"
    and act: "flags AND MDB_ENV_ACTIVE \<noteq> 0" and key: "flags AND MDB_ENV_TXKEY = 0"
    and new: "\<And>h. oi_sync io = Inr h \<Longrightarrow> oi_data io \<noteq> Inr h" and size: "\<And>lsz. oi_lsize io = Inr lsz \<Longrightarrow> own_lock_file lsz"
  shows "closable base f' w'"
proof -
  obtain rc1 f1 w1 where 1: "open_lists flags f w = (rc1, f1, w1)" by (cases "open_lists flags f w") auto
  let ?w1 = "upd_env (\<lambda>e. e\<lparr>me_flags := flags\<rparr>) w1"
  obtain rc2 f2 w2 where 2: "open_handles dir f1 ?w1 = (rc2, f2, w2)" by (cases "open_handles dir f1 ?w1") auto
  obtain rc3 e3 f3 w3 where 3: "open_locks io (flags AND (MDB_RDONLY OR MDB_NOLOCK) = 0) (- 1) f2 w2 = (rc3, e3, f3, w3)"
    by (cases "open_locks io (flags AND (MDB_RDONLY OR MDB_NOLOCK) = 0) (- 1) f2 w2") auto
  obtain rc4 f4 w4 where 4: "open_data io f3 w3 = (rc4, f4, w4)" by (cases "open_data io f3 w3") auto
  obtain rc5 e5 f5 w5 where 5: "open_locks io (flags AND (MDB_RDONLY OR MDB_NOLOCK) = MDB_RDONLY) e3 f4 w4 = (rc5, e5, f5, w5)"
    by (cases "open_locks io (flags AND (MDB_RDONLY OR MDB_NOLOCK) = MDB_RDONLY) e3 f4 w4") auto
  have i0: "files_inv base f w" using fresh held by (simp add: files_inv_def env_owns_def fresh_env_def file_held_def map_held_def lockmap_held_def)
  have p0: "me_ptrs f = []" using fresh by (simp add: fresh_env_def)
  note i1 = open_lists_inv[OF 1 i0 p0]
  have i1': "files_inv base f1 ?w1" using i1(1,2) fresh key unfolding files_inv_def env_owns_def quiet_def fresh_env_def map_held_def lockmap_held_def os_pages_def by simp
  have c1: "closable base f1 ?w1" using i1' i1(2) fresh act by (simp add: closable_def quiet_def fresh_env_def)
  have u1: "unlocked f1 ?w1" using i1(2,3) fresh key by (simp add: unlocked_def quiet_def same_files_def fresh_env_def)
  note i2 = open_handles_inv[OF 2 i1' i1(4)]
  have c2: "closable base f2 w2" by (rule closable_quiet[OF i2(1,2) c1])
  have u2: "unlocked f2 w2" using i2(2,3) u1 by (simp add: unlocked_def quiet_def same_files_def)
  have none2: "me_fd f2 = None" "me_mfd f2 = None" "me_map (w_env w2) = 0"
    using i1(2,3) i2(2,3) fresh by (simp_all add: same_files_def fresh_env_def quiet_def)
  note i3 = open_locks_closable[OF 3 c2 u2 size]
  have i4: "files_inv base f4 w4 \<and> w4 = w3 \<and> me_mfd f4 = None \<and> me_lfd f4 = me_lfd f3 \<and> me_ptrs f4 = me_ptrs f3 \<and>
      (\<forall>h. me_fd f4 = Some h \<longrightarrow> oi_data io = Inr h)"
    by (rule open_data_inv[OF 4]) (use i3 none2 in \<open>simp_all add: closable_def\<close>)
  have c4: "closable base f4 w4" using i4 i3 by (auto simp: closable_def)
  have u4: "unlocked f4 w4" if "flags AND (MDB_RDONLY OR MDB_NOLOCK) = MDB_RDONLY"
    using that i3 i4 u2 by (auto simp: unlocked_def)
  note i5 = open_locks_closable[OF 5 c4 u4 size]
  have "closable base f' w'" if "open_tail io flags e5 f5 w5 = (rc, excl', f', w')"
    by (rule open_tail_closable[OF that]) (use i5 i4 i3 i2(4) none2 new in auto)
  moreover have "(f', w') \<in> {(f1, ?w1), (f2, w2), (f3, w3), (f4, w4), (f5, w5)} \<or> open_tail io flags e5 f5 w5 = (rc, excl', f', w')"
    using run unfolding open_steps_def 1 Let_def prod.case 2 3 4 5 by (auto split: if_split_asm)
  ultimately show ?thesis using c1 c2 i3 c4 i5 by auto
qed

section \<open>Nothing is lost\<close>

lemma and_not_zero: "(x :: u32) AND NOT m = 0 \<Longrightarrow> m AND k = 0 \<Longrightarrow> x AND k = 0"
  by (simp add: bit_eq_iff bit_simps)

lemma or_and_zero: "(x :: u32) AND k = 0 \<Longrightarrow> y AND k = 0 \<Longrightarrow> (x OR y) AND k = 0"
  by (simp add: bit_eq_iff bit_simps) blast

lemma and_and_zero: "(x :: u32) AND k = 0 \<Longrightarrow> (x AND m) AND k = 0"
  by (simp add: bit_eq_iff bit_simps)

lemma or_and_same: "((x :: u32) OR k) AND k = k"
  by (auto simp: bit_eq_iff bit_simps)

lemma open_flags_bits:
  assumes "flags AND NOT (CHANGEABLE OR CHANGELESS) = 0" and "me_flags (w_env w) AND MDB_ENV_TXKEY = 0"
  shows "open_flags flags w AND MDB_ENV_ACTIVE \<noteq> 0" and "open_flags flags w AND MDB_ENV_TXKEY = 0"
proof -
  have "flags AND MDB_ENV_TXKEY = 0" by (rule and_not_zero[OF assms(1)]) simp
  then have or: "(flags OR me_flags (w_env w)) AND MDB_ENV_TXKEY = 0" by (rule or_and_zero[OF _ assms(2)])
  show "open_flags flags w AND MDB_ENV_TXKEY = 0"
    unfolding open_flags_def Let_def
    by (rule or_and_zero) (use or and_and_zero[OF or, of "NOT MDB_WRITEMAP"] in \<open>auto split: if_split\<close>)
  show "open_flags flags w AND MDB_ENV_ACTIVE \<noteq> 0" unfolding open_flags_def Let_def or_and_same by simp
qed

lemma closable_release:
  assumes "closable (add_mset r base) f w"
  shows "\<exists>f'. release r f = Some f' \<and> closable base f' w"
  using assms unfolding closable_def files_inv_def env_owns_def by simp

text \<open>
  C10: Opening and closing an environment is balanced. Whatever system call or allocation fails, \<open>mdb_env_open\<close> returns, and
  then the process holds exactly the files, mappings, keys and memory blocks it held before; after a
  successful open that holds once \<open>mdb_env_close\<close> was called. No handle is closed and no block is freed twice. The
  hypotheses are a new environment, that \<open>open\<close> does not return a handle that is in use, and that the lock file has the
  size of one that an environment made: it is empty, or has the table of slots for some number of readers. With
  another size \<open>me_maxreaders\<close> does not give the length of the mapping, and closing does not unmap what was mapped.
\<close>

theorem env_open_close_balanced:
  assumes fresh: "fresh_env f w" and new: "\<forall>h. oi_sync io = Inr h \<longrightarrow> oi_data io \<noteq> Inr h" and size: "\<forall>lsz. oi_lsize io = Inr lsz \<longrightarrow> own_lock_file lsz"
  shows "\<exists>rc f' w'. mdb_env_open io f w dir flags = Some (rc, f', w') \<and>
    (if rc = 0 then \<exists>f'' w''. mdb_env_close f' w' = Some (f'', w'') \<and> os_held f'' = os_held f else os_held f' = os_held f)"
proof (cases "flags AND NOT (CHANGEABLE OR CHANGELESS) \<noteq> 0 \<or> \<not> w_ok w (path_size (length dir) flags)")
  case True
  then show ?thesis using fresh unfolding mdb_env_open_def fresh_env_def ENOMEM_def by auto
next
  case False
  let ?f = "hold (R_mem B_lpath) f" and ?base = "add_mset (R_mem B_lpath) (os_held f)"
  obtain rc excl f1 w1 where s: "open_steps io dir (open_flags flags w) ?f w = (rc, excl, f1, w1)"
    by (cases "open_steps io dir (open_flags flags w) ?f w") auto
  have c: "closable ?base f1 w1"
    by (rule open_steps_closable[OF s])
      (use fresh new size open_flags_bits[of flags w] False in \<open>auto simp: fresh_env_def hold_def\<close>)
  have open_eq: "mdb_env_open io f w dir flags = do {
      (f, w) \<leftarrow> (if rc \<noteq> 0 then mdb_env_close0 f1 w1 else Some (f1, w1));
      f \<leftarrow> release (R_mem B_lpath) f;
      Some (rc, f, w) }"
    using False fresh unfolding mdb_env_open_def Let_def s fresh_env_def by simp
  show ?thesis
  proof (cases "rc = 0")
    case True
    obtain f2 where r: "release (R_mem B_lpath) f1 = Some f2" and c2: "closable (os_held f) f2 w1" using closable_release[OF c] by blast
    obtain f3 w3 where "mdb_env_close0 f2 w1 = Some (f3, w3)" "os_held f3 = os_held f" using closable_closes[OF c2] by blast
    moreover have "free_dpages w1 = Some w1" using c by (subst free_dpages.simps) (simp add: closable_def)
    ultimately show ?thesis using True r by (simp add: open_eq mdb_env_close_def)
  next
    case False
    obtain f2 w2 where "mdb_env_close0 f1 w1 = Some (f2, w2)" "os_held f2 = ?base" using closable_closes[OF c] by blast
    then show ?thesis using False by (simp add: open_eq)
  qed
qed

definition no_files :: env_files where
  "no_files = \<lparr>me_fd = None, me_mfd = None, me_lfd = None, me_ptrs = [], os_held = {#R_file 0, R_file 1, R_file 2#}\<rparr>"

definition created :: world where
  "created = demo\<lparr>w_env := the (snd (mdb_env_create True 7 4096))\<rparr>"

definition no_space :: open_io where
  "no_space = \<lparr>oi_lock = Inr 3, oi_key = 0, oi_wrlck = 0, oi_rdlck = 0, oi_lsize = Inr 0, oi_ltrunc = ENOSPC, oi_lmap = 0,
     oi_region = (\<lambda>_. (0, 0, \<lparr>mti_txnid = 0, mti_numreaders = 0, mti_readers = []\<rparr>)), oi_mutex = [], oi_errno = 0, oi_data = Inr 4, oi_sync = Inr 5,
     oi_share = 0, oi_pread = (\<lambda>_. Inr []), oi_ft = 0, oi_mmap = (\<lambda>_ _. Inr 65536)\<rparr>"

theorem env_open_close_balanced_witness:
  "\<exists>rc f' w'. mdb_env_open no_space no_files created [47, 100] 0 = Some (rc, f', w') \<and>
    (if rc = 0 then \<exists>f'' w''. mdb_env_close f' w' = Some (f'', w'') \<and> os_held f'' = os_held no_files else os_held f' = os_held no_files)"
  by (rule env_open_close_balanced) (simp_all add: fresh_env_def no_files_def created_def mdb_env_create_def no_space_def own_lock_file_def)

end
