(* ===== verification/Reader_List.thy ===== *)
theory Reader_List
  imports Readers Demo
begin

section \<open>Listing the readers (mdb.c)\<close>

text \<open>
  \<open>mdb_reader_list\<close>: a line of text for each used slot of the reader table, passed to a function of the caller. The
  function and its context are parameters: it takes a message and its state and gives a code and a new state.
\<close>

subsection \<open>Formatting\<close>

definition digit_char :: "nat \<Rightarrow> char" where
  "digit_char d = char_of (if d < 10 then 48 + d else 87 + d)"

text \<open>\<open>%u\<close> and \<open>%x\<close>: the digits of a number to the base \<open>b\<close>.\<close>

function digits :: "nat \<Rightarrow> nat \<Rightarrow> string" where
  "digits b n = (if b < 2 \<or> n < b then [digit_char n] else digits b (n div b) @ [digit_char (n mod b)])"
  by pat_completeness auto

termination
  by (relation "measure snd") auto

declare digits.simps [simp del]

text \<open>\<open>%10d\<close> of a signed integer.\<close>

definition fmt_10d :: "int \<Rightarrow> string" where
  "fmt_10d i =
     (let s = (if i < 0 then CHR ''-'' # digits 10 (nat (- i)) else digits 10 (nat i))
      in replicate (10 - length s) CHR '' '' @ s)"

definition reader_line :: "MDB_reader \<Rightarrow> string" where
  "reader_line r = fmt_10d (sint (of_nat (mr_pid r) :: 32 word)) @ '' '' @ digits 16 (mr_tid r mod 2 ^ 64) @ '' '' @
     (if mr_txnid r = - 1 then ''-'' else digits 10 (unat (mr_txnid r))) @ [CHR 0x0A]"

definition reader_header :: string where
  "reader_header = ''    pid     thread     txnid'' @ [CHR 0x0A]"

subsection \<open>The list\<close>

text \<open>The loop from the slot \<open>i\<close> on; it ends early if the function returns a negative code.\<close>

fun reader_loop :: "(string \<Rightarrow> 's \<Rightarrow> int \<times> 's) \<Rightarrow> MDB_reader list \<Rightarrow> nat \<Rightarrow> nat \<Rightarrow> bool \<Rightarrow> int \<Rightarrow> 's \<Rightarrow> (bool \<times> int \<times> 's) option" where
  "reader_loop func rs i 0 first rc s = Some (first, rc, s)"
| "reader_loop func rs i (Suc k) first rc s = do {
     r \<leftarrow> aget rs i;
     if mr_pid r = 0 then reader_loop func rs (Suc i) k first rc s
     else do {
       let (rc, s) = (if first then func reader_header s else (0, s));
       if first \<and> rc < 0 then Some (False, rc, s)
       else do {
         let (rc, s) = func (reader_line r) s;
         if rc < 0 then Some (False, rc, s) else reader_loop func rs (Suc i) k False rc s
       }
     }
   }"

definition mdb_reader_list :: "world \<Rightarrow> (string \<Rightarrow> 's \<Rightarrow> int \<times> 's) option \<Rightarrow> 's \<Rightarrow> (int \<times> 's) option" where
  "mdb_reader_list w func s =
     (case func of
        None \<Rightarrow> Some (- 1, s)
      | Some func \<Rightarrow>
          (case me_txns (w_env w) of
             None \<Rightarrow> Some (func (''(no reader locks)'' @ [CHR 0x0A]) s)
           | Some ti \<Rightarrow> do {
               (first, rc, s) \<leftarrow> reader_loop func (mti_readers ti) 0 (mti_numreaders ti) True 0 s;
               Some (if first then func (''(no active readers)'' @ [CHR 0x0A]) s else (rc, s))
             }))"

section \<open>The lines fit their buffer and list every reader\<close>

lemma digits_length: "b \<ge> 2 \<Longrightarrow> n < b ^ k \<Longrightarrow> k > 0 \<Longrightarrow> length (digits b n) \<le> k"
proof (induction k arbitrary: n)
  case (Suc k)
  show ?case
  proof (cases "n < b")
    case True
    then show ?thesis by (subst digits.simps) simp
  next
    case False
    then have "k > 0" using Suc.prems by (cases k) auto
    moreover have "n div b < b ^ k" using Suc.prems by (simp add: less_mult_imp_div_less mult.commute)
    ultimately have "length (digits b (n div b)) \<le> k" using Suc by simp
    then show ?thesis using False Suc.prems(1) by (subst digits.simps) simp
  qed
qed simp

lemma fmt_10d_length:
  assumes "- (2 ^ 31) \<le> i" and "i < 2 ^ 31"
  shows "length (fmt_10d i) \<le> 11"
proof -
  have "length (digits 10 (nat i)) \<le> 10" "length (digits 10 (nat (- i))) \<le> 10"
    by (rule digits_length; use assms in simp)+
  then show ?thesis by (simp add: fmt_10d_def Let_def) arith
qed

lemma reader_line_length: "length (reader_line r) < 64"
proof -
  have "length (fmt_10d (sint (of_nat (mr_pid r) :: 32 word))) \<le> 11"
    by (rule fmt_10d_length) (use sint_ge[of "of_nat (mr_pid r) :: 32 word"] sint_lt[of "of_nat (mr_pid r) :: 32 word"] in simp_all)
  moreover have "length (digits 16 (mr_tid r mod 2 ^ 64)) \<le> 16" by (rule digits_length) simp_all
  moreover have "length (digits 10 (unat (mr_txnid r))) \<le> 20"
    by (rule digits_length) (use unsigned_less[of "mr_txnid r", where ?'a = nat] in simp_all)
  ultimately show ?thesis by (simp add: reader_line_def)
qed

lemma reader_loop_lists:
  assumes "i + k \<le> length rs"
  shows "reader_loop (\<lambda>m s. (0, s @ [m])) rs i k first 0 s =
    (let ls = map reader_line (filter (\<lambda>r. mr_pid r \<noteq> 0) (take k (drop i rs)))
     in Some (first \<and> ls = [], 0, s @ (if first \<and> ls \<noteq> [] then [reader_header] else []) @ ls))"
  using assms
proof (induction k arbitrary: i first s)
  case (Suc k)
  then have i: "i < length rs" by simp
  then have d: "take (Suc k) (drop i rs) = rs ! i # take k (drop (Suc i) rs)" by (simp add: Cons_nth_drop_Suc[symmetric])
  show ?case using Suc.IH[of "Suc i"] Suc.prems i by (auto simp: d Let_def)
qed (simp add: Let_def)

text \<open>
  C37: \<open>mdb_reader_list\<close> hands the header and then one line per used slot, in the order of the table, to a function that accepts
  them all, or a single message if there is none; and each line it formats, with its terminating null,
  fits the buffer of 64 bytes whatever the process, thread and transaction IDs are.
\<close>

theorem reader_list_complete:
  assumes "me_txns (w_env w) = Some ti" and "mti_numreaders ti \<le> length (mti_readers ti)"
  shows "mdb_reader_list w (Some (\<lambda>m s. (0, s @ [m]))) [] =
      (let ls = map reader_line (filter (\<lambda>r. mr_pid r \<noteq> 0) (take (mti_numreaders ti) (mti_readers ti)))
       in Some (0, if ls = [] then [''(no active readers)'' @ [CHR 0x0A]] else reader_header # ls)) \<and>
    length (reader_line r) + 1 \<le> 64"
  using assms reader_line_length[of r] reader_loop_lists[of 0 "mti_numreaders ti" "mti_readers ti" True "[]"]
  by (simp add: mdb_reader_list_def Let_def)

definition demo_table :: MDB_txninfo where
  "demo_table = \<lparr>mti_txnid = 9, mti_numreaders = 3, mti_readers = [\<lparr>mr_txnid = 4, mr_pid = 0, mr_tid = 0\<rparr>, \<lparr>mr_txnid = 7, mr_pid = 1234, mr_tid = 255\<rparr>,
     \<lparr>mr_txnid = - 1, mr_pid = 77, mr_tid = 16\<rparr>, \<lparr>mr_txnid = 0, mr_pid = 0, mr_tid = 0\<rparr>]\<rparr>"

lemma demo_lines:
  "reader_line \<lparr>mr_txnid = 7, mr_pid = 1234, mr_tid = 255\<rparr> = ''      1234 ff 7'' @ [CHR 0x0A]"
  "reader_line \<lparr>mr_txnid = - 1, mr_pid = 77, mr_tid = 16\<rparr> = ''        77 10 -'' @ [CHR 0x0A]"
  by (simp_all add: reader_line_def fmt_10d_def Let_def digits.simps digit_char_def char_of_def, simp_all add: numeral_eq_Suc bit_0)

theorem reader_list_complete_witness:
  "mdb_reader_list (demo\<lparr>w_env := (w_env demo)\<lparr>me_txns := Some demo_table\<rparr>\<rparr>) (Some (\<lambda>m s. (0, s @ [m]))) [] =
     Some (0, [reader_header, ''      1234 ff 7'' @ [CHR 0x0A], ''        77 10 -'' @ [CHR 0x0A]])"
  using reader_list_complete[of "demo\<lparr>w_env := (w_env demo)\<lparr>me_txns := Some demo_table\<rparr>\<rparr>" demo_table]
  by (simp add: demo_table_def demo_lines Let_def)

end
