(* ===== verification/Jni.thy ===== *)
theory Jni
  imports Memory Lmdb_Prelude "HOL-Library.Word"
begin

section \<open>Support for Java: buffer.c and hawtjni-callback.c\<close>

text \<open>
  \<open>buffer_copy\<close>, and the table of callbacks through which native code calls methods of Java objects, in the build
  without an assembler: 128 slots and a table of trampolines for up to 12 arguments. A reference to a Java object
  and a method identifier are numbers. The Java virtual machine is the record \<open>jvm\<close> of what its functions
  return: \<open>jv_method\<close> finds a method of an object (or class) by name and signature, \<open>jv_ref\<close> makes a global
  reference, \<open>jv_same\<close> tells whether two references are to the same object, \<open>jv_attach\<close> whether the thread can be
  attached, \<open>jv_array\<close> whether an array of arguments can be had, \<open>jv_pending\<close> whether an exception is pending
  before the call, and \<open>jv_call\<close> is the result of a call of the method on the object with the arguments, with an
  exception as no result.
\<close>

definition buffer_copy :: "mem \<Rightarrow> addr \<Rightarrow> nat \<Rightarrow> addr \<Rightarrow> nat \<Rightarrow> nat \<Rightarrow> mem" where
  "buffer_copy m source source_pos dest dest_pos n = memmove m (dest + dest_pos) (source + source_pos) n"

abbreviation (input) MAX_CALLBACKS :: nat where "MAX_CALLBACKS \<equiv> 128"
abbreviation (input) MAX_ARGS :: nat where "MAX_ARGS \<equiv> 12"

record CALLBACK_DATA =
  cd_callback :: "nat option"
  cd_methodID :: nat
  cd_object :: "nat option"
  cd_isStatic :: bool
  cd_isArrayBased :: bool
  cd_argCount :: nat
  cd_errorResult :: "64 word"

record jvm =
  jv_method :: "bool \<Rightarrow> nat \<Rightarrow> string \<Rightarrow> string \<Rightarrow> nat option"
  jv_ref :: "nat \<Rightarrow> nat option"
  jv_same :: "nat \<Rightarrow> nat \<Rightarrow> bool"
  jv_attach :: bool
  jv_array :: bool
  jv_pending :: bool
  jv_call :: "bool \<Rightarrow> nat \<Rightarrow> nat \<Rightarrow> 64 word list \<Rightarrow> 64 word option"

record callbacks =
  callbackData :: "CALLBACK_DATA list"
  callbackEnabled :: bool
  callbackEntryCount :: int
  initialized :: bool

definition no_callback :: CALLBACK_DATA where
  "no_callback = \<lparr>cd_callback = None, cd_methodID = 0, cd_object = None, cd_isStatic = False, cd_isArrayBased = False,
     cd_argCount = 0, cd_errorResult = 0\<rparr>"

subsection \<open>Trampolines\<close>

text \<open>A trampoline is the function for a slot and a number of arguments; \<open>fnx_array\<close> has all of them.\<close>

datatype trampoline = FN nat nat

definition fnx_array :: "trampoline list list" where
  "fnx_array = map (\<lambda>args. map (\<lambda>i. FN i args) [0..<MAX_CALLBACKS]) [0..<MAX_ARGS + 1]"

subsection \<open>Binding and unbinding\<close>

definition free_slot :: "CALLBACK_DATA list \<Rightarrow> nat option" where
  "free_slot ds = (let k = length (takeWhile (\<lambda>d. cd_callback d \<noteq> None) ds) in if k < length ds then Some k else None)"

text \<open>
  The result is the trampoline, or \<open>None\<close> for 0, and the new table. A number of arguments outside of \<open>fnx_array\<close> is an access out
  of bounds, no result at all.
\<close>

definition bind_slot :: "jvm \<Rightarrow> callbacks \<Rightarrow> nat \<Rightarrow> nat \<Rightarrow> nat \<Rightarrow> nat \<Rightarrow> nat \<Rightarrow> bool \<Rightarrow> bool \<Rightarrow> 64 word \<Rightarrow> (trampoline option \<times> callbacks) option" where
  "bind_slot jv cb i callbackObject object mid argCount isStatic isArrayBased errorResult = do {
     d \<leftarrow> aget (callbackData cb) i;
     case jv_ref jv callbackObject of
       None \<Rightarrow> Some (None, cb)
     | Some cref \<Rightarrow> do {
         let d = d\<lparr>cd_callback := Some cref\<rparr>;
         case jv_ref jv object of
           None \<Rightarrow> do { ds \<leftarrow> aput (callbackData cb) i (d\<lparr>cd_object := None\<rparr>); Some (None, cb\<lparr>callbackData := ds\<rparr>) }
         | Some oref \<Rightarrow> do {
             ds \<leftarrow> aput (callbackData cb) i (d\<lparr>cd_object := Some oref, cd_isStatic := isStatic, cd_isArrayBased := isArrayBased,
               cd_argCount := argCount, cd_errorResult := errorResult, cd_methodID := mid\<rparr>);
             row \<leftarrow> aget fnx_array argCount;
             fn \<leftarrow> aget row i;
             Some (Some fn, cb\<lparr>callbackData := ds\<rparr>)
           }
       }
   }"

definition Callback_bind ::
  "jvm \<Rightarrow> callbacks \<Rightarrow> nat \<Rightarrow> nat option \<Rightarrow> string option \<Rightarrow> string option \<Rightarrow> nat \<Rightarrow> bool \<Rightarrow> bool \<Rightarrow> 64 word \<Rightarrow> (trampoline option \<times> callbacks) option" where
  "Callback_bind jv cb callbackObject object method signature argCount isStatic isArrayBased errorResult =
     (let cb = (if initialized cb then cb else cb\<lparr>callbackData := replicate MAX_CALLBACKS no_callback, initialized := True\<rparr>) in
      case (object, method, signature) of
        (Some ob, Some m, Some sig) \<Rightarrow>
          (case jv_method jv isStatic ob m sig of
             None \<Rightarrow> Some (None, cb)
           | Some mid \<Rightarrow>
               (case free_slot (callbackData cb) of
                  None \<Rightarrow> Some (None, cb)
                | Some i \<Rightarrow> bind_slot jv cb i callbackObject ob mid argCount isStatic isArrayBased errorResult))
      | _ \<Rightarrow> Some (None, cb))"

definition Callback_unbind :: "jvm \<Rightarrow> callbacks \<Rightarrow> nat \<Rightarrow> callbacks" where
  "Callback_unbind jv cb callback =
     cb\<lparr>callbackData := map (\<lambda>d. case cd_callback d of Some c \<Rightarrow> if jv_same jv callback c then no_callback else d | None \<Rightarrow> d) (callbackData cb)\<rparr>"

definition Callback_getEnabled :: "callbacks \<Rightarrow> bool" where
  "Callback_getEnabled cb = callbackEnabled cb"

definition Callback_getEntryCount :: "callbacks \<Rightarrow> int" where
  "Callback_getEntryCount cb = callbackEntryCount cb"

definition Callback_setEnabled :: "callbacks \<Rightarrow> bool \<Rightarrow> callbacks" where
  "Callback_setEnabled cb enable = cb\<lparr>callbackEnabled := enable\<rparr>"

definition Callback_reset :: "callbacks \<Rightarrow> callbacks" where
  "Callback_reset cb = cb\<lparr>callbackData := replicate MAX_CALLBACKS no_callback\<rparr>"

subsection \<open>Calling back\<close>

text \<open>
  \<open>callback\<close> with the arguments on the stack. The result of a call is the method's, the error result if an exception
  is pending before or after, or if the thread cannot be attached. Reading more arguments than there are is no
  result. The counter of entries is incremented before the call and decremented after it.
\<close>

definition callback :: "jvm \<Rightarrow> callbacks \<Rightarrow> nat \<Rightarrow> 64 word list \<Rightarrow> 64 word option" where
  "callback jv cb index vl =
     (if \<not> callbackEnabled cb then Some 0
      else do {
        d \<leftarrow> aget (callbackData cb) index;
        if \<not> jv_attach jv \<or> jv_pending jv then Some (cd_errorResult d)
        else if cd_isArrayBased d \<and> \<not> jv_array jv then Some (cd_errorResult d)
        else if length vl < cd_argCount d then None
        else do {
          ob \<leftarrow> cd_object d;
          Some (case jv_call jv (cd_isStatic d) ob (cd_methodID d) (take (cd_argCount d) vl) of Some r \<Rightarrow> r | None \<Rightarrow> cd_errorResult d)
        }
      })"

text \<open>A trampoline passes its slot and its arguments on.\<close>

fun call_trampoline :: "jvm \<Rightarrow> callbacks \<Rightarrow> trampoline \<Rightarrow> 64 word list \<Rightarrow> 64 word option" where
  "call_trampoline jv cb (FN index args) ps = (if length ps = args then callback jv cb index ps else None)"

section \<open>Calls reach the bound method\<close>

datatype cb_op = Bind jvm nat "nat option" "string option" "string option" nat bool bool "64 word" | Unbind jvm nat | Set_enabled bool

fun run_op :: "cb_op \<Rightarrow> callbacks \<Rightarrow> callbacks option" where
  "run_op (Bind jv c ob m sig n st arr err) cb = map_option snd (Callback_bind jv cb c ob m sig n st arr err)"
| "run_op (Unbind jv c) cb = Some (Callback_unbind jv cb c)"
| "run_op (Set_enabled b) cb = Some (Callback_setEnabled cb b)"

fun run_ops :: "cb_op list \<Rightarrow> callbacks \<Rightarrow> callbacks option" where
  "run_ops [] cb = Some cb"
| "run_ops (p # ps) cb = do { cb \<leftarrow> run_op p cb; run_ops ps cb }"

lemma free_slot_free:
  assumes "free_slot ds = Some i"
  shows "i < length ds" and "cd_callback (ds ! i) = None"
proof -
  let ?k = "length (takeWhile (\<lambda>d. cd_callback d \<noteq> None) ds)"
  have i: "i = ?k" "?k < length ds" using assms by (auto simp: free_slot_def Let_def split: if_splits)
  then show "i < length ds" by simp
  show "cd_callback (ds ! i) = None" using nth_length_takeWhile[OF i(2)] i(1) by simp
qed

lemma bind_slot_other:
  assumes "bind_slot jv cb i c ob mid n st arr err = Some (f, cb')" and "i < length (callbackData cb)"
  shows "\<exists>d. callbackData cb' = (callbackData cb)[i := d] \<or> callbackData cb' = callbackData cb"
    and "initialized cb' = initialized cb"
  using assms by (auto simp: bind_slot_def aget_def aput_def Let_def split: option.splits bind_splits)

text \<open>A slot that is taken stays as it is unless its callback is unbound.\<close>

lemma run_op_keeps:
  assumes "run_op p cb = Some cb'" and "initialized cb" and "i < length (callbackData cb)" and "callbackData cb ! i = d" and "cd_callback d = Some cref"
    and "\<And>jv c. p = Unbind jv c \<Longrightarrow> \<not> jv_same jv c cref"
  shows "initialized cb' \<and> i < length (callbackData cb') \<and> callbackData cb' ! i = d"
proof (cases p)
  case (Bind jv c ob m sig n st arr err)
  show ?thesis
  proof (cases "callbackData cb' = callbackData cb \<and> initialized cb' = initialized cb")
    case False
    then obtain j c' ob' mid f where j: "free_slot (callbackData cb) = Some j" "bind_slot jv cb j c' ob' mid n st arr err = Some (f, cb')"
      using assms(1,2) Bind by (auto simp: Callback_bind_def Let_def split: option.splits)
    have "j \<noteq> i" using free_slot_free[OF j(1)] assms(4,5) by auto
    then show ?thesis using bind_slot_other[OF j(2)] free_slot_free[OF j(1)] assms(2-4) by auto
  qed (use assms in simp)
next
  case (Unbind jv c)
  then show ?thesis using assms by (auto simp: Callback_unbind_def)
next
  case (Set_enabled b)
  then show ?thesis using assms by (auto simp: Callback_setEnabled_def)
qed

lemma run_ops_keeps:
  assumes "run_ops ps cb = Some cb'" and "initialized cb" and "i < length (callbackData cb)" and "callbackData cb ! i = d" and "cd_callback d = Some cref"
    and "\<forall>jv c. Unbind jv c \<in> set ps \<longrightarrow> \<not> jv_same jv c cref"
  shows "i < length (callbackData cb') \<and> callbackData cb' ! i = d"
  using assms
proof (induction ps arbitrary: cb)
  case (Cons p ps)
  then obtain cb1 where 1: "run_op p cb = Some cb1" "run_ops ps cb1 = Some cb'" by (auto split: bind_splits)
  then have "initialized cb1 \<and> i < length (callbackData cb1) \<and> callbackData cb1 ! i = d"
    using run_op_keeps[OF 1(1) Cons.prems(2-5)] Cons.prems(6) by auto
  then show ?case using Cons.IH[OF 1(2)] Cons.prems(5,6) by auto
qed auto

lemma fnx_array_entry: "aget fnx_array n = Some row \<Longrightarrow> aget row i = Some fn \<Longrightarrow> fn = FN i n"
  by (auto simp: fnx_array_def aget_def split: if_splits simp del: upt_Suc)

definition bound_data :: "nat \<Rightarrow> nat \<Rightarrow> nat \<Rightarrow> nat \<Rightarrow> bool \<Rightarrow> bool \<Rightarrow> 64 word \<Rightarrow> CALLBACK_DATA" where
  "bound_data cref oref mid n st arr err = \<lparr>cd_callback = Some cref, cd_methodID = mid, cd_object = Some oref, cd_isStatic = st, cd_isArrayBased = arr,
     cd_argCount = n, cd_errorResult = err\<rparr>"

lemma bind_slot_data:
  assumes "bind_slot jv cb i c ob mid n st arr err = Some (Some f, cb')"
  shows "\<exists>cref oref. jv_ref jv c = Some cref \<and> jv_ref jv ob = Some oref \<and> f = FN i n \<and> i < length (callbackData cb) \<and>
    callbackData cb' = (callbackData cb)[i := bound_data cref oref mid n st arr err] \<and> initialized cb' = initialized cb"
proof -
  obtain d cref oref ds row where r: "aget (callbackData cb) i = Some d" "jv_ref jv c = Some cref" "jv_ref jv ob = Some oref"
    "aput (callbackData cb) i (d\<lparr>cd_callback := Some cref, cd_object := Some oref, cd_isStatic := st, cd_isArrayBased := arr,
               cd_argCount := n, cd_errorResult := err, cd_methodID := mid\<rparr>) = Some ds"
    "aget fnx_array n = Some row" "aget row i = Some f" "cb' = cb\<lparr>callbackData := ds\<rparr>"
    using assms by (auto simp: bind_slot_def Let_def split: option.splits bind_splits)
  have "d\<lparr>cd_callback := Some cref, cd_object := Some oref, cd_isStatic := st, cd_isArrayBased := arr,
               cd_argCount := n, cd_errorResult := err, cd_methodID := mid\<rparr> = bound_data cref oref mid n st arr err"
    by (cases d) (simp add: bound_data_def)
  then show ?thesis using r fnx_array_entry[OF r(5,6)] by (simp add: array_simps)
qed

text \<open>
  C27: A trampoline reaches the method it was bound to. If \<open>Callback.bind\<close> gives a function pointer, a later call of it with the number of
  arguments it was bound for calls the bound method on the bound object with these arguments and returns its
  result, or the bound error result if it throws, whatever other callbacks were bound and unbound since.
\<close>

theorem callback_dispatch:
  assumes bnd: "Callback_bind jv cb c (Some ob) (Some m) (Some sig) n st arr err = Some (Some f, cb1)"
    and ops: "run_ops ops cb1 = Some cb2" and mine: "\<forall>jv' c'. Unbind jv' c' \<in> set ops \<longrightarrow> \<not> jv_same jv' c' (the (jv_ref jv c))"
    and on: "callbackEnabled cb2" "jv_attach jv2" "\<not> jv_pending jv2" "jv_array jv2" and ps: "length ps = n"
  shows "\<exists>mid oref. jv_method jv st ob m sig = Some mid \<and> jv_ref jv ob = Some oref \<and>
    call_trampoline jv2 cb2 f ps = Some (case jv_call jv2 st oref mid ps of Some r \<Rightarrow> r | None \<Rightarrow> err)"
proof -
  define cb0 where "cb0 = (if initialized cb then cb else cb\<lparr>callbackData := replicate MAX_CALLBACKS no_callback, initialized := True\<rparr>)"
  obtain mid i where b: "jv_method jv st ob m sig = Some mid" "bind_slot jv cb0 i c ob mid n st arr err = Some (Some f, cb1)"
    using bnd unfolding Callback_bind_def Let_def cb0_def by (auto split: option.splits)
  obtain cref oref where d: "jv_ref jv c = Some cref" "jv_ref jv ob = Some oref" "f = FN i n" "i < length (callbackData cb0)"
    "callbackData cb1 = (callbackData cb0)[i := bound_data cref oref mid n st arr err]" "initialized cb1 = initialized cb0"
    using bind_slot_data[OF b(2)] by blast
  have "i < length (callbackData cb2) \<and> callbackData cb2 ! i = bound_data cref oref mid n st arr err"
    by (rule run_ops_keeps[OF ops, where cref = cref]) (use d mine in \<open>auto simp: cb0_def bound_data_def\<close>)
  then show ?thesis using b(1) d(2,3) on ps by (simp add: callback_def bound_data_def split: option.split)
qed

definition demo_jvm :: jvm where
  "demo_jvm = \<lparr>jv_method = (\<lambda>st ob m sig. if m = ''compare'' then Some 5 else None), jv_ref = (\<lambda>ob. Some (ob + 100)), jv_same = (\<lambda>a b. b = a + 100),
     jv_attach = True, jv_array = True, jv_pending = False, jv_call = (\<lambda>st ob mid ps. Some (of_nat ob + of_nat mid + sum_list ps))\<rparr>"

definition no_callbacks :: callbacks where
  "no_callbacks = \<lparr>callbackData = [], callbackEnabled = True, callbackEntryCount = 0, initialized = False\<rparr>"

definition demo_bound :: callbacks where
  "demo_bound = no_callbacks\<lparr>initialized := True, callbackData := (replicate MAX_CALLBACKS no_callback)[0 := bound_data 107 108 5 2 False False 9]\<rparr>"

lemma demo_bind:
  "Callback_bind demo_jvm no_callbacks 7 (Some 8) (Some ''compare'') (Some ''(JJ)J'') 2 False False 9 = Some (Some (FN 0 2), demo_bound)"
proof -
  have "free_slot (replicate MAX_CALLBACKS no_callback) = Some 0" by (simp add: free_slot_def no_callback_def)
  moreover have "aget fnx_array 2 = Some (map (\<lambda>i. FN i 2) [0..<MAX_CALLBACKS])" by (simp add: fnx_array_def aget_def del: upt_Suc)
  moreover have "aget (map (\<lambda>i. FN i 2) [0..<MAX_CALLBACKS]) 0 = Some (FN 0 2)" by (simp add: aget_def del: upt_Suc)
  ultimately show ?thesis
    by (simp add: Callback_bind_def bind_slot_def no_callbacks_def demo_jvm_def demo_bound_def bound_data_def no_callback_def)
qed

theorem callback_dispatch_witness:
  "call_trampoline demo_jvm (Callback_unbind demo_jvm demo_bound 6) (FN 0 2) [1, 2] = Some 116"
proof -
  have "\<exists>mid oref. jv_method demo_jvm False 8 ''compare'' ''(JJ)J'' = Some mid \<and> jv_ref demo_jvm 8 = Some oref \<and>
      call_trampoline demo_jvm (Callback_unbind demo_jvm demo_bound 6) (FN 0 2) [1, 2] = Some (case jv_call demo_jvm False oref mid [1, 2] of Some r \<Rightarrow> r | None \<Rightarrow> 9)"
    by (rule callback_dispatch[OF demo_bind, where ops = "[Unbind demo_jvm 6]"])
      (simp_all add: demo_jvm_def demo_bound_def no_callbacks_def Callback_unbind_def)
  then show ?thesis by (simp add: demo_jvm_def)
qed

end
