(* ===== verification/Spec2Isabelle.thy ===== *)
theory Spec2Isabelle
  imports Midl_Sort Commit Mvcc_Spec Touch_Spec Env_Spec Put_Spec Copy Env_Misc Env_Open_Spec Reader_List Jni
begin

text \<open>
  \<^bold>\<open>LMDB as shipped in lmdbjni.\<close> The sources under \<^verbatim>\<open>src/lmdbjni/src/main/native-package/src\<close> are the key-value store
  LMDB (\<^verbatim>\<open>mdb.c\<close>, \<^verbatim>\<open>midl.c\<close> and their headers) and a thin JNI layer. A database is a B+ tree of pages in a mapped
  file. One writer at a time copies the pages it changes, and a commit writes the dirty pages and then one of two
  meta pages that name the roots; readers publish the snapshot they read in a table, and the writer reuses only
  the pages that no snapshot needs. The development is a shallow embedding of this code in HOL and the theorems
  about it.

  \<^bold>\<open>How the code is modelled.\<close> Integers keep their width as words and wrap. Pages, nodes and stored records are bytes
  of one address space (\<open>mem\<close>), read and written little endian at the offsets of the C structures. Everything else
  is records: \<open>MDB_env\<close>, \<open>MDB_txn\<close>, \<open>MDB_cursor\<close>, \<open>MDB_db\<close>, \<open>MDB_meta\<close>, \<open>MDB_reader\<close>, held in one record \<open>world\<close> that the
  functions take and return. A handler is one definition with its guards and early returns in the order of the
  code; long ones are cut at their labels. Return codes are integers as in \<^verbatim>\<open>lmdb.h\<close>. The value \<open>None\<close> means that
  the C code has no result: an access outside an array, a failed assertion, a NULL dereference, or a loop that
  does not end. Loops whose end the code does not show are \<open>partial_function (option)\<close>; a theorem that claims a
  result shows that it is there. What the operating system and the C library decide is a field of the world that
  the theorems quantify over: \<open>w_ok\<close> (does an allocation succeed), \<open>w_write\<close> and \<open>w_sync\<close> (results of writes and
  syncs), \<open>w_alive\<close> (which processes live), \<open>w_lockrc\<close>, \<open>w_tlsrc\<close>, \<open>w_pidset\<close> (mutexes, thread data, process locks).
  The build modelled is the default one of the package: POSIX, 64 bit, little endian, no MDB_DEBUG.

  \<^bold>\<open>Theories and the code they model.\<close>
  \<^item> \<open>Lmdb_Prelude\<close>, \<open>Lmdb_Const\<close>: word types, checked arrays, generic lemmas; the flags and codes of \<^verbatim>\<open>lmdb.h\<close>, \<^verbatim>\<open>mdb.c\<close>.
  \<^item> \<open>Midl\<close>, \<open>Midl_Sort\<close>: all of \<^verbatim>\<open>midl.c\<close>.
  \<^item> \<open>Compare\<close>: \<open>mdb_cmp_memn\<close>, \<open>mdb_cmp_memnr\<close>, \<open>mdb_cmp_int\<close>, \<open>mdb_cmp_cint\<close>, \<open>mdb_cmp_long\<close>; the locale \<open>comparison\<close>.
  \<^item> \<open>Memory\<close>, \<open>Page\<close>: the byte memory, page and node layout, and the parts of \<open>mdb_node_add\<close>, \<open>mdb_node_del\<close>,
    \<open>mdb_node_shrink\<close>, \<open>mdb_update_key\<close> and \<open>mdb_page_copy\<close> that rearrange one page.
  \<^item> \<open>Lmdb_State\<close>: the records and the world.
  \<^item> \<open>Search\<close>, \<open>Cursor\<close>: \<open>mdb_node_search\<close>, \<open>mdb_page_get\<close>, \<open>mdb_page_search\<close>, all of \<open>mdb_cursor_get\<close>, \<open>mdb_get\<close>.
  \<^item> \<open>Alloc\<close>: \<open>mdb_page_alloc\<close>, \<open>mdb_page_touch\<close>, \<open>mdb_page_flush\<close>, \<open>mdb_page_spill\<close>, \<open>mdb_ovpage_free\<close>.
  \<^item> \<open>Meta\<close>: \<open>mdb_env_pick_meta\<close>, \<open>mdb_env_read_header\<close>, \<open>mdb_env_init_meta\<close>, \<open>mdb_env_sync\<close>, \<open>mdb_env_write_meta\<close>.
  \<^item> \<open>Txn\<close>: \<open>mdb_txn_begin\<close>, \<open>mdb_txn_renew\<close>, \<open>mdb_txn_reset\<close>, \<open>mdb_txn_abort\<close>, reader slots, nested transactions.
  \<^item> \<open>Btree\<close>, \<open>Put\<close>, \<open>Dbi\<close>: \<open>mdb_page_split\<close>, \<open>mdb_node_move\<close>, \<open>mdb_page_merge\<close>, \<open>mdb_rebalance\<close>, \<open>mdb_cursor_put\<close>,
    \<open>mdb_put\<close>, \<open>mdb_cursor_del\<close>, \<open>mdb_del\<close>, \<open>mdb_drop\<close>, \<open>mdb_dbi_open\<close> and the statistics.
  \<^item> \<open>Commit\<close>: \<open>mdb_freelist_save\<close>, \<open>mdb_txn_commit\<close>. \<open>Readers\<close>: \<open>mdb_reader_check\<close>, \<open>mdb_pid_insert\<close>.
  \<^item> \<open>Env\<close>: creation, configuration, mapping, the second half of opening, the plain copy, error texts, lock names.
  \<^item> \<open>Env_Open\<close>, \<open>Env_Misc\<close>: \<open>mdb_env_open\<close>, \<open>mdb_env_setup_locks\<close>, \<open>mdb_env_close\<close> with what the process holds of the
    system; the fields that only the application reads, \<open>mdb_reader_pid\<close>.
  \<^item> \<open>Copy_Threads\<close>, \<open>Copy\<close>: the compacting copy, first as the steps of its two threads (\<open>mdb_env_copythr\<close>,
    \<open>mdb_env_cthr_toggle\<close>), then as the walk of the copying thread (\<open>mdb_env_cwalk\<close>, \<open>mdb_env_copyfd1\<close>), and \<open>mdb_env_copy2\<close>.
  \<^item> \<open>Reader_List\<close>: \<open>mdb_reader_list\<close>. \<open>Jni\<close>: \<^verbatim>\<open>buffer.c\<close> and the callback table of \<^verbatim>\<open>hawtjni-callback.c\<close>.

  \<^bold>\<open>What the lemmas show.\<close>
  \<^item> \<open>Midl\<close>, \<open>Midl_Sort\<close>: every list operation against its meaning on the list of IDs, with the error branches;
    the sort ends within its stack of 64 entries and sorts.
  \<^item> \<open>Page_Ops\<close>, \<open>Page_Spec\<close>: \<open>page_wf\<close> (bounds and disjointness of the nodes) is kept and each operation is a list
    operation on \<open>page_nodes\<close>, with nothing outside the page changed.
  \<^item> \<open>Page_Search\<close>, \<open>Page_Tree\<close>: the locale \<open>key_order\<close> is what the search needs of a comparison and is interpreted
    on the comparison functions; \<open>tree\<close> and \<open>db_holds\<close> abstract the pages of a database to the sorted list of its items.
  \<^item> \<open>Cursor_Spec\<close>: a cursor refines a position in that list; \<open>mdb_get\<close> is its lookup; scans are complete.
  \<^item> \<open>Tree_Update\<close>, \<open>Put_Spec\<close>: a change of the bytes of one leaf is a change of its part of the list; \<open>mdb_put\<close> of a new
    key into writable pages with room refines the insertion into the list, and \<open>mdb_get\<close> then finds it.
  \<^item> \<open>Alloc_Spec\<close>, \<open>Page_Move\<close>, \<open>Touch_Spec\<close>: allocation takes exactly a run of free pages; a clean page is changed in a
    copy under a new number and the mapped file stays as it is.
  \<^item> \<open>Mvcc_Spec\<close>, \<open>Readers_Spec\<close>: \<open>mvcc_step\<close> interleaves the single loads and stores of readers that take a snapshot
    (the retry loop of \<open>mdb_txn_renew0\<close>) and of the writer that scans the table, with commits and reader checks; the calls
    of the model are runs of these steps. In every run reused pages are older than every active snapshot; the
    check clears the slots of dead processes and no other.
  \<^item> \<open>Meta_Spec\<close>: a write of a meta page that is torn by a crash leaves the old or the new state; so does a failed one unless
    the write of the old values is torn in its last bytes, and then the page is a mixture; a new file's header is read back.
  \<^item> \<open>Env_Spec\<close>, \<open>Compare\<close>: hash, text form, limits, error texts, copy loop; orders of keys.

  \<^item> \<open>Copy_Threads\<close>: the writer's file is a prefix of the buffers in order in every interleaving, and without errors
    no signal is lost and the two threads always come to an end; two ways in which a failed write is lost.
  \<^item> \<open>Env_Open_Spec\<close>: opening and closing give back what they took, whatever fails, page by page for the mappings.
  \<^item> \<open>Reader_List\<close>, \<open>Jni\<close>: the listing is complete and fits its buffer; a callback reaches the bound method.

  The theory \<open>Demo\<close> is a small concrete database on which the theorems are applied as witnesses.

  \<^bold>\<open>Bounds.\<close> \<open>CURSOR_STACK\<close> (32) bounds the height of a tree as in the code, the sort's stack has \<open>CHAR_BIT * sizeof(int) * 2\<close>
  entries, page sizes are at most \<open>MAX_PAGESIZE\<close>. Where the code computes in \<open>int\<close> and the value may not fit, the model has
  the conversion or \<open>None\<close>, and the theorems state the bound: lists of at most \<open>2 ^ 30\<close> IDs for the sort, ranges below
  \<open>2 ^ 31\<close>, overflow tails below 2 GB, process ids that are not negative. Two counters are kept wider than in the code: the
  file offset of \<open>mdb_env_read_header\<close>, an \<open>int\<close>, for page sizes from \<open>2 ^ 31\<close> on, and the length of \<open>me_pghead\<close> in
  \<open>mdb_page_alloc\<close>, an \<open>unsigned\<close>, for lists of \<open>2 ^ 32\<close> and more IDs. The only fuel is the
  first argument of \<open>mdb_env_cwalk\<close>, the depth to which sub-databases are nested; two levels exist in a database that
  \<^verbatim>\<open>mdb.c\<close> made, a named database in the main one and duplicates in it.

  \<^bold>\<open>Not modelled.\<close> Code that only prints or checks for debugging and is compiled with MDB_DEBUG
  (\<open>mdb_page_list\<close>, \<open>mdb_cursor_chk\<close>, \<open>mdb_audit\<close>, \<open>mdb_dkey\<close>); \<open>mdb_assert_fail\<close> ends the process, which the model writes as no
  result. The branches for Windows and for POSIX semaphores: the model follows Linux with mutexes in the lock
  file. The memory model is sequentially consistent: loads and stores of the reader table take effect in the
  order of the code. The header \<^verbatim>\<open>lmdbjni.h\<close> has only includes, the assembler
  branch of \<^verbatim>\<open>hawtjni-callback.c\<close> emits x86 code and is not built on 64 bit, and the headers under \<^verbatim>\<open>windows\<close> are
  type definitions for another platform.
\<close>

end
